(* ===== verification/Prelude.thy ===== *)
theory Prelude
  imports Main "HOL-Library.Word"
begin

text \<open>
  Shared vocabulary of the development: the machine integers of the Rust sources, three-way
  comparison results and the contract a comparison function has to meet, and the operations on
  byte strings the sources use from the standard library.

  A Rust \<open>String\<close> is a list of UTF-8 bytes and is a \<open>string\<close> (list of bytes) here, so that
  \<open>length\<close> is Rust's \<open>len()\<close>.
\<close>

named_theorems deltaship_defs \<open>definitions unfolded by the component proofs\<close>

type_synonym u8 = "8 word"
type_synonym u32 = "32 word"
type_synonym u64 = "64 word"
type_synonym bytes = "u8 list"


section \<open>Three-way comparison\<close>

text \<open>\<open>std::cmp::Ordering\<close> and the \<open>Ord\<close> implementation of the primitive types.\<close>

datatype ordering = Less | Equal | Greater

fun reverse_ordering :: "ordering \<Rightarrow> ordering" where
  "reverse_ordering Less = Greater"
| "reverse_ordering Equal = Equal"
| "reverse_ordering Greater = Less"

definition ord_cmp :: "'a::linorder \<Rightarrow> 'a \<Rightarrow> ordering" where
  "ord_cmp a b = (if a < b then Less else if a = b then Equal else Greater)"

lemma ord_cmp_simps [simp]:
  "ord_cmp a b = Less \<longleftrightarrow> a < b"
  "ord_cmp a b = Equal \<longleftrightarrow> a = b"
  "ord_cmp a b = Greater \<longleftrightarrow> b < a"
  by (auto simp: ord_cmp_def)

lemma reverse_ordering_inj [simp]: "reverse_ordering a = reverse_ordering b \<longleftrightarrow> a = b"
  by (cases a; cases b) auto

lemma reverse_ordering_eq_iff [simp]:
  "reverse_ordering c = Less \<longleftrightarrow> c = Greater"
  "reverse_ordering c = Equal \<longleftrightarrow> c = Equal"
  "reverse_ordering c = Greater \<longleftrightarrow> c = Less"
  by (cases c; simp)+

text \<open>
  What a client may assume of a comparison function: it is a total preorder. A comparison whose
  \<open>Equal\<close> is equality is a total order.
\<close>

locale comparator =
  fixes cmp :: "'a \<Rightarrow> 'a \<Rightarrow> ordering"
  assumes cmp_refl: "cmp x x = Equal"
    and cmp_flip: "cmp y x = reverse_ordering (cmp x y)"
    and cmp_trans: "cmp x y = Less \<Longrightarrow> cmp y z = Less \<Longrightarrow> cmp x z = Less"
    and cmp_subst: "cmp x y = Equal \<Longrightarrow> cmp x z = cmp y z"
begin

lemma cmp_sym: "cmp x y = Equal \<Longrightarrow> cmp y x = Equal"
  using cmp_flip [of x y] by simp

lemma cmp_gt_iff: "cmp x y = Greater \<longleftrightarrow> cmp y x = Less"
  using cmp_flip [of x y] by auto

lemma cmp_gt_trans: "cmp x y = Greater \<Longrightarrow> cmp y z = Greater \<Longrightarrow> cmp x z = Greater"
  using cmp_trans [of z y x] by (simp add: cmp_gt_iff)

lemma cmp_subst_right: "cmp x y = Equal \<Longrightarrow> cmp z x = cmp z y"
  using cmp_subst [of x y z] cmp_flip [of x z] cmp_flip [of y z] by simp

lemma cmp_le_trans:
  "cmp x y \<noteq> Greater \<Longrightarrow> cmp y z \<noteq> Greater \<Longrightarrow> cmp x z \<noteq> Greater"
  by (metis cmp_gt_iff cmp_gt_trans cmp_subst cmp_subst_right ordering.exhaust)

end

locale total_comparator = comparator +
  assumes cmp_eq: "cmp x y = Equal \<Longrightarrow> x = y"
begin

lemma cmp_eq_iff: "cmp x y = Equal \<longleftrightarrow> x = y"
  using cmp_eq cmp_refl by blast

end

interpretation prim: total_comparator "ord_cmp :: 'a::linorder \<Rightarrow> 'a \<Rightarrow> ordering"
proof (unfold_locales, goal_cases)
  case (2 y x)
  show ?case by (auto simp: ord_cmp_def)
qed (auto simp: ord_cmp_def split: if_splits)

text \<open>The \<open>Ord\<close> implementation of strings: the first differing byte decides, a proper prefix comes
  first.\<close>

fun str_le :: "string \<Rightarrow> string \<Rightarrow> bool" where
  "str_le [] t = True"
| "str_le (c # s) [] = False"
| "str_le (c # s) (d # t) =
     ((of_char c :: nat) < of_char d \<or> (of_char c :: nat) = of_char d \<and> str_le s t)"

definition str_cmp :: "string \<Rightarrow> string \<Rightarrow> ordering" where
  "str_cmp s t = (if s = t then Equal else if str_le s t then Less else Greater)"

lemma str_le_refl [simp]: "str_le s s"
  by (induction s) auto

lemma str_le_total: "str_le s t \<or> str_le t s"
  by (induction s t rule: str_le.induct) auto

lemma str_le_antisym: "str_le s t \<Longrightarrow> str_le t s \<Longrightarrow> s = t"
  by (induction s t rule: str_le.induct) (auto elim: str_le.elims)

lemma str_le_trans: "str_le s t \<Longrightarrow> str_le t u \<Longrightarrow> str_le s u"
proof (induction s t arbitrary: u rule: str_le.induct)
  case (3 c s d t)
  then show ?case by (cases u) auto
qed auto

interpretation str: total_comparator str_cmp
proof (unfold_locales, goal_cases)
  case (2 y x)
  then show ?case using str_le_antisym str_le_total by (auto simp: str_cmp_def)
next
  case (3 x y z)
  then show ?case using str_le_antisym str_le_trans by (fastforce simp: str_cmp_def split: if_splits)
qed (auto simp: str_cmp_def split: if_splits)

text \<open>Lexicographic composition: the second comparison decides where the first is \<open>Equal\<close>.\<close>

fun then_cmp :: "ordering \<Rightarrow> ordering \<Rightarrow> ordering" where
  "then_cmp Equal d = d"
| "then_cmp Less d = Less"
| "then_cmp Greater d = Greater"

lemma then_cmp_eq_iff:
  "then_cmp c d = Less \<longleftrightarrow> c = Less \<or> c = Equal \<and> d = Less"
  "then_cmp c d = Equal \<longleftrightarrow> c = Equal \<and> d = Equal"
  "then_cmp c d = Greater \<longleftrightarrow> c = Greater \<or> c = Equal \<and> d = Greater"
  by (cases c; simp)+

lemma comparator_then:
  assumes "comparator f" and "comparator g"
  shows "comparator (\<lambda>x y. then_cmp (f x y) (g x y))"
proof (rule comparator.intro, goal_cases)
  case (1 x)
  show ?case by (simp add: comparator.cmp_refl [OF assms(1)] comparator.cmp_refl [OF assms(2)])
next
  case (2 y x)
  show ?case
    using comparator.cmp_flip [OF assms(1), of y x] comparator.cmp_flip [OF assms(2), of y x]
    by (cases "f x y") auto
next
  case (3 x y z)
  then show ?case
    using comparator.cmp_trans [OF assms(1), of x y z] comparator.cmp_trans [OF assms(2), of x y z]
      comparator.cmp_subst [OF assms(1), of x y z] comparator.cmp_subst_right [OF assms(1), of y z x]
    by (auto simp: then_cmp_eq_iff)
next
  case (4 x y z)
  then show ?case
    using comparator.cmp_subst [OF assms(1), of x y z] comparator.cmp_subst [OF assms(2), of x y z]
    by (simp add: then_cmp_eq_iff)
qed

lemma comparator_on:
  assumes "comparator f"
  shows "comparator (\<lambda>x y. f (h x) (h y))"
  using assms unfolding comparator_def by blast

lemmas comparator_prim = prim.comparator_axioms


section \<open>Bytes and strings\<close>

definition is_ascii_digit :: "char \<Rightarrow> bool" where
  "is_ascii_digit c \<longleftrightarrow> 48 \<le> (of_char c :: nat) \<and> (of_char c :: nat) \<le> 57"

definition is_ascii_upper :: "char \<Rightarrow> bool" where
  "is_ascii_upper c \<longleftrightarrow> 65 \<le> (of_char c :: nat) \<and> (of_char c :: nat) \<le> 90"

definition is_ascii_lower :: "char \<Rightarrow> bool" where
  "is_ascii_lower c \<longleftrightarrow> 97 \<le> (of_char c :: nat) \<and> (of_char c :: nat) \<le> 122"

definition is_ascii_alphanumeric :: "char \<Rightarrow> bool" where
  "is_ascii_alphanumeric c \<longleftrightarrow> is_ascii_digit c \<or> is_ascii_upper c \<or> is_ascii_lower c"

definition is_ascii_hexdigit :: "char \<Rightarrow> bool" where
  "is_ascii_hexdigit c \<longleftrightarrow> is_ascii_digit c
     \<or> 65 \<le> (of_char c :: nat) \<and> (of_char c :: nat) \<le> 70
     \<or> 97 \<le> (of_char c :: nat) \<and> (of_char c :: nat) \<le> 102"

definition ascii_lower :: "char \<Rightarrow> char" where
  "ascii_lower c = (if is_ascii_upper c then char_of ((of_char c :: nat) + 32) else c)"

definition to_lowercase :: "string \<Rightarrow> string" where
  "to_lowercase s = map ascii_lower s"

lemmas ascii_defs =
  is_ascii_digit_def is_ascii_upper_def is_ascii_lower_def is_ascii_alphanumeric_def
  is_ascii_hexdigit_def ascii_lower_def

lemma ascii_lower_idem [simp]: "ascii_lower (ascii_lower c) = ascii_lower c"
  by (auto simp: ascii_lower_def is_ascii_upper_def)

lemma to_lowercase_idem [simp]: "to_lowercase (to_lowercase s) = to_lowercase s"
  by (simp add: to_lowercase_def)

lemma length_to_lowercase [simp]: "length (to_lowercase s) = length s"
  by (simp add: to_lowercase_def)

definition starts_with :: "string \<Rightarrow> string \<Rightarrow> bool" where
  "starts_with s p \<longleftrightarrow> take (length p) s = p"

definition ends_with :: "string \<Rightarrow> string \<Rightarrow> bool" where
  "ends_with s x \<longleftrightarrow> length x \<le> length s \<and> drop (length s - length x) s = x"

definition strip_prefix :: "string \<Rightarrow> string \<Rightarrow> string option" where
  "strip_prefix pfx s = (if starts_with s pfx then Some (drop (length pfx) s) else None)"

text \<open>\<open>str::contains\<close> with a string pattern.\<close>

fun contains_str :: "string \<Rightarrow> string \<Rightarrow> bool" where
  "contains_str [] p = (p = [])"
| "contains_str (c # cs) p = (starts_with (c # cs) p \<or> contains_str cs p)"

lemma contains_str_iff: "contains_str s p \<longleftrightarrow> (\<exists>a b. s = a @ p @ b)"
proof (induction s)
  case Nil
  then show ?case by simp
next
  case (Cons c cs)
  have "starts_with (c # cs) p \<longleftrightarrow> (\<exists>b. c # cs = p @ b)"
    by (metis append_eq_conv_conj append_take_drop_id starts_with_def)
  then show ?case
    using Cons by (auto simp: Cons_eq_append_conv)
qed

text \<open>\<open>str::split\<close> with a character pattern, and \<open>str::trim\<close> on ASCII whitespace.\<close>

fun split_char :: "char \<Rightarrow> string \<Rightarrow> string list" where
  "split_char d [] = [[]]"
| "split_char d (c # cs) =
     (if c = d then [] # split_char d cs
      else case split_char d cs of [] \<Rightarrow> [[c]] | w # ws \<Rightarrow> (c # w) # ws)"

lemma split_char_nonempty [simp]: "split_char d s \<noteq> []"
  by (induction s) (auto split: list.splits)

lemma split_char_absent: "d \<notin> set s \<Longrightarrow> split_char d s = [s]"
  by (induction s) auto

lemma split_char_pieces: "w \<in> set (split_char d s) \<Longrightarrow> d \<notin> set w"
  by (induction s arbitrary: w) (auto split: if_splits list.splits)

definition is_whitespace :: "char \<Rightarrow> bool" where
  "is_whitespace c \<longleftrightarrow> (of_char c :: nat) = 32 \<or> 9 \<le> (of_char c :: nat) \<and> (of_char c :: nat) \<le> 13"

definition trim :: "string \<Rightarrow> string" where
  "trim s = rev (dropWhile is_whitespace (rev (dropWhile is_whitespace s)))"

text \<open>\<open>str::split_whitespace\<close>: the maximal non-empty runs of non-whitespace.\<close>

fun split_ws_aux :: "string \<Rightarrow> string \<Rightarrow> string list" where
  "split_ws_aux [] acc = (if acc = [] then [] else [rev acc])"
| "split_ws_aux (c # cs) acc =
     (if is_whitespace c then (if acc = [] then split_ws_aux cs [] else rev acc # split_ws_aux cs [])
      else split_ws_aux cs (c # acc))"

definition split_whitespace :: "string \<Rightarrow> string list" where
  "split_whitespace s = split_ws_aux s []"

text \<open>\<open>str::split_once\<close> with a character.\<close>

fun split_once :: "char \<Rightarrow> string \<Rightarrow> (string \<times> string) option" where
  "split_once d [] = None"
| "split_once d (c # cs) =
     (if c = d then Some ([], cs)
      else map_option (\<lambda>(a, b). (c # a, b)) (split_once d cs))"

lemma split_once_Some: "split_once d s = Some (a, b) \<Longrightarrow> s = a @ d # b \<and> d \<notin> set a"
  by (induction s arbitrary: a) (auto split: if_splits)


section \<open>Options and association lists\<close>

fun find_first :: "('a \<Rightarrow> bool) \<Rightarrow> 'a list \<Rightarrow> 'a option" where
  "find_first p [] = None"
| "find_first p (x # xs) = (if p x then Some x else find_first p xs)"

lemma find_first_Some: "find_first p xs = Some x \<Longrightarrow> x \<in> set xs \<and> p x"
  by (induction xs) (auto split: if_splits)

lemma find_first_append: "find_first p (xs @ ys) = (case find_first p xs of None \<Rightarrow> find_first p ys | Some x \<Rightarrow> Some x)"
  by (induction xs) auto

lemma find_first_None: "find_first p xs = None \<longleftrightarrow> (\<forall>x \<in> set xs. \<not> p x)"
  by (induction xs) auto

text \<open>Replacing or adding, and removing, an entry of an association list.\<close>

fun upd :: "'k \<Rightarrow> 'v \<Rightarrow> ('k \<times> 'v) list \<Rightarrow> ('k \<times> 'v) list" where
  "upd k v [] = [(k, v)]"
| "upd k v ((k', v') # xs) = (if k = k' then (k, v) # xs else (k', v') # upd k v xs)"

definition del :: "'k \<Rightarrow> ('k \<times> 'v) list \<Rightarrow> ('k \<times> 'v) list" where
  "del k xs = filter (\<lambda>(k', _). k' \<noteq> k) xs"

lemma map_of_upd [simp]: "map_of (upd k v xs) = (map_of xs)(k \<mapsto> v)"
  by (induction xs) auto

lemma map_of_del [simp]: "map_of (del k xs) = (map_of xs)(k := None)"
  by (induction xs) (auto simp: del_def fun_eq_iff)

lemma unat_u8_u64 [simp]: "unat (ucast (p :: u8) :: u64) = unat p"
proof -
  have "unat p < 2 ^ 64" using unsigned_less [of p, where ?'a = nat] by simp
  then show ?thesis by (simp add: unsigned_ucast_eq take_bit_nat_eq_self)
qed

lemma unat_add_one:
  fixes a b :: "'a::len word"
  assumes "a < b"
  shows "unat (a + 1) = Suc (unat a)"
proof -
  have "unat b < 2 ^ LENGTH('a)" by (rule unsigned_less)
  then have "Suc (unat a) < 2 ^ LENGTH('a)"
    using assms unfolding word_less_nat_alt by linarith
  then show ?thesis
    by (simp add: unat_word_ariths)
qed

text \<open>Saturating addition of \<open>u64\<close>.\<close>

definition saturating_add :: "u64 \<Rightarrow> u64 \<Rightarrow> u64" where
  "saturating_add a b = (if unat a + unat b < 2 ^ 64 then a + b else - 1)"

lemma unat_saturating_add: "unat (saturating_add a b) = min (unat a + unat b) (2 ^ 64 - 1)"
  by (auto simp: saturating_add_def unat_word_ariths unsigned_minus_1_eq_mask mask_eq_exp_minus_1)



section \<open>Numbers as text\<close>

definition digit_char :: "nat \<Rightarrow> char" where
  "digit_char n = (if n < 10 then char_of (48 + n) else char_of (87 + n))"

text \<open>The formats \<open>{}\<close> (base 10) and \<open>{:x}\<close> (base 16) of an unsigned number.\<close>

function show_radix :: "nat \<Rightarrow> nat \<Rightarrow> string" where
  "show_radix b n =
     (if b < 2 \<or> n < b then [digit_char n] else show_radix b (n div b) @ [digit_char (n mod b)])"
  by pat_completeness auto
termination
  by (relation "measure (\<lambda>(b, n). n)") (auto simp: div_less_dividend)

declare show_radix.simps [simp del]

abbreviation show_nat :: "nat \<Rightarrow> string" where
  "show_nat \<equiv> show_radix 10"

lemma digit_char_alnum: "n < 36 \<Longrightarrow> is_ascii_alphanumeric (digit_char n)"
  by (auto simp: digit_char_def ascii_defs)

lemma show_radix_alnum:
  assumes "2 \<le> b" "b \<le> 36"
  shows "c \<in> set (show_radix b n) \<Longrightarrow> is_ascii_alphanumeric c"
  using assms
proof (induction b n rule: show_radix.induct)
  case (1 b n)
  have "n mod b < b" using 1(3) by simp
  then have "n mod b < 36" using 1(4) by linarith
  then show ?case
    using 1 unfolding show_radix.simps [of b n]
    by (auto simp: digit_char_alnum split: if_splits)
qed

lemma show_radix_not_Nil [simp]: "show_radix b n \<noteq> []"
  by (simp add: show_radix.simps [of b n])

lemma unat_of_char [simp]: "unat (of_char c :: u8) = of_char c"
proof -
  have "unat (of_nat (of_char c) :: u8) = of_char c"
    by (simp add: unat_of_nat take_bit_nat_eq_self)
  then show ?thesis by (simp add: of_nat_of_char del: unat_of_nat)
qed

lemma of_char_u8_inj: "inj (of_char :: char \<Rightarrow> u8)"
  by (rule injI) (metis of_char_eq_iff unat_of_char)

end
