(* ===== verification/Core_Version.thy ===== *)
theory Core_Version
  imports Prelude
begin

text \<open>
  Semantic versions (\<open>crates/deltaship-core/src/version.rs\<close>). The \<open>semver\<close> crate supplies the
  comparison of two non-empty prerelease strings (\<open>Prerelease::cmp\<close>, the parameter \<open>pre_cmp\<close>),
  the parser and the printer; precedence and equality of whole versions are this crate's own.
\<close>

section \<open>The version type\<close>

record version =
  major :: u64
  minor :: u64
  patch :: u64
  pre :: string
  build :: string

definition version_new :: "u64 \<Rightarrow> u64 \<Rightarrow> u64 \<Rightarrow> version" where
  "version_new ma mi pa = \<lparr>major = ma, minor = mi, patch = pa, pre = [], build = []\<rparr>"

text \<open>\<open>PartialEq for Version\<close>: build metadata is ignored.\<close>

definition version_eq :: "version \<Rightarrow> version \<Rightarrow> bool" where
  "version_eq a b \<longleftrightarrow>
     major a = major b \<and> minor a = minor b \<and> patch a = patch b \<and> pre a = pre b"

text \<open>\<open>Ord for Version\<close>.\<close>

definition version_cmp :: "(string \<Rightarrow> string \<Rightarrow> ordering) \<Rightarrow> version \<Rightarrow> version \<Rightarrow> ordering" where
  "version_cmp pre_cmp a b =
     (case ord_cmp (major a) (major b) of
        Less \<Rightarrow> Less | Greater \<Rightarrow> Greater
      | Equal \<Rightarrow>
     (case ord_cmp (minor a) (minor b) of
        Less \<Rightarrow> Less | Greater \<Rightarrow> Greater
      | Equal \<Rightarrow>
     (case ord_cmp (patch a) (patch b) of
        Less \<Rightarrow> Less | Greater \<Rightarrow> Greater
      | Equal \<Rightarrow>
     (case (pre a = [], pre b = []) of
        (True, False) \<Rightarrow> Greater
      | (False, True) \<Rightarrow> Less
      | (True, True) \<Rightarrow> Equal
      | (False, False) \<Rightarrow> pre_cmp (pre a) (pre b)))))"



section \<open>Precedence\<close>

definition pre_class :: "version \<Rightarrow> nat" where
  "pre_class v = (if pre v = [] then 1 else 0)"

text \<open>The comparison is a lexicographic one; the comparison of prereleases only decides between
  two versions that both have one.\<close>

lemma version_cmp_lex:
  assumes "comparator pc"
  shows "version_cmp pc a b =
    then_cmp (ord_cmp (major a) (major b))
      (then_cmp (ord_cmp (minor a) (minor b))
        (then_cmp (ord_cmp (patch a) (patch b))
          (then_cmp (ord_cmp (pre_class a) (pre_class b)) (pc (pre a) (pre b)))))"
proof -
  have "pc [] [] = Equal" using assms by (rule comparator.cmp_refl)
  then show ?thesis
    by (auto simp: version_cmp_def pre_class_def ord_cmp_def split: ordering.splits)
qed

lemma comparator_version_cmp:
  assumes "comparator pc"
  shows "comparator (version_cmp pc)"
proof -
  have "comparator (\<lambda>a b. then_cmp (ord_cmp (major a) (major b))
      (then_cmp (ord_cmp (minor a) (minor b))
        (then_cmp (ord_cmp (patch a) (patch b))
          (then_cmp (ord_cmp (pre_class a) (pre_class b)) (pc (pre a) (pre (b :: version)))))))"
    by (intro comparator_then comparator_on [OF assms]
        comparator_on [OF comparator_prim, of major] comparator_on [OF comparator_prim, of minor]
        comparator_on [OF comparator_prim, of patch] comparator_on [OF comparator_prim, of pre_class])
  then show ?thesis
    by (simp add: version_cmp_lex [OF assms, abs_def])
qed

lemma version_cmp_Equal_iff:
  assumes "total_comparator pc"
  shows "version_cmp pc a b = Equal \<longleftrightarrow> version_eq a b"
proof -
  have c: "comparator pc"
    using assms by (simp add: total_comparator_def)
  show ?thesis
    by (auto simp: version_cmp_lex [OF c] then_cmp_eq_iff version_eq_def pre_class_def
        total_comparator.cmp_eq_iff [OF assms] split: if_splits)
qed

end
