(* ===== verification/Core_Types.thy ===== *)
theory Core_Types
  imports Core_Version
begin

text \<open>
  The remaining domain types of \<open>crates/deltaship-core/src\<close>: errors (\<open>error.rs\<close>), binary names
  and platforms (\<open>binary.rs\<close>), diff algorithms and compression formats (\<open>diff.rs\<close>), rollout
  percentages and the update-check messages (\<open>update.rs\<close>).
\<close>

section \<open>Errors\<close>

datatype deltaship_error =
    InvalidVersion string
  | InvalidBinaryName string
  | InvalidBinaryId string
  | InvalidPlatform string
  | InvalidDiffAlgorithm string
  | InvalidDiffId string
  | InvalidCompressionFormat string
  | IoError string
  | SerializationError string
  | DiffGenerationError string
  | PatchError string
  | ChecksumMismatch string string
  | SignatureError string
  | VersionNotFound string
  | BinaryNotFound string
  | InvalidData string
  | InvalidRolloutPercentage string

text \<open>\<open>FromStr for Version\<close>: the \<open>semver\<close> parser \<open>parse\<close> yields a version or an error message.\<close>

definition version_from_str ::
  "(string \<Rightarrow> string + version) \<Rightarrow> string \<Rightarrow> deltaship_error + version" where
  "version_from_str parse s = (case parse s of Inl e \<Rightarrow> Inl (InvalidVersion e) | Inr v \<Rightarrow> Inr v)"

definition with_prerelease ::
  "(string \<Rightarrow> string + string) \<Rightarrow> u64 \<Rightarrow> u64 \<Rightarrow> u64 \<Rightarrow> string \<Rightarrow> deltaship_error + version" where
  "with_prerelease prerelease_new ma mi pa p =
     (case prerelease_new p of
        Inl e \<Rightarrow> Inl (InvalidVersion e)
      | Inr p' \<Rightarrow> Inr ((version_new ma mi pa)\<lparr>pre := p'\<rparr>))"

definition with_build_metadata ::
  "(string \<Rightarrow> string + string) \<Rightarrow> u64 \<Rightarrow> u64 \<Rightarrow> u64 \<Rightarrow> string \<Rightarrow> deltaship_error + version" where
  "with_build_metadata build_new ma mi pa b =
     (case build_new b of
        Inl e \<Rightarrow> Inl (InvalidVersion e)
      | Inr b' \<Rightarrow> Inr ((version_new ma mi pa)\<lparr>build := b'\<rparr>))"


section \<open>Binary names\<close>

definition binary_name_new :: "string \<Rightarrow> deltaship_error + string" where
  "binary_name_new name =
     (if name = [] then Inl (InvalidBinaryName ''name cannot be empty'')
      else if \<not> (\<forall>c \<in> set name. is_ascii_alphanumeric c \<or> c = CHR ''-'')
        then Inl (InvalidBinaryName ''name must contain only alphanumeric characters and hyphens'')
      else if hd name = CHR ''-'' \<or> last name = CHR ''-''
        then Inl (InvalidBinaryName ''name cannot start or end with a hyphen'')
      else Inr name)"

lemma binary_name_new_Inr_iff:
  "binary_name_new name = Inr n \<longleftrightarrow>
     n = name \<and> name \<noteq> [] \<and> (\<forall>c \<in> set name. is_ascii_alphanumeric c \<or> c = CHR ''-'')
     \<and> hd name \<noteq> CHR ''-'' \<and> last name \<noteq> CHR ''-''"
  by (auto simp: binary_name_new_def)


section \<open>Platforms\<close>

datatype platform = LinuxX86_64 | LinuxAarch64 | WindowsX86_64 | MacosX86_64 | MacosAarch64

text \<open>Platforms can be enumerated, so functions on them can be compared.\<close>

instantiation platform :: enum
begin

definition enum_platform :: "platform list" where
  "enum_platform = [LinuxX86_64, LinuxAarch64, WindowsX86_64, MacosX86_64, MacosAarch64]"

definition enum_all_platform :: "(platform \<Rightarrow> bool) \<Rightarrow> bool" where
  "enum_all_platform P \<longleftrightarrow> list_all P enum_class.enum"

definition enum_ex_platform :: "(platform \<Rightarrow> bool) \<Rightarrow> bool" where
  "enum_ex_platform P \<longleftrightarrow> list_ex P enum_class.enum"

instance
proof
  show univ: "(UNIV :: platform set) = set enum_class.enum"
    by (auto simp: enum_platform_def intro: platform.exhaust)
  show "distinct (enum_class.enum :: platform list)"
    by (simp add: enum_platform_def)
  show "enum_class.enum_all P \<longleftrightarrow> Ball UNIV P" "enum_class.enum_ex P \<longleftrightarrow> Bex UNIV P" for P :: "platform \<Rightarrow> bool"
    by (simp_all add: univ enum_all_platform_def enum_ex_platform_def list_all_iff list_ex_iff)
qed

end

fun platform_as_str :: "platform \<Rightarrow> string" where
  "platform_as_str LinuxX86_64 = ''linux-x86_64''"
| "platform_as_str LinuxAarch64 = ''linux-aarch64''"
| "platform_as_str WindowsX86_64 = ''windows-x86_64''"
| "platform_as_str MacosX86_64 = ''macos-x86_64''"
| "platform_as_str MacosAarch64 = ''macos-aarch64''"

definition all_platforms :: "string list" where
  "all_platforms =
     [''linux-x86_64'', ''linux-aarch64'', ''windows-x86_64'', ''macos-x86_64'', ''macos-aarch64'']"

definition all_platform_variants :: "string list" where
  "all_platform_variants =
     [''linux-x86_64'', ''linux_x86_64'', ''linux-aarch64'', ''linux_aarch64'',
      ''windows-x86_64'', ''windows_x86_64'', ''macos-x86_64'', ''macos_x86_64'',
      ''macos-aarch64'', ''macos_aarch64'']"

definition platform_from_str :: "string \<Rightarrow> deltaship_error + platform" where
  "platform_from_str s =
     (let l = to_lowercase s in
      if l = ''linux-x86_64'' \<or> l = ''linux_x86_64'' then Inr LinuxX86_64
      else if l = ''linux-aarch64'' \<or> l = ''linux_aarch64'' then Inr LinuxAarch64
      else if l = ''windows-x86_64'' \<or> l = ''windows_x86_64'' then Inr WindowsX86_64
      else if l = ''macos-x86_64'' \<or> l = ''macos_x86_64'' then Inr MacosX86_64
      else if l = ''macos-aarch64'' \<or> l = ''macos_aarch64'' then Inr MacosAarch64
      else Inl (InvalidPlatform s))"

lemma to_lowercase_platform [simp]: "to_lowercase (platform_as_str p) = platform_as_str p"
  by (cases p) (simp_all add: to_lowercase_def ascii_defs)

lemma platform_from_str_as_str: "platform_from_str (platform_as_str p) = Inr p"
  by (cases p) (simp_all add: platform_from_str_def to_lowercase_def ascii_defs)

lemma platform_as_str_inj [simp]: "platform_as_str p = platform_as_str q \<longleftrightarrow> p = q"
  by (metis platform_from_str_as_str sum.inject(2))

lemma platform_from_str_ok_iff:
  "(\<exists>p. platform_from_str s = Inr p) \<longleftrightarrow> to_lowercase s \<in> set all_platform_variants"
  by (auto simp: platform_from_str_def all_platform_variants_def Let_def)


section \<open>Diff algorithms and compression formats\<close>

datatype diff_algorithm = Bsdiff | Courgette | Xdelta3

fun diff_algorithm_as_str :: "diff_algorithm \<Rightarrow> string" where
  "diff_algorithm_as_str Bsdiff = ''bsdiff''"
| "diff_algorithm_as_str Courgette = ''courgette''"
| "diff_algorithm_as_str Xdelta3 = ''xdelta3''"

definition diff_algorithm_from_str :: "string \<Rightarrow> deltaship_error + diff_algorithm" where
  "diff_algorithm_from_str s =
     (let l = to_lowercase s in
      if l = ''bsdiff'' then Inr Bsdiff
      else if l = ''courgette'' then Inr Courgette
      else if l = ''xdelta3'' then Inr Xdelta3
      else Inl (InvalidDiffAlgorithm s))"

datatype compression_format = NoCompression | Zstd | Gzip

fun compression_format_as_str :: "compression_format \<Rightarrow> string" where
  "compression_format_as_str NoCompression = ''none''"
| "compression_format_as_str Zstd = ''zstd''"
| "compression_format_as_str Gzip = ''gzip''"

definition compression_format_from_str :: "string \<Rightarrow> deltaship_error + compression_format" where
  "compression_format_from_str s =
     (let l = to_lowercase s in
      if l = ''none'' then Inr NoCompression
      else if l = ''zstd'' then Inr Zstd
      else if l = ''gzip'' \<or> l = ''gz'' then Inr Gzip
      else Inl (InvalidCompressionFormat s))"

text \<open>
  Three enumerations print and parse themselves; the contract they share is that parsing inverts
  printing.
\<close>

locale printable_enum =
  fixes show_enum :: "'a \<Rightarrow> string" and read_enum :: "string \<Rightarrow> 'e + 'a"
  assumes read_show: "read_enum (show_enum x) = Inr x"
    and read_lower: "read_enum s = Inr x \<Longrightarrow> read_enum (to_lowercase s) = Inr x"
begin

lemma show_inj: "show_enum x = show_enum y \<Longrightarrow> x = y"
  by (metis read_show sum.inject(2))

lemma read_case_insensitive:
  "to_lowercase s = to_lowercase t \<Longrightarrow> read_enum s = Inr x \<Longrightarrow> read_enum t = Inr y \<Longrightarrow> x = y"
  by (metis read_lower sum.inject(2))

end

interpretation platform_enum: printable_enum platform_as_str platform_from_str
proof unfold_locales
  show "platform_from_str (platform_as_str x) = Inr x" for x
    by (rule platform_from_str_as_str)
  show "platform_from_str s = Inr x \<Longrightarrow> platform_from_str (to_lowercase s) = Inr x" for s x
    unfolding platform_from_str_def Let_def to_lowercase_idem
    by (simp only: split: if_split_asm) simp_all
qed

interpretation algorithm_enum: printable_enum diff_algorithm_as_str diff_algorithm_from_str
proof unfold_locales
  show "diff_algorithm_from_str (diff_algorithm_as_str x) = Inr x" for x
    by (cases x) (simp_all add: diff_algorithm_from_str_def to_lowercase_def ascii_defs)
  show "diff_algorithm_from_str s = Inr x \<Longrightarrow> diff_algorithm_from_str (to_lowercase s) = Inr x" for s x
    unfolding diff_algorithm_from_str_def Let_def to_lowercase_idem
    by (simp only: split: if_split_asm) simp_all
qed

interpretation compression_enum: printable_enum compression_format_as_str compression_format_from_str
proof unfold_locales
  show "compression_format_from_str (compression_format_as_str x) = Inr x" for x
    by (cases x) (simp_all add: compression_format_from_str_def to_lowercase_def ascii_defs)
  show "compression_format_from_str s = Inr x \<Longrightarrow>
      compression_format_from_str (to_lowercase s) = Inr x" for s x
    unfolding compression_format_from_str_def Let_def to_lowercase_idem
    by (simp only: split: if_split_asm) simp_all
qed


section \<open>Rollout percentage and update-check messages\<close>

definition rollout_percentage_new :: "u8 \<Rightarrow> deltaship_error + u8" where
  "rollout_percentage_new value =
     (if 100 < value then Inl (InvalidData (''Rollout percentage must be 0-100, got '' @ show_nat (unat value))) else Inr value)"

record update_check_request =
  req_app_name :: string
  req_current_version :: version
  req_platform :: platform
  req_device_id_hash :: "string option"

definition update_check_request_new :: "string \<Rightarrow> version \<Rightarrow> platform \<Rightarrow> update_check_request" where
  "update_check_request_new app v p =
     \<lparr>req_app_name = app, req_current_version = v, req_platform = p, req_device_id_hash = None\<rparr>"

definition with_device_id_hash :: "string \<Rightarrow> update_check_request \<Rightarrow> update_check_request" where
  "with_device_id_hash h r = r\<lparr>req_device_id_hash := Some h\<rparr>"

record update_check_response =
  update_available :: bool
  target_version :: "version option"
  diff_url :: "string option"
  diff_checksum :: "string option"
  diff_size :: "u64 option"
  full_binary_url :: "string option"
  full_binary_size :: "u64 option"
  resp_checksum :: "string option"
  signature_url :: "string option"
  resp_release_notes :: "string option"
  resp_forced :: bool
  rollout_percentage :: "u8 option"
  in_rollout :: "bool option"

definition no_update :: update_check_response where
  "no_update =
     \<lparr>update_available = False, target_version = None, diff_url = None, diff_checksum = None,
      diff_size = None, full_binary_url = None, full_binary_size = None, resp_checksum = None,
      signature_url = None, resp_release_notes = None, resp_forced = False,
      rollout_percentage = None, in_rollout = None\<rparr>"

definition available :: "version \<Rightarrow> update_check_response" where
  "available v =
     \<lparr>update_available = True, target_version = Some v, diff_url = None, diff_checksum = None,
      diff_size = None, full_binary_url = None, full_binary_size = None, resp_checksum = None,
      signature_url = None, resp_release_notes = None, resp_forced = False,
      rollout_percentage = None, in_rollout = None\<rparr>"

definition not_in_rollout :: "version \<Rightarrow> u8 \<Rightarrow> update_check_response" where
  "not_in_rollout v pct =
     \<lparr>update_available = False, target_version = Some v, diff_url = None, diff_checksum = None,
      diff_size = None, full_binary_url = None, full_binary_size = None, resp_checksum = None,
      signature_url = None, resp_release_notes = None, resp_forced = False,
      rollout_percentage = Some pct, in_rollout = Some False\<rparr>"

lemmas response_defs [deltaship_defs] = no_update_def available_def not_in_rollout_def

text \<open>The builder methods of a response.\<close>

definition with_diff_url :: "string \<Rightarrow> update_check_response \<Rightarrow> update_check_response" where
  "with_diff_url x r = r\<lparr>diff_url := Some x\<rparr>"

definition with_diff_checksum :: "string \<Rightarrow> update_check_response \<Rightarrow> update_check_response" where
  "with_diff_checksum x r = r\<lparr>diff_checksum := Some x\<rparr>"

definition with_diff_size :: "u64 \<Rightarrow> update_check_response \<Rightarrow> update_check_response" where
  "with_diff_size x r = r\<lparr>diff_size := Some x\<rparr>"

definition with_full_binary_url :: "string \<Rightarrow> update_check_response \<Rightarrow> update_check_response" where
  "with_full_binary_url x r = r\<lparr>full_binary_url := Some x\<rparr>"

definition with_full_binary_size :: "u64 \<Rightarrow> update_check_response \<Rightarrow> update_check_response" where
  "with_full_binary_size x r = r\<lparr>full_binary_size := Some x\<rparr>"

definition with_checksum :: "string \<Rightarrow> update_check_response \<Rightarrow> update_check_response" where
  "with_checksum x r = r\<lparr>resp_checksum := Some x\<rparr>"

definition with_signature_url :: "string \<Rightarrow> update_check_response \<Rightarrow> update_check_response" where
  "with_signature_url x r = r\<lparr>signature_url := Some x\<rparr>"

definition with_release_notes :: "string \<Rightarrow> update_check_response \<Rightarrow> update_check_response" where
  "with_release_notes x r = r\<lparr>resp_release_notes := Some x\<rparr>"

definition with_rollout_percentage :: "u8 \<Rightarrow> update_check_response \<Rightarrow> update_check_response" where
  "with_rollout_percentage x r = r\<lparr>rollout_percentage := Some x\<rparr>"

definition with_in_rollout :: "bool \<Rightarrow> update_check_response \<Rightarrow> update_check_response" where
  "with_in_rollout x r = r\<lparr>in_rollout := Some x\<rparr>"

definition with_forced :: "bool \<Rightarrow> update_check_response \<Rightarrow> update_check_response" where
  "with_forced x r = r\<lparr>resp_forced := x\<rparr>"

lemmas builder_defs [deltaship_defs] = with_diff_url_def with_diff_checksum_def with_diff_size_def with_full_binary_url_def with_full_binary_size_def with_checksum_def with_signature_url_def with_release_notes_def with_rollout_percentage_def with_in_rollout_def with_forced_def

text \<open>\<open>if let Some(x) = v { response = response.with_...(x) }\<close>\<close>

definition with_opt :: "('a \<Rightarrow> 'r \<Rightarrow> 'r) \<Rightarrow> 'a option \<Rightarrow> 'r \<Rightarrow> 'r" where
  "with_opt f v r = (case v of Some x \<Rightarrow> f x r | None \<Rightarrow> r)"

lemma with_opt_fields:
  "diff_url r = None \<Longrightarrow> with_opt with_diff_url u r = r\<lparr>diff_url := u\<rparr>"
  "diff_checksum r = None \<Longrightarrow> with_opt with_diff_checksum u r = r\<lparr>diff_checksum := u\<rparr>"
  "diff_size r = None \<Longrightarrow> with_opt with_diff_size n r = r\<lparr>diff_size := n\<rparr>"
  "resp_checksum r = None \<Longrightarrow> with_opt with_checksum u r = r\<lparr>resp_checksum := u\<rparr>"
  "resp_release_notes r = None \<Longrightarrow> with_opt with_release_notes u r = r\<lparr>resp_release_notes := u\<rparr>"
  "rollout_percentage r = None \<Longrightarrow> with_opt with_rollout_percentage p r = r\<lparr>rollout_percentage := p\<rparr>"
  by (simp_all add: with_opt_def builder_defs split: option.split)

lemma rollout_percentage_new_Inr_iff:
  "rollout_percentage_new v = Inr r \<longleftrightarrow> r = v \<and> v \<le> 100"
  by (auto simp: rollout_percentage_new_def)

end
