(* ===== verification/Catalog.thy ===== *)
theory Catalog
  imports Core_Types
begin

text \<open>
  The documents the server stores (\<open>crates/deltaship-server/src/models.rs\<close>) and the changes made to
  them in memory by \<open>crates/deltaship-server/src/storage.rs\<close> between reading and writing them back.
  The catalog lists the versions of an application newest first; the position of a new one is found
  by the binary search of the standard library.
\<close>

section \<open>Documents\<close>

record rollout_config =
  percentage :: u8
  enabled :: bool
  started_at :: "string option"
  completed_at :: "string option"

definition rollout_default :: rollout_config where
  "rollout_default = \<lparr>percentage = 100, enabled = True, started_at = None, completed_at = None\<rparr>"

record version_info =
  vi_version :: version
  vi_platforms :: "platform list"
  vi_release_notes :: "string option"
  vi_forced :: bool
  vi_rollout :: "rollout_config option"

record app_catalog =
  cat_app_name :: string
  cat_versions :: "version_info list"
  latest_version :: version

record diff_info =
  from_version :: version
  di_checksum :: string
  di_size :: u64
  di_algorithm :: string

record platform_artifact =
  pa_checksum :: string
  pa_size :: u64
  diffs_from :: "diff_info list"

record version_manifest =
  vm_version :: version
  vm_platforms :: "platform \<rightharpoonup> platform_artifact"


section \<open>Searching and inserting\<close>

text \<open>\<open>slice::binary_search_by\<close>: \<open>Inr\<close> is the index of an element that compares \<open>Equal\<close>, \<open>Inl\<close> the
  position where the sought element belongs.\<close>

function bsearch :: "('a \<Rightarrow> ordering) \<Rightarrow> 'a list \<Rightarrow> nat \<Rightarrow> nat \<Rightarrow> nat + nat" where
  "bsearch f xs left right =
     (if left < right \<and> right \<le> length xs then
        let mid = left + (right - left) div 2 in
        (case f (xs ! mid) of
           Equal \<Rightarrow> Inr mid
         | Less \<Rightarrow> bsearch f xs (Suc mid) right
         | Greater \<Rightarrow> bsearch f xs left mid)
      else Inl left)"
  by pat_completeness auto
termination
  by (relation "measure (\<lambda>(f, xs, l, r). r - l)") auto

declare bsearch.simps [simp del]

definition binary_search_by :: "('a \<Rightarrow> ordering) \<Rightarrow> 'a list \<Rightarrow> nat + nat" where
  "binary_search_by f xs = bsearch f xs 0 (length xs)"

definition insert_at :: "nat \<Rightarrow> 'a \<Rightarrow> 'a list \<Rightarrow> 'a list" where
  "insert_at i x xs = take i xs @ x # drop i xs"

text \<open>The mutation of the first element that satisfies a predicate (\<open>iter_mut().find(..)\<close>).\<close>

fun update_first :: "('a \<Rightarrow> bool) \<Rightarrow> ('a \<Rightarrow> 'a) \<Rightarrow> 'a list \<Rightarrow> 'a list" where
  "update_first p g [] = []"
| "update_first p g (x # xs) = (if p x then g x # xs else x # update_first p g xs)"

lemma bsearch_Inl:
  assumes "bsearch f xs l r = Inl i" "l \<le> r" "r \<le> length xs"
    and sorted: "\<And>j k. j < k \<Longrightarrow> k < length xs \<Longrightarrow> f (xs ! k) = Less \<Longrightarrow> f (xs ! j) = Less"
    and sorted': "\<And>j k. j < k \<Longrightarrow> k < length xs \<Longrightarrow> f (xs ! j) = Greater \<Longrightarrow> f (xs ! k) = Greater"
    and "\<And>j. j < l \<Longrightarrow> f (xs ! j) = Less"
    and "\<And>j. r \<le> j \<Longrightarrow> j < length xs \<Longrightarrow> f (xs ! j) = Greater"
  shows "i \<le> length xs \<and> (\<forall>j < i. f (xs ! j) = Less) \<and>
    (\<forall>j. i \<le> j \<and> j < length xs \<longrightarrow> f (xs ! j) = Greater)"
  using assms
proof (induction f xs l r rule: bsearch.induct)
  case (1 f xs l r)
  show ?case
  proof (cases "l < r")
    case False
    then have "i = l" "l = r"
      using "1.prems"(1,2) unfolding bsearch.simps [of f xs l r] by auto
    then show ?thesis
      using "1.prems" by auto
  next
    case True
    define mid where "mid = l + (r - l) div 2"
    have mid: "l \<le> mid" "mid < r" using True by (auto simp: mid_def)
    have guard: "l < r \<and> r \<le> length xs" using True "1.prems"(3) by simp
    note unfold = bsearch.simps [of f xs l r]
    show ?thesis
    proof (cases "f (xs ! mid)")
      case Less
      have below: "f (xs ! j) = Less" if "j < Suc mid" for j
        using "1.prems"(4) [of j mid] Less that mid "1.prems"(3) by (cases "j = mid") auto
      have "bsearch f xs (Suc mid) r = Inl i"
        using "1.prems"(1) guard Less by (simp add: unfold mid_def [symmetric] Let_def)
      then show ?thesis
        by (rule "1.IH"(1) [OF guard mid_def Less _ _ "1.prems"(3,4,5) below "1.prems"(7)])
           (use mid in auto)
    next
      case Equal
      then show ?thesis
        using "1.prems"(1) guard by (simp add: unfold mid_def [symmetric] Let_def)
    next
      case Greater
      have above: "f (xs ! j) = Greater" if "mid \<le> j" "j < length xs" for j
        using "1.prems"(5) [of mid j] Greater that by (cases "j = mid") auto
      have "bsearch f xs l mid = Inl i"
        using "1.prems"(1) guard Greater by (simp add: unfold mid_def [symmetric] Let_def)
      then show ?thesis
        by (rule "1.IH"(2) [OF guard mid_def Greater _ mid(1) _ "1.prems"(4,5,6) above])
           (use mid "1.prems"(3) in auto)
    qed
  qed
qed

lemma bsearch_Inr: "bsearch f xs l r = Inr i \<Longrightarrow> i < length xs \<and> f (xs ! i) = Equal"
proof (induction f xs l r rule: bsearch.induct)
  case (1 f xs l r)
  from "1.prems" show ?case
    unfolding bsearch.simps [of f xs l r] Let_def
    using "1.IH" by (auto split: if_splits ordering.splits)
qed

text \<open>A list in strictly decreasing order of \<open>key\<close>, and insertion at the position found.\<close>

context comparator
begin

definition descending :: "('b \<Rightarrow> 'a) \<Rightarrow> 'b list \<Rightarrow> bool" where
  "descending key xs \<longleftrightarrow> sorted_wrt (\<lambda>a b. cmp (key a) (key b) = Greater) xs"

lemma descending_insert:
  assumes desc: "descending key xs" and new: "\<And>y. y \<in> set xs \<Longrightarrow> cmp (key y) (key x) \<noteq> Equal"
  shows "\<exists>i. binary_search_by (\<lambda>y. cmp (key x) (key y)) xs = Inl i \<and> i \<le> length xs \<and>
    descending key (insert_at i x xs)"
proof -
  let ?f = "\<lambda>y. cmp (key x) (key y)"
  have gt: "cmp (key (xs ! j)) (key (xs ! k)) = Greater" if "j < k" "k < length xs" for j k
    using desc that by (simp add: descending_def sorted_wrt_iff_nth_less)
  have "binary_search_by ?f xs \<noteq> Inr i" for i
  proof
    assume "binary_search_by ?f xs = Inr i"
    then have "i < length xs" "?f (xs ! i) = Equal"
      using bsearch_Inr [of ?f xs 0 "length xs" i] by (simp_all add: binary_search_by_def)
    then show False using new [of "xs ! i"] cmp_sym by auto
  qed
  then obtain i where i: "binary_search_by ?f xs = Inl i"
    by (metis sum.exhaust)
  have *: "i \<le> length xs \<and> (\<forall>j < i. ?f (xs ! j) = Less) \<and>
      (\<forall>j. i \<le> j \<and> j < length xs \<longrightarrow> ?f (xs ! j) = Greater)"
  proof (rule bsearch_Inl [OF i [unfolded binary_search_by_def]])
    show "?f (xs ! k) = Less \<Longrightarrow> ?f (xs ! j) = Less" if "j < k" "k < length xs" for j k
      using gt [OF that] cmp_trans cmp_gt_iff by blast
    show "?f (xs ! j) = Greater \<Longrightarrow> ?f (xs ! k) = Greater" if "j < k" "k < length xs" for j k
      using gt [OF that] cmp_gt_trans by blast
  qed auto
  have "cmp (key y) (key x) = Greater" if "y \<in> set (take i xs)" for y
    using that * cmp_gt_iff by (auto simp: in_set_conv_nth)
  moreover have "cmp (key x) (key y) = Greater" if "y \<in> set (drop i xs)" for y
    using that * by (auto simp: in_set_conv_nth)
  moreover have "sorted_wrt (\<lambda>a b. cmp (key a) (key b) = Greater) (take i xs @ drop i xs)"
    using desc by (simp add: descending_def)
  ultimately have "descending key (insert_at i x xs)"
    unfolding descending_def insert_at_def sorted_wrt_append
    by (auto dest: in_set_takeD)
  then show ?thesis using i * by blast
qed

end

lemma set_insert_at: "set (insert_at i x xs) = insert x (set xs)"
  unfolding insert_at_def
  by (metis Un_insert_right append_take_drop_id list.simps(15) set_append)

lemma map_update_first:
  "(\<And>x. x \<in> set xs \<Longrightarrow> p x \<Longrightarrow> h (g x) = h x) \<Longrightarrow> map h (update_first p g xs) = map h xs"
  by (induction xs) auto

lemma update_first_set:
  "y \<in> set (update_first p g xs) \<Longrightarrow> y \<in> set xs \<or> (\<exists>x \<in> set xs. p x \<and> y = g x)"
  by (induction xs) (auto split: if_splits)

lemma update_first_found:
  "\<exists>x \<in> set xs. p x \<Longrightarrow> \<exists>x \<in> set xs. p x \<and> g x \<in> set (update_first p g xs)"
  by (induction xs) auto


section \<open>Changes to a catalog\<close>

definition merge_platforms :: "platform list \<Rightarrow> platform list \<Rightarrow> platform list" where
  "merge_platforms new existing =
     fold (\<lambda>p ps. if p \<in> set ps then ps else ps @ [p]) new existing"

definition merge_version_info :: "version_info \<Rightarrow> version_info \<Rightarrow> version_info" where
  "merge_version_info new existing =
     existing\<lparr>vi_platforms := merge_platforms (vi_platforms new) (vi_platforms existing),
       vi_release_notes := (case vi_release_notes new of Some n \<Rightarrow> Some n
                            | None \<Rightarrow> vi_release_notes existing)\<rparr>"

definition empty_catalog :: "string \<Rightarrow> version \<Rightarrow> app_catalog" where
  "empty_catalog app_name v = \<lparr>cat_app_name = app_name, cat_versions = [], latest_version = v\<rparr>"

definition put_version ::
  "(string \<Rightarrow> string \<Rightarrow> ordering) \<Rightarrow> version_info \<Rightarrow> version_info list \<Rightarrow> version_info list" where
  "put_version pc vi vs =
     (if \<exists>v \<in> set vs. version_eq (vi_version v) (vi_version vi)
      then update_first (\<lambda>v. version_eq (vi_version v) (vi_version vi)) (merge_version_info vi) vs
      else let pos = (case binary_search_by (\<lambda>v. version_cmp pc (vi_version vi) (vi_version v)) vs of
                        Inr i \<Rightarrow> i | Inl i \<Rightarrow> i)
           in insert_at pos vi vs)"

text \<open>The update of \<open>update_catalog_atomic\<close>: merge into the entry of an equal version or insert, then
  advance the latest version.\<close>

definition catalog_put ::
  "(string \<Rightarrow> string \<Rightarrow> ordering) \<Rightarrow> version_info \<Rightarrow> app_catalog \<Rightarrow> app_catalog" where
  "catalog_put pc vi cat =
     (let cat' = cat\<lparr>cat_versions := put_version pc vi (cat_versions cat)\<rparr>
      in if version_cmp pc (vi_version vi) (latest_version cat') = Greater
         then cat'\<lparr>latest_version := vi_version vi\<rparr> else cat')"

text \<open>The update of \<open>set_latest_version\<close>; \<open>Inl\<close> carries the message of \<open>StorageError::NotFound\<close>.\<close>

definition catalog_set_latest ::
  "(string \<Rightarrow> string + version) \<Rightarrow> (version \<Rightarrow> string) \<Rightarrow> string \<Rightarrow> app_catalog \<Rightarrow> string + app_catalog" where
  "catalog_set_latest parse show_version version cat =
     (if \<not> (\<exists>v \<in> set (cat_versions cat). show_version (vi_version v) = version)
      then Inl (''Version '' @ version @ '' not found in catalog'')
      else case version_from_str parse version of
        Inl _ \<Rightarrow> Inl (''Invalid version: '' @ version)
      | Inr v \<Rightarrow> Inr (cat\<lparr>latest_version := v\<rparr>))"

text \<open>
  The update of \<open>delete_version\<close>: when the deleted version is the latest, the remaining version
  strings without a deletion marker are sorted in descending order of the strings and the first one,
  if any, becomes the latest. \<open>str_le\<close> is the byte-wise order of strings.
\<close>

fun max_str :: "string list \<Rightarrow> string option" where
  "max_str [] = None"
| "max_str (s # ss) = (case max_str ss of None \<Rightarrow> Some s | Some m \<Rightarrow> Some (if str_le m s then s else m))"

definition catalog_delete ::
  "(string \<Rightarrow> string + version) \<Rightarrow> (version \<Rightarrow> string) \<Rightarrow> (string \<Rightarrow> bool) \<Rightarrow> string
   \<Rightarrow> app_catalog \<Rightarrow> app_catalog" where
  "catalog_delete parse show_version marked version cat =
     (if show_version (latest_version cat) = version then
        let catalog_versions = map (\<lambda>v. show_version (vi_version v)) (cat_versions cat);
            available_versions =
              filter (\<lambda>s. \<not> marked s) (filter (\<lambda>s. s \<noteq> version) catalog_versions)
        in (case max_str available_versions of
              None \<Rightarrow> cat
            | Some new_latest \<Rightarrow>
                (case version_from_str parse new_latest of
                   Inr v \<Rightarrow> cat\<lparr>latest_version := v\<rparr> | Inl _ \<Rightarrow> cat))
      else cat)"


section \<open>Changes to a manifest\<close>

definition manifest_put :: "platform \<Rightarrow> string \<Rightarrow> u64 \<Rightarrow> version_manifest \<Rightarrow> version_manifest" where
  "manifest_put p checksum sz m =
     m\<lparr>vm_platforms :=
         (vm_platforms m)(p \<mapsto> \<lparr>pa_checksum = checksum, pa_size = sz, diffs_from = []\<rparr>)\<rparr>"

definition put_diff :: "diff_info \<Rightarrow> diff_info list \<Rightarrow> diff_info list" where
  "put_diff d ds =
     (if \<exists>x \<in> set ds. version_eq (from_version x) (from_version d)
      then update_first (\<lambda>x. version_eq (from_version x) (from_version d)) (\<lambda>_. d) ds
      else ds @ [d])"

definition manifest_add_diff :: "platform \<Rightarrow> diff_info \<Rightarrow> version_manifest \<Rightarrow> version_manifest option" where
  "manifest_add_diff p d m =
     (case vm_platforms m p of
        None \<Rightarrow> None
      | Some a \<Rightarrow> Some (m\<lparr>vm_platforms :=
                   (vm_platforms m)(p \<mapsto> a\<lparr>diffs_from := put_diff d (diffs_from a)\<rparr>)\<rparr>))"


section \<open>The catalog invariant\<close>

text \<open>Versions strictly newest first (hence no two equal ones), no platform listed twice, and the
  latest version is one of them.\<close>

definition wf_catalog :: "(string \<Rightarrow> string \<Rightarrow> ordering) \<Rightarrow> app_catalog \<Rightarrow> bool" where
  "wf_catalog pc cat \<longleftrightarrow>
     sorted_wrt (\<lambda>a b. version_cmp pc (vi_version a) (vi_version b) = Greater) (cat_versions cat) \<and>
     (\<forall>v \<in> set (cat_versions cat). distinct (vi_platforms v)) \<and>
     (\<exists>v \<in> set (cat_versions cat). version_eq (vi_version v) (latest_version cat))"

lemma merge_platforms_props:
  "set (merge_platforms new existing) = set new \<union> set existing"
  "distinct existing \<Longrightarrow> distinct (merge_platforms new existing)"
  unfolding merge_platforms_def by (induction new arbitrary: existing) auto

lemma merge_version_info_simps [simp]:
  "vi_version (merge_version_info vi x) = vi_version x"
  "vi_platforms (merge_version_info vi x) = merge_platforms (vi_platforms vi) (vi_platforms x)"
  by (simp_all add: merge_version_info_def)

lemma version_eq_sym: "version_eq a b = version_eq b a"
  by (auto simp: version_eq_def)

lemma version_eq_refl [simp]: "version_eq a a"
  by (simp add: version_eq_def)

lemma version_eq_trans: "version_eq a b \<Longrightarrow> version_eq b c \<Longrightarrow> version_eq a c"
  by (simp add: version_eq_def)

abbreviation newest_first :: "(string \<Rightarrow> string \<Rightarrow> ordering) \<Rightarrow> version_info list \<Rightarrow> bool" where
  "newest_first pc \<equiv> sorted_wrt (\<lambda>a b. version_cmp pc (vi_version a) (vi_version b) = Greater)"

lemma newest_first_map:
  "newest_first pc vs = sorted_wrt (\<lambda>a b. version_cmp pc a b = Greater) (map vi_version vs)"
  by (simp add: sorted_wrt_map)

lemma newest_first_put_version:
  assumes tc: "total_comparator pc" and nf: "newest_first pc vs"
  shows "newest_first pc (put_version pc vi vs)"
proof (cases "\<exists>v \<in> set vs. version_eq (vi_version v) (vi_version vi)")
  case True
  have "map vi_version (put_version pc vi vs) = map vi_version vs"
    using True by (simp add: put_version_def map_update_first)
  then show ?thesis
    using nf by (simp only: newest_first_map)
next
  case False
  have c: "comparator (version_cmp pc)"
    using tc by (simp add: total_comparator_def comparator_version_cmp)
  have "version_cmp pc (vi_version v) (vi_version vi) \<noteq> Equal" if "v \<in> set vs" for v
    using False that by (simp add: version_cmp_Equal_iff [OF tc])
  then show ?thesis
    using comparator.descending_insert [OF c, of vi_version vs vi] nf False
    by (auto simp: comparator.descending_def [OF c] put_version_def)
qed

lemma put_version_distinct:
  assumes "\<forall>v \<in> set vs. distinct (vi_platforms v)" "distinct (vi_platforms vi)"
  shows "\<forall>v \<in> set (put_version pc vi vs). distinct (vi_platforms v)"
  using assms by (auto simp: put_version_def set_insert_at Let_def merge_platforms_props
      dest!: update_first_set)

lemma put_version_has:
  "\<exists>v \<in> set (put_version pc vi vs).
     version_eq (vi_version v) (vi_version vi) \<and> set (vi_platforms vi) \<subseteq> set (vi_platforms v)"
proof (cases "\<exists>v \<in> set vs. version_eq (vi_version v) (vi_version vi)")
  case True
  from update_first_found [OF this, of "merge_version_info vi"]
  obtain x where "version_eq (vi_version x) (vi_version vi)"
      "merge_version_info vi x \<in> set (put_version pc vi vs)"
    using True by (auto simp: put_version_def)
  then show ?thesis
    by (intro bexI [where x = "merge_version_info vi x"]) (auto simp: merge_platforms_props)
next
  case False
  then show ?thesis by (simp add: put_version_def set_insert_at Let_def)
qed

lemma update_first_keeps:
  "x \<in> set xs \<Longrightarrow> x \<in> set (update_first p g xs) \<or> p x \<and> g x \<in> set (update_first p g xs)"
  by (induction xs) auto

lemma put_version_keeps:
  assumes "v \<in> set vs"
  shows "\<exists>v' \<in> set (put_version pc vi vs).
     vi_version v' = vi_version v \<and> set (vi_platforms v) \<subseteq> set (vi_platforms v')"
proof -
  have "v \<in> set (put_version pc vi vs) \<or> merge_version_info vi v \<in> set (put_version pc vi vs)"
    using update_first_keeps [OF assms, of "\<lambda>v. version_eq (vi_version v) (vi_version vi)" "merge_version_info vi"]
      assms by (auto simp: put_version_def set_insert_at Let_def)
  then show ?thesis
  proof
    assume "merge_version_info vi v \<in> set (put_version pc vi vs)"
    then show ?thesis
      by (intro bexI [where x = "merge_version_info vi v"]) (auto simp: merge_platforms_props)
  qed auto
qed

lemma catalog_put_simps:
  "cat_versions (catalog_put pc vi cat) = put_version pc vi (cat_versions cat)"
  "latest_version (catalog_put pc vi cat) =
     (if version_cmp pc (vi_version vi) (latest_version cat) = Greater then vi_version vi
      else latest_version cat)"
  "cat_app_name (catalog_put pc vi cat) = cat_app_name cat"
  by (simp_all add: catalog_put_def Let_def)

lemma catalog_put_latest_listed:
  assumes "(\<exists>v \<in> set (cat_versions cat). version_eq (vi_version v) (latest_version cat))
     \<or> version_eq (latest_version cat) (vi_version vi)"
  shows "\<exists>v \<in> set (cat_versions (catalog_put pc vi cat)).
    version_eq (vi_version v) (latest_version (catalog_put pc vi cat))"
proof -
  obtain v where v: "v \<in> set (put_version pc vi (cat_versions cat))"
      "version_eq (vi_version v) (vi_version vi)"
    using put_version_has by blast
  show ?thesis
  proof (cases "version_cmp pc (vi_version vi) (latest_version cat) = Greater
      \<or> version_eq (latest_version cat) (vi_version vi)")
    case True
    then have "version_eq (vi_version v) (latest_version (catalog_put pc vi cat))"
      using v(2) version_eq_trans [of "vi_version v" "vi_version vi" "latest_version cat"]
        version_eq_sym [of "latest_version cat"] by (auto simp: catalog_put_simps)
    then show ?thesis
      using v(1) by (auto simp: catalog_put_simps(1))
  next
    case False
    then obtain u where u: "u \<in> set (cat_versions cat)" "version_eq (vi_version u) (latest_version cat)"
      using assms by blast
    obtain v' where "v' \<in> set (put_version pc vi (cat_versions cat))" "vi_version v' = vi_version u"
      using put_version_keeps [OF u(1)] by blast
    then show ?thesis
      using False u(2) by (intro bexI [of _ v']) (auto simp: catalog_put_simps)
  qed
qed

lemma catalog_set_latest_Inr:
  "catalog_set_latest parse sh s cat = Inr cat' \<longleftrightarrow>
     (\<exists>v \<in> set (cat_versions cat). sh (vi_version v) = s) \<and>
     (\<exists>v. parse s = Inr v \<and> cat' = cat\<lparr>latest_version := v\<rparr>)"
  by (auto simp: catalog_set_latest_def version_from_str_def split: sum.splits)

lemma max_str_None [simp]: "max_str ss = None \<longleftrightarrow> ss = []"
  by (cases ss) (auto split: option.splits)

lemma max_str_in: "max_str ss = Some m \<Longrightarrow> m \<in> set ss"
  by (induction ss arbitrary: m) (auto split: option.splits if_splits)

text \<open>The versions of a catalog were read by the version parser, so each parses back from its text.\<close>

definition parsed_catalog ::
  "(string \<Rightarrow> string + version) \<Rightarrow> (version \<Rightarrow> string) \<Rightarrow> app_catalog \<Rightarrow> bool" where
  "parsed_catalog parse sh cat \<longleftrightarrow>
     (\<forall>v \<in> set (cat_versions cat). parse (sh (vi_version v)) = Inr (vi_version v))"

lemma catalog_delete_cases:
  assumes "parsed_catalog parse sh cat"
  obtains "catalog_delete parse sh marked s cat = cat"
      "sh (latest_version cat) = s \<Longrightarrow>
        \<forall>v \<in> set (cat_versions cat). sh (vi_version v) = s \<or> marked (sh (vi_version v))"
  | v where "v \<in> set (cat_versions cat)" "sh (vi_version v) \<noteq> s" "\<not> marked (sh (vi_version v))"
      "catalog_delete parse sh marked s cat = cat\<lparr>latest_version := vi_version v\<rparr>"
proof (cases "sh (latest_version cat) = s")
  case False
  then show ?thesis by (intro that(1)) (auto simp: catalog_delete_def)
next
  case True
  define ss where "ss = filter (\<lambda>t. \<not> marked t) (filter (\<lambda>t. t \<noteq> s)
    (map (\<lambda>v. sh (vi_version v)) (cat_versions cat)))"
  have del: "catalog_delete parse sh marked s cat =
      (case max_str ss of None \<Rightarrow> cat
       | Some m \<Rightarrow> (case version_from_str parse m of
                     Inr v \<Rightarrow> cat\<lparr>latest_version := v\<rparr> | Inl _ \<Rightarrow> cat))"
    using True unfolding catalog_delete_def ss_def Let_def by (simp only: if_True refl)
  show ?thesis
  proof (cases "max_str ss")
    case None
    then have "ss = []" by simp
    then have "\<forall>v \<in> set (cat_versions cat). sh (vi_version v) = s \<or> marked (sh (vi_version v))"
      unfolding ss_def by (auto simp: filter_empty_conv)
    then show ?thesis
      using None by (intro that(1)) (auto simp: del)
  next
    case (Some m)
    then obtain v where v: "v \<in> set (cat_versions cat)" "m = sh (vi_version v)" "m \<noteq> s" "\<not> marked m"
      using max_str_in [of ss m] by (auto simp: ss_def)
    then have "parse m = Inr (vi_version v)" using assms by (simp add: parsed_catalog_def)
    then show ?thesis
      using Some v by (intro that(2) [of v]) (auto simp: del version_from_str_def)
  qed
qed


lemma wf_catalog_put:
  assumes "total_comparator pc" "distinct (vi_platforms vi)"
    and "wf_catalog pc cat \<or> cat = empty_catalog app (vi_version vi)"
  shows "wf_catalog pc (catalog_put pc vi cat)"
proof -
  have nf: "newest_first pc (cat_versions cat)"
    and d: "\<forall>v \<in> set (cat_versions cat). distinct (vi_platforms v)"
    and l: "(\<exists>v \<in> set (cat_versions cat). version_eq (vi_version v) (latest_version cat))
       \<or> version_eq (latest_version cat) (vi_version vi)"
    using assms(3) by (elim disjE; simp add: wf_catalog_def empty_catalog_def)+
  show ?thesis
    unfolding wf_catalog_def catalog_put_simps(1)
    using newest_first_put_version [OF assms(1) nf] put_version_distinct [OF d assms(2)]
      catalog_put_latest_listed [OF l, of pc, unfolded catalog_put_simps(1)] by (intro conjI)
qed

lemma parsed_catalog_put:
  assumes "parsed_catalog parse sh cat" "parse (sh (vi_version vi)) = Inr (vi_version vi)"
  shows "parsed_catalog parse sh (catalog_put pc vi cat)"
proof -
  have "\<exists>u \<in> set (cat_versions cat). vi_version v = vi_version u"
    if "v \<in> set (put_version pc vi (cat_versions cat))" "vi_version v \<noteq> vi_version vi" for v
    using that by (auto simp: put_version_def set_insert_at Let_def split: if_splits
        dest!: update_first_set)
  then show ?thesis
    using assms unfolding parsed_catalog_def catalog_put_simps by metis
qed

text \<open>A concrete version parser and printer, on a table of version strings, for evaluating the
  definitions at concrete inputs.\<close>

definition sample_versions :: "(string \<times> version) list" where
  "sample_versions = [(''1.0.0'', version_new 1 0 0), (''1.9.0'', version_new 1 9 0),
     (''1.10.0'', version_new 1 10 0), (''2.0.0'', version_new 2 0 0)]"

definition sample_parse :: "string \<Rightarrow> string + version" where
  "sample_parse s = (case map_of sample_versions s of Some v \<Rightarrow> Inr v | None \<Rightarrow> Inl ''unexpected character'')"

definition sample_show :: "version \<Rightarrow> string" where
  "sample_show v = (case map_of (map (\<lambda>(s, v). (v, s)) sample_versions) v of Some s \<Rightarrow> s | None \<Rightarrow> [])"

definition sample_info :: "version \<Rightarrow> version_info" where
  "sample_info v = \<lparr>vi_version = v, vi_platforms = [LinuxX86_64], vi_release_notes = None,
     vi_forced = False, vi_rollout = None\<rparr>"

definition sample_catalog :: app_catalog where
  "sample_catalog = \<lparr>cat_app_name = ''app'',
     cat_versions = [sample_info (version_new 2 0 0), sample_info (version_new 1 10 0),
       sample_info (version_new 1 9 0)],
     latest_version = version_new 2 0 0\<rparr>"

lemmas sample_defs = sample_versions_def sample_parse_def sample_show_def sample_info_def
  sample_catalog_def version_new_def

lemma sample_parse_show: "sample_parse s = Inr v \<Longrightarrow> sample_show v = s"
  by (auto simp: sample_defs split: if_splits)

lemma sample_catalog_wf: "wf_catalog str_cmp sample_catalog"
  by (simp add: wf_catalog_def sample_defs version_cmp_def ord_cmp_def)

lemma sample_catalog_parsed: "parsed_catalog sample_parse sample_show sample_catalog"
  by (simp add: parsed_catalog_def sample_defs)


section \<open>Properties\<close>

text \<open>
  Publishing keeps the catalog well formed. Adding a version to a well-formed catalog, or to the
  fresh catalog of a new application, leaves it sorted strictly newest first, with no platform listed
  twice, and with its latest version among the listed ones.
\<close>

theorem catalog_put_wf:
  assumes "total_comparator pc" "distinct (vi_platforms vi)"
    and "wf_catalog pc cat \<or> cat = empty_catalog app (vi_version vi)"
  shows "wf_catalog pc (catalog_put pc vi cat)"
  using assms by (rule wf_catalog_put)

theorem catalog_put_wf_witness:
  "wf_catalog str_cmp (catalog_put str_cmp (sample_info (version_new 1 0 0)) sample_catalog)"
  by (rule catalog_put_wf [where app = "''app''"])
     (simp_all add: sample_catalog_wf str.total_comparator_axioms sample_info_def)

text \<open>
  Publishing never takes the latest version back. Afterwards the latest version is at least the
  previous one and at least the published one, and it is one of the two.
\<close>

theorem catalog_put_latest:
  assumes "comparator pc"
  shows "version_cmp pc (latest_version (catalog_put pc vi cat)) (latest_version cat) \<noteq> Less \<and>
    version_cmp pc (latest_version (catalog_put pc vi cat)) (vi_version vi) \<noteq> Less \<and>
    latest_version (catalog_put pc vi cat) \<in> {latest_version cat, vi_version vi}"
proof -
  have c: "comparator (version_cmp pc)" using assms by (rule comparator_version_cmp)
  show ?thesis
    using comparator.cmp_refl [OF c] comparator.cmp_flip [OF c, of "vi_version vi" "latest_version cat"]
    by (auto simp: catalog_put_simps)
qed

theorem catalog_put_latest_witness:
  "version_cmp str_cmp
     (latest_version (catalog_put str_cmp (sample_info (version_new 1 0 0)) sample_catalog))
     (version_new 1 0 0) \<noteq> Less"
  using catalog_put_latest [OF str.comparator_axioms, of "sample_info (version_new 1 0 0)" sample_catalog]
  by (simp add: sample_info_def)

text \<open>
  Publishing loses nothing. Every version listed before is still listed with at least the
  platforms it had, and the published version is listed with the published platforms.
\<close>

lemma catalog_put_keeps_versions:
  "(\<forall>v \<in> set (cat_versions cat). \<exists>v' \<in> set (cat_versions (catalog_put pc vi cat)).
      vi_version v' = vi_version v \<and> set (vi_platforms v) \<subseteq> set (vi_platforms v')) \<and>
   (\<exists>v \<in> set (cat_versions (catalog_put pc vi cat)).
      version_eq (vi_version v) (vi_version vi) \<and> set (vi_platforms vi) \<subseteq> set (vi_platforms v))"
  using put_version_keeps put_version_has by (simp add: catalog_put_simps)

lemma catalog_put_keeps_versions_witness:
  "\<exists>v \<in> set (cat_versions (catalog_put str_cmp (sample_info (version_new 1 0 0)) sample_catalog)).
     vi_version v = version_new 1 9 0"
  using catalog_put_keeps_versions [of sample_catalog str_cmp "sample_info (version_new 1 0 0)"]
  by (force simp: sample_catalog_def sample_info_def)

text \<open>
  Deleting a version keeps the catalog well formed, and the latest version is afterwards not the
  deleted one nor one marked as deleted, provided any other unmarked version is listed.
\<close>

theorem catalog_delete_wf:
  assumes "wf_catalog pc cat" "parsed_catalog parse sh cat"
    and "sh (latest_version cat) = s"
    and "\<exists>v \<in> set (cat_versions cat). sh (vi_version v) \<noteq> s \<and> \<not> marked (sh (vi_version v))"
  shows "wf_catalog pc (catalog_delete parse sh marked s cat) \<and>
    sh (latest_version (catalog_delete parse sh marked s cat)) \<noteq> s \<and>
    \<not> marked (sh (latest_version (catalog_delete parse sh marked s cat)))"
  using assms(2)
proof (cases rule: catalog_delete_cases [where marked = marked and s = s])
  case 1
  then show ?thesis using assms(3,4) by auto
next
  case (2 v)
  then show ?thesis
    using assms(1) by (auto simp: wf_catalog_def intro!: bexI [of _ v])
qed

theorem catalog_delete_wf_witness:
  "sample_show (latest_version (catalog_delete sample_parse sample_show (\<lambda>_. False) ''2.0.0''
     sample_catalog)) \<noteq> ''2.0.0''"
  using catalog_delete_wf [OF sample_catalog_wf sample_catalog_parsed, of "''2.0.0''" "\<lambda>_. False"]
  by (simp add: sample_defs)

text \<open>
  The replacement for a deleted latest version is chosen by comparing version strings, not
  versions: with 1.10.0 and 1.9.0 left, 1.9.0 becomes the latest version although 1.10.0 is newer.
\<close>

theorem delete_picks_older_version:
  assumes "\<And>v. v \<in> {version_new 2 0 0, version_new 1 10 0, version_new 1 9 0} \<Longrightarrow> parse (sh v) = Inr v"
    and "sh (version_new 2 0 0) = ''2.0.0''" "sh (version_new 1 10 0) = ''1.10.0''"
      "sh (version_new 1 9 0) = ''1.9.0''"
    and "map vi_version (cat_versions cat) = [version_new 2 0 0, version_new 1 10 0, version_new 1 9 0]"
    and "latest_version cat = version_new 2 0 0"
  shows "latest_version (catalog_delete parse sh (\<lambda>_. False) ''2.0.0'' cat) = version_new 1 9 0 \<and>
    version_cmp pc (version_new 1 10 0) (version_new 1 9 0) = Greater"
proof -
  have "map (\<lambda>v. sh (vi_version v)) (cat_versions cat) =
      map sh (map vi_version (cat_versions cat))" by simp
  also have "\<dots> = [''2.0.0'', ''1.10.0'', ''1.9.0'']" by (simp only: assms(5)) (simp add: assms(2-4))
  finally have m: "map (\<lambda>v. sh (vi_version v)) (cat_versions cat) = [''2.0.0'', ''1.10.0'', ''1.9.0'']" .
  have "max_str [''1.10.0'', ''1.9.0''] = Some ''1.9.0''" by code_simp
  moreover have "parse ''1.9.0'' = Inr (version_new 1 9 0)"
    using assms(1) [of "version_new 1 9 0"] assms(4) by simp
  ultimately have "latest_version (catalog_delete parse sh (\<lambda>_. False) ''2.0.0'' cat) = version_new 1 9 0"
    using assms(2,6) by (simp add: catalog_delete_def m Let_def version_from_str_def)
  then show ?thesis
    by (simp add: version_cmp_def version_new_def ord_cmp_def)
qed

theorem delete_picks_older_version_witness:
  "latest_version (catalog_delete sample_parse sample_show (\<lambda>_. False) ''2.0.0'' sample_catalog)
     = version_new 1 9 0"
  by (rule delete_picks_older_version [THEN conjunct1]) (auto simp: sample_defs)

end
