(* ===== verification/File_System.thy ===== *)
theory File_System
  imports Prelude
begin

text \<open>
  The part of \<open>std::path\<close>, \<open>std::fs\<close> and \<open>tokio::fs\<close> the server uses. A path is its list of
  components below the root. A world holds the tree (an association list from paths to nodes, so
  that directories can be listed), a counter of the I/O operations performed and an arbitrary
  schedule of faults: any operation may fail, and a failing write may leave any content in the
  file it was writing. The type of file contents is a parameter; JSON text is produced and read
  by \<open>serde_json\<close>, whose functions are parameters of the storage model.
\<close>

section \<open>Paths\<close>

type_synonym path = "string list"

definition path_components :: "string \<Rightarrow> string list" where
  "path_components s = filter (\<lambda>c. c \<noteq> [] \<and> c \<noteq> ''.'') (split_char (CHR ''/'') s)"

text \<open>\<open>Path::join\<close> with a string: an absolute argument replaces the path.\<close>

definition path_join :: "path \<Rightarrow> string \<Rightarrow> path" where
  "path_join p s =
     (if starts_with s ''/'' then path_components s else p @ path_components s)"

definition plain_component :: "string \<Rightarrow> bool" where
  "plain_component s \<longleftrightarrow> s \<noteq> [] \<and> s \<noteq> ''.'' \<and> CHR ''/'' \<notin> set s"

lemma path_join_plain [simp]: "plain_component s \<Longrightarrow> path_join p s = p @ [s]"
  by (cases s)
     (auto simp: path_join_def plain_component_def path_components_def split_char_absent starts_with_def)

text \<open>Joining a name without slashes adds at most one component; a lone dot adds none.\<close>

definition slash_free :: "string \<Rightarrow> bool" where
  "slash_free s \<longleftrightarrow> s \<noteq> [] \<and> CHR ''/'' \<notin> set s"

definition segment :: "string \<Rightarrow> path" where
  "segment s = (if s = ''.'' then [] else [s])"

lemma path_join_dot [simp]: "path_join p ''.'' = p"
  by (simp add: path_join_def path_components_def starts_with_def)

lemma plain_or_dot: "slash_free s \<longleftrightarrow> plain_component s \<or> s = ''.''"
  by (auto simp: slash_free_def plain_component_def)

lemma path_join_segment: "slash_free s \<Longrightarrow> path_join p s = p @ segment s"
  by (auto simp: plain_or_dot segment_def plain_component_def)

text \<open>\<open>Path::with_extension\<close>: the part of the file name from its last dot on is replaced, unless that
  dot is the first character.\<close>

definition file_stem :: "string \<Rightarrow> string" where
  "file_stem s = (let r = dropWhile (\<lambda>c. c \<noteq> CHR ''.'') (rev s)
                  in if r = [] \<or> tl r = [] then s else rev (tl r))"

definition with_extension :: "path \<Rightarrow> string \<Rightarrow> path" where
  "with_extension p ext = butlast p @ [file_stem (last p) @ ''.'' @ ext]"

lemma with_extension_snoc [simp]: "with_extension (p @ [f]) ext = p @ [file_stem f @ ''.'' @ ext]"
  by (simp add: with_extension_def)

definition path_str :: "path \<Rightarrow> string" where
  "path_str p = concat (map (\<lambda>c. CHR ''/'' # c) p)"

definition in_dir :: "path \<Rightarrow> path \<Rightarrow> bool" where
  "in_dir d p \<longleftrightarrow> take (length d) p = d"

lemma in_dir_append [simp]: "in_dir d (d @ p)"
  by (simp add: in_dir_def)

lemma in_dir_trans: "in_dir d (e @ r) \<Longrightarrow> in_dir (e @ r) p \<Longrightarrow> in_dir d p"
  unfolding in_dir_def
  by (metis length_take min.absorb1 nat_le_linear take_all take_take)


section \<open>The world and its primitive operations\<close>

datatype 'c node = File 'c | Dir

datatype 'c fault = NoFault | Fail | Torn 'c

datatype io_error = IoFault | NoEntry | NotADirectory | IsADirectory | InvalidData

record 'c world =
  fs :: "(path \<times> 'c node) list"
  tick :: nat
  faults :: "nat \<Rightarrow> 'c fault"

type_synonym ('c, 'e, 'a) io = "'c world \<Rightarrow> ('e + 'a) \<times> 'c world"

definition lookup :: "'c world \<Rightarrow> path \<Rightarrow> 'c node option" where
  "lookup w p = map_of (fs w) p"

definition exists_path :: "path \<Rightarrow> 'c world \<Rightarrow> bool" where
  "exists_path p w \<longleftrightarrow> lookup w p \<noteq> None"

definition is_dir :: "path \<Rightarrow> 'c world \<Rightarrow> bool" where
  "is_dir p w \<longleftrightarrow> p = [] \<or> lookup w p = Some Dir"

definition set_node :: "path \<Rightarrow> 'c node \<Rightarrow> 'c world \<Rightarrow> 'c world" where
  "set_node p n w = w\<lparr>fs := upd p n (fs w)\<rparr>"

definition drop_node :: "path \<Rightarrow> 'c world \<Rightarrow> 'c world" where
  "drop_node p w = w\<lparr>fs := del p (fs w)\<rparr>"

lemma lookup_set_node [simp]: "lookup (set_node p n w) = (lookup w)(p \<mapsto> n)"
  by (rule ext) (simp add: lookup_def set_node_def)

lemma lookup_drop_node [simp]: "lookup (drop_node p w) = (lookup w)(p := None)"
  by (rule ext) (simp add: lookup_def drop_node_def)

lemma faults_nodes [simp]:
  "faults (set_node p n w) = faults w" "tick (set_node p n w) = tick w"
  "faults (drop_node p w) = faults w" "tick (drop_node p w) = tick w"
  by (simp_all add: set_node_def drop_node_def)

text \<open>Every primitive consumes one position of the fault schedule.\<close>

definition next_op :: "'c world \<Rightarrow> 'c fault \<times> 'c world" where
  "next_op w = (faults w (tick w), w\<lparr>tick := Suc (tick w)\<rparr>)"

definition read_file :: "path \<Rightarrow> ('c, io_error, 'c) io" where
  "read_file p w =
     (case next_op w of
        (NoFault, w') \<Rightarrow>
          (case lookup w' p of
             None \<Rightarrow> (Inl NoEntry, w') | Some Dir \<Rightarrow> (Inl IsADirectory, w')
           | Some (File c) \<Rightarrow> (Inr c, w'))
      | (_, w') \<Rightarrow> (Inl IoFault, w'))"

definition write_file :: "path \<Rightarrow> 'c \<Rightarrow> ('c, io_error, unit) io" where
  "write_file p c w =
     (let (f, w') = next_op w in
      if lookup w' p = Some Dir then (Inl IsADirectory, w')
      else if \<not> is_dir (butlast p) w' then (Inl NoEntry, w')
      else case f of
        NoFault \<Rightarrow> (Inr (), set_node p (File c) w')
      | Fail \<Rightarrow> (Inl IoFault, w')
      | Torn g \<Rightarrow> (Inl IoFault, set_node p (File g) w'))"

definition rename :: "path \<Rightarrow> path \<Rightarrow> ('c, io_error, unit) io" where
  "rename a b w =
     (case next_op w of
        (NoFault, w') \<Rightarrow>
          (case lookup w' a of
             Some (File c) \<Rightarrow>
               (if lookup w' b = Some Dir then (Inl IsADirectory, w')
                else if \<not> is_dir (butlast b) w' then (Inl NoEntry, w')
                else (Inr (), set_node b (File c) (drop_node a w')))
           | Some Dir \<Rightarrow> (Inl IsADirectory, w')
           | None \<Rightarrow> (Inl NoEntry, w'))
      | (_, w') \<Rightarrow> (Inl IoFault, w'))"

definition remove_file :: "path \<Rightarrow> ('c, io_error, unit) io" where
  "remove_file p w =
     (case next_op w of
        (NoFault, w') \<Rightarrow>
          (case lookup w' p of
             Some (File c) \<Rightarrow> (Inr (), drop_node p w')
           | Some Dir \<Rightarrow> (Inl IsADirectory, w')
           | None \<Rightarrow> (Inl NoEntry, w'))
      | (_, w') \<Rightarrow> (Inl IoFault, w'))"

text \<open>\<open>OpenOptions\<close> with \<open>create(true)\<close> and \<open>truncate(false)\<close>: an absent file is created empty.\<close>

definition open_create :: "'c \<Rightarrow> path \<Rightarrow> ('c, io_error, unit) io" where
  "open_create content0 p w =
     (case next_op w of
        (NoFault, w') \<Rightarrow>
          (case lookup w' p of
             Some (File c) \<Rightarrow> (Inr (), w')
           | Some Dir \<Rightarrow> (Inl IsADirectory, w')
           | None \<Rightarrow> (if is_dir (butlast p) w' then (Inr (), set_node p (File content0) w')
                      else (Inl NoEntry, w')))
      | (_, w') \<Rightarrow> (Inl IoFault, w'))"

definition open_file :: "path \<Rightarrow> ('c, io_error, unit) io" where
  "open_file p w =
     (case next_op w of
        (NoFault, w') \<Rightarrow>
          (case lookup w' p of
             Some (File c) \<Rightarrow> (Inr (), w')
           | Some Dir \<Rightarrow> (Inl IsADirectory, w')
           | None \<Rightarrow> (Inl NoEntry, w'))
      | (_, w') \<Rightarrow> (Inl IoFault, w'))"

text \<open>An operation with no effect on the tree that may fail (taking a file lock, flushing).\<close>

definition io_point :: "('c, io_error, unit) io" where
  "io_point w =
     (case next_op w of (NoFault, w') \<Rightarrow> (Inr (), w') | (_, w') \<Rightarrow> (Inl IoFault, w'))"

fun mkdirs :: "path list \<Rightarrow> 'c world \<Rightarrow> 'c world" where
  "mkdirs [] w = w"
| "mkdirs (p # ps) w = mkdirs ps (if lookup w p = None then set_node p Dir w else w)"

definition ancestors :: "path \<Rightarrow> path list" where
  "ancestors p = map (\<lambda>n. take n p) [1..<Suc (length p)]"

definition create_dir_all :: "path \<Rightarrow> ('c, io_error, unit) io" where
  "create_dir_all p w =
     (case next_op w of
        (NoFault, w') \<Rightarrow>
          (if \<exists>q \<in> set (ancestors p). lookup w' q \<noteq> None \<and> lookup w' q \<noteq> Some Dir
           then (Inl NotADirectory, w')
           else (Inr (), mkdirs (ancestors p) w'))
      | (_, w') \<Rightarrow> (Inl IoFault, w'))"

lemmas io_prims [deltaship_defs] =
  read_file_def write_file_def rename_def remove_file_def open_create_def open_file_def
  io_point_def create_dir_all_def


section \<open>Sequencing\<close>

definition returnE :: "'a \<Rightarrow> ('c, 'e, 'a) io" where
  "returnE x w = (Inr x, w)"

definition throwE :: "'e \<Rightarrow> ('c, 'e, 'a) io" where
  "throwE e w = (Inl e, w)"

definition bindE :: "('c, 'e, 'a) io \<Rightarrow> ('a \<Rightarrow> ('c, 'e, 'b) io) \<Rightarrow> ('c, 'e, 'b) io" where
  "bindE m f w = (case m w of (Inl e, w') \<Rightarrow> (Inl e, w') | (Inr x, w') \<Rightarrow> f x w')"

definition map_err :: "('e \<Rightarrow> 'f) \<Rightarrow> ('c, 'e, 'a) io \<Rightarrow> ('c, 'f, 'a) io" where
  "map_err h m w = (case m w of (Inl e, w') \<Rightarrow> (Inl (h e), w') | (Inr x, w') \<Rightarrow> (Inr x, w'))"

text \<open>\<open>.ok()\<close>, and \<open>let _ = ...\<close> which ignores the outcome.\<close>

definition attempt :: "('c, 'e, 'a) io \<Rightarrow> ('c, 'f, 'a option) io" where
  "attempt m w = (case m w of (Inl e, w') \<Rightarrow> (Inr None, w') | (Inr x, w') \<Rightarrow> (Inr (Some x), w'))"

definition from_sum :: "('e + 'a) \<Rightarrow> ('c, 'e, 'a) io" where
  "from_sum r w = (r, w)"

definition get_world :: "('c world \<Rightarrow> 'a) \<Rightarrow> ('c, 'e, 'a) io" where
  "get_world g w = (Inr (g w), w)"

lemmas io_seq [deltaship_defs] =
  returnE_def throwE_def bindE_def map_err_def attempt_def from_sum_def get_world_def


lemma snd_map_err [simp]: "snd (map_err h m w) = snd (m w)"
  by (simp add: map_err_def split: prod.splits sum.splits)

lemma snd_attempt [simp]: "snd (attempt m w) = snd (m w)"
  by (simp add: attempt_def split: prod.splits sum.splits)


lemma bindE_assoc: "bindE (bindE m f) g = bindE m (\<lambda>x. bindE (f x) g)"
  by (rule ext) (simp add: bindE_def split: prod.splits sum.splits)

lemma bindE_return: "bindE (returnE x) f = f x"
  by (rule ext) (simp add: bindE_def returnE_def)

lemma map_err_bindE: "map_err h (bindE m f) = bindE (map_err h m) (\<lambda>x. map_err h (f x))"
  by (rule ext) (simp add: bindE_def map_err_def split: prod.splits sum.splits)

lemma map_err_return: "map_err h (returnE x) = returnE x"
  by (rule ext) (simp add: map_err_def returnE_def)

lemmas flatten_bind = bindE_assoc bindE_return map_err_bindE map_err_return


section \<open>Relations kept by every program\<close>

text \<open>
  A reflexive and transitive relation between worlds is kept by a sequential composition when both
  parts keep it, whatever faults occur. Footprints and the crash-safety of a file are instances.
\<close>

locale world_rel =
  fixes R :: "'c world \<Rightarrow> 'c world \<Rightarrow> bool"
  assumes R_refl: "R w w"
    and R_trans: "R u v \<Longrightarrow> R v w \<Longrightarrow> R u w"
begin

definition keeps :: "('c, 'e, 'a) io \<Rightarrow> bool" where
  "keeps m \<longleftrightarrow> (\<forall>w. R w (snd (m w)))"

lemma keepsD: "keeps m \<Longrightarrow> m w = (r, w') \<Longrightarrow> R w w'"
  unfolding keeps_def by (metis snd_conv)

lemma keeps_pure:
  "keeps (returnE x)" "keeps (throwE e)" "keeps (from_sum r)" "keeps (get_world g)"
  by (simp_all add: keeps_def io_seq R_refl)

lemma keeps_bindE:
  assumes m: "keeps m" and f: "\<And>x. keeps (f x)"
  shows "keeps (bindE m f)"
  unfolding keeps_def
proof
  fix w
  obtain r w' where mw: "m w = (r, w')" by (cases "m w")
  show "R w (snd (bindE m f w))"
  proof (cases r)
    case (Inl e)
    with mw keepsD [OF m mw] show ?thesis by (simp add: bindE_def)
  next
    case (Inr x)
    moreover have "R w' (snd (f x w'))" using f [of x] by (simp add: keeps_def)
    ultimately show ?thesis
      using mw keepsD [OF m mw] by (simp add: bindE_def) (rule R_trans)
  qed
qed

lemma keeps_wrap: "keeps m \<Longrightarrow> keeps (map_err h m)" "keeps m \<Longrightarrow> keeps (attempt m)"
  by (simp_all add: keeps_def)

lemma keeps_if: "keeps m \<Longrightarrow> keeps n \<Longrightarrow> keeps (if b then m else n)"
  by simp

lemma keeps_option:
  "keeps m \<Longrightarrow> (\<And>x. keeps (f x)) \<Longrightarrow> keeps (case v of None \<Rightarrow> m | Some x \<Rightarrow> f x)"
  by (simp split: option.split)

lemma keeps_sum:
  "(\<And>e. keeps (g e)) \<Longrightarrow> (\<And>x. keeps (f x)) \<Longrightarrow> keeps (case v of Inl e \<Rightarrow> g e | Inr x \<Rightarrow> f x)"
  by (simp split: sum.split)

lemmas keeps_intros = keeps_pure keeps_bindE keeps_wrap keeps_if keeps_option keeps_sum

end


section \<open>Weakest preconditions\<close>

text \<open>\<open>wp m Q E w\<close>: run in \<open>w\<close>, \<open>m\<close> returns a value and a world that satisfy \<open>Q\<close>, or an error and a
  world that satisfy \<open>E\<close>. Programs are total functions, so this is total correctness.\<close>

definition wp :: "('c, 'e, 'a) io \<Rightarrow> ('a \<Rightarrow> 'c world \<Rightarrow> bool) \<Rightarrow> ('e \<Rightarrow> 'c world \<Rightarrow> bool)
   \<Rightarrow> 'c world \<Rightarrow> bool" where
  "wp m Q E w = (case m w of (Inl e, w') \<Rightarrow> E e w' | (Inr x, w') \<Rightarrow> Q x w')"

lemma wp_pure [simp]:
  "wp (returnE x) Q E w = Q x w"
  "wp (throwE e) Q E w = E e w"
  "wp (from_sum r) Q E w = (case r of Inl e \<Rightarrow> E e w | Inr x \<Rightarrow> Q x w)"
  "wp (get_world g) Q E w = Q (g w) w"
  by (auto simp: wp_def io_seq split: sum.splits)

lemma wp_bindE [simp]: "wp (bindE m f) Q E w = wp m (\<lambda>x. wp (f x) Q E) E w"
  by (auto simp: wp_def bindE_def split: prod.splits sum.splits)

lemma wp_map_err [simp]: "wp (map_err h m) Q E w = wp m Q (\<lambda>e. E (h e)) w"
  by (auto simp: wp_def map_err_def split: prod.splits sum.splits)

lemma wp_attempt [simp]: "wp (attempt m) Q E w = wp m (\<lambda>x. Q (Some x)) (\<lambda>e. Q None) w"
  by (auto simp: wp_def attempt_def split: prod.splits sum.splits)

lemma wp_return_fun [simp]: "wp (returnE x) Q E = Q x"
  by (rule ext) simp

lemmas wp_seq_fun [simp] = wp_bindE [abs_def] wp_map_err [abs_def] wp_attempt [abs_def]

lemma wp_branch:
  "(b \<Longrightarrow> wp m Q E w) \<Longrightarrow> (\<not> b \<Longrightarrow> wp n Q E w) \<Longrightarrow> wp (if b then m else n) Q E w"
  "(v = None \<Longrightarrow> wp m Q E w) \<Longrightarrow> (\<And>x. v = Some x \<Longrightarrow> wp (f x) Q E w) \<Longrightarrow>
     wp (case v of None \<Rightarrow> m | Some x \<Rightarrow> f x) Q E w"
  "(\<And>e. r = Inl e \<Longrightarrow> wp (g e) Q E w) \<Longrightarrow> (\<And>x. r = Inr x \<Longrightarrow> wp (h x) Q E w) \<Longrightarrow>
     wp (case r of Inl e \<Rightarrow> g e | Inr x \<Rightarrow> h x) Q E w"
  by (simp_all split: option.split sum.split)

lemma wp_from_sum:
  "(\<And>e. r = Inl e \<Longrightarrow> E e w) \<Longrightarrow> (\<And>x. r = Inr x \<Longrightarrow> Q x w) \<Longrightarrow> wp (from_sum r) Q E w"
  by (simp split: sum.split)

text \<open>Rules that run a program symbolically, leaving its paths as goals.\<close>

lemmas wp_run = wp_branch wp_from_sum wp_pure(1,2,4) [THEN iffD2] wp_bindE [THEN iffD2]
  wp_map_err [THEN iffD2] wp_attempt [THEN iffD2]

lemma wp_mono:
  "wp m Q E w \<Longrightarrow> (\<And>x w'. Q x w' \<Longrightarrow> Q' x w') \<Longrightarrow> (\<And>e w'. E e w' \<Longrightarrow> E' e w') \<Longrightarrow> wp m Q' E' w"
  by (auto simp: wp_def split: prod.splits sum.splits)

lemma wpI:
  "(\<And>x w'. m w = (Inr x, w') \<Longrightarrow> Q x w') \<Longrightarrow> (\<And>e w'. m w = (Inl e, w') \<Longrightarrow> E e w') \<Longrightarrow> wp m Q E w"
  by (auto simp: wp_def split: prod.splits sum.splits)

lemma wpD:
  "wp m Q E w \<Longrightarrow> m w = (Inr x, w') \<Longrightarrow> Q x w'"
  "wp m Q E w \<Longrightarrow> m w = (Inl e, w') \<Longrightarrow> E e w'"
  by (auto simp: wp_def)


text \<open>Composition where the second part keeps the relation for the values the first can return.\<close>

context world_rel
begin

lemma keeps_bindE_ret:
  assumes m: "keeps m" and ret: "\<And>w. wp m (\<lambda>x _. P x) (\<lambda>_ _. True) w" and f: "\<And>x. P x \<Longrightarrow> keeps (f x)"
  shows "keeps (bindE m f)"
  unfolding keeps_def
proof
  fix w
  obtain r w' where mw: "m w = (r, w')" by (cases "m w")
  show "R w (snd (bindE m f w))"
  proof (cases r)
    case (Inl e)
    with mw keepsD [OF m mw] show ?thesis by (simp add: bindE_def)
  next
    case (Inr x)
    then have "P x" using wpD(1) [OF ret [of w]] mw by simp
    then have "R w' (snd (f x w'))" using f by (simp add: keeps_def)
    then show ?thesis
      using Inr mw keepsD [OF m mw] by (simp add: bindE_def) (rule R_trans)
  qed
qed

end


section \<open>Footprints\<close>

text \<open>
  \<open>touches S m\<close>: whatever faults occur, \<open>m\<close> changes no file outside \<open>S\<close>. The creation of missing
  directories is not a change of a file; \<open>file_at\<close> reads files only.
\<close>

definition file_at :: "'c world \<Rightarrow> path \<Rightarrow> 'c option" where
  "file_at w p = (case lookup w p of Some (File c) \<Rightarrow> Some c | _ \<Rightarrow> None)"

definition same_outside :: "path set \<Rightarrow> 'c world \<Rightarrow> 'c world \<Rightarrow> bool" where
  "same_outside S w w' \<longleftrightarrow> (\<forall>p. p \<notin> S \<longrightarrow> file_at w' p = file_at w p)"

interpretation footprint: world_rel "same_outside S" for S
  by unfold_locales (simp_all add: same_outside_def)

abbreviation touches :: "path set \<Rightarrow> ('c, 'e, 'a) io \<Rightarrow> bool" where
  "touches S \<equiv> world_rel.keeps (same_outside S)"

lemma touches_def: "touches S m \<longleftrightarrow> (\<forall>w. same_outside S w (snd (m w)))"
  by (rule footprint.keeps_def)

lemma touchesD: "touches S m \<Longrightarrow> m w = (r, w') \<Longrightarrow> p \<notin> S \<Longrightarrow> file_at w' p = file_at w p"
  unfolding touches_def same_outside_def by (metis snd_conv)

lemma touches_mono: "touches S m \<Longrightarrow> S \<subseteq> T \<Longrightarrow> touches T m"
  unfolding touches_def same_outside_def by blast

lemma lookup_next_op [simp]: "next_op w = (f, w') \<Longrightarrow> lookup w' = lookup w"
  by (auto simp: next_op_def lookup_def)

lemma file_at_set_node [simp]:
  "file_at (set_node p n w) q = (if q = p then (case n of File c \<Rightarrow> Some c | Dir \<Rightarrow> None) else file_at w q)"
  by (simp add: file_at_def split: node.splits)

lemma file_at_drop_node [simp]: "file_at (drop_node p w) q = (if q = p then None else file_at w q)"
  by (simp add: file_at_def)

lemma file_at_next_op: "next_op w = (f, w') \<Longrightarrow> file_at w' p = file_at w p"
  by (simp add: file_at_def)

lemma lookup_mkdirs: "lookup (mkdirs ps w) p =
    (if lookup w p = None \<and> p \<in> set ps then Some Dir else lookup w p)"
  by (induction ps arbitrary: w) auto

lemma file_at_mkdirs [simp]: "file_at (mkdirs ps w) p = file_at w p"
  by (induction ps arbitrary: w) (auto simp: file_at_def)

lemma touches_prims:
  "touches {} (read_file p)" "touches {p} (write_file p c)" "touches {a, b} (rename a b)"
  "touches {p} (remove_file p)" "touches {p} (open_create e p)" "touches {} (open_file p)"
  "touches {} io_point" "touches {} (create_dir_all p)"
  by (auto simp: touches_def same_outside_def io_prims Let_def
      split: prod.splits fault.splits option.splits node.splits dest: file_at_next_op)

text \<open>What each primitive does to the files of the tree, as rules for \<open>wp\<close>.\<close>

lemma wp_read_file:
  assumes "\<And>c w'. file_at w' = file_at w \<Longrightarrow> file_at w p = Some c \<Longrightarrow> Q c w'"
    and "\<And>e w'. file_at w' = file_at w \<Longrightarrow> E e w'"
  shows "wp (read_file p) Q E w"
  using assms by (auto simp: wp_def read_file_def fun_eq_iff file_at_def
      split: prod.splits fault.splits option.splits node.splits sum.splits)

lemma wp_write_file:
  assumes "\<And>w'. file_at w' = (file_at w)(p \<mapsto> c) \<Longrightarrow> Q () w'"
    and "\<And>e w' x. file_at w' = (file_at w)(p := x) \<Longrightarrow> E e w'"
  shows "wp (write_file p c) Q E w"
proof -
  obtain f v where n: "next_op w = (f, v)" by (cases "next_op w")
  then have v: "file_at v = file_at w" by (auto simp: file_at_next_op)
  have E: "E IsADirectory v" "E NoEntry v" "E IoFault v"
    using assms(2) [of v "file_at w p"] v by simp_all
  have set: "file_at (set_node p (File g) v) = (file_at w)(p \<mapsto> g)" for g
    by (auto simp: v fun_eq_iff)
  show ?thesis
    using E assms(1) [OF set] assms(2) [OF set]
    by (auto simp: wp_def write_file_def n Let_def split: fault.splits)
qed

lemma wp_rename:
  assumes "\<And>c w'. file_at w a = Some c \<Longrightarrow> file_at w' = (file_at w)(a := None, b \<mapsto> c) \<Longrightarrow> Q () w'"
    and "\<And>e w'. file_at w' = file_at w \<Longrightarrow> E e w'"
  shows "wp (rename a b) Q E w"
proof -
  obtain f v where n: "next_op w = (f, v)" by (cases "next_op w")
  then have v: "file_at v = file_at w" by (auto simp: file_at_next_op)
  have set: "file_at (set_node b (File c) (drop_node a v)) = (file_at w)(a := None, b \<mapsto> c)" for c
    by (auto simp: v fun_eq_iff)
  have "file_at w a = Some c" if "lookup v a = Some (File c)" for c
    using that by (simp add: v [symmetric] file_at_def)
  then show ?thesis
    using assms(1) [OF _ set] assms(2) [OF v]
    by (auto simp: wp_def rename_def n split: fault.splits option.splits node.splits)
qed

lemma wp_remove_file:
  assumes "\<And>w'. file_at w' = (file_at w)(p := None) \<Longrightarrow> Q () w'"
    and "\<And>e w'. file_at w' = file_at w \<Longrightarrow> E e w'"
  shows "wp (remove_file p) Q E w"
proof -
  obtain f v where n: "next_op w = (f, v)" by (cases "next_op w")
  then have v: "file_at v = file_at w" by (auto simp: file_at_next_op)
  have drop: "file_at (drop_node p v) = (file_at w)(p := None)"
    by (auto simp: v fun_eq_iff)
  show ?thesis
    using assms(1) [OF drop] assms(2) [OF v]
    by (auto simp: wp_def remove_file_def n split: fault.splits option.splits node.splits)
qed

lemma wp_open_create:
  assumes "\<And>w'. file_at w' = (file_at w)(p \<mapsto> (case file_at w p of Some c \<Rightarrow> c | None \<Rightarrow> c0)) \<Longrightarrow> Q () w'"
    and "\<And>e w'. file_at w' = file_at w \<Longrightarrow> E e w'"
  shows "wp (open_create c0 p) Q E w"
proof -
  obtain f v where n: "next_op w = (f, v)" by (cases "next_op w")
  then have v: "file_at v = file_at w" by (auto simp: file_at_next_op)
  have old: "file_at v = (file_at w)(p \<mapsto> (case file_at w p of Some c \<Rightarrow> c | None \<Rightarrow> c0))"
    if "lookup v p = Some (File c)" for c
    using that by (auto simp: v [symmetric] fun_eq_iff file_at_def)
  have new: "file_at (set_node p (File c0) v) =
      (file_at w)(p \<mapsto> (case file_at w p of Some c \<Rightarrow> c | None \<Rightarrow> c0))" if "lookup v p = None"
    using that by (auto simp: v [symmetric] fun_eq_iff file_at_def)
  show ?thesis
    using assms(1) [OF old] assms(1) [OF new] assms(2) [OF v]
    by (auto simp: wp_def open_create_def n split: fault.splits option.splits node.splits)
qed

lemma wp_no_change:
  assumes "\<And>w'. file_at w' = file_at w \<Longrightarrow> Q () w'" "\<And>e w'. file_at w' = file_at w \<Longrightarrow> E e w'"
  shows "wp (open_file p) Q E w" "wp io_point Q E w" "wp (create_dir_all p) Q E w"
  using assms
  by (auto simp: wp_def open_file_def io_point_def create_dir_all_def fun_eq_iff file_at_def lookup_mkdirs
      split: prod.splits fault.splits option.splits node.splits sum.splits)

lemmas wp_prims = wp_read_file wp_write_file wp_rename wp_remove_file wp_open_create wp_no_change

text \<open>The same facts for a larger footprint, as introduction rules.\<close>

lemma touches_primsI [intro]:
  "touches S (read_file p)" "p \<in> S \<Longrightarrow> touches S (write_file p c)"
  "a \<in> S \<Longrightarrow> b \<in> S \<Longrightarrow> touches S (rename a b)" "p \<in> S \<Longrightarrow> touches S (remove_file p)"
  "p \<in> S \<Longrightarrow> touches S (open_create e p)" "touches S (open_file p)"
  "touches S io_point" "touches S (create_dir_all p)"
  by (auto intro: touches_mono [OF touches_prims(1)] touches_mono [OF touches_prims(2)]
      touches_mono [OF touches_prims(3)] touches_mono [OF touches_prims(4)]
      touches_mono [OF touches_prims(5)] touches_mono [OF touches_prims(6)]
      touches_mono [OF touches_prims(7)] touches_mono [OF touches_prims(8)])

lemmas touches_intros = footprint.keeps_intros touches_primsI


section \<open>Runs without faults\<close>

definition quiet :: "'c world \<Rightarrow> bool" where
  "quiet w \<longleftrightarrow> (\<forall>n. faults w n = NoFault)"

definition skip_ops :: "nat \<Rightarrow> 'c world \<Rightarrow> 'c world" where
  "skip_ops n w = w\<lparr>tick := tick w + n\<rparr>"

lemma quiet_simps [simp]:
  "quiet (set_node p n w) = quiet w" "quiet (drop_node p w) = quiet w" "quiet (skip_ops k w) = quiet w"
  by (simp_all add: quiet_def skip_ops_def)

lemma lookup_skip_ops [simp]: "lookup (skip_ops n w) = lookup w" "file_at (skip_ops n w) = file_at w"
  by (simp_all add: skip_ops_def lookup_def fun_eq_iff file_at_def)

lemma is_dir_skip_ops [simp]: "is_dir p (skip_ops n w) = is_dir p w"
  by (simp add: is_dir_def)

lemma next_op_quiet: "quiet w \<Longrightarrow> next_op w = (NoFault, skip_ops 1 w)"
  by (simp add: next_op_def quiet_def skip_ops_def)

lemma quiet_mkdirs [simp]: "quiet (mkdirs ps w) = quiet w"
  by (induction ps arbitrary: w) auto

text \<open>What each primitive does in a world without faults, with the directories in place.\<close>

lemma quiet_next_op: "quiet w \<Longrightarrow> next_op w = (f, w') \<longleftrightarrow> f = NoFault \<and> w' = skip_ops 1 w"
  by (auto simp: next_op_quiet)

lemma ok_read_file:
  assumes "quiet w" "lookup w p = Some (File c)"
    and "\<And>w'. quiet w' \<Longrightarrow> lookup w' = lookup w \<Longrightarrow> Q c w'"
  shows "wp (read_file p) Q E w"
  using assms by (auto simp: wp_def read_file_def next_op_quiet)

lemma ok_write_file:
  assumes "quiet w" "is_dir (butlast p) w" "lookup w p \<noteq> Some Dir"
    and "\<And>w'. quiet w' \<Longrightarrow> lookup w' = (lookup w)(p \<mapsto> File c) \<Longrightarrow> Q () w'"
  shows "wp (write_file p c) Q E w"
  using assms by (auto simp: wp_def write_file_def next_op_quiet)

lemma ok_rename:
  assumes "quiet w" "lookup w a = Some (File c)" "is_dir (butlast b) w" "lookup w b \<noteq> Some Dir"
    and "\<And>w'. quiet w' \<Longrightarrow> lookup w' = (lookup w)(a := None, b \<mapsto> File c) \<Longrightarrow> Q () w'"
  shows "wp (rename a b) Q E w"
  using assms by (auto simp: wp_def rename_def next_op_quiet)

lemma ok_open_create:
  assumes "quiet w" "is_dir (butlast p) w" "lookup w p \<noteq> Some Dir"
    and "\<And>w'. quiet w' \<Longrightarrow>
      lookup w' = (lookup w)(p \<mapsto> (case lookup w p of None \<Rightarrow> File c0 | Some n \<Rightarrow> n)) \<Longrightarrow> Q () w'"
  shows "wp (open_create c0 p) Q E w"
proof -
  have "lookup (skip_ops 1 w) = (lookup w)(p \<mapsto> File c)" if "lookup w p = Some (File c)" for c
    using that by auto
  then show ?thesis
    using assms
    by (auto simp: wp_def open_create_def next_op_quiet split: option.splits node.splits)
qed

lemma ok_open_file:
  assumes "quiet w" "lookup w p = Some (File c)"
    and "\<And>w'. quiet w' \<Longrightarrow> lookup w' = lookup w \<Longrightarrow> Q () w'"
  shows "wp (open_file p) Q E w"
  using assms by (auto simp: wp_def open_file_def next_op_quiet)

lemma ok_io_point:
  assumes "quiet w" "\<And>w'. quiet w' \<Longrightarrow> lookup w' = lookup w \<Longrightarrow> Q () w'"
  shows "wp io_point Q E w"
  using assms by (auto simp: wp_def io_point_def next_op_quiet)

lemma ok_remove_file:
  assumes "quiet w" "lookup w p = Some (File c)"
    and "\<And>w'. quiet w' \<Longrightarrow> lookup w' = (lookup w)(p := None) \<Longrightarrow> Q () w'"
  shows "wp (remove_file p) Q E w"
  using assms by (auto simp: wp_def remove_file_def next_op_quiet)

lemma ok_create_dir_all:
  assumes "quiet w" "\<And>q. q \<in> set (ancestors p) \<Longrightarrow> lookup w q = None \<or> lookup w q = Some Dir"
    and "\<And>w'. quiet w' \<Longrightarrow>
      lookup w' = (\<lambda>q. if q \<in> set (ancestors p) then Some Dir else lookup w q) \<Longrightarrow> Q () w'"
  shows "wp (create_dir_all p) Q E w"
proof -
  have l: "lookup (mkdirs (ancestors p) (skip_ops 1 w)) =
      (\<lambda>q. if q \<in> set (ancestors p) then Some Dir else lookup w q)"
    using assms(2) by (fastforce simp: lookup_mkdirs fun_eq_iff)
  have "\<not> (\<exists>q \<in> set (ancestors p). lookup w q \<noteq> None \<and> lookup w q \<noteq> Some Dir)"
    using assms(2) by metis
  then have "create_dir_all p w = (Inr (), mkdirs (ancestors p) (skip_ops 1 w))"
    unfolding create_dir_all_def next_op_quiet [OF assms(1)] by auto
  then show ?thesis
    using assms(1) assms(3) [OF _ l] by (simp add: wp_def)
qed

lemmas ok_prims = ok_read_file ok_write_file ok_rename ok_open_create ok_open_file ok_io_point
  ok_remove_file ok_create_dir_all


section \<open>The schedule of faults\<close>

interpretation schedule: world_rel "\<lambda>w w'. faults w' = faults w"
  by unfold_locales simp_all

lemma faults_mkdirs [simp]: "faults (mkdirs ps w) = faults w"
  by (induction ps arbitrary: w) auto

lemma faults_next_op: "next_op w = (f, w') \<Longrightarrow> faults w' = faults w"
  by (auto simp: next_op_def)

lemma schedule_files:
  "schedule.keeps (read_file p)" "schedule.keeps (write_file p c)" "schedule.keeps (remove_file p)"
  "schedule.keeps (open_file p)" "schedule.keeps io_point" "schedule.keeps (create_dir_all p)"
  by (auto simp: schedule.keeps_def io_prims Let_def
      split: prod.splits fault.splits option.splits node.splits dest: faults_next_op)

lemma wp_schedule:
  assumes "schedule.keeps m"
    and "wp m (\<lambda>x w'. faults w' = faults w \<longrightarrow> Q x w') (\<lambda>e w'. faults w' = faults w \<longrightarrow> E e w') w"
  shows "wp m Q E w"
  using assms by (auto simp: wp_def schedule.keeps_def split: prod.splits sum.splits) (metis snd_conv)+

text \<open>What a failing write leaves is the old file or what the schedule says.\<close>

lemma wp_write_torn:
  assumes "\<And>n g. faults w n = Torn g \<Longrightarrow> P g"
    and "\<And>w'. file_at w' = (file_at w)(p \<mapsto> c) \<Longrightarrow> Q () w'"
    and "\<And>e w' x. file_at w' = (file_at w)(p := x) \<Longrightarrow> x = file_at w p \<or> (\<exists>g. x = Some g \<and> P g) \<Longrightarrow> E e w'"
  shows "wp (write_file p c) Q E w"
proof -
  obtain f v where n: "next_op w = (f, v)" by (cases "next_op w")
  then have v: "file_at v = file_at w" "f = faults w (tick w)" by (auto simp: file_at_next_op next_op_def)
  have E: "E IsADirectory v" "E NoEntry v" "E IoFault v"
    using assms(3) [of v "file_at w p"] v by simp_all
  have set: "file_at (set_node p (File g) v) = (file_at w)(p \<mapsto> g)" for g
    by (auto simp: v fun_eq_iff)
  have torn: "E IoFault (set_node p (File g) v)" if "f = Torn g" for g
    using assms(3) [OF set [of g]] assms(1) that v(2) by metis
  show ?thesis
    using E assms(2) [OF set] torn by (auto simp: wp_def write_file_def n Let_def split: fault.splits)
qed

end
