(* ===== verification/Validation.thy ===== *)
theory Validation
  imports File_System
begin

text \<open>
  Input validation of the server (\<open>crates/deltaship-server/src/validation.rs\<close>). The two regular
  expressions are character classes with \<open>+\<close> anchored at both ends. The point of the checks is that
  a validated name used as a path component cannot leave its directory; \<open>name_component\<close> states it.
\<close>

definition MAX_NAME_LENGTH :: nat where
  "MAX_NAME_LENGTH = 255"

definition MAX_PATH_LENGTH :: nat where
  "MAX_PATH_LENGTH = 256"

definition valid_name_char :: "char \<Rightarrow> bool" where
  "valid_name_char c \<longleftrightarrow> is_ascii_alphanumeric c \<or> c \<in> {CHR ''.'', CHR ''_'', CHR ''-''}"

definition VALID_NAME_REGEX :: "string \<Rightarrow> bool" where
  "VALID_NAME_REGEX s \<longleftrightarrow> s \<noteq> [] \<and> (\<forall>c \<in> set s. valid_name_char c)"

definition VALID_VERSION_REGEX :: "string \<Rightarrow> bool" where
  "VALID_VERSION_REGEX s \<longleftrightarrow> s \<noteq> [] \<and> (\<forall>c \<in> set s. valid_name_char c \<or> c = CHR ''+'')"

datatype validation_error =
  Empty | TooLong | InvalidCharacters | PathTraversal | NullByte | PathTooLong

definition validate_name :: "string \<Rightarrow> validation_error + unit" where
  "validate_name name =
     (if name = [] then Inl Empty
      else if MAX_NAME_LENGTH < length name then Inl TooLong
      else if CHR 0x00 \<in> set name then Inl NullByte
      else if contains_str name ''..'' \<or> CHR ''/'' \<in> set name \<or> CHR 0x5C \<in> set name
        then Inl PathTraversal
      else if \<not> VALID_NAME_REGEX name then Inl InvalidCharacters
      else Inr ())"

definition validate_version :: "string \<Rightarrow> validation_error + unit" where
  "validate_version version =
     (if version = [] then Inl Empty
      else if MAX_NAME_LENGTH < length version then Inl TooLong
      else if CHR 0x00 \<in> set version then Inl NullByte
      else if contains_str version ''..'' \<or> CHR ''/'' \<in> set version \<or> CHR 0x5C \<in> set version
        then Inl PathTraversal
      else if \<not> VALID_VERSION_REGEX version then Inl InvalidCharacters
      else Inr ())"

definition validate_path_length :: "path \<Rightarrow> validation_error + unit" where
  "validate_path_length p =
     (if MAX_PATH_LENGTH \<le> length (path_str p) then Inl PathTooLong else Inr ())"


section \<open>What the checks accept\<close>

lemma valid_name_char_excludes:
  "\<not> valid_name_char (CHR 0x00)" "\<not> valid_name_char (CHR ''/'')"
  "\<not> valid_name_char (CHR 0x5C)"
  by (simp_all add: valid_name_char_def ascii_defs)

lemma validate_name_Inr_iff:
  "validate_name n = Inr u \<longleftrightarrow>
     n \<noteq> [] \<and> length n \<le> 255 \<and> \<not> contains_str n ''..'' \<and> (\<forall>c \<in> set n. valid_name_char c)"
  using valid_name_char_excludes
  by (auto simp: validate_name_def MAX_NAME_LENGTH_def VALID_NAME_REGEX_def)

lemma validate_version_Inr_iff:
  "validate_version n = Inr u \<longleftrightarrow>
     n \<noteq> [] \<and> length n \<le> 255 \<and> \<not> contains_str n ''..''
     \<and> (\<forall>c \<in> set n. valid_name_char c \<or> c = CHR ''+'')"
  using valid_name_char_excludes
  by (auto simp: validate_version_def MAX_NAME_LENGTH_def VALID_VERSION_REGEX_def)

lemma validate_name_slash: "validate_name n = Inr u \<Longrightarrow> CHR ''/'' \<notin> set n"
  using valid_name_char_excludes(2) by (auto simp: validate_name_Inr_iff)

lemma validate_version_slash: "validate_version n = Inr u \<Longrightarrow> CHR ''/'' \<notin> set n"
  using valid_name_char_excludes(2) by (auto simp: validate_version_Inr_iff)

text \<open>A validated name is a single path component, unless it is a lone dot.\<close>

lemma name_component: "validate_name n = Inr u \<Longrightarrow> n \<noteq> ''.'' \<Longrightarrow> plain_component n"
  by (simp add: plain_component_def validate_name_slash) (auto simp: validate_name_Inr_iff)

lemma version_component: "validate_version n = Inr u \<Longrightarrow> n \<noteq> ''.'' \<Longrightarrow> plain_component n"
  by (simp add: plain_component_def validate_version_slash) (auto simp: validate_version_Inr_iff)

lemma name_slash_free: "validate_name n = Inr u \<Longrightarrow> slash_free n" "validate_version n = Inr u \<Longrightarrow> slash_free n"
  using name_component version_component by (auto simp: plain_or_dot)

lemma not_dotdot: "\<not> contains_str n ''..'' \<Longrightarrow> n \<noteq> ''..''"
  by (auto simp: starts_with_def)

end
