(* ===== verification/Storage.thy ===== *)
theory Storage
  imports Catalog File_System Validation
begin

text \<open>
  The document store of the server (\<open>crates/deltaship-server/src/storage.rs\<close>), on the file system of
  \<open>File_System\<close>. Each function is the sequence of file operations of the source, including the
  opening and locking of the document (\<open>io_point\<close> is the lock, which may fail) and the write of a
  temporary file that is renamed over the document. A panic of the blocking task and an I/O error
  both are \<open>StorageError::Io\<close>, as in the source.

  \<open>libs\<close> collects the functions of third-party crates: \<open>serde_json\<close> for the three kinds of document,
  BLAKE3 (the hash and its hexadecimal text), hexadecimal and base64 decoding, strict Ed25519
  verification (of a key, a message and a signature), and the version parser, printer and prerelease
  order of \<open>semver\<close>; \<open>of_bytes\<close> is the content with the given bytes.
\<close>

section \<open>Third-party functions and their laws\<close>

record 'c libs =
  content0 :: 'c
  of_bytes :: "bytes \<Rightarrow> 'c"
  utf8 :: "'c \<Rightarrow> bool"
  content_len :: "'c \<Rightarrow> u64"
  ser_catalog :: "app_catalog \<Rightarrow> 'c"
  de_catalog :: "'c \<Rightarrow> app_catalog option"
  ser_manifest :: "version_manifest \<Rightarrow> 'c"
  de_manifest :: "'c \<Rightarrow> version_manifest option"
  ser_rollout :: "rollout_config \<Rightarrow> 'c"
  de_rollout :: "'c \<Rightarrow> rollout_config option"
  blake3 :: "'c \<Rightarrow> bytes"
  blake3_hex :: "'c \<Rightarrow> string"
  hex_decode :: "string \<Rightarrow> bytes option"
  base64_decode :: "string \<Rightarrow> bytes option"
  ed25519_verify :: "bytes \<Rightarrow> bytes \<Rightarrow> bytes \<Rightarrow> bool"
  sv_parse :: "string \<Rightarrow> string + version"
  sv_show :: "version \<Rightarrow> string"
  sv_pre_cmp :: "string \<Rightarrow> string \<Rightarrow> ordering"

text \<open>What the sources rely on: JSON text is UTF-8 and is read back as the document it was written
  from, the empty text is not a JSON document, a content has as many bytes as it was made of, and the text of a parsed version is the text it was
  parsed from. (In Rust every \<open>String\<close> is UTF-8 and every \<open>Version\<close> was built from valid parts; the
  documents of the model are read as such values.)\<close>

definition lawful :: "'c libs \<Rightarrow> bool" where
  "lawful L \<longleftrightarrow>
     (\<forall>x. de_catalog L (ser_catalog L x) = Some x) \<and> (\<forall>x. utf8 L (ser_catalog L x)) \<and>
     (\<forall>x. de_manifest L (ser_manifest L x) = Some x) \<and> (\<forall>x. utf8 L (ser_manifest L x)) \<and>
     (\<forall>x. de_rollout L (ser_rollout L x) = Some x) \<and> (\<forall>x. utf8 L (ser_rollout L x)) \<and>
     of_bytes L [] = content0 L \<and> (\<forall>bs. content_len L (of_bytes L bs) = of_nat (length bs)) \<and>
     utf8 L (content0 L) \<and> de_catalog L (content0 L) = None \<and> de_manifest L (content0 L) = None \<and>
     de_rollout L (content0 L) = None \<and>
     (\<forall>s v. sv_parse L s = Inr v \<longrightarrow> sv_show L v = s)"

lemma lawful_simps [simp]:
  assumes "lawful L"
  shows "de_catalog L (ser_catalog L x) = Some x" "utf8 L (ser_catalog L x)"
    "de_manifest L (ser_manifest L m) = Some m" "utf8 L (ser_manifest L m)"
    "de_rollout L (ser_rollout L c) = Some c" "utf8 L (ser_rollout L c)"
    "utf8 L (content0 L)" "de_catalog L (content0 L) = None" "de_manifest L (content0 L) = None"
    "de_rollout L (content0 L) = None" "of_bytes L [] = content0 L"
    "content_len L (of_bytes L bs) = of_nat (length bs)"
  using assms by (simp_all add: lawful_def)

datatype storage_error = SIo io_error | SJson | SNotFound string

text \<open>\<open>read_to_string\<close> refuses a file that is not UTF-8.\<close>

definition read_to_string :: "'c libs \<Rightarrow> path \<Rightarrow> ('c, io_error, 'c) io" where
  "read_to_string L p =
     bindE (read_file p) (\<lambda>c. if utf8 L c then returnE c else throwE InvalidData)"

definition from_json :: "('c \<Rightarrow> 'd option) \<Rightarrow> 'c \<Rightarrow> ('c, storage_error, 'd) io" where
  "from_json de c = (case de c of None \<Rightarrow> throwE SJson | Some d \<Rightarrow> returnE d)"

text \<open>The end of every read-modify-write: the new text goes to a temporary file, which is renamed.\<close>

definition replace_file :: "path \<Rightarrow> 'c \<Rightarrow> ('c, storage_error, unit) io" where
  "replace_file p content =
     (let temp_path = with_extension p ''json.tmp'' in
      bindE (map_err SIo (write_file temp_path content)) (\<lambda>_.
      map_err SIo (rename temp_path p)))"


section \<open>Paths\<close>

definition app_dir :: "path \<Rightarrow> string \<Rightarrow> path" where
  "app_dir data_dir app_name = path_join (path_join data_dir ''apps'') app_name"

definition catalog_path :: "path \<Rightarrow> string \<Rightarrow> path" where
  "catalog_path data_dir app_name = path_join (app_dir data_dir app_name) ''catalog.json''"

definition version_dir :: "path \<Rightarrow> string \<Rightarrow> string \<Rightarrow> path" where
  "version_dir data_dir app_name version =
     path_join (path_join (app_dir data_dir app_name) ''versions'') version"

definition manifest_path :: "path \<Rightarrow> string \<Rightarrow> string \<Rightarrow> path" where
  "manifest_path data_dir app_name version =
     path_join (version_dir data_dir app_name version) ''manifest.json''"

definition get_binary_path :: "path \<Rightarrow> string \<Rightarrow> string \<Rightarrow> platform \<Rightarrow> path" where
  "get_binary_path data_dir app_name version p =
     path_join (version_dir data_dir app_name version) (''binary-'' @ platform_as_str p)"

definition get_diff_path :: "path \<Rightarrow> string \<Rightarrow> string \<Rightarrow> string \<Rightarrow> platform \<Rightarrow> path" where
  "get_diff_path data_dir app_name from_v to_v p =
     path_join (path_join (app_dir data_dir app_name) ''diffs'')
       (from_v @ ''-to-'' @ to_v @ ''-'' @ platform_as_str p)"

definition get_signature_path :: "path \<Rightarrow> string \<Rightarrow> string \<Rightarrow> path" where
  "get_signature_path data_dir app_name version =
     path_join (version_dir data_dir app_name version) ''signature.sig''"

definition get_rollout_path :: "path \<Rightarrow> string \<Rightarrow> string \<Rightarrow> path" where
  "get_rollout_path data_dir app_name version =
     path_join (version_dir data_dir app_name version) ''rollout.json''"

lemmas path_defs = app_dir_def catalog_path_def version_dir_def manifest_path_def get_binary_path_def
  get_diff_path_def get_signature_path_def get_rollout_path_def


section \<open>Reading documents\<close>

text \<open>The readers return \<open>None\<close> for an absent, unreadable or malformed document.\<close>

definition get_app_catalog ::
  "'c libs \<Rightarrow> path \<Rightarrow> string \<Rightarrow> ('c, 'e, app_catalog option) io" where
  "get_app_catalog L data_dir app_name =
     (let p = catalog_path data_dir app_name in
      bindE (get_world (exists_path p)) (\<lambda>ex.
      if \<not> ex then returnE None
      else bindE (attempt (read_to_string L p)) (\<lambda>content.
           returnE (Option.bind content (de_catalog L)))))"

definition get_version_manifest ::
  "'c libs \<Rightarrow> path \<Rightarrow> string \<Rightarrow> string \<Rightarrow> ('c, 'e, version_manifest option) io" where
  "get_version_manifest L data_dir app_name version =
     (let p = manifest_path data_dir app_name version in
      bindE (get_world (exists_path p)) (\<lambda>ex.
      if \<not> ex then returnE None
      else bindE (attempt (read_to_string L p)) (\<lambda>content.
           returnE (Option.bind content (de_manifest L)))))"

definition get_rollout_config ::
  "'c libs \<Rightarrow> path \<Rightarrow> string \<Rightarrow> string \<Rightarrow> ('c, 'e, rollout_config option) io" where
  "get_rollout_config L data_dir app_name version =
     (let p = get_rollout_path data_dir app_name version in
      bindE (get_world (exists_path p)) (\<lambda>ex.
      if \<not> ex then returnE None
      else bindE (attempt (bindE (open_file p) (\<lambda>_. bindE io_point (\<lambda>_. read_to_string L p)))) (\<lambda>content.
           returnE (Option.bind content (de_rollout L)))))"


section \<open>Writing artifacts\<close>

definition ensure_app_dirs :: "path \<Rightarrow> string \<Rightarrow> ('c, storage_error, unit) io" where
  "ensure_app_dirs data_dir app_name =
     bindE (map_err SIo (create_dir_all (path_join (app_dir data_dir app_name) ''versions''))) (\<lambda>_.
     map_err SIo (create_dir_all (path_join (app_dir data_dir app_name) ''diffs'')))"

definition ensure_version_dir :: "path \<Rightarrow> string \<Rightarrow> string \<Rightarrow> ('c, storage_error, path) io" where
  "ensure_version_dir data_dir app_name version =
     (let vdir = version_dir data_dir app_name version in
      bindE (map_err SIo (create_dir_all vdir)) (\<lambda>_. returnE vdir))"

definition ensure_diffs_dir :: "path \<Rightarrow> string \<Rightarrow> ('c, storage_error, unit) io" where
  "ensure_diffs_dir data_dir app_name =
     map_err SIo (create_dir_all (path_join (app_dir data_dir app_name) ''diffs''))"

definition save_binary ::
  "path \<Rightarrow> string \<Rightarrow> string \<Rightarrow> platform \<Rightarrow> 'c \<Rightarrow> ('c, storage_error, unit) io" where
  "save_binary data_dir app_name version p data =
     bindE (ensure_version_dir data_dir app_name version) (\<lambda>vdir.
     map_err SIo (write_file (path_join vdir (''binary-'' @ platform_as_str p)) data))"

definition save_binary_from_temp ::
  "path \<Rightarrow> string \<Rightarrow> string \<Rightarrow> platform \<Rightarrow> path \<Rightarrow> ('c, storage_error, unit) io" where
  "save_binary_from_temp data_dir app_name version p temp_path =
     bindE (ensure_version_dir data_dir app_name version) (\<lambda>vdir.
     map_err SIo (rename temp_path (path_join vdir (''binary-'' @ platform_as_str p))))"

definition save_diff_from_temp ::
  "path \<Rightarrow> string \<Rightarrow> string \<Rightarrow> string \<Rightarrow> platform \<Rightarrow> path \<Rightarrow> ('c, storage_error, path) io" where
  "save_diff_from_temp data_dir app_name from_v to_v p temp_path =
     bindE (ensure_diffs_dir data_dir app_name) (\<lambda>_.
     let diff_path = get_diff_path data_dir app_name from_v to_v p in
     bindE (map_err SIo (rename temp_path diff_path)) (\<lambda>_. returnE diff_path))"

definition save_signature ::
  "path \<Rightarrow> string \<Rightarrow> string \<Rightarrow> 'c \<Rightarrow> ('c, storage_error, unit) io" where
  "save_signature data_dir app_name version data =
     bindE (ensure_version_dir data_dir app_name version) (\<lambda>vdir.
     map_err SIo (write_file (path_join vdir ''signature.sig'') data))"

definition save_diff ::
  "path \<Rightarrow> string \<Rightarrow> string \<Rightarrow> string \<Rightarrow> platform \<Rightarrow> 'c \<Rightarrow> ('c, storage_error, path) io" where
  "save_diff data_dir app_name from_v to_v p data =
     bindE (ensure_diffs_dir data_dir app_name) (\<lambda>_.
     let diff_path = get_diff_path data_dir app_name from_v to_v p in
     bindE (map_err SIo (write_file diff_path data)) (\<lambda>_. returnE diff_path))"


section \<open>Read-modify-write of documents\<close>

text \<open>The deprecated \<open>update_catalog\<close> takes no lock, writes in place and leaves the latest version.\<close>

definition update_catalog ::
  "'c libs \<Rightarrow> path \<Rightarrow> string \<Rightarrow> version_info \<Rightarrow> ('c, storage_error, unit) io" where
  "update_catalog L data_dir app_name vi =
     bindE (ensure_app_dirs data_dir app_name) (\<lambda>_.
     let p = catalog_path data_dir app_name in
     bindE (get_world (exists_path p)) (\<lambda>ex.
     bindE (if ex then bindE (map_err SIo (read_to_string L p)) (from_json (de_catalog L))
            else returnE (empty_catalog app_name (vi_version vi))) (\<lambda>catalog.
     map_err SIo (write_file p (ser_catalog L
       (catalog\<lparr>cat_versions := put_version (sv_pre_cmp L) vi (cat_versions catalog)\<rparr>))))))"

definition update_catalog_atomic ::
  "'c libs \<Rightarrow> path \<Rightarrow> string \<Rightarrow> version_info \<Rightarrow> ('c, storage_error, unit) io" where
  "update_catalog_atomic L data_dir app_name vi =
     bindE (ensure_app_dirs data_dir app_name) (\<lambda>_.
     let p = catalog_path data_dir app_name in
     bindE (map_err SIo (open_create (content0 L) p)) (\<lambda>_.
     bindE (map_err SIo io_point) (\<lambda>_.
     bindE (get_world (exists_path p)) (\<lambda>ex.
     bindE (if ex
            then bindE (attempt (read_to_string L p)) (\<lambda>content.
                 returnE (case Option.bind content (de_catalog L) of
                            Some catalog \<Rightarrow> catalog
                          | None \<Rightarrow> empty_catalog app_name (vi_version vi)))
            else returnE (empty_catalog app_name (vi_version vi))) (\<lambda>catalog.
     replace_file p (ser_catalog L (catalog_put (sv_pre_cmp L) vi catalog)))))))"

text \<open>The \<open>expect\<close> on the version of a fresh manifest panics inside the blocking task.\<close>

definition update_manifest ::
  "'c libs \<Rightarrow> path \<Rightarrow> string \<Rightarrow> string \<Rightarrow> platform \<Rightarrow> string \<Rightarrow> u64 \<Rightarrow> ('c, storage_error, unit) io" where
  "update_manifest L data_dir app_name version plat checksum sz =
     bindE (ensure_version_dir data_dir app_name version) (\<lambda>vdir.
     let p = path_join vdir ''manifest.json'' in
     bindE (map_err SIo (open_create (content0 L) p)) (\<lambda>_.
     bindE (map_err SIo io_point) (\<lambda>_.
     bindE (get_world (exists_path p)) (\<lambda>ex.
     bindE (if ex
            then bindE (attempt (read_to_string L p)) (\<lambda>content.
                 case Option.bind content (de_manifest L) of
                   Some manifest \<Rightarrow> returnE manifest
                 | None \<Rightarrow> (case version_from_str (sv_parse L) version of
                              Inr v \<Rightarrow> returnE \<lparr>vm_version = v, vm_platforms = Map.empty\<rparr>
                            | Inl _ \<Rightarrow> throwE (SIo IoFault)))
            else (case version_from_str (sv_parse L) version of
                    Inr v \<Rightarrow> returnE \<lparr>vm_version = v, vm_platforms = Map.empty\<rparr>
                  | Inl _ \<Rightarrow> throwE (SNotFound (''Invalid version: '' @ version)))) (\<lambda>manifest.
     replace_file p (ser_manifest L (manifest_put plat checksum sz manifest)))))))"

definition set_latest_version ::
  "'c libs \<Rightarrow> path \<Rightarrow> string \<Rightarrow> string \<Rightarrow> ('c, storage_error, unit) io" where
  "set_latest_version L data_dir app_name version =
     (let p = catalog_path data_dir app_name in
      bindE (get_world (exists_path p)) (\<lambda>ex.
      if \<not> ex then throwE (SNotFound (''Catalog not found for app: '' @ app_name))
      else
      bindE (map_err SIo (open_file p)) (\<lambda>_.
      bindE (map_err SIo io_point) (\<lambda>_.
      bindE (map_err SIo (read_to_string L p)) (\<lambda>content.
      bindE (from_json (de_catalog L) content) (\<lambda>catalog.
      bindE (map_err SNotFound (from_sum
              (catalog_set_latest (sv_parse L) (sv_show L) version catalog))) (\<lambda>catalog'.
      replace_file p (ser_catalog L catalog'))))))))"

definition add_diff_to_manifest ::
  "'c libs \<Rightarrow> path \<Rightarrow> string \<Rightarrow> string \<Rightarrow> platform \<Rightarrow> diff_info \<Rightarrow> ('c, storage_error, unit) io" where
  "add_diff_to_manifest L data_dir app_name to_v plat d =
     (let p = manifest_path data_dir app_name to_v in
      bindE (get_world (exists_path p)) (\<lambda>ex.
      if \<not> ex then throwE (SNotFound (''Manifest not found for version: '' @ to_v))
      else
      bindE (map_err SIo (open_file p)) (\<lambda>_.
      bindE (map_err SIo io_point) (\<lambda>_.
      bindE (map_err SIo (read_to_string L p)) (\<lambda>content.
      bindE (from_json (de_manifest L) content) (\<lambda>manifest.
      case manifest_add_diff plat d manifest of
        None \<Rightarrow> throwE (SNotFound (''Platform '' @ platform_as_str plat @
                  '' not found in manifest for version '' @ to_v))
      | Some manifest' \<Rightarrow> replace_file p (ser_manifest L manifest')))))))"

definition set_rollout_config ::
  "'c libs \<Rightarrow> path \<Rightarrow> string \<Rightarrow> string \<Rightarrow> rollout_config \<Rightarrow> ('c, storage_error, unit) io" where
  "set_rollout_config L data_dir app_name version config =
     bindE (ensure_version_dir data_dir app_name version) (\<lambda>_.
     let p = get_rollout_path data_dir app_name version in
     bindE (map_err SIo (open_create (content0 L) p)) (\<lambda>_.
     bindE (map_err SIo io_point) (\<lambda>_.
     replace_file p (ser_rollout L config))))"

definition update_rollout_config_atomic ::
  "'c libs \<Rightarrow> path \<Rightarrow> string \<Rightarrow> string \<Rightarrow> (rollout_config \<Rightarrow> rollout_config)
   \<Rightarrow> ('c, storage_error, rollout_config) io" where
  "update_rollout_config_atomic L data_dir app_name version update_fn =
     bindE (ensure_version_dir data_dir app_name version) (\<lambda>_.
     let p = get_rollout_path data_dir app_name version in
     bindE (map_err SIo (open_create (content0 L) p)) (\<lambda>_.
     bindE (map_err SIo io_point) (\<lambda>_.
     bindE (get_world (exists_path p)) (\<lambda>ex.
     bindE (if ex
            then bindE (attempt (read_to_string L p)) (\<lambda>content.
                 returnE (case Option.bind content (de_rollout L) of
                            Some config \<Rightarrow> config | None \<Rightarrow> rollout_default))
            else returnE rollout_default) (\<lambda>current_config.
     let new_config = update_fn current_config in
     bindE (replace_file p (ser_rollout L new_config)) (\<lambda>_. returnE new_config))))))"

definition delete_version ::
  "'c libs \<Rightarrow> path \<Rightarrow> string \<Rightarrow> string \<Rightarrow> ('c, storage_error, unit) io" where
  "delete_version L data_dir app_name version =
     (let vdir = version_dir data_dir app_name version;
          p = catalog_path data_dir app_name;
          versions_dir = path_join (app_dir data_dir app_name) ''versions''
      in
      bindE (get_world (exists_path vdir)) (\<lambda>vex.
      if \<not> vex then throwE (SNotFound (''Version not found: '' @ app_name @ ''/'' @ version))
      else
      bindE (map_err SIo (write_file (path_join vdir ''.deleted'') (content0 L))) (\<lambda>_.
      bindE (get_world (exists_path p)) (\<lambda>ex.
      if \<not> ex then returnE ()
      else
      bindE (map_err SIo (open_file p)) (\<lambda>_.
      bindE (map_err SIo io_point) (\<lambda>_.
      bindE (map_err SIo (read_to_string L p)) (\<lambda>content.
      bindE (from_json (de_catalog L) content) (\<lambda>catalog.
      bindE (get_world (\<lambda>w s. exists_path (path_join (path_join versions_dir s) ''.deleted'') w))
        (\<lambda>marked.
      replace_file p (ser_catalog L
        (catalog_delete (sv_parse L) (sv_show L) marked version catalog)))))))))))"


section \<open>Rules for the composed operations\<close>

lemma plain_literals [simp]:
  "plain_component ''apps''" "plain_component ''versions''" "plain_component ''diffs''"
  "plain_component ''catalog.json''" "plain_component ''manifest.json''"
  "plain_component ''signature.sig''" "plain_component ''rollout.json''" "plain_component ''.deleted''"
  by (simp_all add: plain_component_def)

lemma plain_binary [simplified, simp]: "plain_component (''binary-'' @ platform_as_str p)"
  by (cases p) (simp_all add: plain_component_def)

lemma plain_diff [simp]:
  "slash_free u \<Longrightarrow> slash_free v \<Longrightarrow>
     plain_component (u @ CHR ''-'' # CHR ''t'' # CHR ''o'' # CHR ''-'' # v @ CHR ''-'' # platform_as_str p)"
  by (cases p) (auto simp: plain_component_def slash_free_def)

lemma stems [simp]:
  "file_stem ''catalog.json'' = ''catalog''" "file_stem ''manifest.json'' = ''manifest''"
  "file_stem ''rollout.json'' = ''rollout''"
  by (simp_all add: file_stem_def)

lemma plain_paths [simp]:
  "plain_component a \<Longrightarrow> app_dir d a = d @ [''apps'', a]"
  "plain_component a \<Longrightarrow> catalog_path d a = d @ [''apps'', a, ''catalog.json'']"
  "plain_component a \<Longrightarrow> plain_component v \<Longrightarrow> version_dir d a v = d @ [''apps'', a, ''versions'', v]"
  "plain_component a \<Longrightarrow> plain_component v \<Longrightarrow>
     manifest_path d a v = d @ [''apps'', a, ''versions'', v, ''manifest.json'']"
  "plain_component a \<Longrightarrow> plain_component v \<Longrightarrow>
     get_binary_path d a v p = d @ [''apps'', a, ''versions'', v, ''binary-'' @ platform_as_str p]"
  "plain_component a \<Longrightarrow> plain_component v \<Longrightarrow>
     get_signature_path d a v = d @ [''apps'', a, ''versions'', v, ''signature.sig'']"
  "plain_component a \<Longrightarrow> plain_component v \<Longrightarrow>
     get_rollout_path d a v = d @ [''apps'', a, ''versions'', v, ''rollout.json'']"
  "plain_component a \<Longrightarrow> slash_free u \<Longrightarrow> slash_free v \<Longrightarrow>
     get_diff_path d a u v p = d @ [''apps'', a, ''diffs'', u @ ''-to-'' @ v @ ''-'' @ platform_as_str p]"
  by (simp_all add: path_defs)

text \<open>The same paths for every name: they lie in the directories of the application and of the version.\<close>

lemma store_paths:
  "catalog_path d a = app_dir d a @ [''catalog.json'']"
  "manifest_path d a v = version_dir d a v @ [''manifest.json'']"
  "get_binary_path d a v p = version_dir d a v @ [''binary-'' @ platform_as_str p]"
  "get_signature_path d a v = version_dir d a v @ [''signature.sig'']"
  "get_rollout_path d a v = version_dir d a v @ [''rollout.json'']"
  "slash_free u \<Longrightarrow> slash_free v \<Longrightarrow>
     get_diff_path d a u v p = app_dir d a @ [''diffs'', u @ ''-to-'' @ v @ ''-'' @ platform_as_str p]"
  by (simp_all add: path_defs)

lemma app_dir_segment: "slash_free a \<Longrightarrow> app_dir d a = d @ ''apps'' # segment a"
  by (simp add: app_dir_def path_join_segment)

lemma version_dir_segment: "slash_free v \<Longrightarrow> version_dir d a v = app_dir d a @ ''versions'' # segment v"
  by (simp add: version_dir_def path_join_segment)

lemma with_extension_paths [simp]:
  "with_extension (d @ [x, y, z]) e = d @ [x, y, file_stem z @ ''.'' @ e]"
  "with_extension (d @ [x, y, u, v, z]) e = d @ [x, y, u, v, file_stem z @ ''.'' @ e]"
  by (simp_all add: with_extension_def butlast_append)

lemma wp_read_to_string:
  assumes "\<And>c w'. file_at w' = file_at w \<Longrightarrow> file_at w p = Some c \<Longrightarrow> utf8 L c \<Longrightarrow> Q c w'"
    and "\<And>e w'. file_at w' = file_at w \<Longrightarrow> E e w'"
  shows "wp (read_to_string L p) Q E w"
  unfolding read_to_string_def wp_bindE by (rule wp_read_file) (use assms in auto)

lemma wp_from_json:
  "wp (from_json de c) Q E w \<longleftrightarrow> (case de c of None \<Rightarrow> E SJson w | Some x \<Rightarrow> Q x w)"
  by (simp add: from_json_def split: option.split)

lemma wp_replace_file:
  assumes "with_extension p ''json.tmp'' \<noteq> p"
    and "\<And>w'. file_at w' = (file_at w)(with_extension p ''json.tmp'' := None, p \<mapsto> c) \<Longrightarrow> Q () w'"
    and "\<And>e w' x. file_at w' = (file_at w)(with_extension p ''json.tmp'' := x) \<Longrightarrow> E e w'"
  shows "wp (replace_file p c) Q E w"
  unfolding replace_file_def Let_def wp_bindE wp_map_err
  by (intro wp_write_file wp_rename) (use assms in auto)

lemma ok_read_to_string:
  assumes "quiet w" "lookup w p = Some (File c)" "utf8 L c"
    and "\<And>w'. quiet w' \<Longrightarrow> lookup w' = lookup w \<Longrightarrow> Q c w'"
  shows "wp (read_to_string L p) Q E w"
  unfolding read_to_string_def wp_bindE by (rule ok_read_file) (use assms in auto)

lemma ok_replace_file:
  assumes "quiet w" "is_dir (butlast p) w" "p \<noteq> []" "lookup w p \<noteq> Some Dir"
    and "lookup w (with_extension p ''json.tmp'') \<noteq> Some Dir" "with_extension p ''json.tmp'' \<noteq> p"
    and "\<And>w'. quiet w' \<Longrightarrow>
      lookup w' = (lookup w)(with_extension p ''json.tmp'' := None, p \<mapsto> File c) \<Longrightarrow> Q () w'"
  shows "wp (replace_file p c) Q E w"
proof -
  have "is_dir (butlast p) w'" if "lookup w' = (lookup w)(with_extension p ''json.tmp'' \<mapsto> File c)" for w'
    using assms(2) that by (auto simp: is_dir_def with_extension_def)
  then show ?thesis
    unfolding replace_file_def Let_def wp_bindE wp_map_err
    using assms by (intro ok_write_file ok_rename [where c = c]) (auto simp: with_extension_def)
qed

lemma wp_from_jsonI:
  "(de c = None \<Longrightarrow> E SJson w) \<Longrightarrow> (\<And>x. de c = Some x \<Longrightarrow> Q x w) \<Longrightarrow> wp (from_json de c) Q E w"
  by (simp add: wp_from_json split: option.split)

lemmas wp_storage = wp_run wp_prims wp_read_to_string wp_from_jsonI wp_replace_file

text \<open>The documents a reader finds.\<close>

definition stored_manifest :: "'c libs \<Rightarrow> path \<Rightarrow> string \<Rightarrow> string \<Rightarrow> 'c world \<Rightarrow> version_manifest option" where
  "stored_manifest L d app s w =
     Option.bind (file_at w (manifest_path d app s)) (\<lambda>c. if utf8 L c then de_manifest L c else None)"

definition stored_rollout :: "'c libs \<Rightarrow> path \<Rightarrow> string \<Rightarrow> string \<Rightarrow> 'c world \<Rightarrow> rollout_config option" where
  "stored_rollout L d app s w =
     Option.bind (file_at w (get_rollout_path d app s)) (\<lambda>c. if utf8 L c then de_rollout L c else None)"

definition stored_catalog :: "'c libs \<Rightarrow> path \<Rightarrow> string \<Rightarrow> 'c world \<Rightarrow> app_catalog option" where
  "stored_catalog L d app w =
     Option.bind (file_at w (catalog_path d app)) (\<lambda>c. if utf8 L c then de_catalog L c else None)"

lemma wp_readers:
  shows "(\<And>r w'. file_at w' = file_at w \<Longrightarrow> r = None \<or> r = stored_catalog L d app w \<Longrightarrow> Q1 r w') \<Longrightarrow>
      wp (get_app_catalog L d app) Q1 E w"
    and "(\<And>r w'. file_at w' = file_at w \<Longrightarrow> r = None \<or> r = stored_manifest L d app s w \<Longrightarrow> Q2 r w') \<Longrightarrow>
      wp (get_version_manifest L d app s) Q2 E w"
    and "(\<And>r w'. file_at w' = file_at w \<Longrightarrow> r = None \<or> r = stored_rollout L d app s w \<Longrightarrow> Q3 r w') \<Longrightarrow>
      wp (get_rollout_config L d app s) Q3 E w"
  unfolding get_app_catalog_def get_version_manifest_def get_rollout_config_def Let_def
    stored_catalog_def stored_manifest_def stored_rollout_def
  by (intro wp_storage; simp)+

text \<open>Without faults a reader returns the document.\<close>

lemma ok_attempt_read_to_string:
  assumes "quiet w" "lookup w p = Some (File c)"
    and "\<And>w'. quiet w' \<Longrightarrow> lookup w' = lookup w \<Longrightarrow> Q (if utf8 L c then Some c else None) w'"
  shows "wp (attempt (read_to_string L p)) Q E w"
  unfolding read_to_string_def
  by (intro wp_run ok_read_file [OF assms(1,2)]) (use assms(3) in auto)

lemma quiet_read_dir:
  assumes "quiet w" "lookup w p = Some Dir"
    and "\<And>w'. quiet w' \<Longrightarrow> lookup w' = lookup w \<Longrightarrow> Q None w'"
  shows "wp (attempt (read_to_string L p)) Q E w"
  using assms by (simp add: read_to_string_def wp_def bindE_def attempt_def read_file_def next_op_quiet)

lemma ok_reader:
  assumes "quiet w" "\<And>w'. quiet w' \<Longrightarrow> lookup w' = lookup w \<Longrightarrow>
      Q (Option.bind (file_at w p) (\<lambda>c. if utf8 L c then de c else None)) w'"
  shows "wp (bindE (get_world (exists_path p)) (\<lambda>ex. if \<not> ex then returnE None
      else bindE (attempt (read_to_string L p)) (\<lambda>content. returnE (Option.bind content de)))) Q E w"
proof (cases "lookup w p")
  case None
  then show ?thesis using assms by (simp add: exists_path_def file_at_def)
next
  case (Some n)
  show ?thesis
  proof (cases n)
    case (File c)
    then show ?thesis
      by (intro wp_run ok_attempt_read_to_string [of w p c])
         (use assms Some in \<open>auto simp: exists_path_def file_at_def\<close>)
  next
    case Dir
    then show ?thesis
      by (intro wp_run quiet_read_dir) (use assms Some in \<open>auto simp: exists_path_def file_at_def\<close>)
  qed
qed

lemma ok_readers:
  assumes "quiet w"
  shows "(\<And>w'. quiet w' \<Longrightarrow> lookup w' = lookup w \<Longrightarrow> Q1 (stored_catalog L d app w) w') \<Longrightarrow>
      wp (get_app_catalog L d app) Q1 E w"
    and "(\<And>w'. quiet w' \<Longrightarrow> lookup w' = lookup w \<Longrightarrow> Q2 (stored_manifest L d app s w) w') \<Longrightarrow>
      wp (get_version_manifest L d app s) Q2 E w"
  unfolding get_app_catalog_def get_version_manifest_def Let_def
  by (rule ok_reader [OF assms], simp add: stored_catalog_def stored_manifest_def)+

lemma ok_get_rollout_config:
  assumes "quiet w" "lookup w (get_rollout_path d app s) \<noteq> Some Dir"
    and "\<And>w'. quiet w' \<Longrightarrow> lookup w' = lookup w \<Longrightarrow> Q (stored_rollout L d app s w) w'"
  shows "wp (get_rollout_config L d app s) Q E w"
proof (cases "lookup w (get_rollout_path d app s)")
  case None
  then show ?thesis
    using assms by (simp add: get_rollout_config_def Let_def exists_path_def stored_rollout_def file_at_def)
next
  case (Some n)
  then obtain c where c: "lookup w (get_rollout_path d app s) = Some (File c)"
    using assms(2) by (cases n) auto
  have st: "stored_rollout L d app s w = (if utf8 L c then de_rollout L c else None)"
    by (simp add: stored_rollout_def file_at_def c)
  show ?thesis
    unfolding get_rollout_config_def Let_def read_to_string_def
    by (intro wp_run ok_open_file [where c = c] ok_io_point ok_read_file [where c = c])
       (use assms(1,3) c st in \<open>auto simp: exists_path_def\<close>)
qed


section \<open>All or nothing\<close>

lemma update_catalog_atomic_outcome:
  assumes "lawful L"
  shows "wp (update_catalog_atomic L d app vi)
    (\<lambda>_ w'. \<exists>old. stored_catalog L d app w' = Some (catalog_put (sv_pre_cmp L) vi old) \<and>
       (old = empty_catalog app (vi_version vi) \<or> stored_catalog L d app w = Some old))
    (\<lambda>_ w'. stored_catalog L d app w' = stored_catalog L d app w) w"
  unfolding update_catalog_atomic_def ensure_app_dirs_def Let_def stored_catalog_def
  by (intro wp_storage) (use assms in \<open>auto simp: store_paths(1) split: option.splits\<close>)

lemma set_latest_version_outcome:
  assumes "lawful L"
  shows "wp (set_latest_version L d app s)
    (\<lambda>_ w'. \<exists>old new. stored_catalog L d app w = Some old \<and> stored_catalog L d app w' = Some new \<and>
       catalog_set_latest (sv_parse L) (sv_show L) s old = Inr new)
    (\<lambda>_ w'. stored_catalog L d app w' = stored_catalog L d app w) w"
  unfolding set_latest_version_def Let_def stored_catalog_def
  by (intro wp_storage) (use assms in \<open>auto simp: store_paths(1) split: option.splits\<close>)

lemma delete_version_outcome:
  assumes "lawful L" "slash_free s"
  shows "wp (delete_version L d app s)
    (\<lambda>_ w'. stored_catalog L d app w' = stored_catalog L d app w \<or>
       (\<exists>old marked. stored_catalog L d app w = Some old \<and>
          stored_catalog L d app w' = Some (catalog_delete (sv_parse L) (sv_show L) marked s old)))
    (\<lambda>_ w'. stored_catalog L d app w' = stored_catalog L d app w) w"
  unfolding delete_version_def Let_def stored_catalog_def
  by (intro wp_storage) (use assms in \<open>auto simp: store_paths(1) version_dir_segment split: option.splits\<close>)


text \<open>The deprecated \<open>update_catalog\<close> writes in place: a failing write may replace the catalog by whatever it leaves.\<close>

lemma wp_same_files:
  assumes "\<And>x w'. file_at w' = file_at w \<Longrightarrow> faults w' = faults w \<Longrightarrow> Q x w'"
    and "\<And>e w'. file_at w' = file_at w \<Longrightarrow> E e w'"
  shows "wp (ensure_app_dirs d app) Q E w"
proof -
  have "schedule.keeps (ensure_app_dirs d app :: ('a, storage_error, unit) io)"
    unfolding ensure_app_dirs_def by (intro schedule.keeps_intros schedule_files)
  then show ?thesis
    by (rule wp_schedule) (use assms in \<open>auto simp: ensure_app_dirs_def intro!: wp_run wp_no_change\<close>)
qed

lemma wp_read_document:
  assumes "\<And>c w'. file_at w' = file_at w \<Longrightarrow> faults w' = faults w \<Longrightarrow> file_at w p = Some c \<Longrightarrow> utf8 L c \<Longrightarrow> Q c w'"
    and "\<And>e w'. file_at w' = file_at w \<Longrightarrow> E e w'"
  shows "wp (map_err SIo (read_to_string L p)) Q E w"
proof -
  have "schedule.keeps (map_err SIo (read_to_string L p))"
    unfolding read_to_string_def by (intro schedule.keeps_intros schedule_files)
  then show ?thesis
    by (rule wp_schedule) (use assms in \<open>auto intro!: wp_run wp_read_to_string\<close>)
qed

lemma update_catalog_outcome:
  assumes "lawful L" "\<And>n g. faults w n = Torn g \<Longrightarrow> utf8 L g \<Longrightarrow> de_catalog L g = None"
  shows "wp (update_catalog L d app vi)
    (\<lambda>_ w'. \<exists>old. stored_catalog L d app w' = Some (old\<lparr>cat_versions := put_version (sv_pre_cmp L) vi (cat_versions old)\<rparr>) \<and>
       (old = empty_catalog app (vi_version vi) \<or> stored_catalog L d app w = Some old))
    (\<lambda>_ w'. stored_catalog L d app w' = stored_catalog L d app w \<or> stored_catalog L d app w' = None) w"
proof -
  let ?p = "catalog_path d app"
  let ?torn = "\<lambda>g. utf8 L g \<longrightarrow> de_catalog L g = None"
  have save: "wp (write_file ?p (ser_catalog L cat))
      (\<lambda>_ w'. stored_catalog L d app w' = Some cat)
      (\<lambda>_ w'. stored_catalog L d app w' = stored_catalog L d app w \<or> stored_catalog L d app w' = None) v"
    if "file_at v = file_at w" "faults v = faults w" for v cat
    by (rule wp_write_torn [where P = ?torn])
       (use that assms in \<open>auto simp: stored_catalog_def split: if_splits\<close>)
  show ?thesis
    unfolding update_catalog_def Let_def
    by (intro wp_run wp_same_files wp_read_document wp_from_jsonI)
       (auto simp: stored_catalog_def intro!: wp_mono [OF save])
qed


section \<open>Footprints\<close>

definition app_files :: "path \<Rightarrow> string \<Rightarrow> path set" where
  "app_files d app = {p. in_dir (app_dir d app) p}"

lemma app_files_mem [simp]: "app_dir d app @ p \<in> app_files d app"
  by (simp add: app_files_def)

lemma version_files_mem [simp]: "slash_free s \<Longrightarrow> version_dir d app s @ p \<in> app_files d app"
  by (simp add: version_dir_segment)

lemmas storage_op_defs = ensure_app_dirs_def ensure_version_dir_def ensure_diffs_dir_def save_binary_def
  save_binary_from_temp_def save_diff_from_temp_def save_signature_def save_diff_def update_catalog_def
  update_catalog_atomic_def update_manifest_def set_latest_version_def add_diff_to_manifest_def
  set_rollout_config_def update_rollout_config_atomic_def delete_version_def replace_file_def
  read_to_string_def from_json_def

lemma touches_storage_app:
  "touches (app_files d app) (ensure_app_dirs d app)"
  "touches (app_files d app) (ensure_diffs_dir d app)"
  "touches (app_files d app) (update_catalog L d app vi)"
  "touches (app_files d app) (update_catalog_atomic L d app vi)"
  "touches (app_files d app) (set_latest_version L d app s)"
  unfolding storage_op_defs Let_def bindE_assoc bindE_return
  by (intro touches_intros; simp add: store_paths)+

lemma touches_storage_version:
  assumes "slash_free s"
  shows "touches (app_files d app) (ensure_version_dir d app s)"
    "touches (app_files d app) (save_binary d app s p data)"
    "touches (app_files d app) (save_signature d app s data)"
    "touches (app_files d app) (update_manifest L d app s p checksum sz)"
    "touches (app_files d app) (add_diff_to_manifest L d app s p di)"
    "touches (app_files d app) (set_rollout_config L d app s config)"
    "touches (app_files d app) (update_rollout_config_atomic L d app s g)"
    "touches (app_files d app) (delete_version L d app s)"
    "t \<in> app_files d app \<Longrightarrow> touches (app_files d app) (save_binary_from_temp d app s p t)"
  unfolding storage_op_defs Let_def bindE_assoc bindE_return
  by (intro touches_intros; use assms in \<open>simp add: store_paths\<close>)+

lemma touches_storage_diff:
  assumes "slash_free u" "slash_free v"
  shows "touches (app_files d app) (save_diff d app u v p data)"
    "t \<in> app_files d app \<Longrightarrow> touches (app_files d app) (save_diff_from_temp d app u v p t)"
  unfolding storage_op_defs Let_def bindE_assoc bindE_return
  by (intro touches_intros; use assms in \<open>simp add: store_paths\<close>)+

text \<open>The operations on artifacts leave every catalog alone.\<close>

definition catalog_files :: "path \<Rightarrow> path set" where
  "catalog_files d = {p. \<exists>app. p = d @ [''apps'', app, ''catalog.json'']}"

lemma no_catalog_file [simp]: "x \<noteq> ''catalog.json'' \<Longrightarrow> p @ [x] \<notin> catalog_files d"
  "x \<noteq> ''catalog.json'' \<Longrightarrow> p @ [y, x] \<notin> catalog_files d"
proof -
  show "p @ [x] \<notin> catalog_files d" if "x \<noteq> ''catalog.json''" for p
    using that arg_cong [of "p @ [x]" _ last] by (fastforce simp: catalog_files_def)
  from this [of "p @ [y]"] show "p @ [y, x] \<notin> catalog_files d" if "x \<noteq> ''catalog.json''"
    using that by simp
qed

lemma touches_no_catalog:
  "touches (- catalog_files d) (ensure_version_dir d app s)"
  "touches (- catalog_files d) (save_binary d app s p data)"
  "touches (- catalog_files d) (save_signature d app s data)"
  "touches (- catalog_files d) (update_manifest L d app s p checksum sz)"
  "touches (- catalog_files d) (add_diff_to_manifest L d app s p di)"
  "touches (- catalog_files d) (set_rollout_config L d app s config)"
  "touches (- catalog_files d) (update_rollout_config_atomic L d app s g)"
  "t \<notin> catalog_files d \<Longrightarrow> touches (- catalog_files d) (save_binary_from_temp d app s p t)"
  unfolding storage_op_defs Let_def bindE_assoc bindE_return
  by (intro touches_intros; simp add: store_paths)+

lemma diff_no_catalog: "u @ ''-to-'' @ v @ ''-'' @ platform_as_str p \<noteq> ''catalog.json''"
  by (cases p) (auto dest: arg_cong [of _ _ last])

lemma touches_no_catalog_diff:
  assumes "slash_free u" "slash_free v"
  shows "touches (- catalog_files d) (save_diff d app u v p data)"
    "t \<notin> catalog_files d \<Longrightarrow> touches (- catalog_files d) (save_diff_from_temp d app u v p t)"
  unfolding storage_op_defs Let_def bindE_assoc bindE_return
  by (intro touches_intros; use assms diff_no_catalog in \<open>simp add: store_paths\<close>)+

text \<open>The catalog of the application named by a lone dot lies beside the applications.\<close>

lemma touches_dot_catalog:
  "touches (- catalog_files d) (update_catalog_atomic L d ''.'' vi)"
  "touches (- catalog_files d) (set_latest_version L d ''.'' s)"
  "touches (- catalog_files d) (delete_version L d ''.'' s)"
  "touches (- catalog_files d) (update_catalog L d ''.'' vi)"
proof -
  have "d @ [''apps'', x] \<notin> catalog_files d" for x by (simp add: catalog_files_def)
  moreover have "with_extension (d @ [''apps'', ''catalog.json'']) ''json.tmp'' = d @ [''apps'', ''catalog.json.tmp'']"
    by (simp add: with_extension_def butlast_append)
  ultimately show "touches (- catalog_files d) (update_catalog_atomic L d ''.'' vi)"
    "touches (- catalog_files d) (set_latest_version L d ''.'' s)"
    "touches (- catalog_files d) (delete_version L d ''.'' s)" "touches (- catalog_files d) (update_catalog L d ''.'' vi)"
    unfolding storage_op_defs Let_def bindE_assoc bindE_return
    by (intro touches_intros; simp add: store_paths app_dir_def)+
qed

text \<open>The exact files a publication writes.\<close>

lemma touches_exact:
  "touches {t, get_binary_path d app s p} (save_binary_from_temp d app s p t)"
  "touches {get_signature_path d app s} (save_signature d app s data)"
  "touches {manifest_path d app s, version_dir d app s @ [''manifest.json.tmp'']} (update_manifest L d app s p checksum sz)"
  "touches {catalog_path d app, app_dir d app @ [''catalog.json.tmp'']} (update_catalog_atomic L d app vi)"
  unfolding storage_op_defs Let_def bindE_assoc bindE_return
  by (intro touches_intros; simp add: store_paths)+

lemma wp_touches:
  assumes "touches S m" "wp m (\<lambda>x w'. same_outside S w w' \<longrightarrow> Q x w') (\<lambda>e w'. same_outside S w w' \<longrightarrow> E e w') w"
  shows "wp m Q E w"
  using assms by (auto simp: wp_def touches_def split: prod.splits sum.splits) (metis snd_conv)+

lemma update_manifest_outcome:
  assumes "lawful L"
  shows "wp (update_manifest L d app s p cs sz)
    (\<lambda>_ w'. \<exists>old. stored_manifest L d app s w' = Some (manifest_put p cs sz old) \<and>
       (stored_manifest L d app s w = Some old \<or> vm_platforms old = Map.empty))
    (\<lambda>_ w'. stored_manifest L d app s w' = stored_manifest L d app s w) w"
  unfolding update_manifest_def ensure_version_dir_def Let_def stored_manifest_def bindE_assoc bindE_return
  by (intro wp_storage) (use assms in \<open>auto simp: store_paths(2) split: option.splits sum.splits\<close>)


section \<open>The invariant of the store\<close>

definition good_catalog :: "'c libs \<Rightarrow> app_catalog \<Rightarrow> bool" where
  "good_catalog L cat \<longleftrightarrow> wf_catalog (sv_pre_cmp L) cat \<and> parsed_catalog (sv_parse L) (sv_show L) cat"

definition catalogs_ok :: "'c libs \<Rightarrow> path \<Rightarrow> 'c world \<Rightarrow> bool" where
  "catalogs_ok L d w \<longleftrightarrow>
     (\<forall>app cat. plain_component app \<longrightarrow> stored_catalog L d app w = Some cat \<longrightarrow> good_catalog L cat)"

interpretation catalog_inv: world_rel "\<lambda>w w'. catalogs_ok L d w \<longrightarrow> catalogs_ok L d w'" for L d
  by unfold_locales auto

abbreviation keeps_catalogs :: "'c libs \<Rightarrow> path \<Rightarrow> ('c, 'e, 'a) io \<Rightarrow> bool" where
  "keeps_catalogs L d \<equiv> world_rel.keeps (\<lambda>w w'. catalogs_ok L d w \<longrightarrow> catalogs_ok L d w')"

lemma keeps_catalogs_def:
  "keeps_catalogs L d m \<longleftrightarrow> (\<forall>w. catalogs_ok L d w \<longrightarrow> catalogs_ok L d (snd (m w)))"
  by (rule catalog_inv.keeps_def)

lemma keeps_catalogs_other:
  assumes "touches (- catalog_files d) m"
  shows "keeps_catalogs L d m"
proof -
  have "stored_catalog L d app (snd (m w)) = stored_catalog L d app w" if "plain_component app" for app w
    using assms that by (simp add: stored_catalog_def touches_def same_outside_def catalog_files_def)
  then show ?thesis
    unfolding keeps_catalogs_def unfolding catalogs_ok_def by simp
qed

lemma catalogs_ok_update:
  assumes "plain_component app" "touches (app_files d app) m"
    and "wp m (\<lambda>_ w'. (\<forall>cat. stored_catalog L d app w = Some cat \<longrightarrow> good_catalog L cat) \<longrightarrow>
             (\<forall>cat. stored_catalog L d app w' = Some cat \<longrightarrow> good_catalog L cat))
           (\<lambda>_ w'. stored_catalog L d app w' = stored_catalog L d app w \<or> stored_catalog L d app w' = None) w"
    and "catalogs_ok L d w"
  shows "catalogs_ok L d (snd (m w))"
  unfolding catalogs_ok_def
proof (intro allI impI, goal_cases)
  case (1 b cat)
  note old = assms(4) [unfolded catalogs_ok_def, rule_format]
  show ?case
  proof (cases "b = app")
    case True
    then show ?thesis
      using assms(3) 1 old [of app] by (fastforce simp: wp_def split: prod.splits sum.splits)
  next
    case False
    then have "catalog_path d b \<notin> app_files d app"
      using 1(1) assms(1) by (simp add: app_files_def in_dir_def)
    then have "stored_catalog L d b (snd (m w)) = stored_catalog L d b w"
      using assms(2) by (simp add: stored_catalog_def touches_def same_outside_def)
    then show ?thesis using 1 old [of b] by simp
  qed
qed

lemma keeps_catalogs_update:
  assumes "plain_component app" "touches (app_files d app) m"
    and "\<And>w. wp m (\<lambda>_ w'. (\<forall>cat. stored_catalog L d app w = Some cat \<longrightarrow> good_catalog L cat) \<longrightarrow>
             (\<forall>cat. stored_catalog L d app w' = Some cat \<longrightarrow> good_catalog L cat))
           (\<lambda>_ w'. stored_catalog L d app w' = stored_catalog L d app w) w"
  shows "keeps_catalogs L d m"
  unfolding keeps_catalogs_def
  by (intro allI impI catalogs_ok_update [OF assms(1,2)] wp_mono [OF assms(3)]) simp_all

lemma wp_both: "wp m (\<lambda>_. P) (\<lambda>_. P) w \<longleftrightarrow> P (snd (m w))"
  by (auto simp: wp_def split: prod.split sum.split)

text \<open>Moving a file to a place that is no catalog can only take a catalog away.\<close>

lemma keeps_catalogs_rename:
  assumes "q \<notin> catalog_files d"
  shows "keeps_catalogs L d (rename t q)"
proof -
  have "wp (rename t q) (\<lambda>_ w'. \<forall>p. p \<noteq> q \<longrightarrow> file_at w' p = None \<or> file_at w' p = file_at w p)
      (\<lambda>_ w'. \<forall>p. p \<noteq> q \<longrightarrow> file_at w' p = None \<or> file_at w' p = file_at w p) w" for w
    by (rule wp_rename) auto
  then have files: "file_at (snd (rename t q w)) p = None \<or> file_at (snd (rename t q w)) p = file_at w p" if "p \<noteq> q" for p w
    using that unfolding wp_both by blast
  show ?thesis
    unfolding keeps_catalogs_def unfolding catalogs_ok_def
  proof (intro allI impI, goal_cases)
    case (1 w app cat)
    then have "catalog_path d app \<noteq> q" using assms by (auto simp: catalog_files_def)
    then have "stored_catalog L d app w = Some cat"
      using files [of "catalog_path d app" w] 1(3) by (auto simp: stored_catalog_def)
    then show ?case using 1(1,2) by blast
  qed
qed

lemma keeps_catalogs_mkdir: "keeps_catalogs L d (create_dir_all q)"
  by (intro keeps_catalogs_other touches_intros)

lemma good_catalog_put:
  assumes "total_comparator (sv_pre_cmp L)" "distinct (vi_platforms vi)"
    and "sv_parse L (sv_show L (vi_version vi)) = Inr (vi_version vi)"
    and "good_catalog L cat \<or> cat = empty_catalog app (vi_version vi)"
  shows "good_catalog L (catalog_put (sv_pre_cmp L) vi cat)"
proof -
  have "wf_catalog (sv_pre_cmp L) (catalog_put (sv_pre_cmp L) vi cat)"
    using assms by (intro wf_catalog_put [where app = app]) (auto simp: good_catalog_def)
  moreover have "parsed_catalog (sv_parse L) (sv_show L) (catalog_put (sv_pre_cmp L) vi cat)"
    using assms(4)
    by (intro parsed_catalog_put assms(3)) (auto simp: good_catalog_def empty_catalog_def parsed_catalog_def)
  ultimately show ?thesis by (simp add: good_catalog_def)
qed

lemma good_catalog_put_in_place:
  assumes "total_comparator (sv_pre_cmp L)" "distinct (vi_platforms vi)"
    and "sv_parse L (sv_show L (vi_version vi)) = Inr (vi_version vi)"
    and "good_catalog L cat \<or> cat = empty_catalog app (vi_version vi)"
  shows "good_catalog L (cat\<lparr>cat_versions := put_version (sv_pre_cmp L) vi (cat_versions cat)\<rparr>)"
proof -
  have "\<exists>v \<in> set (put_version (sv_pre_cmp L) vi (cat_versions cat)). version_eq (vi_version v) (latest_version cat)"
    using assms(4)
  proof
    assume "good_catalog L cat"
    then obtain v where "v \<in> set (cat_versions cat)" "version_eq (vi_version v) (latest_version cat)"
      by (auto simp: good_catalog_def wf_catalog_def)
    then show ?thesis using put_version_keeps by metis
  next
    assume "cat = empty_catalog app (vi_version vi)"
    then show ?thesis
      using put_version_has [of "sv_pre_cmp L" vi "cat_versions cat"] by (auto simp: empty_catalog_def)
  qed
  then show ?thesis
    using good_catalog_put [OF assms]
    by (simp add: good_catalog_def wf_catalog_def parsed_catalog_def catalog_put_simps)
qed

lemma good_catalog_set_latest:
  assumes "good_catalog L cat" "catalog_set_latest (sv_parse L) (sv_show L) s cat = Inr cat'"
  shows "good_catalog L cat'"
proof -
  obtain u v where u: "u \<in> set (cat_versions cat)" "sv_show L (vi_version u) = s" "sv_parse L s = Inr v"
      "cat' = cat\<lparr>latest_version := v\<rparr>"
    using assms(2) by (auto simp: catalog_set_latest_Inr)
  then have "v = vi_version u"
    using assms(1) by (auto simp: good_catalog_def parsed_catalog_def)
  then have "\<exists>x \<in> set (cat_versions cat'). version_eq (vi_version x) (latest_version cat')"
    using u by (intro bexI [of _ u]) auto
  then show ?thesis
    using assms(1) u(4) by (simp add: good_catalog_def wf_catalog_def parsed_catalog_def)
qed

lemma good_catalog_delete:
  assumes good: "good_catalog L cat"
  shows "good_catalog L (catalog_delete (sv_parse L) (sv_show L) marked s cat)"
proof -
  have "parsed_catalog (sv_parse L) (sv_show L) cat" using good by (simp add: good_catalog_def)
  then show ?thesis
  proof (cases rule: catalog_delete_cases [where marked = marked and s = s])
    case 1
    then show ?thesis using good by simp
  next
    case (2 v)
    then have "\<exists>x \<in> set (cat_versions cat). version_eq (vi_version x) (vi_version v)"
      by (intro bexI [of _ v]) auto
    then show ?thesis
      using good by (simp add: 2(4) good_catalog_def wf_catalog_def parsed_catalog_def)
  qed
qed

lemma keeps_catalogs_storage:
  assumes "lawful L" "slash_free app"
  shows "total_comparator (sv_pre_cmp L) \<Longrightarrow> distinct (vi_platforms vi) \<Longrightarrow>
      sv_parse L (sv_show L (vi_version vi)) = Inr (vi_version vi) \<Longrightarrow>
      keeps_catalogs L d (update_catalog_atomic L d app vi)"
    and "keeps_catalogs L d (set_latest_version L d app s)"
    and "slash_free s \<Longrightarrow> keeps_catalogs L d (delete_version L d app s)"
proof -
  have dot: "keeps_catalogs L d m" if "app = ''.'' \<Longrightarrow> touches (- catalog_files d) m"
      "plain_component app \<Longrightarrow> keeps_catalogs L d m" for m :: "('a, storage_error, unit) io"
    using that assms(2) keeps_catalogs_other unfolding plain_or_dot by blast
  show "keeps_catalogs L d (update_catalog_atomic L d app vi)"
    if "total_comparator (sv_pre_cmp L)" "distinct (vi_platforms vi)"
      "sv_parse L (sv_show L (vi_version vi)) = Inr (vi_version vi)"
  proof (rule dot)
    show "keeps_catalogs L d (update_catalog_atomic L d app vi)" if "plain_component app"
      by (rule keeps_catalogs_update [OF that touches_storage_app(4)],
          rule wp_mono [OF update_catalog_atomic_outcome [OF assms(1)]])
         (auto intro: good_catalog_put [OF \<open>total_comparator _\<close> \<open>distinct _\<close> \<open>sv_parse L _ = _\<close>])
  qed (simp add: touches_dot_catalog)
  show "keeps_catalogs L d (set_latest_version L d app s)"
  proof (rule dot)
    show "keeps_catalogs L d (set_latest_version L d app s)" if "plain_component app"
      by (rule keeps_catalogs_update [OF that touches_storage_app(5)],
          rule wp_mono [OF set_latest_version_outcome [OF assms(1)]])
         (auto intro: good_catalog_set_latest)
  qed (simp add: touches_dot_catalog)
  show "keeps_catalogs L d (delete_version L d app s)" if "slash_free s"
  proof (rule dot)
    show "keeps_catalogs L d (delete_version L d app s)" if "plain_component app"
      by (rule keeps_catalogs_update [OF that touches_storage_version(8) [OF \<open>slash_free s\<close>]],
          rule wp_mono [OF delete_version_outcome [OF assms(1) \<open>slash_free s\<close>]])
         (auto intro: good_catalog_delete)
  qed (simp add: touches_dot_catalog)
qed


section \<open>Updates in a world without faults\<close>

text \<open>Nothing stands in the way of the directories of the application and of its catalog.\<close>

definition app_layout :: "path \<Rightarrow> string \<Rightarrow> 'c world \<Rightarrow> bool" where
  "app_layout d app w \<longleftrightarrow>
     (\<forall>q \<in> set (ancestors (d @ [''apps'', app, ''versions''])) \<union> set (ancestors (d @ [''apps'', app, ''diffs''])).
        lookup w q = None \<or> lookup w q = Some Dir) \<and>
     lookup w (d @ [''apps'', app, ''catalog.json'']) \<noteq> Some Dir \<and>
     lookup w (d @ [''apps'', app, ''catalog.json.tmp'']) \<noteq> Some Dir"

lemma in_ancestors: "q \<in> set (ancestors p) \<longleftrightarrow> q \<noteq> [] \<and> (\<exists>r. p = q @ r)"
proof
  assume "q \<in> set (ancestors p)"
  then obtain n where "1 \<le> n" "n \<le> length p" "q = take n p" by (auto simp: ancestors_def)
  then show "q \<noteq> [] \<and> (\<exists>r. p = q @ r)" by (metis append_take_drop_id length_0_conv length_take min.absorb2 not_one_le_zero)
next
  assume "q \<noteq> [] \<and> (\<exists>r. p = q @ r)"
  then obtain r where "q \<noteq> []" "p = q @ r" by blast
  then have "q = take (length q) p" "1 \<le> length q" "length q < Suc (length p)"
    by (auto simp: Suc_le_eq)
  then show "q \<in> set (ancestors p)"
    unfolding ancestors_def set_map set_upt by (metis atLeastLessThan_iff image_eqI)
qed

lemma butlast_paths [simp]:
  "butlast (d @ [x, y, z]) = d @ [x, y]" "butlast (d @ [x, y, u, v, z]) = d @ [x, y, u, v]"
  by (simp_all add: butlast_append)

lemma ensure_app_dirs_quiet:
  assumes "plain_component app" "quiet w" "app_layout d app w"
  shows "wp (ensure_app_dirs d app) (\<lambda>_ w'. quiet w' \<and> is_dir (d @ [''apps'', app]) w' \<and>
      (\<forall>q. q \<notin> set (ancestors (d @ [''apps'', app, ''versions''])) \<union>
             set (ancestors (d @ [''apps'', app, ''diffs''])) \<longrightarrow> lookup w' q = lookup w q))
    (\<lambda>_ _. False) w"
proof -
  have "d @ [''apps'', app] \<in> set (ancestors (d @ [''apps'', app, ''diffs'']))"
    by (simp add: in_ancestors)
  then show ?thesis
    unfolding ensure_app_dirs_def
    by (intro wp_run ok_create_dir_all) (use assms in \<open>auto simp: app_layout_def is_dir_def\<close>)
qed

text \<open>The beginning of a read-modify-write: open or create the document, lock it, read it.\<close>

lemma ok_open_read:
  assumes "quiet w" "is_dir (butlast p) w" "lookup w p \<noteq> Some Dir"
    and "\<And>w' c. quiet w' \<Longrightarrow> lookup w' = (lookup w)(p \<mapsto> File c) \<Longrightarrow>
      c = (case file_at w p of Some c \<Rightarrow> c | None \<Rightarrow> content0 L) \<Longrightarrow>
      wp (bindE (g (if utf8 L c then Some c else None)) k) Q E w'"
  shows "wp (bindE (map_err SIo (open_create (content0 L) p)) (\<lambda>_.
     bindE (map_err SIo io_point) (\<lambda>_.
     bindE (get_world (exists_path p)) (\<lambda>ex.
     bindE (if ex then bindE (attempt (read_to_string L p)) g else h) k)))) Q E w"
proof -
  define c where "c = (case file_at w p of Some c \<Rightarrow> c | None \<Rightarrow> content0 L)"
  have "(case lookup w p of None \<Rightarrow> File (content0 L) | Some n \<Rightarrow> n) = File c"
    using assms(3) by (simp add: c_def file_at_def split: option.split node.split)
  moreover have "wp (attempt (read_to_string L p)) (\<lambda>x. wp (bindE (g x) k) Q E) E w'"
    if "quiet w'" "lookup w' = (lookup w)(p \<mapsto> File c)" for w'
    unfolding read_to_string_def
    by (intro wp_run ok_read_file [where c = c])
       (use that assms(4) [OF _ _ c_def] in auto)
  ultimately show ?thesis
    by (intro wp_run ok_open_create ok_io_point)
       (use assms(1-3) in \<open>auto simp: exists_path_def\<close>)
qed

lemma update_catalog_atomic_quiet:
  assumes L: "lawful L" and app: "plain_component app" and w: "quiet w" "app_layout d app w"
  shows "wp (update_catalog_atomic L d app vi)
    (\<lambda>_ w'. quiet w' \<and> stored_catalog L d app w' = Some (catalog_put (sv_pre_cmp L) vi
       (case stored_catalog L d app w of Some cat \<Rightarrow> cat | None \<Rightarrow> empty_catalog app (vi_version vi))))
    (\<lambda>_ _. False) w"
  unfolding update_catalog_atomic_def Let_def wp_bindE [of "ensure_app_dirs d app"]
proof (rule wp_mono [OF ensure_app_dirs_quiet [OF app w]], goal_cases)
  case (1 x w1)
  have lk: "lookup w1 (d @ [''apps'', app, f]) = lookup w (d @ [''apps'', app, f])"
    if "f \<noteq> ''versions''" "f \<noteq> ''diffs''" for f
    using 1 that by (auto simp: in_ancestors)
  show ?case
    unfolding plain_paths(2) [OF app]
  proof (rule ok_open_read, goal_cases)
    case (4 w2 c)
    let ?p = "d @ [''apps'', app, ''catalog.json'']"
    have "file_at w1 ?p = file_at w ?p" using lk [of "''catalog.json''"] by (simp add: file_at_def)
    then have cat: "Option.bind (if utf8 L c then Some c else None) (de_catalog L) = stored_catalog L d app w"
      using 4(3) L by (simp add: stored_catalog_def app split: option.split)
    show ?case
      unfolding wp_bindE wp_pure cat
      by (rule ok_replace_file)
         (use 4 1 lk w(2) in \<open>auto simp: app_layout_def stored_catalog_def app L file_at_def is_dir_def
            split: option.split\<close>)
  qed (use 1 w(2) lk in \<open>auto simp: app_layout_def\<close>)
qed simp


text \<open>Step-by-step evaluation in a world with a known schedule of faults.\<close>

lemma next_op_skip [simp]:
  "next_op (skip_ops n w) = (faults w (tick w + n), skip_ops (Suc n) w)"
  "next_op (set_node p x w) = (fst (next_op w), set_node p x (snd (next_op w)))"
  by (simp_all add: next_op_def skip_ops_def set_node_def)

lemma mkdirs_present: "\<forall>q \<in> set ps. lookup w q \<noteq> None \<Longrightarrow> mkdirs ps w = w"
  by (induction ps) auto

lemma create_dir_all_present:
  assumes "\<forall>q \<in> set (ancestors p). lookup w q = Some Dir" "faults w (tick w + n) = NoFault"
  shows "create_dir_all p (skip_ops n w) = (Inr (), skip_ops (Suc n) w)"
  using assms mkdirs_present [of "ancestors p" "skip_ops (Suc n) w"]
  by (simp add: create_dir_all_def)

lemma skip_ops_0: "skip_ops 0 w = w"
  by (simp add: skip_ops_def)

lemma read_error_resets_catalog:
  assumes L: "lawful L" and app: "plain_component app"
    and dirs: "\<forall>q \<in> set (ancestors (d @ [''apps'', app, ''versions''])) \<union>
              set (ancestors (d @ [''apps'', app, ''diffs''])). lookup w q = Some Dir"
    and cat: "lookup w (d @ [''apps'', app, ''catalog.json'']) = Some (File c)"
      "lookup w (d @ [''apps'', app, ''catalog.json.tmp'']) = None"
    and f: "faults w = (\<lambda>n. if n = tick w + 4 then Fail else NoFault)"
  shows "\<exists>w'. update_catalog_atomic L d app vi w = (Inr (), w') \<and>
    stored_catalog L d app w' = Some (catalog_put (sv_pre_cmp L) vi (empty_catalog app (vi_version vi)))"
proof -
  have dir: "lookup w (d @ [''apps'', app]) = Some Dir"
    using dirs by (simp add: in_ancestors)
  have "ensure_app_dirs d app (skip_ops 0 w) = (Inr (), skip_ops 2 w)"
    unfolding ensure_app_dirs_def using dirs
    by (simp add: bindE_def map_err_def app create_dir_all_present f numeral_2_eq_2)
  then have "ensure_app_dirs d app w = (Inr (), skip_ops 2 w)"
    by (simp add: skip_ops_0)
  then show ?thesis
    unfolding update_catalog_atomic_def Let_def
    by (simp add: bindE_def map_err_def attempt_def returnE_def get_world_def read_to_string_def
        replace_file_def io_prims exists_path_def is_dir_def app cat dir f L stored_catalog_def
        Let_def)
qed


section \<open>Runs of the store\<close>

text \<open>The operations of the store that change it, with their arguments, and the worlds reached by any
  sequence of them. Names are the ones the validation lets through; a published version is the
  result of the version parser.\<close>

datatype 'c store_op =
    PutVersion string version_info
  | PutInPlace string version_info
  | SetLatest string string
  | DeleteVersion string string
  | PutManifest string string platform string u64
  | AddDiff string string platform diff_info
  | SetRollout string string rollout_config
  | UpdateRollout string string "rollout_config \<Rightarrow> rollout_config"
  | SaveBinary string string platform 'c
  | MoveBinary string string platform path
  | SaveSignature string string 'c
  | SaveDiff string string string platform 'c
  | MoveDiff string string string platform path
  | MakeDirs string
  | MakeVersionDir string string
  | MakeDiffsDir string

definition ignore_value :: "('c, 'e, 'a) io \<Rightarrow> ('c, 'e, unit) io" where
  "ignore_value m = bindE m (\<lambda>_. returnE ())"

fun run_op :: "'c libs \<Rightarrow> path \<Rightarrow> 'c store_op \<Rightarrow> ('c, storage_error, unit) io" where
  "run_op L d (PutVersion app vi) = update_catalog_atomic L d app vi"
| "run_op L d (PutInPlace app vi) = update_catalog L d app vi"
| "run_op L d (SetLatest app s) = set_latest_version L d app s"
| "run_op L d (DeleteVersion app s) = delete_version L d app s"
| "run_op L d (PutManifest app s p h n) = update_manifest L d app s p h n"
| "run_op L d (AddDiff app s p di) = add_diff_to_manifest L d app s p di"
| "run_op L d (SetRollout app s cfg) = set_rollout_config L d app s cfg"
| "run_op L d (UpdateRollout app s g) = ignore_value (update_rollout_config_atomic L d app s g)"
| "run_op L d (SaveBinary app s p x) = save_binary d app s p x"
| "run_op L d (MoveBinary app s p t) = save_binary_from_temp d app s p t"
| "run_op L d (SaveSignature app s x) = save_signature d app s x"
| "run_op L d (SaveDiff app u v p x) = ignore_value (save_diff d app u v p x)"
| "run_op L d (MoveDiff app u v p t) = ignore_value (save_diff_from_temp d app u v p t)"
| "run_op L d (MakeDirs app) = ensure_app_dirs d app"
| "run_op L d (MakeVersionDir app s) = ignore_value (ensure_version_dir d app s)"
| "run_op L d (MakeDiffsDir app) = ensure_diffs_dir d app"

fun op_names :: "'c store_op \<Rightarrow> string list" where
  "op_names (PutVersion app vi) = [app]"
| "op_names (PutInPlace app vi) = [app]"
| "op_names (SetLatest app s) = [app]"
| "op_names (DeleteVersion app s) = [app, s]"
| "op_names (PutManifest app s p h n) = [app, s]"
| "op_names (AddDiff app s p di) = [app, s]"
| "op_names (SetRollout app s cfg) = [app, s]"
| "op_names (UpdateRollout app s g) = [app, s]"
| "op_names (SaveBinary app s p x) = [app, s]"
| "op_names (MoveBinary app s p t) = [app, s]"
| "op_names (SaveSignature app s x) = [app, s]"
| "op_names (SaveDiff app u v p x) = [app, u, v]"
| "op_names (MoveDiff app u v p t) = [app, u, v]"
| "op_names (MakeDirs app) = [app]"
| "op_names (MakeVersionDir app s) = [app, s]"
| "op_names (MakeDiffsDir app) = [app]"

text \<open>The staged file an operation moves into place.\<close>

fun op_temp :: "'c store_op \<Rightarrow> path set" where
  "op_temp (MoveBinary app s p t) = {t}"
| "op_temp (MoveDiff app u v p t) = {t}"
| "op_temp _ = {}"

definition put_ok :: "'c libs \<Rightarrow> version_info \<Rightarrow> bool" where
  "put_ok L vi \<longleftrightarrow> distinct (vi_platforms vi) \<and> sv_parse L (sv_show L (vi_version vi)) = Inr (vi_version vi)"

text \<open>The write of \<open>update_catalog\<close> is in place; what a write that breaks off leaves is then no catalog.\<close>

definition op_ok :: "'c libs \<Rightarrow> 'c store_op \<Rightarrow> 'c world \<Rightarrow> bool" where
  "op_ok L x w \<longleftrightarrow> (\<forall>s \<in> set (op_names x). slash_free s) \<and>
     (case x of PutVersion app vi \<Rightarrow> put_ok L vi
      | PutInPlace app vi \<Rightarrow> put_ok L vi \<and> (\<forall>n g. faults w n = Torn g \<longrightarrow> utf8 L g \<longrightarrow> de_catalog L g = None)
      | _ \<Rightarrow> True)"

inductive store_reach :: "'c libs \<Rightarrow> path \<Rightarrow> 'c world \<Rightarrow> 'c world \<Rightarrow> bool" for L d where
  reach_refl: "store_reach L d w w"
| reach_step: "store_reach L d w u \<Longrightarrow> op_ok L x u \<Longrightarrow> run_op L d x u = (r, v) \<Longrightarrow> store_reach L d w v"

lemma keeps_catalogs_move:
  assumes "slash_free u" "slash_free v"
  shows "keeps_catalogs L d (save_binary_from_temp d app s p t)" "keeps_catalogs L d (save_diff_from_temp d app u v p t)"
  unfolding save_binary_from_temp_def save_diff_from_temp_def ensure_version_dir_def ensure_diffs_dir_def Let_def
  by (intro catalog_inv.keeps_intros keeps_catalogs_rename keeps_catalogs_mkdir;
      use assms diff_no_catalog in \<open>simp add: store_paths\<close>)+

lemma update_catalog_keeps:
  assumes L: "lawful L" "total_comparator (sv_pre_cmp L)" and x: "op_ok L (PutInPlace app vi) w" and ok: "catalogs_ok L d w"
  shows "catalogs_ok L d (snd (update_catalog L d app vi w))"
proof -
  have app: "plain_component app \<or> app = ''.''" and vi: "put_ok L vi"
    and torn: "\<And>n g. faults w n = Torn g \<Longrightarrow> utf8 L g \<Longrightarrow> de_catalog L g = None"
    using x unfolding op_ok_def plain_or_dot by auto
  from app show ?thesis
  proof
    assume "plain_component app"
    then show ?thesis
      by (rule catalogs_ok_update [OF _ touches_storage_app(3) _ ok], intro wp_mono [OF update_catalog_outcome [OF L(1) torn]])
         (use vi in \<open>auto simp: put_ok_def intro: good_catalog_put_in_place [OF L(2)]\<close>)
  next
    assume "app = ''.''"
    then have "keeps_catalogs L d (update_catalog L d app vi)" using keeps_catalogs_other [OF touches_dot_catalog(4)] by blast
    then show ?thesis using ok unfolding keeps_catalogs_def by blast
  qed
qed

lemma catalogs_ok_run_op:
  assumes L: "lawful L" "total_comparator (sv_pre_cmp L)" and x: "op_ok L x w" and ok: "catalogs_ok L d w"
  shows "catalogs_ok L d (snd (run_op L d x w))"
proof (cases "\<exists>app vi. x = PutInPlace app vi")
  case True
  then show ?thesis using update_catalog_keeps [OF L _ ok] x by auto
next
  case False
  have "keeps_catalogs L d (run_op L d x)"
    using x False
    by (cases x)
       (auto simp: op_ok_def put_ok_def ignore_value_def ensure_app_dirs_def ensure_diffs_dir_def
         intro!: keeps_catalogs_storage [OF L(1)] L(2) catalog_inv.keeps_intros keeps_catalogs_move
           keeps_catalogs_other [OF touches_no_catalog(1)]
           keeps_catalogs_other [OF touches_no_catalog(2)] keeps_catalogs_other [OF touches_no_catalog(3)]
           keeps_catalogs_other [OF touches_no_catalog(4)] keeps_catalogs_other [OF touches_no_catalog(5)]
           keeps_catalogs_other [OF touches_no_catalog(6)] keeps_catalogs_other [OF touches_no_catalog(7)]
           keeps_catalogs_other [OF touches_no_catalog_diff(1)] keeps_catalogs_mkdir)
  then show ?thesis using ok unfolding keeps_catalogs_def by blast
qed

lemma touches_run_op:
  assumes "\<forall>s \<in> set (op_names x). slash_free s" "op_temp x \<subseteq> app_files d (hd (op_names x))"
  shows "touches (app_files d (hd (op_names x))) (run_op L d x)"
  using assms
  by (cases x)
     (auto simp: ignore_value_def
       intro!: touches_storage_app touches_storage_version touches_storage_diff footprint.keeps_bindE
         footprint.keeps_pure)


section \<open>A concrete instance\<close>

text \<open>Documents kept as values, for evaluating the definitions at concrete inputs.\<close>

datatype sample_doc = CatalogDoc app_catalog | ManifestDoc version_manifest
  | RolloutDoc rollout_config | Blob bytes

definition sample_libs :: "sample_doc libs" where
  "sample_libs = \<lparr>content0 = Blob [], of_bytes = Blob, utf8 = (\<lambda>_. True),
     content_len = (\<lambda>c. case c of Blob s \<Rightarrow> of_nat (length s) | _ \<Rightarrow> 0),
     ser_catalog = CatalogDoc, de_catalog = (\<lambda>c. case c of CatalogDoc x \<Rightarrow> Some x | _ \<Rightarrow> None),
     ser_manifest = ManifestDoc, de_manifest = (\<lambda>c. case c of ManifestDoc x \<Rightarrow> Some x | _ \<Rightarrow> None),
     ser_rollout = RolloutDoc, de_rollout = (\<lambda>c. case c of RolloutDoc x \<Rightarrow> Some x | _ \<Rightarrow> None),
     blake3 = (\<lambda>c. case c of Blob (b # s) \<Rightarrow> [b, 0, 0, 0, 0, 0, 0, 0] @ replicate 24 0 | _ \<Rightarrow> replicate 32 0),
     blake3_hex = (\<lambda>c. case c of Blob s \<Rightarrow> replicate 64 (if s = [] then CHR ''0'' else CHR ''1'')
                         | _ \<Rightarrow> replicate 64 (CHR ''2'')),
     hex_decode = (\<lambda>s. Some (replicate (length s div 2) 0)), base64_decode = (\<lambda>_. None),
     ed25519_verify = (\<lambda>_ _ _. True),
     sv_parse = sample_parse, sv_show = sample_show, sv_pre_cmp = str_cmp\<rparr>"

lemma lawful_sample [simp]: "lawful sample_libs"
  by (simp add: lawful_def sample_libs_def sample_parse_show)

lemma sample_libs_simps [simp]:
  "sv_pre_cmp sample_libs = str_cmp" "sv_parse sample_libs = sample_parse" "sv_show sample_libs = sample_show"
  "content0 sample_libs = Blob []" "of_bytes sample_libs = Blob" "utf8 sample_libs x"
  "ser_catalog sample_libs = CatalogDoc" "de_catalog sample_libs (CatalogDoc cat) = Some cat"
  "ser_manifest sample_libs = ManifestDoc" "de_manifest sample_libs (ManifestDoc m) = Some m"
  "ser_rollout sample_libs = RolloutDoc" "de_rollout sample_libs (RolloutDoc r) = Some r"
  by (simp_all add: sample_libs_def)

definition sample_world :: "(path \<times> sample_doc node) list \<Rightarrow> sample_doc world" where
  "sample_world nodes = \<lparr>fs = nodes, tick = 0, faults = (\<lambda>_. NoFault)\<rparr>"

lemma quiet_sample [simp]: "quiet (sample_world nodes)"
  by (simp add: quiet_def sample_world_def)

lemma app_layout_empty [simp]: "app_layout d app (sample_world [])"
  by (simp add: app_layout_def sample_world_def lookup_def)

lemma plain_app [simp]: "plain_component ''app''" "plain_component ''2.0.0''" "plain_component ''1.0.0''"
  by (simp_all add: plain_component_def)


section \<open>Properties\<close>

text \<open>
  C23: publishing updates the catalog entirely or not at all. Whatever I/O operations fail, and
  whatever a failing write leaves behind, the catalog a reader finds afterwards is the previous one
  if the update reports an error, and the complete updated one if it reports success.
\<close>

theorem update_catalog_all_or_nothing:
  assumes "lawful L" "plain_component app" "update_catalog_atomic L d app vi w = (r, w')"
  shows "case r of
      Inl e \<Rightarrow> stored_catalog L d app w' = stored_catalog L d app w
    | Inr _ \<Rightarrow> (\<exists>old. stored_catalog L d app w' = Some (catalog_put (sv_pre_cmp L) vi old) \<and>
        (stored_catalog L d app w = Some old \<or> old = empty_catalog app (vi_version vi)))"
  using update_catalog_atomic_outcome [OF assms(1), of d app vi w] assms(3)
  by (auto simp: wp_def split: sum.splits)

theorem update_catalog_all_or_nothing_witness:
  "\<exists>e w'. update_catalog_atomic sample_libs [] ''app'' (sample_info (version_new 1 0 0))
     ((sample_world [])\<lparr>faults := \<lambda>_. Torn (Blob [0])\<rparr>) = (Inl e, w') \<and>
   stored_catalog sample_libs [] ''app'' w' = None"
proof -
  let ?w = "(sample_world [])\<lparr>faults := \<lambda>_. Torn (Blob [0])\<rparr>"
  obtain e w' where run: "update_catalog_atomic sample_libs [] ''app'' (sample_info (version_new 1 0 0)) ?w
      = (Inl e, w')"
    by (simp add: update_catalog_atomic_def ensure_app_dirs_def bindE_def map_err_def create_dir_all_def
        next_op_def sample_world_def)
  have "stored_catalog sample_libs [] ''app'' w' = None"
    using update_catalog_all_or_nothing [OF lawful_sample plain_app(1) run]
    by (simp add: stored_catalog_def file_at_def lookup_def sample_world_def)
  then show ?thesis using run by blast
qed

text \<open>
  Without I/O errors an update of the catalog succeeds, and the catalog read back is the
  previous one, or a fresh one for a new application, with the version merged in.
\<close>

theorem update_catalog_succeeds:
  assumes "lawful L" "plain_component app" "quiet w" "app_layout d app w"
  shows "\<exists>w'. update_catalog_atomic L d app vi w = (Inr (), w') \<and>
    stored_catalog L d app w' = Some (catalog_put (sv_pre_cmp L) vi
      (case stored_catalog L d app w of Some cat \<Rightarrow> cat | None \<Rightarrow> empty_catalog app (vi_version vi)))"
  using update_catalog_atomic_quiet [OF assms, of vi] by (auto simp: wp_def split: prod.splits sum.splits)

theorem update_catalog_succeeds_witness:
  "\<exists>w'. update_catalog_atomic sample_libs [] ''app'' (sample_info (version_new 1 0 0)) (sample_world [])
     = (Inr (), w')"
  using update_catalog_succeeds [of sample_libs "''app''" "sample_world []" "[]"
      "sample_info (version_new 1 0 0)"] by auto

text \<open>
  C22: in every world reached from one with well-formed catalogs by any sequence of the operations of the store that write,
  on any applications with any names the validation lets through and with any I/O failures, every catalog that can be read
  is well formed: sorted strictly newest first, without duplicate platforms, its latest version listed. The entries that
  are put have distinct platforms and a version the version parser returns. For the deprecated \<open>update_catalog\<close>, which no
  other code calls and which writes in place, what a write that breaks off leaves must be no readable catalog; no
  condition on faults is made for the other operations.
\<close>

theorem store_catalogs_stay_wf:
  assumes "store_reach L d w w'" "lawful L" "total_comparator (sv_pre_cmp L)" "catalogs_ok L d w"
  shows "catalogs_ok L d w'"
  using assms
proof (induction rule: store_reach.induct)
  case (reach_step w u x r v)
  have "catalogs_ok L d (snd (run_op L d x u))"
    using reach_step by (intro catalogs_ok_run_op)
  then show ?case using reach_step.hyps(3) by simp
qed simp

theorem store_catalogs_stay_wf_witness:
  "catalogs_ok sample_libs [] (snd (run_op sample_libs [] (PutVersion ''app'' (sample_info (version_new 1 0 0)))
     (sample_world [])))"
proof (rule store_catalogs_stay_wf [where w = "sample_world []"])
  have ok: "op_ok sample_libs (PutVersion ''app'' (sample_info (version_new 1 0 0))) (sample_world [])"
    by (simp add: op_ok_def put_ok_def slash_free_def sample_defs)
  show "store_reach sample_libs [] (sample_world []) (snd (run_op sample_libs []
      (PutVersion ''app'' (sample_info (version_new 1 0 0))) (sample_world [])))"
    by (rule reach_step [OF reach_refl ok]) (rule prod.collapse [symmetric])
  show "catalogs_ok sample_libs [] (sample_world [])"
    by (simp add: catalogs_ok_def stored_catalog_def file_at_def lookup_def sample_world_def)
qed (simp_all add: str.total_comparator_axioms)

text \<open>
  an operation of the store on one application changes no file outside the directory of that
  application, whatever I/O operations fail, if the staged file it moves lies there.
\<close>

theorem store_op_confined:
  assumes "\<forall>s \<in> set (op_names x). slash_free s" "op_temp x \<subseteq> app_files d (hd (op_names x))" "run_op L d x w = (r, w')"
    and "\<not> in_dir (app_dir d (hd (op_names x))) p"
  shows "file_at w' p = file_at w p"
  using touches_run_op [OF assms(1,2), of L] assms(3,4) by (auto simp: app_files_def dest: touchesD)

theorem store_op_confined_witness:
  "file_at (snd (run_op sample_libs [] (DeleteVersion ''app'' ''app'') (sample_world []))) [''etc'']
     = file_at (sample_world []) [''etc'']"
  by (rule store_op_confined [where x = "DeleteVersion ''app'' ''app''"])
     (auto simp: in_dir_def slash_free_def intro: prod.collapse [symmetric])

text \<open>
  A failing read is taken for a missing catalog. If only the read of an existing catalog fails,
  the update still reports success and the catalog it leaves lists the published version alone:
  every other version is lost.
\<close>

theorem catalog_reset_on_read_error:
  assumes "lawful L" "plain_component app"
    and "\<forall>q \<in> set (ancestors (d @ [''apps'', app, ''versions''])) \<union>
              set (ancestors (d @ [''apps'', app, ''diffs''])). lookup w q = Some Dir"
    and "lookup w (d @ [''apps'', app, ''catalog.json'']) = Some (File c)"
    and "lookup w (d @ [''apps'', app, ''catalog.json.tmp'']) = None"
    and "faults w = (\<lambda>n. if n = tick w + 4 then Fail else NoFault)"
  shows "\<exists>w' cat. update_catalog_atomic L d app vi w = (Inr (), w') \<and>
    stored_catalog L d app w' = Some cat \<and> cat_versions cat = [vi]"
proof -
  have "cat_versions (catalog_put (sv_pre_cmp L) vi (empty_catalog app (vi_version vi))) = [vi]"
    unfolding catalog_put_simps
    by (simp add: empty_catalog_def put_version_def binary_search_by_def bsearch.simps insert_at_def)
  then show ?thesis
    using read_error_resets_catalog [OF assms] by blast
qed

definition sample_tree :: "(path \<times> sample_doc node) list" where
  "sample_tree = [([''apps''], Dir), ([''apps'', ''app''], Dir), ([''apps'', ''app'', ''versions''], Dir),
     ([''apps'', ''app'', ''diffs''], Dir),
     ([''apps'', ''app'', ''catalog.json''], File (CatalogDoc sample_catalog))]"

theorem catalog_reset_on_read_error_witness:
  "\<exists>w' cat. update_catalog_atomic sample_libs [] ''app'' (sample_info (version_new 1 0 0))
       ((sample_world sample_tree)\<lparr>faults := \<lambda>n. if n = 4 then Fail else NoFault\<rparr>) = (Inr (), w') \<and>
     stored_catalog sample_libs [] ''app'' w' = Some cat \<and>
     cat_versions cat = [sample_info (version_new 1 0 0)]"
  by (rule catalog_reset_on_read_error [where c = "CatalogDoc sample_catalog"])
     (auto simp: sample_world_def sample_tree_def lookup_def ancestors_def upt_rec)

text \<open>
  The name of a diff file does not determine the versions it is for. Two different pairs of valid
  versions share one file, so that uploading the diff of one pair replaces the diff of the other.
\<close>

theorem diff_path_collision:
  "get_diff_path d app ''1.0.0'' ''2.0.0-a-to-3.0.0'' p = get_diff_path d app ''1.0.0-to-2.0.0-a'' ''3.0.0'' p \<and>
   validate_version ''2.0.0-a-to-3.0.0'' = Inr () \<and> validate_version ''1.0.0-to-2.0.0-a'' = Inr ()"
  by (simp add: get_diff_path_def validate_version_Inr_iff) code_simp

end
