(* ===== verification/Rate_Limit.thy ===== *)
theory Rate_Limit
  imports File_System "HOL-Library.Multiset"
begin

text \<open>
  The two in-memory limiters of the server (\<open>crates/deltaship-server/src/rate_limit.rs\<close>): requests
  per IP in a fixed window, and exponential backoff after authentication failures. A \<open>HashMap\<close> is
  an association list with distinct keys; the order in which it is iterated is unspecified, so the
  operations that iterate take a rank \<open>h\<close> of the keys as a parameter and iterate by increasing rank
  (every order of a table arises from some rank). An \<open>Instant\<close> is a number
  of nanoseconds; \<open>duration_since\<close> saturates at zero, as subtraction on \<open>nat\<close> does. Each operation
  runs under its mutex, so it is one step. Arithmetic is that of a release build: it wraps.
\<close>

type_synonym instant = nat

definition secs :: "nat \<Rightarrow> nat" where
  "secs n = n * 1000000000"

definition MAX_ENTRIES :: nat where
  "MAX_ENTRIES = 100000"

definition LRU_EVICTION_COUNT :: nat where
  "LRU_EVICTION_COUNT = MAX_ENTRIES div 10"

definition AUTH_FAILURE_THRESHOLD :: u32 where
  "AUTH_FAILURE_THRESHOLD = 5"

definition AUTH_BACKOFF_BASE_SECONDS :: u64 where
  "AUTH_BACKOFF_BASE_SECONDS = 60"

definition MAX_AUTH_BACKOFF_SECONDS :: u64 where
  "MAX_AUTH_BACKOFF_SECONDS = 600"

text \<open>\<open>client_ip\<close>: \<open>xff\<close> is the value of the \<open>x-forwarded-for\<close> header when it is present and
  readable as text.\<close>

definition client_ip :: "string \<Rightarrow> string option \<Rightarrow> bool \<Rightarrow> string" where
  "client_ip addr_ip xff trust_proxy =
     (if trust_proxy then
        (case xff of
           Some v \<Rightarrow>
             (case find_first (\<lambda>s. s \<noteq> []) (rev (map trim (split_char (CHR '','') v))) of
                Some ip \<Rightarrow> ip
              | None \<Rightarrow> addr_ip)
         | None \<Rightarrow> addr_ip)
      else addr_ip)"


section \<open>Tables with a capacity\<close>

type_synonym 'v table = "(string \<times> 'v) list"

definition keys :: "'v table \<Rightarrow> string list" where
  "keys es = map fst es"

definition del_all :: "string list \<Rightarrow> 'v table \<Rightarrow> 'v table" where
  "del_all ks es = fold del ks es"

definition hash_iter :: "(string \<Rightarrow> nat) \<Rightarrow> 'v table \<Rightarrow> 'v table" where
  "hash_iter h es = sort_key (\<lambda>(k, _). h k) es"

text \<open>
  Both limiters make room in the same way: take a sample of the entries that may go, sort it by
  last access and remove the oldest.
\<close>

definition evict_sampled ::
  "(string \<Rightarrow> nat) \<Rightarrow> ('v \<Rightarrow> instant) \<Rightarrow> ('v \<Rightarrow> bool) \<Rightarrow> 'v table \<Rightarrow> 'v table" where
  "evict_sampled h last_access may_go es =
     (let evict = min LRU_EVICTION_COUNT (length es);
          sample = min (evict * 4) (length es);
          candidates = map (\<lambda>(ip, e). (ip, last_access e))
                         (take sample (filter (\<lambda>(_, e). may_go e) (hash_iter h es)))
      in del_all (map fst (take evict (sort_key snd candidates))) es)"

lemma map_of_del_all: "map_of (del_all ks es) k = (if k \<in> set ks then None else map_of es k)"
  unfolding del_all_def by (induction ks arbitrary: es) auto

lemma keys_simps [simp]: "keys [] = []" "keys (x # es) = fst x # keys es"
  by (simp_all add: keys_def)

lemma keys_del [simp]: "keys (del k es) = filter (\<lambda>x. x \<noteq> k) (keys es)"
  by (auto simp: keys_def del_def filter_map comp_def case_prod_unfold)

lemma keys_del_all: "keys (del_all ks es) = filter (\<lambda>x. x \<notin> set ks) (keys es)"
  unfolding del_all_def by (induction ks arbitrary: es) (auto intro: filter_cong)

lemma length_keys [simp]: "length (keys es) = length es"
  by (simp add: keys_def)

lemma keys_upd: "keys (upd k v es) = (if k \<in> set (keys es) then keys es else keys es @ [k])"
  by (induction es) auto

lemma map_of_None_keys: "map_of es k = None \<longleftrightarrow> k \<notin> set (keys es)"
  by (simp add: keys_def map_of_eq_None_iff)

lemma length_upd: "length (upd k v es) = (if k \<in> set (keys es) then length es else Suc (length es))"
  by (metis keys_upd length_keys length_append_singleton)

lemma distinct_upd [simp]: "distinct (keys es) \<Longrightarrow> distinct (keys (upd k v es))"
  by (simp add: keys_upd)

lemma distinct_del_all [simp]: "distinct (keys es) \<Longrightarrow> distinct (keys (del_all ks es))"
  by (simp add: keys_del_all)

lemma distinct_filter_keys [simp]: "distinct (keys es) \<Longrightarrow> distinct (keys (filter P es))"
  unfolding keys_def by (induction es) auto

lemma length_del_all:
  assumes "distinct (keys es)" "distinct ks" "set ks \<subseteq> set (keys es)"
  shows "length (del_all ks es) = length es - length ks"
proof -
  have "set (keys (del_all ks es)) = set (keys es) - set ks"
    by (auto simp: keys_del_all)
  then have "card (set (keys (del_all ks es))) = card (set (keys es)) - card (set ks)"
    using assms(3) by (simp add: card_Diff_subset)
  then show ?thesis
    using assms by (metis distinct_card distinct_del_all length_keys)
qed

lemma hash_iter_simps [simp]:
  "set (hash_iter h es) = set es" "length (hash_iter h es) = length es"
  "distinct (keys (hash_iter h es)) = distinct (keys es)"
proof -
  show "set (hash_iter h es) = set es" "length (hash_iter h es) = length es"
    by (simp_all add: hash_iter_def)
  have "mset (keys (hash_iter h es)) = mset (keys es)"
    by (simp add: keys_def hash_iter_def)
  then show "distinct (keys (hash_iter h es)) = distinct (keys es)"
    by (rule mset_eq_imp_distinct_iff)
qed

lemma evicted_from_candidates:
  assumes "k \<in> set (map fst (take n (sort_key snd (map (\<lambda>(ip, e). (ip, la e)) xs))))"
  shows "\<exists>e. (k, e) \<in> set xs"
proof -
  have "k \<in> fst ` set (sort_key snd (map (\<lambda>(ip, e). (ip, la e)) xs))"
    using assms set_take_subset by fastforce
  then show ?thesis by auto
qed

lemma map_of_evict_sampled:
  assumes "distinct (keys es)" "map_of es k = Some e" "\<not> may_go e"
  shows "map_of (evict_sampled h la may_go es) k = Some e"
proof -
  have "(k, e') \<in> set es \<Longrightarrow> e' = e" for e'
    using assms(1,2) by (simp add: keys_def)
  then have "(k, e') \<notin> set (take n (filter (\<lambda>(_, e). may_go e) (hash_iter h es)))" for e' n
    using assms(3) by (auto dest!: in_set_takeD)
  then have "k \<notin> set (map fst (take m (sort_key snd (map (\<lambda>(ip, e). (ip, la e))
      (take n (filter (\<lambda>(_, e). may_go e) (hash_iter h es)))))))" for m n
    using evicted_from_candidates by metis
  then show ?thesis
    using assms(2) by (simp add: evict_sampled_def Let_def map_of_del_all)
qed


section \<open>The request limiter\<close>

record rate_limit_entry =
  rl_count :: u32
  window_start :: instant
  rl_last_access :: instant

record rate_limiter =
  rl_entries :: "rate_limit_entry table"
  max_requests :: u32
  window_duration :: nat

definition rate_limiter_new :: "u32 \<Rightarrow> nat \<Rightarrow> rate_limiter" where
  "rate_limiter_new mx window = \<lparr>rl_entries = [], max_requests = mx, window_duration = window\<rparr>"

definition rl_cleanup_expired_entries ::
  "nat \<Rightarrow> rate_limit_entry table \<Rightarrow> instant \<Rightarrow> rate_limit_entry table" where
  "rl_cleanup_expired_entries window es now =
     filter (\<lambda>(_, e). now - window_start e < window) es"

definition rl_evict_when_full ::
  "(string \<Rightarrow> nat) \<Rightarrow> nat
   \<Rightarrow> rate_limit_entry table \<Rightarrow> instant \<Rightarrow> rate_limit_entry table" where
  "rl_evict_when_full h window es now =
     (if length es < MAX_ENTRIES then es
      else let es = rl_cleanup_expired_entries window es now in
        if length es < MAX_ENTRIES then es
        else evict_sampled h rl_last_access (\<lambda>_. True) es)"

text \<open>One turn of the background task (\<open>spawn_cleanup_task\<close>).\<close>

definition rl_cleanup_task :: "rate_limiter \<Rightarrow> instant \<Rightarrow> rate_limiter" where
  "rl_cleanup_task rl now =
     rl\<lparr>rl_entries := rl_cleanup_expired_entries (window_duration rl) (rl_entries rl) now\<rparr>"

definition check_rate_limit ::
  "(string \<Rightarrow> nat) \<Rightarrow> rate_limiter
   \<Rightarrow> string \<Rightarrow> instant \<Rightarrow> bool \<times> rate_limiter" where
  "check_rate_limit h rl ip now =
     (let es = rl_entries rl;
          es = (if map_of es ip = None \<and> MAX_ENTRIES \<le> length es
                then rl_evict_when_full h (window_duration rl) es now else es);
          entry = (case map_of es ip of Some e \<Rightarrow> e
                   | None \<Rightarrow> \<lparr>rl_count = 0, window_start = now, rl_last_access = now\<rparr>);
          entry = entry\<lparr>rl_last_access := now\<rparr>;
          entry = (if window_duration rl \<le> now - window_start entry
                   then entry\<lparr>rl_count := 0, window_start := now\<rparr> else entry)
      in if max_requests rl \<le> rl_count entry
         then (False, rl\<lparr>rl_entries := upd ip entry es\<rparr>)
         else (True, rl\<lparr>rl_entries := upd ip (entry\<lparr>rl_count := rl_count entry + 1\<rparr>) es\<rparr>))"

text \<open>\<open>rate_limit_middleware\<close>: \<open>None\<close> is the 429 response, \<open>Some ()\<close> hands the request on.\<close>

definition rate_limit_middleware ::
  "(string \<Rightarrow> nat) \<Rightarrow> rate_limiter
   \<Rightarrow> string \<Rightarrow> string option \<Rightarrow> bool \<Rightarrow> instant \<Rightarrow> unit option \<times> rate_limiter" where
  "rate_limit_middleware h rl addr_ip xff trust_proxy now =
     (let ip = client_ip addr_ip xff trust_proxy;
          (ok, rl') = check_rate_limit h rl ip now
      in (if ok then Some () else None, rl'))"


section \<open>The authentication failure limiter\<close>

record auth_failure_entry =
  failure_count :: u32
  backoff_until :: "instant option"
  af_last_access :: instant

type_synonym auth_failure_limiter = "auth_failure_entry table"

definition in_backoff :: "instant \<Rightarrow> auth_failure_entry \<Rightarrow> bool" where
  "in_backoff now e = (case backoff_until e of Some b \<Rightarrow> now < b | None \<Rightarrow> False)"

definition af_cleanup_expired_entries ::
  "auth_failure_limiter \<Rightarrow> instant \<Rightarrow> auth_failure_limiter" where
  "af_cleanup_expired_entries es now =
     filter (\<lambda>(_, e). in_backoff now e
               \<or> now - af_last_access e < secs (unat MAX_AUTH_BACKOFF_SECONDS)) es"

definition af_evict_when_full ::
  "(string \<Rightarrow> nat)
   \<Rightarrow> auth_failure_limiter \<Rightarrow> instant \<Rightarrow> auth_failure_limiter" where
  "af_evict_when_full h es now =
     (if length es < MAX_ENTRIES then es
      else let es = af_cleanup_expired_entries es now in
        if length es < MAX_ENTRIES then es
        else evict_sampled h af_last_access
               (\<lambda>e. case backoff_until e of Some b \<Rightarrow> b \<le> now | None \<Rightarrow> True) es)"

definition backoff_seconds :: "u32 \<Rightarrow> u64" where
  "backoff_seconds exponent =
     min (AUTH_BACKOFF_BASE_SECONDS * 2 ^ unat exponent) MAX_AUTH_BACKOFF_SECONDS"

definition record_failure ::
  "(string \<Rightarrow> nat)
   \<Rightarrow> auth_failure_limiter \<Rightarrow> string \<Rightarrow> instant \<Rightarrow> bool \<times> auth_failure_limiter" where
  "record_failure h es ip now =
     (let es = (if map_of es ip = None \<and> MAX_ENTRIES \<le> length es
                then af_evict_when_full h es now else es);
          entry = (case map_of es ip of Some e \<Rightarrow> e
                   | None \<Rightarrow> \<lparr>failure_count = 0, backoff_until = None, af_last_access = now\<rparr>);
          entry = entry\<lparr>af_last_access := now\<rparr>
      in if in_backoff now entry then (False, upd ip entry es)
         else let entry = entry\<lparr>backoff_until := None\<rparr>;
                  entry = entry\<lparr>failure_count := failure_count entry + 1\<rparr>
           in if AUTH_FAILURE_THRESHOLD \<le> failure_count entry
              then let exponent = failure_count entry - AUTH_FAILURE_THRESHOLD;
                       entry = entry\<lparr>backoff_until := Some (now + secs (unat (backoff_seconds exponent)))\<rparr>
                   in (False, upd ip entry es)
              else (True, upd ip entry es))"

definition record_success :: "auth_failure_limiter \<Rightarrow> string \<Rightarrow> instant \<Rightarrow> auth_failure_limiter" where
  "record_success es ip now =
     (case map_of es ip of
        None \<Rightarrow> es
      | Some e \<Rightarrow>
          let fc = (if failure_count e = 0 then 0 else failure_count e - 1);
              e = e\<lparr>failure_count := fc, backoff_until := None, af_last_access := now\<rparr>
          in if fc = 0 then del ip es else upd ip e es)"

definition is_blocked :: "auth_failure_limiter \<Rightarrow> string \<Rightarrow> instant \<Rightarrow> bool" where
  "is_blocked es ip now =
     (case map_of es ip of Some e \<Rightarrow> in_backoff now e | None \<Rightarrow> False)"


section \<open>Bounded memory\<close>

text \<open>What the server expects of a limiter: one operation keeps a well-formed table within its
  capacity; then so does every sequence of operations.\<close>

locale capacity_bounded =
  fixes op :: "'s \<Rightarrow> 'a \<Rightarrow> 's" and tab :: "'s \<Rightarrow> 'v table"
  assumes op_distinct: "distinct (keys (tab s)) \<Longrightarrow> distinct (keys (tab (op s a)))"
    and op_bound: "distinct (keys (tab s)) \<Longrightarrow> length (tab s) \<le> MAX_ENTRIES \<Longrightarrow>
      length (tab (op s a)) \<le> MAX_ENTRIES"
begin

definition wf_tab :: "'s \<Rightarrow> bool" where
  "wf_tab s \<longleftrightarrow> distinct (keys (tab s)) \<and> length (tab s) \<le> MAX_ENTRIES"

lemma wf_run: "wf_tab s \<Longrightarrow> wf_tab (foldl op s as)"
  by (induction "as" arbitrary: s) (simp_all add: wf_tab_def op_distinct op_bound)

end

lemma length_evict_all:
  assumes "distinct (keys es)" "MAX_ENTRIES \<le> length es"
  shows "length (evict_sampled h la (\<lambda>_. True) es) = length es - LRU_EVICTION_COUNT"
proof -
  define c where "c = map (\<lambda>(ip, e). (ip, la e)) (take (4 * LRU_EVICTION_COUNT) (hash_iter h es))"
  define ks where "ks = map fst (take LRU_EVICTION_COUNT (sort_key snd c))"
  have n: "min LRU_EVICTION_COUNT (length es) = LRU_EVICTION_COUNT"
      "min (LRU_EVICTION_COUNT * 4) (length es) = 4 * LRU_EVICTION_COUNT"
    using assms(2) by (auto simp: LRU_EVICTION_COUNT_def MAX_ENTRIES_def)
  have it: "distinct (keys (hash_iter h es))" "set (hash_iter h es) = set es"
      "length (hash_iter h es) = length es"
    using assms(1) by auto
  have lc: "length c = 4 * LRU_EVICTION_COUNT"
    using it(3) n(2) by (simp add: c_def)
  have fc: "map fst c = take (4 * LRU_EVICTION_COUNT) (keys (hash_iter h es))"
    by (simp add: c_def keys_def take_map case_prod_unfold comp_def)
  have "mset (map fst (sort_key snd c)) = mset (map fst c)" by simp
  then have "distinct (map fst (sort_key snd c))"
    using it(1) fc by (metis distinct_take mset_eq_imp_distinct_iff)
  then have d: "distinct ks" unfolding ks_def by (metis distinct_take take_map)
  have "set ks \<subseteq> set (map fst (sort_key snd c))"
    unfolding ks_def using set_take_subset by fastforce
  also have "\<dots> = set (map fst c)" by simp
  also have "\<dots> \<subseteq> set (keys es)"
    using fc it(2) by (metis image_set keys_def set_take_subset)
  finally have s: "set ks \<subseteq> set (keys es)" .
  have "length ks = LRU_EVICTION_COUNT" using lc by (simp add: ks_def)
  moreover have "evict_sampled h la (\<lambda>_. True) es = del_all ks es"
    by (simp add: evict_sampled_def n Let_def ks_def c_def mult.commute)
  ultimately show ?thesis using length_del_all [OF assms(1) d s] by simp
qed

lemma rl_entries_check:
  "rl_entries (snd (check_rate_limit h rl ip now)) =
     (let es = rl_entries rl;
          es = (if map_of es ip = None \<and> MAX_ENTRIES \<le> length es
                then rl_evict_when_full h (window_duration rl) es now else es)
      in upd ip (the (map_of (rl_entries (snd (check_rate_limit h rl ip now))) ip)) es)"
  by (simp add: check_rate_limit_def Let_def)

lemma rl_config_check [simp]:
  "max_requests (snd (check_rate_limit h rl ip now)) = max_requests rl"
  "window_duration (snd (check_rate_limit h rl ip now)) = window_duration rl"
  by (simp_all add: check_rate_limit_def Let_def)

lemma distinct_rl_evict [simp]:
  "distinct (keys es) \<Longrightarrow> distinct (keys (rl_evict_when_full h window es now))"
  by (simp add: rl_evict_when_full_def evict_sampled_def rl_cleanup_expired_entries_def Let_def)

lemma length_rl_evict:
  assumes "distinct (keys es)" "length es \<le> MAX_ENTRIES"
  shows "length (rl_evict_when_full h window es now) < MAX_ENTRIES"
proof -
  define es' where "es' = rl_cleanup_expired_entries window es now"
  have d: "distinct (keys es')" and l: "length es' \<le> MAX_ENTRIES"
    using assms le_trans [OF length_filter_le]
    by (auto simp: es'_def rl_cleanup_expired_entries_def)
  have pos: "0 < LRU_EVICTION_COUNT" "LRU_EVICTION_COUNT \<le> MAX_ENTRIES"
    by (simp_all add: LRU_EVICTION_COUNT_def MAX_ENTRIES_def)
  show "length (rl_evict_when_full h window es now) < MAX_ENTRIES"
    using length_evict_all [OF d, of h rl_last_access] l pos
    by (auto simp: rl_evict_when_full_def es'_def [symmetric] Let_def not_less)
qed

definition rl_request :: "rate_limiter \<Rightarrow> (string \<Rightarrow> nat) \<times> string \<times> instant \<Rightarrow> rate_limiter" where
  "rl_request rl r = (case r of (h, ip, now) \<Rightarrow> snd (check_rate_limit h rl ip now))"

interpretation request_table: capacity_bounded rl_request rl_entries
proof (unfold_locales, goal_cases)
  case (1 s a)
  obtain h ip now where a: "a = (h, ip, now)" by (cases a)
  show ?case
    unfolding rl_request_def a prod.case
    by (subst rl_entries_check) (simp add: Let_def 1)
next
  case (2 s a)
  obtain h ip now where a: "a = (h, ip, now)" by (cases a)
  define es where "es = (if map_of (rl_entries s) ip = None \<and> MAX_ENTRIES \<le> length (rl_entries s)
    then rl_evict_when_full h (window_duration s) (rl_entries s) now else rl_entries s)"
  have "length es \<le> MAX_ENTRIES" and "ip \<notin> set (keys es) \<Longrightarrow> length es < MAX_ENTRIES"
    using length_rl_evict [OF 2, of h "window_duration s" now] 2
    by (auto simp: map_of_None_keys es_def)
  then show ?case
    unfolding rl_request_def a prod.case
    by (subst rl_entries_check) (auto simp: Let_def length_upd es_def [symmetric])
qed


section \<open>The quota of one window\<close>

text \<open>How many requests of \<open>ip\<close> a sequence of requests (of any clients) is granted.\<close>

fun admitted :: "string \<Rightarrow> rate_limiter \<Rightarrow> ((string \<Rightarrow> nat) \<times> string \<times> instant) list \<Rightarrow> nat" where
  "admitted ip rl [] = 0"
| "admitted ip rl ((h, i, now) # rs) =
     (let (ok, rl') = check_rate_limit h rl i now
      in (if ok \<and> i = ip then 1 else 0) + admitted ip rl' rs)"

definition requests_of :: "string \<Rightarrow> ((string \<Rightarrow> nat) \<times> string \<times> instant) list \<Rightarrow> nat" where
  "requests_of ip rs = length (filter (\<lambda>(_, i, _). i = ip) rs)"

lemma requests_of_simps [simp]:
  "requests_of ip [] = 0"
  "requests_of ip ((h, i, now) # rs) = (if i = ip then Suc (requests_of ip rs) else requests_of ip rs)"
  by (simp_all add: requests_of_def)

lemma check_other:
  assumes "i \<noteq> ip" "length (rl_entries rl) < MAX_ENTRIES"
  shows "map_of (rl_entries (snd (check_rate_limit h rl i now))) ip = map_of (rl_entries rl) ip"
  using assms by (subst rl_entries_check) (simp add: Let_def)

lemma check_length:
  "length (rl_entries rl) < MAX_ENTRIES \<Longrightarrow>
   length (rl_entries (snd (check_rate_limit h rl i now))) \<le> Suc (length (rl_entries rl))"
  by (subst rl_entries_check) (simp add: Let_def length_upd)

lemma check_live:
  assumes "map_of (rl_entries rl) ip = Some e" "now - window_start e < window_duration rl"
  shows "fst (check_rate_limit h rl ip now) \<longleftrightarrow> rl_count e < max_requests rl"
    and "map_of (rl_entries (snd (check_rate_limit h rl ip now))) ip =
      Some (e\<lparr>rl_count := (if rl_count e < max_requests rl then rl_count e + 1 else rl_count e),
              rl_last_access := now\<rparr>)"
  using assms by (auto simp: check_rate_limit_def Let_def not_less)

lemma check_fresh:
  assumes "map_of (rl_entries rl) ip = None" "length (rl_entries rl) < MAX_ENTRIES"
    "0 < window_duration rl"
  shows "fst (check_rate_limit h rl ip now) \<longleftrightarrow> 0 < max_requests rl"
    and "map_of (rl_entries (snd (check_rate_limit h rl ip now))) ip =
      Some \<lparr>rl_count = (if 0 < max_requests rl then 1 else 0), window_start = now, rl_last_access = now\<rparr>"
  using assms by (auto simp: check_rate_limit_def Let_def word_gt_0)

lemma admitted_in_live_window:
  assumes "map_of (rl_entries rl) ip = Some e" "rl_count e \<le> max_requests rl"
    and "length (rl_entries rl) + length rs \<le> MAX_ENTRIES"
    and "\<forall>(h, i, now) \<in> set rs. i = ip \<longrightarrow> now - window_start e < window_duration rl"
  shows "admitted ip rl rs = min (requests_of ip rs) (unat (max_requests rl) - unat (rl_count e))"
  using assms
proof (induction rs arbitrary: rl e)
  case Nil
  then show ?case by simp
next
  case (Cons r rs)
  obtain h i now where r: "r = (h, i, now)" by (cases r)
  define rl' where "rl' = snd (check_rate_limit h rl i now)"
  have len: "length (rl_entries rl) < MAX_ENTRIES" using Cons.prems(3) by simp
  have len': "length (rl_entries rl') + length rs \<le> MAX_ENTRIES"
    using check_length [OF len, of h i now] Cons.prems(3) by (simp add: rl'_def)
  have cfg: "max_requests rl' = max_requests rl" "window_duration rl' = window_duration rl"
    by (simp_all add: rl'_def)
  have unfold: "admitted ip rl (r # rs) =
      (if fst (check_rate_limit h rl i now) \<and> i = ip then 1 else 0) + admitted ip rl' rs"
    by (simp add: r rl'_def case_prod_unfold Let_def)
  show ?case
  proof (cases "i = ip")
    case False
    then have "map_of (rl_entries rl') ip = Some e"
      using check_other [OF False len] Cons.prems(1) by (simp add: rl'_def)
    then show ?thesis
      using Cons.IH [of rl' e] Cons.prems(2,4) len' cfg False unfolding unfold by (simp add: r)
  next
    case True
    have live: "now - window_start e < window_duration rl" using Cons.prems(4) True r by auto
    define e' where "e' = e\<lparr>rl_count := (if rl_count e < max_requests rl then rl_count e + 1
      else rl_count e), rl_last_access := now\<rparr>"
    have e': "map_of (rl_entries rl') ip = Some e'"
      using check_live(2) [OF Cons.prems(1) live] True by (simp add: rl'_def e'_def)
    have cnt: "rl_count e < max_requests rl \<Longrightarrow> unat (rl_count e + 1) = Suc (unat (rl_count e))"
      by (rule unat_add_one)
    have le: "rl_count e' \<le> max_requests rl'"
      using Cons.prems(2) by (auto simp: e'_def cfg word_le_nat_alt word_less_nat_alt cnt)
    have "admitted ip rl' rs = min (requests_of ip rs) (unat (max_requests rl) - unat (rl_count e'))"
      using Cons.IH [OF e' le len'] Cons.prems(4) cfg by (simp add: e'_def)
    then show ?thesis
      using check_live(1) [OF Cons.prems(1) live] True cnt unfolding unfold
      by (auto simp: r e'_def word_less_nat_alt)
  qed
qed

lemma admitted_fresh:
  assumes "map_of (rl_entries rl) ip = None"
    and "length (rl_entries rl) + length rs \<le> MAX_ENTRIES"
    and "\<forall>(h, i, now) \<in> set rs. i = ip \<longrightarrow> t0 \<le> now \<and> now < t0 + window_duration rl"
  shows "admitted ip rl rs = min (requests_of ip rs) (unat (max_requests rl))"
  using assms
proof (induction rs arbitrary: rl)
  case Nil
  then show ?case by simp
next
  case (Cons r rs)
  obtain h i now where r: "r = (h, i, now)" by (cases r)
  define rl' where "rl' = snd (check_rate_limit h rl i now)"
  have len: "length (rl_entries rl) < MAX_ENTRIES" using Cons.prems(2) by simp
  have len': "length (rl_entries rl') + length rs \<le> MAX_ENTRIES"
    using check_length [OF len, of h i now] Cons.prems(2) by (simp add: rl'_def)
  have cfg: "max_requests rl' = max_requests rl" "window_duration rl' = window_duration rl"
    by (simp_all add: rl'_def)
  have unfold: "admitted ip rl (r # rs) =
      (if fst (check_rate_limit h rl i now) \<and> i = ip then 1 else 0) + admitted ip rl' rs"
    by (simp add: r rl'_def case_prod_unfold Let_def)
  show ?case
  proof (cases "i = ip")
    case False
    then have "map_of (rl_entries rl') ip = None"
      using check_other [OF False len] Cons.prems(1) by (simp add: rl'_def)
    then show ?thesis
      using Cons.IH [of rl'] Cons.prems(3) len' cfg False unfolding unfold by (simp add: r)
  next
    case True
    have now: "t0 \<le> now" "now < t0 + window_duration rl" using Cons.prems(3) True r by auto
    then have w: "0 < window_duration rl" by simp
    note f = check_fresh [OF Cons.prems(1) len w, of h now]
    have "\<forall>(h, i, now') \<in> set rs. i = ip \<longrightarrow> now' - now < window_duration rl'"
      using Cons.prems(3) now cfg by fastforce
    then have "admitted ip rl' rs = min (requests_of ip rs)
        (unat (max_requests rl) - (if 0 < max_requests rl then 1 else 0))"
      using admitted_in_live_window [OF f(2) [folded True, folded rl'_def], of rs] len' cfg True
      by (auto simp: word_le_nat_alt word_less_nat_alt)
    then show ?thesis
      using f(1) True unfolding unfold by (auto simp: r word_less_nat_alt)
  qed
qed

text \<open>How often the entry of \<open>ip\<close> is dropped while requests of other clients are processed.\<close>

fun dropped :: "string \<Rightarrow> rate_limiter \<Rightarrow> ((string \<Rightarrow> nat) \<times> string \<times> instant) list \<Rightarrow> nat" where
  "dropped ip rl [] = 0"
| "dropped ip rl ((h, i, now) # rs) =
     (let rl' = snd (check_rate_limit h rl i now)
      in (if map_of (rl_entries rl) ip \<noteq> None \<and> map_of (rl_entries rl') ip = None then 1 else 0) + dropped ip rl' rs)"

lemma map_of_filter_distinct:
  "distinct (keys es) \<Longrightarrow> map_of (filter P es) k = map_of es k \<or> map_of (filter P es) k = None"
  by (induction es) (auto simp: map_of_None_keys keys_def)

lemma evict_only_drops:
  assumes "distinct (keys es)"
  shows "map_of (rl_evict_when_full h window es now) k = map_of es k \<or> map_of (rl_evict_when_full h window es now) k = None"
proof -
  have "map_of (evict_sampled h rl_last_access p xs) k = map_of xs k \<or> map_of (evict_sampled h rl_last_access p xs) k = None" for p xs
    by (simp add: evict_sampled_def Let_def map_of_del_all)
  note * = this [of "\<lambda>_. True" "filter (\<lambda>(_, e). now - window_start e < window) es"]
    map_of_filter_distinct [OF assms, of "\<lambda>(_, e). now - window_start e < window" k]
  show ?thesis
    unfolding rl_evict_when_full_def rl_cleanup_expired_entries_def Let_def using * by auto
qed

lemma check_other_drops:
  assumes "i \<noteq> ip" "distinct (keys (rl_entries rl))"
  shows "map_of (rl_entries (snd (check_rate_limit h rl i now))) ip = map_of (rl_entries rl) ip \<or>
    map_of (rl_entries (snd (check_rate_limit h rl i now))) ip = None"
  using assms evict_only_drops [OF assms(2)] by (subst (1 2) rl_entries_check) (simp add: Let_def)

lemma check_new_entry:
  assumes "map_of (rl_entries rl) ip = None" "distinct (keys (rl_entries rl))" "0 < window_duration rl"
  shows "fst (check_rate_limit h rl ip now) \<longleftrightarrow> 0 < max_requests rl"
    and "map_of (rl_entries (snd (check_rate_limit h rl ip now))) ip =
      Some \<lparr>rl_count = (if 0 < max_requests rl then 1 else 0), window_start = now, rl_last_access = now\<rparr>"
proof -
  have "map_of (rl_evict_when_full h (window_duration rl) (rl_entries rl) now) ip = None"
    using evict_only_drops [OF assms(2), of h "window_duration rl" now ip] assms(1) by simp
  with assms show "fst (check_rate_limit h rl ip now) \<longleftrightarrow> 0 < max_requests rl"
    "map_of (rl_entries (snd (check_rate_limit h rl ip now))) ip =
      Some \<lparr>rl_count = (if 0 < max_requests rl then 1 else 0), window_start = now, rl_last_access = now\<rparr>"
    by (auto simp: check_rate_limit_def Let_def word_gt_0)
qed

text \<open>What is left of the quota of \<open>ip\<close>.\<close>

definition quota_left :: "string \<Rightarrow> rate_limiter \<Rightarrow> nat" where
  "quota_left ip rl = (case map_of (rl_entries rl) ip of
     None \<Rightarrow> unat (max_requests rl) | Some e \<Rightarrow> unat (max_requests rl) - unat (rl_count e))"

definition in_window :: "instant \<Rightarrow> string \<Rightarrow> rate_limiter \<Rightarrow> bool" where
  "in_window t0 ip rl \<longleftrightarrow> distinct (keys (rl_entries rl)) \<and>
     (\<forall>e. map_of (rl_entries rl) ip = Some e \<longrightarrow> t0 \<le> window_start e)"

lemma in_window_step:
  assumes "in_window t0 ip rl" "i = ip \<Longrightarrow> t0 \<le> now \<and> now < t0 + window_duration rl"
  shows "in_window t0 ip (snd (check_rate_limit h rl i now)) \<and>
    (if fst (check_rate_limit h rl i now) \<and> i = ip then 1 else 0) + quota_left ip (snd (check_rate_limit h rl i now)) \<le>
      quota_left ip rl + (if map_of (rl_entries rl) ip \<noteq> None \<and> map_of (rl_entries (snd (check_rate_limit h rl i now))) ip = None
        then unat (max_requests rl) else 0)"
proof -
  define rl' where "rl' = snd (check_rate_limit h rl i now)"
  have d: "distinct (keys (rl_entries rl))" using assms(1) by (simp add: in_window_def)
  have d': "distinct (keys (rl_entries rl'))"
    using request_table.op_distinct [of rl "(h, i, now)"] d by (simp add: rl_request_def rl'_def)
  have m: "max_requests rl' = max_requests rl" by (simp add: rl'_def)
  show ?thesis
  proof (cases "i = ip")
    case False
    with check_other_drops [OF False d, of h now] show ?thesis
      using assms(1) d' unfolding rl'_def [symmetric] in_window_def quota_left_def m by auto
  next
    case True
    have now: "t0 \<le> now" "now < t0 + window_duration rl" using assms(2) True by auto
    show ?thesis
    proof (cases "map_of (rl_entries rl) ip")
      case None
      have w: "0 < window_duration rl" using now by simp
      have "fst (check_rate_limit h rl i now) \<longleftrightarrow> 0 < max_requests rl"
        "map_of (rl_entries rl') ip =
           Some \<lparr>rl_count = (if 0 < max_requests rl then 1 else 0), window_start = now, rl_last_access = now\<rparr>"
        using check_new_entry [OF None d w, of h now] True by (simp_all add: rl'_def)
      then show ?thesis
        using d' now None unfolding rl'_def [symmetric] in_window_def quota_left_def m by (auto simp: word_less_nat_alt)
    next
      case (Some e)
      have live: "now - window_start e < window_duration rl"
        using now assms(1) Some by (auto simp: in_window_def)
      have c: "rl_count e < max_requests rl \<Longrightarrow> unat (rl_count e + 1) = Suc (unat (rl_count e))"
        by (rule unat_add_one)
      have "fst (check_rate_limit h rl i now) \<longleftrightarrow> rl_count e < max_requests rl"
        "map_of (rl_entries rl') ip = Some (e\<lparr>rl_count := (if rl_count e < max_requests rl then rl_count e + 1 else rl_count e),
              rl_last_access := now\<rparr>)"
        using check_live [OF Some live, of h] True by (simp_all add: rl'_def)
      then show ?thesis
        using d' assms(1) Some c unfolding rl'_def [symmetric] in_window_def quota_left_def m by (auto simp: word_less_nat_alt)
    qed
  qed
qed

lemma admitted_bound:
  assumes "in_window t0 ip rl" "\<forall>(h, i, now) \<in> set rs. i = ip \<longrightarrow> t0 \<le> now \<and> now < t0 + window_duration rl"
  shows "admitted ip rl rs \<le> quota_left ip rl + dropped ip rl rs * unat (max_requests rl)"
  using assms
proof (induction rs arbitrary: rl)
  case (Cons r rs)
  obtain h i now where r: "r = (h, i, now)" by (cases r)
  define rl' where "rl' = snd (check_rate_limit h rl i now)"
  have step: "in_window t0 ip rl'" "(if fst (check_rate_limit h rl i now) \<and> i = ip then 1 else 0) + quota_left ip rl' \<le>
      quota_left ip rl + (if map_of (rl_entries rl) ip \<noteq> None \<and> map_of (rl_entries rl') ip = None then unat (max_requests rl) else 0)"
    using in_window_step [OF Cons.prems(1), of i now h] Cons.prems(2) unfolding rl'_def [symmetric] by (auto simp: r)
  have "admitted ip rl' rs \<le> quota_left ip rl' + dropped ip rl' rs * unat (max_requests rl)"
    using Cons.IH [OF step(1)] Cons.prems(2) by (simp add: rl'_def)
  moreover have "admitted ip rl (r # rs) = (if fst (check_rate_limit h rl i now) \<and> i = ip then 1 else 0) + admitted ip rl' rs"
    "dropped ip rl (r # rs) = (if map_of (rl_entries rl) ip \<noteq> None \<and> map_of (rl_entries rl') ip = None then 1 else 0) + dropped ip rl' rs"
    by (simp_all add: r rl'_def case_prod_unfold Let_def)
  ultimately show ?case using step(2) by (auto simp: algebra_simps split: if_splits)
qed simp

lemma dropped_none:
  "length (rl_entries rl) + length rs \<le> MAX_ENTRIES \<Longrightarrow> dropped ip rl rs = 0"
proof (induction rs arbitrary: rl)
  case (Cons r rs)
  obtain h i now where r: "r = (h, i, now)" by (cases r)
  have len: "length (rl_entries rl) < MAX_ENTRIES" using Cons.prems by simp
  have "map_of (rl_entries (snd (check_rate_limit h rl ip now))) ip \<noteq> None"
    by (subst rl_entries_check) (simp add: Let_def)
  then have "map_of (rl_entries rl) ip \<noteq> None \<Longrightarrow> map_of (rl_entries (snd (check_rate_limit h rl i now))) ip \<noteq> None"
    using check_other [OF _ len, of i ip h now] by (cases "i = ip") auto
  moreover have "dropped ip (snd (check_rate_limit h rl i now)) rs = 0"
    using Cons.IH [of "snd (check_rate_limit h rl i now)"] check_length [OF len, of h i now] Cons.prems by simp
  ultimately show ?case by (cases "map_of (rl_entries rl) ip") (auto simp: r Let_def)
qed simp


section \<open>Backoff\<close>

lemma distinct_af_evict [simp]:
  "distinct (keys es) \<Longrightarrow> distinct (keys (af_evict_when_full h es now))"
  by (simp add: af_evict_when_full_def evict_sampled_def af_cleanup_expired_entries_def Let_def)

lemma map_of_filter_keep:
  assumes "map_of es k = Some e" "P (k, e)"
  shows "map_of (filter P es) k = Some e"
  using assms by (induction es) (auto split: if_splits)

lemma in_backoff_iff: "in_backoff now e \<longleftrightarrow> (\<exists>b. backoff_until e = Some b \<and> now < b)"
  by (auto simp: in_backoff_def split: option.splits)

lemma af_evict_keeps_backoff:
  assumes "distinct (keys es)" "map_of es ip = Some e" "in_backoff now e"
  shows "map_of (af_evict_when_full h es now) ip = Some e"
proof -
  define es' where "es' = af_cleanup_expired_entries es now"
  have d: "distinct (keys es')" using assms(1) by (simp add: es'_def af_cleanup_expired_entries_def)
  have m: "map_of es' ip = Some e"
    unfolding es'_def af_cleanup_expired_entries_def
    by (rule map_of_filter_keep [OF assms(2)]) (simp add: assms(3))
  have "\<not> (case backoff_until e of Some b \<Rightarrow> b \<le> now | None \<Rightarrow> True)"
    using assms(3) by (auto simp: in_backoff_iff)
  then show ?thesis
    using map_of_evict_sampled [OF d m, of "\<lambda>e. case backoff_until e of Some b \<Rightarrow> b \<le> now | None \<Rightarrow> True"]
      assms(2) m by (simp add: af_evict_when_full_def es'_def [symmetric] Let_def)
qed

text \<open>A failure recorded for an IP that is not in backoff, when no eviction is due.\<close>

lemma record_failure_counts:
  assumes "map_of es ip = Some e" "\<not> in_backoff now e"
  shows "record_failure h es ip now =
    (let f = failure_count e + 1
     in if AUTH_FAILURE_THRESHOLD \<le> f
        then (False, upd ip (e\<lparr>failure_count := f, af_last_access := now,
                backoff_until := Some (now + secs (unat (backoff_seconds (f - AUTH_FAILURE_THRESHOLD))))\<rparr>) es)
        else (True, upd ip (e\<lparr>failure_count := f, af_last_access := now, backoff_until := None\<rparr>) es))"
proof -
  have "\<not> in_backoff now (e\<lparr>af_last_access := now\<rparr>)"
    using assms(2) by (simp add: in_backoff_def)
  then show ?thesis
    using assms(1) by (cases e) (simp add: record_failure_def Let_def)
qed

lemma backoff_seconds_small:
  assumes "unat x \<le> 61"
  shows "unat (backoff_seconds x) = min (60 * 2 ^ unat x) 600"
proof -
  have "\<forall>k \<in> set [0..<62]. min ((60 * 2 ^ k) mod 2 ^ 64) 600 = min (60 * 2 ^ k) (600 :: nat)"
    by (simp add: upt_rec)
  moreover have "unat x \<in> set [0..<62]" using assms by simp
  ultimately have m: "min ((60 * 2 ^ unat x) mod 2 ^ 64) 600 = min (60 * 2 ^ unat x) (600 :: nat)"
    by blast
  have "(60 * 2 ^ unat x :: u64) = of_nat (60 * 2 ^ unat x)" by simp
  then have "unat (60 * 2 ^ unat x :: u64) = (60 * 2 ^ unat x) mod 2 ^ 64"
    by (simp only: unat_of_nat) simp
  moreover have "unat (min a b) = min (unat a) (unat b)" for a b :: u64
    by (simp add: min_def word_le_nat_alt)
  ultimately show ?thesis
    using m by (simp add: backoff_seconds_def AUTH_BACKOFF_BASE_SECONDS_def MAX_AUTH_BACKOFF_SECONDS_def)
qed

lemma backoff_seconds_wrapped:
  assumes "62 \<le> unat x"
  shows "backoff_seconds x = 0"
proof -
  have zero: "(2 :: u64) ^ 64 = 0" by (simp add: exp_eq_zero_iff)
  obtain k where k: "unat x = 62 + k" using assms le_Suc_ex by blast
  have "(60 :: u64) * 2 ^ unat x = 15 * (2 ^ 64 * 2 ^ k)"
    unfolding k power_add by simp
  also have "\<dots> = 0"
    using zero by (simp only: mult_zero_left mult_zero_right)
  finally show ?thesis
    by (simp add: backoff_seconds_def AUTH_BACKOFF_BASE_SECONDS_def)
qed


lemma threshold_exponent:
  assumes "AUTH_FAILURE_THRESHOLD \<le> f" "unat f = Suc n"
  shows "unat (f - AUTH_FAILURE_THRESHOLD) = n - 4"
  using unat_sub [OF assms(1)] assms(2) by (simp add: AUTH_FAILURE_THRESHOLD_def)


section \<open>Properties\<close>

text \<open>
  Memory stays bounded. However many clients send however many requests, in whatever order the
  hash table is iterated, the request limiter never holds more than \<open>MAX_ENTRIES\<close> entries, and
  never two for one IP.
\<close>

theorem rate_limiter_bounded:
  "length (rl_entries (foldl rl_request (rate_limiter_new mx window) rs)) \<le> MAX_ENTRIES \<and>
   distinct (keys (rl_entries (foldl rl_request (rate_limiter_new mx window) rs)))"
  using request_table.wf_run [of "rate_limiter_new mx window" rs]
  by (simp add: request_table.wf_tab_def rate_limiter_new_def)

text \<open>
  C26: the quota of one window. Requests of any number of clients are processed in any order, from a table that holds no
  entry of \<open>ip\<close>, and those of \<open>ip\<close> fall into one window. Then \<open>ip\<close> is granted at most \<open>max_requests\<close> requests, and
  as many again each time its entry is dropped because other clients fill the table. If the table
  does not reach its capacity, exactly the first \<open>max_requests\<close> requests of \<open>ip\<close> are granted and all later ones are refused.
\<close>

theorem window_quota:
  assumes "distinct (keys (rl_entries rl))" "map_of (rl_entries rl) ip = None"
    and "\<forall>(h, i, now) \<in> set rs. i = ip \<longrightarrow> t0 \<le> now \<and> now < t0 + window_duration rl"
  shows "admitted ip rl rs \<le> (1 + dropped ip rl rs) * unat (max_requests rl) \<and>
    (length (rl_entries rl) + length rs \<le> MAX_ENTRIES \<longrightarrow>
       dropped ip rl rs = 0 \<and> admitted ip rl rs = min (requests_of ip rs) (unat (max_requests rl)))"
proof -
  have "in_window t0 ip rl" using assms(1,2) by (simp add: in_window_def)
  from admitted_bound [OF this assms(3)] show ?thesis
    using assms(2) dropped_none admitted_fresh [OF assms(2) _ assms(3)] by (auto simp: quota_left_def)
qed

theorem window_quota_witness:
  "admitted ''a'' (rate_limiter_new 2 60)
     [(\<lambda>_. 0, ''a'', 5), (\<lambda>_. 0, ''b'', 5), (\<lambda>_. 0, ''a'', 7), (\<lambda>_. 0, ''a'', 60)] = 2"
  using window_quota [of "rate_limiter_new 2 60" "''a''"
      "[(\<lambda>_. 0, ''a'', 5), (\<lambda>_. 0, ''b'', 5), (\<lambda>_. 0, ''a'', 7), (\<lambda>_. 0, ''a'', 60)]" 5]
  by (simp add: rate_limiter_new_def MAX_ENTRIES_def)

text \<open>
  The backoff schedule. A failure recorded for an IP that is not in backoff and has fewer than
  66 failures is let through to a 401 exactly while the count stays below five; from the fifth
  failure on the IP is blocked for 60, 120, 240, 480 and then always 600 seconds.
\<close>

theorem record_failure_schedule:
  assumes "map_of es ip = Some e" "\<not> in_backoff now e" "unat (failure_count e) < 66"
  shows "(fst (record_failure h es ip now) \<longleftrightarrow> unat (failure_count e) + 1 < 5) \<and>
    (is_blocked (snd (record_failure h es ip now)) ip t \<longleftrightarrow>
       5 \<le> unat (failure_count e) + 1 \<and>
       t < now + secs (min (60 * 2 ^ (unat (failure_count e) - 4)) 600))"
proof -
  have "failure_count e < 66" using assms(3) by (simp add: word_less_nat_alt)
  then have f: "unat (failure_count e + 1) = Suc (unat (failure_count e))" by (rule unat_add_one)
  have le: "AUTH_FAILURE_THRESHOLD \<le> failure_count e + 1 \<longleftrightarrow> 5 \<le> Suc (unat (failure_count e))"
    by (simp add: AUTH_FAILURE_THRESHOLD_def word_le_nat_alt f)
  have sub: "AUTH_FAILURE_THRESHOLD \<le> failure_count e + 1 \<Longrightarrow>
      unat (failure_count e + 1 - AUTH_FAILURE_THRESHOLD) = unat (failure_count e) - 4"
    by (rule threshold_exponent [OF _ f])
  show ?thesis
    unfolding record_failure_counts [OF assms(1,2)] Let_def
    using sub backoff_seconds_small [of "failure_count e + 1 - AUTH_FAILURE_THRESHOLD"] assms(3)
    by (auto simp: is_blocked_def in_backoff_def le)
qed

theorem record_failure_schedule_witness:
  "is_blocked (snd (record_failure (\<lambda>_. 0)
      [(''x'', \<lparr>failure_count = 5, backoff_until = Some 7, af_last_access = 0\<rparr>)] ''x'' 9)) ''x'' 100"
  using record_failure_schedule [of "[(''x'', \<lparr>failure_count = 5, backoff_until = Some 7, af_last_access = 0\<rparr>)]"
      "''x''" "\<lparr>failure_count = 5, backoff_until = Some 7, af_last_access = 0\<rparr>" 9 "\<lambda>_. 0" 100]
  by (simp add: in_backoff_def secs_def)

text \<open>
  C28: the backoff vanishes. The product \<open>60 * 2^exponent\<close> is computed in 64 bits; from the 67th
  failure on it is zero, so a failing client is not blocked at all, not even at the instant of the
  failure.
\<close>

theorem backoff_wraps_to_zero:
  assumes "map_of es ip = Some e" "\<not> in_backoff now e"
    and "66 \<le> unat (failure_count e)" "unat (failure_count e) < 2 ^ 32 - 1" "now \<le> t"
  shows "\<not> is_blocked (snd (record_failure h es ip now)) ip t"
proof -
  have "failure_count e < - 1"
    using assms(4) by (simp add: word_less_nat_alt unsigned_minus_1_eq_mask mask_eq_exp_minus_1)
  then have f: "unat (failure_count e + 1) = Suc (unat (failure_count e))" by (rule unat_add_one)
  have le: "AUTH_FAILURE_THRESHOLD \<le> failure_count e + 1"
    using assms(3) by (simp add: AUTH_FAILURE_THRESHOLD_def word_le_nat_alt f)
  then have "unat (failure_count e + 1 - AUTH_FAILURE_THRESHOLD) = unat (failure_count e) - 4"
    by (rule threshold_exponent) (rule f)
  then have "backoff_seconds (failure_count e + 1 - AUTH_FAILURE_THRESHOLD) = 0"
    using assms(3) by (intro backoff_seconds_wrapped) simp
  then show ?thesis
    unfolding record_failure_counts [OF assms(1,2)] Let_def
    using le assms(5) by (simp add: is_blocked_def in_backoff_def secs_def)
qed

theorem backoff_wraps_to_zero_witness:
  "\<not> is_blocked (snd (record_failure (\<lambda>_. 0)
      [(''x'', \<lparr>failure_count = 66, backoff_until = Some 7, af_last_access = 0\<rparr>)] ''x'' 9)) ''x'' 9"
  using backoff_wraps_to_zero [of "[(''x'', \<lparr>failure_count = 66, backoff_until = Some 7, af_last_access = 0\<rparr>)]"
      "''x''" "\<lparr>failure_count = 66, backoff_until = Some 7, af_last_access = 0\<rparr>" 9 9 "\<lambda>_. 0"]
  by (simp add: in_backoff_def)

text \<open>
  a penalty cannot be flushed by flooding. While an IP is blocked, failures recorded for any
  other IP, including those that find the table full and evict entries, leave its entry untouched.
\<close>

theorem blocked_entry_survives:
  assumes "distinct (keys es)" "is_blocked es ip now" "ip' \<noteq> ip"
  shows "map_of (snd (record_failure h es ip' now)) ip = map_of es ip"
proof -
  obtain e where e: "map_of es ip = Some e" "in_backoff now e"
    using assms(2) by (auto simp: is_blocked_def split: option.splits)
  then have "map_of (af_evict_when_full h es now) ip = Some e"
    using assms(1) by (intro af_evict_keeps_backoff)
  then show ?thesis
    using e assms(3) by (simp add: record_failure_def Let_def)
qed

theorem blocked_entry_survives_witness:
  "map_of (snd (record_failure (\<lambda>_. 0)
      [(''x'', \<lparr>failure_count = 5, backoff_until = Some 7, af_last_access = 0\<rparr>)] ''y'' 3)) ''x''
   = Some \<lparr>failure_count = 5, backoff_until = Some 7, af_last_access = 0\<rparr>"
  using blocked_entry_survives [of "[(''x'', \<lparr>failure_count = 5, backoff_until = Some 7, af_last_access = 0\<rparr>)]"
      "''x''" 3 "''y''" "\<lambda>_. 0"]
  by (simp add: is_blocked_def in_backoff_def)

text \<open>
  The failure table is not bounded by \<open>MAX_ENTRIES\<close>. When every entry of a full table is in
  backoff, nothing can be evicted and the failure of a new IP is added on top.
\<close>

theorem auth_table_overflows:
  assumes "MAX_ENTRIES \<le> length es" "\<forall>(k, e) \<in> set es. in_backoff now e" "map_of es ip = None"
  shows "length (snd (record_failure h es ip now)) = Suc (length es)"
proof -
  have c: "af_cleanup_expired_entries es now = es"
    using assms(2) by (auto simp: af_cleanup_expired_entries_def filter_id_conv)
  have "filter (\<lambda>(_, e). case backoff_until e of Some b \<Rightarrow> b \<le> now | None \<Rightarrow> True) (hash_iter h es) = []"
    using assms(2) by (fastforce simp: filter_empty_conv in_backoff_iff)
  then have "evict_sampled h af_last_access
      (\<lambda>e. case backoff_until e of Some b \<Rightarrow> b \<le> now | None \<Rightarrow> True) es = es"
    by (simp add: evict_sampled_def del_all_def)
  then have "af_evict_when_full h es now = es"
    using c by (simp add: af_evict_when_full_def)
  then show ?thesis
    using assms(1,3) by (simp add: record_failure_def Let_def length_upd map_of_None_keys in_backoff_def)
qed

theorem auth_table_overflows_witness:
  "length (snd (record_failure (\<lambda>_. 0)
     (map (\<lambda>n. (replicate n CHR ''a'', \<lparr>failure_count = 5, backoff_until = Some 9, af_last_access = 0\<rparr>))
        [0..<MAX_ENTRIES]) ''b'' 3)) = Suc MAX_ENTRIES"
proof -
  have "''b'' \<notin> range (\<lambda>n. replicate n CHR ''a'')"
    by (auto simp: Cons_replicate_eq)
  then have "map_of (map (\<lambda>n. (replicate n CHR ''a'',
      \<lparr>failure_count = 5, backoff_until = Some 9, af_last_access = 0\<rparr>)) [0..<MAX_ENTRIES]) ''b'' = None"
    by (auto simp: map_of_eq_None_iff)
  then show ?thesis
    using auth_table_overflows [of "map (\<lambda>n. (replicate n CHR ''a'',
      \<lparr>failure_count = 5, backoff_until = Some 9, af_last_access = 0\<rparr>)) [0..<MAX_ENTRIES]" 3 "''b''" "\<lambda>_. 0"]
    by (auto simp: in_backoff_def)
qed

end
