(* ===== verification/Server_Auth.thy ===== *)
theory Server_Auth
  imports Rate_Limit Core_Types
begin

text \<open>
  Publisher identities, the API key file and the authentication middleware
  (\<open>crates/deltaship-server/src/state.rs\<close> and \<open>auth.rs\<close>). The \<open>argon2\<close> and \<open>hex\<close> crates are the
  parameters \<open>phc_valid\<close> (a string parses as a PHC hash), \<open>verify_password\<close> (a key matches a hash)
  and \<open>hex_decode\<close>.
\<close>

datatype status_code =
    OK | BAD_REQUEST | UNAUTHORIZED | FORBIDDEN | NOT_FOUND | PAYLOAD_TOO_LARGE
  | TOO_MANY_REQUESTS | INTERNAL_SERVER_ERROR


section \<open>Publishers\<close>

record publisher =
  owner :: string
  allowed_apps :: "string list option"
  pubkey :: "bytes option"

definition can_publish :: "publisher \<Rightarrow> string \<Rightarrow> bool" where
  "can_publish p app_name =
     (case allowed_apps p of None \<Rightarrow> True | Some apps \<Rightarrow> app_name \<in> set apps)"

text \<open>One \<open>key=value\<close> token of the metadata.\<close>

definition meta_token :: "(string \<Rightarrow> bytes option) \<Rightarrow> string \<Rightarrow> publisher \<Rightarrow> publisher" where
  "meta_token hex_decode token p =
     (case split_once (CHR ''='') token of
        None \<Rightarrow> p
      | Some (key, value) \<Rightarrow>
          let k = to_lowercase key in
          if k = ''owner'' then p\<lparr>owner := value\<rparr>
          else if k = ''apps'' then
            (if value = ''*'' then p\<lparr>allowed_apps := None\<rparr>
             else p\<lparr>allowed_apps :=
                      Some (filter (\<lambda>s. s \<noteq> []) (map trim (split_char (CHR '','') value)))\<rparr>)
          else if k = ''pubkey'' then
            (case hex_decode value of
               Some bs \<Rightarrow> if length bs = 32 then p\<lparr>pubkey := Some bs\<rparr> else p
             | None \<Rightarrow> p)
          else p)"

definition parse_publisher_meta :: "(string \<Rightarrow> bytes option) \<Rightarrow> string \<Rightarrow> publisher" where
  "parse_publisher_meta hex_decode meta =
     (let p = fold (meta_token hex_decode) (split_whitespace meta)
                \<lparr>owner = ''unknown'', allowed_apps = Some [], pubkey = None\<rparr>
      in case allowed_apps p of
           Some [] \<Rightarrow> if contains_str (to_lowercase meta) ''apps='' then p else p\<lparr>allowed_apps := None\<rparr>
         | _ \<Rightarrow> p)"

text \<open>\<open>splitn(2, char::is_whitespace)\<close>: the text before the first whitespace, and after it.\<close>

definition splitn2 :: "string \<Rightarrow> string \<times> string" where
  "splitn2 s = (takeWhile (\<lambda>c. \<not> is_whitespace c) s, tl (dropWhile (\<lambda>c. \<not> is_whitespace c) s))"

definition api_key_line ::
  "(string \<Rightarrow> bool) \<Rightarrow> (string \<Rightarrow> bytes option) \<Rightarrow> string
   \<Rightarrow> (string \<times> publisher) list \<Rightarrow> (string \<times> publisher) list" where
  "api_key_line phc_valid hex_decode raw_line publishers =
     (let line = trim raw_line in
      if line = [] \<or> starts_with line ''#'' then publishers
      else let hash = trim (fst (splitn2 line)); meta = trim (snd (splitn2 line)) in
        if \<not> starts_with hash ''$argon2id$'' \<or> \<not> phc_valid hash then publishers
        else upd hash
          (if meta = [] then \<lparr>owner = ''admin'', allowed_apps = None, pubkey = None\<rparr>
           else parse_publisher_meta hex_decode meta) publishers)"

text \<open>\<open>load_api_keys\<close>: \<open>None\<close> is a file that does not exist or cannot be read.\<close>

definition load_api_keys ::
  "(string \<Rightarrow> bool) \<Rightarrow> (string \<Rightarrow> bytes option) \<Rightarrow> string option \<Rightarrow> (string \<times> publisher) list" where
  "load_api_keys phc_valid hex_decode contents =
     (case contents of
        None \<Rightarrow> []
      | Some c \<Rightarrow> fold (api_key_line phc_valid hex_decode) (split_char (CHR 0x0A) c) [])"


section \<open>Application state and the middleware\<close>

record app_state =
  api_keys :: "string list"
  publishers :: "(string \<times> publisher) list"
  auth_failure_limiter :: auth_failure_limiter
  trust_proxy :: bool

definition app_state_with_options ::
  "(string \<Rightarrow> bool) \<Rightarrow> (string \<Rightarrow> bytes option) \<Rightarrow> string option \<Rightarrow> bool \<Rightarrow> app_state" where
  "app_state_with_options phc_valid hex_decode contents trust =
     (let ps = load_api_keys phc_valid hex_decode contents
      in \<lparr>api_keys = keys ps, publishers = ps, auth_failure_limiter = [], trust_proxy = trust\<rparr>)"

definition DUMMY_HASH :: string where
  "DUMMY_HASH = ''$argon2id$v=19$m=19456,t=2,p=1$c29tZXNhbHQxMjM0NTY3ODkwMTIzNDU2Nzg5MDEyMzQ1Njc$YWJjZGVmZ2hpamtsbW5vcHFyc3R1dnd4eXoxMjM0NTY3ODk''"

text \<open>\<open>verify_api_key\<close>: every stored hash is tried; the last one that matches is returned.\<close>

definition verify_api_key ::
  "(string \<Rightarrow> bool) \<Rightarrow> (string \<Rightarrow> string \<Rightarrow> bool) \<Rightarrow> string \<Rightarrow> string list \<Rightarrow> string option" where
  "verify_api_key phc_valid verify_password key hashes =
     fold (\<lambda>hash matched.
         let parsed = (if phc_valid hash then hash else DUMMY_HASH)
         in if verify_password key parsed then Some hash else matched) hashes None"

text \<open>
  \<open>require_api_key\<close>: \<open>Inl\<close> is the refusal, \<open>Inr\<close> the publisher attached to the request handed on.
  The state returned has the limiter as the middleware leaves it.
\<close>

definition require_api_key ::
  "(string \<Rightarrow> bool) \<Rightarrow> (string \<Rightarrow> string \<Rightarrow> bool) \<Rightarrow> (string \<Rightarrow> nat) \<Rightarrow> app_state
   \<Rightarrow> string \<Rightarrow> string option \<Rightarrow> string option \<Rightarrow> instant \<Rightarrow> (status_code + publisher) \<times> app_state" where
  "require_api_key phc_valid verify_password h state addr_ip xff api_key now =
     (let ip = client_ip addr_ip xff (trust_proxy state) in
      if is_blocked (auth_failure_limiter state) ip now then (Inl TOO_MANY_REQUESTS, state)
      else case Option.bind api_key (\<lambda>key. verify_api_key phc_valid verify_password key (api_keys state)) of
        Some hash \<Rightarrow>
          let pub = (case map_of (publishers state) hash of
                       Some p \<Rightarrow> p
                     | None \<Rightarrow> \<lparr>owner = ''unknown'', allowed_apps = Some [], pubkey = None\<rparr>)
          in (Inr pub,
              state\<lparr>auth_failure_limiter := record_success (auth_failure_limiter state) ip now\<rparr>)
      | None \<Rightarrow>
          let (ok, l) = record_failure h (auth_failure_limiter state) ip now;
              state' = state\<lparr>auth_failure_limiter := l\<rparr>
          in if ok then (Inl UNAUTHORIZED, state') else (Inl TOO_MANY_REQUESTS, state'))"


section \<open>Lemmas\<close>

lemma verify_api_key_aux:
  "fold (\<lambda>hash matched. if P hash then Some hash else matched) hs m = Some k \<Longrightarrow>
   m = Some k \<or> k \<in> set hs \<and> P k"
  by (induction hs arbitrary: m) (fastforce split: if_splits)+

lemma verify_api_key_aux_None:
  "fold (\<lambda>hash matched. if P hash then Some hash else matched) hs m = None \<longleftrightarrow>
   m = None \<and> (\<forall>k \<in> set hs. \<not> P k)"
  by (induction hs arbitrary: m) auto

lemma verify_api_key_Some:
  assumes "verify_api_key phc vp key hs = Some k"
  shows "k \<in> set hs \<and> vp key (if phc k then k else DUMMY_HASH)"
  using verify_api_key_aux [of "\<lambda>k. vp key (if phc k then k else DUMMY_HASH)" hs None k] assms
  by (simp add: verify_api_key_def Let_def)

lemma verify_api_key_None:
  "verify_api_key phc vp key hs = None \<longleftrightarrow> (\<forall>k \<in> set hs. \<not> vp key (if phc k then k else DUMMY_HASH))"
  by (simp add: verify_api_key_def Let_def verify_api_key_aux_None)

lemma api_key_line_keys:
  assumes "k \<in> set (keys (api_key_line phc hx l ps))"
  shows "k \<in> set (keys ps) \<or> phc k \<and> starts_with k ''$argon2id$''"
  using assms by (auto simp: api_key_line_def Let_def keys_upd split: if_splits)

lemma load_api_keys_hashes:
  assumes "k \<in> set (keys (load_api_keys phc hx contents))"
  shows "phc k \<and> starts_with k ''$argon2id$''"
proof -
  have "k \<in> set (keys (fold (api_key_line phc hx) ls ps)) \<Longrightarrow>
      k \<in> set (keys ps) \<or> phc k \<and> starts_with k ''$argon2id$''" for ls ps
  proof (induction ls arbitrary: ps)
    case (Cons l ls)
    then show ?case using api_key_line_keys [of k phc hx l ps] by auto
  qed simp
  then show ?thesis
    using assms by (cases contents) (fastforce simp: load_api_keys_def)+
qed

text \<open>The identities of a state built at start-up: every key has one, and its hash is valid.\<close>

definition wf_state :: "(string \<Rightarrow> bool) \<Rightarrow> app_state \<Rightarrow> bool" where
  "wf_state phc st \<longleftrightarrow> set (api_keys st) = set (keys (publishers st)) \<and>
     (\<forall>k \<in> set (api_keys st). phc k \<and> starts_with k ''$argon2id$'')"

lemma wf_state_with_options: "wf_state phc (app_state_with_options phc hx contents trust)"
  using load_api_keys_hashes [of _ phc hx contents]
  by (auto simp: wf_state_def app_state_with_options_def Let_def)

lemma require_api_key_config [simp]:
  "api_keys (snd (require_api_key phc vp h st a x k now)) = api_keys st"
  "publishers (snd (require_api_key phc vp h st a x k now)) = publishers st"
  by (simp_all add: require_api_key_def Let_def split: option.splits prod.splits)

lemma wf_require_api_key: "wf_state phc st \<Longrightarrow> wf_state phc (snd (require_api_key phc vp h st a x k now))"
  by (simp add: wf_state_def)

lemma require_api_key_sound:
  assumes "wf_state phc st" "require_api_key phc vp h st addr xff key now = (Inr pub, st')"
  shows "\<exists>k hash. key = Some k \<and> phc hash \<and> starts_with hash ''$argon2id$'' \<and> vp k hash \<and>
     map_of (publishers st) hash = Some pub \<and>
     \<not> is_blocked (auth_failure_limiter st) (client_ip addr xff (trust_proxy st)) now"
proof -
  obtain k hash where k: "key = Some k" "verify_api_key phc vp k (api_keys st) = Some hash"
    and nb: "\<not> is_blocked (auth_failure_limiter st) (client_ip addr xff (trust_proxy st)) now"
    and pub: "pub = (case map_of (publishers st) hash of Some p \<Rightarrow> p
        | None \<Rightarrow> \<lparr>owner = ''unknown'', allowed_apps = Some [], pubkey = None\<rparr>)"
    using assms(2) by (auto simp: require_api_key_def Let_def bind_eq_Some_conv
        split: if_splits option.splits prod.splits)
  have hash: "hash \<in> set (api_keys st)" "vp k (if phc hash then hash else DUMMY_HASH)"
    using verify_api_key_Some [OF k(2)] by auto
  then have ok: "phc hash" "starts_with hash ''$argon2id$''"
    using assms(1) by (auto simp: wf_state_def)
  have "hash \<in> set (keys (publishers st))" using hash(1) assms(1) by (simp add: wf_state_def)
  then obtain p where "map_of (publishers st) hash = Some p"
    by (metis map_of_None_keys option.exhaust)
  then show ?thesis using k(1) nb pub ok hash(2) by auto
qed


section \<open>Properties\<close>

text \<open>
  Authentication is sound. A request is handed on only if its client is not blocked and it
  carries a key that matches a stored, well-formed Argon2id hash; the identity attached to it is the
  one the key file gives for that hash, never the empty fallback identity.
\<close>

theorem authenticated_identity:
  assumes "wf_state phc st" "require_api_key phc vp h st addr xff key now = (Inr pub, st')"
  shows "\<exists>k hash. key = Some k \<and> phc hash \<and> starts_with hash ''$argon2id$'' \<and> vp k hash \<and>
     map_of (publishers st) hash = Some pub \<and>
     \<not> is_blocked (auth_failure_limiter st) (client_ip addr xff (trust_proxy st)) now"
  using assms by (rule require_api_key_sound)

theorem authenticated_identity_witness:
  "\<exists>k hash. Some ''s3cret'' = Some k \<and> starts_with hash ''$argon2id$'' \<and>
     (hash = ''$argon2id$'' @ k) \<and>
     map_of [(''$argon2id$s3cret'', \<lparr>owner = ''admin'', allowed_apps = None, pubkey = None\<rparr>)] hash
       = Some \<lparr>owner = ''admin'', allowed_apps = None, pubkey = None\<rparr>"
  using authenticated_identity [of "\<lambda>s. starts_with s ''$argon2id$''"
      "\<lparr>api_keys = [''$argon2id$s3cret''],
        publishers = [(''$argon2id$s3cret'', \<lparr>owner = ''admin'', allowed_apps = None, pubkey = None\<rparr>)],
        auth_failure_limiter = [], trust_proxy = False\<rparr>"
      "\<lambda>k h. h = ''$argon2id$'' @ k" "\<lambda>_. 0" "''10.0.0.1''" None "Some ''s3cret''" 0
      "\<lparr>owner = ''admin'', allowed_apps = None, pubkey = None\<rparr>"
      "\<lparr>api_keys = [''$argon2id$s3cret''],
        publishers = [(''$argon2id$s3cret'', \<lparr>owner = ''admin'', allowed_apps = None, pubkey = None\<rparr>)],
        auth_failure_limiter = [], trust_proxy = False\<rparr>"]
  by (auto simp: wf_state_def starts_with_def require_api_key_def client_ip_def is_blocked_def
      verify_api_key_def record_success_def)

text \<open>
  A blocked client is turned away before its key is looked at, and the attempt changes nothing:
  the answer is 429 whatever key is presented.
\<close>

theorem blocked_before_key_check:
  assumes "is_blocked (auth_failure_limiter st) (client_ip addr xff (trust_proxy st)) now"
  shows "require_api_key phc vp h st addr xff key now = (Inl TOO_MANY_REQUESTS, st)"
  using assms by (simp add: require_api_key_def)

theorem blocked_before_key_check_witness:
  "require_api_key (\<lambda>_. True) (\<lambda>_ _. True) (\<lambda>_. 0)
     \<lparr>api_keys = [''k''], publishers = [],
      auth_failure_limiter = [(''10.0.0.1'', \<lparr>failure_count = 5, backoff_until = Some 7, af_last_access = 0\<rparr>)],
      trust_proxy = False\<rparr> ''10.0.0.1'' None (Some ''s'') 3
   = (Inl TOO_MANY_REQUESTS,
     \<lparr>api_keys = [''k''], publishers = [],
      auth_failure_limiter = [(''10.0.0.1'', \<lparr>failure_count = 5, backoff_until = Some 7, af_last_access = 0\<rparr>)],
      trust_proxy = False\<rparr>)"
  by (rule blocked_before_key_check) (simp add: is_blocked_def in_backoff_def client_ip_def)

text \<open>
  No key, no identity. If the presented key matches no stored hash, or no key is presented, the
  request is refused with 401 or 429 and the failure is recorded for the client's IP.
\<close>

theorem bad_key_refused:
  assumes "wf_state phc st" "\<And>k hash. key = Some k \<Longrightarrow> hash \<in> set (api_keys st) \<Longrightarrow> \<not> vp k hash"
    and "ip = client_ip addr xff (trust_proxy st)"
    and "\<not> is_blocked (auth_failure_limiter st) ip now"
  shows "require_api_key phc vp h st addr xff key now =
     (Inl (if fst (record_failure h (auth_failure_limiter st) ip now) then UNAUTHORIZED else TOO_MANY_REQUESTS),
      st\<lparr>auth_failure_limiter := snd (record_failure h (auth_failure_limiter st) ip now)\<rparr>)"
proof -
  have "Option.bind key (\<lambda>key. verify_api_key phc vp key (api_keys st)) = None"
    using assms(1,2) by (cases key) (auto simp: verify_api_key_None wf_state_def)
  then show ?thesis
    using assms(3,4) by (simp add: require_api_key_def Let_def case_prod_unfold)
qed

theorem bad_key_refused_witness:
  "fst (require_api_key (\<lambda>_. True) (\<lambda>k h. False) (\<lambda>_. 0)
     \<lparr>api_keys = [''$argon2id$x''],
      publishers = [(''$argon2id$x'', \<lparr>owner = ''admin'', allowed_apps = None, pubkey = None\<rparr>)],
      auth_failure_limiter = [], trust_proxy = False\<rparr> ''10.0.0.1'' None (Some ''s'') 3) = Inl UNAUTHORIZED"
  by (subst bad_key_refused [where ip = "''10.0.0.1''"])
     (simp_all add: wf_state_def starts_with_def client_ip_def is_blocked_def record_failure_def
       in_backoff_def AUTH_FAILURE_THRESHOLD_def MAX_ENTRIES_def Let_def word_le_nat_alt)

end
