(* ===== verification/Update_Route.thy ===== *)
theory Update_Route
  imports Storage Server_Auth
begin

text \<open>
  The update check (\<open>crates/deltaship-server/src/routes/update.rs\<close>): which version a client is
  offered, and whether its device is part of a gradual rollout. A handler returns its JSON answer or
  a status code with a message.
\<close>

section \<open>Rollout membership\<close>

definition string_bytes :: "string \<Rightarrow> bytes" where
  "string_bytes s = map of_char s"

text \<open>\<open>u64::from_le_bytes\<close>.\<close>

definition from_le_bytes :: "bytes \<Rightarrow> u64" where
  "from_le_bytes bs = of_nat (horner_sum unat 256 bs)"

definition device_in_rollout :: "'c libs \<Rightarrow> string \<Rightarrow> u8 \<Rightarrow> bool" where
  "device_in_rollout L device_id pct =
     (if pct = 0 then False
      else if 100 \<le> pct then True
      else let hash = blake3 L (of_bytes L (string_bytes device_id));
               hash_u64 = from_le_bytes (take 8 hash)
           in hash_u64 mod 100 < ucast pct)"


section \<open>The handler\<close>

record update_check_query =
  q_current_version :: "string option"
  q_platform :: string
  q_device_id_hash :: "string option"

text \<open>The URL of the diff, its checksum and size, and the checksum of the binary, as the manifest gives
  them.\<close>

definition offered_artifact ::
  "'c libs \<Rightarrow> string \<Rightarrow> version \<Rightarrow> string \<Rightarrow> platform \<Rightarrow> version_manifest option
   \<Rightarrow> string option \<times> string option \<times> u64 option \<times> string option" where
  "offered_artifact L base_url current_version version_str plat manifest =
     (case Option.bind manifest (\<lambda>m. vm_platforms m plat) of
        None \<Rightarrow> (None, None, None, None)
      | Some artifact \<Rightarrow>
          (case find_first (\<lambda>d. version_eq (from_version d) current_version) (diffs_from artifact) of
             Some info \<Rightarrow>
               (Some (base_url @ ''/diffs/'' @ sv_show L current_version @ ''-to-'' @ version_str
                  @ ''?platform='' @ platform_as_str plat),
                Some (di_checksum info), Some (di_size info), Some (pa_checksum artifact))
           | None \<Rightarrow> (None, None, None, Some (pa_checksum artifact))))"

definition update_response ::
  "'c libs \<Rightarrow> string \<Rightarrow> platform \<Rightarrow> version \<Rightarrow> version_info \<Rightarrow> version_manifest option
   \<Rightarrow> rollout_config option \<Rightarrow> version \<Rightarrow> bool \<Rightarrow> update_check_response" where
  "update_response L app_name plat current_version vi manifest rollout latest has_device =
     (let base_url = ''/api/v1/apps/'' @ app_name;
          version_str = sv_show L latest;
          (url, dcs, dsz, cs) = offered_artifact L base_url current_version version_str plat manifest;
          r = with_forced (vi_forced vi)
                (with_signature_url (base_url @ ''/versions/'' @ version_str @ ''/signature'')
                (with_full_binary_url (base_url @ ''/versions/'' @ version_str @ ''/binary?platform=''
                   @ platform_as_str plat) (available latest)));
          r = with_opt with_diff_url url r;
          r = with_opt with_diff_checksum dcs r;
          r = with_opt with_diff_size dsz r;
          r = with_opt with_checksum cs r;
          r = with_opt with_release_notes (vi_release_notes vi) r
      in case rollout of
           None \<Rightarrow> r
         | Some config \<Rightarrow>
             let r = (case rollout_percentage_new (percentage config) of
                        Inr pct \<Rightarrow> with_rollout_percentage pct r | Inl _ \<Rightarrow> r)
             in if has_device then with_in_rollout True r else r)"

text \<open>\<open>Some pct\<close>: a rollout of \<open>pct\<close> percent is in force and the device is not part of it.\<close>

definition rollout_refusal :: "'c libs \<Rightarrow> rollout_config option \<Rightarrow> string option \<Rightarrow> u8 option" where
  "rollout_refusal L rollout device =
     (case rollout of
        None \<Rightarrow> None
      | Some config \<Rightarrow>
          if enabled config \<and> percentage config < 100 then
            (case device of
               None \<Rightarrow> None
             | Some device_id \<Rightarrow>
                 if \<not> device_in_rollout L device_id (percentage config)
                 then Some (percentage config) else None)
          else None)"

definition check_update ::
  "'c libs \<Rightarrow> path \<Rightarrow> string \<Rightarrow> update_check_query
   \<Rightarrow> ('c, status_code \<times> string, update_check_response) io" where
  "check_update L data_dir app_name query =
     bindE (map_err (\<lambda>_. (BAD_REQUEST, ''Invalid request'')) (from_sum (validate_name app_name))) (\<lambda>_.
     bindE (map_err (\<lambda>_. (BAD_REQUEST, ''Invalid platform: '' @ q_platform query))
             (from_sum (platform_from_str (q_platform query)))) (\<lambda>plat.
     bindE (case q_current_version query of
              Some v \<Rightarrow> map_err (\<lambda>_. (BAD_REQUEST, ''Invalid version: '' @ v))
                          (from_sum (version_from_str (sv_parse L) v))
            | None \<Rightarrow> returnE (version_new 0 0 0)) (\<lambda>current_version.
     bindE (get_app_catalog L data_dir app_name) (\<lambda>found.
     case found of
       None \<Rightarrow> throwE (NOT_FOUND, ''Application not found: '' @ app_name)
     | Some catalog \<Rightarrow>
         if version_cmp (sv_pre_cmp L) current_version (latest_version catalog) \<noteq> Less
         then returnE no_update
         else
         (case find_first (\<lambda>v. version_eq (vi_version v) (latest_version catalog) \<and> plat \<in> set (vi_platforms v))
                 (cat_versions catalog) of
            None \<Rightarrow> returnE no_update
          | Some vi \<Rightarrow>
              let version_str = sv_show L (latest_version catalog) in
              bindE (get_rollout_config L data_dir app_name version_str) (\<lambda>rollout.
              case rollout_refusal L rollout (q_device_id_hash query) of
                Some pct \<Rightarrow> returnE (not_in_rollout (latest_version catalog)
                  (case rollout_percentage_new pct of Inr p \<Rightarrow> p | Inl _ \<Rightarrow> 0))
              | None \<Rightarrow>
              bindE (get_version_manifest L data_dir app_name version_str) (\<lambda>manifest.
              returnE (update_response L app_name plat current_version vi manifest rollout
                (latest_version catalog) (q_device_id_hash query \<noteq> None)))))))))"


section \<open>What the handler answers\<close>

lemma update_response_eq:
  assumes "offered_artifact L (''/api/v1/apps/'' @ a) cur (sv_show L latest) p m = (url, dcs, dsz, cs)"
  shows "\<exists>burl surl pct dev'. update_response L a p cur vi m ro latest dev =
    \<lparr>update_available = True, target_version = Some latest, diff_url = url, diff_checksum = dcs,
     diff_size = dsz, full_binary_url = burl, full_binary_size = None, resp_checksum = cs,
     signature_url = surl, resp_release_notes = vi_release_notes vi, resp_forced = vi_forced vi,
     rollout_percentage = pct, in_rollout = dev'\<rparr>"
  unfolding update_response_def Let_def assms prod.case
  by (cases ro)
     (auto simp: with_opt_fields available_def with_forced_def with_signature_url_def
       with_full_binary_url_def with_in_rollout_def with_rollout_percentage_def split: sum.split)

lemma update_response_simps:
  "update_available (update_response L a p cur vi m ro latest dev)"
  "target_version (update_response L a p cur vi m ro latest dev) = Some latest"
  "resp_checksum (update_response L a p cur vi m ro latest dev) =
     map_option pa_checksum (Option.bind m (\<lambda>m. vm_platforms m p))"
proof -
  obtain url dcs dsz cs where oa:
      "offered_artifact L (''/api/v1/apps/'' @ a) cur (sv_show L latest) p m = (url, dcs, dsz, cs)"
    by (metis prod_cases4)
  from update_response_eq [OF this, of vi ro dev] oa
  show "update_available (update_response L a p cur vi m ro latest dev)"
    "target_version (update_response L a p cur vi m ro latest dev) = Some latest"
    "resp_checksum (update_response L a p cur vi m ro latest dev) =
       map_option pa_checksum (Option.bind m (\<lambda>m. vm_platforms m p))"
    by (auto simp: offered_artifact_def split: option.splits)
qed

lemma update_response_diff:
  assumes "diff_url (update_response L a p cur vi m ro latest dev) = Some u"
  shows "\<exists>man art info. m = Some man \<and> vm_platforms man p = Some art \<and> info \<in> set (diffs_from art) \<and>
     version_eq (from_version info) cur \<and>
     u = ''/api/v1/apps/'' @ a @ ''/diffs/'' @ sv_show L cur @ ''-to-'' @ sv_show L latest
           @ ''?platform='' @ platform_as_str p \<and>
     diff_checksum (update_response L a p cur vi m ro latest dev) = Some (di_checksum info) \<and>
     diff_size (update_response L a p cur vi m ro latest dev) = Some (di_size info)"
proof -
  obtain url dcs dsz cs where oa:
      "offered_artifact L (''/api/v1/apps/'' @ a) cur (sv_show L latest) p m = (url, dcs, dsz, cs)"
    by (metis prod_cases4)
  from update_response_eq [OF this, of vi ro dev] oa assms show ?thesis
    by (auto simp: offered_artifact_def bind_eq_Some_conv split: option.splits dest!: find_first_Some)
qed

text \<open>When an offer is justified: the answer is built from the latest version of the stored catalog,
  which is newer than the client's and available for its platform, and no rollout refuses it.\<close>

definition query_version :: "'c libs \<Rightarrow> update_check_query \<Rightarrow> version option" where
  "query_version L q = (case q_current_version q of None \<Rightarrow> Some (version_new 0 0 0)
     | Some s \<Rightarrow> (case sv_parse L s of Inr v \<Rightarrow> Some v | Inl _ \<Rightarrow> None))"

definition justified_offer ::
  "'c libs \<Rightarrow> path \<Rightarrow> string \<Rightarrow> update_check_query \<Rightarrow> 'c world \<Rightarrow> update_check_response \<Rightarrow> bool" where
  "justified_offer L d app q w r \<longleftrightarrow> (\<exists>cat plat cur vi ro man.
     stored_catalog L d app w = Some cat \<and> platform_from_str (q_platform q) = Inr plat \<and>
     query_version L q = Some cur \<and> vi \<in> set (cat_versions cat) \<and>
     version_eq (vi_version vi) (latest_version cat) \<and> plat \<in> set (vi_platforms vi) \<and>
     version_cmp (sv_pre_cmp L) cur (latest_version cat) = Less \<and>
     (ro = None \<or> ro = stored_rollout L d app (sv_show L (latest_version cat)) w) \<and>
     (man = None \<or> man = stored_manifest L d app (sv_show L (latest_version cat)) w) \<and>
     rollout_refusal L ro (q_device_id_hash q) = None \<and>
     r = update_response L app plat cur vi man ro (latest_version cat) (q_device_id_hash q \<noteq> None))"

lemma justified_offerI:
  assumes "Some cat = stored_catalog L d app w" "platform_from_str (q_platform q) = Inr plat"
    and "query_version L q = Some cur"
    and "find_first (\<lambda>v. version_eq (vi_version v) (latest_version cat) \<and> plat \<in> set (vi_platforms v))
           (cat_versions cat) = Some vi"
    and "version_cmp (sv_pre_cmp L) cur (latest_version cat) = Less"
    and "ro = None \<or> ro = stored_rollout L d app (sv_show L (latest_version cat)) w"
    and "man = None \<or> man = stored_manifest L d app (sv_show L (latest_version cat)) w"
    and "rollout_refusal L ro (q_device_id_hash q) = None"
  shows "justified_offer L d app q w
    (update_response L app plat cur vi man ro (latest_version cat) (q_device_id_hash q \<noteq> None))"
  unfolding justified_offer_def
  by (intro exI [of _ cat] exI [of _ plat] exI [of _ cur] exI [of _ vi] exI [of _ ro] exI [of _ man] conjI)
     (use assms find_first_Some [OF assms(4)] in simp_all)

lemma check_update_outcome:
  "wp (check_update L d app q)
     (\<lambda>r w'. file_at w' = file_at w \<and> (update_available r \<longrightarrow> justified_offer L d app q w r))
     (\<lambda>_ w'. file_at w' = file_at w) w"
  unfolding check_update_def Let_def
  by (intro wp_storage wp_readers; (simp add: response_defs; fail)?; intro conjI impI justified_offerI)
     (auto simp: query_version_def version_from_str_def stored_rollout_def stored_manifest_def
       split: sum.splits)


text \<open>Without faults the rollout configuration is honoured.\<close>

lemma check_update_gated:
  assumes "quiet w" "stored_catalog L d app w = Some cat"
    and "lookup w (get_rollout_path d app (sv_show L (latest_version cat))) \<noteq> Some Dir"
    and "stored_rollout L d app (sv_show L (latest_version cat)) w = Some config"
    and "rollout_refusal L (Some config) (q_device_id_hash q) = Some pct"
  shows "wp (check_update L d app q) (\<lambda>r _. \<not> update_available r) (\<lambda>_ _. True) w"
  unfolding check_update_def Let_def
  by (intro wp_run wp_from_sum ok_readers(1) ok_get_rollout_config)
     (use assms in \<open>auto simp: response_defs stored_rollout_def file_at_def split: sum.splits\<close>)


section \<open>A concrete run\<close>

definition sample_manifest :: version_manifest where
  "sample_manifest = \<lparr>vm_version = version_new 2 0 0,
     vm_platforms = [LinuxX86_64 \<mapsto> \<lparr>pa_checksum = ''c0'', pa_size = 3, diffs_from =
       [\<lparr>from_version = version_new 1 9 0, di_checksum = ''d0'', di_size = 1, di_algorithm = ''bsdiff''\<rparr>]\<rparr>]\<rparr>"

definition sample_tree2 :: "(path \<times> sample_doc node) list" where
  "sample_tree2 = sample_tree @
     [([''apps'', ''app'', ''versions'', ''2.0.0'', ''manifest.json''], File (ManifestDoc sample_manifest)),
      ([''apps'', ''app'', ''versions'', ''2.0.0'', ''rollout.json''],
        File (RolloutDoc \<lparr>percentage = 70, enabled = True, started_at = None, completed_at = None\<rparr>))]"

lemma sample_valid:
  "validate_name ''app'' = Inr ()" "platform_from_str ''linux-x86_64'' = Inr LinuxX86_64"
  by (simp_all add: validate_name_Inr_iff valid_name_char_def ascii_defs starts_with_def
      platform_from_str_def to_lowercase_def)

lemma sample_device:
  "device_in_rollout sample_libs ''A'' 70" "\<not> device_in_rollout sample_libs ''Z'' 70"
  by (simp_all add: device_in_rollout_def sample_libs_def from_le_bytes_def string_bytes_def Let_def)

lemmas run_check_update = check_update_def bindE_def map_err_def from_sum_def returnE_def
  get_app_catalog_def get_rollout_config_def get_version_manifest_def get_world_def attempt_def
  read_to_string_def io_prims next_op_def exists_path_def sample_world_def
  sample_tree_def sample_tree2_def lookup_def version_from_str_def rollout_refusal_def path_defs
  sample_defs version_cmp_def ord_cmp_def version_eq_def sample_valid

lemma sample_offer:
  "\<exists>w'. check_update sample_libs [] ''app''
     \<lparr>q_current_version = Some ''1.9.0'', q_platform = ''linux-x86_64'', q_device_id_hash = Some ''A''\<rparr>
     (sample_world sample_tree2) =
     (Inr (update_response sample_libs ''app'' LinuxX86_64 (version_new 1 9 0)
        (sample_info (version_new 2 0 0)) (Some sample_manifest)
        (Some \<lparr>percentage = 70, enabled = True, started_at = None, completed_at = None\<rparr>)
        (version_new 2 0 0) True), w')"
  using sample_device(1) by (simp add: run_check_update Let_def)

lemma sample_refusal:
  "\<exists>w'. check_update sample_libs [] ''app''
     \<lparr>q_current_version = Some ''1.9.0'', q_platform = ''linux-x86_64'', q_device_id_hash = Some ''Z''\<rparr>
     (sample_world sample_tree2) = (Inr (not_in_rollout (version_new 2 0 0) 70), w')"
  using sample_device(2) by (simp add: run_check_update Let_def rollout_percentage_new_def)


section \<open>Properties\<close>

text \<open>
  C24: a client is only ever offered a newer version. Whenever the answer says that an update is
  available, its target is the latest version of the stored catalog, that version is strictly newer
  than the version the client runs, and the catalog lists it for the client's platform.
\<close>

theorem offer_is_newer:
  assumes "check_update L d app q w = (Inr r, w')" "update_available r"
  shows "\<exists>cat cur plat vi. stored_catalog L d app w = Some cat \<and> query_version L q = Some cur \<and>
    platform_from_str (q_platform q) = Inr plat \<and> target_version r = Some (latest_version cat) \<and>
    version_cmp (sv_pre_cmp L) cur (latest_version cat) = Less \<and>
    vi \<in> set (cat_versions cat) \<and> version_eq (vi_version vi) (latest_version cat) \<and> plat \<in> set (vi_platforms vi)"
proof -
  have "justified_offer L d app q w r"
    using wpD(1) [OF check_update_outcome assms(1)] assms(2) by blast
  then show ?thesis
    unfolding justified_offer_def by (metis update_response_simps(2))
qed

theorem offer_is_newer_witness:
  "\<exists>cat. stored_catalog sample_libs [] ''app'' (sample_world sample_tree2) = Some cat \<and>
     version_cmp str_cmp (version_new 1 9 0) (latest_version cat) = Less"
  using sample_offer offer_is_newer [OF _ update_response_simps(1)]
  by (fastforce simp: query_version_def sample_defs)

text \<open>
  A device never drops out of a rollout that grows. A device that is part of a rollout of \<open>p\<close>
  percent is part of every rollout of at least \<open>p\<close> percent; no device is part of a rollout of 0
  percent, and every device of one of 100 percent.
\<close>

theorem rollout_monotone:
  assumes "device_in_rollout L dev p" "p \<le> p'"
  shows "device_in_rollout L dev p' \<and> 0 < p \<and> device_in_rollout L dev 100 \<and> \<not> device_in_rollout L dev 0"
proof -
  have mono: "ucast p \<le> (ucast p' :: u64)"
    using assms(2) by (simp add: word_le_nat_alt)
  have "p \<noteq> 0" using assms(1) by (auto simp: device_in_rollout_def)
  moreover from this assms(2) have "p' \<noteq> 0" by (metis word_gt_0 leD)
  moreover have "100 \<le> p \<Longrightarrow> 100 \<le> p'" using assms(2) by (metis order_trans)
  ultimately show ?thesis
    using assms(1) mono by (auto simp: device_in_rollout_def Let_def word_gt_0 split: if_splits)
qed

theorem rollout_monotone_witness: "device_in_rollout sample_libs ''A'' 80"
  using rollout_monotone [OF sample_device(1), of 80] by simp

text \<open>
  C27: a rollout is honoured. While an enabled rollout below 100 percent is stored for the latest version and reading
  does not fail, a device that identifies itself and is not part of the rollout is not offered the update. (A client
  that sends no device identifier is offered it, as the code intends.)
\<close>

theorem rollout_honoured:
  assumes "quiet w" "stored_catalog L d app w = Some cat"
    and "lookup w (get_rollout_path d app (sv_show L (latest_version cat))) \<noteq> Some Dir"
    and "stored_rollout L d app (sv_show L (latest_version cat)) w = Some config"
    and "enabled config" "percentage config < 100"
    and "q_device_id_hash q = Some dev" "\<not> device_in_rollout L dev (percentage config)"
    and "check_update L d app q w = (Inr r, w')"
  shows "\<not> update_available r"
proof -
  have "rollout_refusal L (Some config) (q_device_id_hash q) = Some (percentage config)"
    using assms(5-8) by (simp add: rollout_refusal_def)
  from wpD(1) [OF check_update_gated [OF assms(1-4) this] assms(9)] show ?thesis .
qed

theorem rollout_honoured_witness:
  "\<exists>r w'. check_update sample_libs [] ''app''
     \<lparr>q_current_version = Some ''1.9.0'', q_platform = ''linux-x86_64'', q_device_id_hash = Some ''Z''\<rparr>
     (sample_world sample_tree2) = (Inr r, w') \<and> \<not> update_available r"
proof -
  let ?q = "\<lparr>q_current_version = Some ''1.9.0'', q_platform = ''linux-x86_64'', q_device_id_hash = Some ''Z''\<rparr>"
  obtain w' where run: "check_update sample_libs [] ''app'' ?q (sample_world sample_tree2) =
      (Inr (not_in_rollout (version_new 2 0 0) 70), w')"
    using sample_refusal by blast
  have "\<not> update_available (not_in_rollout (version_new 2 0 0) 70)"
    by (rule rollout_honoured [OF quiet_sample, of sample_libs "[]" "''app''" sample_tree2 sample_catalog
          "\<lparr>percentage = 70, enabled = True, started_at = None, completed_at = None\<rparr>" ?q "''Z''", OF _ _ _ _ _ _ _ run])
       (use sample_device(2) in \<open>simp_all add: run_check_update stored_catalog_def stored_rollout_def file_at_def\<close>)
  then show ?thesis using run by blast
qed

text \<open>
  What is offered is what the manifest describes. The checksum of an offer is the one the manifest
  of the target version has for the client's platform, and a diff is offered only if the manifest
  lists one from the client's version, with its checksum and size.
\<close>

theorem offer_matches_manifest:
  assumes "check_update L d app q w = (Inr r, w')" "target_version r = Some v" "update_available r"
    and "platform_from_str (q_platform q) = Inr plat" "query_version L q = Some cur"
  shows "(\<forall>cs. resp_checksum r = Some cs \<longrightarrow> (\<exists>man art.
       stored_manifest L d app (sv_show L v) w = Some man \<and> vm_platforms man plat = Some art \<and>
       cs = pa_checksum art)) \<and>
    (\<forall>u. diff_url r = Some u \<longrightarrow> (\<exists>man art info.
       stored_manifest L d app (sv_show L v) w = Some man \<and> vm_platforms man plat = Some art \<and>
       info \<in> set (diffs_from art) \<and> version_eq (from_version info) cur \<and>
       diff_checksum r = Some (di_checksum info) \<and> diff_size r = Some (di_size info)))"
proof -
  have "justified_offer L d app q w r"
    using wpD(1) [OF check_update_outcome assms(1)] assms(3) by blast
  then obtain vi ro man where
      man: "man = None \<or> man = stored_manifest L d app (sv_show L v) w"
    and r: "r = update_response L app plat cur vi man ro v (q_device_id_hash q \<noteq> None)"
    using assms(2,4,5) unfolding justified_offer_def
    by (elim exE conjE, intro that) (simp_all add: update_response_simps)
  have "\<exists>man art. stored_manifest L d app (sv_show L v) w = Some man \<and> vm_platforms man plat = Some art \<and>
      cs = pa_checksum art" if "resp_checksum r = Some cs" for cs
    using man that unfolding r update_response_simps(3) by (fastforce simp: bind_eq_Some_conv)
  moreover have "\<exists>man art info. stored_manifest L d app (sv_show L v) w = Some man \<and>
      vm_platforms man plat = Some art \<and> info \<in> set (diffs_from art) \<and> version_eq (from_version info) cur \<and>
      diff_checksum r = Some (di_checksum info) \<and> diff_size r = Some (di_size info)"
    if "diff_url r = Some u" for u
    using man update_response_diff [OF that [unfolded r]] unfolding r by (elim exE conjE disjE) auto
  ultimately show ?thesis by blast
qed

theorem offer_matches_manifest_witness:
  "\<exists>man art. stored_manifest sample_libs [] ''app'' ''2.0.0'' (sample_world sample_tree2) = Some man \<and>
     vm_platforms man LinuxX86_64 = Some art \<and> pa_checksum art = ''c0''"
proof -
  obtain w' where run: "check_update sample_libs [] ''app''
      \<lparr>q_current_version = Some ''1.9.0'', q_platform = ''linux-x86_64'', q_device_id_hash = Some ''A''\<rparr>
      (sample_world sample_tree2) =
      (Inr (update_response sample_libs ''app'' LinuxX86_64 (version_new 1 9 0)
        (sample_info (version_new 2 0 0)) (Some sample_manifest)
        (Some \<lparr>percentage = 70, enabled = True, started_at = None, completed_at = None\<rparr>)
        (version_new 2 0 0) True), w')"
    using sample_offer by blast
  have "sv_show sample_libs (version_new 2 0 0) = ''2.0.0''" by (simp add: sample_defs)
  then show ?thesis
    using offer_matches_manifest [OF run update_response_simps(2,1), of LinuxX86_64 "version_new 1 9 0"]
    by (simp add: update_response_simps sample_valid query_version_def sample_manifest_def) (auto simp: sample_defs)
qed

end
