(* ===== verification/Download_Route.thy ===== *)
theory Download_Route
  imports Update_Route
begin

text \<open>
  Serving binaries, diffs and signatures (\<open>crates/deltaship-server/src/routes/download.rs\<close>). The body
  of an answer is streamed from the file that was opened last; it is the content of that file.
\<close>

section \<open>Splitting the diff specification\<close>

lemma starts_with_shorter: "pat \<noteq> [] \<Longrightarrow> starts_with s pat \<Longrightarrow> length s - length pat < length s"
  by (cases s; cases pat) (auto simp: starts_with_def)

text \<open>\<open>str::split\<close> with a string pattern: non-overlapping matches from the left.\<close>

function split_str_acc :: "string \<Rightarrow> string \<Rightarrow> string \<Rightarrow> string list" where
  "split_str_acc pat acc s =
     (if pat \<noteq> [] \<and> starts_with s pat then rev acc # split_str_acc pat [] (drop (length pat) s)
      else case s of [] \<Rightarrow> [rev acc] | c # cs \<Rightarrow> split_str_acc pat (c # acc) cs)"
  by pat_completeness auto
termination
  by (relation "measure (\<lambda>(pat, acc, s). length s)") (auto simp: starts_with_shorter)

declare split_str_acc.simps [simp del]

definition split_str :: "string \<Rightarrow> string \<Rightarrow> string list" where
  "split_str pat s = split_str_acc pat [] s"

lemma split_str_acc_skip:
  "hd pat \<notin> set s \<Longrightarrow> pat \<noteq> [] \<Longrightarrow> split_str_acc pat acc (s @ t) = split_str_acc pat (rev s @ acc) t"
proof (induction s arbitrary: acc)
  case (Cons c s)
  then have "\<not> starts_with (c # s @ t) pat" by (cases pat) (auto simp: starts_with_def)
  then show ?case using Cons by (simp add: split_str_acc.simps [of _ _ "c # s @ t"])
qed simp

text \<open>Version strings without a hyphen are recovered from the specification.\<close>

lemma split_diff_spec:
  assumes "CHR ''-'' \<notin> set u" "CHR ''-'' \<notin> set v"
  shows "split_str ''-to-'' (u @ ''-to-'' @ v) = [u, v]"
proof -
  have "split_str_acc ''-to-'' acc (u @ CHR ''-'' # s) = split_str_acc ''-to-'' (rev u @ acc) (CHR ''-'' # s)" for acc s
    using split_str_acc_skip [of "''-to-''" u acc "CHR ''-'' # s"] assms by simp
  moreover have "split_str_acc ''-to-'' acc v = [rev acc @ v]" for acc
    using split_str_acc_skip [of "''-to-''" v acc "[]"] assms
    by (simp add: split_str_acc.simps [of _ _ "[]"] starts_with_def)
  ultimately show ?thesis
    by (simp add: split_str_def split_str_acc.simps [of _ _ "CHR ''-'' # _"] starts_with_def)
qed


section \<open>Serving a file\<close>

record 'c file_response =
  content_type :: string
  content_length :: u64
  body :: 'c

abbreviation internal_error :: "status_code \<times> string" where
  "internal_error \<equiv> (INTERNAL_SERVER_ERROR, ''Internal server error'')"

abbreviation bad_request :: "status_code \<times> string" where
  "bad_request \<equiv> (BAD_REQUEST, ''Invalid request'')"

text \<open>Opening a file yields a handle on its content.\<close>

definition open_content :: "path \<Rightarrow> ('c, status_code \<times> string, 'c) io" where
  "open_content p =
     bindE (map_err (\<lambda>_. internal_error) (open_file p)) (\<lambda>_.
     bindE (get_world (\<lambda>w. file_at w p)) (\<lambda>c.
     case c of Some c \<Rightarrow> returnE c | None \<Rightarrow> throwE internal_error))"

definition serve_file ::
  "'c libs \<Rightarrow> path \<Rightarrow> string \<Rightarrow> string option \<Rightarrow> ('c, status_code \<times> string, 'c file_response) io" where
  "serve_file L p ctype expected_checksum =
     (case expected_checksum of
        Some expected \<Rightarrow>
          bindE (map_err (\<lambda>_. internal_error) (open_file p)) (\<lambda>_.
          bindE (map_err (\<lambda>_. internal_error) (read_file p)) (\<lambda>bytes.
          if to_lowercase (blake3_hex L bytes) \<noteq> to_lowercase expected
          then throwE (INTERNAL_SERVER_ERROR, ''File integrity check failed'')
          else
          bindE (open_content p) (\<lambda>c.
          bindE (map_err (\<lambda>_. internal_error) io_point) (\<lambda>_.
          returnE \<lparr>content_type = ctype, content_length = content_len L c, body = c\<rparr>))))
      | None \<Rightarrow>
          bindE (open_content p) (\<lambda>c.
          bindE (map_err (\<lambda>_. internal_error) io_point) (\<lambda>_.
          returnE \<lparr>content_type = ctype, content_length = content_len L c, body = c\<rparr>)))"


section \<open>The handlers\<close>

definition download_binary ::
  "'c libs \<Rightarrow> path \<Rightarrow> string \<Rightarrow> string \<Rightarrow> string \<Rightarrow> ('c, status_code \<times> string, 'c file_response) io" where
  "download_binary L data_dir app_name version platform_str =
     bindE (map_err (\<lambda>_. bad_request) (from_sum (validate_name app_name))) (\<lambda>_.
     bindE (map_err (\<lambda>_. bad_request) (from_sum (validate_version version))) (\<lambda>_.
     bindE (map_err (\<lambda>_. bad_request) (from_sum (platform_from_str platform_str))) (\<lambda>plat.
     let binary_path = get_binary_path data_dir app_name version plat in
     bindE (get_world (exists_path binary_path)) (\<lambda>ex.
     if \<not> ex then throwE (NOT_FOUND, ''Resource not found'')
     else
     bindE (get_version_manifest L data_dir app_name version) (\<lambda>manifest.
     serve_file L binary_path ''application/octet-stream''
       (Option.bind manifest (\<lambda>m. map_option pa_checksum (vm_platforms m plat))))))))"

definition download_diff ::
  "'c libs \<Rightarrow> path \<Rightarrow> string \<Rightarrow> string \<Rightarrow> string \<Rightarrow> ('c, status_code \<times> string, 'c file_response) io" where
  "download_diff L data_dir app_name diff_spec platform_str =
     bindE (map_err (\<lambda>_. bad_request) (from_sum (validate_name app_name))) (\<lambda>_.
     bindE (map_err (\<lambda>_. bad_request) (from_sum (platform_from_str platform_str))) (\<lambda>plat.
     case split_str ''-to-'' diff_spec of
       [from_v, to_v] \<Rightarrow>
         if from_v = [] \<or> to_v = [] then throwE bad_request
         else
         bindE (map_err (\<lambda>_. bad_request) (from_sum (validate_version from_v))) (\<lambda>_.
         bindE (map_err (\<lambda>_. bad_request) (from_sum (validate_version to_v))) (\<lambda>_.
         let diff_path = get_diff_path data_dir app_name from_v to_v plat in
         bindE (get_world (exists_path diff_path)) (\<lambda>ex.
         if \<not> ex then throwE (NOT_FOUND, ''Resource not found'')
         else
         bindE (get_version_manifest L data_dir app_name to_v) (\<lambda>manifest.
         serve_file L diff_path ''application/octet-stream''
           (Option.bind manifest (\<lambda>m. Option.bind (vm_platforms m plat) (\<lambda>artifact.
              map_option di_checksum
                (find_first (\<lambda>d. sv_show L (from_version d) = from_v) (diffs_from artifact)))))))))
     | _ \<Rightarrow> throwE bad_request))"

definition download_signature ::
  "'c libs \<Rightarrow> path \<Rightarrow> string \<Rightarrow> string \<Rightarrow> ('c, status_code \<times> string, 'c file_response) io" where
  "download_signature L data_dir app_name version =
     bindE (map_err (\<lambda>_. bad_request) (from_sum (validate_name app_name))) (\<lambda>_.
     bindE (map_err (\<lambda>_. bad_request) (from_sum (validate_version version))) (\<lambda>_.
     let signature_path = get_signature_path data_dir app_name version in
     bindE (get_world (exists_path signature_path)) (\<lambda>ex.
     if \<not> ex then throwE (NOT_FOUND, ''Resource not found'')
     else serve_file L signature_path ''application/octet-stream'' None)))"


section \<open>What is served\<close>

lemma wp_open_content:
  assumes "\<And>c w'. file_at w' = file_at w \<Longrightarrow> file_at w p = Some c \<Longrightarrow> Q c w'"
    and "\<And>e w'. file_at w' = file_at w \<Longrightarrow> E e w'"
  shows "wp (open_content p) Q E w"
  unfolding open_content_def by (intro wp_run wp_no_change) (use assms in auto)

lemma wp_serve_file:
  assumes "\<And>c w'. file_at w' = file_at w \<Longrightarrow> file_at w p = Some c \<Longrightarrow>
      (\<And>cs. expected = Some cs \<Longrightarrow> to_lowercase (blake3_hex L c) = to_lowercase cs) \<Longrightarrow>
      Q \<lparr>content_type = ct, content_length = content_len L c, body = c\<rparr> w'"
    and "\<And>e w'. file_at w' = file_at w \<Longrightarrow> E e w'"
  shows "wp (serve_file L p ct expected) Q E w"
  unfolding serve_file_def
  by (intro wp_run wp_prims wp_open_content) (use assms in auto)

lemma wp_split_case:
  assumes "\<And>u v. xs = [u, v] \<Longrightarrow> wp (f u v) Q E w" "(\<And>u v. xs \<noteq> [u, v]) \<Longrightarrow> wp m Q E w"
  shows "wp (case xs of [u, v] \<Rightarrow> f u v | _ \<Rightarrow> m) Q E w"
  using assms by (auto split: list.split)

lemma wp_handler_checks:
  assumes "\<And>x. r = Inr x \<Longrightarrow> wp (k x) Q E w" "\<And>e. r = Inl e \<Longrightarrow> E (h e) w"
  shows "wp (bindE (map_err h (from_sum r)) k) Q E w"
  using assms by (simp split: sum.split)

lemma download_binary_outcome:
  "wp (download_binary L d app v ps)
     (\<lambda>r w'. file_at w' = file_at w \<and> validate_name app = Inr () \<and> validate_version v = Inr () \<and>
        (\<exists>p. platform_from_str ps = Inr p \<and> file_at w (get_binary_path d app v p) = Some (body r) \<and>
          content_length r = content_len L (body r)))
     (\<lambda>_ w'. file_at w' = file_at w) w"
  unfolding download_binary_def Let_def
  by (intro wp_handler_checks wp_run wp_readers wp_serve_file) auto

lemma download_binary_checked:
  assumes "quiet w"
  shows "wp (download_binary L d app v ps)
     (\<lambda>r w'. \<forall>p man art. platform_from_str ps = Inr p \<longrightarrow> stored_manifest L d app v w = Some man \<longrightarrow>
        vm_platforms man p = Some art \<longrightarrow> to_lowercase (blake3_hex L (body r)) = to_lowercase (pa_checksum art))
     (\<lambda>_ _. True) w"
  unfolding download_binary_def Let_def
  by (intro wp_handler_checks wp_run ok_readers wp_serve_file) (use assms in auto)

lemma download_diff_outcome:
  "wp (download_diff L d app spec ps)
     (\<lambda>r w'. file_at w' = file_at w \<and> validate_name app = Inr () \<and>
        (\<exists>u v p. split_str ''-to-'' spec = [u, v] \<and> validate_version u = Inr () \<and> validate_version v = Inr () \<and>
           platform_from_str ps = Inr p \<and> file_at w (get_diff_path d app u v p) = Some (body r)))
     (\<lambda>_ w'. file_at w' = file_at w) w"
  unfolding download_diff_def Let_def
  by (intro wp_handler_checks wp_split_case wp_run wp_readers wp_serve_file) auto

lemma download_signature_outcome:
  "wp (download_signature L d app v)
     (\<lambda>r w'. file_at w' = file_at w \<and> validate_name app = Inr () \<and> validate_version v = Inr () \<and>
        file_at w (get_signature_path d app v) = Some (body r))
     (\<lambda>_ w'. file_at w' = file_at w) w"
  unfolding download_signature_def Let_def
  by (intro wp_handler_checks wp_run wp_serve_file) auto


text \<open>The three endpoints as one operation, and where the paths they use lie.\<close>

datatype download = GetBinary string string | GetDiff string string | GetSignature string

fun run_download ::
  "'c libs \<Rightarrow> path \<Rightarrow> string \<Rightarrow> download \<Rightarrow> ('c, status_code \<times> string, 'c file_response) io" where
  "run_download L d app (GetBinary v ps) = download_binary L d app v ps"
| "run_download L d app (GetDiff spec ps) = download_diff L d app spec ps"
| "run_download L d app (GetSignature v) = download_signature L d app v"

lemma path_join_validated:
  "validate_name n = Inr u \<Longrightarrow> path_join p n = (if n = ''.'' then p else p @ [n])"
  "validate_version n = Inr u \<Longrightarrow> path_join p n = (if n = ''.'' then p else p @ [n])"
proof -
  have dot: "path_join p ''.'' = p"
    by (simp add: path_join_def path_components_def starts_with_def)
  show "path_join p n = (if n = ''.'' then p else p @ [n])" if "validate_name n = Inr u"
    using name_component [OF that] dot by simp
  show "path_join p n = (if n = ''.'' then p else p @ [n])" if "validate_version n = Inr u"
    using version_component [OF that] dot by simp
qed

text \<open>A path below \<open>base\<close> without a component that leads back up.\<close>

definition strictly_below :: "path \<Rightarrow> path \<Rightarrow> bool" where
  "strictly_below base p \<longleftrightarrow> (\<exists>q. p = base @ q \<and> ''..'' \<notin> set q)"

lemma validated_not_dotdot:
  "validate_name n = Inr u \<Longrightarrow> n \<noteq> ''..''" "validate_version n = Inr u \<Longrightarrow> n \<noteq> ''..''"
  using not_dotdot by (auto simp: validate_name_Inr_iff validate_version_Inr_iff)

lemma artifact_paths_below:
  assumes "validate_name app = Inr ()"
  shows "validate_version v = Inr () \<Longrightarrow> strictly_below (app_dir d app) (get_binary_path d app v p)"
    "validate_version v = Inr () \<Longrightarrow> strictly_below (app_dir d app) (get_signature_path d app v)"
    "validate_version u = Inr () \<Longrightarrow> validate_version v = Inr () \<Longrightarrow>
       strictly_below (app_dir d app) (get_diff_path d app u v p)"
    "''..'' \<notin> set (drop (length d) (app_dir d app))"
proof -
  show "strictly_below (app_dir d app) (get_binary_path d app v p)" if "validate_version v = Inr ()"
    using validated_not_dotdot(2) [OF that]
    by (auto simp: strictly_below_def get_binary_path_def version_dir_def path_join_validated(2) [OF that])
  show "strictly_below (app_dir d app) (get_signature_path d app v)" if "validate_version v = Inr ()"
    using validated_not_dotdot(2) [OF that]
    by (auto simp: strictly_below_def get_signature_path_def version_dir_def path_join_validated(2) [OF that])
  show "strictly_below (app_dir d app) (get_diff_path d app u v p)"
    if "validate_version u = Inr ()" "validate_version v = Inr ()"
  proof -
    have "plain_component (u @ ''-to-'' @ v @ ''-'' @ platform_as_str p)"
      using that validate_version_slash by (cases p) (auto simp: plain_component_def)
    moreover have "u @ ''-to-'' @ v @ ''-'' @ platform_as_str p \<noteq> ''..''"
      by (cases u rule: rev_cases) auto
    ultimately show ?thesis
      unfolding strictly_below_def get_diff_path_def by simp
  qed
  show "''..'' \<notin> set (drop (length d) (app_dir d app))"
    using validated_not_dotdot(1) [OF assms]
    by (auto simp: app_dir_def path_join_validated(1) [OF assms])
qed


section \<open>Properties\<close>

text \<open>
  C25: no path traversal. Whatever names, versions and diff specifications a client sends, an answer
  carries the content of a file below the directory of the requested application, reached without
  a parent component, and serving it changes no file.
\<close>

theorem download_confined:
  assumes "run_download L d app x w = (Inr r, w')"
  shows "(\<exists>p. strictly_below (app_dir d app) p \<and> file_at w p = Some (body r)) \<and>
    ''..'' \<notin> set (drop (length d) (app_dir d app)) \<and> file_at w' = file_at w"
proof (cases x)
  case (GetBinary v ps)
  with assms have run: "download_binary L d app v ps w = (Inr r, w')" by simp
  show ?thesis
    using wpD(1) [OF download_binary_outcome run] artifact_paths_below(1,4) [of app] by blast
next
  case (GetDiff spec ps)
  with assms have run: "download_diff L d app spec ps w = (Inr r, w')" by simp
  show ?thesis
    using wpD(1) [OF download_diff_outcome run] artifact_paths_below(3,4) [of app] by blast
next
  case (GetSignature v)
  with assms have run: "download_signature L d app v w = (Inr r, w')" by simp
  show ?thesis
    using wpD(1) [OF download_signature_outcome run] artifact_paths_below(2,4) [of app] by blast
qed

definition sample_tree3 :: "(path \<times> sample_doc node) list" where
  "sample_tree3 =
     [([''apps'', ''app'', ''versions'', ''2.0.0'', ''binary-linux-x86_64''], File (Blob [7, 7])),
      ([''apps'', ''app'', ''versions'', ''2.0.0'', ''manifest.json''], File (ManifestDoc
        \<lparr>vm_version = version_new 2 0 0, vm_platforms = [LinuxX86_64 \<mapsto>
           \<lparr>pa_checksum = replicate 64 (CHR ''1''), pa_size = 2, diffs_from = []\<rparr>]\<rparr>))]"

lemma sample_download:
  "\<exists>w'. download_binary sample_libs [] ''app'' ''2.0.0'' ''linux-x86_64'' (sample_world sample_tree3) =
     (Inr \<lparr>content_type = ''application/octet-stream'', content_length = 2, body = Blob [7, 7]\<rparr>, w')"
proof -
  have "validate_version ''2.0.0'' = Inr ()"
    by (simp add: validate_version_Inr_iff valid_name_char_def ascii_defs starts_with_def)
  moreover have "blake3_hex sample_libs (Blob [7, 7]) = replicate 64 (CHR ''1'')"
    "content_len sample_libs (Blob [7, 7]) = 2"
    by (simp_all add: sample_libs_def)
  ultimately show ?thesis
    by (simp add: download_binary_def serve_file_def open_content_def run_check_update sample_tree3_def
        file_at_def Let_def)
qed

theorem download_confined_witness:
  "\<exists>p. strictly_below (app_dir [] ''app'') p \<and> file_at (sample_world sample_tree3) p = Some (Blob [7, 7])"
proof -
  obtain w' where "run_download sample_libs [] ''app'' (GetBinary ''2.0.0'' ''linux-x86_64'')
      (sample_world sample_tree3) =
      (Inr \<lparr>content_type = ''application/octet-stream'', content_length = 2, body = Blob [7, 7]\<rparr>, w')"
    using sample_download by auto
  from download_confined [OF this] show ?thesis by simp
qed

text \<open>
  a served binary has the published checksum. If reading does not fail and the manifest of the
  version lists the platform, the BLAKE3 hash of the bytes served equals the checksum of the manifest;
  a file that does not match is refused.
\<close>

theorem served_binary_verified:
  assumes "quiet w" "download_binary L d app v ps w = (Inr r, w')"
    and "platform_from_str ps = Inr p" "stored_manifest L d app v w = Some man" "vm_platforms man p = Some art"
  shows "to_lowercase (blake3_hex L (body r)) = to_lowercase (pa_checksum art) \<and>
    file_at w (get_binary_path d app v p) = Some (body r) \<and> content_length r = content_len L (body r)"
  using wpD(1) [OF download_binary_checked [OF assms(1)] assms(2)]
    wpD(1) [OF download_binary_outcome assms(2)] assms(3-5) by auto

theorem served_binary_verified_witness:
  "to_lowercase (blake3_hex sample_libs (Blob [7, 7])) = to_lowercase (replicate 64 (CHR ''1''))"
proof -
  obtain w' where run: "download_binary sample_libs [] ''app'' ''2.0.0'' ''linux-x86_64'' (sample_world sample_tree3) =
     (Inr \<lparr>content_type = ''application/octet-stream'', content_length = 2, body = Blob [7, 7]\<rparr>, w')"
    using sample_download by blast
  have "stored_manifest sample_libs [] ''app'' ''2.0.0'' (sample_world sample_tree3) =
      Some \<lparr>vm_version = version_new 2 0 0, vm_platforms = [LinuxX86_64 \<mapsto>
           \<lparr>pa_checksum = replicate 64 (CHR ''1''), pa_size = 2, diffs_from = []\<rparr>]\<rparr>"
    by (simp add: stored_manifest_def file_at_def lookup_def sample_world_def sample_tree3_def)
  from served_binary_verified [OF quiet_sample run sample_valid(2) this] show ?thesis by simp
qed

text \<open>
  A diff to a version whose prerelease contains \<open>-to-\<close> can never be downloaded: the specification
  splits into three parts and is refused, although both versions are valid.
\<close>

lemma diff_spec_ambiguous:
  "(\<exists>w'. download_diff L d app (''1.0.0'' @ ''-to-'' @ ''2.0.0-a-to-3.0.0'') ps w = (Inl bad_request, w')) \<and>
   validate_version ''1.0.0'' = Inr () \<and> validate_version ''2.0.0-a-to-3.0.0'' = Inr ()"
proof -
  have "split_str ''-to-'' (''1.0.0'' @ ''-to-'' @ ''2.0.0-a-to-3.0.0'') = [''1.0.0'', ''2.0.0-a'', ''3.0.0'']"
    by code_simp
  then show ?thesis
    unfolding download_diff_def
    by (simp add: bindE_def map_err_def from_sum_def throwE_def validate_version_Inr_iff valid_name_char_def
        ascii_defs starts_with_def split: sum.split)
qed

end
