(* ===== verification/Crypto.thy ===== *)
theory Crypto
  imports Prelude
begin

text \<open>
  The hash values and the signed message of \<open>crates/deltaship-crypto/src\<close> (\<open>hashing.rs\<close> and
  \<open>signing.rs\<close>): the hexadecimal form of a BLAKE3 hash and the canonical signing payload. BLAKE3 and
  Ed25519 themselves are library code; where they matter they are parameters.
\<close>

section \<open>Numbers as text\<close>

definition to_digit16 :: "char \<Rightarrow> nat option" where
  "to_digit16 c =
     (let n = of_char c :: nat in
      if 48 \<le> n \<and> n \<le> 57 then Some (n - 48)
      else if 97 \<le> n \<and> n \<le> 102 then Some (n - 87)
      else if 65 \<le> n \<and> n \<le> 70 then Some (n - 55)
      else None)"

lemma to_digit16_digit_char [simp]: "n < 16 \<Longrightarrow> to_digit16 (digit_char n) = Some n"
  by (simp add: to_digit16_def digit_char_def Let_def)

text \<open>\<open>u8::from_str_radix(s, 16)\<close>: an optional sign \<open>+\<close>, then at least one digit, with the value checked
  against the range of the type.\<close>

fun radix16 :: "nat \<Rightarrow> string \<Rightarrow> nat option" where
  "radix16 acc [] = Some acc"
| "radix16 acc (c # s) =
     (case to_digit16 c of
        None \<Rightarrow> None
      | Some n \<Rightarrow> if 255 < acc * 16 + n then None else radix16 (acc * 16 + n) s)"

definition u8_from_str_radix16 :: "string \<Rightarrow> u8 option" where
  "u8_from_str_radix16 s =
     (case s of
        [] \<Rightarrow> None
      | c # t \<Rightarrow>
          if t = [] \<and> (c = CHR ''+'' \<or> c = CHR ''-'') then None
          else map_option of_nat (radix16 0 (if c = CHR ''+'' then t else s)))"

text \<open>\<open>{:02x}\<close>.\<close>

definition hex_byte :: "u8 \<Rightarrow> string" where
  "hex_byte b = [digit_char (unat b div 16), digit_char (unat b mod 16)]"

lemma u8_hex_byte [simp]: "u8_from_str_radix16 (hex_byte b) = Some b"
proof -
  have "unat b < 256" using unsigned_less [of b, where ?'a = nat] by simp
  then have d: "unat b div 16 < 16" "unat b mod 16 < 16" "unat b div 16 * 16 + unat b mod 16 = unat b"
    by auto
  moreover have "digit_char (unat b div 16) \<noteq> CHR ''+''"
    using to_digit16_digit_char [OF d(1)] by (auto simp: to_digit16_def Let_def)
  moreover have "unat b div 16 \<le> 255" using d(1) by simp
  ultimately show ?thesis
    using \<open>unat b < 256\<close> by (simp add: u8_from_str_radix16_def hex_byte_def)
qed


section \<open>Hashes\<close>

datatype crypto_error = InvalidHex string

definition to_hex :: "bytes \<Rightarrow> string" where
  "to_hex h = concat (map hex_byte h)"

text \<open>A chunk of two bytes is valid UTF-8 if it is two ASCII bytes or one two-byte character.\<close>

definition utf8_pair :: "char \<Rightarrow> char \<Rightarrow> bool" where
  "utf8_pair a b \<longleftrightarrow>
     (of_char a :: nat) < 128 \<and> (of_char b :: nat) < 128 \<or>
     0xC2 \<le> (of_char a :: nat) \<and> (of_char a :: nat) \<le> 0xDF \<and> 0x80 \<le> (of_char b :: nat) \<and> (of_char b :: nat) < 0xC0"

fun hex_chunks :: "string \<Rightarrow> crypto_error + bytes" where
  "hex_chunks (a # b # s) =
     (if \<not> utf8_pair a b then Inl (InvalidHex ''invalid UTF-8'')
      else case u8_from_str_radix16 [a, b] of
             None \<Rightarrow> Inl (InvalidHex (''invalid hex: '' @ [a, b]))
           | Some x \<Rightarrow> (case hex_chunks s of Inl e \<Rightarrow> Inl e | Inr xs \<Rightarrow> Inr (x # xs)))"
| "hex_chunks _ = Inr []"

definition from_hex :: "string \<Rightarrow> crypto_error + bytes" where
  "from_hex s =
     (if length s \<noteq> 64 then Inl (InvalidHex (''expected 64 hex chars, got '' @ show_nat (length s)))
      else hex_chunks s)"

lemma utf8_hex_byte: "hex_byte b = [x, y] \<Longrightarrow> utf8_pair x y"
proof -
  assume *: "hex_byte b = [x, y]"
  have lt: "(of_char (digit_char n) :: nat) < 128" if "n < 16" for n
    using that by (simp add: digit_char_def)
  have "unat b < 256" using unsigned_less [of b, where ?'a = nat] by simp
  then have "unat b div 16 < 16" "unat b mod 16 < 16" by auto
  then show ?thesis using * lt by (auto simp: hex_byte_def utf8_pair_def)
qed

lemma length_to_hex: "length (to_hex h) = 2 * length h"
  by (induction h) (simp_all add: to_hex_def hex_byte_def)

lemma hex_chunks_to_hex: "hex_chunks (to_hex h) = Inr h"
proof (induction h)
  case (Cons b h)
  obtain x y where xy: "hex_byte b = [x, y]" by (simp add: hex_byte_def)
  then have "utf8_pair x y" by (rule utf8_hex_byte)
  moreover have "u8_from_str_radix16 [x, y] = Some b" using u8_hex_byte [of b] xy by simp
  moreover have "to_hex (b # h) = x # y # to_hex h" by (simp add: to_hex_def xy)
  ultimately show ?case using Cons by simp
qed (simp add: to_hex_def)


section \<open>The signed message\<close>

definition SIGNING_DOMAIN_TAG :: bytes where
  "SIGNING_DOMAIN_TAG = map of_char ''DELTASHIP-sig-v1'' @ [0]"

definition signing_payload :: "bytes \<Rightarrow> string \<Rightarrow> bytes" where
  "signing_payload blake3_hash version_string =
     SIGNING_DOMAIN_TAG @ blake3_hash @ map of_char version_string"


section \<open>Properties\<close>

text \<open>
  The hexadecimal form of a hash determines it. Parsing the text of a 32-byte hash gives the hash
  back.
\<close>

theorem hash_hex_roundtrip:
  assumes "length h = 32"
  shows "from_hex (to_hex h) = Inr h"
  using assms by (simp add: from_hex_def length_to_hex hex_chunks_to_hex)

theorem hash_hex_roundtrip_witness: "from_hex (to_hex (replicate 32 171)) = Inr (replicate 32 171)"
  by (rule hash_hex_roundtrip) simp

text \<open>
  Parsing accepts text that is not hexadecimal. A sign \<open>+\<close> in front of a digit is taken by the
  integer parser, so that 64 characters with \<open>+\<close> signs among them denote a hash.
\<close>

lemma from_hex_accepts_plus:
  "from_hex (concat (replicate 32 ''+f'')) = Inr (replicate 32 15)"
proof -
  have "hex_chunks (concat (replicate n ''+f'')) = Inr (replicate n 15)" for n
    by (induction n) (simp_all add: utf8_pair_def u8_from_str_radix16_def to_digit16_def)
  moreover have "length (concat (replicate 32 ''+f'')) = 64" by (simp add: eval_nat_numeral)
  ultimately show ?thesis by (simp add: from_hex_def)
qed

text \<open>
  A signature binds the binary and the version. Two different pairs of a 32-byte hash and a version
  string never have the same signed message, so that a signature for one is not a signature for the
  other; every signed message starts with the domain tag.
\<close>

theorem signing_payload_binds:
  assumes "length h = 32" "length h' = 32" "signing_payload h v = signing_payload h' v'"
  shows "h = h' \<and> v = v'"
  using assms by (auto simp: signing_payload_def inj_map_eq_map [OF of_char_u8_inj])

theorem signing_payload_binds_witness:
  "signing_payload (replicate 32 0) ''1.0.0'' \<noteq> signing_payload (replicate 32 0) ''1.0.1''"
  using signing_payload_binds [of "replicate 32 0" "replicate 32 0" "''1.0.0''" "''1.0.1''"] by auto

end
