(* ===== verification/Publish_Route.thy ===== *)
theory Publish_Route
  imports Download_Route Crypto
begin

text \<open>
  The publishing endpoints (\<open>crates/deltaship-server/src/routes/publish.rs\<close>): uploading a version or a
  diff, activating a version, reading and changing its rollout. A multipart request is the sequence
  of the fields the \<open>axum\<close> extractor yields, each with the chunks of its body; reading the next field or
  the next chunk may fail. The random suffixes of temporary files are parameters.
\<close>

section \<open>Requests and answers\<close>

record form_field =
  f_name :: "string option"
  f_chunks :: "bytes option list"

datatype multipart_item = NextErr | NextField form_field

type_synonym http_error = "status_code \<times> string"

record publish_response =
  pr_success :: bool
  pr_message :: string
  version_id :: string

definition publish_success :: "string \<Rightarrow> string \<Rightarrow> publish_response" where
  "publish_success vid message = \<lparr>pr_success = True, pr_message = message, version_id = vid\<rparr>"

definition ED25519_SIGNATURE_SIZE :: nat where "ED25519_SIGNATURE_SIZE = 64"
definition MAX_MULTIPART_FIELDS :: nat where "MAX_MULTIPART_FIELDS = 10"
definition MAX_BINARY_FIELD_SIZE :: u64 where "MAX_BINARY_FIELD_SIZE = 512 * 1024 * 1024"
definition MAX_DIFF_FIELD_SIZE :: u64 where "MAX_DIFF_FIELD_SIZE = 256 * 1024 * 1024"
definition MAX_TEXT_FIELD_SIZE :: nat where "MAX_TEXT_FIELD_SIZE = 64 * 1024"
definition MAX_SIGNATURE_FIELD_SIZE :: nat where "MAX_SIGNATURE_FIELD_SIZE = 1024"


section \<open>Reading fields\<close>

fun all_chunks :: "bytes option list \<Rightarrow> bytes option" where
  "all_chunks [] = Some []"
| "all_chunks (None # cs) = None"
| "all_chunks (Some c # cs) = map_option (\<lambda>r. c @ r) (all_chunks cs)"

definition read_field_bytes_limited :: "form_field \<Rightarrow> nat \<Rightarrow> string \<Rightarrow> http_error + bytes" where
  "read_field_bytes_limited f max_size name =
     (case all_chunks (f_chunks f) of
        None \<Rightarrow> Inl bad_request
      | Some bytes \<Rightarrow>
          if max_size < length bytes
          then Inl (PAYLOAD_TOO_LARGE, ''Field '' @ [CHR 0x27] @ name @ [CHR 0x27] @ '' exceeds size limit'')
          else Inr bytes)"

definition read_field_text_limited :: "'c libs \<Rightarrow> form_field \<Rightarrow> nat \<Rightarrow> string \<Rightarrow> http_error + string" where
  "read_field_text_limited L f max_size name =
     (case read_field_bytes_limited f max_size name of
        Inl e \<Rightarrow> Inl e
      | Inr bytes \<Rightarrow>
          if utf8 L (of_bytes L bytes) then Inr (map (\<lambda>b. char_of (unat b)) bytes)
          else Inl (BAD_REQUEST, ''Field '' @ [CHR 0x27] @ name @ [CHR 0x27] @ '' contains invalid UTF-8''))"

definition uniq_suffix :: "u64 \<Rightarrow> nat \<Rightarrow> string" where
  "uniq_suffix rnd nanos = show_radix 16 (unat rnd) @ show_nat nanos"

record streamed_field =
  sf_temp_path :: path
  sf_hash :: bytes
  sf_hex :: string
  sf_size :: u64

definition cleanup :: "path \<Rightarrow> ('c, 'e, unit) io" where
  "cleanup p = bindE (attempt (remove_file p)) (\<lambda>_. returnE ())"

text \<open>The loop over the chunks; \<open>acc\<close> are the bytes hashed and written so far.\<close>

fun stream_chunks ::
  "'c libs \<Rightarrow> path \<Rightarrow> u64 \<Rightarrow> string \<Rightarrow> bytes \<Rightarrow> u64 \<Rightarrow> bytes option list \<Rightarrow> ('c, http_error, bytes \<times> u64) io" where
  "stream_chunks L temp max_size name acc received [] = returnE (acc, received)"
| "stream_chunks L temp max_size name acc received (None # cs) =
     bindE (cleanup temp) (\<lambda>_. throwE bad_request)"
| "stream_chunks L temp max_size name acc received (Some chunk # cs) =
     (let received' = saturating_add received (of_nat (length chunk)) in
      if max_size < received'
      then bindE (cleanup temp) (\<lambda>_. throwE (PAYLOAD_TOO_LARGE,
             ''Field '' @ [CHR 0x27] @ name @ [CHR 0x27] @ '' exceeds size limit''))
      else bindE (attempt (write_file temp (of_bytes L (acc @ chunk)))) (\<lambda>written.
           if written = None then bindE (cleanup temp) (\<lambda>_. throwE internal_error)
           else stream_chunks L temp max_size name (acc @ chunk) received' cs))"

definition stream_field_to_temp ::
  "'c libs \<Rightarrow> form_field \<Rightarrow> path \<Rightarrow> u64 \<Rightarrow> string \<Rightarrow> string \<Rightarrow> ('c, http_error, streamed_field) io" where
  "stream_field_to_temp L f dir max_size name suffix =
     bindE (map_err (\<lambda>_. internal_error) (create_dir_all dir)) (\<lambda>_.
     let temp_path = path_join dir (''.upload-'' @ name @ ''-'' @ suffix @ ''.tmp'') in
     bindE (map_err (\<lambda>_. internal_error) (write_file temp_path (content0 L))) (\<lambda>_.
     bindE (stream_chunks L temp_path max_size name [] 0 (f_chunks f)) (\<lambda>(bytes, received).
     bindE (attempt io_point) (\<lambda>flushed.
     if flushed = None then bindE (cleanup temp_path) (\<lambda>_. throwE internal_error)
     else returnE \<lparr>sf_temp_path = temp_path, sf_hash = blake3 L (of_bytes L bytes),
            sf_hex = blake3_hex L (of_bytes L bytes), sf_size = received\<rparr>))))"

definition decode_signature :: "'c libs \<Rightarrow> string \<Rightarrow> bytes option" where
  "decode_signature L input =
     (let s = trim input in
      if \<forall>c \<in> set s. is_ascii_hexdigit c then hex_decode L s else base64_decode L s)"

record collected =
  c_binary :: "streamed_field option"
  c_platform :: "string option"
  c_signature :: "bytes option"
  c_checksum :: "string option"
  c_notes :: "string option"

definition collect_field ::
  "'c libs \<Rightarrow> path \<Rightarrow> string \<Rightarrow> form_field \<Rightarrow> collected \<Rightarrow> ('c, http_error, collected) io" where
  "collect_field L vdir suffix f acc =
     (let name = (case f_name f of Some n \<Rightarrow> n | None \<Rightarrow> []) in
      if name = ''binary'' then
        bindE (stream_field_to_temp L f vdir MAX_BINARY_FIELD_SIZE ''binary'' suffix) (\<lambda>s.
        returnE (acc\<lparr>c_binary := Some s\<rparr>))
      else if name = ''platform'' then
        bindE (from_sum (read_field_text_limited L f MAX_TEXT_FIELD_SIZE ''platform'')) (\<lambda>t.
        returnE (acc\<lparr>c_platform := Some t\<rparr>))
      else if name = ''signature'' then
        bindE (from_sum (read_field_text_limited L f MAX_SIGNATURE_FIELD_SIZE ''signature'')) (\<lambda>t.
        case decode_signature L t of
          None \<Rightarrow> throwE (BAD_REQUEST, ''Invalid signature'')
        | Some s \<Rightarrow> returnE (acc\<lparr>c_signature := Some s\<rparr>))
      else if name = ''checksum'' then
        bindE (from_sum (read_field_text_limited L f MAX_TEXT_FIELD_SIZE ''checksum'')) (\<lambda>t.
        returnE (acc\<lparr>c_checksum := Some t\<rparr>))
      else if name = ''release_notes'' then
        bindE (from_sum (read_field_text_limited L f MAX_TEXT_FIELD_SIZE ''release_notes'')) (\<lambda>t.
        returnE (if t \<noteq> [] then acc\<lparr>c_notes := Some t\<rparr> else acc))
      else returnE acc)"

text \<open>\<open>n\<close> fields have been read; \<open>rng n\<close> are the random number and the time of day drawn for the next
  one.\<close>

fun collect_fields ::
  "'c libs \<Rightarrow> path \<Rightarrow> (nat \<Rightarrow> u64 \<times> nat) \<Rightarrow> nat \<Rightarrow> collected \<Rightarrow> multipart_item list
   \<Rightarrow> ('c, http_error, collected) io" where
  "collect_fields L vdir rng n acc [] = returnE acc"
| "collect_fields L vdir rng n acc (NextErr # items) = throwE bad_request"
| "collect_fields L vdir rng n acc (NextField f # items) =
     (if MAX_MULTIPART_FIELDS < n + 1 then throwE (BAD_REQUEST, ''Too many multipart fields'')
      else bindE (collect_field L vdir (uniq_suffix (fst (rng n)) (snd (rng n))) f acc) (\<lambda>acc'.
           collect_fields L vdir rng (n + 1) acc' items))"


section \<open>The handlers\<close>

definition bail :: "path \<Rightarrow> http_error \<Rightarrow> ('c, http_error, 'a) io" where
  "bail temp_path e = bindE (cleanup temp_path) (\<lambda>_. throwE e)"

definition signature_ok :: "'c libs \<Rightarrow> publisher \<Rightarrow> bytes \<Rightarrow> string \<Rightarrow> bytes \<Rightarrow> bool" where
  "signature_ok L pub hash version sig =
     (case pubkey pub of
        Some key \<Rightarrow> ed25519_verify L key (signing_payload hash version) sig
      | None \<Rightarrow> True)"

text \<open>The end of \<open>publish_version\<close>: the verified upload is moved into place and recorded.\<close>

definition publish_commit ::
  "'c libs \<Rightarrow> path \<Rightarrow> string \<Rightarrow> string \<Rightarrow> version \<Rightarrow> platform \<Rightarrow> string \<Rightarrow> bytes \<Rightarrow> streamed_field
   \<Rightarrow> string option \<Rightarrow> ('c, http_error, publish_response) io" where
  "publish_commit L data_dir app_name version parsed_version plat checksum signature_data binary_stream notes =
     (let temp_path = sf_temp_path binary_stream in
      bindE (attempt (save_binary_from_temp data_dir app_name version plat temp_path)) (\<lambda>saved.
      if saved = None then bail temp_path internal_error
      else
      bindE (map_err (\<lambda>_. internal_error)
        (save_signature data_dir app_name version (of_bytes L signature_data))) (\<lambda>_.
      bindE (map_err (\<lambda>_. internal_error)
        (update_manifest L data_dir app_name version plat checksum (sf_size binary_stream))) (\<lambda>_.
      bindE (map_err (\<lambda>_. internal_error)
        (update_catalog_atomic L data_dir app_name
          \<lparr>vi_version = parsed_version, vi_platforms = [plat], vi_release_notes = notes,
           vi_forced = False, vi_rollout = None\<rparr>)) (\<lambda>_.
      returnE (publish_success version
        (''Successfully published version '' @ version @ '' for '' @ app_name)))))))"

text \<open>The part of \<open>publish_version\<close> after the fields are collected: the checks, each of which removes the
  staged file when it fails.\<close>

definition publish_staged ::
  "'c libs \<Rightarrow> path \<Rightarrow> string \<Rightarrow> string \<Rightarrow> version \<Rightarrow> publisher \<Rightarrow> collected
   \<Rightarrow> ('c, http_error, publish_response) io" where
  "publish_staged L data_dir app_name version parsed_version pub form =
     (case c_binary form of
        None \<Rightarrow> throwE (BAD_REQUEST, ''Missing required field: binary'')
      | Some binary_stream \<Rightarrow>
     (let temp_path = sf_temp_path binary_stream in
      case c_platform form of
        None \<Rightarrow> bail temp_path (BAD_REQUEST, ''Missing required field: platform'')
      | Some platform_str \<Rightarrow>
     (case platform_from_str platform_str of
        Inl _ \<Rightarrow> bail temp_path (BAD_REQUEST, ''Invalid platform'')
      | Inr plat \<Rightarrow>
     (case c_signature form of
        None \<Rightarrow> bail temp_path (BAD_REQUEST, ''Missing required field: signature'')
      | Some signature_data \<Rightarrow>
      if length signature_data \<noteq> ED25519_SIGNATURE_SIZE then bail temp_path (BAD_REQUEST, ''Invalid signature'')
      else
     (case c_checksum form of
        None \<Rightarrow> bail temp_path (BAD_REQUEST, ''Missing required field: checksum'')
      | Some checksum \<Rightarrow>
      if \<not> (\<forall>c \<in> set checksum. is_ascii_hexdigit c) \<or> length checksum \<noteq> 64
      then bail temp_path (BAD_REQUEST, ''Invalid checksum format'')
      else if to_lowercase (sf_hex binary_stream) \<noteq> to_lowercase checksum
      then bail temp_path (BAD_REQUEST, ''Checksum verification failed'')
      else if \<not> signature_ok L pub (sf_hash binary_stream) version signature_data
      then bail temp_path (BAD_REQUEST, ''Signature verification failed'')
      else
      publish_commit L data_dir app_name version parsed_version plat checksum signature_data
        binary_stream (c_notes form))))))"

definition publish_upload ::
  "'c libs \<Rightarrow> path \<Rightarrow> string \<Rightarrow> string \<Rightarrow> version \<Rightarrow> publisher \<Rightarrow> path \<Rightarrow> (nat \<Rightarrow> u64 \<times> nat) \<Rightarrow> multipart_item list
   \<Rightarrow> ('c, http_error, publish_response) io" where
  "publish_upload L data_dir app_name version parsed_version pub vdir rng multipart =
     bindE (collect_fields L vdir rng 0
             \<lparr>c_binary = None, c_platform = None, c_signature = None, c_checksum = None, c_notes = None\<rparr>
             multipart) (\<lambda>form.
     publish_staged L data_dir app_name version parsed_version pub form)"

definition publish_version ::
  "'c libs \<Rightarrow> path \<Rightarrow> string \<Rightarrow> string \<Rightarrow> publisher \<Rightarrow> (nat \<Rightarrow> u64 \<times> nat) \<Rightarrow> multipart_item list
   \<Rightarrow> ('c, http_error, publish_response) io" where
  "publish_version L data_dir app_name version pub rng multipart =
     bindE (map_err (\<lambda>_. bad_request) (from_sum (validate_name app_name))) (\<lambda>_.
     bindE (map_err (\<lambda>_. bad_request) (from_sum (validate_version version))) (\<lambda>_.
     bindE (map_err (\<lambda>_. (BAD_REQUEST, ''Invalid version format''))
             (from_sum (version_from_str (sv_parse L) version))) (\<lambda>parsed_version.
     if \<not> can_publish pub app_name then throwE (FORBIDDEN, ''Not authorized for this app'')
     else
     bindE (map_err (\<lambda>_. internal_error) (ensure_version_dir data_dir app_name version)) (\<lambda>vdir.
     publish_upload L data_dir app_name version parsed_version pub vdir rng multipart))))"

definition activate_version ::
  "'c libs \<Rightarrow> path \<Rightarrow> string \<Rightarrow> string \<Rightarrow> publisher \<Rightarrow> ('c, http_error, publish_response) io" where
  "activate_version L data_dir app_name version pub =
     bindE (map_err (\<lambda>_. bad_request) (from_sum (validate_name app_name))) (\<lambda>_.
     if \<not> can_publish pub app_name then throwE (FORBIDDEN, ''Not authorized for this app'')
     else
     bindE (map_err (\<lambda>_. bad_request) (from_sum (validate_version version))) (\<lambda>_.
     bindE (map_err (\<lambda>e. case e of SNotFound _ \<Rightarrow> (NOT_FOUND, ''Version not found'') | _ \<Rightarrow> internal_error)
             (set_latest_version L data_dir app_name version)) (\<lambda>_.
     returnE (publish_success version
       (''Version '' @ version @ '' is now the latest for '' @ app_name)))))"

record diff_fields =
  d_stream :: "streamed_field option"
  d_platform :: "string option"
  d_checksum :: "string option"
  d_algorithm :: string

definition collect_diff_field ::
  "'c libs \<Rightarrow> path \<Rightarrow> string \<Rightarrow> form_field \<Rightarrow> diff_fields \<Rightarrow> ('c, http_error, diff_fields) io" where
  "collect_diff_field L diffs_dir suffix f acc =
     (let name = (case f_name f of Some n \<Rightarrow> n | None \<Rightarrow> []) in
      if name = ''diff'' then
        bindE (stream_field_to_temp L f diffs_dir MAX_DIFF_FIELD_SIZE ''diff'' suffix) (\<lambda>s.
        returnE (acc\<lparr>d_stream := Some s\<rparr>))
      else if name = ''platform'' then
        bindE (from_sum (read_field_text_limited L f MAX_TEXT_FIELD_SIZE ''platform'')) (\<lambda>t.
        returnE (acc\<lparr>d_platform := Some t\<rparr>))
      else if name = ''checksum'' then
        bindE (from_sum (read_field_text_limited L f MAX_TEXT_FIELD_SIZE ''checksum'')) (\<lambda>t.
        returnE (acc\<lparr>d_checksum := Some t\<rparr>))
      else if name = ''algorithm'' then
        bindE (from_sum (read_field_text_limited L f MAX_TEXT_FIELD_SIZE ''algorithm'')) (\<lambda>alg.
        if alg \<notin> {''bsdiff'', ''courgette'', ''xdelta3''} then throwE (BAD_REQUEST, ''Invalid algorithm'')
        else returnE (acc\<lparr>d_algorithm := alg\<rparr>))
      else returnE acc)"

fun collect_diff_fields ::
  "'c libs \<Rightarrow> path \<Rightarrow> (nat \<Rightarrow> u64 \<times> nat) \<Rightarrow> nat \<Rightarrow> diff_fields \<Rightarrow> multipart_item list
   \<Rightarrow> ('c, http_error, diff_fields) io" where
  "collect_diff_fields L dir rng n acc [] = returnE acc"
| "collect_diff_fields L dir rng n acc (NextErr # items) = throwE bad_request"
| "collect_diff_fields L dir rng n acc (NextField f # items) =
     (if MAX_MULTIPART_FIELDS < n + 1 then throwE (BAD_REQUEST, ''Too many multipart fields'')
      else bindE (collect_diff_field L dir (uniq_suffix (fst (rng n)) (snd (rng n))) f acc) (\<lambda>acc'.
           collect_diff_fields L dir rng (n + 1) acc' items))"

definition upload_staged ::
  "'c libs \<Rightarrow> path \<Rightarrow> string \<Rightarrow> string \<Rightarrow> string \<Rightarrow> version \<Rightarrow> diff_fields
   \<Rightarrow> ('c, http_error, publish_response) io" where
  "upload_staged L data_dir app_name from_v to_v parsed_from form =
     (case d_stream form of
        None \<Rightarrow> throwE (BAD_REQUEST, ''Missing required field: diff'')
      | Some diff_stream \<Rightarrow>
     (let temp_path = sf_temp_path diff_stream in
      case d_platform form of
        None \<Rightarrow> bail temp_path (BAD_REQUEST, ''Missing required field: platform'')
      | Some platform_str \<Rightarrow>
     (case platform_from_str platform_str of
        Inl _ \<Rightarrow> bail temp_path (BAD_REQUEST, ''Invalid platform'')
      | Inr plat \<Rightarrow>
     (case d_checksum form of
        None \<Rightarrow> bail temp_path (BAD_REQUEST, ''Missing required field: checksum'')
      | Some checksum \<Rightarrow>
      if \<not> (\<forall>c \<in> set checksum. is_ascii_hexdigit c) \<or> length checksum \<noteq> 64
      then bail temp_path (BAD_REQUEST, ''Invalid checksum format'')
      else if to_lowercase (sf_hex diff_stream) \<noteq> to_lowercase checksum
      then bail temp_path (BAD_REQUEST, ''Checksum verification failed'')
      else
      bindE (attempt (save_diff_from_temp data_dir app_name from_v to_v plat temp_path)) (\<lambda>saved.
      if saved = None then bail temp_path internal_error
      else
      bindE (map_err (\<lambda>_. internal_error) (add_diff_to_manifest L data_dir app_name to_v plat
        \<lparr>from_version = parsed_from, di_checksum = checksum, di_size = sf_size diff_stream,
         di_algorithm = d_algorithm form\<rparr>)) (\<lambda>_.
      returnE (publish_success to_v
        (''Successfully uploaded diff from '' @ from_v @ '' to '' @ to_v @ '' for '' @ app_name))))))))"

definition upload_fields ::
  "'c libs \<Rightarrow> path \<Rightarrow> string \<Rightarrow> string \<Rightarrow> string \<Rightarrow> version \<Rightarrow> path \<Rightarrow> (nat \<Rightarrow> u64 \<times> nat) \<Rightarrow> multipart_item list
   \<Rightarrow> ('c, http_error, publish_response) io" where
  "upload_fields L data_dir app_name from_v to_v parsed_from diffs_dir rng multipart =
     bindE (collect_diff_fields L diffs_dir rng 0
             \<lparr>d_stream = None, d_platform = None, d_checksum = None, d_algorithm = ''bsdiff''\<rparr>
             multipart) (\<lambda>form.
     upload_staged L data_dir app_name from_v to_v parsed_from form)"

definition upload_diff ::
  "'c libs \<Rightarrow> path \<Rightarrow> string \<Rightarrow> string \<Rightarrow> string \<Rightarrow> publisher \<Rightarrow> (nat \<Rightarrow> u64 \<times> nat) \<Rightarrow> multipart_item list
   \<Rightarrow> ('c, http_error, publish_response) io" where
  "upload_diff L data_dir app_name from_v to_v pub rng multipart =
     bindE (map_err (\<lambda>_. bad_request) (from_sum (validate_name app_name))) (\<lambda>_.
     if \<not> can_publish pub app_name then throwE (FORBIDDEN, ''Not authorized for this app'')
     else
     bindE (map_err (\<lambda>_. bad_request) (from_sum (validate_version from_v))) (\<lambda>_.
     bindE (map_err (\<lambda>_. bad_request) (from_sum (validate_version to_v))) (\<lambda>_.
     bindE (map_err (\<lambda>_. (BAD_REQUEST, ''Invalid version format''))
             (from_sum (version_from_str (sv_parse L) from_v))) (\<lambda>parsed_from.
     bindE (map_err (\<lambda>_. (BAD_REQUEST, ''Invalid version format''))
             (from_sum (version_from_str (sv_parse L) to_v))) (\<lambda>_.
     bindE (map_err (\<lambda>_. internal_error) (ensure_diffs_dir data_dir app_name)) (\<lambda>_.
     upload_fields L data_dir app_name from_v to_v parsed_from
       (path_join (app_dir data_dir app_name) ''diffs'') rng multipart))))))"

record rollout_response =
  rr_success :: bool
  rr_rollout :: rollout_config
  rr_message :: string

text \<open>The change of \<open>update_rollout\<close>; \<open>now1\<close> and \<open>now2\<close> are its two readings of the clock, as text.\<close>

definition set_percentage :: "string \<Rightarrow> string \<Rightarrow> u8 \<Rightarrow> rollout_config \<Rightarrow> rollout_config" where
  "set_percentage now1 now2 new_percentage config =
     (let old_percentage = percentage config;
          c1 = config\<lparr>percentage := new_percentage\<rparr>;
          c2 = (if old_percentage = 0 \<and> 0 < new_percentage \<and> started_at c1 = None
                then c1\<lparr>started_at := Some now1\<rparr> else c1)
      in if 100 \<le> new_percentage \<and> completed_at c2 = None
         then c2\<lparr>completed_at := Some now2\<rparr> else c2)"

definition update_rollout ::
  "'c libs \<Rightarrow> path \<Rightarrow> string \<Rightarrow> string \<Rightarrow> publisher \<Rightarrow> string \<Rightarrow> string \<Rightarrow> u8
   \<Rightarrow> ('c, http_error, rollout_response) io" where
  "update_rollout L data_dir app_name version pub now1 now2 new_percentage =
     bindE (map_err (\<lambda>_. bad_request) (from_sum (validate_name app_name))) (\<lambda>_.
     if \<not> can_publish pub app_name then throwE (FORBIDDEN, ''Not authorized for this app'')
     else
     bindE (map_err (\<lambda>_. bad_request) (from_sum (validate_version version))) (\<lambda>_.
     if 100 < new_percentage then throwE (BAD_REQUEST, ''Percentage must be between 0 and 100'')
     else
     bindE (get_version_manifest L data_dir app_name version) (\<lambda>manifest.
     if manifest = None then throwE (NOT_FOUND, ''Version not found'')
     else
     bindE (map_err (\<lambda>_. internal_error)
       (update_rollout_config_atomic L data_dir app_name version (set_percentage now1 now2 new_percentage))) (\<lambda>config.
     returnE \<lparr>rr_success = True, rr_rollout = config,
       rr_message = ''Rollout updated to '' @ show_nat (unat (percentage config)) @ ''% for version ''
         @ version @ '' of '' @ app_name\<rparr>))))"

definition get_rollout ::
  "'c libs \<Rightarrow> path \<Rightarrow> string \<Rightarrow> string \<Rightarrow> ('c, http_error, rollout_response) io" where
  "get_rollout L data_dir app_name version =
     bindE (map_err (\<lambda>_. bad_request) (from_sum (validate_name app_name))) (\<lambda>_.
     bindE (map_err (\<lambda>_. bad_request) (from_sum (validate_version version))) (\<lambda>_.
     bindE (get_version_manifest L data_dir app_name version) (\<lambda>manifest.
     if manifest = None then throwE (NOT_FOUND, ''Version not found'')
     else
     bindE (get_rollout_config L data_dir app_name version) (\<lambda>config.
     returnE \<lparr>rr_success = True,
       rr_rollout = (case config of Some c \<Rightarrow> c | None \<Rightarrow> rollout_default),
       rr_message = ''Rollout config for version '' @ version @ '' of '' @ app_name\<rparr>))))"

section \<open>Staging an upload\<close>

lemma uniq_suffix_slash: "CHR ''/'' \<notin> set (uniq_suffix r n)"
proof
  assume "CHR ''/'' \<in> set (uniq_suffix r n)"
  then have "is_ascii_alphanumeric (CHR ''/'')"
    using show_radix_alnum [of 16] show_radix_alnum [of 10] by (auto simp: uniq_suffix_def)
  then show False by (simp add: ascii_defs)
qed

lemma temp_component:
  "CHR ''/'' \<notin> set name \<Longrightarrow> CHR ''/'' \<notin> set suffix \<Longrightarrow>
     plain_component (CHR ''.'' # CHR ''u'' # CHR ''p'' # CHR ''l'' # CHR ''o'' # CHR ''a'' # CHR ''d'' # CHR ''-'' #
       name @ CHR ''-'' # suffix @ ''.tmp'')"
  by (auto simp: plain_component_def)

text \<open>What a request submits: the last field of each name counts.\<close>

fun last_field :: "string \<Rightarrow> multipart_item list \<Rightarrow> form_field option" where
  "last_field n [] = None"
| "last_field n (NextErr # items) = last_field n items"
| "last_field n (NextField f # items) =
     (case last_field n items of Some g \<Rightarrow> Some g | None \<Rightarrow> if f_name f = Some n then Some f else None)"

definition field_bytes :: "string \<Rightarrow> multipart_item list \<Rightarrow> bytes option" where
  "field_bytes n items = Option.bind (last_field n items) (\<lambda>f. all_chunks (f_chunks f))"

definition field_text :: "'c libs \<Rightarrow> string \<Rightarrow> nat \<Rightarrow> multipart_item list \<Rightarrow> string option" where
  "field_text L n max_size items = Option.bind (last_field n items)
     (\<lambda>f. case read_field_text_limited L f max_size n of Inr t \<Rightarrow> Some t | Inl _ \<Rightarrow> None)"

definition submitted :: "'c libs \<Rightarrow> multipart_item list \<Rightarrow> platform \<Rightarrow> bytes \<Rightarrow> bytes \<Rightarrow> bool" where
  "submitted L items plat bytes sig \<longleftrightarrow>
     Option.bind (field_text L ''platform'' MAX_TEXT_FIELD_SIZE items)
       (\<lambda>t. case platform_from_str t of Inr p \<Rightarrow> Some p | Inl _ \<Rightarrow> None) = Some plat \<and>
     field_bytes ''binary'' items = Some bytes \<and>
     Option.bind (field_text L ''signature'' MAX_SIGNATURE_FIELD_SIZE items) (decode_signature L) = Some sig"

lemma last_field_snoc [simp]:
  "last_field n (seen @ [NextField f]) = (if f_name f = Some n then Some f else last_field n seen)"
  by (induction n seen rule: last_field.induct) (auto split: option.split)

text \<open>The file of a streamed field holds the bytes its hash and size were computed from.\<close>

definition staged :: "'c libs \<Rightarrow> path \<Rightarrow> 'c world \<Rightarrow> bytes \<Rightarrow> streamed_field \<Rightarrow> bool" where
  "staged L dir w bytes sf \<longleftrightarrow> file_at w (sf_temp_path sf) = Some (of_bytes L bytes) \<and>
     sf_hash sf = blake3 L (of_bytes L bytes) \<and> sf_hex sf = blake3_hex L (of_bytes L bytes) \<and>
     sf_size sf = of_nat (length bytes) \<and> (\<exists>s. sf_temp_path sf = dir @ [''.upload-'' @ s])"

lemma saturating_add_below:
  assumes "saturating_add a b \<le> m" "m < - 1"
  shows "saturating_add a b = a + b"
  using assms by (auto simp: saturating_add_def split: if_splits)

lemma wp_prod: "(\<And>a b. x = (a, b) \<Longrightarrow> wp (f a b) Q E w) \<Longrightarrow> wp (case x of (a, b) \<Rightarrow> f a b) Q E w"
  by (cases x) simp

lemma wp_cleanup:
  assumes "\<And>w'. Q () w'"
  shows "wp (cleanup p) Q E w"
  unfolding cleanup_def by (intro wp_run wp_remove_file) (use assms in auto)

lemma wp_stream_chunks:
  assumes "file_at w temp = Some (of_bytes L acc)" "n = of_nat (length acc)" "m < - 1"
  shows "wp (stream_chunks L temp m name acc n cs)
     (\<lambda>(bytes, k) w'. file_at w' temp = Some (of_bytes L bytes) \<and> k = of_nat (length bytes) \<and>
        map_option (\<lambda>r. acc @ r) (all_chunks cs) = Some bytes) (\<lambda>_ _. True) w"
  using assms
proof (induction L temp m name acc n cs arbitrary: w rule: stream_chunks.induct)
  case (3 L temp m name acc n chunk cs)
  have eq: "\<not> m < saturating_add n (of_nat (length chunk)) \<Longrightarrow>
      saturating_add n (of_nat (length chunk)) = of_nat (length (acc @ chunk))"
    using saturating_add_below [of n "of_nat (length chunk)" m] 3(3,4) by (simp add: not_less)
  have all: "map_option (\<lambda>r. acc @ r) (all_chunks (Some chunk # cs)) = map_option (\<lambda>r. (acc @ chunk) @ r) (all_chunks cs)"
    by (cases "all_chunks cs") simp_all
  show ?case
    unfolding stream_chunks.simps Let_def all
    by (intro wp_run wp_write_file wp_cleanup 3) (use 3 eq in auto)
qed (auto intro!: wp_cleanup)

lemma wp_stream_field_to_temp:
  assumes "lawful L" "m < - 1" "CHR ''/'' \<notin> set name" "CHR ''/'' \<notin> set suffix"
  shows "wp (stream_field_to_temp L f dir m name suffix)
    (\<lambda>sf w'. \<exists>bytes. all_chunks (f_chunks f) = Some bytes \<and> staged L dir w' bytes sf) (\<lambda>_ _. True) w"
  unfolding stream_field_to_temp_def Let_def
proof (intro wp_run wp_no_change wp_write_file, goal_cases)
  case (1 w1 w2)
  let ?t = "path_join dir (''.upload-'' @ name @ ''-'' @ suffix @ ''.tmp'')"
  have t: "?t = dir @ [''.upload-'' @ name @ ''-'' @ suffix @ ''.tmp'']"
    using temp_component [OF assms(3,4)] by simp
  have "file_at w2 ?t = Some (of_bytes L [])"
    using 1(2) assms(1) by simp
  then show ?case
    by (rule wp_mono [OF wp_stream_chunks])
       (use assms t in \<open>auto simp: staged_def intro!: wp_prod wp_run wp_no_change wp_cleanup\<close>)
qed auto

text \<open>What has been collected comes from the fields read so far.\<close>

definition collected_from :: "'c libs \<Rightarrow> path \<Rightarrow> multipart_item list \<Rightarrow> 'c world \<Rightarrow> collected \<Rightarrow> bool" where
  "collected_from L dir seen w acc \<longleftrightarrow>
     (\<forall>sf. c_binary acc = Some sf \<longrightarrow> (\<exists>bytes. field_bytes ''binary'' seen = Some bytes \<and> staged L dir w bytes sf)) \<and>
     (\<forall>t. c_platform acc = Some t \<longrightarrow> field_text L ''platform'' MAX_TEXT_FIELD_SIZE seen = Some t) \<and>
     (\<forall>x. c_signature acc = Some x \<longrightarrow>
        Option.bind (field_text L ''signature'' MAX_SIGNATURE_FIELD_SIZE seen) (decode_signature L) = Some x)"

lemma wp_collect_field:
  assumes "lawful L" "collected_from L dir seen w acc" "CHR ''/'' \<notin> set s"
  shows "wp (collect_field L dir s f acc) (\<lambda>acc' w'. collected_from L dir (seen @ [NextField f]) w' acc') (\<lambda>_ _. True) w"
proof -
  have "wp (stream_field_to_temp L f dir MAX_BINARY_FIELD_SIZE ''binary'' s)
      (\<lambda>sf w'. \<exists>bytes. all_chunks (f_chunks f) = Some bytes \<and> staged L dir w' bytes sf) (\<lambda>_ _. True) w"
    by (rule wp_stream_field_to_temp) (use assms in \<open>auto simp: MAX_BINARY_FIELD_SIZE_def\<close>)
  then show ?thesis
    unfolding collect_field_def Let_def
    by (intro wp_run)
       (use assms(2) in \<open>auto simp: collected_from_def field_bytes_def field_text_def elim!: wp_mono split: option.splits\<close>)
qed

lemma wp_collect_fields:
  assumes "lawful L" "collected_from L dir seen w acc"
  shows "wp (collect_fields L dir rng n acc items) (\<lambda>acc' w'. collected_from L dir (seen @ items) w' acc')
     (\<lambda>_ _. True) w"
  using assms
proof (induction L dir rng n acc items arbitrary: w seen rule: collect_fields.induct)
  case (3 L dir rng n acc f items)
  show ?case
    unfolding collect_fields.simps
    by (intro wp_run wp_mono [OF wp_collect_field [OF 3(2,3) uniq_suffix_slash]])
       (use 3(1) [where seen = "seen @ [NextField f]"] 3(2) in auto)
qed auto


section \<open>A successful publication\<close>

text \<open>What the store holds once \<open>bytes\<close> with the signature \<open>sig\<close> are published as a version for a platform.\<close>

definition published ::
  "'c libs \<Rightarrow> path \<Rightarrow> string \<Rightarrow> string \<Rightarrow> version \<Rightarrow> platform \<Rightarrow> bytes \<Rightarrow> bytes \<Rightarrow> 'c world \<Rightarrow> bool" where
  "published L d app s v plat bytes sig w \<longleftrightarrow> (\<exists>man art cat vi.
     file_at w (get_binary_path d app s plat) = Some (of_bytes L bytes) \<and>
     file_at w (get_signature_path d app s) = Some (of_bytes L sig) \<and>
     stored_manifest L d app s w = Some man \<and> vm_platforms man plat = Some art \<and>
     to_lowercase (blake3_hex L (of_bytes L bytes)) = to_lowercase (pa_checksum art) \<and>
     pa_size art = content_len L (of_bytes L bytes) \<and>
     stored_catalog L d app w = Some cat \<and> vi \<in> set (cat_versions cat) \<and>
     version_eq (vi_version vi) v \<and> plat \<in> set (vi_platforms vi) \<and>
     version_cmp (sv_pre_cmp L) (latest_version cat) v \<noteq> Less)"

text \<open>Without a registered public key the server stores a signature unchecked.\<close>

definition checked_signature :: "'c libs \<Rightarrow> publisher \<Rightarrow> string \<Rightarrow> bytes \<Rightarrow> bytes \<Rightarrow> bool" where
  "checked_signature L pub s bytes sig \<longleftrightarrow> length sig = 64 \<and>
     (\<forall>key. pubkey pub = Some key \<longrightarrow> ed25519_verify L key (signing_payload (blake3 L (of_bytes L bytes)) s) sig)"

lemma catalog_put_covers:
  assumes "comparator (sv_pre_cmp L)"
  shows "version_cmp (sv_pre_cmp L) (latest_version (catalog_put (sv_pre_cmp L) vi cat)) (vi_version vi) \<noteq> Less"
    "\<exists>x \<in> set (cat_versions (catalog_put (sv_pre_cmp L) vi cat)). version_eq (vi_version x) (vi_version vi) \<and>
       set (vi_platforms vi) \<subseteq> set (vi_platforms x)"
proof -
  have c: "comparator (version_cmp (sv_pre_cmp L))" using assms by (rule comparator_version_cmp)
  show "version_cmp (sv_pre_cmp L) (latest_version (catalog_put (sv_pre_cmp L) vi cat)) (vi_version vi) \<noteq> Less"
    using comparator.cmp_refl [OF c] comparator.cmp_flip [OF c, of "vi_version vi" "latest_version cat"]
    by (auto simp: catalog_put_simps)
qed (use put_version_has in \<open>simp add: catalog_put_simps\<close>)

lemma wp_save_binary_from_temp:
  assumes "file_at w t = Some c"
    and "\<And>w'. file_at w' = (file_at w)(t := None, get_binary_path d app s p \<mapsto> c) \<Longrightarrow> Q () w'"
    and "\<And>e w'. E e w'"
  shows "wp (save_binary_from_temp d app s p t) Q E w"
  unfolding save_binary_from_temp_def ensure_version_dir_def Let_def bindE_assoc bindE_return
  by (intro wp_run wp_no_change wp_rename) (use assms in \<open>auto simp: store_paths\<close>)

lemma wp_save_signature:
  assumes "\<And>w'. file_at w' = (file_at w)(get_signature_path d app s \<mapsto> c) \<Longrightarrow> Q () w'"
    and "\<And>e w'. E e w'"
  shows "wp (save_signature d app s c) Q E w"
  unfolding save_signature_def ensure_version_dir_def Let_def bindE_assoc bindE_return
  by (intro wp_run wp_no_change wp_write_file) (use assms in \<open>auto simp: store_paths\<close>)

lemma wp_publish_commit:
  assumes L: "lawful L" "comparator (sv_pre_cmp L)" and names: "slash_free s"
    and bytes: "staged L (version_dir d app s) w bytes sf" and ok: "to_lowercase (sf_hex sf) = to_lowercase cs"
  shows "wp (publish_commit L d app s v plat cs sig sf notes) (\<lambda>_ w'. published L d app s v plat bytes sig w')
    (\<lambda>_ _. True) w"
proof -
  let ?bin = "get_binary_path d app s plat" and ?sig = "get_signature_path d app s"
  note bytes = bytes [unfolded staged_def]
  let ?vi = "\<lparr>vi_version = v, vi_platforms = [plat], vi_release_notes = notes, vi_forced = False,
    vi_rollout = None\<rparr>"
  have final: "published L d app s v plat bytes sig w'"
    if "file_at w' ?bin = Some (of_bytes L bytes)" "file_at w' ?sig = Some (of_bytes L sig)"
      "stored_manifest L d app s w' = Some (manifest_put plat cs (sf_size sf) man)"
      "stored_catalog L d app w' = Some (catalog_put (sv_pre_cmp L) ?vi cat)" for w' man cat
  proof -
    obtain x where x: "x \<in> set (cat_versions (catalog_put (sv_pre_cmp L) ?vi cat))"
        "version_eq (vi_version x) v" "plat \<in> set (vi_platforms x)"
      using catalog_put_covers(2) [OF L(2), of ?vi cat] by auto
    show ?thesis
      unfolding published_def
      by (intro exI [of _ "manifest_put plat cs (sf_size sf) man"]
          exI [of _ "\<lparr>pa_checksum = cs, pa_size = sf_size sf, diffs_from = []\<rparr>"]
          exI [of _ "catalog_put (sv_pre_cmp L) ?vi cat"] exI [of _ x] conjI)
         (use that ok bytes x L(1) catalog_put_covers(1) [OF L(2), of ?vi cat] in
           \<open>simp_all add: manifest_put_def\<close>)
  qed
  have catalog_step: "wp (update_catalog_atomic L d app ?vi) (\<lambda>_ w'. published L d app s v plat bytes sig w') (\<lambda>_ _. True) w1"
    if "file_at w1 ?bin = Some (of_bytes L bytes)" "file_at w1 ?sig = Some (of_bytes L sig)"
      "stored_manifest L d app s w1 = Some (manifest_put plat cs (sf_size sf) man)" for w1 man
    by (rule wp_touches [OF touches_exact(4)],
        rule wp_mono [OF update_catalog_atomic_outcome [OF L(1)]])
       (use that names in \<open>auto simp: same_outside_def stored_manifest_def store_paths version_dir_segment intro!: final\<close>)
  have manifest_step: "wp (update_manifest L d app s plat cs (sf_size sf))
      (\<lambda>_. wp (update_catalog_atomic L d app ?vi) (\<lambda>_ w'. published L d app s v plat bytes sig w') (\<lambda>_ _. True))
      (\<lambda>_ _. True) w1"
    if "file_at w1 ?bin = Some (of_bytes L bytes)" "file_at w1 ?sig = Some (of_bytes L sig)" for w1
    by (rule wp_touches [OF touches_exact(3)],
        rule wp_mono [OF update_manifest_outcome [OF L(1)]])
       (use that in \<open>auto simp: same_outside_def store_paths intro!: catalog_step\<close>)
  show ?thesis
    unfolding publish_commit_def Let_def bail_def
    by (intro wp_run wp_save_binary_from_temp [OF bytes [THEN conjunct1]] wp_save_signature wp_cleanup)
       (use manifest_step in \<open>auto simp: store_paths\<close>)
qed

lemma wp_publish_staged:
  assumes L: "lawful L" "comparator (sv_pre_cmp L)" and names: "slash_free s"
    and st: "collected_from L (version_dir d app s) mp w form"
  shows "wp (publish_staged L d app s v pub form)
    (\<lambda>_ w'. \<exists>plat bytes sig. submitted L mp plat bytes sig \<and> checked_signature L pub s bytes sig \<and>
       published L d app s v plat bytes sig w') (\<lambda>_ _. True) w"
proof -
  have commit: "wp (publish_commit L d app s v plat cs sig sf rn)
      (\<lambda>_ w'. \<exists>plat bytes sig. submitted L mp plat bytes sig \<and> checked_signature L pub s bytes sig \<and>
         published L d app s v plat bytes sig w') (\<lambda>_ _. True) w"
    if form: "c_binary form = Some sf" "c_platform form = Some t" "platform_from_str t = Inr plat" "c_signature form = Some sig"
      "length sig = ED25519_SIGNATURE_SIZE" "to_lowercase (sf_hex sf) = to_lowercase cs" "signature_ok L pub (sf_hash sf) s sig"
    for sf t plat sig cs rn
  proof -
    obtain bytes where b: "field_bytes ''binary'' mp = Some bytes" "staged L (version_dir d app s) w bytes sf"
      using st form(1) by (auto simp: collected_from_def)
    have "submitted L mp plat bytes sig" "checked_signature L pub s bytes sig"
      using st form b by (auto simp: collected_from_def submitted_def checked_signature_def ED25519_SIGNATURE_SIZE_def signature_ok_def
        staged_def)
    then show ?thesis
      by (intro wp_mono [OF wp_publish_commit [OF L names b(2) form(6)]]) auto
  qed
  show ?thesis
    unfolding publish_staged_def bail_def Let_def
    by (intro wp_run wp_cleanup commit) auto
qed

lemma publish_version_published:
  assumes L: "lawful L" "comparator (sv_pre_cmp L)"
  shows "wp (publish_version L d app s pub rng mp)
    (\<lambda>r w'. can_publish pub app \<and> (\<exists>v plat bytes sig. sv_parse L s = Inr v \<and> submitted L mp plat bytes sig \<and>
       checked_signature L pub s bytes sig \<and> published L d app s v plat bytes sig w')) (\<lambda>_ _. True) w"
proof -
  have tail: "wp (publish_upload L d app s v pub (version_dir d app s) rng mp)
      (\<lambda>_ w'. \<exists>plat bytes sig. submitted L mp plat bytes sig \<and> checked_signature L pub s bytes sig \<and>
         published L d app s v plat bytes sig w') (\<lambda>_ _. True) w1" if "slash_free s" for v w1
    unfolding publish_upload_def
    by (intro wp_bindE [THEN iffD2] wp_mono [OF wp_collect_fields [OF L(1), where seen = "[]"]] wp_publish_staged [OF L that])
       (auto simp: collected_from_def)
  show ?thesis
    unfolding publish_version_def ensure_version_dir_def Let_def flatten_bind
    by (intro wp_handler_checks wp_branch wp_bindE [THEN iffD2] wp_map_err [THEN iffD2] wp_no_change)
       (auto simp: version_from_str_def split: sum.splits dest: name_slash_free intro!: wp_mono [OF tail])
qed

lemma publish_version_validated:
  assumes "publish_version L d app s pub rng mp w = (Inr r, w')"
  shows "validate_name app = Inr () \<and> validate_version s = Inr ()"
  using assms
  by (auto simp: publish_version_def bindE_def map_err_def from_sum_def split: sum.splits)


section \<open>Footprints of uploads\<close>

lemma touches_cleanup: "p \<in> S \<Longrightarrow> touches S (cleanup p)" "p \<in> S \<Longrightarrow> touches S (bail p e)"
  by (auto simp: cleanup_def bail_def intro!: touches_intros)

lemma touches_stream_chunks: "temp \<in> S \<Longrightarrow> touches S (stream_chunks L temp m name acc n cs)"
proof (induction cs arbitrary: acc n)
  case (Cons c cs)
  then show ?case
    by (cases c) (auto simp: Let_def intro!: touches_intros touches_cleanup)
qed (auto intro!: touches_intros)

lemma touches_stream_field_to_temp:
  assumes "\<And>s. dir @ [''.upload-'' @ s] \<in> S" "CHR ''/'' \<notin> set name" "CHR ''/'' \<notin> set suffix"
  shows "touches S (stream_field_to_temp L f dir m name suffix)"
proof -
  have "path_join dir (''.upload-'' @ name @ ''-'' @ suffix @ ''.tmp'') \<in> S"
    using temp_component [OF assms(2,3)] assms(1) [of "name @ ''-'' @ suffix @ ''.tmp''"] by simp
  then show ?thesis
    unfolding stream_field_to_temp_def Let_def case_prod_unfold
    by (intro touches_intros touches_stream_chunks touches_cleanup)
qed

lemma touches_collect_field:
  assumes "\<And>s. dir @ [''.upload-'' @ s] \<in> S" "CHR ''/'' \<notin> set suffix"
  shows "touches S (collect_field L dir suffix f acc)"
    and "touches S (collect_diff_field L dir suffix f dacc)"
  unfolding collect_field_def collect_diff_field_def Let_def
  by (intro touches_intros touches_stream_field_to_temp assms; simp)+

lemma touches_collect_fields:
  assumes "\<And>s. dir @ [''.upload-'' @ s] \<in> S"
  shows "touches S (collect_fields L dir rng n acc items)"
    and "touches S (collect_diff_fields L dir rng n dacc items)"
proof (induction items arbitrary: n acc dacc)
  case (Cons x items)
  {
    case 1
    show ?case
      by (cases x) (auto simp only: collect_fields.simps
          intro!: touches_intros touches_collect_field(1) assms uniq_suffix_slash Cons(1))
  next
    case 2
    show ?case
      by (cases x) (auto simp only: collect_diff_fields.simps
          intro!: touches_intros touches_collect_field(2) assms uniq_suffix_slash Cons(2))
  }
qed (auto intro!: touches_intros)

text \<open>Where the staged file of a collected form lies.\<close>

definition staged_in :: "path \<Rightarrow> streamed_field option \<Rightarrow> bool" where
  "staged_in dir s \<longleftrightarrow> (\<forall>sf. s = Some sf \<longrightarrow> (\<exists>n. sf_temp_path sf = dir @ [''.upload-'' @ n]))"

lemma staged_in_None [simp]: "staged_in dir None"
  by (simp add: staged_in_def)

lemma wp_temp_path:
  assumes "CHR ''/'' \<notin> set name" "CHR ''/'' \<notin> set suffix"
  shows "wp (stream_field_to_temp L f dir m name suffix)
    (\<lambda>sf _. \<exists>n. sf_temp_path sf = dir @ [''.upload-'' @ n]) (\<lambda>_ _. True) w"
proof -
  have "path_join dir (''.upload-'' @ name @ ''-'' @ suffix @ ''.tmp'') =
      dir @ [''.upload-'' @ name @ ''-'' @ suffix @ ''.tmp'']"
    using temp_component [OF assms] by simp
  then show ?thesis
    by (auto simp: stream_field_to_temp_def Let_def wp_def bindE_def returnE_def throwE_def cleanup_def attempt_def
        split: prod.splits sum.splits if_splits)
qed

lemma collect_fields_staged_in:
  assumes "staged_in dir (c_binary acc)"
  shows "wp (collect_fields L dir rng n acc items) (\<lambda>acc' _. staged_in dir (c_binary acc')) (\<lambda>_ _. True) w"
  using assms
proof (induction L dir rng n acc items arbitrary: w rule: collect_fields.induct)
  case (3 L dir rng n acc f items w)
  have field: "wp (collect_field L dir s f acc) (\<lambda>acc' _. staged_in dir (c_binary acc')) (\<lambda>_ _. True) w"
    if "CHR ''/'' \<notin> set s" for s
    unfolding collect_field_def Let_def
    by (intro wp_run wp_mono [OF wp_temp_path]) (use 3(2) that in \<open>auto simp: staged_in_def\<close>)
  show ?case
    unfolding collect_fields.simps
    by (intro wp_run wp_mono [OF field [OF uniq_suffix_slash] 3(1)]) auto
qed auto

lemma collect_diff_fields_staged_in:
  assumes "staged_in dir (d_stream acc)"
  shows "wp (collect_diff_fields L dir rng n acc items) (\<lambda>acc' _. staged_in dir (d_stream acc')) (\<lambda>_ _. True) w"
  using assms
proof (induction L dir rng n acc items arbitrary: w rule: collect_diff_fields.induct)
  case (3 L dir rng n acc f items w)
  have field: "wp (collect_diff_field L dir s f acc) (\<lambda>acc' _. staged_in dir (d_stream acc')) (\<lambda>_ _. True) w"
    if "CHR ''/'' \<notin> set s" for s
    unfolding collect_diff_field_def Let_def
    by (intro wp_run wp_mono [OF wp_temp_path]) (use 3(2) that in \<open>auto simp: staged_in_def\<close>)
  show ?case
    unfolding collect_diff_fields.simps
    by (intro wp_run wp_mono [OF field [OF uniq_suffix_slash] 3(1)]) auto
qed auto


lemma touches_publish_staged:
  assumes names: "slash_free s" and st: "staged_in (version_dir d app s) (c_binary form)"
  shows "touches (app_files d app) (publish_staged L d app s v pub form)"
proof -
  have "sf_temp_path sf \<in> app_files d app" if "c_binary form = Some sf" for sf
    using st that names by (auto simp: staged_in_def)
  then show ?thesis
    unfolding publish_staged_def publish_commit_def Let_def
    by (cases "c_binary form")
       (auto intro!: touches_intros touches_cleanup touches_storage_version touches_storage_app names
         split: option.split)
qed

lemma touches_publish_version:
  assumes names: "slash_free s"
  shows "touches (app_files d app) (publish_version L d app s pub rng mp)"
proof -
  let ?vdir = "version_dir d app s"
  have "touches (app_files d app) (publish_upload L d app s v pub ?vdir rng mp)" for v
    unfolding publish_upload_def
    by (rule footprint.keeps_bindE_ret [where P = "\<lambda>form. staged_in ?vdir (c_binary form)"])
       (auto intro!: touches_collect_fields touches_publish_staged names collect_fields_staged_in version_files_mem)
  then show ?thesis
    unfolding publish_version_def ensure_version_dir_def Let_def flatten_bind
    by (intro touches_intros) simp_all
qed

lemma touches_upload_diff:
  assumes names: "slash_free u" "slash_free s"
  shows "touches (app_files d app) (upload_diff L d app u s pub rng mp)"
proof -
  let ?dir = "path_join (app_dir d app) ''diffs''"
  have staged: "touches (app_files d app) (upload_staged L d app u s v form)"
    if st: "staged_in ?dir (d_stream form)" for v form
  proof -
    have "sf_temp_path sf \<in> app_files d app" if "d_stream form = Some sf" for sf
      using st that by (auto simp: staged_in_def)
    then show ?thesis
      unfolding upload_staged_def Let_def
      by (cases "d_stream form")
         (auto intro!: touches_intros touches_cleanup touches_storage_version touches_storage_diff names
           split: option.split)
  qed
  have "touches (app_files d app) (upload_fields L d app u s v ?dir rng mp)" for v
    unfolding upload_fields_def
    by (rule footprint.keeps_bindE_ret [where P = "\<lambda>form. staged_in ?dir (d_stream form)"])
       (auto intro!: touches_collect_fields staged collect_diff_fields_staged_in)
  then show ?thesis
    unfolding upload_diff_def by (intro touches_intros touches_storage_app)
qed

text \<open>Uploads keep the catalogs well formed.\<close>

lemma keeps_catalogs_bail:
  "p \<notin> catalog_files d \<Longrightarrow> keeps_catalogs L d (bail p e)"
  by (intro keeps_catalogs_other touches_cleanup) simp

lemma keeps_catalogs_artifacts:
  shows "t \<notin> catalog_files d \<Longrightarrow> keeps_catalogs L d (save_binary_from_temp d app s p t)"
    "keeps_catalogs L d (save_signature d app s data)"
    "keeps_catalogs L d (update_manifest L d app s p checksum sz)"
    "keeps_catalogs L d (add_diff_to_manifest L d app s p di)"
    "keeps_catalogs L d (update_rollout_config_atomic L d app s g)"
    "keeps_catalogs L d (create_dir_all q)"
  by (auto intro!: keeps_catalogs_other touches_no_catalog touches_intros)

lemma from_sum_simps: "from_sum (Inr x) = returnE x" "from_sum (Inl e) = throwE e"
  by (rule ext, simp add: from_sum_def returnE_def throwE_def)+

lemma bindE_throw: "bindE (throwE e) f = throwE e" "map_err h (throwE e) = throwE (h e)"
  by (rule ext, simp add: bindE_def throwE_def map_err_def)+

lemma keeps_catalogs_publish_commit:
  assumes L: "lawful L" "total_comparator (sv_pre_cmp L)" and names: "slash_free app"
    and t: "sf_temp_path sf \<notin> catalog_files d" and v: "sv_parse L (sv_show L v) = Inr v"
  shows "keeps_catalogs L d (publish_commit L d app s v plat cs sig sf notes)"
  unfolding publish_commit_def Let_def
  by (intro catalog_inv.keeps_intros keeps_catalogs_bail [OF t] keeps_catalogs_artifacts(1-3)
       keeps_catalogs_storage(1) [OF L(1) names L(2)] t; simp add: v)

lemma keeps_catalogs_publish_staged:
  assumes L: "lawful L" "total_comparator (sv_pre_cmp L)" and names: "slash_free app"
    and t: "\<And>sf. c_binary form = Some sf \<Longrightarrow> sf_temp_path sf \<notin> catalog_files d"
    and v: "sv_parse L (sv_show L v) = Inr v"
  shows "keeps_catalogs L d (publish_staged L d app s v pub form)"
proof (cases "c_binary form")
  case None
  then show ?thesis unfolding publish_staged_def by (simp add: catalog_inv.keeps_intros)
next
  case (Some sf)
  note t = t [OF this]
  show ?thesis
    unfolding publish_staged_def Let_def Some option.case
    by (intro catalog_inv.keeps_intros keeps_catalogs_bail [OF t] keeps_catalogs_publish_commit L names t v)
qed

lemma keeps_catalogs_publish_version:
  assumes L: "lawful L" "total_comparator (sv_pre_cmp L)" and names: "slash_free app"
  shows "keeps_catalogs L d (publish_version L d app s pub rng mp)"
proof -
  let ?vdir = "version_dir d app s"
  have upload: "keeps_catalogs L d (publish_upload L d app s v pub ?vdir rng mp)" if "sv_parse L s = Inr v" for v
  proof -
    have v: "sv_parse L (sv_show L v) = Inr v" using L(1) that unfolding lawful_def by blast
    have t: "\<And>n. ?vdir @ [''.upload-'' @ n] \<notin> catalog_files d" by simp
    show ?thesis
      unfolding publish_upload_def
    proof (rule catalog_inv.keeps_bindE_ret [where P = "\<lambda>form. staged_in ?vdir (c_binary form)"])
      show "keeps_catalogs L d (publish_staged L d app s v pub form)" if "staged_in ?vdir (c_binary form)" for form
        by (rule keeps_catalogs_publish_staged [OF L names _ v]) (use that t in \<open>auto simp: staged_in_def\<close>)
    qed (intro keeps_catalogs_other touches_collect_fields collect_fields_staged_in; use t in \<open>simp add: staged_in_def\<close>)+
  qed
  show ?thesis
  proof (cases "sv_parse L s")
    case (Inl e)
    then show ?thesis
      unfolding publish_version_def ensure_version_dir_def Let_def flatten_bind version_from_str_def
      by (simp only: sum.case from_sum_simps bindE_throw) (intro catalog_inv.keeps_intros)
  next
    case (Inr v)
    then show ?thesis
      unfolding publish_version_def ensure_version_dir_def Let_def flatten_bind version_from_str_def
      by (simp only: sum.case from_sum_simps flatten_bind)
         (intro catalog_inv.keeps_intros keeps_catalogs_artifacts; simp add: upload)
  qed
qed

lemma keeps_catalogs_routes:
  assumes L: "lawful L" "total_comparator (sv_pre_cmp L)" and names: "slash_free app"
  shows "keeps_catalogs L d (activate_version L d app s pub)"
    "keeps_catalogs L d (update_rollout L d app s pub now1 now2 pct)"
proof -
  show "keeps_catalogs L d (activate_version L d app s pub)"
    unfolding activate_version_def
    by (intro catalog_inv.keeps_intros keeps_catalogs_storage(2) L names)
  have "keeps_catalogs L d (get_version_manifest L d app s)"
    unfolding get_version_manifest_def read_to_string_def Let_def
    by (intro keeps_catalogs_other touches_intros)
  then show "keeps_catalogs L d (update_rollout L d app s pub now1 now2 pct)"
    unfolding update_rollout_def
    by (intro catalog_inv.keeps_intros keeps_catalogs_artifacts)
qed


section \<open>A concrete upload\<close>

definition text_bytes :: "string \<Rightarrow> bytes" where
  "text_bytes txt = map of_char txt"

definition sample_field :: "string \<Rightarrow> string \<Rightarrow> multipart_item" where
  "sample_field name txt = NextField \<lparr>f_name = Some name, f_chunks = [Some (text_bytes txt)]\<rparr>"

definition sample_form :: "multipart_item list" where
  "sample_form = [NextField \<lparr>f_name = Some ''binary'', f_chunks = [Some [7], Some [7]]\<rparr>,
     sample_field ''platform'' ''linux-x86_64'', sample_field ''signature'' (replicate 128 (CHR ''a'')),
     sample_field ''checksum'' (replicate 64 (CHR ''1''))]"

definition sample_publisher :: publisher where
  "sample_publisher = \<lparr>owner = ''ci'', allowed_apps = Some [''app''], pubkey = Some []\<rparr>"

definition sample_dirs :: "(path \<times> sample_doc node) list" where
  "sample_dirs = [([''apps''], Dir), ([''apps'', ''app''], Dir), ([''apps'', ''app'', ''versions''], Dir),
     ([''apps'', ''app'', ''versions'', ''2.0.0''], Dir)]"

definition sample_temp :: "string list" where
  "sample_temp = [''apps'', ''app'', ''versions'', ''2.0.0'', ''.upload-binary-50.tmp'']"

definition sample_staged :: streamed_field where
  "sample_staged = \<lparr>sf_temp_path = sample_temp, sf_hash = blake3 sample_libs (Blob [7, 7]),
     sf_hex = blake3_hex sample_libs (Blob [7, 7]), sf_size = 2\<rparr>"

lemma saturating_add_sample: "saturating_add 0 1 = 1" "saturating_add 1 1 = 2"
  by (simp_all add: saturating_add_def)

lemma uniq_suffix_sample: "uniq_suffix 5 0 = ''50''"
  by code_simp

lemmas run_io = io_prims bindE_def map_err_def attempt_def returnE_def throwE_def from_sum_def next_op_def
  is_dir_def ancestors_def upt_rec lookup_def set_node_def drop_node_def del_def plain_component_def Let_def

lemma sample_stream:
  "stream_field_to_temp sample_libs \<lparr>f_name = Some ''binary'', f_chunks = [Some [7], Some [7]]\<rparr>
     [''apps'', ''app'', ''versions'', ''2.0.0''] MAX_BINARY_FIELD_SIZE ''binary'' ''50''
     \<lparr>fs = sample_dirs, tick = n, faults = \<lambda>_. NoFault\<rparr> =
   (Inr sample_staged, \<lparr>fs = sample_dirs @ [(sample_temp, File (Blob [7, 7]))], tick = n + 5, faults = \<lambda>_. NoFault\<rparr>)"
  by (simp add: stream_field_to_temp_def run_io sample_dirs_def sample_temp_def sample_staged_def
      saturating_add_sample MAX_BINARY_FIELD_SIZE_def)

lemma read_text_sample:
  "length txt \<le> m \<Longrightarrow>
     read_field_text_limited sample_libs \<lparr>f_name = nm, f_chunks = [Some (text_bytes txt)]\<rparr> m name = Inr txt"
  by (simp add: read_field_text_limited_def read_field_bytes_limited_def text_bytes_def unat_of_char comp_def)

lemma dropWhile_replicate: "\<not> P c \<Longrightarrow> dropWhile P (replicate n c) = replicate n c"
  by (cases n) simp_all

lemma trim_replicate: "\<not> is_whitespace c \<Longrightarrow> trim (replicate n c) = replicate n c"
  by (simp add: trim_def dropWhile_replicate)

lemma sample_libs_codecs:
  "hex_decode sample_libs s = Some (replicate (length s div 2) 0)"
  "blake3_hex sample_libs (Blob [7, 7]) = replicate 64 (CHR ''1'')" "ed25519_verify sample_libs k m sig"
  "de_manifest sample_libs (Blob b) = None" "de_catalog sample_libs (Blob b) = None"
  by (simp_all add: sample_libs_def)

lemma sample_collect:
  "collect_fields sample_libs [''apps'', ''app'', ''versions'', ''2.0.0''] (\<lambda>n. (5, n)) 0
     \<lparr>c_binary = None, c_platform = None, c_signature = None, c_checksum = None, c_notes = None\<rparr> sample_form
     \<lparr>fs = sample_dirs, tick = n, faults = \<lambda>_. NoFault\<rparr> =
   (Inr \<lparr>c_binary = Some sample_staged, c_platform = Some ''linux-x86_64'', c_signature = Some (replicate 64 0),
      c_checksum = Some (replicate 64 (CHR ''1'')), c_notes = None\<rparr>,
    \<lparr>fs = sample_dirs @ [(sample_temp, File (Blob [7, 7]))], tick = n + 5, faults = \<lambda>_. NoFault\<rparr>)"
proof -
  have sig: "decode_signature sample_libs (replicate 128 (CHR ''a'')) = Some (replicate 64 0)"
    by (simp add: decode_signature_def trim_replicate sample_libs_codecs is_whitespace_def ascii_defs Let_def)
  show ?thesis
    by (simp add: sample_form_def sample_field_def collect_field_def MAX_MULTIPART_FIELDS_def bindE_def returnE_def
      from_sum_def uniq_suffix_sample sample_stream read_text_sample MAX_TEXT_FIELD_SIZE_def
      MAX_SIGNATURE_FIELD_SIZE_def sig Let_def)
qed


lemma sample_parse_20: "sample_parse ''2.0.0'' = Inr (version_new 2 0 0)"
  by (simp add: sample_defs)


definition sample_signed :: "(path \<times> sample_doc node) list" where
  "sample_signed = sample_dirs @ [([''apps'', ''app'', ''versions'', ''2.0.0'', ''binary-linux-x86_64''], File (Blob [7, 7])),
     ([''apps'', ''app'', ''versions'', ''2.0.0'', ''signature.sig''], File (Blob (replicate 64 0)))]"

lemma sample_save:
  "save_binary_from_temp [] ''app'' ''2.0.0'' LinuxX86_64 sample_temp
     \<lparr>fs = sample_dirs @ [(sample_temp, File (Blob [7, 7]))], tick = n, faults = \<lambda>_. NoFault\<rparr> =
   (Inr (), \<lparr>fs = sample_dirs @ [([''apps'', ''app'', ''versions'', ''2.0.0'', ''binary-linux-x86_64''], File (Blob [7, 7]))],
      tick = n + 2, faults = \<lambda>_. NoFault\<rparr>)"
  "save_signature [] ''app'' ''2.0.0'' (Blob (replicate 64 0))
     \<lparr>fs = sample_dirs @ [([''apps'', ''app'', ''versions'', ''2.0.0'', ''binary-linux-x86_64''], File (Blob [7, 7]))],
      tick = n, faults = \<lambda>_. NoFault\<rparr> =
   (Inr (), \<lparr>fs = sample_signed, tick = n + 2, faults = \<lambda>_. NoFault\<rparr>)"
  by (simp_all add: save_binary_from_temp_def save_signature_def ensure_version_dir_def path_defs run_io sample_dirs_def sample_temp_def
        sample_signed_def)

lemma sample_manifest_tmp:
  "with_extension [''apps'', ''app'', ''versions'', ''2.0.0'', ''manifest.json''] ''json.tmp'' =
     [''apps'', ''app'', ''versions'', ''2.0.0'', ''manifest.json.tmp'']"
  by code_simp

lemma sample_manifest:
  "\<exists>m. update_manifest sample_libs [] ''app'' ''2.0.0'' LinuxX86_64 cs sz
     \<lparr>fs = sample_signed, tick = n, faults = \<lambda>_. NoFault\<rparr> =
   (Inr (), \<lparr>fs = sample_signed @ [([''apps'', ''app'', ''versions'', ''2.0.0'', ''manifest.json''], File m)],
      tick = n + 6, faults = \<lambda>_. NoFault\<rparr>)"
  by (simp add: update_manifest_def ensure_version_dir_def path_defs run_io sample_signed_def sample_dirs_def
      replace_file_def get_world_def exists_path_def read_to_string_def sample_libs_codecs version_from_str_def
      sample_parse_20 sample_manifest_tmp)


definition sample_release :: "sample_doc \<Rightarrow> (path \<times> sample_doc node) list" where
  "sample_release m = sample_signed @ [([''apps'', ''app'', ''versions'', ''2.0.0'', ''manifest.json''], File m)]"

definition sample_entry :: version_info where
  "sample_entry = \<lparr>vi_version = version_new 2 0 0, vi_platforms = [LinuxX86_64], vi_release_notes = None,
     vi_forced = False, vi_rollout = None\<rparr>"

definition sample_published :: "sample_doc \<Rightarrow> nat \<Rightarrow> sample_doc world" where
  "sample_published m n = \<lparr>fs = sample_release m @ [([''apps'', ''app'', ''diffs''], Dir),
      ([''apps'', ''app'', ''catalog.json''],
       File (CatalogDoc (catalog_put str_cmp sample_entry (empty_catalog ''app'' (version_new 2 0 0)))))],
      tick = n, faults = \<lambda>_. NoFault\<rparr>"

lemma sample_catalog_tmp:
  "with_extension [''apps'', ''app'', ''catalog.json''] ''json.tmp'' = [''apps'', ''app'', ''catalog.json.tmp'']"
  by code_simp

lemma sample_catalog_update:
  "update_catalog_atomic sample_libs [] ''app'' sample_entry
     \<lparr>fs = sample_release m, tick = n, faults = \<lambda>_. NoFault\<rparr> = (Inr (), sample_published m (n + 7))"
  by (simp add: update_catalog_atomic_def ensure_app_dirs_def path_defs run_io sample_release_def sample_signed_def
      sample_dirs_def sample_published_def replace_file_def get_world_def exists_path_def read_to_string_def
      sample_libs_codecs sample_catalog_tmp sample_entry_def)

lemma sample_commit:
  "\<exists>m k. publish_staged sample_libs [] ''app'' ''2.0.0'' (version_new 2 0 0) sample_publisher
     \<lparr>c_binary = Some sample_staged, c_platform = Some ''linux-x86_64'', c_signature = Some (replicate 64 0),
      c_checksum = Some (replicate 64 (CHR ''1'')), c_notes = None\<rparr>
    \<lparr>fs = sample_dirs @ [(sample_temp, File (Blob [7, 7]))], tick = n, faults = \<lambda>_. NoFault\<rparr> =
   (Inr (publish_success ''2.0.0'' ''Successfully published version 2.0.0 for app''), sample_published m k)"
proof -
  let ?cs = "replicate 64 (CHR ''1'')"
  have hex: "is_ascii_hexdigit (CHR ''1'')" by (simp add: ascii_defs)
  obtain m k where man: "update_manifest sample_libs [] ''app'' ''2.0.0'' LinuxX86_64 ?cs 2
     \<lparr>fs = sample_signed, tick = Suc (Suc (Suc (Suc n))), faults = \<lambda>_. NoFault\<rparr> =
   (Inr (), \<lparr>fs = sample_release m, tick = k, faults = \<lambda>_. NoFault\<rparr>)"
    using sample_manifest [of ?cs 2 "Suc (Suc (Suc (Suc n)))"] unfolding sample_release_def by blast
  show ?thesis
    by (intro exI [of _ m] exI [of _ "k + 7"])
       (simp add: publish_staged_def sample_staged_def sample_valid hex ED25519_SIGNATURE_SIZE_def signature_ok_def
       sample_libs_codecs sample_publisher_def publish_commit_def bindE_def attempt_def map_err_def returnE_def
       sample_save man sample_catalog_update [unfolded sample_entry_def] Let_def)
qed

lemma publish_sample:
  "\<exists>m k. publish_version sample_libs [] ''app'' ''2.0.0'' sample_publisher (\<lambda>n. (5, n)) sample_form (sample_world [])
   = (Inr (publish_success ''2.0.0'' ''Successfully published version 2.0.0 for app''), sample_published m k)"
proof -
  have v: "validate_version ''2.0.0'' = Inr ()"
    by (simp add: validate_version_Inr_iff valid_name_char_def ascii_defs starts_with_def)
  have dirs: "ensure_version_dir [] ''app'' ''2.0.0'' (sample_world []) =
      (Inr [''apps'', ''app'', ''versions'', ''2.0.0''], \<lparr>fs = sample_dirs, tick = 1, faults = \<lambda>_. NoFault\<rparr>)"
    by (simp add: ensure_version_dir_def run_io sample_world_def sample_dirs_def path_defs)
  have p: "version_from_str sample_parse ''2.0.0'' = Inr (version_new 2 0 0)"
    by (simp add: version_from_str_def sample_parse_20)
  have c: "can_publish sample_publisher ''app''" by (simp add: can_publish_def sample_publisher_def)
  show ?thesis
    by (simp add: publish_version_def bindE_def map_err_def from_sum_def v sample_valid p c dirs
      publish_upload_def sample_collect sample_commit)
qed

lemma quiet_sample_published: "quiet (sample_published m k)"
  by (simp add: quiet_def sample_published_def)



section \<open>Downloading what was published\<close>

lemma ok_open_content:
  assumes "quiet w" "file_at w p = Some c"
    and "\<And>w'. quiet w' \<Longrightarrow> lookup w' = lookup w \<Longrightarrow> Q c w'"
  shows "wp (open_content p) Q E w"
proof -
  have lk: "lookup w p = Some (File c)"
    using assms(2) by (auto simp: file_at_def split: option.splits node.splits)
  show ?thesis
    unfolding open_content_def
    by (intro wp_run ok_open_file [OF assms(1) lk]) (use assms lk in \<open>auto simp: file_at_def\<close>)
qed

lemma ok_serve_file:
  assumes "quiet w" "file_at w p = Some c"
    and "\<And>cs. expected = Some cs \<Longrightarrow> to_lowercase (blake3_hex L c) = to_lowercase cs"
    and "\<And>w'. quiet w' \<Longrightarrow> lookup w' = lookup w \<Longrightarrow>
      Q \<lparr>content_type = ct, content_length = content_len L c, body = c\<rparr> w'"
  shows "wp (serve_file L p ct expected) Q E w"
proof -
  have lk: "lookup w p = Some (File c)"
    using assms(2) by (auto simp: file_at_def split: option.splits node.splits)
  have tail: "wp (open_content p) (\<lambda>x. wp io_point
      (\<lambda>_. Q \<lparr>content_type = ct, content_length = content_len L x, body = x\<rparr>) (\<lambda>_. E internal_error)) E w1"
    if "quiet w1" "lookup w1 = lookup w" for w1
    by (intro ok_open_content [where c = c] ok_io_point)
       (use that assms(4) lk in \<open>auto simp: file_at_def\<close>)
  show ?thesis
    unfolding serve_file_def
    by (cases expected)
       (use assms lk in \<open>auto intro!: tail wp_run ok_open_file [where c = c] ok_read_file [where c = c]\<close>)
qed

lemma download_binary_served:
  assumes "quiet w" "validate_name app = Inr ()" "validate_version v = Inr ()"
    and "file_at w (get_binary_path d app v p) = Some c"
    and "stored_manifest L d app v w = Some man" "vm_platforms man p = Some art"
    and "to_lowercase (blake3_hex L c) = to_lowercase (pa_checksum art)"
  shows "wp (download_binary L d app v (platform_as_str p)) (\<lambda>r _. body r = c) (\<lambda>_ _. False) w"
  unfolding download_binary_def Let_def
  by (intro wp_handler_checks wp_run ok_readers ok_serve_file [where c = c])
     (use assms in \<open>auto simp: platform_from_str_as_str exists_path_def file_at_def
        split: option.splits node.splits\<close>)

lemma download_signature_served:
  assumes "quiet w" "validate_name app = Inr ()" "validate_version v = Inr ()"
    and "file_at w (get_signature_path d app v) = Some c"
  shows "wp (download_signature L d app v) (\<lambda>r _. body r = c) (\<lambda>_ _. False) w"
  unfolding download_signature_def Let_def
  by (intro wp_handler_checks wp_run ok_serve_file [where c = c])
     (use assms in \<open>auto simp: exists_path_def file_at_def split: option.splits node.splits\<close>)

lemma wp_total: "wp m Q (\<lambda>_ _. False) w \<longleftrightarrow> (\<exists>x w'. m w = (Inr x, w') \<and> Q x w')"
  by (auto simp: wp_def split: prod.splits sum.splits)



lemma update_rollout_config_outcome:
  assumes "lawful L"
  shows "wp (update_rollout_config_atomic L d app s g)
    (\<lambda>r w'. stored_rollout L d app s w' = Some r \<and>
       (\<exists>old. r = g old \<and> (stored_rollout L d app s w = Some old \<or> old = rollout_default)))
    (\<lambda>_ w'. stored_rollout L d app s w' = stored_rollout L d app s w) w"
  unfolding update_rollout_config_atomic_def ensure_version_dir_def Let_def stored_rollout_def bindE_assoc bindE_return
  by (intro wp_storage) (use assms in \<open>auto simp: store_paths split: option.splits\<close>)

lemma update_rollout_result:
  assumes "lawful L"
    and "update_rollout L d app s pub now1 now2 pct w = (Inr r, w')"
  shows "pct \<le> 100 \<and> can_publish pub app \<and> stored_rollout L d app s w' = Some (rr_rollout r) \<and>
    percentage (rr_rollout r) = pct \<and>
    (\<exists>old. rr_rollout r = set_percentage now1 now2 pct old \<and>
       (stored_rollout L d app s w = Some old \<or> old = rollout_default))"
proof -
  have "wp (update_rollout L d app s pub now1 now2 pct)
    (\<lambda>r w'. pct \<le> 100 \<and> can_publish pub app \<and> stored_rollout L d app s w' = Some (rr_rollout r) \<and>
       (\<exists>old. rr_rollout r = set_percentage now1 now2 pct old \<and>
         (stored_rollout L d app s w = Some old \<or> old = rollout_default))) (\<lambda>_ _. True) w"
    unfolding update_rollout_def
    by (intro wp_handler_checks wp_run wp_readers wp_mono [OF update_rollout_config_outcome [OF assms(1)]])
       (auto simp: stored_rollout_def)
  from wpD(1) [OF this assms(2)] show ?thesis
    by (auto simp: set_percentage_def Let_def)
qed

lemma set_percentage_facts:
  "percentage (set_percentage now1 now2 pct c) = pct" "enabled (set_percentage now1 now2 pct c) = enabled c"
  "100 \<le> pct \<Longrightarrow> completed_at (set_percentage now1 now2 pct c) \<noteq> None"
  by (auto simp: set_percentage_def Let_def)

definition sample_tree4 :: "(path \<times> sample_doc node) list" where
  "sample_tree4 = sample_dirs @ [([''apps'', ''app'', ''versions'', ''2.0.0'', ''manifest.json''],
     File (ManifestDoc \<lparr>vm_version = version_new 2 0 0, vm_platforms = Map.empty\<rparr>))]"

lemma sample_rollout:
  "\<exists>r w'. update_rollout sample_libs [] ''app'' ''2.0.0'' sample_publisher ''t1'' ''t2'' 30 (sample_world sample_tree4)
     = (Inr r, w')"
proof -
  have v: "validate_version ''2.0.0'' = Inr ()"
    by (simp add: validate_version_Inr_iff valid_name_char_def ascii_defs starts_with_def)
  have man: "get_version_manifest sample_libs [] ''app'' ''2.0.0'' (sample_world sample_tree4) =
      (Inr (Some \<lparr>vm_version = version_new 2 0 0, vm_platforms = Map.empty\<rparr>),
       \<lparr>fs = sample_tree4, tick = 1, faults = \<lambda>_. NoFault\<rparr>)"
    by (simp add: get_version_manifest_def path_defs run_io get_world_def exists_path_def read_to_string_def
      sample_world_def sample_tree4_def sample_dirs_def)
  have tmp: "with_extension [''apps'', ''app'', ''versions'', ''2.0.0'', ''rollout.json''] ''json.tmp'' =
     [''apps'', ''app'', ''versions'', ''2.0.0'', ''rollout.json.tmp'']"
    by code_simp
  have "\<exists>c w'. update_rollout_config_atomic sample_libs [] ''app'' ''2.0.0'' g
      \<lparr>fs = sample_tree4, tick = 1, faults = \<lambda>_. NoFault\<rparr> = (Inr c, w')" for g
    by (simp add: update_rollout_config_atomic_def ensure_version_dir_def path_defs run_io sample_tree4_def sample_dirs_def
      replace_file_def get_world_def exists_path_def read_to_string_def sample_libs_codecs tmp)
  then obtain c w' where "update_rollout_config_atomic sample_libs [] ''app'' ''2.0.0'' (set_percentage ''t1'' ''t2'' 30)
      \<lparr>fs = sample_tree4, tick = 1, faults = \<lambda>_. NoFault\<rparr> = (Inr c, w')" by blast
  then show ?thesis
    by (simp add: update_rollout_def bindE_def map_err_def from_sum_def can_publish_def sample_publisher_def
      sample_valid v man returnE_def)
qed

section \<open>Properties\<close>

text \<open>
  C4: a publication that reports success leaves the release the request submitted. The publisher was authorised for the
  application, and the request had a platform, a binary and a signature field. The bytes of the binary field are stored as the
  binary of that platform, the decoded signature of 64 bytes beside it; the manifest records the checksum and size of these bytes;
  the catalog lists the version for the platform and its latest version is not older. If the publisher has registered a
  public key, the signature verifies under it over the signing payload of these bytes and this version; without a key the
  signature is stored unchecked. This holds whatever other I/O operations failed.
\<close>

theorem publish_leaves_release:
  assumes "lawful L" "comparator (sv_pre_cmp L)" "publish_version L d app s pub rng mp w = (Inr r, w')"
  shows "can_publish pub app \<and> (\<exists>v plat bytes sig. sv_parse L s = Inr v \<and> submitted L mp plat bytes sig \<and>
    published L d app s v plat bytes sig w' \<and> length sig = 64 \<and>
    (\<forall>key. pubkey pub = Some key \<longrightarrow>
       ed25519_verify L key (signing_payload (blake3 L (of_bytes L bytes)) s) sig))"
  using wpD(1) [OF publish_version_published [OF assms(1,2)] assms(3)] unfolding checked_signature_def by blast

theorem publish_leaves_release_witness:
  "\<exists>plat bytes sig w'. submitted sample_libs sample_form plat bytes sig \<and>
     published sample_libs [] ''app'' ''2.0.0'' (version_new 2 0 0) plat bytes sig w'"
proof -
  obtain r w' where "publish_version sample_libs [] ''app'' ''2.0.0'' sample_publisher (\<lambda>n. (5, n)) sample_form
      (sample_world []) = (Inr r, w')"
    using publish_sample by blast
  from publish_leaves_release [OF lawful_sample _ this] show ?thesis
    using str.comparator_axioms by (auto simp: sample_parse_20)
qed

text \<open>
  C8: what is published can be downloaded. After a successful publication, and while no read fails, downloading the binary
  of the platform the request named succeeds and returns the bytes of its binary field, and downloading the signature succeeds
  and returns the 64 bytes its signature field decodes to; if the publisher has registered a public key, they verify under it for
  the downloaded bytes and this version.
\<close>

theorem publish_download_roundtrip:
  assumes "lawful L" "comparator (sv_pre_cmp L)" "publish_version L d app s pub rng mp w = (Inr r, w')" "quiet w'"
  shows "\<exists>p bytes sig rb ws rs wt. submitted L mp p bytes sig \<and>
    download_binary L d app s (platform_as_str p) w' = (Inr rb, ws) \<and> body rb = of_bytes L bytes \<and>
    download_signature L d app s w' = (Inr rs, wt) \<and> body rs = of_bytes L sig \<and> length sig = 64 \<and>
    (\<forall>key. pubkey pub = Some key \<longrightarrow> ed25519_verify L key (signing_payload (blake3 L (body rb)) s) sig)"
proof -
  have names: "validate_name app = Inr ()" "validate_version s = Inr ()"
    using publish_version_validated [OF assms(3)] by auto
  obtain v p bytes sig where sub: "submitted L mp p bytes sig" "checked_signature L pub s bytes sig"
      and pub: "published L d app s v p bytes sig w'"
    using wpD(1) [OF publish_version_published [OF assms(1,2)] assms(3)] by blast
  obtain man art where st: "file_at w' (get_binary_path d app s p) = Some (of_bytes L bytes)"
      "file_at w' (get_signature_path d app s) = Some (of_bytes L sig)" "stored_manifest L d app s w' = Some man"
      "vm_platforms man p = Some art" "to_lowercase (blake3_hex L (of_bytes L bytes)) = to_lowercase (pa_checksum art)"
    using pub unfolding published_def by blast
  show ?thesis
    using download_binary_served [OF assms(4) names st(1,3,4,5)]
      download_signature_served [OF assms(4) names st(2), of L] sub
    unfolding wp_total checked_signature_def by metis
qed

theorem publish_download_roundtrip_witness:
  "\<exists>p w bytes sig rb ws. submitted sample_libs sample_form p bytes sig \<and>
     download_binary sample_libs [] ''app'' ''2.0.0'' (platform_as_str p) w = (Inr rb, ws) \<and> body rb = Blob bytes"
proof -
  obtain r w' where run: "publish_version sample_libs [] ''app'' ''2.0.0'' sample_publisher (\<lambda>n. (5, n)) sample_form
      (sample_world []) = (Inr r, w')" "quiet w'"
    using publish_sample quiet_sample_published by blast
  from publish_download_roundtrip [OF lawful_sample _ run] show ?thesis
    using str.comparator_axioms by simp blast
qed

text \<open>
  Changing a rollout stores exactly the requested percentage, between 0 and 100, without changing
  whether the rollout is enabled, and answers with the stored configuration.
\<close>

theorem update_rollout_stored:
  assumes "lawful L"
    and "update_rollout L d app s pub now1 now2 pct w = (Inr r, w')"
  shows "pct \<le> 100 \<and> can_publish pub app \<and> stored_rollout L d app s w' = Some (rr_rollout r) \<and>
    percentage (rr_rollout r) = pct \<and>
    (\<exists>old. enabled (rr_rollout r) = enabled old \<and> (100 \<le> pct \<longrightarrow> completed_at (rr_rollout r) \<noteq> None) \<and>
       (stored_rollout L d app s w = Some old \<or> old = rollout_default))"
  using update_rollout_result [OF assms] set_percentage_facts by metis

theorem update_rollout_stored_witness:
  "\<exists>r w'. update_rollout sample_libs [] ''app'' ''2.0.0'' sample_publisher ''t1'' ''t2'' 30 (sample_world sample_tree4)
     = (Inr r, w') \<and> percentage (rr_rollout r) = 30"
proof -
  obtain r w' where run: "update_rollout sample_libs [] ''app'' ''2.0.0'' sample_publisher ''t1'' ''t2'' 30
      (sample_world sample_tree4) = (Inr r, w')"
    using sample_rollout by blast
  with update_rollout_stored [OF lawful_sample run] show ?thesis by auto
qed

text \<open>
  A staged rollout that starts from the default configuration is never recorded as started. The
  first change of a rollout finds the default, which is at 100 percent, so that whatever percentage
  is requested the stored configuration has no start time.
\<close>

lemma rollout_start_not_recorded:
  assumes "lawful L" "stored_rollout L d app s w = None"
    and "update_rollout L d app s pub now1 now2 pct w = (Inr r, w')"
  shows "stored_rollout L d app s w' = Some (rr_rollout r) \<and> percentage (rr_rollout r) = pct \<and>
    started_at (rr_rollout r) = None"
  using update_rollout_result [OF assms(1,3)] assms(2)
  by (auto simp: set_percentage_def rollout_default_def Let_def)

lemma rollout_start_not_recorded_witness:
  "\<exists>r w'. update_rollout sample_libs [] ''app'' ''2.0.0'' sample_publisher ''t1'' ''t2'' 30 (sample_world sample_tree4)
     = (Inr r, w') \<and> percentage (rr_rollout r) = 30 \<and> started_at (rr_rollout r) = None"
proof -
  obtain r w' where run: "update_rollout sample_libs [] ''app'' ''2.0.0'' sample_publisher ''t1'' ''t2'' 30
      (sample_world sample_tree4) = (Inr r, w')"
    using sample_rollout by blast
  have "stored_rollout sample_libs [] ''app'' ''2.0.0'' (sample_world sample_tree4) = None"
    by (simp add: stored_rollout_def file_at_def lookup_def sample_world_def sample_tree4_def sample_dirs_def path_defs plain_component_def)
  with rollout_start_not_recorded [OF lawful_sample this run] run show ?thesis by auto
qed

text \<open>
  The name of a lone dot passes validation, and the files of such an application are those of
  other applications: its versions directory is the directory of the application called
  \<open>versions\<close>, and its catalog lies beside the applications.
\<close>

lemma dot_application_overlaps:
  "validate_name ''.'' = Inr () \<and> catalog_path d ''.'' = d @ [''apps'', ''catalog.json''] \<and>
   version_dir d ''.'' v = path_join (app_dir d ''versions'') v"
proof -
  have "path_join p ''.'' = p" for p
    by (simp add: path_join_def path_components_def starts_with_def)
  moreover have "validate_name ''.'' = Inr ()"
    by (simp add: validate_name_Inr_iff valid_name_char_def ascii_defs starts_with_def)
  ultimately show ?thesis by (simp add: path_defs)
qed

end
