(* ===== verification/Directory.thy ===== *)
theory Directory
  imports Storage "HOL-Library.Sublist"
begin

text \<open>
  Listing directories and measuring files: the further parts of \<open>std::fs\<close> that the administration
  endpoints use, and the recursive size of a directory that \<open>storage.rs\<close> (\<open>calculate_app_size\<close>) and
  \<open>stats.rs\<close> (\<open>calculate_dir_size\<close>) both compute.
\<close>

section \<open>Reading a directory\<close>

text \<open>The order in which a directory is listed is that of the node list, which is arbitrary.\<close>

definition children :: "path \<Rightarrow> 'c world \<Rightarrow> string list" where
  "children p w = map last (filter (\<lambda>q. q \<noteq> [] \<and> butlast q = p) (remdups (map fst (fs w))))"

text \<open>Reading the next entry may fail.\<close>

fun dir_entries :: "string list \<Rightarrow> ('c, 'e, string option list) io" where
  "dir_entries [] = returnE []"
| "dir_entries (x # xs) =
     bindE (attempt io_point) (\<lambda>ok.
     bindE (dir_entries xs) (\<lambda>es. returnE ((if ok = None then None else Some x) # es)))"

definition read_dir :: "path \<Rightarrow> ('c, io_error, string option list) io" where
  "read_dir p =
     bindE io_point (\<lambda>_.
     bindE (get_world (is_dir p)) (\<lambda>dir.
     if \<not> dir then throwE NoEntry else bindE (get_world (children p)) dir_entries))"

text \<open>\<open>filter_map(|e| e.ok())\<close> and \<open>flatten\<close> on the entries.\<close>

definition good_entries :: "string option list \<Rightarrow> string list" where
  "good_entries es = map the (filter (\<lambda>e. e \<noteq> None) es)"

definition symlink_metadata :: "path \<Rightarrow> ('c, io_error, 'c node) io" where
  "symlink_metadata p =
     bindE io_point (\<lambda>_.
     bindE (get_world (\<lambda>w. lookup w p)) (\<lambda>n.
     case n of None \<Rightarrow> throwE NoEntry | Some n \<Rightarrow> returnE n))"

section \<open>The size of a directory\<close>

text \<open>The loop over the entries; \<open>rec\<close> measures a subdirectory.\<close>

fun add_entries ::
  "(path \<Rightarrow> ('c, 'e, u64) io) \<Rightarrow> 'c libs \<Rightarrow> path \<Rightarrow> u64 \<Rightarrow> string list \<Rightarrow> ('c, 'e, u64) io" where
  "add_entries rec L p sz [] = returnE sz"
| "add_entries rec L p sz (e # es) =
     bindE (attempt (symlink_metadata (p @ [e]))) (\<lambda>metadata.
     bindE (case metadata of
              None \<Rightarrow> returnE sz
            | Some (File c) \<Rightarrow> returnE (saturating_add sz (content_len L c))
            | Some Dir \<Rightarrow> bindE (rec (p @ [e])) (\<lambda>s. returnE (saturating_add sz s))) (\<lambda>sz'.
     add_entries rec L p sz' es))"

text \<open>The recursion descends one level of the tree, so the length of the longest path bounds its depth.\<close>

fun dir_size :: "'c libs \<Rightarrow> nat \<Rightarrow> path \<Rightarrow> ('c, 'e, u64) io" where
  "dir_size L 0 p = returnE 0"
| "dir_size L (Suc n) p =
     bindE (attempt (read_dir p)) (\<lambda>entries.
     case entries of
       None \<Rightarrow> returnE 0
     | Some es \<Rightarrow> add_entries (dir_size L n) L p 0 (good_entries es))"

definition tree_depth :: "'c world \<Rightarrow> nat" where
  "tree_depth w = foldr max (map (length \<circ> fst) (fs w)) 0"

definition calculate_dir_size :: "'c libs \<Rightarrow> path \<Rightarrow> ('c, 'e, u64) io" where
  "calculate_dir_size L p = bindE (get_world tree_depth) (\<lambda>n. dir_size L (Suc n) p)"


section \<open>The size computed is the sum of the sizes of the files\<close>

definition same_tree :: "'c world \<Rightarrow> 'c world \<Rightarrow> bool" where
  "same_tree w w' \<longleftrightarrow> fs w' = fs w \<and> (quiet w \<longrightarrow> quiet w')"

interpretation reading: world_rel same_tree
  by unfold_locales (auto simp: same_tree_def)

lemma reading_prims [intro]:
  "reading.keeps io_point" "reading.keeps (open_file p)" "reading.keeps (read_file p)"
  by (auto simp: reading.keeps_def same_tree_def io_prims next_op_def quiet_def
      split: fault.splits option.splits node.splits)

lemma reading_read_dir [intro]: "reading.keeps (dir_entries xs)" "reading.keeps (read_dir p)"
  "reading.keeps (symlink_metadata p)"
proof -
  show e: "reading.keeps (dir_entries xs)" for xs
    by (induction xs) (auto intro!: reading.keeps_intros)
  show "reading.keeps (read_dir p)" "reading.keeps (symlink_metadata p)"
    unfolding read_dir_def symlink_metadata_def by (intro reading.keeps_intros reading_prims e)+
qed


text \<open>In a world without faults.\<close>

lemma ok_io_point_fs:
  assumes "quiet w" "\<And>w'. quiet w' \<Longrightarrow> fs w' = fs w \<Longrightarrow> Q () w'"
  shows "wp io_point Q E w"
  using assms by (auto simp: wp_def io_point_def next_op_def quiet_def split: fault.splits)

lemma ok_dir_entries:
  "quiet w \<Longrightarrow> wp (dir_entries xs) (\<lambda>es w'. es = map Some xs \<and> quiet w' \<and> fs w' = fs w) (\<lambda>_ _. False) w"
proof (induction xs arbitrary: w)
  case (Cons x xs)
  show ?case
    unfolding dir_entries.simps
    by (intro wp_run ok_io_point_fs [OF Cons.prems] wp_mono [OF Cons.IH]) auto
qed simp

lemmas fs_views = children_def lookup_def is_dir_def exists_path_def

lemma ok_read_dir:
  assumes "quiet w" "is_dir p w"
  shows "wp (read_dir p) (\<lambda>es w'. es = map Some (children p w) \<and> quiet w' \<and> fs w' = fs w) (\<lambda>_ _. False) w"
  unfolding read_dir_def
  by (intro wp_run ok_io_point_fs [OF assms(1)] wp_mono [OF ok_dir_entries])
     (use assms in \<open>auto simp: fs_views\<close>)

lemma ok_symlink_metadata:
  assumes "quiet w" "lookup w p = Some n" "\<And>w'. quiet w' \<Longrightarrow> fs w' = fs w \<Longrightarrow> Q n w'"
  shows "wp (symlink_metadata p) Q E w"
  unfolding symlink_metadata_def
  by (intro wp_run ok_io_point_fs [OF assms(1)]) (use assms in \<open>auto simp: fs_views\<close>)

lemma good_entries_Some [simp]: "good_entries (map Some xs) = xs"
  by (induction xs) (auto simp: good_entries_def)

lemma in_children: "e \<in> set (children p w) \<longleftrightarrow> lookup w (p @ [e]) \<noteq> None"
  by (force simp: children_def lookup_def map_of_eq_None_iff)

lemma distinct_children: "distinct (children p w)"
proof -
  have "inj_on last {q. q \<noteq> [] \<and> butlast q = p}"
    by (rule inj_onI) (metis (mono_tags, lifting) append_butlast_last_id mem_Collect_eq)
  then show ?thesis
    unfolding children_def distinct_map by (auto intro: inj_on_subset)
qed

text \<open>The intended value, as a natural number.\<close>

definition node_size :: "'c libs \<Rightarrow> (path \<Rightarrow> nat) \<Rightarrow> path \<Rightarrow> 'c world \<Rightarrow> nat" where
  "node_size L g q w = (case lookup w q of None \<Rightarrow> 0 | Some (File c) \<Rightarrow> unat (content_len L c) | Some Dir \<Rightarrow> g q)"

fun tree_size :: "'c libs \<Rightarrow> nat \<Rightarrow> path \<Rightarrow> 'c world \<Rightarrow> nat" where
  "tree_size L 0 p w = 0"
| "tree_size L (Suc n) p w = (\<Sum>e \<leftarrow> children p w. node_size L (\<lambda>q. tree_size L n q w) (p @ [e]) w)"

lemma fs_tree_size: "fs w' = fs w \<Longrightarrow> tree_size L n p w' = tree_size L n p w"
  by (induction n arbitrary: p) (simp_all add: fs_views node_size_def cong: node.case_cong)

definition u64_max :: nat where
  "u64_max = 2 ^ 64 - 1"

lemma unat_le_u64_max: "unat (x :: u64) \<le> u64_max"
  using unsigned_less [of x, where ?'a = nat] by (simp add: u64_max_def)

lemma unat_sat: "unat (saturating_add a b) = min (unat a + unat b) u64_max"
  by (simp add: unat_saturating_add u64_max_def)

lemma ok_add_entries:
  assumes rec: "\<And>q w. quiet w \<Longrightarrow> fs w = fs w0 \<Longrightarrow> lookup w0 q = Some Dir \<Longrightarrow>
      wp (rec q) (\<lambda>s w'. unat s = min (g q) u64_max \<and> quiet w' \<and> fs w' = fs w0) (\<lambda>_ _. False) w"
    and es: "set es \<subseteq> set (children p w0)" and w: "quiet w" "fs w = fs w0"
  shows "wp (add_entries rec L p sz es)
    (\<lambda>s w'. unat s = min (unat sz + (\<Sum>e \<leftarrow> es. node_size L g (p @ [e]) w0)) u64_max \<and> quiet w' \<and> fs w' = fs w0)
    (\<lambda>_ _. False) w"
  using es w
proof (induction es arbitrary: sz w)
  case Nil
  then show ?case using unat_le_u64_max [of sz] by simp
next
  case (Cons e es)
  obtain nd where nd: "lookup w0 (p @ [e]) = Some nd"
    using Cons.prems(1) by (auto simp: in_children)
  have tail: "wp (add_entries rec L p sz' es)
    (\<lambda>s w'. unat s = min (unat sz + (\<Sum>e \<leftarrow> e # es. node_size L g (p @ [e]) w0)) u64_max \<and> quiet w' \<and> fs w' = fs w0)
    (\<lambda>_ _. False) w1"
    if "unat sz' = min (unat sz + node_size L g (p @ [e]) w0) u64_max" "quiet w1" "fs w1 = fs w0" for sz' w1
    by (rule wp_mono [OF Cons.IH]) (use that Cons.prems(1) in auto)
  have step: "wp (case nd of File c \<Rightarrow> returnE (saturating_add sz (content_len L c))
      | Dir \<Rightarrow> bindE (rec (p @ [e])) (\<lambda>s. returnE (saturating_add sz s)))
    (\<lambda>sz' w'. unat sz' = min (unat sz + node_size L g (p @ [e]) w0) u64_max \<and> quiet w' \<and> fs w' = fs w0)
    (\<lambda>_ _. False) w1" if "quiet w1" "fs w1 = fs w0" for w1
  proof (cases nd)
    case (File c)
    then show ?thesis using that by (simp add: unat_sat node_size_def nd)
  next
    case Dir
    then show ?thesis
      using rec [OF that, of "p @ [e]"] nd
      by (auto simp: unat_sat node_size_def elim!: wp_mono)
  qed
  show ?case
    unfolding add_entries.simps
    by (intro wp_run ok_symlink_metadata [where n = nd])
       (use Cons.prems nd in \<open>auto simp: lookup_def intro!: wp_mono [OF step] tail [simplified]\<close>)
qed

lemma ok_dir_size:
  fixes L :: "'c libs"
  assumes "quiet w" "is_dir p w"
  shows "wp (dir_size L n p :: ('c, 'e, u64) io) (\<lambda>s w'. unat s = min (tree_size L n p w) u64_max \<and> quiet w' \<and> fs w' = fs w)
    (\<lambda>_ _. False) w"
  using assms
proof (induction n arbitrary: p w)
  case (Suc n)
  have "wp (add_entries (dir_size L n :: path \<Rightarrow> ('c, 'e, u64) io) L p 0 (children p w))
    (\<lambda>s w'. unat s = min (unat (0 :: u64) + (\<Sum>e \<leftarrow> children p w. node_size L (\<lambda>q. tree_size L n q w) (p @ [e]) w)) u64_max
       \<and> quiet w' \<and> fs w' = fs w) (\<lambda>_ _. False) w1"
    if "quiet w1" "fs w1 = fs w" for w1
  proof (rule ok_add_entries [OF _ subset_refl that])
    fix q and w2 :: "'c world"
    assume "quiet w2" "fs w2 = fs w" "lookup w q = Some Dir"
    then show "wp (dir_size L n q :: ('c, 'e, u64) io) (\<lambda>s w'. unat s = min (tree_size L n q w) u64_max \<and> quiet w' \<and> fs w' = fs w)
        (\<lambda>_ _. False) w2"
      using Suc.IH [of w2 q] fs_tree_size [of w2 w L n q] by (simp add: fs_views)
  qed
  then show ?case
    unfolding dir_size.simps
    by (intro wp_run wp_mono [OF ok_read_dir [OF Suc.prems]]) auto
qed simp


section \<open>The sum over the tree\<close>

text \<open>A well-formed tree: every node but the root lies in a directory.\<close>

definition wf_tree :: "'c world \<Rightarrow> bool" where
  "wf_tree w \<longleftrightarrow> (\<forall>q. lookup w q \<noteq> None \<longrightarrow> is_dir (butlast q) w)"

definition below :: "path \<Rightarrow> nat \<Rightarrow> 'c world \<Rightarrow> path set" where
  "below p n w = {q. lookup w q \<noteq> None \<and> (\<exists>r. q = p @ r \<and> r \<noteq> [] \<and> length r \<le> n)}"

definition file_size :: "'c libs \<Rightarrow> 'c world \<Rightarrow> path \<Rightarrow> nat" where
  "file_size L w q = (case file_at w q of None \<Rightarrow> 0 | Some c \<Rightarrow> unat (content_len L c))"

lemma finite_below: "finite (below p n w)"
proof (rule finite_subset)
  show "below p n w \<subseteq> set (map fst (fs w))"
    by (force simp: below_def lookup_def dest: map_of_SomeD)
qed simp

lemma prefix_dir:
  assumes "wf_tree w" "lookup w (p @ r) \<noteq> None" "r \<noteq> []"
  shows "is_dir p w"
  using assms(2,3)
proof (induction r rule: rev_induct)
  case Nil
  then show ?case by blast
next
  case (snoc x r)
  have "butlast (p @ r @ [x]) = p @ r" by (simp add: butlast_append)
  then have dir: "is_dir (p @ r) w"
    using assms(1) snoc.prems(1) unfolding wf_tree_def by metis
  show ?case
  proof (cases "r = []")
    case True
    then show ?thesis using dir by simp
  next
    case False
    then have "lookup w (p @ r) \<noteq> None" using dir by (auto simp: is_dir_def)
    then show ?thesis using snoc.IH False by blast
  qed
qed

lemma below_Suc:
  assumes "wf_tree w"
  shows "below p (Suc n) w = (\<Union>e \<in> set (children p w). insert (p @ [e]) (below (p @ [e]) n w))"
proof (rule set_eqI, rule iffI)
  fix q
  assume "q \<in> below p (Suc n) w"
  then obtain e r where q: "q = (p @ [e]) @ r" "lookup w q \<noteq> None" "length r \<le> n"
    by (auto simp: below_def neq_Nil_conv)
  show "q \<in> (\<Union>e \<in> set (children p w). insert (p @ [e]) (below (p @ [e]) n w))"
  proof (cases "r = []")
    case False
    then have "is_dir (p @ [e]) w" using prefix_dir [OF assms, of "p @ [e]" r] q by simp
    then have "e \<in> set (children p w)" by (simp add: in_children is_dir_def)
    moreover have "q \<in> below (p @ [e]) n w" using q False by (auto simp: below_def)
    ultimately show ?thesis by blast
  qed (use q in \<open>auto simp: in_children\<close>)
next
  fix q
  assume "q \<in> (\<Union>e \<in> set (children p w). insert (p @ [e]) (below (p @ [e]) n w))"
  then show "q \<in> below p (Suc n) w"
    by (fastforce simp: below_def in_children)
qed

lemma tree_size_sum:
  assumes "wf_tree w"
  shows "tree_size L n p w = (\<Sum>q \<in> below p n w. file_size L w q)"
proof (induction n arbitrary: p)
  case 0
  have "below p 0 w = {}" by (simp add: below_def)
  then show ?case by simp
next
  case (Suc n)
  have part: "(\<Sum>q \<in> insert (p @ [e]) (below (p @ [e]) n w). file_size L w q) =
      node_size L (\<lambda>q. tree_size L n q w) (p @ [e]) w" if e: "e \<in> set (children p w)" for e
  proof -
    obtain nd where nd: "lookup w (p @ [e]) = Some nd" using e by (auto simp: in_children)
    have "p @ [e] \<notin> below (p @ [e]) n w" by (simp add: below_def)
    then have split: "(\<Sum>q \<in> insert (p @ [e]) (below (p @ [e]) n w). file_size L w q) =
        file_size L w (p @ [e]) + tree_size L n (p @ [e]) w"
      by (simp add: finite_below Suc.IH)
    have "below (p @ [e]) n w = {}" if "nd = File c" for c
      using prefix_dir [OF assms, of "p @ [e]"] nd that by (auto simp: below_def is_dir_def)
    then have "tree_size L n (p @ [e]) w = 0" if "nd = File c" for c
      using that Suc.IH [of "p @ [e]"] by simp
    then show ?thesis
      unfolding split by (cases nd) (simp_all add: node_size_def file_size_def file_at_def nd)
  qed
  have "(\<Sum>q \<in> below p (Suc n) w. file_size L w q) =
      (\<Sum>e \<in> set (children p w). \<Sum>q \<in> insert (p @ [e]) (below (p @ [e]) n w). file_size L w q)"
    unfolding below_Suc [OF assms]
  proof (rule sum.UNION_disjoint)
    show "\<forall>e \<in> set (children p w). finite (insert (p @ [e]) (below (p @ [e]) n w))" by (simp add: finite_below)
  qed (auto simp: below_def)
  also have "\<dots> = (\<Sum>e \<in> set (children p w). node_size L (\<lambda>q. tree_size L n q w) (p @ [e]) w)"
    by (rule sum.cong [OF refl part])
  finally show ?case
    by (simp add: sum_list_distinct_conv_sum_set [OF distinct_children])
qed

text \<open>The depth given to the recursion reaches every node.\<close>

lemma tree_depth_ge: "lookup w q \<noteq> None \<Longrightarrow> length q \<le> tree_depth w"
proof -
  have "length q \<le> foldr max (map (length \<circ> fst) xs) 0" if "q \<in> set (map fst xs)" for xs :: "(path \<times> 'a node) list"
    using that by (induction xs) (auto simp: le_max_iff_disj)
  then show "lookup w q \<noteq> None \<Longrightarrow> length q \<le> tree_depth w"
    unfolding tree_depth_def lookup_def by (metis dom_map_of_conv_image_fst domIff set_map)
qed

lemma calculate_dir_size_total:
  fixes L :: "'c libs"
  assumes "quiet w" "wf_tree w" "is_dir p w"
  shows "wp (calculate_dir_size L p :: ('c, 'e, u64) io)
    (\<lambda>s w'. unat s = min (\<Sum>q \<in> {q. strict_prefix p q \<and> file_at w q \<noteq> None}. file_size L w q) u64_max \<and> fs w' = fs w)
    (\<lambda>_ _. False) w"
proof -
  have "(\<Sum>q \<in> below p (Suc (tree_depth w)) w. file_size L w q) =
      (\<Sum>q \<in> {q. strict_prefix p q \<and> file_at w q \<noteq> None}. file_size L w q)"
  proof (rule sum.mono_neutral_right [OF finite_below])
    show "{q. strict_prefix p q \<and> file_at w q \<noteq> None} \<subseteq> below p (Suc (tree_depth w)) w"
      using tree_depth_ge
      by (fastforce simp: below_def strict_prefix_def prefix_def file_at_def split: option.splits)
  qed (auto simp: below_def strict_prefix_def prefix_def file_size_def split: option.splits)
  then show ?thesis
    unfolding calculate_dir_size_def
    using ok_dir_size [OF assms(1,3), of L "Suc (tree_depth w)"] tree_size_sum [OF assms(2), of L "Suc (tree_depth w)" p]
    by (auto elim!: wp_mono)
qed


section \<open>The tree stays well formed\<close>

interpretation tree_inv: world_rel "\<lambda>w w'. wf_tree w \<longrightarrow> wf_tree w'"
  by unfold_locales auto

lemma wf_tree_set_file:
  assumes "wf_tree w" "is_dir (butlast p) w" "lookup w p \<noteq> Some Dir" "lookup w' = (lookup w)(p \<mapsto> File c)"
  shows "wf_tree w'"
proof -
  have "is_dir q w'" if "is_dir q w" for q
    using that assms(3,4) by (auto simp: is_dir_def)
  then show ?thesis using assms unfolding wf_tree_def by (metis fun_upd_apply)
qed

lemma wf_tree_drop:
  assumes "wf_tree w" "lookup w p = Some (File c)" "lookup w' = (lookup w)(p := None)"
  shows "wf_tree w'"
proof -
  have "is_dir q w'" if "is_dir q w" for q
    using that assms(2,3) by (auto simp: is_dir_def)
  then show ?thesis using assms unfolding wf_tree_def by (metis fun_upd_apply)
qed

lemma wf_tree_lookup: "lookup w' = lookup w \<Longrightarrow> wf_tree w' = wf_tree w"
  by (simp add: wf_tree_def is_dir_def)

lemma next_op_view:
  obtains f w1 where "next_op w = (f, w1)" "lookup w1 = lookup w" "\<And>p. is_dir p w1 = is_dir p w" "wf_tree w1 = wf_tree w"
proof -
  have "lookup (snd (next_op w)) = lookup w" by (simp add: next_op_def lookup_def fun_eq_iff)
  then show thesis
    using that [of "fst (next_op w)" "snd (next_op w)"] wf_tree_lookup [of "snd (next_op w)" w] by (simp add: is_dir_def)
qed

lemma wf_tree_mkdirs:
  assumes "wf_tree w" "\<forall>q \<in> set (ancestors p). lookup w q = None \<or> lookup w q = Some Dir"
  shows "wf_tree (mkdirs (ancestors p) w)"
proof -
  let ?w = "mkdirs (ancestors p) w"
  have lk: "lookup ?w q = (if lookup w q = None \<and> q \<in> set (ancestors p) then Some Dir else lookup w q)" for q
    by (simp add: lookup_mkdirs)
  have dir: "is_dir q ?w" if "is_dir q w" for q
    using that by (auto simp: is_dir_def lk)
  show ?thesis
    unfolding wf_tree_def
  proof (intro allI impI)
    fix q
    assume q: "lookup ?w q \<noteq> None"
    show "is_dir (butlast q) ?w"
    proof (cases "lookup w q = None")
      case True
      then obtain r where "q \<noteq> []" "p = q @ r" using q by (auto simp: lk in_ancestors split: if_splits)
      then have "butlast q = [] \<or> butlast q \<in> set (ancestors p)"
        by (metis append.assoc append_butlast_last_id in_ancestors)
      then show ?thesis using assms(2) by (auto simp: is_dir_def lk)
    qed (use assms(1) dir in \<open>auto simp: wf_tree_def\<close>)
  qed
qed

lemma tree_prims [intro]:
  "tree_inv.keeps (read_file p)" "tree_inv.keeps (write_file p c)" "tree_inv.keeps (rename a b)"
  "tree_inv.keeps (remove_file p)" "tree_inv.keeps (open_create e p)" "tree_inv.keeps (open_file p)"
  "tree_inv.keeps io_point" "tree_inv.keeps (create_dir_all p)"
proof -
  show "tree_inv.keeps (read_file p)" "tree_inv.keeps (open_file p)" "tree_inv.keeps io_point"
    unfolding tree_inv.keeps_def
    by (rule allI, rule_tac w = w in next_op_view,
        simp add: io_prims split: fault.split option.split node.split)+
  show "tree_inv.keeps (write_file p c)"
    unfolding tree_inv.keeps_def
  proof
    fix w
    show "wf_tree w \<longrightarrow> wf_tree (snd (write_file p c w))"
      by (rule next_op_view [of w])
         (auto simp: write_file_def intro: wf_tree_set_file [of _ p] split: fault.split)
  qed
  show "tree_inv.keeps (open_create e p)"
    unfolding tree_inv.keeps_def
  proof
    fix w
    show "wf_tree w \<longrightarrow> wf_tree (snd (open_create e p w))"
      by (rule next_op_view [of w])
         (auto simp: open_create_def intro: wf_tree_set_file [of _ p] split: fault.split option.split node.split)
  qed
  show "tree_inv.keeps (remove_file p)"
    unfolding tree_inv.keeps_def
  proof
    fix w
    show "wf_tree w \<longrightarrow> wf_tree (snd (remove_file p w))"
      by (rule next_op_view [of w])
         (auto simp: remove_file_def intro: wf_tree_drop [of _ p] split: fault.split option.split node.split)
  qed
  show "tree_inv.keeps (rename a b)"
    unfolding tree_inv.keeps_def
  proof
    fix w
    show "wf_tree w \<longrightarrow> wf_tree (snd (rename a b w))"
    proof (rule next_op_view [of w])
      fix f w1
      assume v: "next_op w = (f, w1)" "lookup w1 = lookup w" "\<And>p. is_dir p w1 = is_dir p w" "wf_tree w1 = wf_tree w"
      have "wf_tree (set_node b (File c) (drop_node a w1))"
        if "wf_tree w" "lookup w a = Some (File c)" "lookup w b \<noteq> Some Dir" "is_dir (butlast b) w" for c
      proof (rule wf_tree_set_file)
        show "wf_tree (drop_node a w1)" by (rule wf_tree_drop [of w1 a c]) (use v that in auto)
        show "is_dir (butlast b) (drop_node a w1)" using v that by (auto simp: is_dir_def)
      qed (use v that in auto)
      then show ?thesis
        by (auto simp: rename_def v split: fault.split option.split node.split)
    qed
  qed
  show "tree_inv.keeps (create_dir_all p)"
    unfolding tree_inv.keeps_def
  proof
    fix w
    show "wf_tree w \<longrightarrow> wf_tree (snd (create_dir_all p w))"
      by (rule next_op_view [of w])
         (auto simp: create_dir_all_def intro!: wf_tree_mkdirs split: fault.split)
  qed
qed

lemmas tree_intros = tree_inv.keeps_intros tree_prims

end
