(* ===== verification/Sorting.thy ===== *)
theory Sorting
  imports Prelude "HOL-Library.Multiset"
begin

text \<open>
  The stable sort of the standard library, used by the listings of the server and by the queries of
  the databases.
\<close>

text \<open>\<open>slice::sort_by\<close>, a stable sort.\<close>

fun insert_by :: "('a \<Rightarrow> 'a \<Rightarrow> ordering) \<Rightarrow> 'a \<Rightarrow> 'a list \<Rightarrow> 'a list" where
  "insert_by cmp x [] = [x]"
| "insert_by cmp x (y # ys) = (if cmp x y = Greater then y # insert_by cmp x ys else x # y # ys)"

definition sort_by :: "('a \<Rightarrow> 'a \<Rightarrow> ordering) \<Rightarrow> 'a list \<Rightarrow> 'a list" where
  "sort_by cmp xs = foldr (insert_by cmp) xs []"

lemma mset_sort_by: "mset (sort_by cmp xs) = mset xs"
proof -
  have "mset (insert_by cmp x ys) = add_mset x (mset ys)" for x ys
    by (induction ys) auto
  then show ?thesis by (induction xs) (simp_all add: sort_by_def)
qed

context comparator
begin

lemma sorted_insert_by:
  "sorted_wrt (\<lambda>x y. cmp x y \<noteq> Greater) ys \<Longrightarrow> sorted_wrt (\<lambda>x y. cmp x y \<noteq> Greater) (insert_by cmp x ys)"
proof (induction ys)
  case (Cons y ys)
  have set: "set (insert_by cmp x ys) = insert x (set ys)" by (induction ys) auto
  show ?case
  proof (cases "cmp x y = Greater")
    case True
    then have "cmp y x \<noteq> Greater" using cmp_gt_iff by auto
    then show ?thesis using Cons True by (auto simp: set)
  next
    case False
    then show ?thesis using Cons.prems cmp_le_trans [of x y] by auto
  qed
qed simp

lemma sorted_sort_by: "sorted_wrt (\<lambda>x y. cmp x y \<noteq> Greater) (sort_by cmp xs)"
  by (induction xs) (simp_all add: sort_by_def sorted_insert_by)

end

lemma set_sort_by [simp]: "set (sort_by cmp xs) = set xs"
  using mset_sort_by by (metis set_mset_mset)

end
