(* ===== verification/Admin_Route.thy ===== *)
theory Admin_Route
  imports Publish_Route Directory Sorting
begin

text \<open>
  The administration endpoints (\<open>routes/admin.rs\<close>) with the listings of \<open>storage.rs\<close> and the counters
  of \<open>stats.rs\<close>. Hash maps and hash sets are listed in an unspecified order by the code; the model
  lists platforms in the order of their declaration.
\<close>

section \<open>Listings\<close>

record app_list_item =
  ali_name :: string
  versions_count :: nat
  ali_latest_version :: string

record app_details =
  ad_name :: string
  ad_versions :: "string list"
  total_size_bytes :: u64
  ad_platforms :: "string list"

record version_list_item =
  vli_version :: string
  size_bytes :: u64
  vli_platforms :: "string list"
  vli_rollout_percentage :: u8
  vli_deleted :: bool

record server_stats =
  apps_count :: nat
  total_versions :: nat
  total_storage_bytes :: u64
  uptime_seconds :: u64

text \<open>The number of subdirectories among the readable entries of a directory.\<close>

definition count_subdirs :: "path \<Rightarrow> ('c, 'e, nat) io" where
  "count_subdirs dir =
     bindE (attempt (read_dir dir)) (\<lambda>entries.
     case entries of
       None \<Rightarrow> returnE 0
     | Some es \<Rightarrow> get_world (\<lambda>w. length (filter (\<lambda>e. is_dir (dir @ [e]) w) (good_entries es))))"

definition app_list_entry :: "'c libs \<Rightarrow> path \<Rightarrow> string \<Rightarrow> ('c, 'e, app_list_item) io" where
  "app_list_entry L p app_name =
     (let cat = path_join p ''catalog.json''; versions_dir = path_join p ''versions'' in
      bindE (get_world (exists_path cat)) (\<lambda>ex.
      bindE (if ex
             then bindE (attempt (read_to_string L cat)) (\<lambda>content.
                  returnE (case Option.bind content (de_catalog L) of
                             Some catalog \<Rightarrow> (length (cat_versions catalog), sv_show L (latest_version catalog))
                           | None \<Rightarrow> (0, ''unknown'')))
             else bindE (get_world (exists_path versions_dir)) (\<lambda>vex.
                  bindE (if vex then count_subdirs versions_dir else returnE 0) (\<lambda>count.
                  returnE (count, ''unknown'')))) (\<lambda>(count, latest).
      returnE \<lparr>ali_name = app_name, versions_count = count, ali_latest_version = latest\<rparr>)))"

text \<open>The loops over \<open>read_dir\<close> whose \<open>entry?\<close> ends the listing.\<close>

fun for_dirs ::
  "(string \<Rightarrow> ('c, storage_error, 'a) io) \<Rightarrow> path \<Rightarrow> string option list \<Rightarrow> ('c, storage_error, 'a list) io" where
  "for_dirs f dir [] = returnE []"
| "for_dirs f dir (None # es) = throwE (SIo IoFault)"
| "for_dirs f dir (Some e # es) =
     bindE (get_world (is_dir (dir @ [e]))) (\<lambda>d.
     if d then bindE (f e) (\<lambda>x. bindE (for_dirs f dir es) (\<lambda>xs. returnE (x # xs)))
     else for_dirs f dir es)"

definition list_apps :: "'c libs \<Rightarrow> path \<Rightarrow> ('c, storage_error, app_list_item list) io" where
  "list_apps L data_dir =
     (let apps_dir = path_join data_dir ''apps'' in
      bindE (get_world (exists_path apps_dir)) (\<lambda>ex.
      if \<not> ex then returnE []
      else
      bindE (map_err SIo (read_dir apps_dir)) (\<lambda>entries.
      bindE (for_dirs (\<lambda>e. app_list_entry L (apps_dir @ [e]) e) apps_dir entries) (\<lambda>apps.
      returnE (sort_by (\<lambda>a b. str_cmp (ali_name a) (ali_name b)) apps)))))"

text \<open>\<open>calculate_app_size\<close> of \<open>storage.rs\<close> has the code of \<open>calculate_dir_size\<close> of \<open>stats.rs\<close>.\<close>

definition calculate_app_size :: "'c libs \<Rightarrow> path \<Rightarrow> ('c, 'e, u64) io" where
  "calculate_app_size = calculate_dir_size"

definition get_app_info :: "'c libs \<Rightarrow> path \<Rightarrow> string \<Rightarrow> ('c, storage_error, app_details) io" where
  "get_app_info L data_dir app_name =
     (let dir = app_dir data_dir app_name;
          cat = path_join dir ''catalog.json'';
          versions_dir = path_join dir ''versions'' in
      bindE (get_world (exists_path dir)) (\<lambda>dex.
      if \<not> dex then throwE (SNotFound (''Application not found: '' @ app_name))
      else
      bindE (get_world (exists_path cat)) (\<lambda>ex.
      bindE (if ex
             then bindE (map_err SIo (read_to_string L cat)) (\<lambda>content.
                  bindE (from_json (de_catalog L) content) (\<lambda>catalog.
                  returnE (map (\<lambda>v. sv_show L (vi_version v)) (cat_versions catalog),
                    remdups (concat (map (\<lambda>v. map platform_as_str (vi_platforms v)) (cat_versions catalog))))))
             else bindE (get_world (exists_path versions_dir)) (\<lambda>vex.
                  if vex
                  then bindE (map_err SIo (read_dir versions_dir)) (\<lambda>entries.
                       bindE (get_world (\<lambda>w. filter (\<lambda>e. is_dir (versions_dir @ [e]) w) (good_entries entries))) (\<lambda>vs.
                       returnE (vs, [])))
                  else returnE ([], []))) (\<lambda>(versions, platforms_from_catalog).
      bindE (calculate_app_size L dir) (\<lambda>total_bytes.
      returnE \<lparr>ad_name = app_name, ad_versions = versions, total_size_bytes = total_bytes,
        ad_platforms = platforms_from_catalog\<rparr>)))))"

definition manifest_summary :: "version_manifest \<Rightarrow> u64 \<times> string list" where
  "manifest_summary manifest =
     (let ps = filter (\<lambda>p. vm_platforms manifest p \<noteq> None) enum_class.enum
      in (fold (\<lambda>p acc. saturating_add acc (pa_size (the (vm_platforms manifest p)))) ps 0,
          map platform_as_str ps))"

definition version_list_entry ::
  "'c libs \<Rightarrow> app_catalog option \<Rightarrow> path \<Rightarrow> string \<Rightarrow> ('c, 'e, version_list_item) io" where
  "version_list_entry L catalog p version_str =
     (let man = path_join p ''manifest.json''; roll = path_join p ''rollout.json'' in
      bindE (get_world (exists_path (path_join p ''.deleted''))) (\<lambda>deleted.
      bindE (get_world (exists_path man)) (\<lambda>mex.
      bindE (if mex
             then bindE (attempt (read_to_string L man)) (\<lambda>content.
                  returnE (case Option.bind content (de_manifest L) of
                             Some manifest \<Rightarrow> manifest_summary manifest | None \<Rightarrow> (0, [])))
             else returnE (0, [])) (\<lambda>(sz, platforms).
      bindE (case catalog of
               Some cat \<Rightarrow>
                 returnE (case Option.bind (find_first (\<lambda>v. sv_show L (vi_version v) = version_str) (cat_versions cat))
                            vi_rollout of Some r \<Rightarrow> percentage r | None \<Rightarrow> 100)
             | None \<Rightarrow>
                 bindE (get_world (exists_path roll)) (\<lambda>rex.
                 if rex
                 then bindE (attempt (read_to_string L roll)) (\<lambda>content.
                      returnE (case Option.bind content (de_rollout L) of Some r \<Rightarrow> percentage r | None \<Rightarrow> 100))
                 else returnE 100)) (\<lambda>rollout_pct.
      returnE \<lparr>vli_version = version_str, size_bytes = sz, vli_platforms = platforms,
        vli_rollout_percentage = rollout_pct, vli_deleted = deleted\<rparr>)))))"

definition list_versions :: "'c libs \<Rightarrow> path \<Rightarrow> string \<Rightarrow> ('c, storage_error, version_list_item list) io" where
  "list_versions L data_dir app_name =
     (let dir = app_dir data_dir app_name;
          versions_dir = path_join dir ''versions'';
          cat = path_join dir ''catalog.json'' in
      bindE (get_world (exists_path dir)) (\<lambda>dex.
      if \<not> dex then throwE (SNotFound (''Application not found: '' @ app_name))
      else
      bindE (get_world (exists_path versions_dir)) (\<lambda>vex.
      if \<not> vex then returnE []
      else
      bindE (get_world (exists_path cat)) (\<lambda>ex.
      bindE (if ex then bindE (attempt (read_to_string L cat)) (\<lambda>content.
                        returnE (Option.bind content (de_catalog L)))
             else returnE None) (\<lambda>catalog.
      bindE (map_err SIo (read_dir versions_dir)) (\<lambda>entries.
      bindE (for_dirs (\<lambda>e. version_list_entry L catalog (versions_dir @ [e]) e) versions_dir entries) (\<lambda>versions.
      returnE (sort_by (\<lambda>a b. str_cmp (vli_version b) (vli_version a)) versions))))))))"


section \<open>Statistics\<close>

definition calculate_storage_usage :: "'c libs \<Rightarrow> path \<Rightarrow> ('c, 'e, u64) io" where
  "calculate_storage_usage L data_dir =
     (let apps_dir = path_join data_dir ''apps'' in
      bindE (get_world (exists_path apps_dir)) (\<lambda>ex.
      if \<not> ex then returnE 0 else calculate_dir_size L apps_dir))"

definition count_apps :: "path \<Rightarrow> ('c, 'e, nat) io" where
  "count_apps data_dir =
     (let apps_dir = path_join data_dir ''apps'' in
      bindE (get_world (exists_path apps_dir)) (\<lambda>ex.
      if \<not> ex then returnE 0 else count_subdirs apps_dir))"

fun sum_versions :: "path \<Rightarrow> nat \<Rightarrow> string list \<Rightarrow> ('c, 'e, nat) io" where
  "sum_versions apps_dir acc [] = returnE acc"
| "sum_versions apps_dir acc (e # es) =
     (let versions_dir = path_join (apps_dir @ [e]) ''versions'' in
      bindE (get_world (is_dir versions_dir)) (\<lambda>d.
      bindE (if d then count_subdirs versions_dir else returnE 0) (\<lambda>n.
      sum_versions apps_dir (acc + n) es)))"

definition count_versions :: "path \<Rightarrow> ('c, 'e, nat) io" where
  "count_versions data_dir =
     (let apps_dir = path_join data_dir ''apps'' in
      bindE (get_world (exists_path apps_dir)) (\<lambda>ex.
      if \<not> ex then returnE 0
      else
      bindE (attempt (read_dir apps_dir)) (\<lambda>entries.
      case entries of None \<Rightarrow> returnE 0 | Some es \<Rightarrow> sum_versions apps_dir 0 (good_entries es))))"


section \<open>The handlers\<close>

definition admin_list_apps :: "'c libs \<Rightarrow> path \<Rightarrow> ('c, http_error, app_list_item list) io" where
  "admin_list_apps L data_dir = map_err (\<lambda>_. internal_error) (list_apps L data_dir)"

definition get_app_details :: "'c libs \<Rightarrow> path \<Rightarrow> string \<Rightarrow> ('c, http_error, app_details) io" where
  "get_app_details L data_dir app_name =
     bindE (map_err (\<lambda>_. (BAD_REQUEST, ''Invalid application name'')) (from_sum (validate_name app_name))) (\<lambda>_.
     map_err (\<lambda>e. case e of SNotFound _ \<Rightarrow> (NOT_FOUND, ''Application not found'') | _ \<Rightarrow> internal_error)
       (get_app_info L data_dir app_name))"

definition admin_list_versions :: "'c libs \<Rightarrow> path \<Rightarrow> string \<Rightarrow> ('c, http_error, version_list_item list) io" where
  "admin_list_versions L data_dir app_name =
     bindE (map_err (\<lambda>_. (BAD_REQUEST, ''Invalid application name'')) (from_sum (validate_name app_name))) (\<lambda>_.
     map_err (\<lambda>e. case e of SNotFound _ \<Rightarrow> (NOT_FOUND, ''Application not found'') | _ \<Rightarrow> internal_error)
       (list_versions L data_dir app_name))"

record delete_version_response =
  dv_success :: bool
  dv_message :: string

definition admin_delete_version ::
  "'c libs \<Rightarrow> path \<Rightarrow> string \<Rightarrow> string \<Rightarrow> publisher \<Rightarrow> ('c, http_error, delete_version_response) io" where
  "admin_delete_version L data_dir app_name version pub =
     bindE (map_err (\<lambda>_. (BAD_REQUEST, ''Invalid application name'')) (from_sum (validate_name app_name))) (\<lambda>_.
     if \<not> can_publish pub app_name then throwE (FORBIDDEN, ''Not authorized for this app'')
     else
     bindE (map_err (\<lambda>_. (BAD_REQUEST, ''Invalid version'')) (from_sum (validate_version version))) (\<lambda>_.
     bindE (map_err (\<lambda>e. case e of SNotFound _ \<Rightarrow> (NOT_FOUND, ''Version not found'') | _ \<Rightarrow> internal_error)
             (delete_version L data_dir app_name version)) (\<lambda>_.
     returnE \<lparr>dv_success = True,
       dv_message = ''Version '' @ version @ '' of '' @ app_name @ '' has been marked as deleted''\<rparr>)))"

definition get_stats :: "'c libs \<Rightarrow> path \<Rightarrow> u64 \<Rightarrow> ('c, 'e, server_stats) io" where
  "get_stats L data_dir uptime =
     bindE (count_apps data_dir) (\<lambda>napps.
     bindE (count_versions data_dir) (\<lambda>nversions.
     bindE (calculate_storage_usage L data_dir) (\<lambda>bytes.
     returnE \<lparr>apps_count = napps, total_versions = nversions, total_storage_bytes = bytes,
       uptime_seconds = uptime\<rparr>)))"


section \<open>Listings only read\<close>

lemma reading_touches: "reading.keeps m \<Longrightarrow> touches S m"
  by (auto simp: reading.keeps_def touches_def same_tree_def same_outside_def file_at_def lookup_def)

lemma reading_read_to_string [intro]: "reading.keeps (read_to_string L p)"
  unfolding read_to_string_def by (intro reading.keeps_intros reading_prims)

lemma reading_count_subdirs [intro]: "reading.keeps (count_subdirs dir)"
  unfolding count_subdirs_def by (intro reading.keeps_intros reading_read_dir)

lemma reading_prod: "(\<And>a b. reading.keeps (f a b)) \<Longrightarrow> reading.keeps (case x of (a, b) \<Rightarrow> f a b)"
  by (cases x) simp

lemma reading_dir_size [intro]:
  fixes L :: "'c libs"
  shows "reading.keeps (dir_size L n p :: ('c, 'e, u64) io)"
proof (induction n arbitrary: p)
  case (Suc n)
  have "reading.keeps (add_entries (dir_size L n :: path \<Rightarrow> ('c, 'e, u64) io) L p sz es)" for sz es
  proof (induction es arbitrary: sz)
    case (Cons e es)
    have "reading.keeps (case md of None \<Rightarrow> returnE sz | Some (File c) \<Rightarrow> returnE (saturating_add sz (content_len L c))
        | Some Dir \<Rightarrow> bindE (dir_size L n (p @ [e]) :: ('c, 'e, u64) io) (\<lambda>s. returnE (saturating_add sz s)))"
      for md :: "'c node option"
      by (auto split: option.split node.split intro!: reading.keeps_intros Suc)
    then show ?case
      unfolding add_entries.simps by (intro reading.keeps_bindE reading.keeps_wrap reading_read_dir Cons)
  qed (simp add: reading.keeps_pure)
  then show ?case
    unfolding dir_size.simps by (intro reading.keeps_intros reading_read_dir)
qed (simp add: reading.keeps_pure)

lemma reading_for_dirs: "(\<And>e. reading.keeps (f e)) \<Longrightarrow> reading.keeps (for_dirs f dir es)"
proof (induction es)
  case (Cons e es)
  then show ?case by (cases e) (auto intro!: reading.keeps_intros)
qed (simp add: reading.keeps_pure)

lemma reading_sum_versions: "reading.keeps (sum_versions dir n es)"
  by (induction es arbitrary: n) (auto simp: Let_def intro!: reading.keeps_intros)

lemmas reading_intros = reading.keeps_intros reading_prod reading_read_dir reading_read_to_string
  reading_count_subdirs reading_dir_size reading_for_dirs reading_sum_versions

lemma reading_admin:
  "reading.keeps (admin_list_apps L d)" "reading.keeps (get_app_details L d app)"
  "reading.keeps (admin_list_versions L d app)" "reading.keeps (get_stats L d up)"
  unfolding admin_list_apps_def get_app_details_def admin_list_versions_def get_stats_def list_apps_def
    get_app_info_def list_versions_def app_list_entry_def version_list_entry_def from_json_def
    calculate_app_size_def calculate_dir_size_def calculate_storage_usage_def count_apps_def count_versions_def
    Let_def
  by (intro reading_intros)+


section \<open>What is listed\<close>

lemma ok_for_dirs:
  assumes f: "\<And>e w. e \<in> set es \<Longrightarrow> quiet w \<Longrightarrow> fs w = fs w0 \<Longrightarrow>
      wp (f e) (\<lambda>x w'. P e x \<and> quiet w' \<and> fs w' = fs w0) (\<lambda>_ _. False) w"
    and w: "quiet w" "fs w = fs w0"
  shows "wp (for_dirs f dir (map Some es))
    (\<lambda>xs w'. list_all2 P (filter (\<lambda>e. is_dir (dir @ [e]) w0) es) xs \<and> quiet w' \<and> fs w' = fs w0) (\<lambda>_ _. False) w"
  using f w
proof (induction es arbitrary: w)
  case (Cons e es)
  have dir: "is_dir (dir @ [e]) w \<longleftrightarrow> is_dir (dir @ [e]) w0" using Cons.prems(3) by (simp add: fs_views)
  have tail: "wp (for_dirs f dir (map Some es))
    (\<lambda>xs w'. list_all2 P (filter (\<lambda>e. is_dir (dir @ [e]) w0) es) xs \<and> quiet w' \<and> fs w' = fs w0) (\<lambda>_ _. False) w1"
    if "quiet w1" "fs w1 = fs w0" for w1
    by (rule Cons.IH) (use Cons.prems(1) that in auto)
  have head: "wp (f e) (\<lambda>x w'. P e x \<and> quiet w' \<and> fs w' = fs w0) (\<lambda>_ _. False) w"
    using Cons.prems by simp
  show ?case
    using dir tail [OF Cons.prems(2,3)]
    by (auto intro!: wp_mono [OF head] wp_mono [OF tail])
qed simp

lemma quiet_attempt:
  assumes "reading.keeps m" "quiet w" "\<And>x w'. quiet w' \<Longrightarrow> fs w' = fs w \<Longrightarrow> Q x w'"
  shows "wp (attempt m) Q E w"
  using assms by (auto simp: wp_def attempt_def reading.keeps_def same_tree_def split: prod.splits sum.splits)

lemma ok_count_subdirs:
  assumes "quiet w"
  shows "wp (count_subdirs dir)
    (\<lambda>n w'. n = (if is_dir dir w then length (filter (\<lambda>e. is_dir (dir @ [e]) w) (children dir w)) else 0) \<and>
       quiet w' \<and> fs w' = fs w) (\<lambda>_ _. False) w"
proof (cases "is_dir dir w")
  case True
  show ?thesis
    unfolding count_subdirs_def
    by (intro wp_run wp_mono [OF ok_read_dir [OF assms True]]) (use True in \<open>auto simp: is_dir_def lookup_def\<close>)
next
  case False
  have "wp (read_dir dir) (\<lambda>_ _. False) (\<lambda>_ w'. quiet w' \<and> fs w' = fs w) w"
    unfolding read_dir_def
    by (intro wp_run ok_io_point_fs [OF assms]) (use False in \<open>auto simp: fs_views\<close>)
  then show ?thesis
    unfolding count_subdirs_def by (intro wp_run) (use False in \<open>auto elim!: wp_mono\<close>)
qed

lemma ok_app_list_entry:
  assumes "quiet w"
  shows "wp (app_list_entry L p e) (\<lambda>x w'. ali_name x = e \<and> quiet w' \<and> fs w' = fs w) (\<lambda>_ _. False) w"
  unfolding app_list_entry_def Let_def
  by (intro wp_run wp_prod quiet_attempt [OF reading_read_to_string assms] wp_mono [OF ok_count_subdirs [OF assms]])
     (use assms in auto)

text \<open>The comparison by a key.\<close>

lemma comparator_name: "comparator (\<lambda>a b. str_cmp (f a) (f b))"
  by (rule comparator_on [OF str.comparator_axioms])

lemma list_apps_complete:
  assumes "quiet w" "is_dir (d @ [''apps'']) w"
  shows "wp (list_apps L d)
    (\<lambda>xs w'. set (map ali_name xs) = {e. lookup w (d @ [''apps'', e]) = Some Dir} \<and> distinct (map ali_name xs) \<and>
       sorted_wrt (\<lambda>a b. str_cmp a b \<noteq> Greater) (map ali_name xs) \<and> fs w' = fs w) (\<lambda>_ _. False) w"
proof -
  let ?dir = "d @ [''apps'']" and ?cmp = "\<lambda>a b. str_cmp (ali_name a) (ali_name b)"
  let ?es = "filter (\<lambda>e. is_dir (?dir @ [e]) w) (children ?dir w)"
  have es: "set ?es = {e. lookup w (d @ [''apps'', e]) = Some Dir}" "distinct ?es"
    by (auto simp: in_children is_dir_def distinct_children)
  have sorted: "set (map ali_name (sort_by ?cmp xs)) = set (map ali_name xs)"
      "distinct (map ali_name (sort_by ?cmp xs)) = distinct (map ali_name xs)"
      "sorted_wrt (\<lambda>a b. str_cmp a b \<noteq> Greater) (map ali_name (sort_by ?cmp xs))" for xs
  proof -
    have m: "mset (map ali_name (sort_by ?cmp xs)) = mset (map ali_name xs)"
      by (simp add: mset_sort_by)
    show "set (map ali_name (sort_by ?cmp xs)) = set (map ali_name xs)" using mset_eq_setD [OF m] .
    show "distinct (map ali_name (sort_by ?cmp xs)) = distinct (map ali_name xs)"
      using mset_eq_imp_distinct_iff [OF m] .
    show "sorted_wrt (\<lambda>a b. str_cmp a b \<noteq> Greater) (map ali_name (sort_by ?cmp xs))"
      using comparator.sorted_sort_by [OF comparator_name, of ali_name xs] by (simp add: sorted_wrt_map)
  qed
  have names: "map ali_name xs = ys" if "list_all2 (\<lambda>e x. ali_name x = e) ys xs" for ys xs
    using that by (induction rule: list_all2_induct) auto
  have loop: "wp (for_dirs (\<lambda>e. app_list_entry L (?dir @ [e]) e) ?dir (map Some (children ?dir w)))
      (\<lambda>xs w'. list_all2 (\<lambda>e x. ali_name x = e) ?es xs \<and> quiet w' \<and> fs w' = fs w) (\<lambda>_ _. False) w1"
    if "quiet w1" "fs w1 = fs w" for w1
  proof (rule ok_for_dirs [OF _ that])
    fix e and w2 :: "'a world"
    assume "quiet w2" "fs w2 = fs w"
    then show "wp (app_list_entry L (?dir @ [e]) e) (\<lambda>x w'. ali_name x = e \<and> quiet w' \<and> fs w' = fs w)
        (\<lambda>_ _. False) w2"
      using ok_app_list_entry [of w2 L "?dir @ [e]" e] by simp
  qed
  let ?Post = "\<lambda>ys. set (map ali_name ys) = {e. lookup w (d @ [''apps'', e]) = Some Dir} \<and>
    distinct (map ali_name ys) \<and> sorted_wrt (\<lambda>a b. str_cmp a b \<noteq> Greater) (map ali_name ys)"
  have post: "?Post (sort_by ?cmp xs)" if "list_all2 (\<lambda>e x. ali_name x = e) ?es xs" for xs
    unfolding sorted(1,2) names [OF that] using es sorted(3) by blast
  have all: "wp (for_dirs (\<lambda>e. app_list_entry L (?dir @ [e]) e) ?dir (map Some (children ?dir w)))
      (\<lambda>xs w'. ?Post (sort_by ?cmp xs) \<and> fs w' = fs w) (\<lambda>_ _. False) w1" if "quiet w1" "fs w1 = fs w" for w1
    by (rule wp_mono [OF loop [OF that]]) (use post in blast)+
  have "exists_path ?dir w" using assms(2) by (simp add: is_dir_def exists_path_def)
  then show ?thesis
    unfolding list_apps_def Let_def
    by (simp, intro wp_mono [OF ok_read_dir [OF assms]]) (use all in \<open>simp_all add: conj_assoc\<close>)
qed


lemma ok_version_list_entry:
  assumes "quiet w" "\<forall>v \<in> set (cat_versions cat). vi_rollout v = None"
  shows "wp (version_list_entry L (Some cat) p e)
    (\<lambda>x w'. vli_rollout_percentage x = 100 \<and> quiet w' \<and> fs w' = fs w) (\<lambda>_ _. False) w"
proof -
  have "Option.bind (find_first (\<lambda>v. sv_show L (vi_version v) = e) (cat_versions cat)) vi_rollout = None"
    using assms(2) by (cases "find_first (\<lambda>v. sv_show L (vi_version v) = e) (cat_versions cat)")
      (auto dest: find_first_Some)
  then show ?thesis
    unfolding version_list_entry_def Let_def
    by (intro wp_run wp_prod quiet_attempt [OF reading_read_to_string assms(1)]) (use assms(1) in auto)
qed

lemma ok_read_file_fs:
  assumes "quiet w" "lookup w p = Some (File c)" "\<And>w'. quiet w' \<Longrightarrow> fs w' = fs w \<Longrightarrow> Q c w'"
  shows "wp (read_file p) Q E w"
  using assms by (auto simp: wp_def read_file_def next_op_quiet) (simp add: skip_ops_def quiet_def)

lemma list_versions_rollout:
  assumes w: "quiet w" and cat: "stored_catalog L d app w = Some cat"
    and none: "\<forall>v \<in> set (cat_versions cat). vi_rollout v = None"
    and dirs: "exists_path (app_dir d app) w" "is_dir (app_dir d app @ [''versions'']) w"
  shows "wp (list_versions L d app) (\<lambda>xs w'. (\<forall>x \<in> set xs. vli_rollout_percentage x = 100)) (\<lambda>_ _. False) w"
proof -
  let ?dir = "app_dir d app @ [''versions'']" and ?cat = "app_dir d app @ [''catalog.json'']"
  obtain c where c: "lookup w ?cat = Some (File c)" "utf8 L c" "de_catalog L c = Some cat"
    using cat by (auto simp: stored_catalog_def catalog_path_def file_at_def bind_eq_Some_conv
      split: option.splits node.splits if_splits)
  have loop: "wp (for_dirs (\<lambda>e. version_list_entry L (Some cat) (?dir @ [e]) e) ?dir (map Some (children ?dir w)))
      (\<lambda>xs w'. (\<forall>x \<in> set (sort_by (\<lambda>a b. str_cmp (vli_version b) (vli_version a)) xs). vli_rollout_percentage x = 100))
      (\<lambda>_ _. False) w1" if "quiet w1" "fs w1 = fs w" for w1
  proof (rule wp_mono [OF ok_for_dirs [where P = "\<lambda>e x. vli_rollout_percentage x = 100", OF _ that]])
    fix e and w2 :: "'a world"
    assume "quiet w2" "fs w2 = fs w"
    then show "wp (version_list_entry L (Some cat) (?dir @ [e]) e)
        (\<lambda>x w'. vli_rollout_percentage x = 100 \<and> quiet w' \<and> fs w' = fs w) (\<lambda>_ _. False) w2"
      using ok_version_list_entry [OF _ none, of w2 L "?dir @ [e]" e] by simp
  next
    fix xs and w' :: "'a world"
    assume "list_all2 (\<lambda>e x. vli_rollout_percentage x = 100)
        (filter (\<lambda>e. is_dir (?dir @ [e]) w) (children ?dir w)) xs \<and> quiet w' \<and> fs w' = fs w"
    then have "\<forall>x \<in> set xs. vli_rollout_percentage x = 100"
      by (auto simp: list_all2_conv_all_nth in_set_conv_nth)
    then show "\<forall>x \<in> set (sort_by (\<lambda>a b. str_cmp (vli_version b) (vli_version a)) xs). vli_rollout_percentage x = 100"
      using mset_eq_setD [OF mset_sort_by] by metis
  qed
  have read: "wp (read_to_string L ?cat) Q E w"
    if "\<And>w'. quiet w' \<Longrightarrow> fs w' = fs w \<Longrightarrow> Q c w'" for Q E
    unfolding read_to_string_def by (intro wp_run ok_read_file_fs [OF w c(1)]) (use that c(2) in auto)
  have list: "wp (read_dir ?dir) (\<lambda>es. wp (for_dirs (\<lambda>e. version_list_entry L (Some cat) (?dir @ [e]) e) ?dir es)
      (\<lambda>xs w'. \<forall>x \<in> set (sort_by (\<lambda>a b. str_cmp (vli_version b) (vli_version a)) xs). vli_rollout_percentage x = 100)
      (\<lambda>_ _. False)) (\<lambda>_ _. False) w1" if "quiet w1" "fs w1 = fs w" for w1
  proof -
    have "is_dir ?dir w1" "children ?dir w1 = children ?dir w" using dirs(2) that by (simp_all add: fs_views)
    then show ?thesis
      by (intro wp_mono [OF ok_read_dir [OF that(1)]]) (use loop that in auto)
  qed
  have ex: "exists_path ?dir w" "exists_path ?cat w"
    using dirs(2) c(1) by (auto simp: is_dir_def exists_path_def)
  show ?thesis
    unfolding list_versions_def Let_def
    by (simp add: dirs(1) ex, rule read) (use list c(3) in simp)
qed


section \<open>Properties\<close>

text \<open>
  The listing of applications is complete. While no operation fails it names every directory
  below \<open>apps\<close> exactly once, in ascending order, and the statistics count as many applications as
  the listing has entries; neither changes the tree.
\<close>

theorem admin_listing_complete:
  assumes "quiet w" "is_dir (d @ [''apps'']) w"
  shows "\<exists>xs w' w''. list_apps L d w = (Inr xs, w') \<and>
    set (map ali_name xs) = {e. lookup w (d @ [''apps'', e]) = Some Dir} \<and> distinct (map ali_name xs) \<and>
    sorted_wrt (\<lambda>a b. str_cmp a b \<noteq> Greater) (map ali_name xs) \<and> fs w' = fs w \<and>
    count_apps d w = ((Inr (length xs) :: http_error + nat), w'') \<and> fs w'' = fs w"
proof -
  let ?dir = "d @ [''apps'']" and ?D = "{e. lookup w (d @ [''apps'', e]) = Some Dir}"
  obtain xs w' where xs: "list_apps L d w = (Inr xs, w')" "set (map ali_name xs) = ?D" "distinct (map ali_name xs)"
      "sorted_wrt (\<lambda>a b. str_cmp a b \<noteq> Greater) (map ali_name xs)" "fs w' = fs w"
    using list_apps_complete [OF assms, of L] unfolding wp_total by blast
  have "set (filter (\<lambda>e. is_dir (?dir @ [e]) w) (children ?dir w)) = ?D"
    by (auto simp: in_children is_dir_def)
  then have len: "length xs = length (filter (\<lambda>e. is_dir (?dir @ [e]) w) (children ?dir w))"
    using xs(2) distinct_card [OF xs(3)] distinct_card [OF distinct_filter [OF distinct_children [of ?dir w]]]
    by (metis length_map)
  have "wp (count_apps d :: ('a, http_error, nat) io) (\<lambda>n w'. n = length xs \<and> fs w' = fs w) (\<lambda>_ _. False) w"
    unfolding count_apps_def Let_def
    using ok_count_subdirs [OF assms(1), of ?dir] assms(2) len
    by (auto simp: exists_path_def is_dir_def elim!: wp_mono)
  then show ?thesis using xs unfolding wp_total by blast
qed

theorem admin_listing_complete_witness:
  "\<exists>xs w'. list_apps sample_libs [] (sample_world sample_tree) = (Inr xs, w') \<and> map ali_name xs = [''app'']"
proof -
  have D: "{e. lookup (sample_world sample_tree) [''apps'', e] = Some Dir} = {''app''}"
    by (auto simp: sample_world_def sample_tree_def lookup_def)
  have "is_dir [''apps''] (sample_world sample_tree)"
    by (simp add: is_dir_def sample_world_def sample_tree_def lookup_def)
  then obtain xs w' where xs: "list_apps sample_libs [] (sample_world sample_tree) = (Inr xs, w')"
      "set (map ali_name xs) = {''app''}" "distinct (map ali_name xs)"
    using admin_listing_complete [of "sample_world sample_tree" "[]" sample_libs] D by auto
  have "length (map ali_name xs) = 1" using distinct_card [OF xs(3)] xs(2) by simp
  then have "map ali_name xs = [''app'']" using xs(2) by (cases xs) auto
  then show ?thesis using xs(1) by (intro exI conjI)
qed



text \<open>
  The listing of versions does not show rollouts. Publishing stores no rollout in the catalog and
  changing a rollout stores it beside the manifest, so that for every version of such a catalog the
  listing reports 100 percent, whatever percentage is stored.
\<close>

theorem listing_ignores_rollout:
  assumes "quiet w" "stored_catalog L d app w = Some cat" "\<forall>v \<in> set (cat_versions cat). vi_rollout v = None"
    and "exists_path (app_dir d app) w" "is_dir (app_dir d app @ [''versions'']) w"
  shows "\<exists>xs w'. list_versions L d app w = (Inr xs, w') \<and> (\<forall>x \<in> set xs. vli_rollout_percentage x = 100)"
  using list_versions_rollout [OF assms] unfolding wp_total by blast


theorem listing_ignores_rollout_witness:
  "\<exists>xs w'. list_versions sample_libs [] ''app'' (sample_world (sample_tree @
       [([''apps'', ''app'', ''versions'', ''2.0.0''], Dir),
        ([''apps'', ''app'', ''versions'', ''2.0.0'', ''rollout.json''],
         File (RolloutDoc \<lparr>percentage = 30, enabled = True, started_at = None, completed_at = None\<rparr>))])) = (Inr xs, w') \<and>
     (\<forall>x \<in> set xs. vli_rollout_percentage x = 100)"
proof (rule listing_ignores_rollout [where cat = sample_catalog])
  let ?w = "sample_world (sample_tree @ [([''apps'', ''app'', ''versions'', ''2.0.0''], Dir),
        ([''apps'', ''app'', ''versions'', ''2.0.0'', ''rollout.json''],
         File (RolloutDoc \<lparr>percentage = 30, enabled = True, started_at = None, completed_at = None\<rparr>))])"
  show "stored_catalog sample_libs [] ''app'' ?w = Some sample_catalog" "exists_path (app_dir [] ''app'') ?w"
    "is_dir (app_dir [] ''app'' @ [''versions'']) ?w"
    by (simp_all add: stored_catalog_def file_at_def exists_path_def is_dir_def lookup_def sample_world_def sample_tree_def)
qed (simp_all add: sample_defs)

end
