(* ===== verification/Server.thy ===== *)
theory Server
  imports Admin_Route Server_Auth
begin

text \<open>
  The assembled server (\<open>main.rs\<close>): the routes, their handlers, the five request limiters and the
  order of the layers. The authentication layer wraps the protected routes and runs first; then the
  limiter of the group of routes; then the handler.
\<close>

section \<open>Requests\<close>

datatype route =
    ReqHealth
  | ReqCheckUpdate string update_check_query
  | ReqDownload string download
  | ReqPublish string string "nat \<Rightarrow> u64 \<times> nat" "multipart_item list"
  | ReqActivate string string
  | ReqUploadDiff string string string "nat \<Rightarrow> u64 \<times> nat" "multipart_item list"
  | ReqSetRollout string string string string u8
  | ReqGetRollout string string
  | ReqListApps
  | ReqAppDetails string
  | ReqListVersions string
  | ReqDeleteVersion string string
  | ReqStats u64

datatype route_group = HealthGroup | UpdateGroup | DownloadGroup | PublishGroup | AdminGroup

fun group_of :: "route \<Rightarrow> route_group" where
  "group_of ReqHealth = HealthGroup"
| "group_of (ReqCheckUpdate app q) = UpdateGroup"
| "group_of (ReqDownload app x) = DownloadGroup"
| "group_of (ReqPublish app s rng mp) = PublishGroup"
| "group_of (ReqActivate app s) = PublishGroup"
| "group_of (ReqUploadDiff app u s rng mp) = PublishGroup"
| "group_of (ReqSetRollout app s now1 now2 pct) = PublishGroup"
| "group_of (ReqGetRollout app s) = PublishGroup"
| "group_of _ = AdminGroup"

definition protected :: "route_group \<Rightarrow> bool" where
  "protected g \<longleftrightarrow> g = PublishGroup \<or> g = AdminGroup"

datatype 'c answer =
    Healthy
  | UpdateAnswer update_check_response
  | FileAnswer "'c file_response"
  | PublishAnswer publish_response
  | RolloutAnswer rollout_response
  | AppsAnswer "app_list_item list"
  | DetailsAnswer app_details
  | VersionsAnswer "version_list_item list"
  | DeletedAnswer delete_version_response
  | StatsAnswer server_stats

definition answer :: "('a \<Rightarrow> 'c answer) \<Rightarrow> ('c, http_error, 'a) io \<Rightarrow> ('c, http_error, 'c answer) io" where
  "answer f m = bindE m (\<lambda>x. returnE (f x))"

text \<open>The handler of a route; \<open>pub\<close> is the identity the authentication attached, which only the
  handlers of protected routes look at.\<close>

fun handler :: "'c libs \<Rightarrow> path \<Rightarrow> publisher \<Rightarrow> route \<Rightarrow> ('c, http_error, 'c answer) io" where
  "handler L d pub ReqHealth = returnE Healthy"
| "handler L d pub (ReqCheckUpdate app q) = answer UpdateAnswer (check_update L d app q)"
| "handler L d pub (ReqDownload app x) = answer FileAnswer (run_download L d app x)"
| "handler L d pub (ReqPublish app s rng mp) = answer PublishAnswer (publish_version L d app s pub rng mp)"
| "handler L d pub (ReqActivate app s) = answer PublishAnswer (activate_version L d app s pub)"
| "handler L d pub (ReqUploadDiff app u s rng mp) = answer PublishAnswer (upload_diff L d app u s pub rng mp)"
| "handler L d pub (ReqSetRollout app s now1 now2 pct) =
     answer RolloutAnswer (update_rollout L d app s pub now1 now2 pct)"
| "handler L d pub (ReqGetRollout app s) = answer RolloutAnswer (get_rollout L d app s)"
| "handler L d pub ReqListApps = answer AppsAnswer (admin_list_apps L d)"
| "handler L d pub (ReqAppDetails app) = answer DetailsAnswer (get_app_details L d app)"
| "handler L d pub (ReqListVersions app) = answer VersionsAnswer (admin_list_versions L d app)"
| "handler L d pub (ReqDeleteVersion app s) = answer DeletedAnswer (admin_delete_version L d app s pub)"
| "handler L d pub (ReqStats up) = answer StatsAnswer (get_stats L d up)"


section \<open>The server\<close>

record 'c server =
  app_st :: app_state
  limiters :: "route_group \<Rightarrow> rate_limiter"
  store :: "'c world"

definition server_new :: "app_state \<Rightarrow> 'c world \<Rightarrow> 'c server" where
  "server_new st w = \<lparr>app_st = st,
     limiters = (\<lambda>g. case g of
        HealthGroup \<Rightarrow> rate_limiter_new 60 (secs 60) | UpdateGroup \<Rightarrow> rate_limiter_new 100 (secs 60)
      | DownloadGroup \<Rightarrow> rate_limiter_new 200 (secs 60) | PublishGroup \<Rightarrow> rate_limiter_new 10 (secs 60)
      | AdminGroup \<Rightarrow> rate_limiter_new 30 (secs 60)),
     store = w\<rparr>"

record connection =
  peer_ip :: string
  forwarded_for :: "string option"
  presented_key :: "string option"
  auth_time :: instant
  limit_time :: instant

text \<open>What does not depend on the connection: the Argon2 functions and the order of hash tables.\<close>

record auth_lib =
  phc_valid :: "string \<Rightarrow> bool"
  verify_password :: "string \<Rightarrow> string \<Rightarrow> bool"
  hash_order :: "string \<Rightarrow> nat"

definition limited ::
  "auth_lib \<Rightarrow> 'c libs \<Rightarrow> path \<Rightarrow> connection \<Rightarrow> publisher \<Rightarrow> route \<Rightarrow> 'c server \<Rightarrow> (http_error + 'c answer) \<times> 'c server" where
  "limited A L d conn pub r srv =
     (let g = group_of r;
          (ok, l) = rate_limit_middleware (hash_order A) (limiters srv g) (peer_ip conn) (forwarded_for conn)
            (trust_proxy (app_st srv)) (limit_time conn);
          srv1 = srv\<lparr>limiters := (limiters srv)(g := l)\<rparr>
      in case ok of
           None \<Rightarrow> (Inl (TOO_MANY_REQUESTS, []), srv1)
         | Some _ \<Rightarrow> (let (res, w) = handler L d pub r (store srv1) in (res, srv1\<lparr>store := w\<rparr>)))"

definition no_identity :: publisher where
  "no_identity = \<lparr>owner = [], allowed_apps = Some [], pubkey = None\<rparr>"

definition handle ::
  "auth_lib \<Rightarrow> 'c libs \<Rightarrow> path \<Rightarrow> connection \<Rightarrow> route \<Rightarrow> 'c server \<Rightarrow> (http_error + 'c answer) \<times> 'c server" where
  "handle A L d conn r srv =
     (if protected (group_of r)
      then let (auth, st) = require_api_key (phc_valid A) (verify_password A) (hash_order A) (app_st srv)
                 (peer_ip conn) (forwarded_for conn) (presented_key conn) (auth_time conn);
               srv1 = srv\<lparr>app_st := st\<rparr>
           in case auth of
                Inl code \<Rightarrow> (Inl (code, []), srv1)
              | Inr pub \<Rightarrow> limited A L d conn pub r srv1
      else limited A L d conn no_identity r srv)"

text \<open>One turn of the background tasks that reclaim expired entries.\<close>

definition sweep_limiter :: "route_group \<Rightarrow> instant \<Rightarrow> 'c server \<Rightarrow> 'c server" where
  "sweep_limiter g now srv = srv\<lparr>limiters := (limiters srv)(g := rl_cleanup_task (limiters srv g) now)\<rparr>"

definition sweep_failures :: "instant \<Rightarrow> 'c server \<Rightarrow> 'c server" where
  "sweep_failures now srv = srv\<lparr>app_st := (app_st srv)
     \<lparr>auth_failure_limiter := af_cleanup_expired_entries (auth_failure_limiter (app_st srv)) now\<rparr>\<rparr>"

text \<open>The states of a server that handles any sequence of requests, the background tasks running
  between them.\<close>

inductive reachable :: "auth_lib \<Rightarrow> 'c libs \<Rightarrow> path \<Rightarrow> 'c server \<Rightarrow> 'c server \<Rightarrow> bool"
  for A L d srv0 where
    start: "reachable A L d srv0 srv0"
  | request: "reachable A L d srv0 srv \<Longrightarrow> handle A L d conn r srv = (res, srv') \<Longrightarrow> reachable A L d srv0 srv'"
  | sweep: "reachable A L d srv0 srv \<Longrightarrow> reachable A L d srv0 (sweep_limiter g now srv)"
  | sweep_auth: "reachable A L d srv0 srv \<Longrightarrow> reachable A L d srv0 (sweep_failures now srv)"


section \<open>Guards\<close>

text \<open>A handler whose guard fails leaves the world as it is.\<close>

definition unchanged :: "('c, 'e, 'a) io \<Rightarrow> bool" where
  "unchanged m \<longleftrightarrow> (\<forall>w. snd (m w) = w)"

lemma unchanged_touches: "unchanged m \<Longrightarrow> touches S m"
  by (simp add: unchanged_def touches_def same_outside_def)

lemma unchanged_keeps: "unchanged m \<Longrightarrow> keeps_catalogs L d m"
  by (simp add: unchanged_def keeps_catalogs_def)

lemma guarded_handlers:
  "\<not> (validate_name app = Inr () \<and> validate_version s = Inr () \<and> can_publish pub app) \<Longrightarrow>
     unchanged (publish_version L d app s pub rng mp) \<and> unchanged (activate_version L d app s pub) \<and>
     unchanged (update_rollout L d app s pub now1 now2 pct) \<and> unchanged (admin_delete_version L d app s pub)"
  "\<not> (validate_name app = Inr () \<and> validate_version u = Inr () \<and> validate_version s = Inr () \<and> can_publish pub app) \<Longrightarrow>
     unchanged (upload_diff L d app u s pub rng mp)"
  by (auto simp: unchanged_def publish_version_def activate_version_def update_rollout_def admin_delete_version_def
      upload_diff_def bindE_def map_err_def from_sum_def throwE_def split: sum.splits if_splits)

lemma keeps_catalogs_upload_diff:
  assumes names: "slash_free u" "slash_free s"
  shows "keeps_catalogs L d (upload_diff L d app u s pub rng mp)"
proof (rule keeps_catalogs_other)
  let ?dir = "path_join (app_dir d app) ''diffs''"
  have staged: "touches (- catalog_files d) (upload_staged L d app u s v form)"
    if st: "staged_in ?dir (d_stream form)" for v form
  proof -
    have "sf_temp_path sf \<notin> catalog_files d" if "d_stream form = Some sf" for sf
      using st that by (auto simp: staged_in_def)
    then show ?thesis
      unfolding upload_staged_def Let_def
      by (cases "d_stream form")
         (auto intro!: touches_intros touches_cleanup touches_no_catalog touches_no_catalog_diff names
           split: option.split)
  qed
  have "touches (- catalog_files d) (upload_fields L d app u s v ?dir rng mp)" for v
    unfolding upload_fields_def
    by (rule footprint.keeps_bindE_ret [where P = "\<lambda>form. staged_in ?dir (d_stream form)"])
       (auto intro!: touches_collect_fields staged collect_diff_fields_staged_in)
  then show "touches (- catalog_files d) (upload_diff L d app u s pub rng mp)"
    unfolding upload_diff_def ensure_diffs_dir_def Let_def
    by (intro touches_intros)
qed


section \<open>Footprints of the handlers\<close>

lemma touches_readers:
  "touches S (get_app_catalog L d app)" "touches S (get_version_manifest L d app s)"
  "touches S (get_rollout_config L d app s)"
  unfolding get_app_catalog_def get_version_manifest_def get_rollout_config_def read_to_string_def Let_def
  by (intro touches_intros)+

lemma touches_serve_file: "touches S (serve_file L p ct e)"
  unfolding serve_file_def open_content_def by (intro touches_intros)

lemma touches_queries: "touches S (check_update L d app q)" "touches S (get_rollout L d app s)"
  unfolding check_update_def get_rollout_def Let_def by (intro touches_intros touches_readers)+

lemma touches_split:
  "(\<And>u v. touches S (f u v)) \<Longrightarrow> touches S m \<Longrightarrow> touches S (case xs of [u, v] \<Rightarrow> f u v | _ \<Rightarrow> m)"
  by (auto split: list.split)

lemma touches_download: "touches S (run_download L d app x)"
  by (cases x) (auto simp: download_binary_def download_diff_def download_signature_def Let_def
    intro!: touches_intros touches_readers touches_serve_file touches_split)

definition granted :: "path \<Rightarrow> publisher \<Rightarrow> path set" where
  "granted d pub = {p. \<exists>app. validate_name app = Inr () \<and> can_publish pub app \<and> p \<in> app_files d app}"

lemma app_files_granted: "validate_name app = Inr () \<Longrightarrow> can_publish pub app \<Longrightarrow> app_files d app \<subseteq> granted d pub"
  by (auto simp: granted_def)

lemma touches_admin_delete:
  assumes "slash_free s"
  shows "touches (app_files d app) (admin_delete_version L d app s pub)"
  unfolding admin_delete_version_def by (intro touches_intros touches_storage_version assms)

lemma touches_activate_rollout:
  assumes "slash_free s"
  shows "touches (app_files d app) (activate_version L d app s pub)"
    "touches (app_files d app) (update_rollout L d app s pub now1 now2 pct)"
  unfolding activate_version_def update_rollout_def
  by (intro touches_intros touches_storage_version touches_storage_app touches_readers assms)+

text \<open>What a write handler may touch, and that it keeps the catalogs, follows from its guard and from
  what it does when the guard holds.\<close>

lemma guarded_touches:
  assumes "\<not> G \<Longrightarrow> unchanged m" "G \<Longrightarrow> validate_name app = Inr () \<and> can_publish pub app \<and> touches (app_files d app) m"
  shows "touches (granted d pub) m"
proof (cases G)
  case True
  then show ?thesis using assms(2) touches_mono app_files_granted by blast
qed (use assms(1) unchanged_touches in blast)

lemma guarded_keeps:
  assumes "\<not> G \<Longrightarrow> unchanged m" "G \<Longrightarrow> keeps_catalogs L d m"
  shows "keeps_catalogs L d m"
  using assms unchanged_keeps by (cases G) auto

lemma touches_answer: "touches S m \<Longrightarrow> touches S (answer f m)"
  unfolding answer_def by (intro touches_intros)

lemma keeps_answer: "keeps_catalogs L d m \<Longrightarrow> keeps_catalogs L d (answer f m)"
  unfolding answer_def by (intro catalog_inv.keeps_intros)

lemma guarded_writes:
  "touches (granted d pub) (publish_version L d app s pub rng mp)"
  "touches (granted d pub) (activate_version L d app s pub)"
  "touches (granted d pub) (update_rollout L d app s pub now1 now2 pct)"
  "touches (granted d pub) (admin_delete_version L d app s pub)"
  "touches (granted d pub) (upload_diff L d app u s pub rng mp)"
proof -
  let ?G = "validate_name app = Inr () \<and> validate_version s = Inr () \<and> can_publish pub app"
  show "touches (granted d pub) (publish_version L d app s pub rng mp)"
    by (rule guarded_touches [where G = ?G and app = app])
       (use guarded_handlers(1) name_slash_free(2) touches_publish_version in blast)+
  show "touches (granted d pub) (activate_version L d app s pub)"
    by (rule guarded_touches [where G = ?G and app = app])
       (use guarded_handlers(1) name_slash_free(2) touches_activate_rollout(1) in blast)+
  show "touches (granted d pub) (update_rollout L d app s pub now1 now2 pct)"
    by (rule guarded_touches [where G = ?G and app = app])
       (use guarded_handlers(1) name_slash_free(2) touches_activate_rollout(2) in blast)+
  show "touches (granted d pub) (admin_delete_version L d app s pub)"
    by (rule guarded_touches [where G = ?G and app = app])
       (use guarded_handlers(1) name_slash_free(2) touches_admin_delete in blast)+
  show "touches (granted d pub) (upload_diff L d app u s pub rng mp)"
    by (rule guarded_touches [where G = "?G \<and> validate_version u = Inr ()" and app = app])
       (use guarded_handlers(2) in blast, simp add: touches_upload_diff name_slash_free(2))
qed

lemma guarded_keep_catalogs:
  assumes L: "lawful L" "total_comparator (sv_pre_cmp L)"
  shows "keeps_catalogs L d (publish_version L d app s pub rng mp)"
    "keeps_catalogs L d (activate_version L d app s pub)"
    "keeps_catalogs L d (update_rollout L d app s pub now1 now2 pct)"
    "keeps_catalogs L d (admin_delete_version L d app s pub)"
    "keeps_catalogs L d (upload_diff L d app u s pub rng mp)"
proof -
  let ?G = "validate_name app = Inr () \<and> validate_version s = Inr () \<and> can_publish pub app"
  show "keeps_catalogs L d (publish_version L d app s pub rng mp)"
    by (rule guarded_keeps [where G = ?G])
       (use guarded_handlers(1) name_slash_free(1) keeps_catalogs_publish_version [OF L] in blast)+
  show "keeps_catalogs L d (activate_version L d app s pub)"
    by (rule guarded_keeps [where G = ?G])
       (use guarded_handlers(1) name_slash_free(1) keeps_catalogs_routes(1) [OF L] in blast)+
  show "keeps_catalogs L d (update_rollout L d app s pub now1 now2 pct)"
    by (rule guarded_keeps [where G = ?G])
       (use guarded_handlers(1) name_slash_free(1) keeps_catalogs_routes(2) [OF L] in blast)+
  have "keeps_catalogs L d (admin_delete_version L d app s pub)" if ?G
  proof -
    have "slash_free app" "slash_free s" using that name_slash_free by auto
    then show ?thesis
      unfolding admin_delete_version_def by (intro catalog_inv.keeps_intros keeps_catalogs_storage(3) [OF L(1)])
  qed
  then show "keeps_catalogs L d (admin_delete_version L d app s pub)"
    by (rule guarded_keeps [where G = ?G, rotated]) (use guarded_handlers(1) in blast)+
  show "keeps_catalogs L d (upload_diff L d app u s pub rng mp)"
    by (rule guarded_keeps [where G = "?G \<and> validate_version u = Inr ()"])
       (use guarded_handlers(2) in blast, simp add: keeps_catalogs_upload_diff name_slash_free(2))
qed

lemma touches_read_handlers:
  "touches S (admin_list_apps L d)" "touches S (get_app_details L d app)"
  "touches S (admin_list_versions L d app)" "touches S (get_stats L d up)"
  by (rule reading_touches [OF reading_admin(1)] reading_touches [OF reading_admin(2)]
    reading_touches [OF reading_admin(3)] reading_touches [OF reading_admin(4)])+

lemma touches_handler: "touches (granted d pub) (handler L d pub r)"
  by (cases r) (auto intro!: touches_answer touches_queries touches_download
    touches_read_handlers guarded_writes footprint.keeps_pure)

lemma keeps_handler:
  assumes L: "lawful L" "total_comparator (sv_pre_cmp L)"
  shows "keeps_catalogs L d (handler L d pub r)"
  by (cases r) (auto intro!: keeps_answer guarded_keep_catalogs [OF L] catalog_inv.keeps_pure
    keeps_catalogs_other [OF touches_queries(1)] keeps_catalogs_other [OF touches_queries(2)]
    keeps_catalogs_other [OF touches_download] keeps_catalogs_other [OF touches_read_handlers(1)]
    keeps_catalogs_other [OF touches_read_handlers(2)] keeps_catalogs_other [OF touches_read_handlers(3)]
    keeps_catalogs_other [OF touches_read_handlers(4)])


section \<open>The handlers keep the tree well formed\<close>

lemma tree_storage:
  "tree_inv.keeps (save_binary_from_temp d app s p t)" "tree_inv.keeps (save_diff_from_temp d app u s p t)"
  "tree_inv.keeps (save_signature d app s data)" "tree_inv.keeps (ensure_version_dir d app s)"
  "tree_inv.keeps (ensure_diffs_dir d app)"
  unfolding storage_op_defs Let_def by (intro tree_intros)+

lemma tree_documents:
  "tree_inv.keeps (update_catalog_atomic L d app vi)" "tree_inv.keeps (update_manifest L d app s p cs sz)"
  "tree_inv.keeps (add_diff_to_manifest L d app s p di)" "tree_inv.keeps (set_latest_version L d app s)"
  "tree_inv.keeps (update_rollout_config_atomic L d app s g)" "tree_inv.keeps (delete_version L d app s)"
  unfolding storage_op_defs Let_def by (intro tree_intros)+

lemma tree_readers:
  "tree_inv.keeps (get_app_catalog L d app)" "tree_inv.keeps (get_version_manifest L d app s)"
  "tree_inv.keeps (get_rollout_config L d app s)"
  unfolding get_app_catalog_def get_version_manifest_def get_rollout_config_def read_to_string_def Let_def
  by (intro tree_intros)+

lemma tree_cleanup: "tree_inv.keeps (cleanup p)" "tree_inv.keeps (bail p e)"
  unfolding cleanup_def bail_def by (intro tree_intros)+

lemma tree_stream_chunks: "tree_inv.keeps (stream_chunks L temp m name acc n cs)"
proof (induction cs arbitrary: acc n)
  case (Cons c cs)
  then show ?case by (cases c) (auto simp: Let_def intro!: tree_intros tree_cleanup)
qed (simp add: tree_inv.keeps_pure)

lemma tree_prod: "(\<And>a b. tree_inv.keeps (f a b)) \<Longrightarrow> tree_inv.keeps (case x of (a, b) \<Rightarrow> f a b)"
  by (cases x) simp

lemma tree_stream: "tree_inv.keeps (stream_field_to_temp L f dir m name sfx)"
  unfolding stream_field_to_temp_def Let_def by (intro tree_intros tree_prod tree_stream_chunks tree_cleanup)

lemma tree_collect:
  "tree_inv.keeps (collect_fields L dir rng n acc items)" "tree_inv.keeps (collect_diff_fields L dir rng n dacc items)"
proof (induction items arbitrary: n acc dacc)
  case (Cons x items)
  {
    case 1
    show ?case
      using Cons(1) by (cases x) (auto simp: collect_field_def Let_def intro!: tree_intros tree_stream)
  next
    case 2
    show ?case
      using Cons(2) by (cases x) (auto simp: collect_diff_field_def Let_def intro!: tree_intros tree_stream)
  }
qed (simp_all add: tree_inv.keeps_pure)

lemma tree_handlers:
  "tree_inv.keeps (publish_version L d app s pub rng mp)" "tree_inv.keeps (upload_diff L d app u s pub rng mp)"
  "tree_inv.keeps (activate_version L d app s pub)" "tree_inv.keeps (update_rollout L d app s pub now1 now2 pct)"
  "tree_inv.keeps (admin_delete_version L d app s pub)" "tree_inv.keeps (get_rollout L d app s)"
  "tree_inv.keeps (check_update L d app q)"
  unfolding publish_version_def publish_upload_def publish_staged_def publish_commit_def upload_diff_def upload_fields_def
    upload_staged_def activate_version_def update_rollout_def admin_delete_version_def get_rollout_def check_update_def Let_def
  by (intro tree_intros tree_storage tree_documents tree_readers tree_cleanup tree_collect)+

lemma reading_tree: "reading.keeps m \<Longrightarrow> tree_inv.keeps m"
proof -
  have "wf_tree w' = wf_tree w" if "fs w' = fs w" for w w' :: "'a world"
    using that by (intro wf_tree_lookup) (simp add: lookup_def fun_eq_iff)
  then show "reading.keeps m \<Longrightarrow> tree_inv.keeps m"
    unfolding reading.keeps_def tree_inv.keeps_def same_tree_def by blast
qed

lemma tree_split:
  "(\<And>u v. tree_inv.keeps (f u v)) \<Longrightarrow> tree_inv.keeps m \<Longrightarrow> tree_inv.keeps (case xs of [u, v] \<Rightarrow> f u v | _ \<Rightarrow> m)"
  by (auto split: list.split)

lemma tree_download: "tree_inv.keeps (run_download L d app x)"
  by (cases x) (auto simp: download_binary_def download_diff_def download_signature_def serve_file_def open_content_def Let_def
    intro!: tree_intros tree_readers tree_split)

lemma tree_answer: "tree_inv.keeps m \<Longrightarrow> tree_inv.keeps (answer f m)"
  unfolding answer_def by (intro tree_intros)

lemma tree_handler: "tree_inv.keeps (handler L d pub r)"
  by (cases r) (auto intro!: tree_answer tree_handlers tree_download tree_inv.keeps_pure
    reading_tree [OF reading_admin(1)] reading_tree [OF reading_admin(2)] reading_tree [OF reading_admin(3)]
    reading_tree [OF reading_admin(4)])


section \<open>The invariant of the server\<close>

definition server_ok :: "auth_lib \<Rightarrow> 'c libs \<Rightarrow> path \<Rightarrow> 'c server \<Rightarrow> bool" where
  "server_ok A L d srv \<longleftrightarrow> wf_state (phc_valid A) (app_st srv) \<and>
     (\<forall>g. distinct (keys (rl_entries (limiters srv g))) \<and> length (rl_entries (limiters srv g)) \<le> MAX_ENTRIES) \<and>
     catalogs_ok L d (store srv) \<and> wf_tree (store srv)"

lemma limiter_step:
  assumes "distinct (keys (rl_entries l)) \<and> length (rl_entries l) \<le> MAX_ENTRIES"
    and "rate_limit_middleware h l ip xff tp now = (ok, l')"
  shows "distinct (keys (rl_entries l')) \<and> length (rl_entries l') \<le> MAX_ENTRIES"
proof -
  have "l' = foldl rl_request l [(h, client_ip ip xff tp, now)]"
    using assms(2) by (auto simp: rate_limit_middleware_def rl_request_def split: prod.splits)
  then show ?thesis
    using request_table.wf_run [of l "[(h, client_ip ip xff tp, now)]"] assms(1)
    by (simp add: request_table.wf_tab_def)
qed

lemma limited_cases:
  assumes "limited A L d conn pub r srv = (res, srv')"
  obtains l where "app_st srv' = app_st srv" "store srv' = store srv \<or> store srv' = snd (handler L d pub r (store srv))"
    "limiters srv' = (limiters srv)(group_of r := l)"
    "\<exists>ok. rate_limit_middleware (hash_order A) (limiters srv (group_of r)) (peer_ip conn) (forwarded_for conn)
       (trust_proxy (app_st srv)) (limit_time conn) = (ok, l)"
  using assms
  by (auto simp: limited_def Let_def split: prod.splits option.splits)

lemma handle_cases:
  assumes "handle A L d conn r srv = (res, srv')"
  obtains (refused) "protected (group_of r)" "store srv' = store srv" "limiters srv' = limiters srv"
      "app_st srv' = snd (require_api_key (phc_valid A) (verify_password A) (hash_order A) (app_st srv)
         (peer_ip conn) (forwarded_for conn) (presented_key conn) (auth_time conn))"
  | (authenticated) pub st where "protected (group_of r)"
      "require_api_key (phc_valid A) (verify_password A) (hash_order A) (app_st srv)
         (peer_ip conn) (forwarded_for conn) (presented_key conn) (auth_time conn) = (Inr pub, st)"
      "limited A L d conn pub r (srv\<lparr>app_st := st\<rparr>) = (res, srv')"
  | (public) "\<not> protected (group_of r)" "limited A L d conn no_identity r srv = (res, srv')"
  using assms by (auto simp: handle_def Let_def split: if_splits prod.splits sum.splits)

lemma server_ok_limited:
  assumes L: "lawful L" "total_comparator (sv_pre_cmp L)"
    and ok: "server_ok A L d srv" and run: "limited A L d conn pub r srv = (res, srv')"
  shows "server_ok A L d srv'"
proof (rule limited_cases [OF run])
  fix l
  assume s: "app_st srv' = app_st srv" "store srv' = store srv \<or> store srv' = snd (handler L d pub r (store srv))"
    "limiters srv' = (limiters srv)(group_of r := l)"
    "\<exists>k. rate_limit_middleware (hash_order A) (limiters srv (group_of r)) (peer_ip conn) (forwarded_for conn)
       (trust_proxy (app_st srv)) (limit_time conn) = (k, l)"
  have "catalogs_ok L d (snd (handler L d pub r (store srv)))"
    using keeps_handler [OF L, of d pub r] ok unfolding keeps_catalogs_def server_ok_def by blast
  then have "catalogs_ok L d (store srv')" using ok s(2) unfolding server_ok_def by metis
  moreover have "wf_tree (store srv')"
    using ok s(2) tree_handler [of L d pub r] unfolding server_ok_def tree_inv.keeps_def by metis
  moreover have "distinct (keys (rl_entries l)) \<and> length (rl_entries l) \<le> MAX_ENTRIES"
    using s(4) limiter_step ok unfolding server_ok_def by metis
  ultimately show ?thesis
    using ok unfolding server_ok_def s(1,3) by simp
qed

lemma server_ok_handle:
  assumes L: "lawful L" "total_comparator (sv_pre_cmp L)"
    and ok: "server_ok A L d srv" and run: "handle A L d conn r srv = (res, srv')"
  shows "server_ok A L d srv'"
proof (cases rule: handle_cases [OF run])
  case 1
  then show ?thesis using ok wf_require_api_key by (simp add: server_ok_def)
next
  case (2 pub st)
  have "wf_state (phc_valid A) st"
    using wf_require_api_key [of "phc_valid A" "app_st srv"] ok 2(2) by (metis server_ok_def snd_conv)
  then have "server_ok A L d (srv\<lparr>app_st := st\<rparr>)" using ok by (simp add: server_ok_def)
  then show ?thesis using server_ok_limited [OF L _ 2(3)] by blast
next
  case 3
  then show ?thesis using server_ok_limited [OF L ok] by blast
qed

lemma server_ok_sweep:
  "server_ok A L d srv \<Longrightarrow> server_ok A L d (sweep_limiter g now srv)"
  "server_ok A L d srv \<Longrightarrow> server_ok A L d (sweep_failures now srv)"
proof -
  assume ok: "server_ok A L d srv"
  let ?es = "rl_entries (limiters srv g)"
  have "distinct (keys (filter P ?es))" "length (filter P ?es) \<le> MAX_ENTRIES" for P
    using ok order_trans [OF length_filter_le, of ?es MAX_ENTRIES P] unfolding server_ok_def keys_def
    by (auto simp: distinct_map_filter)
  with ok show "server_ok A L d (sweep_limiter g now srv)"
    by (simp add: server_ok_def sweep_limiter_def rl_cleanup_task_def rl_cleanup_expired_entries_def)
  from ok show "server_ok A L d (sweep_failures now srv)"
    by (simp add: server_ok_def sweep_failures_def wf_state_def)
qed

lemma store_change:
  assumes run: "handle A L d conn r srv = (res, srv')"
    and change: "file_at (store srv') p \<noteq> file_at (store srv) p"
  obtains pub st where "protected (group_of r)" "p \<in> granted d pub"
    "require_api_key (phc_valid A) (verify_password A) (hash_order A) (app_st srv)
         (peer_ip conn) (forwarded_for conn) (presented_key conn) (auth_time conn) = (Inr pub, st)"
proof -
  have lim: "p \<in> granted d pub" if "limited A L d conn pub r srv1 = (res, srv')" "store srv1 = store srv" for pub srv1
  proof (rule limited_cases [OF that(1)])
    fix l
    assume "store srv' = store srv1 \<or> store srv' = snd (handler L d pub r (store srv1))"
    then show "p \<in> granted d pub"
      using change that(2) touchesD [OF touches_handler] by (metis prod.collapse)
  qed
  have none: "granted d no_identity = {}"
    by (simp add: granted_def no_identity_def can_publish_def)
  show thesis
  proof (cases rule: handle_cases [OF run])
    case 1
    then show ?thesis using change by simp
  next
    case (2 pub st)
    then show ?thesis using that lim [OF 2(3)] by simp
  next
    case 3
    then show ?thesis using lim [OF 3(2)] none by simp
  qed
qed

end
