(* ===== verification/Db_Models.thy ===== *)
theory Db_Models
  imports Core_Types
begin

text \<open>
  The rows and checks shared by the databases (\<open>crates/deltaship-db/src/models.rs\<close> and \<open>error.rs\<close>): the
  states of jobs and updates, the validation of what is inserted, and the records of the client's
  tables. A value of a column of type \<open>INTEGER\<close> is an integer; a time stamp is its text. The parser of
  the \<open>semver\<close> crate is a parameter.
\<close>

section \<open>Errors\<close>

text \<open>The variants the modelled operations produce. Time-outs, migrations and errors of the file system
  below SQLite are all \<open>DbSqlx\<close> or \<open>DbConnection\<close>; \<open>DbPanic\<close> is the panic of slicing a text inside a
  character.\<close>

datatype db_error =
    DbSqlx string
  | DbConnection string
  | DbConstraint string
  | DbNotFound string
  | DbDuplicate string
  | DbInvalidData string
  | DbIo string
  | DbSchemaMismatch string
  | DbPanic


section \<open>Checks\<close>

definition validate_platform :: "string \<Rightarrow> db_error + unit" where
  "validate_platform plat =
     (if to_lowercase plat \<in> set all_platform_variants then Inr ()
      else Inl (DbInvalidData (''Unknown platform '' @ plat)))"

definition KNOWN_DIFF_ALGORITHMS :: "string list" where
  "KNOWN_DIFF_ALGORITHMS = [''bsdiff'', ''courgette'', ''xdelta3'']"

definition validate_diff_algorithm :: "string \<Rightarrow> db_error + unit" where
  "validate_diff_algorithm alg =
     (if to_lowercase alg \<in> set KNOWN_DIFF_ALGORITHMS then Inr ()
      else Inl (DbInvalidData (''Unknown diff algorithm '' @ alg)))"

definition is_ascii :: "string \<Rightarrow> bool" where
  "is_ascii s \<longleftrightarrow> (\<forall>c \<in> set s. (of_char c :: nat) < 128)"

definition normalize_version_string :: "(string \<Rightarrow> string + version) \<Rightarrow> string \<Rightarrow> db_error + string" where
  "normalize_version_string parse vs =
     (let trimmed = trim vs in
      if \<not> is_ascii trimmed then Inl (DbInvalidData ''Version string must contain only ASCII characters'')
      else
      let normalized = (case trimmed of c # s \<Rightarrow> if c = CHR ''v'' \<or> c = CHR ''V'' then s else trimmed | [] \<Rightarrow> trimmed) in
      if 255 < length normalized then Inl (DbInvalidData ''Version string too long'')
      else case parse normalized of
             Inl e \<Rightarrow> Inl (DbInvalidData (''Invalid semver version '' @ vs))
           | Inr v \<Rightarrow>
               if major v = 0 \<and> minor v = 0 \<and> patch v = 0
               then Inl (DbInvalidData ''Version 0.0.0 is not a valid release version'')
               else Inr normalized)"

definition BLAKE3_HASH_SIZE :: nat where
  "BLAKE3_HASH_SIZE = 32"

definition SHA256_HASH_SIZE :: nat where
  "SHA256_HASH_SIZE = 32"

definition validate_hash_size :: "bytes \<Rightarrow> nat \<Rightarrow> string \<Rightarrow> db_error + unit" where
  "validate_hash_size hash expected_size hash_name =
     (if length hash \<noteq> expected_size then Inl (DbInvalidData (hash_name @ '' hash has the wrong size'')) else Inr ())"


section \<open>Time stamps\<close>

text \<open>A string is a list of UTF-8 bytes; slicing it inside a character panics.\<close>

definition continuation_byte :: "char \<Rightarrow> bool" where
  "continuation_byte c \<longleftrightarrow> 128 \<le> (of_char c :: nat) \<and> (of_char c :: nat) < 192"

definition is_char_boundary :: "string \<Rightarrow> nat \<Rightarrow> bool" where
  "is_char_boundary s i \<longleftrightarrow> i = length s \<or> i < length s \<and> \<not> continuation_byte (s ! i)"

definition str_slice :: "string \<Rightarrow> nat \<Rightarrow> nat \<Rightarrow> db_error + string" where
  "str_slice s a b =
     (if is_char_boundary s a \<and> is_char_boundary s b then Inr (take (b - a) (drop a s)) else Inl DbPanic)"

definition nth_char :: "string \<Rightarrow> nat \<Rightarrow> char option" where
  "nth_char s n =
     (let starts = filter (\<lambda>i. \<not> continuation_byte (s ! i)) [0..<length s] in
      if n < length starts then Some (s ! (starts ! n)) else None)"

text \<open>\<open>str::parse\<close> for a signed and for an unsigned number, whose range the callers' slices of at most
  four digits cannot exceed.\<close>

definition parse_digits :: "string \<Rightarrow> nat option" where
  "parse_digits s =
     (if s = [] \<or> \<not> list_all is_ascii_digit s then None
      else Some (fold (\<lambda>c n. 10 * n + (of_char c - 48)) s 0))"

definition parse_u32 :: "string \<Rightarrow> nat option" where
  "parse_u32 s = parse_digits (if starts_with s ''+'' then tl s else s)"

definition parse_i32 :: "string \<Rightarrow> int option" where
  "parse_i32 s =
     (if starts_with s ''-'' then map_option (\<lambda>n. - int n) (parse_digits (tl s)) else map_option int (parse_u32 s))"

definition parse_field ::
  "(string \<Rightarrow> 'a option) \<Rightarrow> string \<Rightarrow> string \<Rightarrow> nat \<Rightarrow> nat \<Rightarrow> ('a \<Rightarrow> db_error + 'b) \<Rightarrow> db_error + 'b" where
  "parse_field p name s a b k =
     (case str_slice s a b of
        Inl e \<Rightarrow> Inl e
      | Inr t \<Rightarrow> (case p t of None \<Rightarrow> Inl (DbInvalidData (''Invalid '' @ name @ '' in expiration timestamp'')) | Some x \<Rightarrow> k x))"

definition validate_expires_at_timestamp :: "string \<Rightarrow> db_error + unit" where
  "validate_expires_at_timestamp expires_at =
     (let trimmed = trim expires_at in
      if length trimmed < 19 then Inl (DbInvalidData ''Expiration timestamp too short'')
      else case str_slice trimmed 0 19 of Inl e \<Rightarrow> Inl e | Inr datetime_part \<Rightarrow>
      if nth_char datetime_part 10 \<noteq> Some (CHR ''T'') \<and> nth_char datetime_part 10 \<noteq> Some (CHR '' '')
      then Inl (DbInvalidData ''Expiration timestamp missing valid separator'')
      else
      parse_field parse_i32 ''year'' trimmed 0 4 (\<lambda>year.
      parse_field parse_u32 ''month'' trimmed 5 7 (\<lambda>month.
      parse_field parse_u32 ''day'' trimmed 8 10 (\<lambda>day.
      parse_field parse_u32 ''hour'' trimmed 11 13 (\<lambda>hour.
      parse_field parse_u32 ''minute'' trimmed 14 16 (\<lambda>minute.
      parse_field parse_u32 ''second'' trimmed 17 19 (\<lambda>second.
      if year < 1970 \<or> 2100 < year then Inl (DbInvalidData ''Year out of range'')
      else if month < 1 \<or> 12 < month then Inl (DbInvalidData ''Month out of range'')
      else if day < 1 \<or> 31 < day then Inl (DbInvalidData ''Day out of range'')
      else if 23 < hour then Inl (DbInvalidData ''Hour out of range'')
      else if 59 < minute then Inl (DbInvalidData ''Minute out of range'')
      else if 59 < second then Inl (DbInvalidData ''Second out of range'')
      else Inr ())))))))"


section \<open>States of jobs and updates\<close>

datatype diff_job_status = JobPending | JobRunning | JobCompleted | JobFailed

fun diff_job_status_as_str :: "diff_job_status \<Rightarrow> string" where
  "diff_job_status_as_str JobPending = ''pending''"
| "diff_job_status_as_str JobRunning = ''running''"
| "diff_job_status_as_str JobCompleted = ''completed''"
| "diff_job_status_as_str JobFailed = ''failed''"

definition diff_job_status_from_str :: "string \<Rightarrow> db_error + diff_job_status" where
  "diff_job_status_from_str s =
     (let l = to_lowercase s in
      if l = ''pending'' then Inr JobPending
      else if l = ''running'' then Inr JobRunning
      else if l = ''completed'' then Inr JobCompleted
      else if l = ''failed'' then Inr JobFailed
      else Inl (DbInvalidData (''Unknown diff job status: '' @ s)))"

datatype update_history_status = Downloading | Applying | Verifying | Completed | Failed | RolledBack

fun update_history_status_as_str :: "update_history_status \<Rightarrow> string" where
  "update_history_status_as_str Downloading = ''downloading''"
| "update_history_status_as_str Applying = ''applying''"
| "update_history_status_as_str Verifying = ''verifying''"
| "update_history_status_as_str Completed = ''completed''"
| "update_history_status_as_str Failed = ''failed''"
| "update_history_status_as_str RolledBack = ''rolled_back''"

definition update_history_status_from_str :: "string \<Rightarrow> db_error + update_history_status" where
  "update_history_status_from_str s =
     (let l = to_lowercase s in
      if l = ''downloading'' then Inr Downloading
      else if l = ''applying'' then Inr Applying
      else if l = ''verifying'' then Inr Verifying
      else if l = ''completed'' then Inr Completed
      else if l = ''failed'' then Inr Failed
      else if l = ''rolled_back'' then Inr RolledBack
      else Inl (DbInvalidData (''Unknown update history status: '' @ s)))"


section \<open>Rows of the client's tables\<close>

record managed_binary =
  mb_id :: string
  mb_name :: string
  mb_platform :: string
  install_path :: string
  current_version_id :: "string option"
  current_version_string :: "string option"
  publisher_public_key :: bytes
  auto_update :: bool
  last_check_at :: "string option"
  last_update_at :: "string option"
  mb_created_at :: string
  mb_updated_at :: string

record installed_version =
  iv_id :: nat
  iv_binary_id :: string
  iv_version_id :: string
  iv_version_string :: string
  iv_hash_blake3 :: bytes
  iv_hash_sha256 :: bytes
  iv_size_bytes :: int
  installed_at :: string
  is_current :: bool

record update_metrics =
  um_diff_id :: "string option"
  um_diff_algorithm :: "string option"
  um_diff_size_bytes :: "int option"
  um_full_size_bytes :: "int option"
  um_downloaded_bytes :: "int option"
  um_download_time_ms :: "int option"
  um_apply_time_ms :: "int option"
  um_verify_time_ms :: "int option"

record update_history =
  uh_id :: nat
  uh_binary_id :: string
  from_version_id :: "string option"
  from_version_string :: "string option"
  to_version_id :: string
  to_version_string :: string
  uh_metrics :: update_metrics
  uh_started_at :: string
  uh_completed_at :: "string option"
  uh_status :: string
  success :: "bool option"
  error_message :: "string option"

record rollback_backup =
  rb_id :: nat
  rb_binary_id :: string
  rb_version_id :: string
  rb_version_string :: string
  backup_path :: string
  backup_hash_blake3 :: bytes
  backup_size_bytes :: int
  rb_created_at :: string
  expires_at :: "string option"

record new_managed_binary =
  nb_id :: string
  nb_name :: string
  nb_platform :: string
  nb_install_path :: string
  nb_public_key :: bytes

record new_update_record =
  nu_binary_id :: string
  nu_from_version_id :: "string option"
  nu_from_version_string :: "string option"
  nu_to_version_id :: string
  nu_to_version_string :: string

definition no_metrics :: update_metrics where
  "no_metrics = \<lparr>um_diff_id = None, um_diff_algorithm = None, um_diff_size_bytes = None,
     um_full_size_bytes = None, um_downloaded_bytes = None, um_download_time_ms = None, um_apply_time_ms = None,
     um_verify_time_ms = None\<rparr>"


section \<open>Round trips\<close>

lemma status_roundtrip:
  "diff_job_status_from_str (diff_job_status_as_str j) = Inr j"
  "update_history_status_from_str (update_history_status_as_str u) = Inr u"
proof -
  show "diff_job_status_from_str (diff_job_status_as_str j) = Inr j"
    by (cases j) (simp_all add: diff_job_status_from_str_def to_lowercase_def ascii_defs)
  show "update_history_status_from_str (update_history_status_as_str u) = Inr u"
    by (cases u) (simp_all add: update_history_status_from_str_def to_lowercase_def ascii_defs)
qed

lemma validate_platform_iff: "validate_platform p = Inr () \<longleftrightarrow> (\<exists>q. platform_from_str p = Inr q)"
  by (simp add: validate_platform_def platform_from_str_ok_iff)

end
