(* ===== verification/Db_Ops.thy ===== *)
theory Db_Ops
  imports Db_Models Sorting File_System
begin

text \<open>
  What the two databases (\<open>crates/deltaship-db/src/client.rs\<close> and \<open>publisher.rs\<close>) share: operations that
  fail or return a result and the new database, their composition, the interface of a database whose
  invariant every request keeps, and the file that holds a database. The type of the database is a
  parameter.
\<close>

section \<open>Operations\<close>

type_synonym ('d, 'a) dbm = "'d \<Rightarrow> db_error + 'a \<times> 'd"

definition bind_db :: "('d, 'a) dbm \<Rightarrow> ('a \<Rightarrow> ('d, 'b) dbm) \<Rightarrow> ('d, 'b) dbm" where
  "bind_db m f db = (case m db of Inl e \<Rightarrow> Inl e | Inr (x, db') \<Rightarrow> f x db')"

definition return_db :: "'a \<Rightarrow> ('d, 'a) dbm" where
  "return_db x db = Inr (x, db)"

definition fail_db :: "db_error \<Rightarrow> ('d, 'a) dbm" where
  "fail_db e db = Inl e"

definition check_db :: "db_error + unit \<Rightarrow> ('d, 'a) dbm \<Rightarrow> ('d, 'a) dbm" where
  "check_db r m db = (case r of Inl e \<Rightarrow> Inl e | Inr _ \<Rightarrow> m db)"

text \<open>\<open>ok_or_else\<close> on what a query found.\<close>

definition found_db :: "db_error \<Rightarrow> 'a option \<Rightarrow> ('d, 'a) dbm" where
  "found_db e r = (case r of Some x \<Rightarrow> return_db x | None \<Rightarrow> fail_db e)"

text \<open>\<open>LIMIT\<close> with a negative number is no limit.\<close>

definition sql_limit :: "int \<Rightarrow> 'a list \<Rightarrow> 'a list" where
  "sql_limit n xs = (if n < 0 then xs else take (nat n) xs)"

text \<open>The check of the arguments of the paginated listings, and the page.\<close>

definition page_db :: "int \<Rightarrow> int \<Rightarrow> ('d \<Rightarrow> 'r list) \<Rightarrow> ('d, 'r list) dbm" where
  "page_db limit offset rows db =
     (if limit \<le> 0 then Inl (DbInvalidData ''Limit must be positive'')
      else if offset < 0 then Inl (DbInvalidData ''Offset must be non-negative'')
      else Inr (sql_limit limit (drop (nat offset) (rows db)), db))"

text \<open>A failing request leaves the database as it is.\<close>

definition commit :: "('d, 'a) dbm \<Rightarrow> 'd \<Rightarrow> 'd" where
  "commit m db = (case m db of Inl _ \<Rightarrow> db | Inr (_, db') \<Rightarrow> db')"

lemma bind_db_ok [simp]:
  "bind_db m f db = Inr (y, db') \<longleftrightarrow> (\<exists>x db1. m db = Inr (x, db1) \<and> f x db1 = Inr (y, db'))"
  by (auto simp: bind_db_def split: sum.splits)

lemma found_db_ok [simp]: "found_db e r db = Inr (x, db') \<longleftrightarrow> r = Some x \<and> db' = db"
  by (auto simp: found_db_def return_db_def fail_db_def split: option.splits)


section \<open>Invariants\<close>

locale db_invariant =
  fixes wf :: "'d \<Rightarrow> bool"
begin

definition keeps_op :: "('d, 'a) dbm \<Rightarrow> bool" where
  "keeps_op m \<longleftrightarrow> (\<forall>db x db'. wf db \<longrightarrow> m db = Inr (x, db') \<longrightarrow> wf db')"

lemma keeps_opI: "(\<And>db x db'. wf db \<Longrightarrow> m db = Inr (x, db') \<Longrightarrow> wf db') \<Longrightarrow> keeps_op m"
  unfolding keeps_op_def by blast

lemma keeps_opD: "keeps_op m \<Longrightarrow> wf db \<Longrightarrow> m db = Inr (x, db') \<Longrightarrow> wf db'"
  unfolding keeps_op_def by blast

lemma keeps_db_bind: "keeps_op m \<Longrightarrow> (\<And>x. keeps_op (f x)) \<Longrightarrow> keeps_op (bind_db m f)"
  unfolding keeps_op_def bind_db_ok by blast

lemma keeps_db_check: "(r = Inr () \<Longrightarrow> keeps_op m) \<Longrightarrow> keeps_op (check_db r m)"
  unfolding keeps_op_def check_db_def by (auto split: sum.splits)

lemma keeps_db_read: "(\<And>db x db'. m db = Inr (x, db') \<Longrightarrow> db' = db) \<Longrightarrow> keeps_op m"
  unfolding keeps_op_def by blast

lemma keeps_db_found: "keeps_op (found_db e r)"
  by (rule keeps_db_read) simp

lemma keeps_db_page: "keeps_op (page_db limit offset rows)"
  by (rule keeps_db_read) (auto simp: page_db_def split: if_splits)

lemma keeps_commit: "keeps_op m \<Longrightarrow> wf db \<Longrightarrow> wf (commit m db)"
  by (auto simp: commit_def split: sum.splits prod.splits dest: keeps_opD)

end

text \<open>A database: the requests that change it keep its invariant, so every history does.\<close>

locale database = db_invariant wf for wf :: "'d \<Rightarrow> bool" +
  fixes initial :: 'd and request :: "'r \<Rightarrow> 'd \<Rightarrow> 'd"
  assumes wf_initial: "wf initial"
    and wf_request: "wf db \<Longrightarrow> wf (request r db)"
begin

lemma wf_history: "wf db \<Longrightarrow> wf (fold request rs db)"
  by (induction rs arbitrary: db) (simp_all add: wf_request)

lemma stays_wf: "wf (fold request rs initial)"
  by (rule wf_history [OF wf_initial])

end


section \<open>Rows\<close>

text \<open>An \<open>UPDATE\<close> of the rows that satisfy a condition.\<close>

definition update_where :: "('r \<Rightarrow> bool) \<Rightarrow> ('r \<Rightarrow> 'r) \<Rightarrow> 'r list \<Rightarrow> 'r list" where
  "update_where P f = map (\<lambda>r. if P r then f r else r)"

lemma map_update_where:
  "(\<And>r. P r \<Longrightarrow> key (f r) = key r) \<Longrightarrow> map key (update_where P f rows) = map key rows"
  by (simp add: update_where_def)

lemma ball_update_where:
  "(\<And>r. r \<in> set rows \<Longrightarrow> P r \<Longrightarrow> Q r \<Longrightarrow> Q (f r)) \<Longrightarrow> \<forall>r \<in> set rows. Q r \<Longrightarrow> \<forall>r \<in> set (update_where P f rows). Q r"
  by (auto simp: update_where_def)

lemma find_first_update_where:
  "(\<And>r. P r \<Longrightarrow> Q (f r) = Q r) \<Longrightarrow>
   find_first Q (update_where P f rows) = map_option (\<lambda>r. if P r then f r else r) (find_first Q rows)"
  by (induction rows) (auto simp: update_where_def)

lemma length_filter_pos: "0 < length (filter P xs) \<longleftrightarrow> (\<exists>x \<in> set xs. P x)"
  by (induction xs) auto


section \<open>The file of a database\<close>

text \<open>A file holds bytes or a database. Everything observed of the operating system is a function of
  the number of operations performed so far.\<close>

datatype 'd content_of = Bytes bytes | Database 'd

definition observe :: "(nat \<Rightarrow> 'a) \<Rightarrow> ('c, 'e, 'a) io" where
  "observe f w = (Inr (f (tick w)), w\<lparr>tick := Suc (tick w)\<rparr>)"

definition path_exists :: "path \<Rightarrow> 'c world \<Rightarrow> bool" where
  "path_exists p w \<longleftrightarrow> p = [] \<or> lookup w p \<noteq> None"

text \<open>A statement or transaction of the database is atomic: it fails and changes nothing, or is done.\<close>

definition db_run :: "path \<Rightarrow> ('d, 'a) dbm \<Rightarrow> ('d content_of, db_error, 'a) io" where
  "db_run p op w =
     (case next_op w of
        (NoFault, w') \<Rightarrow>
          (case lookup w' p of
             Some (File (Database db)) \<Rightarrow>
               (case op db of
                  Inl e \<Rightarrow> (Inl e, w')
                | Inr (x, db') \<Rightarrow> (Inr x, set_node p (File (Database db')) w'))
           | _ \<Rightarrow> (Inl (DbConnection ''unable to open database file''), w'))
      | (_, w') \<Rightarrow> (Inl (DbSqlx ''disk I/O error''), w'))"

text \<open>Operations that clean up after a failure, and the outcome of an operation as a value, for a
  caller that looks at the error.\<close>

definition on_error :: "('c, 'e, 'a) io \<Rightarrow> ('c, 'f, 'b) io \<Rightarrow> ('c, 'e, 'a) io" where
  "on_error m c w = (case m w of (Inl e, w') \<Rightarrow> (Inl e, snd (c w')) | (Inr x, w') \<Rightarrow> (Inr x, w'))"

definition outcome :: "('c, 'e, 'a) io \<Rightarrow> ('c, 'f, 'e + 'a) io" where
  "outcome m w = (case m w of (r, w') \<Rightarrow> (Inr r, w'))"

lemma file_at_tick [simp]: "file_at (w\<lparr>tick := n\<rparr>) = file_at w"
  by (rule ext) (simp add: file_at_def lookup_def)

lemma wp_observe [simp]: "wp (observe f) Q E w = Q (f (tick w)) (w\<lparr>tick := Suc (tick w)\<rparr>)"
  by (simp add: wp_def observe_def)

lemma wp_outcome [simp]: "wp (outcome m) Q E w = wp m (\<lambda>x. Q (Inr x)) (\<lambda>e. Q (Inl e)) w"
  by (auto simp: wp_def outcome_def split: prod.splits sum.splits)

lemma wp_on_error [simp]:
  "wp (on_error m c) Q E w = wp m Q (\<lambda>e w'. E e (snd (c w'))) w"
  by (auto simp: wp_def on_error_def split: prod.splits sum.splits)

context world_rel
begin

lemma keeps_on_error:
  assumes m: "keeps m" and c: "keeps c"
  shows "keeps (on_error m c)"
  unfolding keeps_def
proof
  fix w
  obtain r w' where mw: "m w = (r, w')" by (cases "m w")
  have "R w' (snd (c w'))" using c by (simp add: keeps_def)
  then show "R w (snd (on_error m c w))"
    using mw keepsD [OF m mw] by (cases r) (auto simp: on_error_def intro: R_trans)
qed

lemma keeps_outcome: "keeps m \<Longrightarrow> keeps (outcome m)"
  by (simp add: keeps_def outcome_def split: prod.split) (metis snd_conv)

end

lemma touches_observe [intro]: "touches S (observe f)"
  by (simp add: touches_def observe_def same_outside_def)

lemma touches_db_run [intro]: "p \<in> S \<Longrightarrow> touches S (db_run p op)"
  by (auto simp: touches_def same_outside_def db_run_def
      split: prod.splits fault.splits option.splits node.splits content_of.splits sum.splits dest: file_at_next_op)

lemma wp_db_run:
  assumes "\<And>db x db' w'. file_at w p = Some (Database db) \<Longrightarrow> op db = Inr (x, db') \<Longrightarrow>
      file_at w' = (file_at w)(p \<mapsto> Database db') \<Longrightarrow> Q x w'"
    and "\<And>e w'. file_at w' = file_at w \<Longrightarrow> F e w'"
  shows "wp (db_run p op) Q F w"
proof -
  obtain f v where n: "next_op w = (f, v)" by (cases "next_op w")
  then have v: "file_at v = file_at w" by (auto simp: file_at_next_op)
  have db: "file_at w p = Some (Database db)" if "lookup v p = Some (File (Database db))" for db
    using that by (simp add: v [symmetric] file_at_def)
  have set: "file_at (set_node p (File c) v) = (file_at w)(p \<mapsto> c)" for c by (auto simp: v fun_eq_iff)
  show ?thesis
    using assms(1) [OF db _ set] assms(2) [OF v]
    by (auto simp: wp_def db_run_def n split: fault.splits option.splits node.splits content_of.splits sum.splits)
qed


section \<open>Evaluation\<close>

text \<open>Worlds without faults, and what runs a program in one.\<close>

abbreviation quiet_world :: "(path \<times> 'c node) list \<Rightarrow> nat \<Rightarrow> 'c world" where
  "quiet_world xs n \<equiv> \<lparr>fs = xs, tick = n, faults = \<lambda>_. NoFault\<rparr>"

lemma next_op_quiet_world: "next_op (quiet_world xs n) = (NoFault, quiet_world xs (Suc n))"
  by (simp add: next_op_def)

lemma lookup_quiet: "lookup (quiet_world xs n) p = map_of xs p"
  by (simp add: lookup_def)

lemmas run_steps = bindE_def returnE_def throwE_def map_err_def attempt_def from_sum_def get_world_def outcome_def observe_def on_error_def
  next_op_quiet_world lookup_quiet

lemmas run_files = create_dir_all_def ancestors_def write_file_def read_file_def rename_def remove_file_def open_create_def is_dir_def set_node_def drop_node_def Let_def io_point_def

end
