(* ===== verification/Client_Db.thy ===== *)
theory Client_Db
  imports Db_Ops
begin

text \<open>
  The client's database (\<open>crates/deltaship-db/src/client.rs\<close> on the tables of \<open>schema.rs\<close>). The state
  holds the rows of each table in the order of insertion and, for the tables with \<open>AUTOINCREMENT\<close>, the
  next identifier. An operation returns an error, and then the database is unchanged (a failing
  statement changes nothing and a failing transaction is rolled back), or a result and the new
  database. The constraints of the schema are the errors of the inserting operations. \<open>now\<close> is
  \<open>CURRENT_TIMESTAMP\<close>. Time stamps are compared as texts; rows with equal ones keep their order.
\<close>

section \<open>The database\<close>

record client_db =
  client_config :: "(string \<times> string \<times> string) list"
  managed_binaries :: "managed_binary list"
  installed_versions :: "installed_version list"
  next_installed :: nat
  update_histories :: "update_history list"
  next_update :: nat
  rollback_backups :: "rollback_backup list"
  next_backup :: nat

type_synonym 'a db_op = "(client_db, 'a) dbm"

text \<open>The database after \<open>init\<close> on an empty file.\<close>

definition initial_db :: "string \<Rightarrow> client_db" where
  "initial_db now = \<lparr>client_config =
       map (\<lambda>(k, v). (k, v, now))
         [(''server_url'', ''https://updates.example.com''), (''check_interval_seconds'', ''3600''),
          (''auto_update_enabled'', ''1''), (''verify_signatures'', ''1''), (''rollback_enabled'', ''1''),
          (''max_rollback_backups'', ''3'')],
     managed_binaries = [], installed_versions = [], next_installed = 1, update_histories = [], next_update = 1,
     rollback_backups = [], next_backup = 1\<rparr>"


section \<open>Configuration\<close>

definition get_config :: "string \<Rightarrow> string option db_op" where
  "get_config key db = Inr (map_option fst (map_of (client_config db) key), db)"

definition set_config :: "string \<Rightarrow> string \<Rightarrow> string \<Rightarrow> unit db_op" where
  "set_config now key value db = Inr ((), db\<lparr>client_config := upd key (value, now) (client_config db)\<rparr>)"


section \<open>Managed binaries\<close>

definition get_binary :: "string \<Rightarrow> managed_binary option db_op" where
  "get_binary bid db = Inr (find_first (\<lambda>b. mb_id b = bid) (managed_binaries db), db)"

definition get_binary_by_name :: "string \<Rightarrow> managed_binary option db_op" where
  "get_binary_by_name name db = Inr (find_first (\<lambda>b. mb_name b = name) (managed_binaries db), db)"

definition insert_managed_binary :: "string \<Rightarrow> new_managed_binary \<Rightarrow> unit db_op" where
  "insert_managed_binary now b db =
     (if \<exists>x \<in> set (managed_binaries db). mb_id x = nb_id b \<or> mb_name x = nb_name b
      then Inl (DbDuplicate ''UNIQUE constraint failed: managed_binaries'')
      else Inr ((), db\<lparr>managed_binaries := managed_binaries db @
        [\<lparr>mb_id = nb_id b, mb_name = nb_name b, mb_platform = nb_platform b, install_path = nb_install_path b,
          current_version_id = None, current_version_string = None, publisher_public_key = nb_public_key b,
          auto_update = True, last_check_at = None, last_update_at = None, mb_created_at = now,
          mb_updated_at = now\<rparr>]\<rparr>))"

definition register_binary :: "string \<Rightarrow> new_managed_binary \<Rightarrow> managed_binary db_op" where
  "register_binary now b =
     check_db (validate_platform (nb_platform b))
       (bind_db (insert_managed_binary now b) (\<lambda>_.
        bind_db (get_binary (nb_id b)) (\<lambda>r.
        case r of Some x \<Rightarrow> return_db x
        | None \<Rightarrow> (\<lambda>_. Inl (DbNotFound ''Binary just registered not found'')))))"

definition list_binaries :: "managed_binary list db_op" where
  "list_binaries db = Inr (sort_by (\<lambda>a b. str_cmp (mb_name a) (mb_name b)) (managed_binaries db), db)"

definition list_binaries_paginated :: "int \<Rightarrow> int \<Rightarrow> managed_binary list db_op" where
  "list_binaries_paginated limit offset =
     page_db limit offset (\<lambda>db. sort_by (\<lambda>a b. str_cmp (mb_name a) (mb_name b)) (managed_binaries db))"

text \<open>An \<open>UPDATE\<close> of the row of a binary; no affected row is an error.\<close>

definition update_binary :: "string \<Rightarrow> (managed_binary \<Rightarrow> managed_binary) \<Rightarrow> unit db_op" where
  "update_binary bid f db =
     (if \<forall>b \<in> set (managed_binaries db). mb_id b \<noteq> bid then Inl (DbNotFound (''Binary not found: '' @ bid))
      else Inr ((), db\<lparr>managed_binaries := map (\<lambda>b. if mb_id b = bid then f b else b) (managed_binaries db)\<rparr>))"

definition clear_current :: "string \<Rightarrow> unit db_op" where
  "clear_current bid db = Inr ((), db\<lparr>installed_versions :=
     map (\<lambda>v. if iv_binary_id v = bid then v\<lparr>is_current := False\<rparr> else v) (installed_versions db)\<rparr>)"

definition mark_current :: "string \<Rightarrow> string \<Rightarrow> unit db_op" where
  "mark_current bid version_id db =
     (if \<forall>v \<in> set (installed_versions db). \<not> (iv_binary_id v = bid \<and> iv_version_id v = version_id)
      then Inl (DbNotFound (''Version '' @ version_id @ '' not found in installed_versions for binary '' @ bid))
      else Inr ((), db\<lparr>installed_versions :=
        map (\<lambda>v. if iv_binary_id v = bid \<and> iv_version_id v = version_id then v\<lparr>is_current := True\<rparr> else v)
          (installed_versions db)\<rparr>))"

definition update_current_version :: "string \<Rightarrow> string \<Rightarrow> string \<Rightarrow> string \<Rightarrow> unit db_op" where
  "update_current_version now bid version_id version_string =
     bind_db (clear_current bid) (\<lambda>_.
     bind_db (update_binary bid (\<lambda>b. b\<lparr>current_version_id := Some version_id,
        current_version_string := Some version_string, last_update_at := Some now, mb_updated_at := now\<rparr>)) (\<lambda>_.
     mark_current bid version_id))"

definition insert_installed ::
  "string \<Rightarrow> string \<Rightarrow> string \<Rightarrow> string \<Rightarrow> bytes \<Rightarrow> bytes \<Rightarrow> int \<Rightarrow> nat db_op" where
  "insert_installed now bid version_id version_string b3 sha size_bytes db =
     (if \<exists>v \<in> set (installed_versions db). iv_binary_id v = bid \<and> iv_version_id v = version_id
      then Inl (DbDuplicate ''UNIQUE constraint failed: installed_versions'')
      else if \<forall>b \<in> set (managed_binaries db). mb_id b \<noteq> bid
      then Inl (DbConstraint ''Foreign key constraint violation'')
      else Inr (next_installed db, db\<lparr>installed_versions := installed_versions db @
        [\<lparr>iv_id = next_installed db, iv_binary_id = bid, iv_version_id = version_id,
          iv_version_string = version_string, iv_hash_blake3 = b3, iv_hash_sha256 = sha,
          iv_size_bytes = size_bytes, installed_at = now, is_current = False\<rparr>],
        next_installed := Suc (next_installed db)\<rparr>))"

definition record_installed_version ::
  "(string \<Rightarrow> string + version) \<Rightarrow> string \<Rightarrow> string \<Rightarrow> string \<Rightarrow> string \<Rightarrow> bytes \<Rightarrow> bytes \<Rightarrow> int \<Rightarrow> nat db_op" where
  "record_installed_version parse now bid version_id version_string b3 sha size_bytes =
     check_db (validate_hash_size b3 BLAKE3_HASH_SIZE ''File Blake3'')
     (check_db (validate_hash_size sha SHA256_HASH_SIZE ''File SHA-256'')
     (\<lambda>db. case normalize_version_string parse version_string of
        Inl e \<Rightarrow> Inl e
      | Inr normalized \<Rightarrow>
          if size_bytes \<le> 0 then Inl (DbInvalidData ''File size must be positive'')
          else insert_installed now bid version_id normalized b3 sha size_bytes db))"

definition set_last_check :: "string \<Rightarrow> string \<Rightarrow> unit db_op" where
  "set_last_check now bid = update_binary bid (\<lambda>b. b\<lparr>last_check_at := Some now\<rparr>)"

definition set_auto_update :: "string \<Rightarrow> string \<Rightarrow> bool \<Rightarrow> unit db_op" where
  "set_auto_update now bid e = update_binary bid (\<lambda>b. b\<lparr>auto_update := e, mb_updated_at := now\<rparr>)"

text \<open>The deletion of a binary cascades to the other tables.\<close>

definition delete_managed_binary :: "string \<Rightarrow> unit db_op" where
  "delete_managed_binary bid db =
     (if \<forall>b \<in> set (managed_binaries db). mb_id b \<noteq> bid then Inl (DbNotFound (''Binary not found: '' @ bid))
      else Inr ((), db\<lparr>managed_binaries := filter (\<lambda>b. mb_id b \<noteq> bid) (managed_binaries db),
        installed_versions := filter (\<lambda>v. iv_binary_id v \<noteq> bid) (installed_versions db),
        update_histories := filter (\<lambda>u. uh_binary_id u \<noteq> bid) (update_histories db),
        rollback_backups := filter (\<lambda>r. rb_binary_id r \<noteq> bid) (rollback_backups db)\<rparr>))"


section \<open>Update history\<close>

definition insert_history :: "(nat \<Rightarrow> update_history) \<Rightarrow> string \<Rightarrow> nat db_op" where
  "insert_history row bid db =
     (if \<forall>b \<in> set (managed_binaries db). mb_id b \<noteq> bid
      then Inl (DbConstraint ''Foreign key constraint violation'')
      else Inr (next_update db, db\<lparr>update_histories := update_histories db @ [row (next_update db)],
        next_update := Suc (next_update db)\<rparr>))"

definition record_update_start :: "string \<Rightarrow> new_update_record \<Rightarrow> nat db_op" where
  "record_update_start now u =
     insert_history (\<lambda>n. \<lparr>uh_id = n, uh_binary_id = nu_binary_id u, from_version_id = nu_from_version_id u,
        from_version_string = nu_from_version_string u, to_version_id = nu_to_version_id u,
        to_version_string = nu_to_version_string u, uh_metrics = no_metrics, uh_started_at = now,
        uh_completed_at = None, uh_status = update_history_status_as_str Downloading, success = None,
        error_message = None\<rparr>) (nu_binary_id u)"

definition update_row :: "nat \<Rightarrow> (update_history \<Rightarrow> update_history) \<Rightarrow> unit db_op" where
  "update_row n f db =
     (if \<forall>u \<in> set (update_histories db). uh_id u \<noteq> n then Inl (DbNotFound ''Update record not found'')
      else Inr ((), db\<lparr>update_histories := map (\<lambda>u. if uh_id u = n then f u else u) (update_histories db)\<rparr>))"

definition set_update_status :: "nat \<Rightarrow> update_history_status \<Rightarrow> unit db_op" where
  "set_update_status n st = update_row n (\<lambda>u. u\<lparr>uh_status := update_history_status_as_str st\<rparr>)"

definition record_update_complete ::
  "string \<Rightarrow> nat \<Rightarrow> bool \<Rightarrow> string option \<Rightarrow> update_metrics \<Rightarrow> unit db_op" where
  "record_update_complete now n ok msg m =
     update_row n (\<lambda>u. u\<lparr>uh_status := update_history_status_as_str (if ok then Completed else Failed),
        success := Some ok, error_message := msg, uh_metrics := m, uh_completed_at := Some now\<rparr>)"

definition get_recent_updates :: "string \<Rightarrow> int \<Rightarrow> update_history list db_op" where
  "get_recent_updates bid limit db =
     Inr (sql_limit limit (sort_by (\<lambda>a b. str_cmp (uh_started_at b) (uh_started_at a))
       (filter (\<lambda>u. uh_binary_id u = bid) (update_histories db))), db)"

definition get_update :: "nat \<Rightarrow> update_history option db_op" where
  "get_update n db = Inr (find_first (\<lambda>u. uh_id u = n) (update_histories db), db)"

definition record_rollback ::
  "string \<Rightarrow> string \<Rightarrow> string option \<Rightarrow> string option \<Rightarrow> string \<Rightarrow> string \<Rightarrow> nat db_op" where
  "record_rollback now bid from_id from_str to_id to_str =
     insert_history (\<lambda>n. \<lparr>uh_id = n, uh_binary_id = bid, from_version_id = from_id,
        from_version_string = from_str, to_version_id = to_id, to_version_string = to_str,
        uh_metrics = no_metrics, uh_started_at = now, uh_completed_at = Some now,
        uh_status = update_history_status_as_str RolledBack, success = Some True, error_message = None\<rparr>) bid"

text \<open>\<open>days_ago\<close> is \<open>datetime('now', '-n days')\<close>.\<close>

definition delete_update_history :: "(int \<Rightarrow> string) \<Rightarrow> int \<Rightarrow> nat db_op" where
  "delete_update_history days_ago days db =
     (if days \<le> 0 then Inl (DbInvalidData ''Days must be positive'')
      else let old = (\<lambda>u. str_cmp (uh_started_at u) (days_ago days) = Less) in
           Inr (length (filter old (update_histories db)),
             db\<lparr>update_histories := filter (\<lambda>u. \<not> old u) (update_histories db)\<rparr>))"


section \<open>Backups\<close>

definition insert_backup ::
  "string \<Rightarrow> string \<Rightarrow> string \<Rightarrow> string \<Rightarrow> string \<Rightarrow> bytes \<Rightarrow> int \<Rightarrow> string option \<Rightarrow> nat db_op" where
  "insert_backup now bid version_id version_string p b3 size_bytes expires db =
     (if \<forall>b \<in> set (managed_binaries db). mb_id b \<noteq> bid
      then Inl (DbConstraint ''Foreign key constraint violation'')
      else Inr (next_backup db, db\<lparr>rollback_backups := rollback_backups db @
        [\<lparr>rb_id = next_backup db, rb_binary_id = bid, rb_version_id = version_id,
          rb_version_string = version_string, backup_path = p, backup_hash_blake3 = b3,
          backup_size_bytes = size_bytes, rb_created_at = now, expires_at = expires\<rparr>],
        next_backup := Suc (next_backup db)\<rparr>))"

definition create_backup ::
  "(string \<Rightarrow> string + version) \<Rightarrow> string \<Rightarrow> string \<Rightarrow> string \<Rightarrow> string \<Rightarrow> string \<Rightarrow> bytes \<Rightarrow> int
   \<Rightarrow> string option \<Rightarrow> nat db_op" where
  "create_backup parse now bid version_id version_string p b3 size_bytes expires =
     check_db (validate_hash_size b3 BLAKE3_HASH_SIZE ''Backup Blake3'')
     (check_db (case expires of Some t \<Rightarrow> validate_expires_at_timestamp t | None \<Rightarrow> Inr ())
     (\<lambda>db. case normalize_version_string parse version_string of
        Inl e \<Rightarrow> Inl e
      | Inr normalized \<Rightarrow> insert_backup now bid version_id normalized p b3 size_bytes expires db))"

definition get_backup :: "nat \<Rightarrow> rollback_backup option db_op" where
  "get_backup n db = Inr (find_first (\<lambda>r. rb_id r = n) (rollback_backups db), db)"

definition newest_backups :: "string \<Rightarrow> client_db \<Rightarrow> rollback_backup list" where
  "newest_backups bid db = sort_by (\<lambda>a b. str_cmp (rb_created_at b) (rb_created_at a))
     (filter (\<lambda>r. rb_binary_id r = bid) (rollback_backups db))"

definition list_backups :: "string \<Rightarrow> rollback_backup list db_op" where
  "list_backups bid db = Inr (newest_backups bid db, db)"

definition delete_backup :: "nat \<Rightarrow> unit db_op" where
  "delete_backup n db =
     (if \<forall>r \<in> set (rollback_backups db). rb_id r \<noteq> n then Inl (DbNotFound ''Backup not found'')
      else Inr ((), db\<lparr>rollback_backups := filter (\<lambda>r. rb_id r \<noteq> n) (rollback_backups db)\<rparr>))"

definition expired :: "string \<Rightarrow> rollback_backup \<Rightarrow> bool" where
  "expired now r \<longleftrightarrow> (case expires_at r of None \<Rightarrow> False | Some t \<Rightarrow> str_cmp t now = Less)"

definition delete_expired_backups :: "string \<Rightarrow> nat db_op" where
  "delete_expired_backups now db =
     Inr (length (filter (expired now) (rollback_backups db)),
       db\<lparr>rollback_backups := filter (\<lambda>r. \<not> expired now r) (rollback_backups db)\<rparr>)"

definition cleanup_old_backups :: "string \<Rightarrow> int \<Rightarrow> nat db_op" where
  "cleanup_old_backups bid keep_count db =
     (let kept = map rb_id (sql_limit keep_count (newest_backups bid db));
          gone = (\<lambda>r. rb_binary_id r = bid \<and> rb_id r \<notin> set kept) in
      Inr (length (filter gone (rollback_backups db)),
        db\<lparr>rollback_backups := filter (\<lambda>r. \<not> gone r) (rollback_backups db)\<rparr>))"

definition get_backup_by_version :: "string \<Rightarrow> string \<Rightarrow> rollback_backup option db_op" where
  "get_backup_by_version bid vs db =
     Inr (case filter (\<lambda>r. rb_version_string r = vs) (newest_backups bid db) of [] \<Rightarrow> None | r # _ \<Rightarrow> Some r, db)"


section \<open>The invariant of the database\<close>

text \<open>The constraints of the schema, and what ties the two places that name the current version.\<close>

definition ids_ok :: "('r \<Rightarrow> nat) \<Rightarrow> nat \<Rightarrow> 'r list \<Rightarrow> bool" where
  "ids_ok key n rows \<longleftrightarrow> distinct (map key rows) \<and> (\<forall>r \<in> set rows. key r < n)"

definition belongs :: "string \<Rightarrow> client_db \<Rightarrow> bool" where
  "belongs bid db \<longleftrightarrow> (\<exists>b \<in> set (managed_binaries db). mb_id b = bid)"

definition current_ok :: "managed_binary list \<Rightarrow> installed_version list \<Rightarrow> bool" where
  "current_ok bs vs \<longleftrightarrow>
     (\<forall>v \<in> set vs. is_current v \<longrightarrow> (\<exists>b \<in> set bs. mb_id b = iv_binary_id v \<and> current_version_id b = Some (iv_version_id v))) \<and>
     (\<forall>b \<in> set bs. \<forall>x. current_version_id b = Some x \<longrightarrow>
        (\<exists>v \<in> set vs. iv_binary_id v = mb_id b \<and> iv_version_id v = x \<and> is_current v))"

definition wf_db :: "client_db \<Rightarrow> bool" where
  "wf_db db \<longleftrightarrow>
     distinct (map mb_id (managed_binaries db)) \<and> distinct (map mb_name (managed_binaries db)) \<and>
     distinct (map (\<lambda>v. (iv_binary_id v, iv_version_id v)) (installed_versions db)) \<and>
     ids_ok iv_id (next_installed db) (installed_versions db) \<and>
     ids_ok uh_id (next_update db) (update_histories db) \<and>
     ids_ok rb_id (next_backup db) (rollback_backups db) \<and>
     (\<forall>v \<in> set (installed_versions db). belongs (iv_binary_id v) db \<and> length (iv_hash_blake3 v) = 32 \<and>
        length (iv_hash_sha256 v) = 32 \<and> 0 < iv_size_bytes v) \<and>
     (\<forall>u \<in> set (update_histories db). belongs (uh_binary_id u) db) \<and>
     (\<forall>r \<in> set (rollback_backups db). belongs (rb_binary_id r) db \<and> length (backup_hash_blake3 r) = 32) \<and>
     current_ok (managed_binaries db) (installed_versions db)"

text \<open>At most one version of a binary is current.\<close>

lemma one_current:
  assumes "wf_db db" "v \<in> set (installed_versions db)" "v' \<in> set (installed_versions db)"
    and "is_current v" "is_current v'" "iv_binary_id v = iv_binary_id v'"
  shows "v = v'"
proof -
  have cur: "\<exists>b \<in> set (managed_binaries db). mb_id b = iv_binary_id x \<and> current_version_id b = Some (iv_version_id x)"
    if "x \<in> set (installed_versions db)" "is_current x" for x
    using assms(1) that unfolding wf_db_def current_ok_def by blast
  obtain b where b: "b \<in> set (managed_binaries db)" "mb_id b = iv_binary_id v" "current_version_id b = Some (iv_version_id v)"
    using cur [OF assms(2,4)] by blast
  obtain b' where b': "b' \<in> set (managed_binaries db)" "mb_id b' = iv_binary_id v'" "current_version_id b' = Some (iv_version_id v')"
    using cur [OF assms(3,5)] by blast
  have "inj_on mb_id (set (managed_binaries db))" "inj_on (\<lambda>v. (iv_binary_id v, iv_version_id v)) (set (installed_versions db))"
    using assms(1) unfolding wf_db_def distinct_map by blast+
  note inj = this [THEN inj_onD]
  have "b = b'" by (rule inj(1)) (use b b' assms(6) in simp_all)
  then show ?thesis by (intro inj(2)) (use b b' assms in simp_all)
qed

lemma ids_ok_add: "ids_ok key n rows \<Longrightarrow> key r = n \<Longrightarrow> ids_ok key (Suc n) (rows @ [r])"
  by (auto simp: ids_ok_def less_Suc_eq)

lemma ids_ok_filter: "ids_ok key n rows \<Longrightarrow> ids_ok key n (filter P rows)"
  by (auto simp: ids_ok_def distinct_map_filter)

lemma ids_ok_map: "ids_ok key n rows \<Longrightarrow> (\<And>r. key (f r) = key r) \<Longrightarrow> ids_ok key n (map f rows)"
  by (auto simp: ids_ok_def comp_def)

interpretation client: db_invariant wf_db .

abbreviation keeps_db :: "'a db_op \<Rightarrow> bool" where
  "keeps_db \<equiv> client.keeps_op"

lemmas keeps_db_def = client.keeps_op_def
lemmas keeps_db_bind = client.keeps_db_bind
lemmas keeps_db_check = client.keeps_db_check
lemmas keeps_db_read = client.keeps_db_read

lemma keeps_insert_managed: "keeps_db (insert_managed_binary now b)"
  unfolding keeps_db_def insert_managed_binary_def
  by (auto simp: wf_db_def belongs_def current_ok_def split: if_splits)

lemma update_binary_cases:
  assumes "update_binary bid f db = Inr (u, db')"
  shows "db' = db\<lparr>managed_binaries := map (\<lambda>b. if mb_id b = bid then f b else b) (managed_binaries db)\<rparr>"
    "belongs bid db"
  using assms by (auto simp: update_binary_def belongs_def split: if_splits)

lemma wf_update_binary:
  assumes wf: "wf_db db" and f: "\<And>b. mb_id (f b) = mb_id b" "\<And>b. mb_name (f b) = mb_name b"
    "\<And>b. current_version_id (f b) = current_version_id b"
  shows "wf_db (db\<lparr>managed_binaries := map (\<lambda>b. if mb_id b = bid then f b else b) (managed_binaries db)\<rparr>)"
proof -
  define g where "g = (\<lambda>b. if mb_id b = bid then f b else b)"
  have g: "mb_id (g b) = mb_id b" "mb_name (g b) = mb_name b" "current_version_id (g b) = current_version_id b" for b
    using f by (simp_all add: g_def)
  have "current_ok (map g (managed_binaries db)) (installed_versions db)"
    using wf unfolding wf_db_def current_ok_def by (auto simp: g)
  moreover have "belongs x (db\<lparr>managed_binaries := map g (managed_binaries db)\<rparr>) = belongs x db" for x
    by (auto simp: belongs_def g)
  ultimately show ?thesis
    using wf unfolding wf_db_def g_def [symmetric] by (simp add: comp_def g)
qed


lemma keeps_update_binary:
  assumes "\<And>b. mb_id (f b) = mb_id b" "\<And>b. mb_name (f b) = mb_name b"
    "\<And>b. current_version_id (f b) = current_version_id b"
  shows "keeps_db (update_binary bid f)"
  unfolding keeps_db_def using wf_update_binary [OF _ assms] update_binary_cases(1) by blast

lemma keeps_insert_installed:
  assumes "length b3 = 32" "length sha = 32" "0 < n"
  shows "keeps_db (insert_installed now bid vid vs b3 sha n)"
  unfolding keeps_db_def
proof (intro allI impI)
  fix db x db'
  assume wf: "wf_db db" and run: "insert_installed now bid vid vs b3 sha n db = Inr (x, db')"
  let ?row = "\<lparr>iv_id = next_installed db, iv_binary_id = bid, iv_version_id = vid, iv_version_string = vs,
    iv_hash_blake3 = b3, iv_hash_sha256 = sha, iv_size_bytes = n, installed_at = now, is_current = False\<rparr>"
  have db': "db' = db\<lparr>installed_versions := installed_versions db @ [?row], next_installed := Suc (next_installed db)\<rparr>"
    and new: "\<forall>v \<in> set (installed_versions db). \<not> (iv_binary_id v = bid \<and> iv_version_id v = vid)" "belongs bid db"
    using run by (auto simp: insert_installed_def belongs_def split: if_splits)
  have "ids_ok iv_id (Suc (next_installed db)) (installed_versions db @ [?row])"
    using wf by (intro ids_ok_add) (simp_all add: wf_db_def)
  moreover have "current_ok (managed_binaries db) (installed_versions db @ [?row])"
    using wf by (auto simp: wf_db_def current_ok_def)
  moreover have "belongs y db' = belongs y db" for y by (simp add: belongs_def db')
  moreover have "distinct (map (\<lambda>v. (iv_binary_id v, iv_version_id v)) (installed_versions db @ [?row]))"
    using wf new(1) by (auto simp: wf_db_def)
  ultimately show "wf_db db'"
    using wf assms new(2) unfolding wf_db_def by (simp add: db')
qed

lemma keeps_update_current_version: "keeps_db (update_current_version now bid vid vs)"
  unfolding keeps_db_def
proof (intro allI impI)
  fix db x db'
  assume wf: "wf_db db" and run: "update_current_version now bid vid vs db = Inr (x, db')"
  define g :: "managed_binary \<Rightarrow> managed_binary" where "g = (\<lambda>b. if mb_id b = bid then b\<lparr>current_version_id := Some vid, current_version_string := Some vs,
      last_update_at := Some now, mb_updated_at := now\<rparr> else b)"
  define h :: "installed_version \<Rightarrow> installed_version" where "h = (\<lambda>v. if iv_binary_id v = bid then v\<lparr>is_current := (iv_version_id v = vid)\<rparr> else v)"
  have c: "(if iv_binary_id (if iv_binary_id v = bid then v\<lparr>is_current := False\<rparr> else v) = bid \<and>
        iv_version_id (if iv_binary_id v = bid then v\<lparr>is_current := False\<rparr> else v) = vid
      then (if iv_binary_id v = bid then v\<lparr>is_current := False\<rparr> else v)\<lparr>is_current := True\<rparr>
      else (if iv_binary_id v = bid then v\<lparr>is_current := False\<rparr> else v)) = h v" for v
    by (simp add: h_def)
  have db': "db' = db\<lparr>managed_binaries := map g (managed_binaries db), installed_versions := map h (installed_versions db)\<rparr>"
    and there: "\<exists>v \<in> set (installed_versions db). iv_binary_id v = bid \<and> iv_version_id v = vid"
    using run
    by (auto simp: update_current_version_def bind_db_def clear_current_def update_binary_def mark_current_def g_def
        comp_def c split: if_splits)
  have h: "iv_binary_id (h v) = iv_binary_id v" "iv_version_id (h v) = iv_version_id v" "iv_id (h v) = iv_id v"
      "iv_hash_blake3 (h v) = iv_hash_blake3 v" "iv_hash_sha256 (h v) = iv_hash_sha256 v" "iv_size_bytes (h v) = iv_size_bytes v"
      "is_current (h v) \<longleftrightarrow> (if iv_binary_id v = bid then iv_version_id v = vid else is_current v)" for v
    by (simp_all add: h_def)
  have g: "mb_id (g b) = mb_id b" "mb_name (g b) = mb_name b"
      "current_version_id (g b) = (if mb_id b = bid then Some vid else current_version_id b)" for b
    by (simp_all add: g_def)
  have "current_ok (map g (managed_binaries db)) (map h (installed_versions db))"
    unfolding current_ok_def
  proof (intro conjI ballI allI impI)
    fix v'
    assume "v' \<in> set (map h (installed_versions db))" "is_current v'"
    then obtain v where v: "v' = h v" "v \<in> set (installed_versions db)" "is_current (h v)" by auto
    then obtain b where "b \<in> set (managed_binaries db)" "mb_id b = iv_binary_id v"
        "iv_binary_id v \<noteq> bid \<longrightarrow> current_version_id b = Some (iv_version_id v)"
      using wf unfolding wf_db_def current_ok_def belongs_def h(7) by (cases "iv_binary_id v = bid") auto
    then show "\<exists>b \<in> set (map g (managed_binaries db)). mb_id b = iv_binary_id v' \<and> current_version_id b = Some (iv_version_id v')"
      using v by (intro bexI [of _ "g b"]) (auto simp: g h)
  next
    fix b' x
    assume "b' \<in> set (map g (managed_binaries db))" "current_version_id b' = Some x"
    then obtain b where b: "b' = g b" "b \<in> set (managed_binaries db)" "current_version_id (g b) = Some x" by auto
    have cur: "\<exists>v \<in> set (installed_versions db). iv_binary_id v = mb_id b \<and> iv_version_id v = x \<and> is_current v"
      if "mb_id b \<noteq> bid"
      using wf b that unfolding wf_db_def current_ok_def g(3) by auto
    obtain v where v: "v \<in> set (installed_versions db)" "iv_binary_id v = mb_id b" "iv_version_id v = x"
        "mb_id b = bid \<or> is_current v"
      using cur there b(3) unfolding g(3) by (cases "mb_id b = bid") auto
    show "\<exists>v \<in> set (map h (installed_versions db)). iv_binary_id v = mb_id b' \<and> iv_version_id v = x \<and> is_current v"
      by (rule bexI [of _ "h v"]) (use b v in \<open>auto simp: g h split: if_splits\<close>)
  qed
  moreover have "belongs y db' = belongs y db" for y by (auto simp: belongs_def db' g)
  ultimately show "wf_db db'"
    using wf unfolding wf_db_def ids_ok_def by (simp add: db' comp_def g h)
qed


lemma keeps_insert_history:
  assumes "\<And>n. uh_id (row n) = n" "\<And>n. uh_binary_id (row n) = bid"
  shows "keeps_db (insert_history row bid)"
  unfolding keeps_db_def insert_history_def
  by (auto simp: wf_db_def belongs_def assms intro!: ids_ok_add split: if_splits)

lemma keeps_update_row:
  assumes "\<And>u. uh_id (f u) = uh_id u" "\<And>u. uh_binary_id (f u) = uh_binary_id u"
  shows "keeps_db (update_row n f)"
proof -
  define g where "g = (\<lambda>u. if uh_id u = n then f u else u)"
  have g: "uh_id (g u) = uh_id u" "uh_binary_id (g u) = uh_binary_id u" for u
    using assms by (simp_all add: g_def)
  show ?thesis
    unfolding keeps_db_def update_row_def g_def [symmetric]
    by (auto simp: wf_db_def belongs_def g intro!: ids_ok_map split: if_splits)
qed

lemma keeps_insert_backup:
  "length b3 = 32 \<Longrightarrow> keeps_db (insert_backup now bid vid vs p b3 n e)"
  unfolding keeps_db_def insert_backup_def
  by (auto simp: wf_db_def belongs_def intro!: ids_ok_add split: if_splits)

lemma keeps_filter:
  assumes "wf_db db"
  shows "wf_db (db\<lparr>rollback_backups := filter P (rollback_backups db)\<rparr>)"
    "wf_db (db\<lparr>update_histories := filter Q (update_histories db)\<rparr>)"
  using assms by (auto simp: wf_db_def belongs_def intro!: ids_ok_filter)

lemma keeps_delete_managed_binary: "keeps_db (delete_managed_binary bid)"
  unfolding keeps_db_def
proof (intro allI impI)
  fix db x db'
  assume wf: "wf_db db" and "delete_managed_binary bid db = Inr (x, db')"
  then have db': "db' = db\<lparr>managed_binaries := filter (\<lambda>b. mb_id b \<noteq> bid) (managed_binaries db),
        installed_versions := filter (\<lambda>v. iv_binary_id v \<noteq> bid) (installed_versions db),
        update_histories := filter (\<lambda>u. uh_binary_id u \<noteq> bid) (update_histories db),
        rollback_backups := filter (\<lambda>r. rb_binary_id r \<noteq> bid) (rollback_backups db)\<rparr>"
    by (auto simp: delete_managed_binary_def split: if_splits)
  have "belongs y db' \<longleftrightarrow> y \<noteq> bid \<and> belongs y db" for y by (auto simp: belongs_def db')
  moreover have "current_ok (managed_binaries db') (installed_versions db')"
    using wf unfolding wf_db_def current_ok_def by (auto simp: db') metis+
  ultimately show "wf_db db'"
    using wf unfolding wf_db_def by (auto simp: db' distinct_map_filter intro!: ids_ok_filter)
qed



section \<open>Requests\<close>

text \<open>The operations that change the database, so that a history of the database is a list of
  requests. A request that fails leaves the database as it is.\<close>

datatype db_request =
    SetConfig string string
  | RegisterBinary new_managed_binary
  | UpdateCurrentVersion string string string
  | RecordInstalledVersion string string string bytes bytes int
  | SetLastCheck string
  | SetAutoUpdate string bool
  | DeleteManagedBinary string
  | RecordUpdateStart new_update_record
  | SetUpdateStatus nat update_history_status
  | RecordUpdateComplete nat bool "string option" update_metrics
  | RecordRollback string "string option" "string option" string string
  | DeleteUpdateHistory string int
  | CreateBackup string string string string bytes int "string option"
  | DeleteBackup nat
  | DeleteExpiredBackups
  | CleanupOldBackups string int

fun execute :: "(string \<Rightarrow> string + version) \<Rightarrow> string \<Rightarrow> db_request \<Rightarrow> client_db \<Rightarrow> client_db" where
  "execute parse now (SetConfig k v) = commit (set_config now k v)"
| "execute parse now (RegisterBinary b) = commit (register_binary now b)"
| "execute parse now (UpdateCurrentVersion bid vid vs) = commit (update_current_version now bid vid vs)"
| "execute parse now (RecordInstalledVersion bid vid vs b3 sha n) =
     commit (record_installed_version parse now bid vid vs b3 sha n)"
| "execute parse now (SetLastCheck bid) = commit (set_last_check now bid)"
| "execute parse now (SetAutoUpdate bid e) = commit (set_auto_update now bid e)"
| "execute parse now (DeleteManagedBinary bid) = commit (delete_managed_binary bid)"
| "execute parse now (RecordUpdateStart u) = commit (record_update_start now u)"
| "execute parse now (SetUpdateStatus n st) = commit (set_update_status n st)"
| "execute parse now (RecordUpdateComplete n ok msg m) = commit (record_update_complete now n ok msg m)"
| "execute parse now (RecordRollback bid fi fv ti tv) = commit (record_rollback now bid fi fv ti tv)"
| "execute parse now (DeleteUpdateHistory cutoff days) = commit (delete_update_history (\<lambda>_. cutoff) days)"
| "execute parse now (CreateBackup bid vid vs p b3 n e) = commit (create_backup parse now bid vid vs p b3 n e)"
| "execute parse now (DeleteBackup n) = commit (delete_backup n)"
| "execute parse now DeleteExpiredBackups = commit (delete_expired_backups now)"
| "execute parse now (CleanupOldBackups bid k) = commit (cleanup_old_backups bid k)"

lemma keeps_operations:
  "keeps_db (set_config now k v)" "keeps_db (register_binary now b)"
  "keeps_db (record_installed_version parse now bid vid vs b3 sha n)" "keeps_db (set_last_check now bid)"
  "keeps_db (set_auto_update now bid e)" "keeps_db (record_update_start now u)"
  "keeps_db (set_update_status k' st)" "keeps_db (record_update_complete now k' ok msg m)"
  "keeps_db (record_rollback now bid fi fv ti tv)" "keeps_db (delete_update_history f days)"
  "keeps_db (create_backup parse now bid vid vs p b3 n ex)" "keeps_db (delete_backup k')"
  "keeps_db (delete_expired_backups now)" "keeps_db (cleanup_old_backups bid i)"
proof -
  show "keeps_db (set_config now k v)"
    by (auto simp: keeps_db_def set_config_def wf_db_def belongs_def)
  have "keeps_db (case r of Some x \<Rightarrow> return_db x | None \<Rightarrow> (\<lambda>_. Inl (DbNotFound y)))" for r :: "'z option" and y
    by (rule keeps_db_read) (auto simp: return_db_def split: option.splits)
  then show "keeps_db (register_binary now b)"
    unfolding register_binary_def
    by (intro keeps_db_check keeps_db_bind keeps_insert_managed keeps_db_read [of "get_binary _"])
       (auto simp: get_binary_def)
  show "keeps_db (set_last_check now bid)" "keeps_db (set_auto_update now bid e)"
    unfolding set_last_check_def set_auto_update_def by (intro keeps_update_binary; simp)+
  show "keeps_db (record_update_start now u)" "keeps_db (record_rollback now bid fi fv ti tv)"
    unfolding record_update_start_def record_rollback_def by (intro keeps_insert_history; simp)+
  show "keeps_db (set_update_status k' st)" "keeps_db (record_update_complete now k' ok msg m)"
    unfolding set_update_status_def record_update_complete_def by (intro keeps_update_row; simp)+
  show "keeps_db (delete_update_history f days)" "keeps_db (delete_backup k')" "keeps_db (delete_expired_backups now)"
    "keeps_db (cleanup_old_backups bid i)"
    by (auto simp: keeps_db_def delete_update_history_def delete_backup_def delete_expired_backups_def
        cleanup_old_backups_def Let_def intro: keeps_filter split: if_splits)
  show "keeps_db (record_installed_version parse now bid vid vs b3 sha n)"
    unfolding record_installed_version_def
    by (intro keeps_db_check)
       (auto simp: keeps_db_def validate_hash_size_def BLAKE3_HASH_SIZE_def SHA256_HASH_SIZE_def split: sum.splits if_splits
         dest: keeps_insert_installed [unfolded keeps_db_def, rule_format, rotated 4])
  show "keeps_db (create_backup parse now bid vid vs p b3 n ex)"
    unfolding create_backup_def
    by (intro keeps_db_check)
       (auto simp: keeps_db_def validate_hash_size_def BLAKE3_HASH_SIZE_def split: sum.splits if_splits
         dest: keeps_insert_backup [unfolded keeps_db_def, rule_format, rotated 2])
qed

lemma wf_initial_db: "wf_db (initial_db now)"
  by (simp add: initial_db_def wf_db_def ids_ok_def current_ok_def)

lemma wf_execute: "wf_db db \<Longrightarrow> wf_db (execute parse now r db)"
  by (cases r) (simp_all add: client.keeps_commit keeps_operations keeps_update_current_version keeps_delete_managed_binary)


interpretation client: database wf_db "initial_db start" "\<lambda>(now, r). execute parse now r" for parse start
  by unfold_locales (auto simp: wf_initial_db wf_execute)


section \<open>Properties\<close>

text \<open>
  C31: the database stays consistent. After any sequence of requests, successful or not, the identifiers
  and names are unique, every row belongs to a registered binary, the stored hashes have 32 bytes, and
  the version a binary names as its current one is exactly the installed version that is marked as
  current.
\<close>

theorem client_db_stays_wf: "wf_db (fold (\<lambda>(now, r). execute parse now r) requests (initial_db start))"
  by (rule client.stays_wf)

end
