(* ===== verification/Client_Checks.thy ===== *)
theory Client_Checks
  imports Core_Types File_System Crypto
begin

text \<open>
  The checks of the client: where a binary may be installed (\<open>crates/deltaship-client/src/patcher.rs\<close>),
  which server may be asked (\<open>config.rs\<close>), which names and versions may become parts of file names
  (\<open>commands/add.rs\<close>, \<open>checker.rs\<close>), and how a name becomes part of a URL. A string is a list of UTF-8
  bytes. The parsers of URLs and of IP addresses are library code and parameters.
\<close>

section \<open>Privileged locations\<close>

definition PRIVILEGED_PATHS :: "string list" where
  "PRIVILEGED_PATHS =
     [''/etc'', ''/usr'', ''/bin'', ''/sbin'', ''/lib'', ''/lib64'', ''/boot'', ''/sys'', ''/proc'', ''/dev'',
      ''/var/run'', ''/run'', ''C:'' @ [CHR 0x5C] @ ''Windows'', ''C:'' @ [CHR 0x5C] @ ''Program Files'',
      ''C:'' @ [CHR 0x5C] @ ''Program Files (x86)'']"

abbreviation backslash :: char where
  "backslash \<equiv> CHR 0x5C"

definition strip_verbatim_prefix :: "string \<Rightarrow> string" where
  "strip_verbatim_prefix p =
     (case strip_prefix ([backslash, backslash, CHR ''?'', backslash] @ ''UNC'' @ [backslash]) p of
        Some r \<Rightarrow> r
      | None \<Rightarrow> (case strip_prefix [backslash, backslash, CHR ''?'', backslash] p of Some r \<Rightarrow> r | None \<Rightarrow> p))"

definition strip_drive :: "string \<Rightarrow> string" where
  "strip_drive p =
     (case p of c # d # r \<Rightarrow> if d = CHR '':'' \<and> (is_ascii_upper c \<or> is_ascii_lower c) then r else p | _ \<Rightarrow> p)"

definition unix_path_under :: "string \<Rightarrow> string \<Rightarrow> bool" where
  "unix_path_under candidate pfx =
     (case strip_prefix pfx candidate of Some r \<Rightarrow> r = [] \<or> starts_with r ''/'' | None \<Rightarrow> False)"

definition windows_normalize :: "string \<Rightarrow> string" where
  "windows_normalize s = map (\<lambda>c. if c = CHR ''/'' then backslash else c) (to_lowercase s)"

definition windows_path_under :: "string \<Rightarrow> string \<Rightarrow> bool" where
  "windows_path_under candidate pfx =
     (let cand = strip_drive (strip_verbatim_prefix (windows_normalize candidate));
          p = strip_drive (windows_normalize pfx)
      in case strip_prefix p cand of Some r \<Rightarrow> r = [] \<or> starts_with r [backslash] | None \<Rightarrow> False)"

definition matched_privileged_path :: "string \<Rightarrow> string option" where
  "matched_privileged_path candidate =
     find_first (\<lambda>p. if backslash \<in> set p \<or> CHR '':'' \<in> set p then windows_path_under candidate p
                     else unix_path_under candidate p) PRIVILEGED_PATHS"


section \<open>Names and versions\<close>

definition MAX_VERSION_LENGTH :: nat where
  "MAX_VERSION_LENGTH = 64"

datatype format_error = EmptyText | TooLong | DotAtEnd | ConsecutiveDots | BadCharacter

definition validate_version_format :: "string \<Rightarrow> format_error + unit" where
  "validate_version_format v =
     (if v = [] then Inl EmptyText
      else if MAX_VERSION_LENGTH < length v then Inl TooLong
      else if hd v = CHR ''.'' \<or> last v = CHR ''.'' then Inl DotAtEnd
      else if contains_str v ''..'' then Inl ConsecutiveDots
      else if \<not> list_all (\<lambda>c. is_ascii_alphanumeric c \<or> c = CHR ''.'' \<or> c = CHR ''-'' \<or> c = CHR ''_'') v then Inl BadCharacter
      else Inr ())"

definition validate_binary_name :: "string \<Rightarrow> format_error + unit" where
  "validate_binary_name name =
     (if name = [] then Inl EmptyText
      else if 64 < length name then Inl TooLong
      else if \<not> list_all (\<lambda>c. is_ascii_alphanumeric c \<or> c = CHR ''-'' \<or> c = CHR ''_'') name then Inl BadCharacter
      else Inr ())"

definition unreserved :: "char \<Rightarrow> bool" where
  "unreserved c \<longleftrightarrow> is_ascii_alphanumeric c \<or> c \<in> set ''-_.~''"

definition ascii_upper :: "char \<Rightarrow> char" where
  "ascii_upper c = (if is_ascii_lower c then char_of (of_char c - 32 :: nat) else c)"

text \<open>Every byte of a character that is not unreserved becomes a percent sign and two digits.\<close>

definition url_encode_path_segment :: "string \<Rightarrow> string" where
  "url_encode_path_segment s =
     concat (map (\<lambda>c. if unreserved c then [c] else CHR ''%'' # map ascii_upper (hex_byte (of_char c))) s)"

definition MAX_RELEASE_NOTES_SIZE :: nat where
  "MAX_RELEASE_NOTES_SIZE = 64 * 1024"

text \<open>The first \<open>n\<close> characters of a text; a character ends where the next byte is not a continuation.\<close>

fun take_chars :: "nat \<Rightarrow> string \<Rightarrow> string" where
  "take_chars n [] = []"
| "take_chars n (c # s) =
     (if 128 \<le> (of_char c :: nat) \<and> (of_char c :: nat) < 192 then c # take_chars n s
      else case n of 0 \<Rightarrow> [] | Suc m \<Rightarrow> c # take_chars m s)"

definition sanitize_release_notes :: "string option \<Rightarrow> string option" where
  "sanitize_release_notes notes =
     map_option (\<lambda>s. if MAX_RELEASE_NOTES_SIZE < length s
        then take_chars MAX_RELEASE_NOTES_SIZE s @ ''... [truncated]'' else s) notes"


section \<open>The server to ask\<close>

definition trim_start_char :: "char \<Rightarrow> string \<Rightarrow> string" where
  "trim_start_char c = dropWhile (\<lambda>x. x = c)"

definition trim_end_char :: "char \<Rightarrow> string \<Rightarrow> string" where
  "trim_end_char c s = rev (dropWhile (\<lambda>x. x = c) (rev s))"

text \<open>\<open>ip\<close> parses an IP address and tells whether it is a loopback address; \<open>url\<close> yields the scheme and
  the host of a URL.\<close>

definition is_loopback_host :: "(string \<Rightarrow> bool option) \<Rightarrow> string option \<Rightarrow> bool" where
  "is_loopback_host ip host =
     (case host of
        None \<Rightarrow> False
      | Some h \<Rightarrow>
          let h = trim_end_char (CHR '']'') (trim_start_char (CHR ''['') h) in
          if to_lowercase h = ''localhost'' then True
          else case ip h of Some b \<Rightarrow> b | None \<Rightarrow> False)"

datatype url_error = InvalidUrl | InvalidScheme string | InsecureUrl

definition validate_server_url ::
  "(string \<Rightarrow> bool option) \<Rightarrow> (string \<Rightarrow> (string \<times> string option) option) \<Rightarrow> string \<Rightarrow> url_error + unit" where
  "validate_server_url ip url s =
     (case url s of
        None \<Rightarrow> Inl InvalidUrl
      | Some (scheme, host) \<Rightarrow>
          if scheme \<noteq> ''http'' \<and> scheme \<noteq> ''https'' then Inl (InvalidScheme scheme)
          else if scheme = ''http'' \<and> \<not> is_loopback_host ip host then Inl InsecureUrl
          else Inr ())"

definition require_https_for ::
  "(string \<Rightarrow> bool option) \<Rightarrow> (string \<Rightarrow> (string \<times> string option) option) \<Rightarrow> string \<Rightarrow> bool" where
  "require_https_for ip url s =
     (case url s of Some (_, host) \<Rightarrow> \<not> is_loopback_host ip host | None \<Rightarrow> True)"


section \<open>File names\<close>

lemma valid_version_plain: "validate_version_format v = Inr () \<Longrightarrow> CHR ''/'' \<notin> set v \<and> v \<noteq> ''..'' \<and> v \<noteq> ''.'' \<and> v \<noteq> []"
  by (auto simp: validate_version_format_def list_all_iff ascii_defs split: if_splits)

lemma valid_name_plain: "validate_binary_name n = Inr () \<Longrightarrow> CHR ''/'' \<notin> set n \<and> CHR ''.'' \<notin> set n \<and> n \<noteq> []"
  by (auto simp: validate_binary_name_def list_all_iff ascii_defs split: if_splits)

text \<open>The file names made of a valid name and a valid version are components of their own.\<close>

lemma artifact_component:
  assumes "validate_binary_name n = Inr ()" "validate_version_format v = Inr ()" "CHR ''/'' \<notin> set ext"
  shows "plain_component (n @ ''_'' @ v @ ext)"
  using valid_name_plain [OF assms(1)] valid_version_plain [OF assms(2)] assms(3)
  by (auto simp: plain_component_def append_eq_Cons_conv)

lemma url_encode_safe: "c \<in> set (url_encode_path_segment s) \<Longrightarrow> unreserved c \<or> c = CHR ''%''"
proof -
  have "unreserved (ascii_upper (digit_char n))" if "n < 16" for n
    using digit_char_alnum [of n] that by (auto simp: unreserved_def ascii_upper_def ascii_defs digit_char_def)
  moreover have "of_char x div 16 < (16 :: nat)" for x
    using nat_of_char_less_256 [of x] by (simp add: less_mult_imp_div_less)
  ultimately show "c \<in> set (url_encode_path_segment s) \<Longrightarrow> unreserved c \<or> c = CHR ''%''"
    by (auto simp: url_encode_path_segment_def hex_byte_def split: if_splits)
qed


section \<open>Component boundaries\<close>

lemma unix_path_under_split:
  "unix_path_under s t \<longleftrightarrow> (\<exists>r. s = t @ r \<and> (r = [] \<or> starts_with r ''/''))"
proof -
  have "starts_with s t \<longleftrightarrow> (\<exists>r. s = t @ r)"
    unfolding starts_with_def by (metis append_eq_conv_conj append_take_drop_id)
  then show ?thesis by (auto simp: unix_path_under_def strip_prefix_def)
qed

definition clean :: "path \<Rightarrow> bool" where
  "clean p \<longleftrightarrow> (\<forall>c \<in> set p. CHR ''/'' \<notin> set c)"

lemma path_str_start: "path_str p = [] \<or> starts_with (path_str p) ''/''"
  by (cases p) (simp_all add: path_str_def starts_with_def)

lemma first_component:
  assumes "CHR ''/'' \<notin> set c" "CHR ''/'' \<notin> set d" "x = [] \<or> starts_with x ''/''" "y = [] \<or> starts_with y ''/''"
  shows "c @ x = d @ y \<longleftrightarrow> c = d \<and> x = y"
proof
  assume eq: "c @ x = d @ y"
  have "takeWhile (\<lambda>a. a \<noteq> CHR ''/'') (e @ z) = e" if "CHR ''/'' \<notin> set e" "z = [] \<or> starts_with z ''/''" for e z
  proof -
    have "takeWhile (\<lambda>a. a \<noteq> CHR ''/'') z = []"
      using that(2) by (cases z) (auto simp: starts_with_def)
    then show ?thesis using that(1) by (subst takeWhile_append2) auto
  qed
  then have "c = d" using assms eq by metis
  then show "c = d \<and> x = y" using eq by simp
qed simp

text \<open>On the text of a clean path the check is the containment of directories.\<close>

lemma unix_path_under_in_dir:
  "clean p \<Longrightarrow> clean q \<Longrightarrow> unix_path_under (path_str p) (path_str q) \<longleftrightarrow> in_dir q p"
proof (induction q arbitrary: p)
  case Nil
  then show ?case using path_str_start [of p] by (auto simp: unix_path_under_split path_str_def in_dir_def)
next
  case (Cons d q)
  show ?case
  proof (cases p)
    case Nil
    then show ?thesis by (simp add: unix_path_under_split path_str_def in_dir_def)
  next
    case (Cons c p')
    have "path_str q @ r = [] \<or> starts_with (path_str q @ r) ''/''" if "r = [] \<or> starts_with r ''/''" for r
      using that path_str_start [of q] by (cases q) (auto simp: path_str_def starts_with_def)
    then have "c @ path_str p' = d @ path_str q @ r \<longleftrightarrow> c = d \<and> path_str p' = path_str q @ r"
      if "r = [] \<or> starts_with r ''/''" for r
      using that first_component [of c d "path_str p'" "path_str q @ r"] Cons.prems Cons path_str_start [of p']
      by (simp add: clean_def)
    then have "unix_path_under (path_str p) (path_str (d # q)) \<longleftrightarrow> c = d \<and> unix_path_under (path_str p') (path_str q)"
      unfolding unix_path_under_split Cons by (auto simp: path_str_def)
    then show ?thesis using Cons.IH [of p'] Cons.prems Cons by (auto simp: clean_def in_dir_def)
  qed
qed

lemma matched_unix:
  assumes "matched_privileged_path s = None" "t \<in> set PRIVILEGED_PATHS" "backslash \<notin> set t" "CHR '':'' \<notin> set t"
  shows "\<not> unix_path_under s t"
  using assms by (auto simp: matched_privileged_path_def find_first_None)


section \<open>Properties\<close>

text \<open>
  No system directory passes the check. If no privileged location matches the text of a path, the
  path lies in none of the directories \<open>/etc\<close>, \<open>/usr\<close>, \<open>/bin\<close>, \<open>/sbin\<close>, \<open>/lib\<close>, \<open>/lib64\<close>, \<open>/boot\<close>,
  \<open>/sys\<close>, \<open>/proc\<close>, \<open>/dev\<close>, \<open>/var/run\<close> and \<open>/run\<close>.
\<close>

theorem privileged_directories_blocked:
  assumes "clean p" "matched_privileged_path (path_str p) = None"
  shows "\<forall>d \<in> {[''etc''], [''usr''], [''bin''], [''sbin''], [''lib''], [''lib64''], [''boot''], [''sys''], [''proc''],
      [''dev''], [''var'', ''run''], [''run'']}. \<not> in_dir d p"
proof -
  have "\<not> in_dir d p" if "clean d" "path_str d \<in> set PRIVILEGED_PATHS" "backslash \<notin> set (path_str d)"
      "CHR '':'' \<notin> set (path_str d)" for d
    using matched_unix [OF assms(2) that(2-4)] unix_path_under_in_dir [OF assms(1) that(1)] by simp
  then show ?thesis
    by (auto simp: clean_def path_str_def PRIVILEGED_PATHS_def)
qed

theorem privileged_directories_blocked_witness: "\<not> in_dir [''etc''] [''home'', ''jay'', ''bin'', ''app'']"
proof -
  have "matched_privileged_path (path_str [''home'', ''jay'', ''bin'', ''app'']) = None" by code_simp
  moreover have "clean [''home'', ''jay'', ''bin'', ''app'']" by (simp add: clean_def)
  ultimately show ?thesis using privileged_directories_blocked by blast
qed

end
