(* ===== verification/Patch.thy ===== *)
theory Patch
  imports Crypto
begin

text \<open>
  Applying binary patches (\<open>crates/deltaship-diff/src/apply.rs\<close>) and decompressing them
  (\<open>compress.rs\<close>). A \<open>usize\<close> is a natural number below \<open>2 ^ 64\<close>; the additions the source checks for
  overflow are checked here. The patch generator of the \<open>bsdiff\<close> crate and the decoder of the \<open>zstd\<close>
  crate are library code.
\<close>

section \<open>Errors and numbers\<close>

datatype diff_error =
    DiffIoError
  | DiffGenerationFailure string
  | PatchApplicationFailure string
  | InvalidDiff
  | ChecksumMismatch string string
  | SizeLimitExceeded nat

definition MAX_OUTPUT_SIZE :: nat where
  "MAX_OUTPUT_SIZE = 1024 * 1024 * 1024"

definition checked_add :: "nat \<Rightarrow> nat \<Rightarrow> nat option" where
  "checked_add a b = (if a + b < 2 ^ 64 then Some (a + b) else None)"

text \<open>\<open>from_le_bytes\<close>.\<close>

fun le_nat :: "bytes \<Rightarrow> nat" where
  "le_nat [] = 0"
| "le_nat (b # bs) = unat b + 256 * le_nat bs"

definition u64_from_le_bytes :: "bytes \<Rightarrow> u64" where
  "u64_from_le_bytes bs = of_nat (le_nat bs)"

text \<open>\<open>usize::try_from\<close> cannot fail on a 64-bit target.\<close>

definition u64_to_usize :: "u64 \<Rightarrow> diff_error + nat" where
  "u64_to_usize v = Inr (unat v)"

text \<open>The sign and magnitude of a seek.\<close>

definition offtin :: "bytes \<Rightarrow> int" where
  "offtin buf =
     (let y = u64_from_le_bytes buf in
      if and y (push_bit 63 1) = 0 then sint y else - sint (and y (not (push_bit 63 1))))"


section \<open>The patch loop\<close>

text \<open>A reader over a slice: all bytes asked for, a clean end before the first one, or an error.\<close>

datatype control_read = Read bytes bytes | Eof

definition read_full_or_eof :: "nat \<Rightarrow> bytes \<Rightarrow> diff_error + control_read" where
  "read_full_or_eof n patch =
     (if patch = [] then Inr Eof
      else if length patch < n then Inl (PatchApplicationFailure ''unexpected end of file'')
      else Inr (Read (take n patch) (drop n patch)))"

text \<open>\<open>(oldpos as i64).checked_add(seek_len)\<close>, converted back to an unsigned position.\<close>

definition seek_position :: "nat \<Rightarrow> int \<Rightarrow> nat option" where
  "seek_position oldpos seek_len =
     (let n = sint (of_nat oldpos :: u64) + seek_len in
      if 0 \<le> n \<and> n < 2 ^ 63 then Some (nat n) else None)"

definition mix_bytes :: "bytes \<Rightarrow> bytes \<Rightarrow> bytes" where
  "mix_bytes mix old_slice = map2 (+) mix old_slice"

function bounded_patch :: "bytes \<Rightarrow> nat \<Rightarrow> bytes \<Rightarrow> nat \<Rightarrow> bytes \<Rightarrow> diff_error + bytes" where
  "bounded_patch old max_output patch oldpos new =
     (case read_full_or_eof 24 patch of
        Inl e \<Rightarrow> Inl e
      | Inr Eof \<Rightarrow> Inr new
      | Inr (Read ctrl rest) \<Rightarrow>
          case u64_to_usize (u64_from_le_bytes (take 8 ctrl)) of Inl e \<Rightarrow> Inl e | Inr mix_len \<Rightarrow>
          case u64_to_usize (u64_from_le_bytes (take 8 (drop 8 ctrl))) of Inl e \<Rightarrow> Inl e | Inr copy_len \<Rightarrow>
          let seek_len = offtin (take 8 (drop 16 ctrl)) in
          case checked_add copy_len mix_len of None \<Rightarrow> Inl InvalidDiff | Some to_read \<Rightarrow>
          case checked_add (length new) to_read of None \<Rightarrow> Inl InvalidDiff | Some projected \<Rightarrow>
          if max_output < projected then Inl (SizeLimitExceeded max_output)
          else
          let got = take to_read rest; mix_start = length new in
          if length got \<noteq> to_read then Inl (PatchApplicationFailure ''unexpected end of patch data'')
          else
          case checked_add mix_start mix_len of None \<Rightarrow> Inl InvalidDiff | Some mix_end \<Rightarrow>
          if length (new @ got) < mix_end then Inl InvalidDiff
          else
          case checked_add oldpos mix_len of None \<Rightarrow> Inl InvalidDiff | Some oldpos_end \<Rightarrow>
          if length old < oldpos_end then Inl InvalidDiff
          else
          let old_slice = take mix_len (drop oldpos old);
              new = new @ mix_bytes (take mix_len got) old_slice @ drop mix_len got in
          case seek_position (oldpos + mix_len) seek_len of
            None \<Rightarrow> Inl InvalidDiff
          | Some oldpos \<Rightarrow> bounded_patch old max_output (drop to_read rest) oldpos new)"
  by pat_completeness auto
termination
  by (relation "measure (\<lambda>(old, m, patch, oldpos, new). length patch)")
     (auto simp: read_full_or_eof_def split: if_splits)

declare bounded_patch.simps [simp del]

definition apply_patch_bounded :: "bytes \<Rightarrow> bytes \<Rightarrow> nat \<Rightarrow> diff_error + bytes" where
  "apply_patch_bounded old patch max_output = bounded_patch old max_output patch 0 []"

definition apply_patch :: "bytes \<Rightarrow> bytes \<Rightarrow> diff_error + bytes" where
  "apply_patch old patch = apply_patch_bounded old patch MAX_OUTPUT_SIZE"

definition apply_patch_verified :: "(bytes \<Rightarrow> bytes) \<Rightarrow> bytes \<Rightarrow> bytes \<Rightarrow> bytes option \<Rightarrow> diff_error + bytes" where
  "apply_patch_verified hash old patch expected_hash =
     (case apply_patch old patch of
        Inl e \<Rightarrow> Inl e
      | Inr new \<Rightarrow>
          (case expected_hash of
             None \<Rightarrow> Inr new
           | Some expected \<Rightarrow>
               if hash new \<noteq> expected then Inl (ChecksumMismatch (to_hex expected) (to_hex (hash new)))
               else Inr new))"


section \<open>Decompression\<close>

definition MAX_DECOMPRESSED_SIZE :: nat where
  "MAX_DECOMPRESSED_SIZE = 1024 * 1024 * 1024"

text \<open>The decoder yields bytes and then ends, cleanly or with an error; \<open>None\<close> if it cannot be opened.
  \<open>take(n).read_to_end\<close> does not see what comes after the first \<open>n\<close> bytes.\<close>

definition decompress_diff_bounded ::
  "(bytes \<Rightarrow> (bytes \<times> bool) option) \<Rightarrow> bytes \<Rightarrow> nat \<Rightarrow> diff_error + bytes" where
  "decompress_diff_bounded decoder compressed max_size =
     (case decoder compressed of
        None \<Rightarrow> Inl DiffIoError
      | Some (stream, fails) \<Rightarrow>
          let read = max_size + 1; out = take read stream in
          if length stream < read \<and> fails then Inl DiffIoError
          else if max_size < length out then Inl (SizeLimitExceeded max_size)
          else Inr out)"

definition decompress_diff :: "(bytes \<Rightarrow> (bytes \<times> bool) option) \<Rightarrow> bytes \<Rightarrow> diff_error + bytes" where
  "decompress_diff decoder compressed = decompress_diff_bounded decoder compressed MAX_DECOMPRESSED_SIZE"


section \<open>The format of a patch\<close>

text \<open>
  What a patch means: a sequence of records, each with bytes to be added to bytes of the old file from
  the current position on, bytes to be copied, and a distance by which the position moves.
\<close>

record patch_record =
  mixed :: bytes
  copied :: bytes
  distance :: int

fun assemble :: "bytes \<Rightarrow> nat \<Rightarrow> patch_record list \<Rightarrow> bytes option" where
  "assemble old pos [] = Some []"
| "assemble old pos (r # rs) =
     (let pos' = int (pos + length (mixed r)) + distance r in
      if length old < pos + length (mixed r) \<or> pos' < 0 \<or> 2 ^ 63 \<le> pos' then None
      else map_option ((@) (map2 (+) (mixed r) (drop pos old) @ copied r)) (assemble old (nat pos') rs))"

fun to_le :: "nat \<Rightarrow> nat \<Rightarrow> bytes" where
  "to_le 0 v = []"
| "to_le (Suc n) v = of_nat (v mod 256) # to_le n (v div 256)"

definition offtout :: "int \<Rightarrow> bytes" where
  "offtout x = to_le 8 (if 0 \<le> x then nat x else nat (- x) + 2 ^ 63)"

definition encode_record :: "patch_record \<Rightarrow> bytes" where
  "encode_record r = to_le 8 (length (mixed r)) @ to_le 8 (length (copied r)) @ offtout (distance r) @ mixed r @ copied r"

definition encode_patch :: "patch_record list \<Rightarrow> bytes" where
  "encode_patch rs = concat (map encode_record rs)"

definition output_size :: "patch_record list \<Rightarrow> nat" where
  "output_size rs = (\<Sum>r \<leftarrow> rs. length (mixed r) + length (copied r))"

lemma length_to_le [simp]: "length (to_le n v) = n"
  by (induction n arbitrary: v) auto

lemma to_le_Nil [simp]: "to_le n v = [] \<longleftrightarrow> n = 0"
  by (cases n) auto

lemma zip_take_length: "zip xs (take (length xs) ys) = zip xs ys"
  by (induction xs ys rule: list_induct2') auto

lemma le_nat_to_le: "le_nat (to_le n v) = v mod 256 ^ n"
proof (induction n arbitrary: v)
  case (Suc n)
  have "unat (of_nat (v mod 256) :: u8) = v mod 256" by (simp add: unat_of_nat)
  then show ?case by (simp add: Suc mod_mult2_eq mult.commute)
qed simp

lemma u64_from_to_le: "v < 2 ^ 64 \<Longrightarrow> u64_from_le_bytes (to_le 8 v) = of_nat v"
  by (simp add: u64_from_le_bytes_def le_nat_to_le)

lemma sint_of_nat_small: "v < 2 ^ 63 \<Longrightarrow> sint (of_nat v :: u64) = int v"
  by (simp add: signed_take_bit_int_eq_self signed_of_nat)

lemma high_bits: "(m :: nat) < 2 ^ k \<Longrightarrow> k \<le> n \<Longrightarrow> \<not> bit m n"
proof -
  assume "m < 2 ^ k" "k \<le> n"
  moreover have "(2 :: nat) ^ k \<le> 2 ^ n" using \<open>k \<le> n\<close> by (rule power_increasing) simp
  ultimately have "m div 2 ^ n = 0" by (intro div_less) (rule less_le_trans)
  then show ?thesis by (simp add: bit_iff_odd)
qed

lemma sign_or: "(m :: nat) < 2 ^ k \<Longrightarrow> m + 2 ^ k = or m (2 ^ k)"
  by (rule disjunctive_add_eq_or) (simp add: and_exp_eq_0_iff_not_bit high_bits)

lemma clear_sign: "m < 2 ^ k \<Longrightarrow> and (of_nat (m + 2 ^ k) :: 'a::len word) (not (push_bit k 1)) = of_nat m"
proof (rule bit_word_eqI)
  fix n
  assume m: "m < 2 ^ k" and n: "n < LENGTH('a)"
  show "bit (and (of_nat (m + 2 ^ k) :: 'a word) (not (push_bit k 1))) n = bit (of_nat m :: 'a word) n"
    unfolding sign_or [OF m]
    using high_bits [OF m, of n] n by (auto simp: bit_simps simp del: of_nat_add)
qed

lemma sign_test:
  "m < 2 ^ k \<Longrightarrow> and (of_nat m :: 'a::len word) (push_bit k 1) = 0"
  "m < 2 ^ k \<Longrightarrow> k < LENGTH('a) \<Longrightarrow> and (of_nat (m + 2 ^ k) :: 'a::len word) (push_bit k 1) \<noteq> 0"
proof -
  assume m: "m < 2 ^ k"
  have p: "push_bit k (1 :: 'a word) = 2 ^ k" by (simp add: push_bit_of_1)
  show "and (of_nat m :: 'a word) (push_bit k 1) = 0"
    unfolding p and_exp_eq_0_iff_not_bit using high_bits [OF m, of k] by (simp add: bit_simps)
  show "and (of_nat (m + 2 ^ k) :: 'a word) (push_bit k 1) \<noteq> 0" if "k < LENGTH('a)"
    unfolding p and_exp_eq_0_iff_not_bit sign_or [OF m] using that by (simp add: bit_simps del: of_nat_add)
qed

lemma offtin_offtout:
  assumes "\<bar>x\<bar> < 2 ^ 63"
  shows "offtin (offtout x) = x"
proof (cases "0 \<le> x")
  case True
  have x: "nat x < 2 ^ 63" using assms True by simp
  then have y: "u64_from_le_bytes (offtout x) = of_nat (nat x)"
    using True by (simp only: offtout_def if_True) (rule u64_from_to_le, simp)
  show ?thesis
    unfolding offtin_def y Let_def sign_test(1) [OF x] sint_of_nat_small [OF x] using True by simp
next
  case False
  let ?m = "nat (- x)"
  have m: "?m < 2 ^ 63" using assms False by simp
  then have y: "u64_from_le_bytes (offtout x) = of_nat (?m + 2 ^ 63)"
    using False by (simp only: offtout_def if_False) (rule u64_from_to_le, simp)
  have "63 < LENGTH(64)" by simp
  note neg = sign_test(2) [OF m this]
  show ?thesis
    unfolding offtin_def y Let_def if_not_P [OF neg] clear_sign [OF m] sint_of_nat_small [OF m] using False by simp
qed


section \<open>Bounds\<close>

lemma bounded_patch_Inr:
  assumes "bounded_patch old m patch pos new = Inr out"
  obtains (finished) "out = new"
  | (step) patch' pos' new' where "length patch' < length patch" "length new' \<le> m"
      "bounded_patch old m patch' pos' new' = Inr out"
proof -
  consider "read_full_or_eof 24 patch = Inr Eof" | ctrl rest where "read_full_or_eof 24 patch = Inr (Read ctrl rest)"
    using assms by (subst (asm) bounded_patch.simps) (auto split: sum.splits control_read.splits)
  then show thesis
  proof cases
    case 1
    then show thesis using assms finished by (subst (asm) bounded_patch.simps) simp
  next
    case 2
    then have "length rest < length patch" by (auto simp: read_full_or_eof_def split: if_splits)
    then show thesis
      using assms 2 by (subst (asm) bounded_patch.simps)
        (auto simp: u64_to_usize_def checked_add_def mix_bytes_def Let_def split: if_splits option.splits
          intro!: step [rotated 2])
  qed
qed

lemma bounded_patch_length:
  "bounded_patch old m patch pos new = Inr out \<Longrightarrow> length new \<le> m \<Longrightarrow> length out \<le> m"
proof (induction patch arbitrary: pos new rule: length_induct)
  case (1 patch)
  from 1(2) show ?case
    by (cases rule: bounded_patch_Inr) (use 1 in auto)
qed

section \<open>Refinement\<close>

lemma seek_position_int:
  "pos < 2 ^ 63 \<Longrightarrow> seek_position pos d = (let n = int pos + d in if n < 0 \<or> 2 ^ 63 \<le> n then None else Some (nat n))"
  by (auto simp: seek_position_def sint_of_nat_small Let_def)

lemma read_encoded:
  "read_full_or_eof 24 (encode_record r @ rest) =
     Inr (Read (to_le 8 (length (mixed r)) @ to_le 8 (length (copied r)) @ offtout (distance r))
       (mixed r @ copied r @ rest))"
proof -
  have "length (offtout (distance r)) = 8" by (simp add: offtout_def)
  moreover have "encode_record r @ rest \<noteq> []" by (simp add: encode_record_def)
  ultimately show ?thesis
    by (simp add: read_full_or_eof_def encode_record_def)
qed

lemma bounded_patch_record:
  assumes "length old < 2 ^ 63" "pos < 2 ^ 63" "\<bar>distance r\<bar> < 2 ^ 63"
    and "length new + length (mixed r) + length (copied r) \<le> m" "m < 2 ^ 63"
  shows "bounded_patch old m (encode_record r @ rest) pos new =
    (let pos' = int (pos + length (mixed r)) + distance r in
     if length old < pos + length (mixed r) \<or> pos' < 0 \<or> 2 ^ 63 \<le> pos' then Inl InvalidDiff
     else bounded_patch old m rest (nat pos')
       (new @ map2 (+) (mixed r) (drop pos old) @ copied r))"
proof -
  let ?a = "length (mixed r)" and ?b = "length (copied r)"
  have small: "?a < 2 ^ 64" "?b < 2 ^ 64" "?b + ?a < 2 ^ 64" "length new + (?b + ?a) < 2 ^ 64"
    "length new + ?a < 2 ^ 64" "pos + ?a < 2 ^ 64"
    using assms by auto
  have lens: "unat (u64_from_le_bytes (to_le 8 ?a)) = ?a" "unat (u64_from_le_bytes (to_le 8 ?b)) = ?b"
    using small by (simp_all add: u64_from_to_le unat_of_nat)
  have add: "checked_add ?b ?a = Some (?b + ?a)" "checked_add (length new) (?b + ?a) = Some (length new + (?b + ?a))"
    "checked_add (length new) ?a = Some (length new + ?a)" "checked_add pos ?a = Some (pos + ?a)"
    using small by (simp_all add: checked_add_def)
  have fits: "\<not> m < length new + (?b + ?a)" using assms(4) by simp
  have seek: "take 8 (offtout (distance r)) = offtout (distance r)" by (simp add: offtout_def)
  have pos: "seek_position (pos + ?a) (distance r) =
      (let n = int (pos + ?a) + distance r in if n < 0 \<or> 2 ^ 63 \<le> n then None else Some (nat n))"
    if "pos + ?a \<le> length old"
    using that assms(1) by (intro seek_position_int) (rule le_less_trans)
  show ?thesis
    by (subst bounded_patch.simps)
       (simp add: read_encoded lens u64_to_usize_def add fits seek offtin_offtout [OF assms(3)] pos mix_bytes_def
         zip_take_length Let_def del: of_nat_add)
qed

lemma bounded_patch_assemble:
  assumes "length old < 2 ^ 63" "m < 2 ^ 63" "\<forall>r \<in> set rs. \<bar>distance r\<bar> < 2 ^ 63"
    and "length new + output_size rs \<le> m" "pos < 2 ^ 63"
  shows "bounded_patch old m (encode_patch rs) pos new =
    (case assemble old pos rs of Some out \<Rightarrow> Inr (new @ out) | None \<Rightarrow> Inl InvalidDiff)"
  using assms(3-5)
proof (induction rs arbitrary: pos new)
  case Nil
  then show ?case by (subst bounded_patch.simps) (simp add: encode_patch_def read_full_or_eof_def)
next
  case (Cons r rs)
  let ?out = "map2 (+) (mixed r) (drop pos old) @ copied r"
  have e: "encode_patch (r # rs) = encode_record r @ encode_patch rs" by (simp add: encode_patch_def)
  have fit: "length new + length (mixed r) + length (copied r) \<le> m" using Cons.prems by (simp add: output_size_def)
  have IH: "bounded_patch old m (encode_patch rs) p (new @ ?out) =
      (case assemble old p rs of Some out \<Rightarrow> Inr (new @ ?out @ out) | None \<Rightarrow> Inl InvalidDiff)" if "p < 2 ^ 63" for p
    using Cons.IH [of "new @ ?out" p] Cons.prems that by (simp add: output_size_def split: option.split)
  show ?case
    unfolding e
    by (subst bounded_patch_record [OF assms(1) Cons.prems(3) _ fit assms(2)])
       (use Cons.prems in \<open>auto simp: IH Let_def split: option.splits\<close>)
qed


section \<open>Properties\<close>

text \<open>
  C30: applying a patch does what the patch means. For a patch that encodes a sequence of records whose
  output fits the limit, the loop over the raw bytes returns exactly the concatenation of the mixed
  and copied parts of the records, and refuses the patch as invalid exactly if a record reads beyond
  the old file or moves to an impossible position.
\<close>

theorem apply_patch_assembles:
  assumes "length old < 2 ^ 63" "max_output < 2 ^ 63" "\<forall>r \<in> set rs. \<bar>distance r\<bar> < 2 ^ 63"
    and "output_size rs \<le> max_output"
  shows "apply_patch_bounded old (encode_patch rs) max_output =
    (case assemble old 0 rs of Some out \<Rightarrow> Inr out | None \<Rightarrow> Inl InvalidDiff)"
  using bounded_patch_assemble [OF assms(1-3), of "[]" 0] assms(4)
  by (simp add: apply_patch_bounded_def split: option.split)

theorem apply_patch_assembles_witness:
  "apply_patch_bounded [1, 2, 3, 4] (encode_patch [\<lparr>mixed = [0, 255], copied = [9], distance = - 1\<rparr>,
      \<lparr>mixed = [1, 1], copied = [], distance = 0\<rparr>]) 100 = Inr [1, 1, 9, 3, 4]"
  by (subst apply_patch_assembles) (simp_all add: output_size_def)

text \<open>
  Untrusted input cannot exhaust memory. Whatever bytes a patch consists of, a patch that is applied
  successfully has produced at most the permitted number of bytes, at most 1 GiB by default; and
  whatever a decompressor yields, at most 1 GiB of it is kept.
\<close>

theorem patch_output_bounded:
  assumes "apply_patch_bounded old patch max_output = Inr out" "apply_patch old patch' = Inr out'"
    and "decompress_diff decoder compressed = Inr plain"
  shows "length out \<le> max_output \<and> length out' \<le> 1073741824 \<and> length plain \<le> 1073741824"
proof -
  have "length out \<le> max_output"
    using bounded_patch_length assms(1) by (force simp: apply_patch_bounded_def)
  moreover have "length out' \<le> MAX_OUTPUT_SIZE"
    using bounded_patch_length assms(2) by (force simp: apply_patch_bounded_def apply_patch_def)
  moreover have "length plain \<le> MAX_DECOMPRESSED_SIZE"
    using assms(3) by (auto simp: decompress_diff_def decompress_diff_bounded_def Let_def split: option.splits if_splits)
  ultimately show ?thesis by (simp add: MAX_OUTPUT_SIZE_def MAX_DECOMPRESSED_SIZE_def)
qed

theorem patch_output_bounded_witness:
  "\<exists>out. apply_patch_bounded [] (encode_patch [\<lparr>mixed = [], copied = [7], distance = 0\<rparr>]) 1 = Inr out \<and> length out \<le> 1"
proof -
  have 1: "apply_patch_bounded [] (encode_patch [\<lparr>mixed = [], copied = [7], distance = 0\<rparr>]) 1 = Inr [7]"
    "apply_patch [] (encode_patch [\<lparr>mixed = [], copied = [7], distance = 0\<rparr>]) = Inr [7]"
    unfolding apply_patch_def apply_patch_bounded_def
    by (subst bounded_patch_assemble; simp add: output_size_def MAX_OUTPUT_SIZE_def)+
  have "decompress_diff (\<lambda>c. Some (c, False)) [1] = Inr [1]"
    by (simp add: decompress_diff_def decompress_diff_bounded_def MAX_DECOMPRESSED_SIZE_def)
  from patch_output_bounded [OF 1 this] 1(1) show ?thesis by blast
qed

end
