(* ===== verification/Client_Env.thy ===== *)
theory Client_Env
  imports Client_Db Client_Checks Patch Catalog Crypto
begin

text \<open>
  What the client works with: files of bytes and one file that is the database, the HTTP requests it
  sends, and what it observes of the operating system. Everything observed is a function of the number
  of operations performed so far, so that two observations of the same thing may differ: between two
  checks of a path somebody may have replaced it by a link. The functions of third-party crates are the
  fields of \<open>client_libs\<close>. The text of an error, which reaches the history of updates and the decision whether to
  try again, is a parameter.
\<close>

section \<open>Files\<close>

type_synonym content = "client_db content_of"

record client_libs =
  c_blake3 :: "bytes \<Rightarrow> bytes"
  c_sha256 :: "bytes \<Rightarrow> bytes"
  blake3_from_hex :: "string \<Rightarrow> bytes option"
  db_image :: "client_db \<Rightarrow> bytes"
  key_valid :: "bytes \<Rightarrow> bool"
  c_verify :: "bytes \<Rightarrow> bytes \<Rightarrow> bytes \<Rightarrow> bool"
  c_parse :: "string \<Rightarrow> string + version"
  c_show :: "version \<Rightarrow> string"
  c_pre_cmp :: "string \<Rightarrow> string \<Rightarrow> ordering"
  zstd :: "bytes \<Rightarrow> (bytes \<times> bool) option"
  parse_url :: "string \<Rightarrow> (string \<times> string option) option"
  parse_ip :: "string \<Rightarrow> bool option"
  decode_json :: "bytes \<Rightarrow> (update_check_response \<times> string option) option"

definition content_bytes :: "client_libs \<Rightarrow> content \<Rightarrow> bytes" where
  "content_bytes L c = (case c of Bytes b \<Rightarrow> b | Database db \<Rightarrow> db_image L db)"

section \<open>Errors\<close>

datatype client_error =
    CIo io_error
  | CHttpSend
  | CHttpStatus nat
  | CStream
  | CDownloadFailed nat client_error
  | CSecurity string
  | CMissing string
  | CBadHash
  | CChecksumMismatch
  | CSignature
  | CBadLength string
  | CBadKey
  | CTooLarge
  | CMemory
  | CDisk string
  | CPatch diff_error
  | CDb db_error
  | CInvalidVersion format_error
  | CRestoreFailed client_error io_error
  | CCheckStatus nat "bytes option"
  | CDecode
  | CCheckFailed nat client_error
  | CLocked
  | CPanic
  | CMessage string

text \<open>What a failed request tells about itself.\<close>

record request_error =
  is_timeout :: bool
  is_connect :: bool
  error_status :: "nat option"


section \<open>The network\<close>

datatype http_request =
    HttpGet string "nat option"
  | HttpHead string
  | HttpCheck string string "string option"

record http_response =
  http_status :: nat
  http_length :: "nat option"
  http_range_total :: "nat option"
  http_chunks :: "bytes option list"

record client_env =
  http :: "nat \<Rightarrow> http_request \<Rightarrow> http_response option"
  symlink_at :: "nat \<Rightarrow> path \<Rightarrow> bool"
  canonical :: "nat \<Rightarrow> path \<Rightarrow> path option"
  owner_at :: "nat \<Rightarrow> path \<Rightarrow> nat option"
  as_root :: bool
  dir_identity :: "nat \<Rightarrow> path \<Rightarrow> (nat \<times> nat) option"
  disk_free :: "nat \<Rightarrow> path \<Rightarrow> u64 option"
  memory_free :: "nat \<Rightarrow> u64"
  temp_suffix :: "nat \<Rightarrow> string"
  clock :: "nat \<Rightarrow> string"
  in_30_days :: "nat \<Rightarrow> string"
  error_text :: "client_error \<Rightarrow> string"
  request_fault :: "client_error \<Rightarrow> request_error option"
  unix_time :: "nat \<Rightarrow> int"
  lock_free :: "nat \<Rightarrow> path \<Rightarrow> bool"
  elapsed :: "nat \<Rightarrow> int"


section \<open>Observations and operations\<close>

definition parent :: "path \<Rightarrow> path option" where
  "parent p = (if p = [] then None else Some (butlast p))"

text \<open>\<open>metadata(p)?.len()\<close>; the length the system reports for a directory is of no use to the client.\<close>

definition file_len :: "client_libs \<Rightarrow> path \<Rightarrow> (content, io_error, nat) io" where
  "file_len L p =
     bindE io_point (\<lambda>_.
     bindE (get_world (\<lambda>w. lookup w p)) (\<lambda>n.
     case n of None \<Rightarrow> throwE NoEntry | Some Dir \<Rightarrow> returnE 0
     | Some (File c) \<Rightarrow> returnE (length (content_bytes L c))))"

definition copy_file :: "path \<Rightarrow> path \<Rightarrow> (content, io_error, unit) io" where
  "copy_file src dst = bindE (read_file src) (write_file dst)"

definition read_bytes :: "client_libs \<Rightarrow> path \<Rightarrow> (content, io_error, bytes) io" where
  "read_bytes L p = bindE (read_file p) (\<lambda>c. returnE (content_bytes L c))"

definition hash_file :: "client_libs \<Rightarrow> path \<Rightarrow> (content, io_error, bytes) io" where
  "hash_file L p = bindE (read_bytes L p) (\<lambda>b. returnE (c_blake3 L b))"

definition db_timed :: "client_env \<Rightarrow> path \<Rightarrow> (string \<Rightarrow> 'a db_op) \<Rightarrow> (content, client_error, 'a) io" where
  "db_timed E p op = bindE (observe (clock E)) (\<lambda>now. map_err CDb (db_run p (op now)))"

text \<open>A temporary file is created under a fresh name and removed when it is dropped without having been
  persisted.\<close>

definition create_temp :: "client_env \<Rightarrow> path \<Rightarrow> (content, io_error, path) io" where
  "create_temp E dir =
     bindE (observe (temp_suffix E)) (\<lambda>s.
     let p = dir @ [''.tmp'' @ s] in
     bindE (get_world (path_exists p)) (\<lambda>ex.
     if ex then throwE IoFault
     else bindE (open_create (Bytes []) p) (\<lambda>_. returnE p)))"

definition with_temp :: "client_env \<Rightarrow> path \<Rightarrow> (path \<Rightarrow> (content, client_error, 'a) io) \<Rightarrow> (content, client_error, 'a) io" where
  "with_temp E dir body =
     bindE (map_err CIo (create_temp E dir)) (\<lambda>p. on_error (body p) (remove_file p))"

text \<open>A request is refused by a client that insists on HTTPS if the URL has another scheme.\<close>

definition send :: "client_libs \<Rightarrow> client_env \<Rightarrow> string \<Rightarrow> http_request \<Rightarrow> (content, client_error, http_response) io" where
  "send L E u req =
     (if require_https_for (parse_ip L) (parse_url L) u \<and> map_option fst (parse_url L u) \<noteq> Some ''https''
      then throwE CHttpSend
      else bindE (observe (\<lambda>n. http E n req)) (\<lambda>r.
           case r of None \<Rightarrow> throwE CHttpSend | Some resp \<Rightarrow> returnE resp))"

definition is_success :: "http_response \<Rightarrow> bool" where
  "is_success r \<longleftrightarrow> 200 \<le> http_status r \<and> http_status r < 300"


section \<open>Rules\<close>

lemma touches_client [intro]:
  "touches S (file_len L p)" "q \<in> S \<Longrightarrow> touches S (copy_file p q)" "touches S (read_bytes L p)" "touches S (hash_file L p)"
  "p \<in> S \<Longrightarrow> touches S (db_timed E p g)" "touches S (send L E u req)"
  unfolding copy_file_def read_bytes_def hash_file_def db_timed_def send_def
  by (auto simp: file_len_def split: option.split node.split intro!: touches_intros touches_observe touches_db_run)

lemma touches_create_temp: "(\<And>s. dir @ [''.tmp'' @ s] \<in> S) \<Longrightarrow> touches S (create_temp E dir)"
  unfolding create_temp_def Let_def by (intro touches_intros touches_observe)



lemmas client_run = observe_def path_exists_def parent_def file_len_def copy_file_def read_bytes_def hash_file_def
  content_bytes_def outcome_def on_error_def create_temp_def with_temp_def send_def is_success_def require_https_for_def
  is_loopback_host_def trim_start_char_def trim_end_char_def


section \<open>A sample environment\<close>

definition sample_client_libs :: client_libs where
  "sample_client_libs = \<lparr>c_blake3 = (\<lambda>b. take 32 (b @ replicate 32 0)), c_sha256 = (\<lambda>b. take 32 (rev b @ replicate 32 0)),
     blake3_from_hex = (\<lambda>s. case from_hex s of Inr h \<Rightarrow> Some h | Inl _ \<Rightarrow> None), db_image = (\<lambda>_. [0]),
     key_valid = (\<lambda>k. True), c_verify = (\<lambda>k m sig. take 32 sig = k \<and> drop 32 sig = take 32 (rev m)), c_parse = sample_parse, c_show = sample_show,
     c_pre_cmp = (\<lambda>_ _. Equal), zstd = (\<lambda>b. Some (b, True)),
     parse_url = (\<lambda>u. Some (''https'', Some ''updates'')), parse_ip = (\<lambda>_. None), 
     decode_json = (\<lambda>b. if b = [] then None else Some ((available (version_new 2 0 0))\<lparr>full_binary_url := Some ''b'',
       resp_checksum := Some (to_hex ([7, 8] @ replicate 30 0)), signature_url := Some ''s''\<rparr>, None))\<rparr>"

definition sample_env :: "(http_request \<Rightarrow> http_response option) \<Rightarrow> client_env" where
  "sample_env srv = \<lparr>http = (\<lambda>_. srv), symlink_at = (\<lambda>_ _. False), canonical = (\<lambda>_ p. Some p), owner_at = (\<lambda>_ _. Some 1000),
     as_root = False, dir_identity = (\<lambda>_ _. Some (1, 2)), disk_free = (\<lambda>_ _. Some 1000000), memory_free = (\<lambda>_. 1000000),
     temp_suffix = (\<lambda>_. ''x''), clock = (\<lambda>_. ''2025-01-01 00:00:00''),
     in_30_days = (\<lambda>_. ''2025-01-31 00:00:00''), error_text = (\<lambda>_. ''error''), request_fault = (\<lambda>_. None),
     unix_time = (\<lambda>_. 0), lock_free = (\<lambda>_ _. True), elapsed = (\<lambda>_. 0)\<rparr>"

end
