(* ===== verification/Downloader.thy ===== *)
theory Downloader
  imports Client_Env
begin

text \<open>
  Downloads (\<open>crates/deltaship-client/src/downloader.rs\<close>). A file is fetched in at most three attempts; an
  attempt continues a partial file with a range request. The waiting between attempts, progress bars and
  log messages are left out, and so is the version for interactive use, which no command calls.
\<close>

section \<open>Whole answers\<close>

definition MAX_RETRIES :: nat where
  "MAX_RETRIES = 3"

definition PERMANENT_ERROR_CODES :: "nat list" where
  "PERMANENT_ERROR_CODES = [400, 401, 403, 404, 405, 410]"

text \<open>The body of an answer: its chunks, unless the stream breaks.\<close>

fun body_bytes :: "bytes option list \<Rightarrow> bytes option" where
  "body_bytes [] = Some []"
| "body_bytes (None # cs) = None"
| "body_bytes (Some c # cs) = map_option ((@) c) (body_bytes cs)"

definition download_bytes :: "client_libs \<Rightarrow> client_env \<Rightarrow> string \<Rightarrow> (content, client_error, bytes) io" where
  "download_bytes L E url =
     bindE (send L E url (HttpGet url None)) (\<lambda>response.
     if \<not> is_success response then throwE (CHttpStatus (http_status response))
     else case body_bytes (http_chunks response) of
            None \<Rightarrow> throwE CStream | Some b \<Rightarrow> returnE b)"


section \<open>One attempt\<close>

text \<open>The status is found in the text of the error; only the error for an unsuccessful status has one.\<close>

definition extract_http_status :: "client_error \<Rightarrow> nat option" where
  "extract_http_status err =
     (case err of CHttpStatus n \<Rightarrow> if 100 \<le> n \<and> n < 600 then Some n else None | _ \<Rightarrow> None)"

definition verify_partial_download ::
  "client_libs \<Rightarrow> path \<Rightarrow> nat option \<Rightarrow> (content, client_error, bool) io" where
  "verify_partial_download L dest expected_total_size =
     bindE (map_err CIo (file_len L dest)) (\<lambda>existing_size.
     if (case expected_total_size of Some expected \<Rightarrow> existing_size > expected | None \<Rightarrow> False)
     then returnE False
     else bindE (map_err CIo (hash_file L dest)) (\<lambda>_. returnE True))"

text \<open>The chunks of the body go to the open file, which holds \<open>sofar\<close>; the file is flushed at the end.\<close>

fun write_chunks :: "path \<Rightarrow> bytes \<Rightarrow> nat \<Rightarrow> bytes option list \<Rightarrow> (content, client_error, nat) io" where
  "write_chunks dest sofar downloaded [] = bindE (map_err CIo io_point) (\<lambda>_. returnE downloaded)"
| "write_chunks dest sofar downloaded (None # cs) = throwE CStream"
| "write_chunks dest sofar downloaded (Some c # cs) =
     bindE (map_err CIo (write_file dest (Bytes (sofar @ c)))) (\<lambda>_.
     write_chunks dest (sofar @ c) (downloaded + length c) cs)"

definition download_stream_to_file ::
  "path \<Rightarrow> bytes \<Rightarrow> http_response \<Rightarrow> nat \<Rightarrow> bool \<Rightarrow> (content, client_error, nat) io" where
  "download_stream_to_file dest sofar response existing_size is_partial =
     write_chunks dest sofar (if is_partial then existing_size else 0) (http_chunks response)"

text \<open>Opening for appending yields what the file holds; creating it truncates it.\<close>

definition open_append :: "client_libs \<Rightarrow> path \<Rightarrow> (content, client_error, bytes) io" where
  "open_append L dest =
     bindE (map_err CIo (open_file dest)) (\<lambda>_.
     get_world (\<lambda>w. case file_at w dest of Some c \<Rightarrow> content_bytes L c | None \<Rightarrow> []))"

definition create_fresh :: "path \<Rightarrow> (content, client_error, bytes) io" where
  "create_fresh dest =
     bindE (case parent dest of Some d \<Rightarrow> map_err CIo (create_dir_all d) | None \<Rightarrow> returnE ()) (\<lambda>_.
     bindE (map_err CIo (write_file dest (Bytes []))) (\<lambda>_. returnE []))"

definition existing_len :: "client_libs \<Rightarrow> path \<Rightarrow> (content, client_error, nat) io" where
  "existing_len L dest =
     bindE (get_world (path_exists dest)) (\<lambda>ex.
     if ex then map_err CIo (file_len L dest) else returnE 0)"

text \<open>A partial file that is too long, or that cannot be read, is removed before the request.\<close>

definition check_partial :: "client_libs \<Rightarrow> client_env \<Rightarrow> string \<Rightarrow> path \<Rightarrow> (content, client_error, unit) io" where
  "check_partial L E url dest =
     bindE (existing_len L dest) (\<lambda>existing_size.
     if existing_size = 0 then returnE ()
     else
       bindE (attempt (send L E url (HttpHead url))) (\<lambda>head.
       bindE (outcome (verify_partial_download L dest (Option.bind head http_length))) (\<lambda>ok.
       if ok = Inr True then returnE () else map_err CIo (remove_file dest))))"

definition download_attempt :: "client_libs \<Rightarrow> client_env \<Rightarrow> string \<Rightarrow> path \<Rightarrow> (content, client_error, nat) io" where
  "download_attempt L E url dest =
     bindE (check_partial L E url dest) (\<lambda>_.
     bindE (existing_len L dest) (\<lambda>existing_size.
     bindE (send L E url (HttpGet url (if 0 < existing_size then Some existing_size else None))) (\<lambda>response.
     if http_status response = 416 then returnE existing_size
     else if \<not> is_success response then throwE (CHttpStatus (http_status response))
     else
       let is_partial = (http_status response = 206) in
       bindE (if is_partial \<and> 0 < existing_size then open_append L dest else create_fresh dest) (\<lambda>sofar.
       download_stream_to_file dest sofar response existing_size is_partial))))"


section \<open>Attempts\<close>

text \<open>\<open>n\<close> attempts are left after \<open>k\<close> failures, the last of them \<open>e\<close>.\<close>

fun download_tries ::
  "client_libs \<Rightarrow> client_env \<Rightarrow> string \<Rightarrow> path \<Rightarrow> nat \<Rightarrow> nat \<Rightarrow> client_error \<Rightarrow> (content, client_error, nat) io" where
  "download_tries L E url dest 0 k e = throwE (CDownloadFailed k e)"
| "download_tries L E url dest (Suc n) k _ =
     bindE (outcome (download_attempt L E url dest)) (\<lambda>r.
     case r of
       Inr b \<Rightarrow> returnE b
     | Inl e \<Rightarrow>
         if (case extract_http_status e of Some code \<Rightarrow> code \<in> set PERMANENT_ERROR_CODES | None \<Rightarrow> False)
         then throwE (CDownloadFailed (Suc k) e)
         else download_tries L E url dest n (Suc k) e)"

definition download_file_with_progress ::
  "client_libs \<Rightarrow> client_env \<Rightarrow> string \<Rightarrow> path \<Rightarrow> (content, client_error, nat) io" where
  "download_file_with_progress L E url dest =
     on_error (download_tries L E url dest MAX_RETRIES 0 CStream)
       (bindE (get_world (path_exists dest)) (\<lambda>ex. if ex then remove_file dest else returnE ()))"


section \<open>Footprint\<close>

lemmas touches_catch = footprint.keeps_outcome footprint.keeps_on_error

lemma touches_download_bytes [intro]: "touches S (download_bytes L E url)"
  unfolding download_bytes_def by (intro touches_intros touches_client)

lemma touches_write_chunks: "dest \<in> S \<Longrightarrow> touches S (write_chunks dest sofar n cs)"
  by (induction dest sofar n cs rule: write_chunks.induct) (auto intro!: touches_intros)

lemma touches_download_attempt: "dest \<in> S \<Longrightarrow> touches S (download_attempt L E url dest)"
  unfolding download_attempt_def check_partial_def existing_len_def verify_partial_download_def open_append_def
    create_fresh_def download_stream_to_file_def Let_def
  by (intro touches_intros touches_client touches_catch touches_write_chunks | assumption)+

lemma touches_download_tries: "dest \<in> S \<Longrightarrow> touches S (download_tries L E url dest n k e)"
  by (induction n arbitrary: k e)
     (auto intro!: touches_intros touches_catch touches_download_attempt split: option.split)

lemma touches_download_file [intro]: "dest \<in> S \<Longrightarrow> touches S (download_file_with_progress L E url dest)"
  unfolding download_file_with_progress_def
  by (intro touches_intros touches_catch touches_download_tries | assumption)+


section \<open>Schedules without torn writes\<close>

text \<open>An operation that fails may leave any content in the file it writes. Resuming relies on what is there,
  so its correctness is shown for failures that leave the file as it was.\<close>

definition no_torn :: "'c world \<Rightarrow> bool" where
  "no_torn w \<longleftrightarrow> (\<forall>n c. faults w n \<noteq> Torn c)"

lemma schedule_prims:
  "schedule.keeps (read_file p)" "schedule.keeps (write_file p c)" "schedule.keeps (remove_file p)"
  "schedule.keeps (open_file p)" "schedule.keeps io_point" "schedule.keeps (create_dir_all p)" "schedule.keeps (observe g)"
  by (rule schedule_files)+ (simp add: schedule.keeps_def observe_def)

lemma schedule_client:
  "schedule.keeps (file_len L p)" "schedule.keeps (read_bytes L p)" "schedule.keeps (hash_file L p)"
  "schedule.keeps (send L E u req)"
  unfolding file_len_def read_bytes_def hash_file_def send_def
  by (auto split: option.split node.split intro!: schedule.keeps_intros schedule_prims)

lemma no_torn_faults: "faults w' = faults w \<Longrightarrow> no_torn w' = no_torn w"
  by (simp add: no_torn_def)

lemma wp_write_clean:
  assumes "no_torn w" "\<And>w'. no_torn w' \<Longrightarrow> file_at w' = (file_at w)(p \<mapsto> c) \<Longrightarrow> Q () w'"
    and "\<And>e w'. no_torn w' \<Longrightarrow> file_at w' = file_at w \<Longrightarrow> E e w'"
  shows "wp (write_file p c) Q E w"
proof -
  obtain f v where n: "next_op w = (f, v)" by (cases "next_op w")
  then have v: "file_at v = file_at w" "no_torn v" "\<And>g. f \<noteq> Torn g"
    using assms(1) faults_next_op [OF n] by (auto simp: file_at_next_op no_torn_def next_op_def)
  have set: "file_at (set_node p (File c) v) = (file_at w)(p \<mapsto> c)" "no_torn (set_node p (File c) v)"
    using v by (auto simp: fun_eq_iff no_torn_def)
  show ?thesis
    using assms(2) [OF set(2,1)] assms(3) [OF v(2,1)] v(3)
    by (auto simp: wp_def write_file_def n Let_def split: fault.splits)
qed


section \<open>Resuming\<close>

text \<open>A stream delivers \<open>d\<close> unless it breaks; the part before it breaks is a part of \<open>d\<close>.\<close>

fun delivers :: "bytes \<Rightarrow> bytes option list \<Rightarrow> bool" where
  "delivers d [] \<longleftrightarrow> d = []"
| "delivers d (None # cs) \<longleftrightarrow> True"
| "delivers d (Some c # cs) \<longleftrightarrow> take (length c) d = c \<and> delivers (drop (length c) d) cs"

text \<open>What HTTP asks of a server that holds \<open>data\<close> at \<open>url\<close>: a partial answer carries the requested rest,
  a range is unsatisfiable only at or beyond the end, and any other successful answer carries all.\<close>

definition serves :: "client_env \<Rightarrow> string \<Rightarrow> bytes \<Rightarrow> bool" where
  "serves E url data \<longleftrightarrow>
     (\<forall>n k r. http E n (HttpGet url k) = Some r \<longrightarrow>
        (if http_status r = 416 then \<exists>i. k = Some i \<and> length data \<le> i
         else if http_status r = 206 then \<exists>i. k = Some i \<and> delivers (drop i data) (http_chunks r)
         else is_success r \<longrightarrow> delivers data (http_chunks r)))"

definition partial_ok :: "bytes \<Rightarrow> path \<Rightarrow> content world \<Rightarrow> bool" where
  "partial_ok data dest w \<longleftrightarrow>
     no_torn w \<and> (\<forall>c. file_at w dest = Some c \<longrightarrow> (\<exists>b. c = Bytes b \<and> take (length b) data = b))"

lemma partial_ok_cong:
  "faults w' = faults w \<Longrightarrow> file_at w' dest = file_at w dest \<Longrightarrow> partial_ok data dest w' = partial_ok data dest w"
  by (simp add: partial_ok_def no_torn_def)

lemma wp_file_len:
  assumes "\<And>w'. file_at w' = file_at w \<Longrightarrow> faults w' = faults w \<Longrightarrow> path_exists p w \<Longrightarrow>
      Q (case file_at w p of Some c \<Rightarrow> length (content_bytes L c) | None \<Rightarrow> 0) w'"
    and "\<And>e w'. file_at w' = file_at w \<Longrightarrow> faults w' = faults w \<Longrightarrow> E e w'"
  shows "wp (file_len L p) Q E w"
proof -
  obtain f v where n: "next_op w = (f, v)" by (cases "next_op w")
  then have v: "file_at v = file_at w" "faults v = faults w" "lookup v = lookup w"
    by (auto simp: file_at_next_op faults_next_op)
  show ?thesis
    using assms(1) [OF v(1,2), unfolded file_at_def v(3) [symmetric] path_exists_def] assms(2) [OF v(1,2)]
    by (auto simp: wp_def file_len_def bindE_def io_point_def n get_world_def throwE_def returnE_def path_exists_def
        v(3) [symmetric] split: fault.splits option.splits node.splits)
qed

lemma wp_read_quiet:
  assumes "\<And>c w'. file_at w' = file_at w \<Longrightarrow> faults w' = faults w \<Longrightarrow> file_at w p = Some c \<Longrightarrow> Q c w'"
    and "\<And>e w'. file_at w' = file_at w \<Longrightarrow> faults w' = faults w \<Longrightarrow> E e w'"
  shows "wp (read_file p) Q E w"
  by (rule wp_schedule [OF schedule_prims(1)]) (rule wp_read_file; use assms in blast)

lemma wp_send:
  assumes "\<And>r n w'. file_at w' = file_at w \<Longrightarrow> faults w' = faults w \<Longrightarrow> http E n req = Some r \<Longrightarrow> Q r w'"
    and "\<And>e w'. file_at w' = file_at w \<Longrightarrow> faults w' = faults w \<Longrightarrow> F e w'"
  shows "wp (send L E u req) Q F w"
  using assms by (auto simp: send_def split: option.split)

lemma wp_existing_len:
  assumes "\<And>w'. file_at w' = file_at w \<Longrightarrow> faults w' = faults w \<Longrightarrow>
      Q (case file_at w p of Some c \<Rightarrow> length (content_bytes L c) | None \<Rightarrow> 0) w'"
    and "\<And>e w'. file_at w' = file_at w \<Longrightarrow> faults w' = faults w \<Longrightarrow> F e w'"
  shows "wp (existing_len L p) Q F w"
proof (cases "path_exists p w")
  case True
  then show ?thesis by (simp add: existing_len_def wp_file_len assms)
next
  case False
  then have "file_at w p = None" by (simp add: path_exists_def file_at_def)
  with False assms(1) [of w] show ?thesis by (simp add: existing_len_def)
qed

lemma wp_write_chunks:
  assumes "no_torn w" "take (length sofar) data = sofar" "delivers (drop (length sofar) data) cs"
    and "file_at w dest = Some (Bytes sofar)"
  shows "wp (write_chunks dest sofar (length sofar) cs)
    (\<lambda>n w'. n = length data \<and> file_at w' dest = Some (Bytes data)) (\<lambda>_ w'. partial_ok data dest w') w"
  using assms
proof (induction cs arbitrary: sofar w)
  case Nil
  then have all: "sofar = data" by simp
  have "wp io_point (\<lambda>_ w'. file_at w' dest = Some (Bytes data)) (\<lambda>_ w'. partial_ok data dest w') w"
    by (rule wp_schedule [OF schedule_prims(5)], rule wp_no_change)
       (use Nil.prems(1,4) all in \<open>simp_all add: partial_ok_def no_torn_def\<close>)
  then show ?case by (simp add: all)
next
  case (Cons o1 cs)
  show ?case
  proof (cases o1)
    case None
    with Cons.prems show ?thesis by (auto simp: partial_ok_def)
  next
    case (Some c)
    have c: "take (length c) (drop (length sofar) data) = c"
      using Cons.prems(3) Some by simp
    have ext: "take (length (sofar @ c)) data = sofar @ c"
      using Cons.prems(2) c by (simp add: take_add)
    have "wp (write_chunks dest (sofar @ c) (length (sofar @ c)) cs)
       (\<lambda>n w'. n = length data \<and> file_at w' dest = Some (Bytes data)) (\<lambda>_ w'. partial_ok data dest w') w'"
      if "no_torn w'" "file_at w' = (file_at w)(dest \<mapsto> Bytes (sofar @ c))" for w'
      using Cons.IH [OF that(1) ext] Cons.prems(3) Some that(2) by (simp add: add.commute)
    then show ?thesis
      using Some Cons.prems(1,2,4)
      by (auto intro!: wp_write_clean simp: partial_ok_def)
  qed
qed


lemma schedule_catch: "schedule.keeps m \<Longrightarrow> schedule.keeps (outcome m)"
  by (rule schedule.keeps_outcome)

lemma schedule_check_partial: "schedule.keeps (check_partial L E url dest)"
  unfolding check_partial_def existing_len_def verify_partial_download_def
  by (intro schedule.keeps_intros schedule_prims schedule_client schedule_catch)

lemma wp_check_partial:
  assumes "partial_ok data dest w"
  shows "wp (check_partial L E url dest) (\<lambda>_ w'. partial_ok data dest w') (\<lambda>_ w'. partial_ok data dest w') w"
proof -
  have same: "partial_ok data dest w'" if "faults w' = faults w" "file_at w' = file_at w" for w'
    using assms that partial_ok_cong by metis
  have rm: "wp (remove_file dest) (\<lambda>_ w'. partial_ok data dest w') (\<lambda>_ w'. partial_ok data dest w') v"
    if "faults v = faults w" "file_at v = file_at w" for v
    by (rule wp_schedule [OF schedule_prims(3)], rule wp_remove_file)
       (use that assms in \<open>simp_all add: partial_ok_def no_torn_def\<close>)
  have ver: "wp (verify_partial_download L dest k) (\<lambda>_ w'. faults w' = faults w \<and> file_at w' = file_at w)
      (\<lambda>_ w'. faults w' = faults w \<and> file_at w' = file_at w) v"
    if "faults v = faults w" "file_at v = file_at w" for v k
    unfolding verify_partial_download_def hash_file_def read_bytes_def
    using that by (auto intro!: wp_file_len wp_branch wp_read_quiet)
  have "wp (verify_partial_download L dest k)
       (\<lambda>x. wp (if (Inr x :: client_error + bool) = Inr True then returnE () else map_err CIo (remove_file dest))
          (\<lambda>_ w'. partial_ok data dest w') (\<lambda>_ w'. partial_ok data dest w'))
       (\<lambda>e. wp (if (Inl e :: client_error + bool) = Inr True then returnE () else map_err CIo (remove_file dest))
          (\<lambda>_ w'. partial_ok data dest w') (\<lambda>_ w'. partial_ok data dest w')) v"
    if "faults v = faults w" "file_at v = file_at w" for v k
    by (rule wp_mono [OF ver [OF that]]) (auto intro: same rm)
  then show ?thesis
    unfolding check_partial_def
    by (simp add: wp_existing_len wp_send same)
qed


lemma wp_create_fresh:
  assumes "no_torn w" "\<And>w'. no_torn w' \<Longrightarrow> file_at w' dest = Some (Bytes []) \<Longrightarrow> Q [] w'"
    and "\<And>e w'. no_torn w' \<Longrightarrow> file_at w' = file_at w \<Longrightarrow> F e w'"
  shows "wp (create_fresh dest) Q F w"
proof -
  have wr: "wp (write_file dest (Bytes [])) (\<lambda>_. Q []) (\<lambda>e. F (CIo e)) v" if "no_torn v" "file_at v = file_at w" for v
    by (rule wp_write_clean [OF that(1)]) (use assms(2,3) that(2) in auto)
  have "wp (create_dir_all d) (\<lambda>_. wp (write_file dest (Bytes [])) (\<lambda>_. Q []) (\<lambda>e. F (CIo e))) (\<lambda>e. F (CIo e)) w" for d
    by (rule wp_schedule [OF schedule_prims(6)], rule wp_no_change)
       (use assms(1,3) wr no_torn_faults in blast)+
  with wr [OF assms(1)] show ?thesis by (simp add: create_fresh_def split: option.split)
qed

lemma wp_open_append:
  assumes "no_torn w" "\<And>w'. no_torn w' \<Longrightarrow> file_at w' = file_at w \<Longrightarrow>
      Q (case file_at w dest of Some c \<Rightarrow> content_bytes L c | None \<Rightarrow> []) w'"
    and "\<And>e w'. no_torn w' \<Longrightarrow> file_at w' = file_at w \<Longrightarrow> F e w'"
  shows "wp (open_append L dest) Q F w"
  unfolding open_append_def wp_bindE wp_map_err
  by (rule wp_schedule [OF schedule_prims(4)], rule wp_no_change)
     (use assms in \<open>simp_all add: no_torn_def\<close>)

abbreviation fetched :: "bytes \<Rightarrow> path \<Rightarrow> nat \<Rightarrow> content world \<Rightarrow> bool" where
  "fetched data dest n w \<equiv> n = length data \<and> file_at w dest = Some (Bytes data)"

text \<open>The answer to the request for the rest of a partial file completes it.\<close>

lemma wp_answer:
  assumes "serves E url data" "partial_ok data dest w"
    and size: "existing_size = (case file_at w dest of Some c \<Rightarrow> length (content_bytes L c) | None \<Rightarrow> 0)"
    and r: "http E n (HttpGet url (if 0 < existing_size then Some existing_size else None)) = Some r"
  shows "wp (if http_status r = 416 then returnE existing_size
     else if \<not> is_success r then throwE (CHttpStatus (http_status r))
     else let is_partial = (http_status r = 206) in
       bindE (if is_partial \<and> 0 < existing_size then open_append L dest else create_fresh dest) (\<lambda>sofar.
       download_stream_to_file dest sofar r existing_size is_partial))
    (fetched data dest) (\<lambda>_ w'. partial_ok data dest w') w"
proof -
  have nt: "no_torn w" using assms(2) by (simp add: partial_ok_def)
  have same: "partial_ok data dest w'" if "no_torn w'" "file_at w' = file_at w" for w'
    using assms(2) that by (simp add: partial_ok_def)
  have srv: "if http_status r = 416 then 0 < existing_size \<and> length data \<le> existing_size
     else if http_status r = 206 then 0 < existing_size \<and> delivers (drop existing_size data) (http_chunks r)
     else is_success r \<longrightarrow> delivers data (http_chunks r)"
    using assms(1) r unfolding serves_def by (fastforce split: if_splits)
  have pre: "\<exists>b. file_at w dest = Some (Bytes b) \<and> length b = existing_size \<and> take existing_size data = b"
    if pos: "0 < existing_size"
  proof -
    obtain b where "file_at w dest = Some (Bytes b)" "take (length b) data = b" "existing_size = length b"
      using assms(2) size pos by (auto simp: partial_ok_def content_bytes_def split: option.splits)
    then show ?thesis by blast
  qed
  consider "http_status r = 416" | "\<not> is_success r" "http_status r \<noteq> 416" | "is_success r" "http_status r = 206"
    | "is_success r" "http_status r \<noteq> 206" "http_status r \<noteq> 416" by blast
  then show ?thesis
  proof cases
    case 1
    with srv pre show ?thesis by auto
  next
    case 2
    then show ?thesis using same nt by simp
  next
    case 3
    then have del: "0 < existing_size" "delivers (drop existing_size data) (http_chunks r)" using srv by auto
    obtain b where b: "file_at w dest = Some (Bytes b)" "length b = existing_size" "take existing_size data = b"
      using pre [OF del(1)] by blast
    show ?thesis
      using 3 del b(2,3) wp_write_chunks [of _ b data "http_chunks r" dest] b(1)
      by (auto simp: download_stream_to_file_def content_bytes_def intro!: wp_open_append nt same)
  next
    case 4
    then show ?thesis
      using srv wp_write_chunks [of _ "[]" data "http_chunks r" dest]
      by (auto simp: download_stream_to_file_def intro!: wp_create_fresh nt same)
  qed
qed

lemma wp_download_attempt:
  assumes "serves E url data" "partial_ok data dest w"
  shows "wp (download_attempt L E url dest) (fetched data dest) (\<lambda>_ w'. partial_ok data dest w') w"
proof -
  have "wp (existing_len L dest) (\<lambda>existing_size.
     wp (bindE (send L E url (HttpGet url (if 0 < existing_size then Some existing_size else None))) (\<lambda>response.
       if http_status response = 416 then returnE existing_size
       else if \<not> is_success response then throwE (CHttpStatus (http_status response))
       else let is_partial = (http_status response = 206) in
         bindE (if is_partial \<and> 0 < existing_size then open_append L dest else create_fresh dest) (\<lambda>sofar.
         download_stream_to_file dest sofar response existing_size is_partial)))
       (fetched data dest) (\<lambda>_ w'. partial_ok data dest w')) (\<lambda>_ w'. partial_ok data dest w') v"
    if v: "partial_ok data dest v" for v
  proof (rule wp_existing_len, unfold wp_bindE, rule wp_send)
    fix u r n u'
    assume "file_at u = file_at v" "faults u = faults v" "file_at u' = file_at u" "faults u' = faults u"
      and r: "http E n (HttpGet url (if 0 < (case file_at v dest of None \<Rightarrow> 0 | Some c \<Rightarrow> length (content_bytes L c))
        then Some (case file_at v dest of None \<Rightarrow> 0 | Some c \<Rightarrow> length (content_bytes L c)) else None)) = Some r"
    then have u': "partial_ok data dest u'" "file_at u' = file_at v" using v by (simp_all add: partial_ok_def no_torn_def)
    show "wp (if http_status r = 416 then returnE (case file_at v dest of None \<Rightarrow> 0 | Some c \<Rightarrow> length (content_bytes L c))
       else if \<not> is_success r then throwE (CHttpStatus (http_status r))
       else let is_partial = (http_status r = 206) in
         bindE (if is_partial \<and> 0 < (case file_at v dest of None \<Rightarrow> 0 | Some c \<Rightarrow> length (content_bytes L c))
           then open_append L dest else create_fresh dest) (\<lambda>sofar.
         download_stream_to_file dest sofar r (case file_at v dest of None \<Rightarrow> 0 | Some c \<Rightarrow> length (content_bytes L c)) is_partial))
       (fetched data dest) (\<lambda>_ w'. partial_ok data dest w') u'"
      by (rule wp_answer [OF assms(1) u'(1) _ r]) (simp add: u'(2))
  qed (use v in \<open>simp_all add: partial_ok_def no_torn_def\<close>)
  then show ?thesis
    unfolding download_attempt_def wp_bindE
    by (intro wp_mono [OF wp_check_partial [OF assms(2)]]) auto
qed

lemma wp_download_tries:
  "serves E url data \<Longrightarrow> partial_ok data dest w \<Longrightarrow>
     wp (download_tries L E url dest n k e) (fetched data dest) (\<lambda>_ _. True) w"
proof (induction n arbitrary: k e w)
  case (Suc n)
  show ?case
    by (simp, rule wp_mono [OF wp_download_attempt [OF Suc.prems]]) (auto simp: Suc.IH [OF Suc.prems(1)])
qed simp


section \<open>Properties\<close>

text \<open>
  C17: a resumed download is complete. Let the server serve \<open>data\<close> as HTTP prescribes, breaking off or
  refusing as often as it likes, let failing writes leave the file as it was, and let the file be absent
  or hold a beginning of \<open>data\<close>. If the download reports success, after whatever number of attempts, the
  file holds exactly \<open>data\<close> and the reported number is its length.
\<close>

theorem resumed_download_complete:
  assumes "serves E url data" "partial_ok data dest w"
    and "download_file_with_progress L E url dest w = (Inr n, w')"
  shows "n = length data \<and> file_at w' dest = Some (Bytes data)"
proof -
  have "wp (download_file_with_progress L E url dest) (fetched data dest) (\<lambda>_ _. True) w"
    using wp_download_tries [OF assms(1,2)] by (simp add: download_file_with_progress_def)
  then show ?thesis using assms(3) by (rule wpD(1))
qed


definition sample_resource :: "http_request \<Rightarrow> http_response option" where
  "sample_resource req = (case req of
     HttpGet u None \<Rightarrow> Some \<lparr>http_status = 200, http_length = Some 3, http_range_total = None, http_chunks = [Some [1, 2], Some [3]]\<rparr>
   | HttpGet u (Some i) \<Rightarrow> Some (if i < 3 then \<lparr>http_status = 206, http_length = Some (3 - i), http_range_total = None, http_chunks = [Some (drop i [1, 2, 3])]\<rparr>
       else \<lparr>http_status = 416, http_length = None, http_range_total = None, http_chunks = []\<rparr>)
   | HttpHead u \<Rightarrow> Some \<lparr>http_status = 200, http_length = Some 3, http_range_total = None, http_chunks = []\<rparr>
   | _ \<Rightarrow> None)"

definition sample_partial :: "content world" where
  "sample_partial = \<lparr>fs = [([''d''], Dir), ([''d'', ''f''], File (Bytes [1]))], tick = 0, faults = (\<lambda>n. if n = 0 then Fail else NoFault)\<rparr>"

abbreviation sample_download_run :: "(client_error + nat) \<times> content world" where
  "sample_download_run \<equiv>
     download_file_with_progress sample_client_libs (sample_env sample_resource) ''https://u'' [''d'', ''f''] sample_partial"

lemma sample_download_run_ok: "fst sample_download_run = Inr 3"
  by (simp add: download_file_with_progress_def MAX_RETRIES_def numeral_3_eq_3 on_error_def download_attempt_def
      check_partial_def existing_len_def verify_partial_download_def open_append_def download_stream_to_file_def
      sample_partial_def sample_resource_def sample_env_def sample_client_libs_def io_seq io_prims next_op_def
      client_run extract_http_status_def lookup_def file_at_def is_dir_def set_node_def Let_def)

theorem resumed_download_complete_witness:
  "file_at (snd sample_download_run) [''d'', ''f''] = Some (Bytes [1, 2, 3])"
proof -
  have serves: "serves (sample_env sample_resource) ''https://u'' [1, 2, 3]"
    by (auto simp: serves_def sample_env_def sample_resource_def is_success_def split: option.splits if_splits)
  have partial: "partial_ok [1, 2, 3] [''d'', ''f''] sample_partial"
    by (simp add: partial_ok_def no_torn_def sample_partial_def file_at_def lookup_def)
  have "sample_download_run = (Inr 3, snd sample_download_run)"
    unfolding sample_download_run_ok [symmetric] by (rule prod.collapse [symmetric])
  from resumed_download_complete [OF serves partial this] show ?thesis by (rule conjunct2)
qed

end
