(* ===== verification/Updater.thy ===== *)
theory Updater
  imports Downloader
begin

text \<open>
  The application of an update (\<open>crates/deltaship-client/src/patcher.rs\<close>) and the rollback to a backup
  (\<open>commands/rollback.rs\<close>). The functions of the source are split where it has its numbered steps. File
  modes are not part of the tree: setting them is an operation that may fail. The tree has no links;
  whether a path is one is an observation.
\<close>

section \<open>Settings and update information\<close>

datatype disk_check_mode = Strict | Permissive

record client_settings =
  server_url :: string
  check_interval_secs :: u64
  data_dir :: path
  disk_mode :: disk_check_mode

definition db_path :: "client_settings \<Rightarrow> path" where
  "db_path S = data_dir S @ [''client.db'']"

definition backups_dir :: "client_settings \<Rightarrow> path" where
  "backups_dir S = data_dir S @ [''backups'']"

definition downloads_dir :: "client_settings \<Rightarrow> path" where
  "downloads_dir S = data_dir S @ [''downloads'']"

record update_info =
  ui_version :: version
  ui_version_id :: string
  ui_diff_url :: "string option"
  ui_diff_checksum :: "string option"
  ui_diff_size :: "u64 option"
  ui_full_binary_url :: "string option"
  ui_full_binary_size :: "u64 option"
  ui_checksum :: string
  ui_signature_url :: "string option"
  ui_forced :: bool
  ui_release_notes :: "string option"

definition path_of :: "string \<Rightarrow> path" where
  "path_of s = path_components s"

abbreviation target :: "managed_binary \<Rightarrow> path" where
  "target mb \<equiv> path_of (install_path mb)"


section \<open>Signatures beside a file\<close>

definition sig_path_for :: "string \<Rightarrow> path" where
  "sig_path_for s = path_of (s @ ''.sig'')"

definition verify_backup_signature ::
  "client_libs \<Rightarrow> string \<Rightarrow> bytes \<Rightarrow> string \<Rightarrow> (content, client_error, unit) io" where
  "verify_backup_signature L backup key version =
     bindE (get_world (path_exists (sig_path_for backup))) (\<lambda>ex.
     if \<not> ex then throwE (CMissing ''backup signature'')
     else
       bindE (map_err CIo (read_bytes L (sig_path_for backup))) (\<lambda>sig.
       if length sig \<noteq> 64 then throwE (CBadLength ''backup signature'')
       else if length key \<noteq> 32 then throwE (CBadLength ''public key'')
       else if \<not> key_valid L key then throwE CBadKey
       else
         bindE (map_err CIo (hash_file L (path_of backup))) (\<lambda>backup_hash.
         if \<not> c_verify L key (signing_payload backup_hash version) sig then throwE CSignature
         else returnE ())))"


section \<open>Checks before an update\<close>

definition canonicalize :: "client_env \<Rightarrow> path \<Rightarrow> (content, client_error, path) io" where
  "canonicalize E p =
     bindE (observe (\<lambda>n. canonical E n p)) (\<lambda>c.
     case c of None \<Rightarrow> throwE (CIo IoFault) | Some q \<Rightarrow> returnE q)"

text \<open>The path to check: the resolved path, or the resolved parent and the name of a file to be created.\<close>

definition check_path :: "client_env \<Rightarrow> path \<Rightarrow> (content, client_error, path) io" where
  "check_path E p =
     bindE (get_world (path_exists p)) (\<lambda>ex.
     if ex then canonicalize E p
     else case parent p of
       None \<Rightarrow> returnE p
     | Some d \<Rightarrow>
         bindE (get_world (path_exists d)) (\<lambda>dex.
         if \<not> dex then returnE p
         else
           bindE (observe (\<lambda>n. symlink_at E n d)) (\<lambda>link.
           if link then throwE (CSecurity ''parent directory is a symlink'')
           else
             bindE (canonicalize E d) (\<lambda>canonical_parent.
             returnE (if last p = ''..'' then canonical_parent else canonical_parent @ [last p])))))"

definition validate_install_path :: "client_env \<Rightarrow> path \<Rightarrow> (content, client_error, unit) io" where
  "validate_install_path E p =
     bindE (observe (\<lambda>n. symlink_at E n p)) (\<lambda>link.
     if link then throwE (CSecurity ''install path is a symlink'')
     else
       bindE (check_path E p) (\<lambda>q.
       if matched_privileged_path (path_str q) \<noteq> None then throwE (CSecurity ''privileged location'')
       else
         bindE (observe (\<lambda>n. owner_at E n q)) (\<lambda>uid.
         case uid of
           Some u \<Rightarrow> if u = 0 \<and> \<not> as_root E then throwE (CSecurity ''owned by root'') else returnE ()
         | None \<Rightarrow>
             (case parent q of
                None \<Rightarrow> returnE ()
              | Some d \<Rightarrow>
                  bindE (observe (\<lambda>n. owner_at E n d)) (\<lambda>duid.
                  if duid = Some 0 \<and> \<not> as_root E then throwE (CSecurity ''parent owned by root'')
                  else returnE ())))))"

definition saturating_double :: "nat \<Rightarrow> nat" where
  "saturating_double n = min (2 * n) (2 ^ 64 - 1)"

definition check_available_memory :: "client_env \<Rightarrow> nat \<Rightarrow> (content, client_error, unit) io" where
  "check_available_memory E required_bytes =
     bindE (observe (memory_free E)) (\<lambda>available_memory.
     if unat available_memory < saturating_double required_bytes then throwE CMemory else returnE ())"

definition check_disk_space_at_path ::
  "client_env \<Rightarrow> client_settings \<Rightarrow> path \<Rightarrow> u64 \<Rightarrow> string \<Rightarrow> (content, client_error, unit) io" where
  "check_disk_space_at_path E S p required_bytes purpose =
     bindE (observe (\<lambda>n. disk_free E n p)) (\<lambda>disk.
     case disk of
       Some available_space \<Rightarrow> if available_space < required_bytes then throwE (CDisk purpose) else returnE ()
     | None \<Rightarrow> (case disk_mode S of Strict \<Rightarrow> throwE (CDisk purpose) | Permissive \<Rightarrow> returnE ()))"

definition check_disk_space ::
  "client_env \<Rightarrow> client_settings \<Rightarrow> path \<Rightarrow> path \<Rightarrow> u64 \<Rightarrow> (content, client_error, unit) io" where
  "check_disk_space E S install backup binary_size =
     bindE (check_disk_space_at_path E S install binary_size ''new binary'') (\<lambda>_.
     check_disk_space_at_path E S backup binary_size ''backup'')"

definition check_update_space ::
  "client_libs \<Rightarrow> client_env \<Rightarrow> client_settings \<Rightarrow> path \<Rightarrow> update_info \<Rightarrow> (content, client_error, unit) io" where
  "check_update_space L E S install u =
     (let check_diff = (case ui_diff_size u of
          Some n \<Rightarrow> check_disk_space_at_path E S (downloads_dir S) n ''diff file'' | None \<Rightarrow> returnE ()) in
      case ui_full_binary_size u of
        Some binary_size \<Rightarrow> bindE (check_disk_space E S install (backups_dir S) binary_size) (\<lambda>_. check_diff)
      | None \<Rightarrow>
          bindE (get_world (path_exists install)) (\<lambda>ex.
          if \<not> ex then returnE ()
          else
            bindE (map_err CIo (file_len L install)) (\<lambda>current_size.
            bindE (check_disk_space E S install (backups_dir S) (of_nat current_size)) (\<lambda>_. check_diff))))"


section \<open>The new binary\<close>

text \<open>An error carries the metrics recorded so far: the caller keeps them and falls back.\<close>

definition failing :: "update_metrics \<Rightarrow> ('c, client_error, 'a) io \<Rightarrow> ('c, client_error \<times> update_metrics, 'a) io" where
  "failing m = map_err (\<lambda>e. (e, m))"

definition parse_hash :: "string \<Rightarrow> client_error + bytes" where
  "parse_hash s = (case from_hex s of Inl _ \<Rightarrow> Inl CBadHash | Inr h \<Rightarrow> Inr h)"

definition required :: "string \<Rightarrow> 'a option \<Rightarrow> client_error + 'a" where
  "required what v = (case v of None \<Rightarrow> Inl (CMissing what) | Some x \<Rightarrow> Inr x)"

definition ZSTD_MAGIC :: bytes where
  "ZSTD_MAGIC = [0x28, 0xB5, 0x2F, 0xFD]"

definition artifact_path :: "client_settings \<Rightarrow> managed_binary \<Rightarrow> update_info \<Rightarrow> string \<Rightarrow> path" where
  "artifact_path S mb u ext = path_join (downloads_dir S) (mb_name mb @ ''_'' @ ui_version_id u @ ext)"

definition diff_metrics :: "update_info \<Rightarrow> nat \<Rightarrow> update_metrics \<Rightarrow> update_metrics" where
  "diff_metrics u diff_file_size m =
     (let m' = m\<lparr>um_diff_size_bytes := Some (int diff_file_size), um_downloaded_bytes := Some (int diff_file_size)\<rparr> in
      case ui_full_binary_size u of
        Some full_size \<Rightarrow> m'\<lparr>um_full_size_bytes := Some (sint full_size)\<rparr> | None \<Rightarrow> m')"

text \<open>The verified diff is read with the binary it applies to, removed, decompressed and applied.\<close>

definition patch_binary :: "client_libs \<Rightarrow> path \<Rightarrow> path \<Rightarrow> (content, client_error, bytes) io" where
  "patch_binary L install diff_path =
     bindE (map_err CIo (read_bytes L install)) (\<lambda>current_binary.
     bindE (map_err CIo (read_bytes L diff_path)) (\<lambda>diff_raw.
     bindE (attempt (remove_file diff_path)) (\<lambda>_.
     bindE (map_err CPatch (from_sum
       (if take 4 diff_raw = ZSTD_MAGIC then decompress_diff (zstd L) diff_raw else Inr diff_raw))) (\<lambda>diff_data.
     map_err CPatch (from_sum (apply_patch current_binary diff_data))))))"

definition apply_diff_update ::
  "client_libs \<Rightarrow> client_env \<Rightarrow> client_settings \<Rightarrow> managed_binary \<Rightarrow> update_info \<Rightarrow> update_metrics
   \<Rightarrow> (content, client_error \<times> update_metrics, bytes \<times> update_metrics) io" where
  "apply_diff_update L E S mb u m =
     bindE (failing m (from_sum (required ''diff URL'' (ui_diff_url u)))) (\<lambda>url.
     bindE (observe (elapsed E)) (\<lambda>t0.
     let diff_path = artifact_path S mb u ''.diff'' in
     bindE (failing m (download_file_with_progress L E url diff_path)) (\<lambda>_.
     bindE (observe (elapsed E)) (\<lambda>t1.
     let m1 = m\<lparr>um_download_time_ms := Some (t1 - t0), um_diff_id := Some (ui_version_id u),
                um_diff_algorithm := Some ''bsdiff''\<rparr> in
     bindE (failing m1 (map_err CIo (file_len L diff_path))) (\<lambda>diff_file_size.
     let m2 = diff_metrics u diff_file_size m1 in
     bindE (failing m2 (from_sum (required ''diff checksum'' (ui_diff_checksum u)))) (\<lambda>checksum.
     bindE (failing m2 (from_sum (parse_hash checksum))) (\<lambda>expected_hash.
     bindE (failing m2 (map_err CIo (hash_file L diff_path))) (\<lambda>actual_hash.
     if expected_hash \<noteq> actual_hash
     then bindE (attempt (remove_file diff_path)) (\<lambda>_. throwE (CChecksumMismatch, m2))
     else
       bindE (failing m2 (patch_binary L (target mb) diff_path)) (\<lambda>new_binary.
       returnE (new_binary, m2))))))))))"

definition download_full_binary ::
  "client_libs \<Rightarrow> client_env \<Rightarrow> client_settings \<Rightarrow> managed_binary \<Rightarrow> update_info \<Rightarrow> update_metrics
   \<Rightarrow> (content, client_error, path \<times> update_metrics) io" where
  "download_full_binary L E S mb u m =
     bindE (from_sum (required ''full binary URL'' (ui_full_binary_url u))) (\<lambda>url.
     bindE (observe (elapsed E)) (\<lambda>t0.
     let download_path = artifact_path S mb u ''.tmp'' in
     bindE (download_file_with_progress L E url download_path) (\<lambda>_.
     bindE (observe (elapsed E)) (\<lambda>t1.
     bindE (map_err CIo (file_len L download_path)) (\<lambda>file_size.
     returnE (download_path, m\<lparr>um_download_time_ms := Some (t1 - t0), um_full_size_bytes := Some (int file_size),
                um_downloaded_bytes := Some (int file_size)\<rparr>))))))"

datatype binary_source = InMemory bytes | OnDisk path

definition verify_checksum :: "client_libs \<Rightarrow> binary_source \<Rightarrow> bytes \<Rightarrow> (content, client_error, unit) io" where
  "verify_checksum L src expected =
     bindE (case src of InMemory b \<Rightarrow> returnE (c_blake3 L b) | OnDisk p \<Rightarrow> map_err CIo (hash_file L p)) (\<lambda>actual.
     if expected \<noteq> actual then throwE CChecksumMismatch else returnE ())"

definition MAX_SIGNATURE_SIZE :: nat where
  "MAX_SIGNATURE_SIZE = 500 * 1024 * 1024"

definition read_for_verification :: "client_libs \<Rightarrow> client_env \<Rightarrow> binary_source \<Rightarrow> (content, client_error, bytes) io" where
  "read_for_verification L E src =
     (case src of
        InMemory b \<Rightarrow> returnE b
      | OnDisk p \<Rightarrow>
          bindE (map_err CIo (file_len L p)) (\<lambda>file_size.
          if MAX_SIGNATURE_SIZE < file_size then throwE CTooLarge
          else
            bindE (check_available_memory E file_size) (\<lambda>_.
            map_err CIo (read_bytes L p))))"

definition write_to :: "binary_source \<Rightarrow> path \<Rightarrow> (content, io_error, unit) io" where
  "write_to src dest = (case src of InMemory b \<Rightarrow> write_file dest (Bytes b) | OnDisk p \<Rightarrow> copy_file p dest)"

definition cleanup_source :: "binary_source \<Rightarrow> (content, client_error, unit) io" where
  "cleanup_source src =
     (case src of InMemory b \<Rightarrow> returnE ()
      | OnDisk p \<Rightarrow> bindE (attempt (remove_file p)) (\<lambda>_. returnE ()))"

text \<open>A diff is tried first; whatever goes wrong with it, the full binary is downloaded instead.\<close>

definition fetch_source ::
  "client_libs \<Rightarrow> client_env \<Rightarrow> client_settings \<Rightarrow> managed_binary \<Rightarrow> update_info \<Rightarrow> update_metrics
   \<Rightarrow> (content, client_error, binary_source \<times> update_metrics) io" where
  "fetch_source L E S mb u m =
     (let full = (\<lambda>m. bindE (download_full_binary L E S mb u m) (\<lambda>(p, m'). returnE (OnDisk p, m'))) in
      bindE (get_world (path_exists (target mb))) (\<lambda>ex.
      if ui_diff_url u \<noteq> None \<and> ex
      then
        bindE (outcome (apply_diff_update L E S mb u m)) (\<lambda>r.
        case r of
          Inr (b, m') \<Rightarrow> returnE (InMemory b, m')
        | Inl (e, m') \<Rightarrow> full m')
      else full m))"


section \<open>Verification and installation\<close>

definition checked_source :: "client_libs \<Rightarrow> binary_source \<Rightarrow> bytes \<Rightarrow> (content, client_error, unit) io" where
  "checked_source L src expected =
     bindE (outcome (verify_checksum L src expected)) (\<lambda>r.
     case r of Inl e \<Rightarrow> bindE (cleanup_source src) (\<lambda>_. throwE e) | Inr _ \<Rightarrow> returnE ())"

text \<open>The signature over the bytes and the version to be installed, with the key of the managed binary.\<close>

definition verify_signature ::
  "client_libs \<Rightarrow> client_env \<Rightarrow> managed_binary \<Rightarrow> update_info \<Rightarrow> binary_source \<Rightarrow> (content, client_error, bytes) io" where
  "verify_signature L E mb u src =
     bindE (from_sum (required ''signature URL'' (ui_signature_url u))) (\<lambda>sig_url.
     bindE (download_bytes L E sig_url) (\<lambda>sig.
     if length sig \<noteq> 64 then throwE (CBadLength ''signature'')
     else if length (publisher_public_key mb) \<noteq> 32 then throwE (CBadLength ''public key'')
     else if \<not> key_valid L (publisher_public_key mb) then throwE CBadKey
     else
       bindE (read_for_verification L E src) (\<lambda>binary_data.
       if \<not> c_verify L (publisher_public_key mb) (signing_payload (c_blake3 L binary_data) (c_show L (ui_version u))) sig
       then bindE (cleanup_source src) (\<lambda>_. throwE CSignature)
       else returnE sig)))"

text \<open>\<open>metadata\<close> and \<open>set_permissions\<close>.\<close>

definition set_permissions :: "(content, client_error, unit) io" where
  "set_permissions = bindE (map_err CIo io_point) (\<lambda>_. map_err CIo io_point)"

definition stat_dir :: "client_env \<Rightarrow> path \<Rightarrow> (content, client_error, nat \<times> nat) io" where
  "stat_dir E d =
     bindE (observe (\<lambda>n. dir_identity E n d)) (\<lambda>i.
     case i of None \<Rightarrow> throwE (CIo IoFault) | Some x \<Rightarrow> returnE x)"

definition persist :: "path \<Rightarrow> path \<Rightarrow> (content, client_error, unit) io" where
  "persist temp dest =
     bindE (outcome (rename temp dest)) (\<lambda>r.
     case r of
       Inr _ \<Rightarrow> returnE ()
     | Inl e \<Rightarrow> bindE (attempt (remove_file temp)) (\<lambda>_. throwE (CIo e)))"

text \<open>The binary is written to a temporary file in the directory of the install path, which is checked again,
  and renamed.\<close>

definition install_source :: "client_env \<Rightarrow> path \<Rightarrow> binary_source \<Rightarrow> (content, client_error, unit) io" where
  "install_source E install src =
     bindE (from_sum (required ''parent directory'' (parent install))) (\<lambda>parent_dir.
     bindE (map_err CIo (create_dir_all parent_dir)) (\<lambda>_.
     with_temp E parent_dir (\<lambda>temp_path.
       bindE (stat_dir E parent_dir) (\<lambda>parent_dir_identity.
       bindE set_permissions (\<lambda>_.
       bindE (map_err CIo (write_to src temp_path)) (\<lambda>_.
       bindE (cleanup_source src) (\<lambda>_.
       bindE set_permissions (\<lambda>_.
       bindE (validate_install_path E install) (\<lambda>_.
       bindE (stat_dir E parent_dir) (\<lambda>meta.
       if meta \<noteq> parent_dir_identity then throwE (CSecurity ''parent directory was replaced'')
       else persist temp_path install))))))))))"

definition check_installed :: "client_libs \<Rightarrow> path \<Rightarrow> bytes \<Rightarrow> (content, client_error, unit) io" where
  "check_installed L install expected_final_hash =
     bindE (map_err CIo (hash_file L install)) (\<lambda>installed_hash.
     if expected_final_hash \<noteq> installed_hash then throwE CChecksumMismatch else returnE ())"

definition store_signature :: "client_env \<Rightarrow> path \<Rightarrow> bytes \<Rightarrow> (content, client_error, unit) io" where
  "store_signature E sig_path sig =
     bindE (from_sum (required ''parent directory'' (parent sig_path))) (\<lambda>sig_parent.
     with_temp E sig_parent (\<lambda>temp.
       bindE (map_err CIo (write_file temp (Bytes sig))) (\<lambda>_.
       map_err CIo (rename temp sig_path))))"

text \<open>The verified binary is installed, read back, and its signature stored beside it. The result is the time
  the installation took.\<close>

definition install_verified ::
  "client_libs \<Rightarrow> client_env \<Rightarrow> managed_binary \<Rightarrow> bytes \<Rightarrow> binary_source \<Rightarrow> bytes \<Rightarrow> (content, client_error, int) io" where
  "install_verified L E mb expected_final_hash src sig =
     bindE (observe (elapsed E)) (\<lambda>apply_start.
     bindE (install_source E (target mb) src) (\<lambda>_.
     bindE (observe (elapsed E)) (\<lambda>apply_end.
     bindE (check_installed L (target mb) expected_final_hash) (\<lambda>_.
     bindE (store_signature E (sig_path_for (install_path mb)) sig) (\<lambda>_.
     returnE (apply_end - apply_start))))))"

definition verify_and_install ::
  "client_libs \<Rightarrow> client_env \<Rightarrow> managed_binary \<Rightarrow> update_info \<Rightarrow> bytes \<Rightarrow> binary_source \<Rightarrow> (content, client_error, int \<times> int) io" where
  "verify_and_install L E mb u expected_final_hash src =
     bindE (checked_source L src expected_final_hash) (\<lambda>_.
     bindE (observe (elapsed E)) (\<lambda>verify_start.
     bindE (verify_signature L E mb u src) (\<lambda>sig.
     bindE (observe (elapsed E)) (\<lambda>verify_end.
     bindE (install_verified L E mb expected_final_hash src sig) (\<lambda>apply_time.
     returnE (verify_end - verify_start, apply_time))))))"

definition execute_update ::
  "client_libs \<Rightarrow> client_env \<Rightarrow> client_settings \<Rightarrow> managed_binary \<Rightarrow> update_info \<Rightarrow> (content, client_error, update_metrics) io" where
  "execute_update L E S mb u =
     bindE (map_err CIo (create_dir_all (downloads_dir S))) (\<lambda>_.
     bindE (from_sum (parse_hash (ui_checksum u))) (\<lambda>expected_final_hash.
     bindE (fetch_source L E S mb u no_metrics) (\<lambda>(src, metrics).
     bindE (verify_and_install L E mb u expected_final_hash src) (\<lambda>(verify_time, apply_time).
     returnE (metrics\<lparr>um_verify_time_ms := Some verify_time, um_apply_time_ms := Some apply_time\<rparr>)))))"


section \<open>The whole update\<close>

definition backup_path_for :: "client_settings \<Rightarrow> managed_binary \<Rightarrow> path" where
  "backup_path_for S mb = path_join (backups_dir S)
     (mb_name mb @ ''_'' @ (case current_version_string mb of Some v \<Rightarrow> v | None \<Rightarrow> ''unknown'') @ ''.backup'')"

text \<open>A file and the signature beside it, which may be absent.\<close>

definition copy_with_signature :: "path \<Rightarrow> path \<Rightarrow> path \<Rightarrow> path \<Rightarrow> (content, client_error, unit) io" where
  "copy_with_signature src dst src_sig dst_sig =
     bindE (map_err CIo (copy_file src dst)) (\<lambda>_.
     bindE (get_world (path_exists src_sig)) (\<lambda>ex.
     if ex then map_err CIo (copy_file src_sig dst_sig) else returnE ()))"

definition back_up :: "client_settings \<Rightarrow> managed_binary \<Rightarrow> (content, client_error, path option) io" where
  "back_up S mb =
     bindE (map_err CIo (create_dir_all (backups_dir S))) (\<lambda>_.
     bindE (get_world (path_exists (target mb))) (\<lambda>ex.
     if \<not> ex then returnE None
     else
       let backup = backup_path_for S mb in
       bindE (copy_with_signature (target mb) backup (sig_path_for (install_path mb)) (sig_path_for (path_str backup))) (\<lambda>_.
       returnE (Some backup))))"

text \<open>The backup is recorded if the version it holds is known.\<close>

definition record_backup ::
  "client_libs \<Rightarrow> client_env \<Rightarrow> client_settings \<Rightarrow> managed_binary \<Rightarrow> path option \<Rightarrow> (content, client_error, unit) io" where
  "record_backup L E S mb backup =
     (case (backup, current_version_id mb, current_version_string mb) of
        (Some p, Some prev_id, Some prev_str) \<Rightarrow>
          bindE (get_world (path_exists p)) (\<lambda>ex.
          if \<not> ex then returnE ()
          else
            bindE (map_err CIo (hash_file L p)) (\<lambda>backup_hash.
            bindE (map_err CIo (file_len L p)) (\<lambda>backup_size.
            bindE (db_timed E (db_path S) (\<lambda>now. create_backup (c_parse L) now (mb_id mb) prev_id prev_str
              (path_str p) backup_hash (int backup_size) None)) (\<lambda>_.
            returnE ()))))
      | _ \<Rightarrow> returnE ())"

definition finish_update ::
  "client_libs \<Rightarrow> client_env \<Rightarrow> client_settings \<Rightarrow> managed_binary \<Rightarrow> update_info \<Rightarrow> nat \<Rightarrow> path option \<Rightarrow> update_metrics
   \<Rightarrow> (content, client_error, unit) io" where
  "finish_update L E S mb u update_id backup metrics =
     bindE (db_timed E (db_path S) (\<lambda>now. record_update_complete now update_id True None metrics)) (\<lambda>_.
     bindE (map_err CIo (file_len L (target mb))) (\<lambda>installed_size.
     bindE (from_sum (case blake3_from_hex L (ui_checksum u) of None \<Rightarrow> Inl CBadHash | Some h \<Rightarrow> Inr h)) (\<lambda>blake3_bytes.
     bindE (map_err CIo (read_bytes L (target mb))) (\<lambda>b.
     bindE (db_timed E (db_path S) (\<lambda>now. record_installed_version (c_parse L) now (mb_id mb) (ui_version_id u)
       (c_show L (ui_version u)) blake3_bytes (c_sha256 L b) (int installed_size))) (\<lambda>_.
     bindE (db_timed E (db_path S) (\<lambda>now. update_current_version now (mb_id mb) (ui_version_id u) (c_show L (ui_version u)))) (\<lambda>_.
     record_backup L E S mb backup))))))"

definition abandon_update ::
  "client_env \<Rightarrow> client_settings \<Rightarrow> managed_binary \<Rightarrow> nat \<Rightarrow> path option \<Rightarrow> client_error \<Rightarrow> (content, client_error, unit) io" where
  "abandon_update E S mb update_id backup e =
     bindE (case backup of
         None \<Rightarrow> returnE None
       | Some p \<Rightarrow>
           bindE (get_world (path_exists p)) (\<lambda>ex.
           if \<not> ex then returnE None
           else
             bindE (outcome (copy_file p (target mb))) (\<lambda>r.
             returnE (case r of Inl re \<Rightarrow> Some re | Inr _ \<Rightarrow> None)))) (\<lambda>restore_error.
     bindE (db_timed E (db_path S) (\<lambda>now. record_update_complete now update_id False (Some (error_text E e)) no_metrics)) (\<lambda>_.
     case restore_error of
       Some re \<Rightarrow> throwE (CRestoreFailed e re)
     | None \<Rightarrow> throwE e))"

definition apply_update ::
  "client_libs \<Rightarrow> client_env \<Rightarrow> client_settings \<Rightarrow> managed_binary \<Rightarrow> update_info \<Rightarrow> (content, client_error, unit) io" where
  "apply_update L E S mb u =
     bindE (validate_install_path E (target mb)) (\<lambda>_.
     bindE (check_update_space L E S (target mb) u) (\<lambda>_.
     bindE (db_timed E (db_path S) (\<lambda>now. record_update_start now
       \<lparr>nu_binary_id = mb_id mb, nu_from_version_id = current_version_id mb, nu_from_version_string = current_version_string mb,
        nu_to_version_id = ui_version_id u, nu_to_version_string = c_show L (ui_version u)\<rparr>)) (\<lambda>update_id.
     bindE (back_up S mb) (\<lambda>backup.
     bindE (outcome (execute_update L E S mb u)) (\<lambda>result.
     case result of
       Inr metrics \<Rightarrow> finish_update L E S mb u update_id backup metrics
     | Inl e \<Rightarrow> abandon_update E S mb update_id backup e)))))"


section \<open>Paths\<close>

lemma split_char_join: "d \<notin> set a \<Longrightarrow> split_char d (a @ d # s) = a # split_char d s"
  by (induction a) auto

lemma split_path_str:
  "(\<And>c. c \<in> set p \<Longrightarrow> CHR ''/'' \<notin> set c) \<Longrightarrow> split_char (CHR ''/'') (path_str p) = [] # p"
proof (induction p)
  case (Cons a p)
  then have "split_char (CHR ''/'') (path_str p) = [] # p" by simp
  moreover have "split_char (CHR ''/'') (a @ path_str p) = a # tl (split_char (CHR ''/'') (path_str p))"
  proof (cases p)
    case Nil
    with Cons.prems show ?thesis by (simp add: path_str_def split_char_absent)
  next
    case (Cons b q)
    with Cons.prems Cons.IH show ?thesis by (simp add: path_str_def split_char_join)
  qed
  ultimately show ?case by (simp add: path_str_def)
qed (simp add: path_str_def)

lemma path_of_str: "(\<And>c. c \<in> set p \<Longrightarrow> plain_component c) \<Longrightarrow> path_of (path_str p) = p"
  by (simp add: path_of_def path_components_def split_path_str plain_component_def filter_id_conv)

lemma path_of_plain: "c \<in> set (path_of s) \<Longrightarrow> plain_component c"
  by (auto simp: path_of_def path_components_def plain_component_def dest: split_char_pieces)

lemma sig_path_snoc:
  assumes "\<And>c. c \<in> set p \<Longrightarrow> plain_component c" "plain_component f"
  shows "sig_path_for (path_str (p @ [f])) = p @ [f @ ''.sig'']"
proof -
  have "path_str (p @ [f]) @ ''.sig'' = path_str (p @ [f @ ''.sig''])" by (simp add: path_str_def)
  moreover have "plain_component (f @ ''.sig'')" using assms(2) by (auto simp: plain_component_def)
  ultimately show ?thesis
    unfolding sig_path_for_def using assms(1) by (simp only:) (rule path_of_str, auto)
qed

text \<open>Where a managed binary is: a canonical path outside the data directory of the client, which is not
  named like a temporary file; its name and version are of the validated form.\<close>

definition placed :: "client_settings \<Rightarrow> managed_binary \<Rightarrow> bool" where
  "placed S mb \<longleftrightarrow> target mb \<noteq> [] \<and> install_path mb = path_str (target mb) \<and> \<not> in_dir (data_dir S) (target mb) \<and>
     \<not> in_dir (data_dir S) (sig_path_for (install_path mb)) \<and> \<not> starts_with (last (target mb)) ''.tmp'' \<and>
     validate_binary_name (mb_name mb) = Inr () \<and> (\<forall>c \<in> set (data_dir S). plain_component c) \<and>
     (\<forall>v. current_version_string mb = Some v \<longrightarrow> CHR ''/'' \<notin> set v)"

abbreviation sidecar :: "managed_binary \<Rightarrow> path" where
  "sidecar mb \<equiv> sig_path_for (install_path mb)"

lemma placed_split:
  assumes "placed S mb"
  obtains d f where "target mb = d @ [f]" "sidecar mb = d @ [f @ ''.sig'']" "\<not> starts_with f ''.tmp''"
proof -
  obtain d f where t: "target mb = d @ [f]"
    using assms by (cases "target mb" rule: rev_cases) (simp_all add: placed_def)
  then have "sidecar mb = d @ [f @ ''.sig'']"
    using sig_path_snoc [of d f] path_of_plain [of _ "install_path mb"] assms by (simp add: placed_def)
  moreover have "\<not> starts_with f ''.tmp''" using t assms by (auto simp: placed_def)
  ultimately show ?thesis using t that by blast
qed

lemma sidecar_distinct: "placed S mb \<Longrightarrow> sidecar mb \<noteq> target mb"
  by (elim placed_split) simp

lemma in_dir_snoc: "in_dir d p \<Longrightarrow> in_dir d (p @ q)"
  unfolding in_dir_def by (metis append_eq_conv_conj append_take_drop_id append.assoc)

lemma placed_parent:
  assumes "placed S mb"
  shows "\<not> in_dir (data_dir S) (butlast (target mb))"
proof -
  obtain d f where "target mb = d @ [f]" using assms by (rule placed_split)
  then show ?thesis using assms in_dir_snoc [of "data_dir S" d "[f]"] by (auto simp: placed_def)
qed

lemma placed_temp: "placed S mb \<Longrightarrow> butlast (target mb) @ [''.tmp'' @ s] \<noteq> target mb"
  by (elim placed_split) (auto simp: starts_with_def)

lemma plain_artifact:
  assumes "placed S mb" "validate_version_format (ui_version_id u) = Inr ()" "CHR ''/'' \<notin> set ext"
  shows "artifact_path S mb u ext = downloads_dir S @ [mb_name mb @ ''_'' @ ui_version_id u @ ext]"
  using artifact_component [OF _ assms(2,3), of "mb_name mb"] assms(1)
  by (simp add: artifact_path_def placed_def)

lemma plain_backup:
  assumes "placed S mb"
  shows "\<exists>f. backup_path_for S mb = backups_dir S @ [f] \<and> plain_component f"
proof -
  have n: "CHR ''/'' \<notin> set (mb_name mb)" "mb_name mb \<noteq> []"
    using assms valid_name_plain by (auto simp: placed_def)
  have "plain_component (mb_name mb @ ''_'' @ (case current_version_string mb of Some v \<Rightarrow> v | None \<Rightarrow> ''unknown'') @ ''.backup'')"
    using n assms by (auto simp: plain_component_def placed_def append_eq_Cons_conv split: option.splits)
  then show ?thesis by (auto simp: backup_path_for_def)
qed

end
