(* ===== verification/Update_Sample.thy ===== *)
theory Update_Sample
  imports Updater
begin

text \<open>
  A managed binary, a server and a world at which the properties of updates are instantiated: an update
  that succeeds, and one without a network.
\<close>

section \<open>The sample\<close>


definition sample_key :: bytes where
  "sample_key = replicate 32 5"

definition sample_new :: bytes where
  "sample_new = [7, 8]"

definition sample_sig :: bytes where
  "sample_sig = sample_key @ take 32 (rev (signing_payload (c_blake3 sample_client_libs sample_new) ''2.0.0''))"

definition sample_managed :: managed_binary where
  "sample_managed = \<lparr>mb_id = ''id'', mb_name = ''app'', mb_platform = ''linux-x86_64'', install_path = ''/o/app'',
     current_version_id = None, current_version_string = None, publisher_public_key = sample_key, auto_update = True,
     last_check_at = None, last_update_at = None, mb_created_at = ''t'', mb_updated_at = ''t''\<rparr>"

definition sample_settings :: client_settings where
  "sample_settings = \<lparr>server_url = ''https://u'', check_interval_secs = 3600, data_dir = [''d''], disk_mode = Strict\<rparr>"

definition sample_update :: update_info where
  "sample_update = \<lparr>ui_version = version_new 2 0 0, ui_version_id = ''2.0.0'', ui_diff_url = None, ui_diff_checksum = None,
     ui_diff_size = None, ui_full_binary_url = Some ''b'', ui_full_binary_size = None,
     ui_checksum = to_hex (c_blake3 sample_client_libs sample_new), ui_signature_url = Some ''s'', ui_forced = False, ui_release_notes = None\<rparr>"

definition sample_db :: client_db where
  "sample_db = (initial_db ''t'')\<lparr>managed_binaries := [sample_managed]\<rparr>"

definition sample_client_world :: "content world" where
  "sample_client_world = \<lparr>fs = [([''d''], Dir), ([''d'', ''client.db''], File (Database sample_db)), ([''o''], Dir),
     ([''o'', ''app''], File (Bytes [1]))], tick = 0, faults = (\<lambda>_. NoFault)\<rparr>"

definition sample_server :: "http_request \<Rightarrow> http_response option" where
  "sample_server req = (case req of
     HttpGet u None \<Rightarrow> Some \<lparr>http_status = 200, http_length = None, http_range_total = None, http_chunks = [Some (if u = ''b'' then sample_new else sample_sig)]\<rparr>
   | HttpCheck u p v \<Rightarrow> Some \<lparr>http_status = 200, http_length = None, http_range_total = None, http_chunks = [Some [1]]\<rparr>
   | _ \<Rightarrow> None)"

lemma sample_target: "target sample_managed = [''o'', ''app'']" "sidecar sample_managed = [''o'', ''app.sig'']"
  by (simp_all add: sample_managed_def path_of_def sig_path_for_def path_components_def)

lemma sample_placed: "placed sample_settings sample_managed"
  unfolding placed_def sample_target
  by (auto simp: sample_settings_def sample_managed_def path_str_def in_dir_def starts_with_def validate_binary_name_def ascii_defs plain_component_def)

lemma sample_checksum: "from_hex (to_hex (c_blake3 sample_client_libs sample_new)) = Inr (c_blake3 sample_client_libs sample_new)"
  by (simp add: from_hex_def length_to_hex hex_chunks_to_hex sample_client_libs_def)


lemma not_privileged: "matched_privileged_path ''/o/app'' = None"
  by code_simp

lemma sample_validate:
  "map_of xs [''o'', ''app''] \<noteq> None \<Longrightarrow>
   validate_install_path (sample_env srv) [''o'', ''app''] (quiet_world xs n) = (Inr (), quiet_world xs (n + 3))"
  by (simp add: validate_install_path_def check_path_def canonicalize_def path_exists_def run_steps sample_env_def
     path_str_def not_privileged)


lemmas run_client = db_timed_def db_run_def file_len_def copy_file_def read_bytes_def hash_file_def
  content_bytes_def create_temp_def with_temp_def send_def is_success_def require_https_for_def
  is_loopback_host_def trim_start_char_def trim_end_char_def path_exists_def parent_def

lemmas run_db = record_update_start_def insert_history_def record_update_complete_def update_row_def record_installed_version_def
  check_db_def validate_hash_size_def insert_installed_def update_current_version_def bind_db_def clear_current_def update_binary_def mark_current_def
  BLAKE3_HASH_SIZE_def SHA256_HASH_SIZE_def

lemma sample_norm: "normalize_version_string sample_parse ''2.0.0'' = Inr ''2.0.0''"
  by code_simp

lemma sample_show20: "sample_show (version_new 2 0 0) = ''2.0.0''"
  by code_simp

definition sample_hash :: bytes where
  "sample_hash = [7, 8] @ replicate 30 0"

lemma sample_hash: "c_blake3 sample_client_libs sample_new = sample_hash" "take 32 ([7, 8] @ replicate 32 0) = sample_hash"
   "length sample_hash = 32"
  by (simp_all add: sample_hash_def sample_client_libs_def sample_new_def)

lemma sample_hex: "from_hex (to_hex sample_hash) = Inr sample_hash"
  using sample_checksum by (simp add: sample_hash)

lemma sample_sig: "length sample_sig = 64" "take 32 sample_sig = sample_key" "length sample_key = 32"
   "drop 32 sample_sig = take 32 (rev (signing_payload sample_hash ''2.0.0''))"
  by (simp_all add: sample_sig_def sample_key_def sample_hash signing_payload_def SIGNING_DOMAIN_TAG_def)


lemma sample_fields:
  "mb_id sample_managed = ''id''" "mb_name sample_managed = ''app''" "install_path sample_managed = ''/o/app''"
  "current_version_id sample_managed = None" "current_version_string sample_managed = None" "publisher_public_key sample_managed = sample_key"
  "data_dir sample_settings = [''d'']" "disk_mode sample_settings = Strict"
  "db_path sample_settings = [''d'', ''client.db'']" "backups_dir sample_settings = [''d'', ''backups'']" "downloads_dir sample_settings = [''d'', ''downloads'']"
  "ui_version sample_update = version_new 2 0 0" "ui_version_id sample_update = ''2.0.0''" "ui_diff_url sample_update = None" "ui_diff_size sample_update = None"
  "ui_full_binary_url sample_update = Some ''b''" "ui_full_binary_size sample_update = None" "ui_checksum sample_update = to_hex sample_hash"
  "ui_signature_url sample_update = Some ''s''"
  by (simp_all add: sample_managed_def sample_settings_def sample_update_def db_path_def backups_dir_def downloads_dir_def sample_hash)

lemma sample_env_fields:
  "http (sample_env srv) n req = srv req" "disk_free (sample_env srv) n p = Some 1000000" "memory_free (sample_env srv) n = 1000000"
  "temp_suffix (sample_env srv) n = ''x''" "clock (sample_env srv) n = ''2025-01-01 00:00:00''" "elapsed (sample_env srv) n = 0"
  "dir_identity (sample_env srv) n p = Some (1, 2)" "error_text (sample_env srv) e = ''error''"
  by (simp_all add: sample_env_def)

lemma sample_lib_fields:
  "c_blake3 sample_client_libs b = take 32 (b @ replicate 32 0)" "c_sha256 sample_client_libs b = take 32 (rev b @ replicate 32 0)"
  "blake3_from_hex sample_client_libs s = (case from_hex s of Inr h \<Rightarrow> Some h | Inl _ \<Rightarrow> None)" "key_valid sample_client_libs k"
  "c_verify sample_client_libs k m sig \<longleftrightarrow> take 32 sig = k \<and> drop 32 sig = take 32 (rev m)" "c_parse sample_client_libs = sample_parse"
  "c_show sample_client_libs = sample_show" "parse_url sample_client_libs u = Some (''https'', Some ''updates'')" "parse_ip sample_client_libs s = None"
  by (simp_all add: sample_client_libs_def)

lemma sample_paths: "path_of ''/o/app'' = [''o'', ''app'']" "sig_path_for ''/o/app'' = [''o'', ''app.sig'']"
  by (simp_all add: path_of_def sig_path_for_def path_components_def)

lemmas sample_run_simps = sample_paths run_steps run_client run_files run_db sample_fields sample_env_fields sample_target sample_validate sample_show20 sample_norm sample_hex


abbreviation sample_files :: "client_db \<Rightarrow> bytes \<Rightarrow> (path \<times> content node) list" where
  "sample_files db b \<equiv> [([''d''], Dir), ([''d'', ''client.db''], File (Database db)), ([''o''], Dir), ([''o'', ''app''], File (Bytes b)),
     ([''d'', ''backups''], Dir), ([''d'', ''backups'', ''app_unknown.backup''], File (Bytes [1]))]"

lemma sample_fetch:
  "download_file_with_progress sample_client_libs (sample_env sample_server) ''b'' [''d'', ''downloads'', f]
     (quiet_world (sample_files db [1] @ [([''d'', ''downloads''], Dir)]) n)
   = (Inr 2, quiet_world (sample_files db [1] @ [([''d'', ''downloads''], Dir), ([''d'', ''downloads'', f], File (Bytes [7, 8]))]) (n + 5))"
  by (simp add: download_file_with_progress_def MAX_RETRIES_def numeral_3_eq_3 download_attempt_def
      check_partial_def existing_len_def download_stream_to_file_def create_fresh_def sample_server_def sample_new_def
      sample_run_simps sample_lib_fields)

lemma sample_blake3: "c_blake3 sample_client_libs [7, 8] = sample_hash"
  using sample_hash(1) by (simp add: sample_new_def)

lemma sample_signature: "download_bytes sample_client_libs (sample_env sample_server) ''s'' (quiet_world xs n) = (Inr sample_sig, quiet_world xs (Suc n))"
  by (simp add: download_bytes_def sample_server_def sample_run_simps sample_lib_fields)

lemma sample_install:
  "\<exists>ys n'. verify_and_install sample_client_libs (sample_env sample_server) sample_managed sample_update sample_hash
     (OnDisk [''d'', ''downloads'', ''app_2.0.0.tmp''])
     (quiet_world (sample_files db [1] @ [([''d'', ''downloads''], Dir), ([''d'', ''downloads'', ''app_2.0.0.tmp''], File (Bytes [7, 8]))]) n)
   = (Inr (0, 0), quiet_world (sample_files db [7, 8] @ ys) n')"
  by (simp add: verify_and_install_def checked_source_def verify_checksum_def verify_signature_def required_def
      read_for_verification_def check_available_memory_def saturating_double_def MAX_SIGNATURE_SIZE_def
      install_verified_def install_source_def stat_dir_def set_permissions_def write_to_def cleanup_source_def persist_def
      check_installed_def store_signature_def
      sample_blake3 sample_signature sample_sig sample_lib_fields(4,5,7) sample_run_simps del_def)

lemma sample_execute:
  "\<exists>m ys n'. execute_update sample_client_libs (sample_env sample_server) sample_settings sample_managed sample_update
     (quiet_world (sample_files db [1]) n) = (Inr m, quiet_world (sample_files db [7, 8] @ ys) n')"
proof -
  obtain ys n' where "verify_and_install sample_client_libs (sample_env sample_server) sample_managed sample_update sample_hash
     (OnDisk [''d'', ''downloads'', ''app_2.0.0.tmp''])
     (quiet_world (sample_files db [1] @ [([''d'', ''downloads''], Dir), ([''d'', ''downloads'', ''app_2.0.0.tmp''], File (Bytes [7, 8]))]) (9 + n))
   = (Inr (0, 0), quiet_world (sample_files db [7, 8] @ ys) n')" using sample_install by blast
  then show ?thesis
    by (simp add: execute_update_def fetch_source_def download_full_binary_def artifact_path_def parse_hash_def required_def
      path_join_def starts_with_def path_components_def sample_run_simps sample_fetch [simplified])
qed


abbreviation sample_apply :: "(client_error + unit) \<times> content world" where
  "sample_apply \<equiv> apply_update sample_client_libs (sample_env sample_server) sample_settings sample_managed sample_update sample_client_world"

lemma sample_finish:
  "fst (finish_update sample_client_libs (sample_env sample_server) sample_settings sample_managed sample_update (Suc 0) k m
     (quiet_world ([([''d''], Dir), ([''d'', ''client.db''], File (Database db)), ([''o''], Dir), ([''o'', ''app''], File (Bytes [7, 8]))] @ ys) n)) = Inr ()"
  if "managed_binaries db = [sample_managed]" "installed_versions db = []" "map uh_id (update_histories db) = [Suc 0]"
  using that
  by (auto simp: finish_update_def record_backup_def sample_run_simps sample_lib_fields sample_hash update_current_version_def split: option.split)


definition started :: "client_db \<Rightarrow> client_db" where
  "started db = db\<lparr>update_histories := update_histories db @ [\<lparr>uh_id = next_update db, uh_binary_id = ''id'', from_version_id = None, from_version_string = None,
     to_version_id = ''2.0.0'', to_version_string = ''2.0.0'', uh_metrics = no_metrics, uh_started_at = ''2025-01-01 00:00:00'', uh_completed_at = None,
     uh_status = ''downloading'', success = None, error_message = None\<rparr>], next_update := Suc (next_update db)\<rparr>"

lemma sample_begin_at:
  assumes "(\<forall>b \<in> set (managed_binaries db). mb_id b \<noteq> ''id'') = False"
  shows "apply_update sample_client_libs (sample_env srv) sample_settings sample_managed sample_update
      (quiet_world [([''d''], Dir), ([''d'', ''client.db''], File (Database db)), ([''o''], Dir), ([''o'', ''app''], File (Bytes [1]))] n) =
   bindE (outcome (execute_update sample_client_libs (sample_env srv) sample_settings sample_managed sample_update)) (\<lambda>result.
     case result of
       Inr metrics \<Rightarrow> finish_update sample_client_libs (sample_env srv) sample_settings sample_managed sample_update (next_update db)
         (Some [''d'', ''backups'', ''app_unknown.backup'']) metrics
     | Inl e \<Rightarrow> abandon_update (sample_env srv) sample_settings sample_managed (next_update db)
         (Some [''d'', ''backups'', ''app_unknown.backup'']) e)
      (quiet_world (sample_files (started db) [1]) (11 + n))"
  by (simp add: apply_update_def assms check_update_space_def check_disk_space_def check_disk_space_at_path_def
    sample_run_simps sample_lib_fields back_up_def copy_with_signature_def started_def
    backup_path_for_def path_join_def starts_with_def path_components_def)

definition sample_started :: client_db where
  "sample_started = started sample_db"

lemma sample_begin:
  "apply_update sample_client_libs (sample_env srv) sample_settings sample_managed sample_update sample_client_world =
   bindE (outcome (execute_update sample_client_libs (sample_env srv) sample_settings sample_managed sample_update)) (\<lambda>result.
     case result of
       Inr metrics \<Rightarrow> finish_update sample_client_libs (sample_env srv) sample_settings sample_managed sample_update (Suc 0)
         (Some [''d'', ''backups'', ''app_unknown.backup'']) metrics
     | Inl e \<Rightarrow> abandon_update (sample_env srv) sample_settings sample_managed (Suc 0)
         (Some [''d'', ''backups'', ''app_unknown.backup'']) e)
      (quiet_world (sample_files sample_started [1]) 11)"
  using sample_begin_at [of sample_db srv 0]
  by (simp add: sample_client_world_def sample_started_def sample_db_def initial_db_def sample_fields)

lemma sample_apply_ok: "fst sample_apply = Inr ()"
proof -
  obtain m ys n' where run: "execute_update sample_client_libs (sample_env sample_server) sample_settings sample_managed sample_update
     (quiet_world (sample_files sample_started [1]) 11) = (Inr m, quiet_world (sample_files sample_started [7, 8] @ ys) n')"
    using sample_execute by blast
  have "managed_binaries sample_started = [sample_managed]" "installed_versions sample_started = []" "map uh_id (update_histories sample_started) = [Suc 0]"
    by (simp_all add: sample_started_def started_def sample_db_def initial_db_def)
  from sample_finish [OF this, where ys = "[([''d'', ''backups''], Dir), ([''d'', ''backups'', ''app_unknown.backup''], File (Bytes [1]))] @ ys"]
  show ?thesis unfolding sample_begin by (simp add: bindE_def outcome_def run)
qed

lemma sample_offline:
  "fst (apply_update sample_client_libs (sample_env (\<lambda>_. None)) sample_settings sample_managed sample_update sample_client_world)
     = Inl (CDownloadFailed 3 CHttpSend)"
proof -
  have "download_file_with_progress sample_client_libs (sample_env (\<lambda>_. None)) ''b'' [''d'', ''downloads'', f]
     (quiet_world (sample_files db [1] @ [([''d'', ''downloads''], Dir)]) n)
   = (Inl (CDownloadFailed 3 CHttpSend), quiet_world (sample_files db [1] @ [([''d'', ''downloads''], Dir)]) (n + 3))" for f db n
    by (simp add: download_file_with_progress_def MAX_RETRIES_def numeral_3_eq_3 download_attempt_def
      check_partial_def existing_len_def extract_http_status_def sample_run_simps sample_lib_fields)
  then have ex: "execute_update sample_client_libs (sample_env (\<lambda>_. None)) sample_settings sample_managed sample_update
     (quiet_world (sample_files db [1]) n) = (Inl (CDownloadFailed 3 CHttpSend), quiet_world (sample_files db [1] @ [([''d'', ''downloads''], Dir)]) (n + 5))" for db n
    by (simp add: execute_update_def fetch_source_def download_full_binary_def artifact_path_def parse_hash_def required_def
      path_join_def starts_with_def path_components_def sample_run_simps)
  show ?thesis
    unfolding sample_begin
    by (simp add: ex abandon_update_def sample_run_simps sample_lib_fields sample_started_def started_def sample_db_def initial_db_def)
qed

end
