(* ===== verification/Update_Schedule.thy ===== *)
theory Update_Schedule
  imports Update_Sample
begin

text \<open>
  No operation of the client changes the schedule of faults: the interpretation \<open>schedule\<close> of \<open>world_rel\<close>
  for the programs of \<open>Updater\<close>, from the primitive operations to a whole update.
\<close>

lemmas schedule_catch = schedule.keeps_outcome schedule.keeps_on_error

lemma schedule_store:
  "schedule.keeps (rename a b)" "schedule.keeps (open_create c p)" "schedule.keeps (db_run p op)"
  by (auto simp: schedule.keeps_def rename_def open_create_def db_run_def
      split: prod.splits fault.splits option.splits node.splits content_of.splits sum.splits dest: faults_next_op)

lemma schedule_ops:
  "schedule.keeps (copy_file p q)" "schedule.keeps (db_timed E p f)" "schedule.keeps (create_temp E p)"
  "schedule.keeps (download_bytes L E url)" "schedule.keeps (canonicalize E p)" "schedule.keeps set_permissions" "schedule.keeps (stat_dir E p)"
  unfolding copy_file_def db_timed_def create_temp_def download_bytes_def canonicalize_def set_permissions_def stat_dir_def Let_def
  by (auto split: option.split intro!: schedule.keeps_intros schedule_prims schedule_client schedule_store)

lemma schedule_with_temp: "(\<And>p. schedule.keeps (body p)) \<Longrightarrow> schedule.keeps (with_temp E d body)"
  unfolding with_temp_def by (intro schedule.keeps_intros schedule_catch schedule_ops schedule_prims)

lemma schedule_write_chunks: "schedule.keeps (write_chunks dest sofar n cs)"
  by (induction dest sofar n cs rule: write_chunks.induct) (auto intro!: schedule.keeps_intros schedule_prims)

lemma schedule_download_attempt: "schedule.keeps (download_attempt L E url dest)"
  unfolding download_attempt_def check_partial_def existing_len_def verify_partial_download_def open_append_def
    create_fresh_def download_stream_to_file_def Let_def
  by (intro schedule.keeps_intros schedule_client schedule_prims schedule_catch schedule_write_chunks)

lemma schedule_download_tries: "schedule.keeps (download_tries L E url dest n k e)"
  by (induction n arbitrary: k e)
     (auto intro!: schedule.keeps_intros schedule_catch schedule_download_attempt split: option.split)

lemma schedule_download_file: "schedule.keeps (download_file_with_progress L E url dest)"
  unfolding download_file_with_progress_def
  by (intro schedule.keeps_intros schedule_catch schedule_download_tries schedule_prims)

lemma schedule_checks:
  "schedule.keeps (validate_install_path E p)" "schedule.keeps (check_update_space L E S p u)" "schedule.keeps (back_up S mb)"
  unfolding validate_install_path_def check_path_def check_update_space_def check_disk_space_def check_disk_space_at_path_def
    back_up_def copy_with_signature_def Let_def
  by (intro schedule.keeps_intros schedule_client schedule_prims schedule_ops
     | (simp split: disk_check_mode.split, intro schedule.keeps_intros conjI impI))+

lemma schedule_fetch: "schedule.keeps (fetch_source L E S mb u m)"
  unfolding fetch_source_def apply_diff_update_def download_full_binary_def failing_def patch_binary_def Let_def
  by (auto split: sum.split prod.split intro!: schedule.keeps_intros schedule_client schedule_prims schedule_catch schedule_download_file)

lemma schedule_install: "schedule.keeps (install_source E p src)"
  unfolding install_source_def write_to_def cleanup_source_def persist_def
  by (auto split: binary_source.split sum.split intro!: schedule.keeps_intros schedule_client schedule_prims schedule_catch
      schedule_ops schedule_store schedule_with_temp schedule_checks)

lemma schedule_verify_and_install: "schedule.keeps (verify_and_install L E mb u h src)"
  unfolding verify_and_install_def install_verified_def checked_source_def verify_signature_def verify_checksum_def
    read_for_verification_def check_available_memory_def check_installed_def store_signature_def cleanup_source_def
  by (auto split: binary_source.split sum.split intro!: schedule.keeps_intros schedule_client schedule_prims schedule_catch
      schedule_ops schedule_store schedule_with_temp schedule_checks schedule_install)

lemma schedule_execute_update: "schedule.keeps (execute_update L E S mb u)"
  unfolding execute_update_def
  by (auto split: prod.split intro!: schedule.keeps_intros schedule_prims schedule_fetch schedule_verify_and_install)

lemma schedule_apply_update: "schedule.keeps (apply_update L E S mb u)"
  unfolding apply_update_def finish_update_def abandon_update_def record_backup_def
  by (auto split: sum.split option.split prod.split intro!: schedule.keeps_intros schedule_client schedule_prims schedule_catch
      schedule_ops schedule_checks schedule_execute_update)

end
