(* ===== verification/Update_Safety.thy ===== *)
theory Update_Safety
  imports Update_Schedule
begin

text \<open>
  What an update leaves on disk: specifications of the steps of \<open>Updater\<close> as weakest preconditions over
  the files of the world, and the properties of the whole.
\<close>

section \<open>Steps that change no file\<close>

text \<open>\<open>silent m\<close>: whatever happens, no file changes.\<close>

abbreviation silent :: "(content, 'e, 'a) io \<Rightarrow> bool" where
  "silent m \<equiv> touches {} m"

lemma wp_throw_fun [simp]: "wp (throwE e) Q E = E e"
  by (rule ext) simp

lemma wp_touches_frame:
  assumes "touches S m"
    and "wp m (\<lambda>x w'. (\<forall>p. p \<notin> S \<longrightarrow> file_at w' p = file_at w p) \<longrightarrow> Q x w')
      (\<lambda>e w'. (\<forall>p. p \<notin> S \<longrightarrow> file_at w' p = file_at w p) \<longrightarrow> E e w') w"
  shows "wp m Q E w"
proof -
  obtain r w' where m: "m w = (r, w')" by (cases "m w")
  have "\<forall>p. p \<notin> S \<longrightarrow> file_at w' p = file_at w p" using touchesD [OF assms(1) m] by blast
  with assms(2) m show ?thesis by (cases r) (simp_all add: wp_def)
qed

lemma wp_silent:
  assumes "silent m" "\<And>x w'. file_at w' = file_at w \<Longrightarrow> Q x w'" "\<And>e w'. file_at w' = file_at w \<Longrightarrow> E e w'"
  shows "wp m Q E w"
  by (rule wp_touches_frame [OF assms(1)], rule wpI) (simp_all add: assms fun_eq_iff)

lemma wp_touches_any:
  assumes "touches S m" "\<And>x w'. \<forall>p. p \<notin> S \<longrightarrow> file_at w' p = file_at w p \<Longrightarrow> Q x w'"
    "\<And>e w'. \<forall>p. p \<notin> S \<longrightarrow> file_at w' p = file_at w p \<Longrightarrow> E e w'"
  shows "wp m Q E w"
  by (rule wp_touches_frame [OF assms(1)], rule wpI) (use assms(2,3) in blast)+

lemma silent_checks [intro]:
  "touches S (canonicalize E p)" "touches S (check_path E p)" "touches S (validate_install_path E p)"
  "touches S (check_available_memory E n)" "touches S (check_disk_space_at_path E st p k s)"
  "touches S (check_disk_space E st p q k)" "touches S (check_update_space L E st p u)"
  "touches S set_permissions" "touches S (stat_dir E p)"
  unfolding canonicalize_def check_path_def validate_install_path_def check_available_memory_def
    check_disk_space_at_path_def check_disk_space_def check_update_space_def set_permissions_def stat_dir_def Let_def
  by (auto split: option.split disk_check_mode.split intro!: touches_intros touches_observe touches_client)

lemma silent_sources [intro]:
  "touches S (verify_checksum L src h)" "touches S (read_for_verification L E src)" "touches S (check_installed L p h)"
  unfolding verify_checksum_def read_for_verification_def check_installed_def
  by (auto split: binary_source.split intro!: touches_intros touches_observe touches_client silent_checks)

lemma wp_read_bytes:
  assumes "\<And>c w'. file_at w' = file_at w \<Longrightarrow> file_at w p = Some c \<Longrightarrow> Q (content_bytes L c) w'"
    and "\<And>e w'. file_at w' = file_at w \<Longrightarrow> E e w'"
  shows "wp (read_bytes L p) Q E w"
  unfolding read_bytes_def by (auto intro!: wp_read_file assms)

lemma wp_hash_file:
  assumes "\<And>c w'. file_at w' = file_at w \<Longrightarrow> file_at w p = Some c \<Longrightarrow> Q (c_blake3 L (content_bytes L c)) w'"
    and "\<And>e w'. file_at w' = file_at w \<Longrightarrow> E e w'"
  shows "wp (hash_file L p) Q E w"
  unfolding hash_file_def by (auto intro!: wp_read_bytes assms)

lemma wp_copy_file:
  assumes "\<And>c w'. file_at w p = Some c \<Longrightarrow> file_at w' = (file_at w)(q \<mapsto> c) \<Longrightarrow> Q () w'"
    and "\<And>e x w'. file_at w' = (file_at w)(q := x) \<Longrightarrow> E e w'"
  shows "wp (copy_file p q) Q E w"
  unfolding copy_file_def
  using assms(2) [of _ "file_at w q"] by (auto intro!: wp_read_file wp_write_file assms)

lemma wp_create_temp:
  assumes "\<And>s w'. file_at w (dir @ [''.tmp'' @ s]) = None \<Longrightarrow> file_at w' = (file_at w)(dir @ [''.tmp'' @ s] \<mapsto> Bytes []) \<Longrightarrow>
      Q (dir @ [''.tmp'' @ s]) w'"
    and "\<And>e w'. file_at w' = file_at w \<Longrightarrow> E e w'"
  shows "wp (create_temp Env dir) Q E w"
proof -
  define p where "p = dir @ [''.tmp'' @ temp_suffix Env (tick w)]"
  have "wp (open_create (Bytes []) p) (\<lambda>_. Q p) E (w\<lparr>tick := Suc (tick w)\<rparr>)"
    if "\<not> path_exists p (w\<lparr>tick := Suc (tick w)\<rparr>)"
  proof -
    have "file_at w p = None" using that by (simp add: path_exists_def file_at_def lookup_def)
    with assms p_def show ?thesis by (auto intro!: wp_open_create)
  qed
  with assms(2) [of "w\<lparr>tick := Suc (tick w)\<rparr>"] show ?thesis
    unfolding create_temp_def Let_def p_def by simp
qed

lemma remove_file_files:
  "file_at (snd (remove_file p v)) = file_at v \<or> file_at (snd (remove_file p v)) = (file_at v)(p := None)"
proof -
  have "wp (remove_file p) (\<lambda>_ w'. file_at w' = (file_at v)(p := None)) (\<lambda>_ w'. file_at w' = file_at v) v"
    by (rule wp_remove_file)
  then show ?thesis by (auto simp: wp_def split: prod.splits sum.splits)
qed

text \<open>The body works on a fresh file; after an error the file may have been removed.\<close>

lemma wp_with_temp:
  assumes "\<And>s p w'. p = dir @ [''.tmp'' @ s] \<Longrightarrow> file_at w p = None \<Longrightarrow> file_at w' = (file_at w)(p \<mapsto> Bytes []) \<Longrightarrow>
      wp (body p) Q (\<lambda>e v. \<forall>v' x. file_at v' = (file_at v)(p := x) \<longrightarrow> F e v') w'"
    and "\<And>e w'. file_at w' = file_at w \<Longrightarrow> F e w'"
  shows "wp (with_temp E dir body) Q F w"
proof -
  have "wp (body p) Q (\<lambda>e v. F e (snd (remove_file p v))) w'"
    if "p = dir @ [''.tmp'' @ s]" "file_at w p = None" "file_at w' = (file_at w)(p \<mapsto> Bytes [])" for p s w'
  proof (rule wp_mono [OF assms(1) [OF that]])
    fix e v assume "\<forall>v' x. file_at v' = (file_at v)(p := x) \<longrightarrow> F e v'"
    then show "F e (snd (remove_file p v))"
      using remove_file_files [of p v] by (metis fun_upd_triv)
  qed
  then show ?thesis
    unfolding with_temp_def by (auto intro!: wp_create_temp assms(2))
qed


section \<open>The source of the new binary\<close>

text \<open>The bytes a source stands for.\<close>

definition src_bytes :: "client_libs \<Rightarrow> binary_source \<Rightarrow> content world \<Rightarrow> bytes option" where
  "src_bytes L src w =
     (case src of InMemory b \<Rightarrow> Some b | OnDisk p \<Rightarrow> map_option (content_bytes L) (file_at w p))"

lemma src_bytes_cong: "file_at w' = file_at w \<Longrightarrow> src_bytes L src w' = src_bytes L src w"
  by (simp add: src_bytes_def split: binary_source.split)

definition src_files :: "binary_source \<Rightarrow> path set" where
  "src_files src = (case src of InMemory b \<Rightarrow> {} | OnDisk p \<Rightarrow> {p})"

lemma src_files_simps [simp]: "src_files (InMemory b) = {}" "src_files (OnDisk p) = {p}"
  by (simp_all add: src_files_def)

lemma touches_cleanup_source [intro]: "src_files src \<subseteq> S \<Longrightarrow> touches S (cleanup_source src)"
  unfolding cleanup_source_def src_files_def by (auto split: binary_source.splits intro!: touches_intros)

lemma wp_verify_checksum:
  assumes "\<And>w' b. file_at w' = file_at w \<Longrightarrow> src_bytes L src w = Some b \<Longrightarrow> c_blake3 L b = h \<Longrightarrow> Q () w'"
    and "\<And>e w'. file_at w' = file_at w \<Longrightarrow> E e w'"
  shows "wp (verify_checksum L src h) Q E w"
  unfolding verify_checksum_def using assms
  by (auto simp: src_bytes_def split: binary_source.split intro!: wp_branch wp_hash_file)

definition signed_by :: "client_libs \<Rightarrow> bytes \<Rightarrow> string \<Rightarrow> bytes \<Rightarrow> bytes \<Rightarrow> bool" where
  "signed_by L key version hash sig \<longleftrightarrow>
     length sig = 64 \<and> length key = 32 \<and> key_valid L key \<and> c_verify L key (signing_payload hash version) sig"

lemma wp_read_for_verification:
  assumes "\<And>w' b. file_at w' = file_at w \<Longrightarrow> src_bytes L src w = Some b \<Longrightarrow> Q b w'"
    and "\<And>e w'. file_at w' = file_at w \<Longrightarrow> F e w'"
  shows "wp (read_for_verification L E src) Q F w"
proof (cases src)
  case (OnDisk p)
  have rd: "wp (read_bytes L p) Q (\<lambda>e. F (CIo e)) v" if "file_at v = file_at w" for v
    using that assms OnDisk by (auto simp: src_bytes_def intro!: wp_read_bytes)
  have mem: "wp (check_available_memory E n) (\<lambda>_. wp (read_bytes L p) Q (\<lambda>e. F (CIo e))) F v" if "file_at v = file_at w" for v n
    by (rule wp_silent [OF silent_checks(4)]) (use that rd assms(2) in auto)
  show ?thesis
    unfolding read_for_verification_def OnDisk
    by (auto intro!: wp_file_len wp_branch mem assms(2))
qed (use assms(1) [of w] in \<open>simp add: read_for_verification_def src_bytes_def\<close>)


lemma wp_checked_source:
  assumes "\<And>w' b. file_at w' = file_at w \<Longrightarrow> src_bytes L src w = Some b \<Longrightarrow> c_blake3 L b = h \<Longrightarrow> Q () w'"
    and "\<And>e w'. \<forall>p. p \<notin> src_files src \<longrightarrow> file_at w' p = file_at w p \<Longrightarrow> F e w'"
  shows "wp (checked_source L src h) Q F w"
proof -
  have "wp (cleanup_source src) (\<lambda>_. F e) F v" if "file_at v = file_at w" for v e
    by (rule wp_touches_any [OF touches_cleanup_source [OF subset_refl]]) (use that assms(2) in auto)
  then show ?thesis
    unfolding checked_source_def using assms(1)
    by (auto intro!: wp_verify_checksum)
qed

lemma wp_verify_signature:
  assumes "\<And>w' b sig. file_at w' = file_at w \<Longrightarrow> src_bytes L src w = Some b \<Longrightarrow>
      signed_by L (publisher_public_key mb) (c_show L (ui_version u)) (c_blake3 L b) sig \<Longrightarrow> Q sig w'"
    and "\<And>e w'. \<forall>p. p \<notin> src_files src \<longrightarrow> file_at w' p = file_at w p \<Longrightarrow> F e w'"
  shows "wp (verify_signature L E mb u src) Q F w"
proof -
  have F: "F e w'" if "file_at w' = file_at w" for e w' using that assms(2) by simp
  have clean: "wp (cleanup_source src) (\<lambda>_. F e) F v" if "file_at v = file_at w" for v e
    by (rule wp_touches_any [OF touches_cleanup_source [OF subset_refl]]) (use that assms(2) in auto)
  let ?rest = "\<lambda>sig. bindE (read_for_verification L E src) (\<lambda>binary_data.
       if \<not> c_verify L (publisher_public_key mb) (signing_payload (c_blake3 L binary_data) (c_show L (ui_version u))) sig
       then bindE (cleanup_source src) (\<lambda>_. throwE CSignature) else returnE sig)"
  have rest: "wp (?rest sig) Q F v"
    if "file_at v = file_at w" "length sig = 64" "length (publisher_public_key mb) = 32" "key_valid L (publisher_public_key mb)" for v sig
    unfolding wp_bindE
  proof (rule wp_read_for_verification)
    fix w' b assume "file_at w' = file_at v" "src_bytes L src v = Some b"
    then have w': "file_at w' = file_at w" "src_bytes L src w = Some b" using that(1) src_bytes_cong by metis+
    then show "wp (if \<not> c_verify L (publisher_public_key mb) (signing_payload (c_blake3 L b) (c_show L (ui_version u))) sig
       then bindE (cleanup_source src) (\<lambda>_. throwE CSignature) else returnE sig) Q F w'"
      using clean [OF w'(1)] assms(1) [OF w'] that(2-4) by (simp add: signed_by_def)
  qed (simp add: F that(1))
  show ?thesis
    unfolding verify_signature_def wp_bindE
    by (rule wp_from_sum, simp add: F, rule wp_silent [OF touches_download_bytes])
       (auto intro!: F rest simp del: wp_bindE wp_seq_fun)
qed

lemma wp_check_installed:
  assumes "\<And>w' c. file_at w' = file_at w \<Longrightarrow> file_at w p = Some c \<Longrightarrow> c_blake3 L (content_bytes L c) = h \<Longrightarrow> Q () w'"
    and "\<And>e w'. file_at w' = file_at w \<Longrightarrow> F e w'"
  shows "wp (check_installed L p h) Q F w"
  unfolding check_installed_def using assms by (auto intro!: wp_hash_file)


lemma wp_store_signature:
  assumes "\<And>w'. (\<And>p. p \<in> dom (file_at w) \<Longrightarrow> p \<noteq> sigp \<Longrightarrow> file_at w' p = file_at w p) \<Longrightarrow> file_at w' sigp = Some (Bytes sig) \<Longrightarrow> Q () w'"
    and "\<And>e w'. (\<And>p. p \<in> dom (file_at w) \<Longrightarrow> file_at w' p = file_at w p) \<Longrightarrow> F e w'"
  shows "wp (store_signature E sigp sig) Q F w"
proof -
  have F: "F e w'" if "file_at w' = file_at w" for e w' using assms(2) that by simp
  have body: "wp (bindE (map_err CIo (write_file t (Bytes sig))) (\<lambda>_. map_err CIo (rename t sigp)))
      Q (\<lambda>e v. \<forall>v' x. file_at v' = (file_at v)(t := x) \<longrightarrow> F e v') w'"
    if t: "file_at w t = None" "file_at w' = (file_at w)(t \<mapsto> Bytes [])" for t w'
    unfolding wp_bindE wp_map_err
    by (intro wp_write_file wp_rename) (use t in \<open>auto intro!: assms\<close>)
  show ?thesis
    unfolding store_signature_def wp_bindE
    by (rule wp_from_sum) (auto intro!: F wp_with_temp body simp del: wp_bindE)
qed



section \<open>Installation\<close>

definition temp_files :: "path \<Rightarrow> path set" where
  "temp_files d = {d @ [''.tmp'' @ s] | s. True}"

definition agree_outside :: "path set \<Rightarrow> content world \<Rightarrow> content world \<Rightarrow> bool" where
  "agree_outside S w w' \<longleftrightarrow> (\<forall>p. p \<notin> S \<longrightarrow> file_at w' p = file_at w p)"

lemma agree_outside_trans: "agree_outside S u v \<Longrightarrow> agree_outside S v w \<Longrightarrow> agree_outside S u w"
  by (simp add: agree_outside_def)

lemma agree_outside_mono: "agree_outside S u v \<Longrightarrow> S \<subseteq> T \<Longrightarrow> agree_outside T u v"
  by (auto simp: agree_outside_def)

lemma wp_write_to:
  assumes "src_bytes L src w = Some b"
    and "\<And>c w'. file_at w' = (file_at w)(dest \<mapsto> c) \<Longrightarrow> content_bytes L c = b \<Longrightarrow> Q () w'"
    and "\<And>e x w'. file_at w' = (file_at w)(dest := x) \<Longrightarrow> F e w'"
  shows "wp (write_to src dest) Q F w"
  using assms unfolding write_to_def
  by (auto simp: src_bytes_def content_bytes_def split: binary_source.splits intro!: wp_write_file wp_copy_file)

lemma wp_persist:
  assumes "\<And>c w'. file_at w temp = Some c \<Longrightarrow> file_at w' = (file_at w)(temp := None, dest \<mapsto> c) \<Longrightarrow> Q () w'"
    and "\<And>e x w'. file_at w' = (file_at w)(temp := x) \<Longrightarrow> F e w'"
  shows "wp (persist temp dest) Q F w"
proof -
  have "wp (remove_file temp) (\<lambda>_. F e) (\<lambda>_. F e) v" if "file_at v = file_at w" for v e
    by (rule wp_remove_file) (use that assms(2) [of _ "file_at w temp"] assms(2) [of _ None] in auto)
  then show ?thesis
    unfolding persist_def using assms(1) by (auto intro!: wp_rename)
qed

text \<open>Between the temporary file and the rename nothing else changes.\<close>

lemma wp_install_body:
  assumes fresh: "file_at w temp = None" and w': "file_at w' = (file_at w)(temp \<mapsto> Bytes [])"
    and src: "src_bytes L src w = Some b" and sep: "temp \<notin> src_files src" "install \<notin> src_files src" "install \<noteq> temp"
    and Q: "\<And>c v. file_at v install = Some c \<Longrightarrow> content_bytes L c = b \<Longrightarrow>
      agree_outside (insert temp (insert install (src_files src))) w v \<Longrightarrow> Q () v"
    and F: "\<And>e v. agree_outside (insert temp (src_files src)) w v \<Longrightarrow> F e v"
  shows "wp (bindE (stat_dir E d) (\<lambda>parent_dir_identity.
       bindE set_permissions (\<lambda>_.
       bindE (map_err CIo (write_to src temp)) (\<lambda>_.
       bindE (cleanup_source src) (\<lambda>_.
       bindE set_permissions (\<lambda>_.
       bindE (validate_install_path E install) (\<lambda>_.
       bindE (stat_dir E d) (\<lambda>meta.
       if meta \<noteq> parent_dir_identity then throwE (CSecurity ''parent directory was replaced'')
       else persist temp install))))))))
    Q (\<lambda>e v. \<forall>v' x. file_at v' = (file_at v)(temp := x) \<longrightarrow> F e v') w'"
proof -
  define G where "G = (\<lambda>e v. \<forall>v' x. file_at v' = (file_at v)(temp := x) \<longrightarrow> F e v')"
  have err: "G e v" if "agree_outside (insert temp (src_files src)) w v" for e v
    using that unfolding G_def by (auto intro!: F simp: agree_outside_def)
  have src': "src_bytes L src v = Some b" if "file_at v = (file_at w)(temp := x)" for v x
    using src sep(1) that by (auto simp: src_bytes_def src_files_def split: binary_source.splits)
  have pers: "wp (persist temp install) Q G v"
    if v: "agree_outside (insert temp (src_files src)) w v" "file_at v temp = Some c" "content_bytes L c = b" for v c
    by (rule wp_persist)
       (use v sep in \<open>auto intro!: Q err simp: agree_outside_def\<close>)
  have last: "wp (bindE set_permissions (\<lambda>_. bindE (validate_install_path E install) (\<lambda>_. bindE (stat_dir E d) (\<lambda>meta.
       if meta \<noteq> i then throwE (CSecurity ''parent directory was replaced'') else persist temp install)))) Q G v"
    if v: "agree_outside (insert temp (src_files src)) w v" "file_at v temp = Some c" "content_bytes L c = b" for v c i
    unfolding wp_bindE
    by (rule wp_silent [OF silent_checks(8)], rule wp_silent [OF silent_checks(3)], rule wp_silent [OF silent_checks(9)])
       (use v in \<open>auto simp: agree_outside_def simp del: wp_bindE wp_seq_fun intro!: err pers wp_branch\<close>)
  have mid: "wp (bindE (map_err CIo (write_to src temp)) (\<lambda>_. bindE (cleanup_source src) (\<lambda>_.
       bindE set_permissions (\<lambda>_. bindE (validate_install_path E install) (\<lambda>_. bindE (stat_dir E d) (\<lambda>meta.
       if meta \<noteq> i then throwE (CSecurity ''parent directory was replaced'') else persist temp install)))))) Q G v"
    if "file_at v = (file_at w)(temp := x)" for v i x
    unfolding wp_bindE [of "map_err CIo (write_to src temp)"] wp_bindE [of "cleanup_source src"] wp_map_err
    by (rule wp_write_to [OF src' [OF that]], rule wp_touches_any [OF touches_cleanup_source [OF subset_refl]])
       (use that sep(1) in \<open>auto simp: agree_outside_def simp del: wp_bindE wp_seq_fun intro!: err last\<close>)
  show ?thesis
    unfolding G_def [symmetric] wp_bindE [of "stat_dir E d"] wp_bindE [of set_permissions]
    by (rule wp_silent [OF silent_checks(9)], rule wp_silent [OF silent_checks(8)])
       (use w' in \<open>auto simp: agree_outside_def simp del: wp_bindE wp_seq_fun intro!: err mid\<close>)
qed


lemma wp_install_source:
  assumes install: "install = d @ [f]" "\<not> starts_with f ''.tmp''" "install \<notin> src_files src"
    and src: "src_bytes L src w = Some b"
    and Q: "\<And>c v. file_at v install = Some c \<Longrightarrow> content_bytes L c = b \<Longrightarrow>
      agree_outside (temp_files d \<union> insert install (src_files src)) w v \<Longrightarrow> Q () v"
    and F: "\<And>e v. agree_outside (temp_files d \<union> src_files src) w v \<Longrightarrow> F e v"
  shows "wp (install_source E install src) Q F w"
proof -
  have F': "F e v" if "file_at v = file_at w" for e v using that by (intro F) (simp add: agree_outside_def)
  have body: "wp (bindE (stat_dir E d) (\<lambda>parent_dir_identity. bindE set_permissions (\<lambda>_.
       bindE (map_err CIo (write_to src temp)) (\<lambda>_. bindE (cleanup_source src) (\<lambda>_. bindE set_permissions (\<lambda>_.
       bindE (validate_install_path E install) (\<lambda>_. bindE (stat_dir E d) (\<lambda>meta.
       if meta \<noteq> parent_dir_identity then throwE (CSecurity ''parent directory was replaced'')
       else persist temp install)))))))) Q (\<lambda>e v. \<forall>v' x. file_at v' = (file_at v)(temp := x) \<longrightarrow> F e v') w'"
    if u: "file_at u = file_at w" and t: "temp = d @ [''.tmp'' @ s]" "file_at u temp = None" "file_at w' = (file_at u)(temp \<mapsto> Bytes [])"
    for temp s u w'
  proof (rule wp_install_body [where w = w and L = L and b = b])
    show "temp \<notin> src_files src"
      using src t(2) u by (auto simp: src_files_def src_bytes_def split: binary_source.splits)
    have temp: "temp \<in> temp_files d" using t(1) by (auto simp: temp_files_def)
    show "install \<noteq> temp" using install(1,2) t(1) by (auto simp: starts_with_def)
    show "Q () v" if "file_at v install = Some c" "content_bytes L c = b"
        "agree_outside (insert temp (insert install (src_files src))) w v" for c v
      by (rule Q [OF that(1,2)], rule agree_outside_mono [OF that(3)]) (use temp in auto)
    show "F e v" if "agree_outside (insert temp (src_files src)) w v" for e v
      by (rule F, rule agree_outside_mono [OF that]) (use temp in auto)
  qed (use install(3) src t u in simp_all)
  have "wp (with_temp E d (\<lambda>temp. bindE (stat_dir E d) (\<lambda>parent_dir_identity. bindE set_permissions (\<lambda>_.
       bindE (map_err CIo (write_to src temp)) (\<lambda>_. bindE (cleanup_source src) (\<lambda>_. bindE set_permissions (\<lambda>_.
       bindE (validate_install_path E install) (\<lambda>_. bindE (stat_dir E d) (\<lambda>meta.
       if meta \<noteq> parent_dir_identity then throwE (CSecurity ''parent directory was replaced'')
       else persist temp install)))))))))  Q F u" if "file_at u = file_at w" for u
    by (rule wp_with_temp) (use body [OF that] F' that in \<open>simp_all del: wp_bindE wp_seq_fun\<close>)
  then show ?thesis
    unfolding install_source_def wp_bindE [of "from_sum _"] wp_bindE [of "map_err CIo (create_dir_all _)"]
    using install(1)
    by (auto simp: required_def parent_def simp del: wp_bindE wp_seq_fun intro!: wp_no_change F')
qed



section \<open>The update up to the database\<close>

lemma touches_failing [intro]: "touches T m \<Longrightarrow> touches T (failing k m)"
  unfolding failing_def by (rule footprint.keeps_wrap)

lemma touches_patch_binary: "p \<in> T \<Longrightarrow> touches T (patch_binary L q p)"
  unfolding patch_binary_def by (intro touches_intros touches_client | assumption)+

lemma touches_apply_diff_update: "artifact_path S mb u ''.diff'' \<in> T \<Longrightarrow> touches T (apply_diff_update L E S mb u m)"
  unfolding apply_diff_update_def Let_def
  by (intro touches_intros touches_failing touches_observe touches_client touches_patch_binary touches_download_file | assumption)+

lemma touches_download_full: "artifact_path S mb u ''.tmp'' \<in> T \<Longrightarrow> touches T (download_full_binary L E S mb u m)"
  unfolding download_full_binary_def Let_def
  by (intro touches_intros touches_observe touches_client touches_download_file | assumption)+

definition artifacts :: "client_settings \<Rightarrow> managed_binary \<Rightarrow> update_info \<Rightarrow> path set" where
  "artifacts S mb u = {artifact_path S mb u ''.diff'', artifact_path S mb u ''.tmp''}"

lemma touches_fetch_source: "artifacts S mb u \<subseteq> T \<Longrightarrow> touches T (fetch_source L E S mb u m)"
  unfolding fetch_source_def Let_def
  by (auto simp: artifacts_def split: prod.splits sum.splits
      intro!: touches_intros touches_catch touches_apply_diff_update touches_download_full)

lemma fetch_source_result:
  "wp (fetch_source L E S mb u m) (\<lambda>r _. src_files (fst r) \<subseteq> artifacts S mb u) (\<lambda>_ _. True) w"
proof -
  have full: "wp (download_full_binary L E S mb u m') (\<lambda>r _. fst r = artifact_path S mb u ''.tmp'') (\<lambda>_ _. True) v" for m' v
    unfolding download_full_binary_def Let_def by (auto intro!: wpI split: sum.split)
  have full': "wp (bindE (download_full_binary L E S mb u m') (\<lambda>(p, m'). returnE (OnDisk p, m')))
      (\<lambda>r _. src_files (fst r) \<subseteq> artifacts S mb u) (\<lambda>_ _. True) v" for m' v
    unfolding wp_bindE by (rule wp_mono [OF full]) (auto simp: artifacts_def split: prod.splits)
  have diff: "wp (bindE (outcome (apply_diff_update L E S mb u m)) (\<lambda>r.
        case r of Inr (b, m') \<Rightarrow> returnE (InMemory b, m')
        | Inl (e, m') \<Rightarrow> bindE (download_full_binary L E S mb u m') (\<lambda>(p, m'). returnE (OnDisk p, m'))))
      (\<lambda>r _. src_files (fst r) \<subseteq> artifacts S mb u) (\<lambda>_ _. True) v" for v
    unfolding wp_bindE [of "outcome _"] wp_outcome
    by (rule wpI) (auto simp: full' simp del: wp_bindE wp_seq_fun split: prod.splits)
  show ?thesis
    unfolding fetch_source_def Let_def wp_bindE [of "get_world _"] wp_pure(4)
    by (rule wp_branch) (rule diff full')+
qed

definition genuine :: "client_libs \<Rightarrow> managed_binary \<Rightarrow> update_info \<Rightarrow> content \<Rightarrow> bytes \<Rightarrow> bool" where
  "genuine L mb u c sig \<longleftrightarrow>
     parse_hash (ui_checksum u) = Inr (c_blake3 L (content_bytes L c)) \<and>
     signed_by L (publisher_public_key mb) (c_show L (ui_version u)) (c_blake3 L (content_bytes L c)) sig"

definition update_files :: "client_settings \<Rightarrow> managed_binary \<Rightarrow> update_info \<Rightarrow> path set" where
  "update_files S mb u = artifacts S mb u \<union> temp_files (butlast (target mb)) \<union> {target mb, sidecar mb}"

definition installed :: "client_libs \<Rightarrow> managed_binary \<Rightarrow> update_info \<Rightarrow> content world \<Rightarrow> bool" where
  "installed L mb u w \<longleftrightarrow>
     (\<exists>c sig. file_at w (target mb) = Some c \<and> file_at w (sidecar mb) = Some (Bytes sig) \<and> genuine L mb u c sig)"

definition old_or_genuine :: "client_libs \<Rightarrow> managed_binary \<Rightarrow> update_info \<Rightarrow> content world \<Rightarrow> content world \<Rightarrow> bool" where
  "old_or_genuine L mb u w v \<longleftrightarrow>
     file_at v (target mb) = file_at w (target mb) \<or> (\<exists>c sig. file_at v (target mb) = Some c \<and> genuine L mb u c sig)"

lemma old_or_genuine_same: "file_at v (target mb) = file_at w (target mb) \<Longrightarrow> old_or_genuine L mb u w v"
  by (simp add: old_or_genuine_def)

lemma in_data_dirs [simp]:
  "in_dir (data_dir S) (downloads_dir S @ p)" "in_dir (data_dir S) (backups_dir S @ p)" "in_dir (data_dir S) (db_path S)"
  by (simp_all add: downloads_dir_def backups_dir_def db_path_def)

lemma target_not_artifact:
  assumes "placed S mb" "validate_version_format (ui_version_id u) = Inr ()"
  shows "target mb \<notin> artifacts S mb u" "sidecar mb \<notin> artifacts S mb u"
proof -
  have "in_dir (data_dir S) p" if "p \<in> artifacts S mb u" for p
    using that plain_artifact [OF assms, of "''.diff''"] plain_artifact [OF assms, of "''.tmp''"]
    by (auto simp: artifacts_def)
  then show "target mb \<notin> artifacts S mb u" "sidecar mb \<notin> artifacts S mb u"
    using assms(1) by (auto simp: placed_def)
qed

text \<open>From the verified source on: the binary at the install path is the old one or the verified one.\<close>

lemma wp_install_verified:
  assumes pl: "placed S mb" and src: "target mb \<notin> src_files src" "src_bytes L src w = Some b" "c_blake3 L b = h"
    and h: "parse_hash (ui_checksum u) = Inr h"
    and sg: "signed_by L (publisher_public_key mb) (c_show L (ui_version u)) h sig"
  shows "wp (install_verified L E mb h src sig) (\<lambda>_ v. installed L mb u v) (\<lambda>_ v. old_or_genuine L mb u w v) w"
    (is "wp _ _ ?F w")
proof -
  obtain d f where t: "target mb = d @ [f]" "\<not> starts_with f ''.tmp''" using pl by (rule placed_split)
  have temps: "target mb \<notin> temp_files d" using t by (auto simp: temp_files_def starts_with_def)
  have store: "wp (store_signature E (sidecar mb) sig) (\<lambda>_. installed L mb u) ?F v"
    if "file_at v (target mb) = Some c" "genuine L mb u c sig" for v c
    by (rule wp_store_signature)
       (use that sidecar_distinct [OF pl] in \<open>auto simp: domI installed_def old_or_genuine_def\<close>)
  have chk: "wp (check_installed L (target mb) h) (\<lambda>_. wp (store_signature E (sidecar mb) sig) (\<lambda>_. installed L mb u) ?F) ?F v"
    if "file_at v (target mb) = Some c" "genuine L mb u c sig" for v c
    by (rule wp_check_installed) (use that store in \<open>auto simp: old_or_genuine_def\<close>)
  have "wp (install_source E (target mb) src) (\<lambda>_ v. wp (check_installed L (target mb) h)
      (\<lambda>_. wp (store_signature E (sidecar mb) sig) (\<lambda>_. installed L mb u) ?F) ?F (v\<lparr>tick := Suc (tick v)\<rparr>)) ?F (w\<lparr>tick := Suc (tick w)\<rparr>)"
  proof (rule wp_install_source [OF t(1,2) src(1)])
    show "src_bytes L src (w\<lparr>tick := Suc (tick w)\<rparr>) = Some b" using src(2) src_bytes_cong [of "w\<lparr>tick := Suc (tick w)\<rparr>" w] by simp
    show "?F e v" if "agree_outside (temp_files d \<union> src_files src) (w\<lparr>tick := Suc (tick w)\<rparr>) v" for e v
      using that temps src(1) by (intro old_or_genuine_same) (simp add: agree_outside_def)
    fix c v assume c: "file_at v (target mb) = Some c" "content_bytes L c = b"
    with h src(3) sg have "genuine L mb u c sig" by (simp add: genuine_def)
    then show "wp (check_installed L (target mb) h)
      (\<lambda>_. wp (store_signature E (sidecar mb) sig) (\<lambda>_. installed L mb u) ?F) ?F (v\<lparr>tick := Suc (tick v)\<rparr>)"
      by (rule chk [rotated]) (use c(1) in simp)
  qed
  then show ?thesis unfolding install_verified_def by simp
qed

lemma wp_verify_and_install:
  assumes pl: "placed S mb" and src: "target mb \<notin> src_files src" and h: "parse_hash (ui_checksum u) = Inr h"
  shows "wp (verify_and_install L E mb u h src) (\<lambda>_ v. installed L mb u v) (\<lambda>_ v. old_or_genuine L mb u w v) w"
    (is "wp _ _ ?F w")
proof -
  have keep: "?F e v" if "\<forall>p. p \<notin> src_files src \<longrightarrow> file_at v p = file_at w p" for e v
    using that src by (simp add: old_or_genuine_same)
  have inst: "wp (install_verified L E mb h src sig) (\<lambda>_. installed L mb u) ?F v"
    if v: "file_at v = file_at w" "src_bytes L src w = Some b" "c_blake3 L b = h"
      "signed_by L (publisher_public_key mb) (c_show L (ui_version u)) h sig" for v b sig
  proof (rule wp_mono [OF wp_install_verified [OF pl src _ v(3) h v(4), of v E]])
    show "src_bytes L src v = Some b" using v(1,2) src_bytes_cong by metis
  qed (use v(1) in \<open>auto simp: old_or_genuine_def\<close>)
  have ver: "wp (verify_signature L E mb u src) (\<lambda>sig v. wp (install_verified L E mb h src sig) (\<lambda>_. installed L mb u) ?F (v\<lparr>tick := Suc (tick v)\<rparr>)) ?F v"
    if v: "file_at v = file_at w" "src_bytes L src w = Some b" "c_blake3 L b = h" for v b
    by (rule wp_verify_signature)
       (use v(1,2) src_bytes_cong [OF v(1), of L src] in \<open>auto simp: v(3) intro!: keep inst [OF _ v(2,3)]\<close>)
  show ?thesis
    unfolding verify_and_install_def wp_bindE [of "checked_source _ _ _"]
    by (rule wp_checked_source) (simp_all add: ver keep)
qed

lemma wp_execute_update:
  assumes pl: "placed S mb" and ver: "validate_version_format (ui_version_id u) = Inr ()"
  shows "wp (execute_update L E S mb u) (\<lambda>_ v. installed L mb u v) (\<lambda>_ v. old_or_genuine L mb u w v) w"
proof -
  note ta = target_not_artifact(1) [OF assms]
  have fetch: "wp (fetch_source L E S mb u no_metrics)
      (\<lambda>r v. file_at v (target mb) = file_at w (target mb) \<and> src_files (fst r) \<subseteq> artifacts S mb u)
      (\<lambda>_ v. file_at v (target mb) = file_at w (target mb)) v" if "file_at v = file_at w" for v
    by (rule wp_touches_frame [OF touches_fetch_source [OF subset_refl]], rule wp_mono [OF fetch_source_result])
       (use that ta in auto)
  have inst: "wp (verify_and_install L E mb u h src) (\<lambda>_ v. installed L mb u v) (\<lambda>_ v. old_or_genuine L mb u w v) v"
    if "file_at v (target mb) = file_at w (target mb)" "src_files src \<subseteq> artifacts S mb u" "parse_hash (ui_checksum u) = Inr h" for v src h
    by (rule wp_mono [OF wp_verify_and_install [OF pl _ that(3)]]) (use that ta in \<open>auto simp: old_or_genuine_def\<close>)
  have "wp (fetch_source L E S mb u no_metrics)
      (\<lambda>x. wp (case x of (src, metrics) \<Rightarrow> bindE (verify_and_install L E mb u h src) (\<lambda>(verify_time, apply_time).
         returnE (metrics\<lparr>um_verify_time_ms := Some verify_time, um_apply_time_ms := Some apply_time\<rparr>)))
        (\<lambda>_ v. installed L mb u v) (\<lambda>_ v. old_or_genuine L mb u w v))
      (\<lambda>_ v. old_or_genuine L mb u w v) v" if "file_at v = file_at w" "parse_hash (ui_checksum u) = Inr h" for v h
    by (rule wp_mono [OF fetch [OF that(1)]])
       (auto simp: case_prod_beta that(2) intro!: old_or_genuine_same inst)
  then show ?thesis
    unfolding execute_update_def wp_bindE [of "map_err _ _"] wp_bindE [of "from_sum _"] wp_bindE [of "fetch_source _ _ _ _ _ _"] wp_map_err
    by (auto intro!: wp_no_change wp_from_sum old_or_genuine_same simp del: wp_bindE wp_seq_fun)
qed



section \<open>The whole update\<close>

lemma wp_db_timed:
  assumes "\<And>now db x db' w'. file_at w p = Some (Database db) \<Longrightarrow> op now db = Inr (x, db') \<Longrightarrow>
      file_at w' = (file_at w)(p \<mapsto> Database db') \<Longrightarrow> Q x w'"
    and "\<And>e w'. file_at w' = file_at w \<Longrightarrow> F (CDb e) w'"
  shows "wp (db_timed E p op) Q F w"
  unfolding db_timed_def using assms by (auto intro!: wp_db_run)

definition current_in_db :: "client_libs \<Rightarrow> client_settings \<Rightarrow> managed_binary \<Rightarrow> update_info \<Rightarrow> content world \<Rightarrow> bool" where
  "current_in_db L S mb u w \<longleftrightarrow>
     (\<exists>db b. file_at w (db_path S) = Some (Database db) \<and> b \<in> set (managed_binaries db) \<and> mb_id b = mb_id mb \<and>
        current_version_id b = Some (ui_version_id u) \<and> current_version_string b = Some (c_show L (ui_version u)))"

lemma update_binary_result:
  "update_binary bid f db = Inr (x, db') \<Longrightarrow>
     managed_binaries db' = map (\<lambda>b. if mb_id b = bid then f b else b) (managed_binaries db) \<and>
     (\<exists>b \<in> set (managed_binaries db). mb_id b = bid)"
  by (auto simp: update_binary_def split: if_splits)

lemma mark_current_binaries: "mark_current bid vid db = Inr (x, db') \<Longrightarrow> managed_binaries db' = managed_binaries db"
  by (auto simp: mark_current_def split: if_splits)

lemma update_current_version_result:
  assumes "update_current_version now bid vid vs db = Inr (x, db')"
  shows "\<exists>b \<in> set (managed_binaries db'). mb_id b = bid \<and> current_version_id b = Some vid \<and> current_version_string b = Some vs"
proof -
  define g :: "managed_binary \<Rightarrow> managed_binary" where "g = (\<lambda>b. b\<lparr>current_version_id := Some vid,
    current_version_string := Some vs, last_update_at := Some now, mb_updated_at := now\<rparr>)"
  obtain y db1 where "update_binary bid g (snd (projr (clear_current bid db))) = Inr (y, db1)" "managed_binaries db' = managed_binaries db1"
    using assms mark_current_binaries
    by (auto simp: update_current_version_def bind_db_def clear_current_def g_def split: sum.splits)
  from update_binary_result [OF this(1)] this(2) obtain xs a where
    "managed_binaries db' = map (\<lambda>b. if mb_id b = bid then g b else b) xs" "a \<in> set xs" "mb_id a = bid" by auto
  moreover have "(\<lambda>b. if mb_id b = bid then g b else b) a \<in> set (map (\<lambda>b. if mb_id b = bid then g b else b) xs)"
    unfolding set_map by (rule imageI) fact
  ultimately have "g a \<in> set (managed_binaries db')" by (simp only: if_True simp_thms)
  then show ?thesis using \<open>mb_id a = bid\<close> by (intro bexI [of _ "g a"]) (simp_all add: g_def)
qed

lemma create_backup_binaries:
  "create_backup parse now bid vid vs p h n e db = Inr (x, db') \<Longrightarrow> managed_binaries db' = managed_binaries db"
  by (auto simp: create_backup_def check_db_def insert_backup_def split: sum.splits if_splits)

lemma touches_finish_update [intro]: "db_path S \<in> T \<Longrightarrow> touches T (finish_update L E S mb u n k m)"
  unfolding finish_update_def record_backup_def
  by (auto split: option.split intro!: touches_intros touches_client)

lemma wp_record_backup:
  assumes "current_in_db L S mb u w"
  shows "wp (record_backup L E S mb k) (\<lambda>_ v. current_in_db L S mb u v) (\<lambda>_ _. True) w"
proof -
  have cong: "current_in_db L S mb u v" if "file_at v = file_at w" for v
    using that assms by (simp add: current_in_db_def)
  have bk: "wp (db_timed E (db_path S) (\<lambda>now. create_backup (c_parse L) now a b c d e i j)) (\<lambda>_ v. current_in_db L S mb u v) (\<lambda>_ _. True) v"
    if "current_in_db L S mb u v" for v a b c d e i j
    by (rule wp_db_timed) (use that in \<open>auto simp: current_in_db_def dest!: create_backup_binaries\<close>)
  show ?thesis
    unfolding record_backup_def
    by (auto split: option.split intro!: wp_hash_file wp_file_len bk cong assms)
qed

lemma wp_finish_update:
  "wp (finish_update L E S mb u n k m) (\<lambda>_ v. current_in_db L S mb u v) (\<lambda>_ _. True) w"
proof -
  have tail: "wp (bindE (db_timed E (db_path S) (\<lambda>now. update_current_version now (mb_id mb) (ui_version_id u) (c_show L (ui_version u))))
      (\<lambda>_. record_backup L E S mb k)) (\<lambda>_ v. current_in_db L S mb u v) (\<lambda>_ _. True) v" for v
    unfolding wp_bindE
    by (rule wp_db_timed, rule wp_record_backup) (auto simp: current_in_db_def dest!: update_current_version_result)
  show ?thesis
    unfolding finish_update_def
    by (simp only: wp_bindE [of "db_timed E (db_path S) (\<lambda>now. record_update_complete now n True None m)"])
       (rule wpI, rule wp_bindE [THEN iffD2], rule wpI, rule wp_bindE [THEN iffD2], rule wpI,
        rule wp_bindE [THEN iffD2], rule wpI, rule wp_bindE [THEN iffD2], rule wpI, rule tail, (rule TrueI)+)
qed


lemma touches_with_temp:
  assumes "temp_files d \<subseteq> T" "\<And>p. p \<in> temp_files d \<Longrightarrow> touches T (body p)"
  shows "touches T (with_temp E d body)"
  unfolding with_temp_def
proof (rule footprint.keeps_bindE_ret [where P = "\<lambda>p. p \<in> temp_files d"])
  show "touches T (map_err CIo (create_temp E d))"
    by (rule footprint.keeps_wrap, rule touches_create_temp) (use assms(1) in \<open>auto simp: temp_files_def\<close>)
  show "wp (map_err CIo (create_temp E d)) (\<lambda>p _. p \<in> temp_files d) (\<lambda>_ _. True) w" for w
    by (auto simp: temp_files_def intro!: wp_create_temp)
  show "touches T (on_error (body p) (remove_file p))" if "p \<in> temp_files d" for p
    using that assms by (intro footprint.keeps_on_error touches_primsI) auto
qed

lemma touches_install:
  assumes "temp_files (butlast p) \<subseteq> T" "p \<in> T" "src_files src \<subseteq> T"
  shows "touches T (install_source E p src)"
proof -
  have "touches T (write_to src q)" if "q \<in> T" for q
    using that unfolding write_to_def by (auto split: binary_source.split intro!: touches_intros touches_client)
  moreover have "touches T (persist q p)" if "q \<in> T" for q
    using that assms(2) unfolding persist_def by (auto split: sum.split intro!: touches_intros touches_catch)
  moreover have "required ''parent directory'' (parent p) = Inr d \<Longrightarrow> d = butlast p" for d
    by (auto simp: required_def parent_def split: if_splits)
  moreover have "touches T (from_sum r)" "wp (from_sum r) (\<lambda>x _. r = Inr x) (\<lambda>_ _. True) w" for r :: "client_error + 'a" and w :: "content world"
    by (auto intro: footprint.keeps_pure split: sum.split)
  ultimately show ?thesis
    unfolding install_source_def using assms
    by (intro footprint.keeps_bindE_ret [where P = "\<lambda>d. required ''parent directory'' (parent p) = Inr d" and m = "from_sum _"])
       (auto intro!: touches_intros touches_with_temp silent_checks touches_cleanup_source)
qed

lemma touches_store_signature:
  assumes "temp_files (butlast p) \<subseteq> T" "p \<in> T"
  shows "touches T (store_signature E p sig)"
  unfolding store_signature_def
  by (rule footprint.keeps_bindE_ret [where P = "\<lambda>d. required ''parent directory'' (parent p) = Inr d"])
     (use assms in \<open>auto simp: required_def parent_def split: sum.split if_splits intro!: touches_intros touches_with_temp\<close>)

lemma touches_verify_and_install:
  assumes "temp_files (butlast (target mb)) \<subseteq> T" "temp_files (butlast (sidecar mb)) \<subseteq> T" "{target mb, sidecar mb} \<subseteq> T" "src_files src \<subseteq> T"
  shows "touches T (verify_and_install L E mb u h src)"
  unfolding verify_and_install_def install_verified_def checked_source_def verify_signature_def using assms
  by (auto split: sum.split intro!: touches_intros touches_observe touches_catch silent_sources touches_cleanup_source
      touches_install touches_store_signature)

lemma touches_execute_update:
  assumes "placed S mb"
  shows "touches (update_files S mb u) (execute_update L E S mb u)"
proof -
  obtain d f where t: "target mb = d @ [f]" "sidecar mb = d @ [f @ ''.sig'']" using assms by (rule placed_split)
  have "touches (update_files S mb u) (verify_and_install L E mb u h src)" if "src_files src \<subseteq> artifacts S mb u" for h src
    by (rule touches_verify_and_install) (use t that in \<open>auto simp: update_files_def\<close>)
  moreover have "touches (update_files S mb u) (fetch_source L E S mb u no_metrics)"
    by (rule touches_fetch_source) (auto simp: update_files_def)
  ultimately have "touches (update_files S mb u) (bindE (fetch_source L E S mb u no_metrics) (\<lambda>(src, metrics).
     bindE (verify_and_install L E mb u h src) (\<lambda>(verify_time, apply_time).
     returnE (metrics\<lparr>um_verify_time_ms := Some verify_time, um_apply_time_ms := Some apply_time\<rparr>))))" for h
    by (intro footprint.keeps_bindE_ret [OF _ fetch_source_result]) (auto split: prod.split intro!: touches_intros)
  then show ?thesis
    unfolding execute_update_def
    by (intro footprint.keeps_bindE [of _ "map_err CIo (create_dir_all (downloads_dir S))"]
        footprint.keeps_bindE [of _ "from_sum _"] footprint.keeps_pure footprint.keeps_wrap touches_primsI)
qed


lemma placed_db: "placed S mb \<Longrightarrow> db_path S \<noteq> target mb" "placed S mb \<Longrightarrow> db_path S \<noteq> sidecar mb"
  using in_data_dirs(3) [of S] unfolding placed_def by metis+

lemma backup_paths:
  assumes "placed S mb"
  obtains f where "backup_path_for S mb = backups_dir S @ [f]" "sig_path_for (path_str (backup_path_for S mb)) = backups_dir S @ [f @ ''.sig'']"
proof -
  obtain f where f: "backup_path_for S mb = backups_dir S @ [f]" "plain_component f" using plain_backup [OF assms] by blast
  have "plain_component c" if "c \<in> set (backups_dir S)" for c
    using that assms by (auto simp: placed_def backups_dir_def plain_component_def)
  from sig_path_snoc [OF this f(2)] f(1) show ?thesis by (intro that) simp_all
qed

text \<open>After the backup was made it is a copy of the installed binary, which did not change.\<close>

definition backed_up :: "client_settings \<Rightarrow> managed_binary \<Rightarrow> path option \<Rightarrow> content world \<Rightarrow> bool" where
  "backed_up S mb k w \<longleftrightarrow>
     (\<forall>p. k = Some p \<longrightarrow> p = backup_path_for S mb \<and> file_at w (target mb) \<noteq> None \<and> file_at w p = file_at w (target mb))"

lemma wp_back_up:
  assumes "placed S mb"
  shows "wp (back_up S mb) (\<lambda>k v. file_at v (target mb) = file_at w (target mb) \<and> backed_up S mb k v)
    (\<lambda>_ v. file_at v (target mb) = file_at w (target mb)) w"
proof -
  obtain f where f: "backup_path_for S mb = backups_dir S @ [f]"
      "sig_path_for (path_str (backup_path_for S mb)) = backups_dir S @ [f @ ''.sig'']"
    using assms by (rule backup_paths)
  then have ne: "target mb \<noteq> backup_path_for S mb" "target mb \<noteq> sig_path_for (path_str (backup_path_for S mb))"
      "sig_path_for (path_str (backup_path_for S mb)) \<noteq> backup_path_for S mb"
    using assms by (auto simp: placed_def)
  show ?thesis
    unfolding back_up_def copy_with_signature_def Let_def
    by (auto simp: backed_up_def ne ne(3) [symmetric] intro!: wp_no_change wp_branch wp_copy_file)
qed

definition unless_torn :: "content world \<Rightarrow> client_error \<Rightarrow> bool \<Rightarrow> bool" where
  "unless_torn w e P \<longleftrightarrow> P \<or> (\<not> no_torn w \<and> ((\<exists>e' re. e = CRestoreFailed e' re) \<or> (\<exists>de. e = CDb de)))"

lemma wp_copy_restore:
  assumes "\<And>c w'. file_at w p = Some c \<Longrightarrow> file_at w' = (file_at w)(q \<mapsto> c) \<Longrightarrow> Q () w'"
    and "\<And>e x w'. file_at w' = (file_at w)(q := x) \<Longrightarrow> (no_torn w \<Longrightarrow> file_at w' = file_at w) \<Longrightarrow> E e w'"
  shows "wp (copy_file p q) Q E w"
proof (cases "no_torn w")
  case True
  have same: "E e w'" if "file_at w' = file_at w" for e w' using that assms(2) [of w' "file_at w q"] by simp
  have wr: "wp (write_file q c) Q E v" if "faults v = faults w" "file_at v = file_at w" "file_at w p = Some c" for c v
    by (rule wp_write_clean) (use that True same assms(1) in \<open>auto simp: no_torn_def\<close>)
  show ?thesis
    unfolding copy_file_def wp_bindE
    by (rule wp_schedule [OF schedule_prims(1)], rule wp_read_file) (use same wr in blast)+
next
  case False
  then show ?thesis by (auto intro!: wp_copy_file assms)
qed

lemma wp_abandon_update:
  assumes "placed S mb" "backed_up S mb k v" "\<forall>p. k = Some p \<longrightarrow> file_at v' p = file_at v p"
    and "old_or_genuine L mb u v v'" "file_at v (target mb) = file_at w (target mb)" "no_torn w \<Longrightarrow> no_torn v'"
  shows "wp (abandon_update E S mb n k e) (\<lambda>_ _. False)
    (\<lambda>e x. unless_torn w e (old_or_genuine L mb u w x)) v'"
proof -
  note db = placed_db(1) [OF assms(1)]
  have same: "old_or_genuine L mb u w x" if "file_at x (target mb) = file_at v' (target mb)" for x
    using that assms(4,5) by (auto simp: old_or_genuine_def)
  have ok: "wp (db_timed E (db_path S) op) (\<lambda>_ x. unless_torn w e' (old_or_genuine L mb u w x))
      (\<lambda>e x. unless_torn w e (old_or_genuine L mb u w x)) x"
    if "(\<not> no_torn w \<and> (\<exists>a b. e' = CRestoreFailed a b)) \<or> old_or_genuine L mb u w x" for op :: "string \<Rightarrow> unit db_op" and e' x
    by (rule wp_db_timed) (use that db in \<open>auto simp: unless_torn_def old_or_genuine_def\<close>)
  have restored: "old_or_genuine L mb u w x" if "k = Some p" "file_at v' p = Some c" "file_at x = (file_at v')(target mb \<mapsto> c)" for p c x
    using that assms(2,3,5) by (auto simp: backed_up_def old_or_genuine_def)
  show ?thesis
    unfolding abandon_update_def
    by (auto split: option.split intro!: ok wp_branch wp_copy_restore intro: restored same dest: assms(6))
qed


lemma backup_not_updated:
  assumes "placed S mb" "validate_version_format (ui_version_id u) = Inr ()"
  shows "backup_path_for S mb \<notin> update_files S mb u"
proof -
  obtain f where f: "backup_path_for S mb = backups_dir S @ [f]" using assms(1) by (rule backup_paths)
  have "in_dir (data_dir S) (backup_path_for S mb)" by (simp add: f)
  then have "backup_path_for S mb \<noteq> target mb" "backup_path_for S mb \<noteq> sidecar mb"
    using assms(1) unfolding placed_def by metis+
  moreover have "backup_path_for S mb \<notin> temp_files (butlast (target mb))"
    using placed_parent [OF assms(1)] in_data_dirs(2) [of S "[]"] by (auto simp: f temp_files_def)
  moreover have "backup_path_for S mb \<notin> artifacts S mb u"
    using plain_artifact [OF assms, of "''.diff''"] plain_artifact [OF assms, of "''.tmp''"]
    by (auto simp: f artifacts_def backups_dir_def downloads_dir_def)
  ultimately show ?thesis by (simp add: update_files_def)
qed

lemma wp_finish_installed:
  assumes "placed S mb" "installed L mb u w"
  shows "wp (finish_update L E S mb u n k m) (\<lambda>_ v. installed L mb u v \<and> current_in_db L S mb u v)
    (\<lambda>_ v. installed L mb u v) w"
proof (rule wp_touches_frame [OF touches_finish_update [of S "{db_path S}"]])
  have keep: "installed L mb u v" if "\<forall>p. p \<notin> {db_path S} \<longrightarrow> file_at v p = file_at w p" for v
    using that assms(2) placed_db [OF assms(1)] by (auto simp: installed_def)
  show "wp (finish_update L E S mb u n k m)
     (\<lambda>x v. (\<forall>p. p \<notin> {db_path S} \<longrightarrow> file_at v p = file_at w p) \<longrightarrow> installed L mb u v \<and> current_in_db L S mb u v)
     (\<lambda>e v. (\<forall>p. p \<notin> {db_path S} \<longrightarrow> file_at v p = file_at w p) \<longrightarrow> installed L mb u v) w"
    by (rule wp_mono [OF wp_finish_update]) (use keep in blast)+
qed simp

lemma wp_after_backup:
  assumes pl: "placed S mb" and ver: "validate_version_format (ui_version_id u) = Inr ()"
    and k: "backed_up S mb k v" and old: "file_at v (target mb) = file_at w (target mb)" and nt: "no_torn w \<Longrightarrow> no_torn v"
  shows "wp (bindE (outcome (execute_update L E S mb u)) (\<lambda>result.
     case result of Inr metrics \<Rightarrow> finish_update L E S mb u n k metrics | Inl e \<Rightarrow> abandon_update E S mb n k e))
    (\<lambda>_ x. installed L mb u x \<and> current_in_db L S mb u x)
    (\<lambda>e x. unless_torn w e (old_or_genuine L mb u w x)) v"
  unfolding wp_bindE wp_outcome
proof (rule wp_touches_frame [OF touches_execute_update [OF pl]], rule wp_schedule [OF schedule_execute_update],
    rule wp_mono [OF wp_execute_update [OF pl ver]])
  fix m x assume "installed L mb u x"
  from wp_finish_installed [OF pl this, of E n k m]
  show "faults x = faults v \<longrightarrow> (\<forall>p. p \<notin> update_files S mb u \<longrightarrow> file_at x p = file_at v p) \<longrightarrow>
    wp (case Inr m of Inr metrics \<Rightarrow> finish_update L E S mb u n k metrics | Inl e \<Rightarrow> abandon_update E S mb n k e)
      (\<lambda>_ x. installed L mb u x \<and> current_in_db L S mb u x) (\<lambda>e x. unless_torn w e (old_or_genuine L mb u w x)) x"
    by (auto simp: unless_torn_def old_or_genuine_def installed_def elim!: wp_mono)
next
  fix e x assume og: "old_or_genuine L mb u v x"
  show "faults x = faults v \<longrightarrow> (\<forall>p. p \<notin> update_files S mb u \<longrightarrow> file_at x p = file_at v p) \<longrightarrow>
    wp (case Inl e of Inr metrics \<Rightarrow> finish_update L E S mb u n k metrics | Inl e \<Rightarrow> abandon_update E S mb n k e)
      (\<lambda>_ x. installed L mb u x \<and> current_in_db L S mb u x) (\<lambda>e x. unless_torn w e (old_or_genuine L mb u w x)) x"
  proof (intro impI)
    assume f: "faults x = faults v" and fr: "\<forall>p. p \<notin> update_files S mb u \<longrightarrow> file_at x p = file_at v p"
    have "\<forall>p. k = Some p \<longrightarrow> file_at x p = file_at v p"
      using k fr backup_not_updated [OF pl ver] by (auto simp: backed_up_def)
    moreover have "no_torn w \<Longrightarrow> no_torn x" using nt f by (simp add: no_torn_def)
    ultimately have "wp (abandon_update E S mb n k e) (\<lambda>_ _. False) (\<lambda>e x. unless_torn w e (old_or_genuine L mb u w x)) x"
      by (intro wp_abandon_update [OF pl k _ og old])
    then show "wp (case Inl e of Inr metrics \<Rightarrow> finish_update L E S mb u n k metrics | Inl e \<Rightarrow> abandon_update E S mb n k e)
      (\<lambda>_ x. installed L mb u x \<and> current_in_db L S mb u x) (\<lambda>e x. unless_torn w e (old_or_genuine L mb u w x)) x"
      by (auto elim!: wp_mono)
  qed
qed

lemma wp_apply_update:
  assumes pl: "placed S mb" and ver: "validate_version_format (ui_version_id u) = Inr ()"
  shows "wp (apply_update L E S mb u) (\<lambda>_ x. installed L mb u x \<and> current_in_db L S mb u x)
    (\<lambda>e x. unless_torn w e (old_or_genuine L mb u w x)) w"
proof -
  let ?F = "\<lambda>e x. unless_torn w e (old_or_genuine L mb u w x)"
  have keep: "?F e v" if "file_at v (target mb) = file_at w (target mb)" for e v
    using that by (simp add: unless_torn_def old_or_genuine_same)
  show ?thesis
    unfolding apply_update_def wp_bindE [of "validate_install_path _ _"] wp_bindE [of "check_update_space _ _ _ _ _"]
      wp_bindE [of "db_timed _ _ _"] wp_bindE [of "back_up _ _"]
    apply (rule wp_schedule [OF schedule_checks(1)], rule wp_silent [OF silent_checks(3)], rule impI)
     apply (rule wp_schedule [OF schedule_checks(2)], rule wp_silent [OF silent_checks(7)], rule impI)
      apply (rule wp_schedule [OF schedule_ops(2)], rule wp_db_timed, rule impI)
       apply (rule wp_schedule [OF schedule_checks(3)], rule wp_mono [OF wp_back_up [OF pl]], rule impI)
        apply (rule wp_after_backup [OF pl ver])
          apply (auto simp: placed_db(1) [OF pl, symmetric] no_torn_def intro!: keep)
    done
qed


section \<open>Properties of an update\<close>

text \<open>
  C3: what an update reports as installed was verified. If \<open>apply_update\<close> succeeds, whatever the server and
  the network did and whatever I/O operations failed on the way, then the file at the install path has
  the announced checksum, the file beside it is a 64-byte signature that the publisher's key verifies over
  the hash of these very bytes and this version, and the database names the version as the current one.
\<close>

theorem installed_update_verified:
  assumes "placed S mb" "validate_version_format (ui_version_id u) = Inr ()"
    and "apply_update L E S mb u w = (Inr (), w')"
  shows "\<exists>c sig db b. file_at w' (target mb) = Some c \<and> file_at w' (sig_path_for (install_path mb)) = Some (Bytes sig) \<and>
    parse_hash (ui_checksum u) = Inr (c_blake3 L (content_bytes L c)) \<and> length sig = 64 \<and>
    c_verify L (publisher_public_key mb) (signing_payload (c_blake3 L (content_bytes L c)) (c_show L (ui_version u))) sig \<and>
    file_at w' (db_path S) = Some (Database db) \<and> b \<in> set (managed_binaries db) \<and> mb_id b = mb_id mb \<and>
    current_version_id b = Some (ui_version_id u)"
  using wpD(1) [OF wp_apply_update [OF assms(1,2)] assms(3)]
  by (auto simp: installed_def current_in_db_def genuine_def signed_by_def)

theorem installed_update_verified_witness:
  "\<exists>c. file_at (snd sample_apply) (target sample_managed) = Some c \<and>
     parse_hash (ui_checksum sample_update) = Inr (c_blake3 sample_client_libs (content_bytes sample_client_libs c))"
proof -
  have ver: "validate_version_format (ui_version_id sample_update) = Inr ()" unfolding sample_fields by code_simp
  have "sample_apply = (Inr (), snd sample_apply)" unfolding sample_apply_ok [symmetric] by (rule prod.collapse [symmetric])
  from installed_update_verified [OF sample_placed ver this] show ?thesis by blast
qed

text \<open>
  C5: a failed update leaves the old binary or the verified new one. If \<open>apply_update\<close> reports an error, the
  file at the install path is the one that was there before, or it has the announced checksum and a valid
  signature of the publisher exists for it. The exception is a write of the backup that fails half-way: then
  the error says that the backup could not be restored, or is an error of the database, which hides it.
\<close>

theorem failed_update_old_or_verified:
  assumes "placed S mb" "validate_version_format (ui_version_id u) = Inr ()"
    and "apply_update L E S mb u w = (Inl e, w')"
  shows "file_at w' (target mb) = file_at w (target mb) \<or>
    (\<exists>c sig. file_at w' (target mb) = Some c \<and> parse_hash (ui_checksum u) = Inr (c_blake3 L (content_bytes L c)) \<and>
       signed_by L (publisher_public_key mb) (c_show L (ui_version u)) (c_blake3 L (content_bytes L c)) sig) \<or>
    (\<not> no_torn w \<and> ((\<exists>e' re. e = CRestoreFailed e' re) \<or> (\<exists>de. e = CDb de)))"
  using wpD(2) [OF wp_apply_update [OF assms(1,2)] assms(3)]
  by (auto simp: unless_torn_def old_or_genuine_def genuine_def)

theorem failed_update_old_or_verified_witness:
  "\<exists>w'. apply_update sample_client_libs (sample_env (\<lambda>_. None)) sample_settings sample_managed sample_update sample_client_world
     = (Inl (CDownloadFailed 3 CHttpSend), w') \<and>
   (file_at w' (target sample_managed) = file_at sample_client_world (target sample_managed) \<or>
    (\<exists>c. file_at w' (target sample_managed) = Some c \<and>
       parse_hash (ui_checksum sample_update) = Inr (c_blake3 sample_client_libs (content_bytes sample_client_libs c))))"
proof -
  have ver: "validate_version_format (ui_version_id sample_update) = Inr ()" unfolding sample_fields by code_simp
  obtain w' where w': "apply_update sample_client_libs (sample_env (\<lambda>_. None)) sample_settings sample_managed sample_update sample_client_world
     = (Inl (CDownloadFailed 3 CHttpSend), w')" using sample_offline by (metis prod.collapse)
  from failed_update_old_or_verified [OF sample_placed ver w'] w' show ?thesis by blast
qed

end
