(* ===== verification/Rollback.thy ===== *)
theory Rollback
  imports Update_Safety
begin

text \<open>
  The rollback to a backup (\<open>crates/deltaship-client/src/commands/rollback.rs\<close>, and \<open>rollback_to_backup\<close>
  of \<open>patcher.rs\<close>, a variant without the checks of the install path that no command calls).
\<close>

section \<open>Operations\<close>

definition db_get :: "client_settings \<Rightarrow> 'a db_op \<Rightarrow> (content, client_error, 'a) io" where
  "db_get S op = map_err CDb (db_run (db_path S) op)"

text \<open>The file is the one that was recorded, and the publisher signed it for the recorded version.\<close>

definition verify_backup :: "client_libs \<Rightarrow> managed_binary \<Rightarrow> rollback_backup \<Rightarrow> (content, client_error, unit) io" where
  "verify_backup L mb backup =
     bindE (get_world (path_exists (path_of (backup_path backup)))) (\<lambda>ex.
     if \<not> ex then throwE (CMissing ''backup file'')
     else if length (backup_hash_blake3 backup) \<noteq> 32 then throwE (CBadLength ''backup hash'')
     else
       bindE (map_err CIo (hash_file L (path_of (backup_path backup)))) (\<lambda>actual_hash.
       if backup_hash_blake3 backup \<noteq> actual_hash then throwE CChecksumMismatch
       else verify_backup_signature L (backup_path backup) (publisher_public_key mb) (rb_version_string backup)))"

definition restore_sidecar :: "managed_binary \<Rightarrow> rollback_backup \<Rightarrow> (content, client_error, unit) io" where
  "restore_sidecar mb backup =
     bindE (get_world (path_exists (sig_path_for (backup_path backup)))) (\<lambda>ex.
     if ex then map_err CIo (copy_file (sig_path_for (backup_path backup)) (sig_path_for (install_path mb))) else returnE ())"

definition rollback_to_backup ::
  "client_libs \<Rightarrow> client_env \<Rightarrow> client_settings \<Rightarrow> managed_binary \<Rightarrow> nat \<Rightarrow> (content, client_error, unit) io" where
  "rollback_to_backup L E S mb backup_id =
     bindE (db_get S (get_backup backup_id)) (\<lambda>found.
     bindE (from_sum (required ''backup'' found)) (\<lambda>backup.
     bindE (verify_backup L mb backup) (\<lambda>_.
     bindE (map_err CIo (copy_file (path_of (backup_path backup)) (target mb))) (\<lambda>_.
     bindE (restore_sidecar mb backup) (\<lambda>_.
     bindE set_permissions (\<lambda>_.
     db_timed E (db_path S) (\<lambda>now. update_current_version now (mb_id mb) (rb_version_id backup) (rb_version_string backup))))))))"

definition file_safe :: "string \<Rightarrow> string" where
  "file_safe s = map (\<lambda>c. if c \<in> {CHR ''/'', CHR 0x5C, CHR '' ''} then CHR ''_'' else c) s"

definition pre_rollback_path :: "client_settings \<Rightarrow> managed_binary \<Rightarrow> path" where
  "pre_rollback_path S mb = path_join (backups_dir S)
     (mb_name mb @ ''_'' @ file_safe (case current_version_string mb of Some v \<Rightarrow> v | None \<Rightarrow> ''(unknown)'') @ ''_pre_rollback.backup'')"

definition record_pre_rollback ::
  "client_libs \<Rightarrow> client_env \<Rightarrow> client_settings \<Rightarrow> managed_binary \<Rightarrow> path \<Rightarrow> (content, client_error, unit) io" where
  "record_pre_rollback L E S mb snapshot =
     (case (current_version_id mb, current_version_string mb) of
        (Some version_id, Some version_string) \<Rightarrow>
          bindE (map_err CIo (hash_file L snapshot)) (\<lambda>backup_hash.
          bindE (map_err CIo (file_len L snapshot)) (\<lambda>backup_size.
          bindE (observe (in_30_days E)) (\<lambda>expires.
          bindE (db_timed E (db_path S) (\<lambda>now. create_backup (c_parse L) now (mb_id mb) version_id version_string
            (path_str snapshot) backup_hash (int backup_size) (Some expires))) (\<lambda>_. returnE ()))))
      | _ \<Rightarrow> returnE ())"

text \<open>The running version is backed up first, so that the rollback can be undone.\<close>

definition pre_rollback_backup ::
  "client_libs \<Rightarrow> client_env \<Rightarrow> client_settings \<Rightarrow> managed_binary \<Rightarrow> (content, client_error, unit) io" where
  "pre_rollback_backup L E S mb =
     bindE (get_world (path_exists (target mb))) (\<lambda>ex.
     if \<not> ex then returnE ()
     else
       let snapshot = pre_rollback_path S mb in
       bindE (map_err CIo (create_dir_all (backups_dir S))) (\<lambda>_.
       bindE (copy_with_signature (target mb) snapshot (sig_path_for (install_path mb)) (sig_path_for (path_str snapshot))) (\<lambda>_.
       record_pre_rollback L E S mb snapshot)))"

text \<open>The backup is copied to a temporary file beside the install path and renamed.\<close>

definition restore_backup :: "client_env \<Rightarrow> managed_binary \<Rightarrow> rollback_backup \<Rightarrow> (content, client_error, unit) io" where
  "restore_backup E mb backup =
     bindE (from_sum (required ''parent directory'' (parent (target mb)))) (\<lambda>parent_dir.
     with_temp E parent_dir (\<lambda>temp_path.
       bindE (map_err CIo (copy_file (path_of (backup_path backup)) temp_path)) (\<lambda>_.
       bindE set_permissions (\<lambda>_.
       bindE (validate_install_path E (target mb)) (\<lambda>_.
       persist temp_path (target mb))))))"

definition choose_backup :: "string option \<Rightarrow> rollback_backup list \<Rightarrow> client_error + rollback_backup" where
  "choose_backup to_version backups =
     (if backups = [] then Inl (CMissing ''backups'')
      else case to_version of
        Some v \<Rightarrow> required ''backup'' (find_first (\<lambda>b. rb_version_string b = v) backups)
      | None \<Rightarrow> Inr (hd backups))"

definition finish_rollback :: "client_env \<Rightarrow> client_settings \<Rightarrow> managed_binary \<Rightarrow> rollback_backup \<Rightarrow> (content, client_error, unit) io" where
  "finish_rollback E S mb backup =
     bindE (restore_sidecar mb backup) (\<lambda>_.
     bindE (db_timed E (db_path S) (\<lambda>now. update_current_version now (mb_id mb) (rb_version_id backup) (rb_version_string backup))) (\<lambda>_.
     bindE (db_timed E (db_path S) (\<lambda>now. record_rollback now (mb_id mb) (current_version_id mb) (current_version_string mb)
       (rb_version_id backup) (rb_version_string backup))) (\<lambda>_.
     returnE ())))"

definition perform_rollback ::
  "client_libs \<Rightarrow> client_env \<Rightarrow> client_settings \<Rightarrow> string \<Rightarrow> string option \<Rightarrow> (content, client_error, unit) io" where
  "perform_rollback L E S binary_name to_version =
     bindE (db_get S (get_binary_by_name binary_name)) (\<lambda>found.
     bindE (from_sum (required ''binary'' found)) (\<lambda>mb.
     bindE (db_get S (list_backups (mb_id mb))) (\<lambda>backups.
     bindE (from_sum (choose_backup to_version backups)) (\<lambda>backup.
     bindE (verify_backup L mb backup) (\<lambda>_.
     bindE (validate_install_path E (target mb)) (\<lambda>_.
     bindE (pre_rollback_backup L E S mb) (\<lambda>_.
     bindE (restore_backup E mb backup) (\<lambda>_.
     finish_rollback E S mb backup))))))))"


section \<open>What is restored\<close>

definition authentic :: "client_libs \<Rightarrow> managed_binary \<Rightarrow> rollback_backup \<Rightarrow> content \<Rightarrow> bool" where
  "authentic L mb r c \<longleftrightarrow> backup_hash_blake3 r = c_blake3 L (content_bytes L c) \<and>
     (\<exists>sig. signed_by L (publisher_public_key mb) (rb_version_string r) (c_blake3 L (content_bytes L c)) sig)"

lemma wp_verify_backup:
  assumes "\<And>c w'. file_at w' = file_at w \<Longrightarrow> file_at w (path_of (backup_path r)) = Some c \<Longrightarrow> authentic L mb r c \<Longrightarrow> Q () w'"
    and "\<And>e w'. file_at w' = file_at w \<Longrightarrow> F e w'"
  shows "wp (verify_backup L mb r) Q F w"
  unfolding verify_backup_def verify_backup_signature_def
  by (auto intro!: wp_hash_file wp_read_bytes assms(2))
     (rule assms(1), assumption, assumption, auto simp: authentic_def signed_by_def)

lemma touches_restore_sidecar [intro]: "sidecar mb \<in> T \<Longrightarrow> touches T (restore_sidecar mb r)"
  unfolding restore_sidecar_def by (auto intro!: touches_intros touches_client)

lemma touches_record_pre_rollback: "db_path S \<in> T \<Longrightarrow> touches T (record_pre_rollback L E S mb p)"
  unfolding record_pre_rollback_def
  by (auto split: option.split intro!: touches_intros touches_client touches_observe)

lemma pre_rollback_paths:
  assumes "placed S mb"
  obtains f where "pre_rollback_path S mb = backups_dir S @ [f]" "sig_path_for (path_str (pre_rollback_path S mb)) = backups_dir S @ [f @ ''.sig'']"
proof -
  define f where "f = mb_name mb @ ''_'' @
    file_safe (case current_version_string mb of Some v \<Rightarrow> v | None \<Rightarrow> ''(unknown)'') @ ''_pre_rollback.backup''"
  have "CHR ''/'' \<notin> set (mb_name mb)" "mb_name mb \<noteq> []" using assms valid_name_plain by (auto simp: placed_def)
  then have f: "plain_component f"
    by (auto simp: f_def file_safe_def plain_component_def append_eq_Cons_conv)
  have pre: "pre_rollback_path S mb = backups_dir S @ [f]"
    unfolding pre_rollback_path_def f_def [symmetric] by (rule path_join_plain [OF f])
  have "plain_component c" if "c \<in> set (backups_dir S)" for c
    using that assms by (auto simp: placed_def backups_dir_def plain_component_def)
  from sig_path_snoc [OF this f] show ?thesis by (intro that [OF pre]) (simp_all add: pre)
qed

lemma wp_pre_rollback_backup:
  assumes pl: "placed S mb" and p: "p = backups_dir S @ [g @ ''.backup'']"
  shows "wp (pre_rollback_backup L E S mb)
    (\<lambda>_ v. file_at v p = file_at w p \<or> p = pre_rollback_path S mb \<and> file_at v p = file_at w (target mb)) (\<lambda>_ _. True) w"
proof -
  obtain f where f: "pre_rollback_path S mb = backups_dir S @ [f]" "sig_path_for (path_str (pre_rollback_path S mb)) = backups_dir S @ [f @ ''.sig'']"
    using pl by (rule pre_rollback_paths)
  have "last (g @ ''.backup'') \<noteq> last (f @ ''.sig'')" by simp
  then have "p \<noteq> backups_dir S @ [f @ ''.sig'']" by (auto simp: p)
  then have ne: "p \<noteq> sig_path_for (path_str (pre_rollback_path S mb))" "p \<noteq> db_path S"
    unfolding f(2) by (simp_all add: f(1) p db_path_def backups_dir_def)
  define Q where "Q = (\<lambda>v. file_at v p = file_at w p \<or> p = pre_rollback_path S mb \<and> file_at v p = file_at w (target mb))"
  have tail: "wp (record_pre_rollback L E S mb (pre_rollback_path S mb)) (\<lambda>_ v. Q v) (\<lambda>_ _. True) v" if "Q v" for v
    by (rule wp_touches_any [OF touches_record_pre_rollback [of S "{db_path S}"]]) (use that ne(2) in \<open>simp_all add: Q_def\<close>)
  have start: "Q v" if "file_at v p = file_at w p" for v using that by (simp add: Q_def)
  have copied: "Q v" if "file_at w (target mb) = Some c" "file_at v = (file_at w)(pre_rollback_path S mb \<mapsto> c)" for v c
    using that by (auto simp: Q_def)
  have signed: "Q v" if "file_at w (target mb) = Some c"
      "file_at v = (file_at w)(pre_rollback_path S mb \<mapsto> c, sig_path_for (path_str (pre_rollback_path S mb)) \<mapsto> ca)" for v c ca
    using that ne(1) by (auto simp: Q_def)
  have "wp (pre_rollback_backup L E S mb) (\<lambda>_ v. Q v) (\<lambda>_ _. True) w"
    unfolding pre_rollback_backup_def copy_with_signature_def Let_def
    by (auto intro!: wp_no_change wp_copy_file tail intro: start copied signed)
  then show ?thesis by (simp add: Q_def)
qed

lemma wp_restore_backup:
  assumes pl: "placed S mb" and r: "path_of (backup_path r) = backups_dir S @ [g]"
  shows "wp (restore_backup E mb r) (\<lambda>_ v. \<exists>c. file_at w (path_of (backup_path r)) = Some c \<and> file_at v (target mb) = Some c)
    (\<lambda>_ _. True) w"
proof -
  obtain d f where t: "target mb = d @ [f]" "\<not> starts_with f ''.tmp''" using pl by (rule placed_split)
  have "d \<noteq> backups_dir S" using placed_parent [OF pl] in_data_dirs(2) [of S "[]"] by (auto simp: t(1))
  then have bp: "path_of (backup_path r) \<noteq> d @ [x]" for x by (simp add: r)
  have body: "wp (bindE (map_err CIo (copy_file (path_of (backup_path r)) temp)) (\<lambda>_. bindE set_permissions (\<lambda>_.
       bindE (validate_install_path E (target mb)) (\<lambda>_. persist temp (target mb)))))
     (\<lambda>_ v. \<exists>c. file_at w (path_of (backup_path r)) = Some c \<and> file_at v (target mb) = Some c)
     (\<lambda>e v. \<forall>v' x. file_at v' = (file_at v)(temp := x) \<longrightarrow> True) u"
    if "temp = d @ [x]" "file_at u = (file_at w)(temp \<mapsto> Bytes [])" for temp u x
    unfolding wp_bindE wp_map_err
    by (rule wp_copy_file, rule wp_silent [OF silent_checks(8)], rule wp_silent [OF silent_checks(3)], rule wp_persist)
       (use that bp in auto)
  have "wp (with_temp E d (\<lambda>temp. bindE (map_err CIo (copy_file (path_of (backup_path r)) temp)) (\<lambda>_. bindE set_permissions (\<lambda>_.
       bindE (validate_install_path E (target mb)) (\<lambda>_. persist temp (target mb))))))
     (\<lambda>_ v. \<exists>c. file_at w (path_of (backup_path r)) = Some c \<and> file_at v (target mb) = Some c) (\<lambda>_ _. True) w"
    by (rule wp_with_temp) (rule body, assumption+, simp)
  then show ?thesis
    unfolding restore_backup_def wp_bindE [of "from_sum _"] using t(1)
    by (simp add: required_def parent_def del: wp_bindE wp_seq_fun)
qed

lemma choose_backup_mem:
  "choose_backup v bs = Inr r \<Longrightarrow> r \<in> set bs \<and> (\<forall>x. v = Some x \<longrightarrow> rb_version_string r = x)"
  by (auto simp: choose_backup_def required_def split: if_splits option.splits dest: find_first_Some)

lemma wp_db_get:
  assumes "\<And>db x db' w'. file_at w (db_path S) = Some (Database db) \<Longrightarrow> op db = Inr (x, db') \<Longrightarrow>
      file_at w' = (file_at w)(db_path S \<mapsto> Database db') \<Longrightarrow> Q x w'"
    and "\<And>e w'. file_at w' = file_at w \<Longrightarrow> F e w'"
  shows "wp (db_get S op) Q F w"
  unfolding db_get_def using assms by (auto intro!: wp_db_run)

definition recorded_current :: "client_settings \<Rightarrow> managed_binary \<Rightarrow> rollback_backup \<Rightarrow> content world \<Rightarrow> bool" where
  "recorded_current S mb r w \<longleftrightarrow>
     (\<exists>db b. file_at w (db_path S) = Some (Database db) \<and> b \<in> set (managed_binaries db) \<and> mb_id b = mb_id mb \<and>
        current_version_id b = Some (rb_version_id r) \<and> current_version_string b = Some (rb_version_string r))"

lemma record_rollback_binaries: "record_rollback now bid a b c d db = Inr (x, db') \<Longrightarrow> managed_binaries db' = managed_binaries db"
  by (auto simp: record_rollback_def insert_history_def split: if_splits)

text \<open>From the restored binary on only the signature beside it and the database change.\<close>

lemma wp_finish_rollback:
  assumes pl: "placed S mb" and c: "file_at w (target mb) = Some c"
  shows "wp (finish_rollback E S mb r) (\<lambda>_ v. file_at v (target mb) = Some c \<and> recorded_current S mb r v) (\<lambda>_ _. True) w"
proof -
  have last: "wp (db_timed E (db_path S) (\<lambda>now. record_rollback now (mb_id mb) (current_version_id mb) (current_version_string mb)
       (rb_version_id r) (rb_version_string r))) (\<lambda>_ v. file_at v (target mb) = Some c \<and> recorded_current S mb r v) (\<lambda>_ _. True) v"
    if "file_at v (target mb) = Some c" "recorded_current S mb r v" for v
    by (rule wp_db_timed) (use that placed_db(1) [OF pl, symmetric] in \<open>auto simp: recorded_current_def dest!: record_rollback_binaries\<close>)
  have upd: "wp (db_timed E (db_path S) (\<lambda>now. update_current_version now (mb_id mb) (rb_version_id r) (rb_version_string r)))
      (\<lambda>_ v. file_at v (target mb) = Some c \<and> recorded_current S mb r v) (\<lambda>_ _. True) v" if "file_at v (target mb) = Some c" for v
    by (rule wp_db_timed) (use that placed_db(1) [OF pl, symmetric] in \<open>auto simp: recorded_current_def dest!: update_current_version_result\<close>)
  show ?thesis
    unfolding finish_rollback_def wp_bindE [of "restore_sidecar _ _"]
    by (rule wp_touches_any [OF touches_restore_sidecar [of mb "{sidecar mb}"]])
       (use c sidecar_distinct [OF pl] in \<open>auto intro!: wp_mono [OF upd] last\<close>)
qed


definition restored_ok :: "client_libs \<Rightarrow> client_settings \<Rightarrow> managed_binary \<Rightarrow> content world \<Rightarrow> rollback_backup \<Rightarrow> content world \<Rightarrow> bool" where
  "restored_ok L S mb w r v \<longleftrightarrow> recorded_current S mb r v \<and>
     (\<exists>c. file_at w (path_of (backup_path r)) = Some c \<and> authentic L mb r c \<and>
        (file_at v (target mb) = Some c \<or>
         path_of (backup_path r) = pre_rollback_path S mb \<and> file_at v (target mb) = file_at w (target mb)))"

lemma wp_verified_rollback:
  assumes pl: "placed S mb" and r: "path_of (backup_path r) = backups_dir S @ [g @ ''.backup'']"
    and c: "file_at w (path_of (backup_path r)) = Some c" "authentic L mb r c"
  shows "wp (bindE (validate_install_path E (target mb)) (\<lambda>_. bindE (pre_rollback_backup L E S mb) (\<lambda>_.
     bindE (restore_backup E mb r) (\<lambda>_. finish_rollback E S mb r)))) (\<lambda>_ v. restored_ok L S mb w r v) (\<lambda>_ _. True) w"
proof -
  have fin: "wp (finish_rollback E S mb r) (\<lambda>_ v. restored_ok L S mb w r v) (\<lambda>_ _. True) v"
    if "file_at v (target mb) = Some x" "x = c \<or> path_of (backup_path r) = pre_rollback_path S mb \<and> file_at w (target mb) = Some x" for v x
    by (rule wp_mono [OF wp_finish_rollback [OF pl that(1)]]) (use that(2) c in \<open>auto simp: restored_ok_def\<close>)
  have res: "wp (bindE (restore_backup E mb r) (\<lambda>_. finish_rollback E S mb r)) (\<lambda>_ v. restored_ok L S mb w r v) (\<lambda>_ _. True) v"
    if "file_at v (path_of (backup_path r)) = Some c \<or> path_of (backup_path r) = pre_rollback_path S mb \<and> file_at v (path_of (backup_path r)) = file_at w (target mb)" for v
    unfolding wp_bindE
    by (rule wp_mono [OF wp_restore_backup [OF pl r]]) (use that c(2) in \<open>auto intro: fin\<close>)
  have pre: "wp (bindE (pre_rollback_backup L E S mb) (\<lambda>_. bindE (restore_backup E mb r) (\<lambda>_. finish_rollback E S mb r)))
      (\<lambda>_ v. restored_ok L S mb w r v) (\<lambda>_ _. True) v" if "file_at v = file_at w" for v
    unfolding wp_bindE [of "pre_rollback_backup _ _ _ _"]
    by (rule wp_mono [OF wp_pre_rollback_backup [OF pl r]]) (use that c(1) in \<open>auto intro!: res simp del: wp_bindE wp_seq_fun\<close>)
  show ?thesis
    unfolding wp_bindE [of "validate_install_path _ _"]
    by (rule wp_silent [OF silent_checks(3)]) (auto intro!: pre simp del: wp_bindE wp_seq_fun)
qed

lemma wp_perform_rollback:
  assumes db: "file_at w (db_path S) = Some (Database db)" "find_first (\<lambda>b. mb_name b = name) (managed_binaries db) = Some mb"
    and pl: "placed S mb"
    and bks: "\<forall>r \<in> set (rollback_backups db). \<exists>g. path_of (backup_path r) = backups_dir S @ [g @ ''.backup'']"
  shows "wp (perform_rollback L E S name v) (\<lambda>_ x. \<exists>r \<in> set (rollback_backups db). rb_binary_id r = mb_id mb \<and>
      (\<forall>s. v = Some s \<longrightarrow> rb_version_string r = s) \<and> restored_ok L S mb w r x) (\<lambda>_ _. True) w"
proof -
  let ?Q = "\<lambda>x. \<exists>r \<in> set (rollback_backups db). rb_binary_id r = mb_id mb \<and>
      (\<forall>s. v = Some s \<longrightarrow> rb_version_string r = s) \<and> restored_ok L S mb w r x"
  let ?rest = "\<lambda>r. bindE (validate_install_path E (target mb)) (\<lambda>_. bindE (pre_rollback_backup L E S mb) (\<lambda>_.
     bindE (restore_backup E mb r) (\<lambda>_. finish_rollback E S mb r)))"
  have chosen: "wp (bindE (verify_backup L mb r) (\<lambda>_. ?rest r)) (\<lambda>_. ?Q) (\<lambda>_ _. True) u"
    if "file_at u = file_at w" "choose_backup v (newest_backups (mb_id mb) db) = Inr r" for u r
  proof -
    have r: "r \<in> set (rollback_backups db)" "rb_binary_id r = mb_id mb" "\<forall>s. v = Some s \<longrightarrow> rb_version_string r = s"
      using choose_backup_mem [OF that(2)] by (auto simp: newest_backups_def set_sort_by)
    obtain g where g: "path_of (backup_path r) = backups_dir S @ [g @ ''.backup'']" using bks r(1) by blast
    show ?thesis
      unfolding wp_bindE [of "verify_backup _ _ _"]
    proof (rule wp_verify_backup)
      fix c u' assume u': "file_at u' = file_at u" "file_at u (path_of (backup_path r)) = Some c" "authentic L mb r c"
      have "wp (?rest r) (\<lambda>_ x. restored_ok L S mb u' r x) (\<lambda>_ _. True) u'"
        by (rule wp_verified_rollback [OF pl g _ u'(3)]) (use u' in simp)
      then show "wp (?rest r) (\<lambda>_. ?Q) (\<lambda>_ _. True) u'"
        by (rule wp_mono) (use r u'(1) that(1) in \<open>auto simp: restored_ok_def\<close>)
    qed simp
  qed
  show ?thesis
    unfolding perform_rollback_def wp_bindE [of "db_get _ _"] wp_bindE [of "from_sum _"] 
    by (rule wp_db_get) (use db in \<open>auto simp: get_binary_by_name_def required_def list_backups_def fun_upd_idem_iff
        simp del: wp_bindE wp_seq_fun split: sum.split option.splits intro!: wp_db_get chosen\<close>)
qed


section \<open>Properties\<close>

text \<open>
  C6: a rollback restores what the publisher signed. Let the recorded backups be files of the backups directory. If
  \<open>perform_rollback\<close> succeeds, a recorded backup of the binary, of the requested version if one was requested, was
  chosen; its file had the recorded hash and a valid signature of the publisher for that version; the database
  names that version as the current one; and the file at the install path has the bytes of that backup. The one
  exception is a backup that is the very file to which the running binary is saved first: then the
  installed file may be the one that was there before.
\<close>

theorem rollback_restores_authentic:
  assumes "file_at w (db_path S) = Some (Database db)" "find_first (\<lambda>b. mb_name b = name) (managed_binaries db) = Some mb"
    and "placed S mb" "\<forall>r \<in> set (rollback_backups db). \<exists>g. path_of (backup_path r) = backups_dir S @ [g @ ''.backup'']"
    and "perform_rollback L E S name v w = (Inr (), w')"
  shows "\<exists>r \<in> set (rollback_backups db). rb_binary_id r = mb_id mb \<and> (\<forall>s. v = Some s \<longrightarrow> rb_version_string r = s) \<and>
    recorded_current S mb r w' \<and>
    (\<exists>c. file_at w (path_of (backup_path r)) = Some c \<and> backup_hash_blake3 r = c_blake3 L (content_bytes L c) \<and>
       (\<exists>sig. signed_by L (publisher_public_key mb) (rb_version_string r) (c_blake3 L (content_bytes L c)) sig) \<and>
       (file_at w' (target mb) = Some c \<or>
        path_of (backup_path r) = pre_rollback_path S mb \<and> file_at w' (target mb) = file_at w (target mb)))"
  using wpD(1) [OF wp_perform_rollback [OF assms(1-4)] assms(5)]
  unfolding restored_ok_def authentic_def by blast

definition sample_row :: "nat \<Rightarrow> string \<Rightarrow> installed_version" where
  "sample_row n v = \<lparr>iv_id = n, iv_binary_id = ''id'', iv_version_id = v, iv_version_string = v, iv_hash_blake3 = sample_hash,
     iv_hash_sha256 = sample_hash, iv_size_bytes = 2, installed_at = ''t'', is_current = (n = 2)\<rparr>"

definition sample_backup :: rollback_backup where
  "sample_backup = \<lparr>rb_id = 1, rb_binary_id = ''id'', rb_version_id = ''1.0.0'', rb_version_string = ''1.0.0'',
     backup_path = ''/d/backups/app_1.0.0.backup'', backup_hash_blake3 = sample_hash, backup_size_bytes = 2, rb_created_at = ''t'', expires_at = None\<rparr>"

definition sample_updated :: managed_binary where
  "sample_updated = sample_managed\<lparr>current_version_id := Some ''2.0.0'', current_version_string := Some ''2.0.0''\<rparr>"

definition sample_rollback_db :: client_db where
  "sample_rollback_db = (initial_db ''t'')\<lparr>managed_binaries := [sample_updated], installed_versions := [sample_row 1 ''1.0.0'', sample_row 2 ''2.0.0''],
     rollback_backups := [sample_backup], next_installed := 3, next_backup := 2\<rparr>"

definition sample_old_sig :: bytes where
  "sample_old_sig = sample_key @ take 32 (rev (signing_payload sample_hash ''1.0.0''))"

definition sample_rollback_world :: "content world" where
  "sample_rollback_world = quiet_world [([''d''], Dir), ([''d'', ''client.db''], File (Database sample_rollback_db)), ([''o''], Dir),
     ([''o'', ''app''], File (Bytes [9])), ([''d'', ''backups''], Dir), ([''d'', ''backups'', ''app_1.0.0.backup''], File (Bytes [7, 8])),
     ([''d'', ''backups'', ''app_1.0.0.backup.sig''], File (Bytes sample_old_sig))] 0"

abbreviation sample_rollback :: "(client_error + unit) \<times> content world" where
  "sample_rollback \<equiv> perform_rollback sample_client_libs (sample_env (\<lambda>_. None)) sample_settings ''app'' None sample_rollback_world"

lemma sample_rollback_fields:
  "mb_id sample_updated = ''id''" "mb_name sample_updated = ''app''" "install_path sample_updated = ''/o/app''"
  "current_version_id sample_updated = Some ''2.0.0''" "current_version_string sample_updated = Some ''2.0.0''"
  "publisher_public_key sample_updated = sample_key"
  "path_of (backup_path sample_backup) = [''d'', ''backups'', ''app_1.0.0.backup'']"
  "sig_path_for (backup_path sample_backup) = [''d'', ''backups'', ''app_1.0.0.backup.sig'']"
  "backup_hash_blake3 sample_backup = sample_hash" "rb_version_string sample_backup = ''1.0.0''" "rb_version_id sample_backup = ''1.0.0''"
  "rb_binary_id sample_backup = ''id''"
  by (simp_all add: sample_updated_def sample_managed_def sample_backup_def path_of_def sig_path_for_def path_components_def)

lemma sample_updated_placed: "placed sample_settings sample_updated"
proof -
  have "target sample_updated = [''o'', ''app'']" "sidecar sample_updated = [''o'', ''app.sig'']"
    by (simp_all add: sample_rollback_fields sample_paths)
  then show ?thesis
    unfolding placed_def
    by (auto simp: sample_settings_def sample_rollback_fields path_str_def in_dir_def starts_with_def validate_binary_name_def
        ascii_defs plain_component_def)
qed

lemma sample_old_sig: "length sample_old_sig = 64" "take 32 sample_old_sig = sample_key"
  "drop 32 sample_old_sig = take 32 (rev (signing_payload sample_hash ''1.0.0''))"
  by (simp_all add: sample_old_sig_def sample_key_def sample_hash signing_payload_def SIGNING_DOMAIN_TAG_def)

lemma sample_verify_backup:
  "map_of xs [''d'', ''backups'', ''app_1.0.0.backup''] = Some (File (Bytes [7, 8])) \<Longrightarrow>
   map_of xs [''d'', ''backups'', ''app_1.0.0.backup.sig''] = Some (File (Bytes sample_old_sig)) \<Longrightarrow>
   verify_backup sample_client_libs sample_updated sample_backup (quiet_world xs n) = (Inr (), quiet_world xs (n + 3))"
  by (simp add: verify_backup_def verify_backup_signature_def sample_rollback_fields run_steps run_client run_files sample_blake3 sample_hash(3)
      sample_old_sig sample_sig(3) sample_lib_fields(4,5))

lemma sample_expiry: "validate_expires_at_timestamp ''2025-01-31 00:00:00'' = Inr ()"
  by code_simp

lemma sample_env_expiry: "in_30_days (sample_env srv) n = ''2025-01-31 00:00:00''"
  by (simp add: sample_env_def)

lemma sample_rollback_ok: "fst sample_rollback = Inr ()"
  apply (simp add: perform_rollback_def db_get_def sample_rollback_world_def run_steps db_run_def get_binary_by_name_def required_def
    sample_fields sample_rollback_db_def initial_db_def sample_rollback_fields set_node_def list_backups_def newest_backups_def choose_backup_def
    sort_by_def sample_verify_backup sample_paths sample_validate)
  apply (simp add: pre_rollback_backup_def sample_rollback_fields sample_paths run_steps run_client run_files pre_rollback_path_def 
     sample_fields file_safe_def path_join_def starts_with_def path_components_def copy_with_signature_def
     record_pre_rollback_def create_backup_def run_db sample_lib_fields(1,6) sample_norm sample_env_fields sample_env_expiry insert_backup_def sample_expiry)
  apply (simp add: restore_backup_def finish_rollback_def run_steps run_client run_files sample_rollback_fields sample_paths required_def
     persist_def set_permissions_def sample_validate sample_env_fields restore_sidecar_def run_db record_rollback_def sample_row_def sample_fields)
  done

theorem rollback_restores_authentic_witness:
  "\<exists>c. file_at (snd sample_rollback) (target sample_updated) = Some c \<and>
    c_blake3 sample_client_libs (content_bytes sample_client_libs c) = sample_hash"
proof -
  have db: "file_at sample_rollback_world (db_path sample_settings) = Some (Database sample_rollback_db)"
    by (simp add: file_at_def lookup_def sample_rollback_world_def sample_fields)
  have mb: "find_first (\<lambda>b. mb_name b = ''app'') (managed_binaries sample_rollback_db) = Some sample_updated"
    by (simp add: sample_rollback_db_def sample_rollback_fields)
  have bk: "\<forall>r \<in> set (rollback_backups sample_rollback_db). \<exists>g. path_of (backup_path r) = backups_dir sample_settings @ [g @ ''.backup'']"
    by (simp add: sample_rollback_db_def sample_rollback_fields sample_fields)
  have run: "sample_rollback = (Inr (), snd sample_rollback)" unfolding sample_rollback_ok [symmetric] by (rule prod.collapse [symmetric])
  have pre: "path_of (backup_path sample_backup) \<noteq> pre_rollback_path sample_settings sample_updated"
    by (simp add: pre_rollback_path_def sample_rollback_fields sample_fields file_safe_def path_join_def starts_with_def path_components_def)
  from rollback_restores_authentic [OF db mb sample_updated_placed bk run] pre
  show ?thesis by (auto simp: sample_rollback_db_def sample_rollback_fields)
qed

end
