(* ===== verification/Update_Check.thy ===== *)
theory Update_Check
  imports Update_Safety
begin

text \<open>
  Asking the server for an update (\<open>checker.rs\<close>): the request, what is accepted of the answer, and which
  errors are tried again. The JSON decoder is a parameter; so is the text of an error, which the decision
  to try again looks at.
\<close>

section \<open>What an answer means\<close>

definition absolutize :: "client_settings \<Rightarrow> string option \<Rightarrow> string option" where
  "absolutize S url = map_option (\<lambda>u. if starts_with u ''/'' then trim_end_char (CHR ''/'') (server_url S) @ u else u) url"

text \<open>An answer that announces an update has to name a version and a checksum; the version and its
  identifier have to be of the validated form.\<close>

definition checked_version :: "string \<Rightarrow> client_error + unit" where
  "checked_version v = (case validate_version_format v of Inl e \<Rightarrow> Inl (CInvalidVersion e) | Inr _ \<Rightarrow> Inr ())"

definition offered_update ::
  "client_libs \<Rightarrow> client_settings \<Rightarrow> update_check_response \<Rightarrow> string option \<Rightarrow> client_error + update_info option" where
  "offered_update L S base version_id_opt =
     (if \<not> update_available base then Inr None
      else case target_version base of
        None \<Rightarrow> Inl (CMissing ''target version'')
      | Some version \<Rightarrow>
          (case checked_version (c_show L version) of
             Inl e \<Rightarrow> Inl e
           | Inr _ \<Rightarrow>
               (case resp_checksum base of
                  None \<Rightarrow> Inl (CMissing ''checksum'')
                | Some checksum \<Rightarrow>
                    let version_id = (case version_id_opt of Some i \<Rightarrow> i | None \<Rightarrow> c_show L version) in
                    (case checked_version version_id of
                       Inl e \<Rightarrow> Inl e
                     | Inr _ \<Rightarrow> Inr (Some
                         \<lparr>ui_version = version, ui_version_id = version_id, ui_diff_url = absolutize S (diff_url base),
                          ui_diff_checksum = diff_checksum base, ui_diff_size = diff_size base,
                          ui_full_binary_url = absolutize S (full_binary_url base), ui_full_binary_size = full_binary_size base,
                          ui_checksum = checksum, ui_signature_url = absolutize S (signature_url base),
                          ui_forced = resp_forced base, ui_release_notes = sanitize_release_notes (resp_release_notes base)\<rparr>)))))"


section \<open>The check\<close>

definition check_url :: "client_settings \<Rightarrow> managed_binary \<Rightarrow> string" where
  "check_url S mb = trim_end_char (CHR ''/'') (server_url S) @ ''/api/v1/apps/'' @
     url_encode_path_segment (mb_name mb) @ ''/check-update''"

definition check_for_updates_attempt ::
  "client_libs \<Rightarrow> client_env \<Rightarrow> client_settings \<Rightarrow> managed_binary \<Rightarrow> string \<Rightarrow> (content, client_error, update_info option) io" where
  "check_for_updates_attempt L E S mb url =
     bindE (send L E (server_url S) (HttpCheck url (mb_platform mb) (current_version_string mb))) (\<lambda>response.
     if \<not> is_success response then throwE (CCheckStatus (http_status response) (body_bytes (http_chunks response)))
     else case body_bytes (http_chunks response) of
       None \<Rightarrow> throwE CStream
     | Some b \<Rightarrow>
         (case decode_json L b of
            None \<Rightarrow> throwE CDecode
          | Some (base, version_id) \<Rightarrow> from_sum (offered_update L S base version_id)))"

text \<open>The first number of the text that looks like a status decides; without one the error is tried again.\<close>

definition parse_u16 :: "string \<Rightarrow> nat option" where
  "parse_u16 s = (case parse_digits s of Some n \<Rightarrow> if n < 65536 then Some n else None | None \<Rightarrow> None)"

definition trim_non_digits :: "string \<Rightarrow> string" where
  "trim_non_digits s = rev (dropWhile (\<lambda>c. \<not> is_ascii_digit c) (rev (dropWhile (\<lambda>c. \<not> is_ascii_digit c) s)))"

definition transient_status :: "nat \<Rightarrow> bool" where
  "transient_status code \<longleftrightarrow> code = 429 \<or> (500 \<le> code \<and> code < 600)"

fun retry_words :: "string list \<Rightarrow> bool" where
  "retry_words [] = True"
| "retry_words (word # ws) =
     (case parse_u16 (trim_non_digits word) of
        Some code \<Rightarrow>
          if 100 \<le> code \<and> code < 600 \<and> transient_status code then True
          else if 100 \<le> code \<and> code < 600 \<and> code \<in> set PERMANENT_ERROR_CODES then False
          else retry_words ws
      | None \<Rightarrow> retry_words ws)"

definition retry_text :: "string \<Rightarrow> bool" where
  "retry_text s =
     (let error_str = to_lowercase s in
      contains_str error_str ''timeout'' \<or> contains_str error_str ''connection'' \<or> retry_words (split_whitespace error_str))"

definition should_retry_error :: "request_error option \<Rightarrow> string \<Rightarrow> bool" where
  "should_retry_error err s =
     (case err of
        None \<Rightarrow> retry_text s
      | Some r \<Rightarrow>
          if is_timeout r \<or> is_connect r then True
          else case error_status r of
            Some code \<Rightarrow>
              if transient_status code then True
              else if 400 \<le> code \<and> code < 500 then False
              else retry_text s
          | None \<Rightarrow> retry_text s)"

text \<open>\<open>n\<close> attempts are left after \<open>k\<close> failures, the last of them \<open>e\<close>.\<close>

fun check_tries ::
  "client_libs \<Rightarrow> client_env \<Rightarrow> client_settings \<Rightarrow> managed_binary \<Rightarrow> nat \<Rightarrow> nat \<Rightarrow> client_error
   \<Rightarrow> (content, client_error, update_info option) io" where
  "check_tries L E S mb 0 k e = throwE (CCheckFailed k e)"
| "check_tries L E S mb (Suc n) k _ =
     bindE (outcome (check_for_updates_attempt L E S mb (check_url S mb))) (\<lambda>r.
     case r of
       Inr result \<Rightarrow> returnE result
     | Inl e \<Rightarrow>
         if \<not> should_retry_error (request_fault E e) (error_text E e) then throwE (CCheckFailed (Suc k) e)
         else check_tries L E S mb n (Suc k) e)"

definition CHECK_RETRIES :: nat where
  "CHECK_RETRIES = 3"

definition check_for_updates ::
  "client_libs \<Rightarrow> client_env \<Rightarrow> client_settings \<Rightarrow> managed_binary \<Rightarrow> (content, client_error, update_info option) io" where
  "check_for_updates L E S mb = check_tries L E S mb CHECK_RETRIES 0 CStream"

text \<open>A failed request is an answer too: the server is not healthy.\<close>

definition health_check :: "client_libs \<Rightarrow> client_env \<Rightarrow> client_settings \<Rightarrow> (content, client_error, bool) io" where
  "health_check L E S =
     (let url = trim_end_char (CHR ''/'') (server_url S) @ ''/api/v1/health'' in
      bindE (outcome (send L E (server_url S) (HttpGet url None))) (\<lambda>r.
      returnE (case r of Inr response \<Rightarrow> is_success response | Inl _ \<Rightarrow> False)))"


section \<open>Rules\<close>

lemma touches_check_attempt [intro]: "touches T (check_for_updates_attempt L E S mb url)"
  unfolding check_for_updates_attempt_def
  by (auto split: option.split prod.split intro!: touches_intros touches_client)

lemma touches_check_tries: "touches T (check_tries L E S mb n k e)"
  by (induction n arbitrary: k e) (auto split: sum.split intro!: touches_intros touches_catch)

lemma touches_check_for_updates [intro]: "touches T (check_for_updates L E S mb)"
  unfolding check_for_updates_def by (rule touches_check_tries)

lemma touches_health_check: "touches T (health_check L E S)"
  unfolding health_check_def Let_def by (auto split: sum.split intro!: touches_intros touches_client touches_catch)

definition acceptable :: "client_libs \<Rightarrow> update_info \<Rightarrow> bool" where
  "acceptable L u \<longleftrightarrow>
     validate_version_format (ui_version_id u) = Inr () \<and> validate_version_format (c_show L (ui_version u)) = Inr ()"

lemma offered_acceptable: "offered_update L S base i = Inr (Some u) \<Longrightarrow> acceptable L u"
  by (auto simp: offered_update_def checked_version_def acceptable_def Let_def
      split: if_splits option.splits sum.splits)

lemma wp_check_attempt:
  "wp (check_for_updates_attempt L E S mb url)
     (\<lambda>r v. (\<forall>u. r = Some u \<longrightarrow> acceptable L u) \<and> tick v \<le> Suc (tick w)) (\<lambda>_ v. tick v \<le> Suc (tick w)) w"
  unfolding check_for_updates_attempt_def send_def
  by (auto split: option.split prod.split sum.split intro!: wp_branch dest: offered_acceptable)

lemma wp_check_tries:
  "wp (check_tries L E S mb n k e)
     (\<lambda>r v. (\<forall>u. r = Some u \<longrightarrow> acceptable L u) \<and> tick v \<le> tick w + n)
     (\<lambda>e' v. tick v \<le> tick w + n \<and> (\<exists>j x. e' = CCheckFailed j x \<and> k \<le> j \<and> j \<le> k + n \<and> (0 < n \<longrightarrow> k < j))) w"
proof (induction n arbitrary: k e w)
  case (Suc n)
  show ?case
    unfolding check_tries.simps wp_bindE wp_outcome
  proof (rule wp_mono [OF wp_check_attempt])
    fix x and v :: "content world" assume v: "tick v \<le> Suc (tick w)"
    let ?Q = "\<lambda>r v. (\<forall>u. r = Some u \<longrightarrow> acceptable L u) \<and> tick v \<le> tick w + Suc n"
    let ?F = "\<lambda>e' v. tick v \<le> tick w + Suc n \<and> (\<exists>j x. e' = CCheckFailed j x \<and> k \<le> j \<and> j \<le> k + Suc n \<and> (0 < Suc n \<longrightarrow> k < j))"
    have "wp (check_tries L E S mb n (Suc k) x) ?Q ?F v"
      by (rule wp_mono [OF Suc.IH]) (use v in auto)
    with v show "wp (case Inl x of Inr result \<Rightarrow> returnE result
       | Inl e \<Rightarrow> if \<not> should_retry_error (request_fault E e) (error_text E e) then throwE (CCheckFailed (Suc k) e)
           else check_tries L E S mb n (Suc k) e) ?Q ?F v"
      by auto
  qed auto
qed simp

lemma wp_check_for_updates:
  "wp (check_for_updates L E S mb)
     (\<lambda>r v. (\<forall>u. r = Some u \<longrightarrow> acceptable L u) \<and> tick v \<le> tick w + 3 \<and> file_at v = file_at w)
     (\<lambda>e v. tick v \<le> tick w + 3 \<and> file_at v = file_at w \<and> (\<exists>k x. e = CCheckFailed k x \<and> 1 \<le> k \<and> k \<le> 3)) w"
  by (rule wp_touches_frame [OF touches_check_for_updates [of "{}"]])
     (rule wp_mono [OF wp_check_tries [of L E S mb CHECK_RETRIES 0 CStream, folded check_for_updates_def]];
      auto simp: CHECK_RETRIES_def fun_eq_iff)

lemma sample_check:
  "check_for_updates sample_client_libs (sample_env sample_server) sample_settings sample_managed (quiet_world xs n)
   = (Inr (Some sample_update), quiet_world xs (Suc n))"
proof -
  have ver: "checked_version ''2.0.0'' = Inr ()" by code_simp
  have "\<exists>base. decode_json sample_client_libs [1] = Some (base, None) \<and>
      offered_update sample_client_libs sample_settings base None = Inr (Some sample_update)"
    by (simp add: offered_update_def sample_client_libs_def available_def ver sample_update_def absolutize_def
      starts_with_def sample_show20 Let_def sanitize_release_notes_def sample_new_def)
  then obtain base where "decode_json sample_client_libs [1] = Some (base, None)"
      "offered_update sample_client_libs sample_settings base None = Inr (Some sample_update)" by blast
  then show ?thesis
    by (simp add: check_for_updates_def CHECK_RETRIES_def numeral_3_eq_3 check_for_updates_attempt_def run_steps run_client
      sample_env_fields sample_server_def sample_lib_fields)
qed


section \<open>Properties of a check\<close>

text \<open>
  C18: whatever the server answers, an accepted update is well formed. The version and its identifier consist of
  the allowed characters, so that the files an update downloads are direct children of the downloads
  directory: a server cannot choose where the client writes.
\<close>

theorem accepted_update_well_formed:
  assumes "placed S mb" "check_for_updates L E S mb w = (Inr (Some u), w')"
  shows "validate_version_format (ui_version_id u) = Inr () \<and> validate_version_format (c_show L (ui_version u)) = Inr () \<and>
    artifact_path S mb u ''.diff'' = downloads_dir S @ [mb_name mb @ ''_'' @ ui_version_id u @ ''.diff''] \<and>
    artifact_path S mb u ''.tmp'' = downloads_dir S @ [mb_name mb @ ''_'' @ ui_version_id u @ ''.tmp''] \<and>
    file_at w' = file_at w"
  using wpD(1) [OF wp_check_for_updates assms(2)]
  by (auto simp: acceptable_def plain_artifact [OF assms(1)])

theorem accepted_update_well_formed_witness:
  "artifact_path sample_settings sample_managed sample_update ''.tmp'' = downloads_dir sample_settings @ [''app_2.0.0.tmp'']"
  using accepted_update_well_formed [OF sample_placed sample_check] by (simp add: sample_fields)

text \<open>
  C19: a check ends. Whatever the server and the network do, a check sends at most three requests, changes no
  file, and an error says after how many attempts it gave up.
\<close>

theorem check_ends:
  "case check_for_updates L E S mb w of (r, w') \<Rightarrow>
     tick w' \<le> tick w + 3 \<and> file_at w' = file_at w \<and>
     (case r of Inr _ \<Rightarrow> True | Inl e \<Rightarrow> \<exists>k x. e = CCheckFailed k x \<and> 1 \<le> k \<and> k \<le> 3)"
  using wp_check_for_updates [of L E S mb w] by (auto simp: wp_def split: prod.splits sum.splits)

end
