(* ===== verification/Update_Command.thy ===== *)
theory Update_Command
  imports Update_Check
begin

text \<open>
  The update command (\<open>commands/update.rs\<close>): for every managed binary the check, the refusal of a downgrade,
  and what the options ask for: nothing but a report, a verified download, or the whole update. Texts for
  the terminal are left out.
\<close>

section \<open>A download without installation\<close>

text \<open>The progress that is logged after each chunk divides by the total size the server states.\<close>

fun write_logged :: "path \<Rightarrow> nat option \<Rightarrow> bytes \<Rightarrow> bytes option list \<Rightarrow> (content, client_error, unit) io" where
  "write_logged dest total_size sofar [] = map_err CIo io_point"
| "write_logged dest total_size sofar (None # cs) = throwE CStream"
| "write_logged dest total_size sofar (Some c # cs) =
     bindE (map_err CIo (write_file dest (Bytes (sofar @ c)))) (\<lambda>_.
     if total_size = Some 0 then throwE CPanic
     else write_logged dest total_size (sofar @ c) cs)"

definition download_file :: "client_libs \<Rightarrow> client_env \<Rightarrow> string \<Rightarrow> path \<Rightarrow> (content, client_error, unit) io" where
  "download_file L E url dest =
     bindE (existing_len L dest) (\<lambda>existing_size.
     bindE (send L E url (HttpGet url (if 0 < existing_size then Some existing_size else None))) (\<lambda>response.
     if http_status response = 416 then returnE ()
     else if \<not> is_success response then throwE (CHttpStatus (http_status response))
     else
       let is_partial = (http_status response = 206);
           total_size = (if is_partial then http_range_total response else http_length response) in
       bindE (if is_partial \<and> 0 < existing_size then open_append L dest else create_fresh dest) (\<lambda>sofar.
       write_logged dest total_size sofar (http_chunks response))))"

definition verify_downloaded_signature ::
  "client_libs \<Rightarrow> client_env \<Rightarrow> string \<Rightarrow> managed_binary \<Rightarrow> bytes \<Rightarrow> string \<Rightarrow> (content, client_error, unit) io" where
  "verify_downloaded_signature L E sig_url mb binary_hash version =
     bindE (download_bytes L E sig_url) (\<lambda>sig.
     if length sig \<noteq> 64 then throwE (CBadLength ''signature'')
     else if length (publisher_public_key mb) \<noteq> 32 then throwE (CBadLength ''public key'')
     else if \<not> key_valid L (publisher_public_key mb) then throwE CBadKey
     else if \<not> c_verify L (publisher_public_key mb) (signing_payload binary_hash version) sig then throwE CSignature
     else returnE ())"

text \<open>The diff is preferred: the URL, the name of the file, its checksum, and whether it is the whole binary.\<close>

definition chosen_download ::
  "client_libs \<Rightarrow> managed_binary \<Rightarrow> update_info \<Rightarrow> client_error + (string \<times> string \<times> string \<times> bool)" where
  "chosen_download L mb u =
     (case ui_diff_url u of
        Some url \<Rightarrow>
          (case ui_diff_checksum u of
             None \<Rightarrow> Inl (CMissing ''diff checksum'')
           | Some checksum \<Rightarrow> Inr (url, mb_name mb @ ''_'' @ c_show L (ui_version u) @ ''.diff'', checksum, False))
      | None \<Rightarrow>
          (case ui_full_binary_url u of
             Some url \<Rightarrow> Inr (url, mb_name mb @ ''_'' @ c_show L (ui_version u), ui_checksum u, True)
           | None \<Rightarrow> Inl (CMissing ''download URL'')))"

text \<open>A file that fails a check is removed.\<close>

definition or_remove :: "path \<Rightarrow> (content, client_error, 'a) io \<Rightarrow> (content, client_error, 'a) io" where
  "or_remove dest m = on_error m (remove_file dest)"

definition verified_download ::
  "client_libs \<Rightarrow> client_env \<Rightarrow> managed_binary \<Rightarrow> update_info \<Rightarrow> path \<Rightarrow> string \<Rightarrow> bool \<Rightarrow> (content, client_error, unit) io" where
  "verified_download L E mb u dest checksum is_full_binary =
     bindE (or_remove dest (from_sum (parse_hash checksum))) (\<lambda>expected_hash.
     bindE (or_remove dest (map_err CIo (hash_file L dest))) (\<lambda>actual_hash.
     if expected_hash \<noteq> actual_hash then or_remove dest (throwE CChecksumMismatch)
     else if is_full_binary
     then case ui_signature_url u of
         Some sig_url \<Rightarrow> or_remove dest (verify_downloaded_signature L E sig_url mb actual_hash (c_show L (ui_version u)))
       | None \<Rightarrow> returnE ()
     else returnE ()))"

definition download_update_only ::
  "client_libs \<Rightarrow> client_env \<Rightarrow> client_settings \<Rightarrow> managed_binary \<Rightarrow> update_info \<Rightarrow> (content, client_error, path) io" where
  "download_update_only L E S mb u =
     bindE (map_err CIo (create_dir_all (downloads_dir S))) (\<lambda>_.
     bindE (from_sum (chosen_download L mb u)) (\<lambda>(url, filename, checksum, is_full_binary).
     let dest_path = path_join (downloads_dir S) filename in
     bindE (download_file L E url dest_path) (\<lambda>_.
     bindE (verified_download L E mb u dest_path checksum is_full_binary) (\<lambda>_.
     returnE dest_path))))"


section \<open>The command\<close>

datatype update_result = Updated | AlreadyCurrent | Skipped | Failed

record update_summary =
  us_updated :: nat
  us_already_current :: nat
  us_skipped :: nat
  us_failed :: nat

definition summary_new :: update_summary where
  "summary_new = \<lparr>us_updated = 0, us_already_current = 0, us_skipped = 0, us_failed = 0\<rparr>"

fun summary_record :: "update_result \<Rightarrow> update_summary \<Rightarrow> update_summary" where
  "summary_record Updated s = s\<lparr>us_updated := us_updated s + 1\<rparr>"
| "summary_record AlreadyCurrent s = s\<lparr>us_already_current := us_already_current s + 1\<rparr>"
| "summary_record Skipped s = s\<lparr>us_skipped := us_skipped s + 1\<rparr>"
| "summary_record Failed s = s\<lparr>us_failed := us_failed s + 1\<rparr>"

definition print_summary :: "update_result list \<Rightarrow> update_summary" where
  "print_summary results = fold summary_record results summary_new"

text \<open>An update is refused unless it is newer than the installed version, which has to be a version.\<close>

definition refuses_downgrade :: "client_libs \<Rightarrow> managed_binary \<Rightarrow> update_info \<Rightarrow> bool \<Rightarrow> bool" where
  "refuses_downgrade L mb u allow_downgrade =
     (case current_version_string mb of
        None \<Rightarrow> False
      | Some current_str \<Rightarrow>
          (case version_from_str (c_parse L) current_str of
             Inr current \<Rightarrow> version_cmp (c_pre_cmp L) (ui_version u) current \<noteq> Greater \<and> \<not> allow_downgrade
           | Inl _ \<Rightarrow> \<not> allow_downgrade))"

text \<open>A panic ends the command; any other error of one binary is reported.\<close>

definition reported :: "update_result \<Rightarrow> (content, client_error, 'a) io \<Rightarrow> (content, client_error, update_result) io" where
  "reported ok m =
     bindE (outcome m) (\<lambda>r.
     case r of Inr _ \<Rightarrow> returnE ok | Inl e \<Rightarrow> if e = CPanic then throwE CPanic else returnE Failed)"

definition process_binary_update ::
  "client_libs \<Rightarrow> client_env \<Rightarrow> client_settings \<Rightarrow> bool \<Rightarrow> bool \<Rightarrow> bool \<Rightarrow> managed_binary
   \<Rightarrow> (content, client_error, update_result) io" where
  "process_binary_update L E S dry_run download_only allow_downgrade mb =
     bindE (attempt (db_timed E (db_path S) (\<lambda>now. set_last_check now (mb_id mb)))) (\<lambda>_.
     bindE (outcome (check_for_updates L E S mb)) (\<lambda>info.
     case info of
       Inl _ \<Rightarrow> returnE Failed
     | Inr None \<Rightarrow> returnE AlreadyCurrent
     | Inr (Some update) \<Rightarrow>
         if refuses_downgrade L mb update allow_downgrade then returnE Failed
         else if dry_run then returnE Skipped
         else if download_only then reported Skipped (download_update_only L E S mb update)
         else reported Updated (apply_update L E S mb update)))"

fun for_binaries ::
  "(managed_binary \<Rightarrow> (content, client_error, 'r) io) \<Rightarrow> managed_binary list \<Rightarrow> (content, client_error, 'r list) io" where
  "for_binaries f [] = returnE []"
| "for_binaries f (b # bs) = bindE (f b) (\<lambda>r. bindE (for_binaries f bs) (\<lambda>rs. returnE (r # rs)))"

definition perform_update ::
  "client_libs \<Rightarrow> client_env \<Rightarrow> client_settings \<Rightarrow> string option \<Rightarrow> bool \<Rightarrow> bool \<Rightarrow> bool
   \<Rightarrow> (content, client_error, update_result list) io" where
  "perform_update L E S name dry_run download_only allow_downgrade =
     bindE (case name of
         Some binary_name \<Rightarrow>
           bindE (map_err CDb (db_run (db_path S) (get_binary_by_name binary_name))) (\<lambda>b.
           returnE (map_option (\<lambda>x. [x]) b))
       | None \<Rightarrow> bindE (map_err CDb (db_run (db_path S) list_binaries)) (\<lambda>bs. returnE (Some bs))) (\<lambda>binaries.
     case binaries of
       None \<Rightarrow> returnE [Failed]
     | Some bs \<Rightarrow> for_binaries (process_binary_update L E S dry_run download_only allow_downgrade) bs)"

definition update_command ::
  "client_libs \<Rightarrow> client_env \<Rightarrow> client_settings \<Rightarrow> string option \<Rightarrow> bool \<Rightarrow> bool \<Rightarrow> bool
   \<Rightarrow> (content, client_error, update_summary) io" where
  "update_command L E S name dry_run download_only allow_downgrade =
     bindE (perform_update L E S name dry_run download_only allow_downgrade) (\<lambda>results.
     returnE (print_summary results))"


section \<open>Footprints\<close>

text \<open>A file elsewhere is no concern of the update of a binary: outside the data directory, not named like a
  temporary file, and neither the binary nor its signature.\<close>

definition elsewhere :: "client_settings \<Rightarrow> managed_binary \<Rightarrow> path \<Rightarrow> bool" where
  "elsewhere S b q \<longleftrightarrow> q \<noteq> [] \<and> \<not> in_dir (data_dir S) q \<and> \<not> starts_with (last q) ''.tmp'' \<and> q \<noteq> target b \<and> q \<noteq> sidecar b"

abbreviation near :: "client_settings \<Rightarrow> managed_binary \<Rightarrow> path set" where
  "near S b \<equiv> {q. \<not> elsewhere S b q}"

lemma near_data: "in_dir (data_dir S) q \<Longrightarrow> q \<in> near S b"
  by (simp add: elsewhere_def)

lemma near_target: "target b \<in> near S b" "sidecar b \<in> near S b" "db_path S \<in> near S b"
  using in_data_dirs(3) [of S] by (auto simp: elsewhere_def)

lemma near_update_files:
  assumes "placed S b" "validate_version_format (ui_version_id u) = Inr ()"
  shows "update_files S b u \<subseteq> near S b"
proof -
  have "in_dir (data_dir S) q" if "q \<in> artifacts S b u" for q
    using that plain_artifact [OF assms, of "''.diff''"] plain_artifact [OF assms, of "''.tmp''"]
    by (auto simp: artifacts_def)
  then show ?thesis
    by (auto simp: update_files_def temp_files_def elsewhere_def starts_with_def)
qed

lemma touches_apply_update:
  assumes "placed S b" "validate_version_format (ui_version_id u) = Inr ()"
  shows "touches (near S b) (apply_update L E S b u)"
proof -
  obtain f where f: "backup_path_for S b = backups_dir S @ [f]"
      "sig_path_for (path_str (backup_path_for S b)) = backups_dir S @ [f @ ''.sig'']"
    using assms(1) by (rule backup_paths)
  have bk: "backup_path_for S b \<in> near S b" "sig_path_for (path_str (backup_path_for S b)) \<in> near S b"
    unfolding f(2) unfolding f(1) by (rule near_data, simp)+
  have "touches (near S b) (execute_update L E S b u)"
    by (rule touches_mono [OF touches_execute_update [OF assms(1)] near_update_files [OF assms]])
  moreover have "touches (near S b) (back_up S b)"
    unfolding back_up_def copy_with_signature_def Let_def by (intro touches_intros touches_client bk)
  moreover have "touches (near S b) (abandon_update E S b n k e)" for n k e
    unfolding abandon_update_def by (auto split: option.split intro!: touches_intros touches_client touches_catch near_target)
  ultimately show ?thesis
    unfolding apply_update_def
    by (auto split: sum.split intro!: touches_intros touches_client touches_catch silent_checks near_target)
qed

lemma touches_write_logged: "dest \<in> T \<Longrightarrow> touches T (write_logged dest n sofar cs)"
  by (induction dest n sofar cs rule: write_logged.induct) (auto intro!: touches_intros)

lemma touches_download_plain: "dest \<in> T \<Longrightarrow> touches T (download_file L E url dest)"
  unfolding download_file_def existing_len_def open_append_def create_fresh_def Let_def
  by (intro touches_intros touches_client touches_write_logged | assumption)+

lemma touches_verified_download: "dest \<in> T \<Longrightarrow> touches T (verified_download L E mb u dest h b)"
  unfolding verified_download_def or_remove_def verify_downloaded_signature_def
  by (intro touches_intros touches_client touches_catch touches_download_bytes | assumption)+

text \<open>The file of a download without installation.\<close>

lemma chosen_download_file:
  assumes "placed S mb" and v: "validate_version_format (c_show L (ui_version u)) = Inr ()"
    and "chosen_download L mb u = Inr (url, f, h, full)"
  shows "path_join (downloads_dir S) f = downloads_dir S @ [f]"
proof -
  have "validate_binary_name (mb_name mb) = Inr ()" using assms(1) by (simp add: placed_def)
  from artifact_component [OF this v, of "[]"] artifact_component [OF this v, of "''.diff''"] show ?thesis
    using assms(3) by (auto simp: chosen_download_def split: option.splits)
qed

lemma touches_download_only:
  assumes "placed S mb" "acceptable L u"
  shows "touches {q. in_dir (data_dir S) q} (download_update_only L E S mb u)" (is "touches ?T _")
proof -
  have near: "downloads_dir S @ [f] \<in> ?T" for f by simp
  have "touches ?T (case r of (url, filename, checksum, full) \<Rightarrow>
      let dest = path_join (downloads_dir S) filename in
      bindE (download_file L E url dest) (\<lambda>_. bindE (verified_download L E mb u dest checksum full) (\<lambda>_. returnE dest)))"
    if "chosen_download L mb u = Inr r" for r
    using chosen_download_file [OF assms(1)] assms(2) that near
    by (auto simp: Let_def acceptable_def split: prod.split intro!: touches_intros touches_download_plain touches_verified_download)
  moreover have "wp (from_sum (chosen_download L mb u)) (\<lambda>r _. chosen_download L mb u = Inr r) (\<lambda>_ _. True) w" for w :: "content world"
    by (simp split: sum.split)
  ultimately show ?thesis
    unfolding download_update_only_def
    by (intro footprint.keeps_bindE_ret [where m = "from_sum _" and P = "\<lambda>r. chosen_download L mb u = Inr r"]
        footprint.keeps_bindE [of _ "map_err CIo _"] touches_intros)
qed


section \<open>Many binaries\<close>

text \<open>The file of a binary is as before or meets \<open>good\<close>.\<close>

definition kept :: "(managed_binary \<Rightarrow> content \<Rightarrow> bool) \<Rightarrow> managed_binary \<Rightarrow> content world \<Rightarrow> content world \<Rightarrow> bool" where
  "kept good b w v \<longleftrightarrow> file_at v (target b) = file_at w (target b) \<or> (\<exists>c. file_at v (target b) = Some c \<and> good b c)"

text \<open>The managed binaries are placed, and none is installed where the signature of another lies. Two of them may share
  their file.\<close>

definition managed_ok :: "client_settings \<Rightarrow> managed_binary list \<Rightarrow> bool" where
  "managed_ok S bs \<longleftrightarrow> (\<forall>b \<in> set bs. placed S b \<and> (\<forall>b' \<in> set bs. target b \<noteq> sidecar b'))"

text \<open>The file \<open>p\<close> is as before or meets \<open>good\<close> for one of the binaries installed there.\<close>

definition kept_at :: "(managed_binary \<Rightarrow> content \<Rightarrow> bool) \<Rightarrow> managed_binary list \<Rightarrow> path \<Rightarrow> content world \<Rightarrow> content world \<Rightarrow> bool" where
  "kept_at good bs p w v \<longleftrightarrow> file_at v p = file_at w p \<or> (\<exists>b \<in> set bs. target b = p \<and> (\<exists>c. file_at v p = Some c \<and> good b c))"

lemma kept_at_trans: "kept_at good [b] p w v \<Longrightarrow> kept_at good bs p v x \<Longrightarrow> kept_at good (b # bs) p w x"
  by (auto simp: kept_at_def)

lemma kept_at_mono: "kept_at good bs p w v \<Longrightarrow> set bs \<subseteq> set all \<Longrightarrow> kept_at good all p w v"
  by (auto simp: kept_at_def)

lemma managed_elsewhere:
  "managed_ok S bs \<Longrightarrow> b \<in> set bs \<Longrightarrow> b' \<in> set bs \<Longrightarrow> target b \<noteq> target b' \<Longrightarrow> elsewhere S b' (target b)"
  by (auto simp: managed_ok_def elsewhere_def placed_def)

text \<open>What one turn of a loop over the managed binaries promises, and what the loop then does.\<close>

locale update_loop =
  fixes S :: client_settings and step :: "managed_binary \<Rightarrow> (content, client_error, 'r) io"
    and good :: "managed_binary \<Rightarrow> content \<Rightarrow> bool"
  assumes step_schedule: "schedule.keeps (step b)"
    and step_footprint: "placed S b \<Longrightarrow> touches (near S b) (step b)"
    and step_target: "placed S b \<Longrightarrow> no_torn w \<Longrightarrow> wp (step b) (\<lambda>_. kept good b w) (\<lambda>_. kept good b w) w"
begin

lemma wp_step:
  assumes "managed_ok S all" "b \<in> set all" "no_torn w"
    and "\<And>v. no_torn v \<Longrightarrow> \<forall>mb \<in> set all. kept_at good [b] (target mb) w v \<Longrightarrow> (\<forall>r. Q r v) \<and> (\<forall>e. F e v)"
  shows "wp (step b) Q F w"
proof (rule wp_touches_frame [OF step_footprint], rule_tac [2] wp_schedule [OF step_schedule], rule_tac [2] wp_mono [OF step_target])
  have all: "(\<forall>r. Q r v) \<and> (\<forall>e. F e v)"
    if v: "kept good b w v" "faults v = faults w" "\<forall>p. p \<notin> near S b \<longrightarrow> file_at v p = file_at w p" for v
  proof (rule assms(4))
    have "kept_at good [b] (target mb) w v" if "mb \<in> set all" for mb
    proof (cases "target mb = target b")
      case True
      then show ?thesis using v(1) by (auto simp: kept_def kept_at_def)
    next
      case False
      then show ?thesis using managed_elsewhere [OF assms(1) that assms(2)] v(3) by (simp add: kept_at_def)
    qed
    then show "\<forall>mb \<in> set all. kept_at good [b] (target mb) w v" by blast
  qed (use v assms(3) in \<open>simp add: no_torn_def\<close>)
  then show "faults v = faults w \<longrightarrow> (\<forall>p. p \<notin> near S b \<longrightarrow> file_at v p = file_at w p) \<longrightarrow> Q r v"
      "faults v = faults w \<longrightarrow> (\<forall>p. p \<notin> near S b \<longrightarrow> file_at v p = file_at w p) \<longrightarrow> F e v" if "kept good b w v" for r e v
    using that by blast+
qed (use assms in \<open>auto simp: managed_ok_def\<close>)

lemma wp_loop:
  assumes "managed_ok S all" "set bs \<subseteq> set all" "no_torn w"
  shows "wp (for_binaries step bs) (\<lambda>_ v. \<forall>mb \<in> set all. kept_at good bs (target mb) w v)
    (\<lambda>_ v. \<forall>mb \<in> set all. kept_at good bs (target mb) w v) w"
  using assms(2,3)
proof (induction bs arbitrary: w)
  case (Cons b bs)
  show ?case
    unfolding for_binaries.simps wp_bindE
  proof (rule wp_step [OF assms(1)], use Cons.prems in simp, rule Cons.prems(2), intro conjI allI)
    fix v r
    assume v: "no_torn v" "\<forall>mb \<in> set all. kept_at good [b] (target mb) w v"
    then show "\<forall>mb \<in> set all. kept_at good (b # bs) (target mb) w v" using kept_at_mono by fastforce
    have "wp (for_binaries step bs) (\<lambda>_ x. \<forall>mb \<in> set all. kept_at good (b # bs) (target mb) w x)
        (\<lambda>_ x. \<forall>mb \<in> set all. kept_at good (b # bs) (target mb) w x) v"
      by (rule wp_mono [OF Cons.IH [OF _ v(1)]]) (use Cons.prems v(2) kept_at_trans in auto)
    then show "wp (for_binaries step bs) (\<lambda>rs. wp (returnE (r # rs)) (\<lambda>_ x. \<forall>mb \<in> set all. kept_at good (b # bs) (target mb) w x)
        (\<lambda>_ x. \<forall>mb \<in> set all. kept_at good (b # bs) (target mb) w x)) (\<lambda>_ x. \<forall>mb \<in> set all. kept_at good (b # bs) (target mb) w x) v"
      by simp
  qed
qed (simp add: kept_at_def)

lemma wp_loop_all:
  assumes "managed_ok S all" "set bs \<subseteq> set all" "no_torn w"
  shows "wp (for_binaries step bs) (\<lambda>_ v. \<forall>mb \<in> set all. kept_at good all (target mb) w v)
    (\<lambda>_ v. \<forall>mb \<in> set all. kept_at good all (target mb) w v) w"
  by (rule wp_mono [OF wp_loop [OF assms]]) (use assms(2) kept_at_mono in blast)+

end


section \<open>What the command installs\<close>

definition newer :: "client_libs \<Rightarrow> managed_binary \<Rightarrow> version \<Rightarrow> bool" where
  "newer L mb v \<longleftrightarrow>
     (\<forall>s. current_version_string mb = Some s \<longrightarrow> (\<exists>cur. c_parse L s = Inr cur \<and> version_cmp (c_pre_cmp L) v cur = Greater))"

text \<open>Content the publisher signed for a version that is newer than the one recorded, unless that is waived.\<close>

definition authorised :: "client_libs \<Rightarrow> bool \<Rightarrow> managed_binary \<Rightarrow> content \<Rightarrow> bool" where
  "authorised L allow mb c \<longleftrightarrow>
     (\<exists>v sig. signed_by L (publisher_public_key mb) (c_show L v) (c_blake3 L (content_bytes L c)) sig \<and> (allow \<or> newer L mb v))"

lemma not_refused: "\<not> refuses_downgrade L mb u allow \<Longrightarrow> allow \<or> newer L mb (ui_version u)"
  by (auto simp: refuses_downgrade_def newer_def version_from_str_def split: option.splits sum.splits)

lemma wp_apply_kept:
  assumes "placed S mb" "acceptable L u" "no_torn v" "file_at v = file_at w" "allow \<or> newer L mb (ui_version u)"
  shows "wp (apply_update L E S mb u) (\<lambda>_. kept (authorised L allow) mb w) (\<lambda>_. kept (authorised L allow) mb w) v"
  by (rule wp_mono [OF wp_apply_update [OF assms(1), of u L E v]])
     (use assms in \<open>auto simp: acceptable_def kept_def authorised_def installed_def unless_torn_def old_or_genuine_def genuine_def\<close>)

lemma schedule_write_logged: "schedule.keeps (write_logged dest n sofar cs)"
  by (induction dest n sofar cs rule: write_logged.induct) (auto intro!: schedule.keeps_intros schedule_prims)

lemma schedule_download_only: "schedule.keeps (download_update_only L E S mb u)"
  unfolding download_update_only_def download_file_def existing_len_def open_append_def create_fresh_def
    verified_download_def or_remove_def verify_downloaded_signature_def Let_def
  by (auto split: prod.split option.split intro!: schedule.keeps_intros schedule_client schedule_prims schedule_catch
      schedule_ops schedule_write_logged)

lemma schedule_check: "schedule.keeps (check_for_updates L E S mb)"
proof -
  have "schedule.keeps (check_tries L E S mb n k e)" for n k e
    by (induction n arbitrary: k e)
       (auto simp: check_for_updates_attempt_def split: sum.split prod.split option.split
         intro!: schedule.keeps_intros schedule_catch schedule_client)
  then show ?thesis by (simp add: check_for_updates_def)
qed

lemma wp_check_then:
  assumes "\<And>v. file_at v = file_at w \<Longrightarrow> faults v = faults w \<Longrightarrow> wp (f (Inr None)) Q F v"
    and "\<And>u v. acceptable L u \<Longrightarrow> file_at v = file_at w \<Longrightarrow> faults v = faults w \<Longrightarrow> wp (f (Inr (Some u))) Q F v"
    and "\<And>e v. file_at v = file_at w \<Longrightarrow> faults v = faults w \<Longrightarrow> wp (f (Inl e)) Q F v"
  shows "wp (bindE (outcome (check_for_updates L E S mb)) f) Q F w"
  unfolding wp_bindE wp_outcome
  by (rule wp_schedule [OF schedule_check], rule wp_mono [OF wp_check_for_updates])
     (use assms in \<open>auto; metis option.exhaust\<close>)+

lemma check_ret:
  "wp (outcome (check_for_updates L E S mb)) (\<lambda>r _. \<forall>u. r = Inr (Some u) \<longrightarrow> acceptable L u) (\<lambda>_ _. True) w"
  by (simp, rule wp_mono [OF wp_check_for_updates]) auto

lemma schedule_reported: "schedule.keeps m \<Longrightarrow> schedule.keeps (reported ok m)"
  unfolding reported_def by (auto split: sum.split intro!: schedule.keeps_intros schedule_catch)

lemma touches_reported: "touches T m \<Longrightarrow> touches T (reported ok m)"
  unfolding reported_def by (auto split: sum.split intro!: touches_intros touches_catch)

lemma wp_reported: "wp m (\<lambda>_. Q) (\<lambda>_. Q) w \<Longrightarrow> wp (reported ok m) (\<lambda>_. Q) (\<lambda>_. Q) w"
  unfolding reported_def by (auto split: sum.split elim!: wp_mono)

lemma set_last_check_step:
  "wp (attempt (db_timed E (db_path S) f)) (\<lambda>_ v. \<forall>p. p \<noteq> db_path S \<longrightarrow> file_at v p = file_at w p) (\<lambda>_ _. False) w"
  by (simp, rule wp_db_timed) auto

definition may_install :: "client_libs \<Rightarrow> bool \<Rightarrow> bool \<Rightarrow> bool \<Rightarrow> managed_binary \<Rightarrow> content \<Rightarrow> bool" where
  "may_install L dry_run download_only allow b c \<longleftrightarrow> \<not> dry_run \<and> \<not> download_only \<and> authorised L allow b c"

lemma wp_process:
  assumes pl: "placed S b" and nt: "no_torn w"
  shows "wp (process_binary_update L E S dry_run download_only allow b)
    (\<lambda>_. kept (may_install L dry_run download_only allow) b w) (\<lambda>_. kept (may_install L dry_run download_only allow) b w) w"
proof -
  let ?K = "kept (may_install L dry_run download_only allow) b w"
  have same: "?K v" if "file_at v (target b) = file_at w (target b)" for v using that by (simp add: kept_def)
  have tail: "wp (if refuses_downgrade L b u allow then returnE Failed else if dry_run then returnE Skipped
      else if download_only then reported Skipped (download_update_only L E S b u)
      else reported Updated (apply_update L E S b u)) (\<lambda>_. ?K) (\<lambda>_. ?K) v"
    if u: "acceptable L u" and v: "file_at v (target b) = file_at w (target b)" "no_torn v" for u v
  proof (intro wp_branch wp_reported)
    show "wp (download_update_only L E S b u) (\<lambda>_. ?K) (\<lambda>_. ?K) v"
      by (rule wp_touches_any [OF touches_download_only [OF pl u]]) (use v pl in \<open>auto simp: placed_def intro!: same\<close>)
    assume a: "\<not> refuses_downgrade L b u allow" "\<not> dry_run" "\<not> download_only"
    show "wp (apply_update L E S b u) (\<lambda>_. ?K) (\<lambda>_. ?K) v"
      by (rule wp_mono [OF wp_apply_kept [OF pl u v(2) refl not_refused [OF a(1)]]])
         (use a v in \<open>auto simp: kept_def may_install_def\<close>)
  qed (use v in \<open>simp_all add: kept_def\<close>)
  show ?thesis
    unfolding process_binary_update_def wp_bindE [of "attempt _"]
  proof (rule wp_schedule [OF schedule.keeps_wrap(2) [OF schedule_ops(2)]], rule wp_mono [OF set_last_check_step], intro impI)
    fix x v assume v: "\<forall>p. p \<noteq> db_path S \<longrightarrow> file_at v p = file_at w p" "faults v = faults w"
    then have t: "file_at v (target b) = file_at w (target b)" "no_torn v"
      using placed_db(1) [OF pl] nt by (simp_all add: no_torn_def)
    show "wp (bindE (outcome (check_for_updates L E S b)) (\<lambda>info.
       case info of Inl _ \<Rightarrow> returnE Failed | Inr None \<Rightarrow> returnE AlreadyCurrent
       | Inr (Some update) \<Rightarrow>
           if refuses_downgrade L b update allow then returnE Failed else if dry_run then returnE Skipped
           else if download_only then reported Skipped (download_update_only L E S b update)
           else reported Updated (apply_update L E S b update))) (\<lambda>_. ?K) (\<lambda>_. ?K) v"
      by (rule wp_check_then) (use t tail in \<open>auto simp: no_torn_def intro!: same\<close>)
  qed simp
qed

interpretation command: update_loop S "process_binary_update L E S dry_run download_only allow" "may_install L dry_run download_only allow"
  for L E S dry_run download_only allow
proof
  fix b
  show "schedule.keeps (process_binary_update L E S dry_run download_only allow b)"
    unfolding process_binary_update_def
    by (auto split: sum.split option.split intro!: schedule.keeps_intros schedule_catch schedule_ops schedule_check
        schedule_reported schedule_download_only schedule_apply_update)
next
  fix b assume pl: "placed S b"
  have "touches (near S b) (download_update_only L E S b u)" if "acceptable L u" for u
    by (rule touches_mono [OF touches_download_only [OF pl that]]) (auto simp: elsewhere_def)
  then show "touches (near S b) (process_binary_update L E S dry_run download_only allow b)"
    unfolding process_binary_update_def
    by (intro footprint.keeps_bindE_ret [OF _ check_ret] footprint.keeps_bindE [of _ "attempt _"])
       (auto split: sum.split option.split intro!: touches_intros touches_catch touches_client near_target
        touches_reported touches_apply_update [OF pl] simp: acceptable_def)
qed (rule wp_process)


text \<open>A query reads the database and changes no file.\<close>

lemma wp_query:
  assumes "file_at w p = Some (Database db)" "op db = Inr (x, db)"
    and "\<And>v. file_at v = file_at w \<Longrightarrow> faults v = faults w \<Longrightarrow> Q x v" "\<And>e v. file_at v = file_at w \<Longrightarrow> F e v"
  shows "wp (db_run p op) Q F w"
  by (rule wp_schedule [OF schedule_store(3)], rule wp_db_run) (use assms in \<open>auto simp: fun_upd_idem\<close>)

lemma wp_perform_update:
  assumes "file_at w (db_path S) = Some (Database db)" "managed_ok S (managed_binaries db)" "no_torn w"
  shows "wp (perform_update L E S name dry_run download_only allow)
    (\<lambda>_ v. \<forall>b \<in> set (managed_binaries db). kept_at (may_install L dry_run download_only allow) (managed_binaries db) (target b) w v)
    (\<lambda>_ v. \<forall>b \<in> set (managed_binaries db). kept_at (may_install L dry_run download_only allow) (managed_binaries db) (target b) w v) w"
    (is "wp _ (\<lambda>_. ?Q) (\<lambda>_. ?Q) w")
proof -
  have same: "?Q v" if "file_at v = file_at w" for v using that by (simp add: kept_at_def)
  have loop: "wp (for_binaries (process_binary_update L E S dry_run download_only allow) bs) (\<lambda>_. ?Q) (\<lambda>_. ?Q) v"
    if "file_at v = file_at w" "faults v = faults w" "set bs \<subseteq> set (managed_binaries db)" for v bs
    by (rule wp_mono [OF command.wp_loop_all [OF assms(2) that(3)]])
       (use that assms(3) in \<open>auto simp: no_torn_def kept_at_def\<close>)
  show ?thesis
  proof (cases name)
    case None
    show ?thesis
      unfolding perform_update_def None
      by (simp, rule wp_query [OF assms(1)], simp add: list_binaries_def)
         (use assms(2) same in \<open>auto intro!: loop\<close>)
  next
    case (Some n)
    let ?f = "find_first (\<lambda>b. mb_name b = n) (managed_binaries db)"
    have "wp (case map_option (\<lambda>x. [x]) ?f of None \<Rightarrow> returnE [Failed]
        | Some bs \<Rightarrow> for_binaries (process_binary_update L E S dry_run download_only allow) bs) (\<lambda>_. ?Q) (\<lambda>_. ?Q) v"
      if "file_at v = file_at w" "faults v = faults w" for v
      using that same find_first_Some [of "\<lambda>b. mb_name b = n" "managed_binaries db"]
      by (cases ?f) (auto simp del: for_binaries.simps intro!: loop)
    then show ?thesis
      unfolding perform_update_def Some
      by (simp del: for_binaries.simps, intro wp_query [OF assms(1)], simp add: get_binary_by_name_def) (use same in auto)
  qed
qed


text \<open>What a download without installation has checked.\<close>

lemma wp_verify_downloaded:
  "wp (verify_downloaded_signature L E url mb h v)
     (\<lambda>_ x. file_at x = file_at w \<and> (\<exists>sig. signed_by L (publisher_public_key mb) v h sig)) (\<lambda>_ _. True) w"
  unfolding verify_downloaded_signature_def
  by (simp, rule wp_silent [OF touches_download_bytes]) (auto simp: signed_by_def)

lemma wp_verified_download:
  "wp (verified_download L E mb u dest h full)
     (\<lambda>_ x. file_at x = file_at w \<and> (\<exists>c. file_at w dest = Some c \<and> parse_hash h = Inr (c_blake3 L (content_bytes L c)) \<and>
        (full \<longrightarrow> ui_signature_url u \<noteq> None \<longrightarrow>
          (\<exists>sig. signed_by L (publisher_public_key mb) (c_show L (ui_version u)) (c_blake3 L (content_bytes L c)) sig))))
     (\<lambda>_ _. True) w"
proof -
  have sig: "wp (verify_downloaded_signature L E url mb (c_blake3 L (content_bytes L c)) (c_show L (ui_version u)))
      (\<lambda>_ x. file_at x = file_at w \<and> (\<exists>sig. signed_by L (publisher_public_key mb) (c_show L (ui_version u)) (c_blake3 L (content_bytes L c)) sig))
      (\<lambda>_ _. True) v" if "file_at v = file_at w" for v c url
    by (rule wp_mono [OF wp_verify_downloaded]) (use that in auto)
  show ?thesis
    unfolding verified_download_def or_remove_def
    by (auto split: sum.split option.split intro!: wp_branch wp_hash_file intro: wp_mono [OF sig])
qed


section \<open>Properties of the command\<close>

text \<open>
  C11: the command installs only what a publisher signed as newer. Let every managed binary be placed outside the data
  directory and none where the signature of another lies, and let failed writes leave their file as it was. Whatever
  the server answers and whatever I/O operations fail, if the file of a managed binary changed, then neither \<open>--dry-run\<close> nor
  \<open>--download-only\<close> was given, and a managed binary installed at that path (the only one, unless several were
  registered for the path) has a publisher whose key verifies a signature over the new bytes and a version which, without
  \<open>--allow-downgrade\<close>, is newer than the one recorded for that binary.
\<close>

theorem command_installs_newer:
  assumes "file_at w (db_path S) = Some (Database db)" "managed_ok S (managed_binaries db)" "no_torn w"
    and "perform_update L E S name dry_run download_only allow_downgrade w = (r, w')"
    and "mb \<in> set (managed_binaries db)" "file_at w' (target mb) \<noteq> file_at w (target mb)"
  shows "\<not> dry_run \<and> \<not> download_only \<and>
    (\<exists>b c v sig. b \<in> set (managed_binaries db) \<and> target b = target mb \<and> file_at w' (target mb) = Some c \<and>
       c_verify L (publisher_public_key b) (signing_payload (c_blake3 L (content_bytes L c)) (c_show L v)) sig \<and>
       (allow_downgrade \<or> (\<forall>s. current_version_string b = Some s \<longrightarrow>
          (\<exists>cur. c_parse L s = Inr cur \<and> version_cmp (c_pre_cmp L) v cur = Greater))))"
proof -
  have "kept_at (may_install L dry_run download_only allow_downgrade) (managed_binaries db) (target mb) w w'"
    using wp_perform_update [OF assms(1-3), of L E name dry_run download_only allow_downgrade] assms(4,5)
    by (auto simp: wp_def split: sum.splits)
  with assms(6) show ?thesis
    unfolding kept_at_def may_install_def authorised_def newer_def signed_by_def by metis
qed

definition sample_checked :: client_db where
  "sample_checked = sample_db\<lparr>managed_binaries := [sample_managed\<lparr>last_check_at := Some ''2025-01-01 00:00:00''\<rparr>]\<rparr>"

lemma sample_apply_checked:
  "\<exists>r w'. apply_update sample_client_libs (sample_env sample_server) sample_settings sample_managed sample_update
      (quiet_world [([''d''], Dir), ([''d'', ''client.db''], File (Database sample_checked)), ([''o''], Dir), ([''o'', ''app''], File (Bytes [1]))] 4) = (r, w') \<and>
     file_at w' [''o'', ''app''] = Some (Bytes [7, 8])"
proof -
  let ?S = sample_settings and ?L = sample_client_libs and ?E = "sample_env sample_server" and ?db = sample_checked
  have ids: "(\<forall>b \<in> set (managed_binaries ?db). mb_id b \<noteq> ''id'') = False" by (simp add: sample_checked_def sample_managed_def)
  obtain m ys n' where run: "execute_update ?L ?E ?S sample_managed sample_update (quiet_world (sample_files (started ?db) [1]) 15)
      = (Inr m, quiet_world (sample_files (started ?db) [7, 8] @ ys) n')" using sample_execute by blast
  define w1 where "w1 = quiet_world (sample_files (started ?db) [7, 8] @ ys) n'"
  obtain r w2 where fin: "finish_update ?L ?E ?S sample_managed sample_update (next_update ?db)
      (Some [''d'', ''backups'', ''app_unknown.backup'']) m w1 = (r, w2)" by fastforce
  have "file_at w2 [''o'', ''app''] = file_at w1 [''o'', ''app'']"
    using footprint.keepsD [OF touches_finish_update [of ?S "{db_path ?S}"] fin] by (simp add: same_outside_def sample_fields)
  then have "file_at w2 [''o'', ''app''] = Some (Bytes [7, 8])" by (simp add: w1_def file_at_def lookup_def)
  moreover have "apply_update ?L ?E ?S sample_managed sample_update
      (quiet_world [([''d''], Dir), ([''d'', ''client.db''], File (Database ?db)), ([''o''], Dir), ([''o'', ''app''], File (Bytes [1]))] 4) = (r, w2)"
    unfolding sample_begin_at [OF ids] using fin by (simp add: bindE_def outcome_def run w1_def)
  ultimately show ?thesis by blast
qed

lemma sample_binaries: "managed_binaries sample_db = [sample_managed]"
  by (simp add: sample_db_def)

lemma sample_world_hyps:
  "file_at sample_client_world (db_path sample_settings) = Some (Database sample_db)" "no_torn sample_client_world"
  "file_at sample_client_world (target sample_managed) = Some (Bytes [1])" "managed_ok sample_settings (managed_binaries sample_db)"
  using sample_placed sidecar_distinct [OF sample_placed]
  by (simp_all add: sample_client_world_def sample_fields sample_paths sample_target file_at_def lookup_def no_torn_def sample_binaries managed_ok_def)

lemmas sample_turn = list_binaries_def sample_binaries sort_by_def sample_client_world_def run_steps run_client
  set_node_def set_last_check_def update_binary_def sample_fields sample_env_fields sample_check

lemma sample_command:
  "\<exists>r w'. perform_update sample_client_libs (sample_env sample_server) sample_settings None False False False sample_client_world = (r, w') \<and>
     file_at w' (target sample_managed) = Some (Bytes [7, 8])"
proof -
  obtain r w2 where ap: "apply_update sample_client_libs (sample_env sample_server) sample_settings sample_managed sample_update
      (quiet_world [([''d''], Dir), ([''d'', ''client.db''], File (Database sample_checked)), ([''o''], Dir), ([''o'', ''app''], File (Bytes [1]))] 4) = (r, w2)"
      and t: "file_at w2 [''o'', ''app''] = Some (Bytes [7, 8])"
    using sample_apply_checked by blast
  have n4: "Suc (Suc (Suc (Suc 0))) = 4" by simp
  have "snd (perform_update sample_client_libs (sample_env sample_server) sample_settings None False False False sample_client_world) = w2"
    by (simp add: perform_update_def process_binary_update_def refuses_downgrade_def reported_def sample_turn
      ap [unfolded sample_checked_def] n4 split: prod.split sum.split)
  then show ?thesis
    using t sample_target by (metis prod.collapse)
qed

theorem command_installs_newer_witness:
  "\<exists>w' c v sig. file_at w' (target sample_managed) = Some c \<and>
     c_verify sample_client_libs (publisher_public_key sample_managed)
       (signing_payload (c_blake3 sample_client_libs (content_bytes sample_client_libs c)) (c_show sample_client_libs v)) sig"
proof -
  obtain r w' where run: "perform_update sample_client_libs (sample_env sample_server) sample_settings None False False False sample_client_world = (r, w')"
      "file_at w' (target sample_managed) = Some (Bytes [7, 8])"
    using sample_command by blast
  from command_installs_newer [OF sample_world_hyps(1,4,2) run(1), of sample_managed] run(2) sample_world_hyps(3) sample_binaries
  show ?thesis by auto
qed

text \<open>
  a file that \<open>--download-only\<close> reports has been verified. It lies directly in the downloads directory and has
  the announced checksum; if it is a whole binary and a signature was announced, the publisher's key verifies
  that signature over it. No other file changes.
\<close>

theorem download_only_verified:
  assumes "placed S mb" "validate_version_format (c_show L (ui_version u)) = Inr ()"
    and "download_update_only L E S mb u w = (Inr p, w')"
  shows "\<exists>url f h full c. chosen_download L mb u = Inr (url, f, h, full) \<and> p = downloads_dir S @ [f] \<and>
    file_at w' p = Some c \<and> parse_hash h = Inr (c_blake3 L (content_bytes L c)) \<and>
    (full \<longrightarrow> ui_signature_url u \<noteq> None \<longrightarrow>
       (\<exists>sig. signed_by L (publisher_public_key mb) (c_show L (ui_version u)) (c_blake3 L (content_bytes L c)) sig)) \<and>
    (\<forall>q. q \<noteq> p \<longrightarrow> file_at w' q = file_at w q)"
proof (cases "chosen_download L mb u")
  case (Inl e)
  have "wp (download_update_only L E S mb u) (\<lambda>_ _. False) (\<lambda>_ _. True) w"
    unfolding download_update_only_def by (auto simp: Inl intro!: wp_no_change)
  from wpD(1) [OF this assms(3)] show ?thesis ..
next
  case (Inr r)
  obtain url f h full where r: "r = (url, f, h, full)" by (cases r)
  let ?p = "downloads_dir S @ [f]"
  have dest: "path_join (downloads_dir S) f = ?p"
    using chosen_download_file [OF assms(1,2)] Inr r by simp
  define Q where "Q = (\<lambda>x :: content world. (\<exists>c. file_at x ?p = Some c \<and> parse_hash h = Inr (c_blake3 L (content_bytes L c)) \<and>
    (full \<longrightarrow> ui_signature_url u \<noteq> None \<longrightarrow>
       (\<exists>sig. signed_by L (publisher_public_key mb) (c_show L (ui_version u)) (c_blake3 L (content_bytes L c)) sig))) \<and>
    (\<forall>q. q \<noteq> ?p \<longrightarrow> file_at x q = file_at w q))"
  have check: "wp (verified_download L E mb u ?p h full) (\<lambda>_. Q) (\<lambda>_ _. True) v"
    if "\<forall>q. q \<notin> {?p} \<longrightarrow> file_at v q = file_at w q" for v
    by (rule wp_mono [OF wp_verified_download]) (use that in \<open>auto simp: Q_def\<close>)
  have load: "wp (download_file L E url ?p) (\<lambda>_. wp (verified_download L E mb u ?p h full) (\<lambda>_. Q) (\<lambda>_ _. True)) (\<lambda>_ _. True) v"
    if "file_at v = file_at w" for v
    by (rule wp_touches_any [OF touches_download_plain [of ?p "{?p}"]]) (use that check in simp_all)
  have "wp (download_update_only L E S mb u) (\<lambda>q x. q = ?p \<and> Q x) (\<lambda>_ _. True) w"
    unfolding download_update_only_def
    by (simp add: Inr r dest Let_def) (rule wp_no_change, rule load, simp_all)
  from wpD(1) [OF this assms(3)] show ?thesis using Inr r unfolding Q_def by blast
qed

lemma sample_download_only:
  "download_update_only sample_client_libs (sample_env sample_server) sample_settings sample_managed sample_update
     (quiet_world [([''d''], Dir), ([''o''], Dir)] n)
   = (Inr [''d'', ''downloads'', ''app_2.0.0''],
      quiet_world [([''d''], Dir), ([''o''], Dir), ([''d'', ''downloads''], Dir), ([''d'', ''downloads'', ''app_2.0.0''], File (Bytes [7, 8]))] (n + 8))"
  by (simp add: download_update_only_def chosen_download_def download_file_def existing_len_def create_fresh_def
      verified_download_def verify_downloaded_signature_def or_remove_def parse_hash_def path_join_def starts_with_def path_components_def
      sample_server_def sample_new_def sample_blake3 sample_signature sample_sig sample_lib_fields(4,5,7,8,9) sample_run_simps)

theorem download_only_verified_witness:
  "\<exists>c. file_at (snd (download_update_only sample_client_libs (sample_env sample_server) sample_settings sample_managed sample_update
       (quiet_world [([''d''], Dir), ([''o''], Dir)] 0))) [''d'', ''downloads'', ''app_2.0.0''] = Some c \<and>
     parse_hash (ui_checksum sample_update) = Inr (c_blake3 sample_client_libs (content_bytes sample_client_libs c))"
proof -
  have ver: "validate_version_format (c_show sample_client_libs (ui_version sample_update)) = Inr ()"
    unfolding sample_fields sample_lib_fields sample_show20 by code_simp
  from download_only_verified [OF sample_placed ver sample_download_only, of 0]
  show ?thesis by (auto simp: sample_download_only chosen_download_def sample_fields)
qed

end
