(* ===== verification/Daemon.thy ===== *)
theory Daemon
  imports Update_Command
begin

text \<open>
  The daemon (\<open>daemon.rs\<close>): the locks it takes, a cycle over all managed binaries, the circuit breaker whose
  state is kept in the database, and the loop. The loop runs for ever; \<open>daemon_cycles n\<close> is its first \<open>n\<close>
  cycles, with the pauses between them.
\<close>

section \<open>Locks\<close>

definition pid_lock_path :: "client_settings \<Rightarrow> path" where
  "pid_lock_path S = data_dir S @ [''deltaship-daemon.pid'']"

definition update_lock_path :: "client_settings \<Rightarrow> path" where
  "update_lock_path S = data_dir S @ [''deltaship-update.lock'']"

text \<open>The file is created if it is missing and locked; the lock itself is an observation.\<close>

definition open_lock_file :: "client_settings \<Rightarrow> path \<Rightarrow> (content, client_error, unit) io" where
  "open_lock_file S p =
     bindE (map_err CIo (create_dir_all (data_dir S))) (\<lambda>_.
     map_err CIo (open_create (Bytes []) p))"

definition acquire_daemon_lock :: "client_env \<Rightarrow> client_settings \<Rightarrow> bytes \<Rightarrow> (content, client_error, unit) io" where
  "acquire_daemon_lock E S pid =
     bindE (open_lock_file S (pid_lock_path S)) (\<lambda>_.
     bindE (observe (\<lambda>n. lock_free E n (pid_lock_path S))) (\<lambda>free.
     if free then
       bindE (map_err CIo (write_file (pid_lock_path S) (Bytes []))) (\<lambda>_.
       bindE (map_err CIo (write_file (pid_lock_path S) (Bytes pid))) (\<lambda>_.
       map_err CIo io_point))
     else
       bindE (attempt (read_file (pid_lock_path S))) (\<lambda>_. throwE CLocked)))"

definition acquire_update_lock :: "client_settings \<Rightarrow> (content, client_error, unit) io" where
  "acquire_update_lock S =
     bindE (open_lock_file S (update_lock_path S)) (\<lambda>_. map_err CIo io_point)"

definition try_acquire_update_lock :: "client_env \<Rightarrow> client_settings \<Rightarrow> (content, client_error, bool) io" where
  "try_acquire_update_lock E S =
     bindE (open_lock_file S (update_lock_path S)) (\<lambda>_.
     observe (\<lambda>n. lock_free E n (update_lock_path S)))"


section \<open>One cycle\<close>

text \<open>The daemon never applies a version that is not newer than the installed one.\<close>

definition daemon_refuses :: "client_libs \<Rightarrow> managed_binary \<Rightarrow> update_info \<Rightarrow> bool" where
  "daemon_refuses L mb u =
     (case current_version_string mb of
        None \<Rightarrow> False
      | Some current_str \<Rightarrow>
          (case version_from_str (c_parse L) current_str of
             Inr current \<Rightarrow> version_cmp (c_pre_cmp L) (ui_version u) current \<noteq> Greater
           | Inl _ \<Rightarrow> True))"

definition update_managed :: "client_libs \<Rightarrow> client_env \<Rightarrow> client_settings \<Rightarrow> managed_binary \<Rightarrow> (content, client_error, unit) io" where
  "update_managed L E S mb =
     (if \<not> auto_update mb then returnE ()
      else
        bindE (attempt (db_timed E (db_path S) (\<lambda>now. set_last_check now (mb_id mb)))) (\<lambda>_.
        bindE (outcome (check_for_updates L E S mb)) (\<lambda>info.
        case info of
          Inl _ \<Rightarrow> returnE ()
        | Inr None \<Rightarrow> returnE ()
        | Inr (Some update) \<Rightarrow>
            if daemon_refuses L mb update then returnE ()
            else bindE (outcome (apply_update L E S mb update)) (\<lambda>_. returnE ()))))"

definition check_and_apply_updates :: "client_libs \<Rightarrow> client_env \<Rightarrow> client_settings \<Rightarrow> (content, client_error, unit) io" where
  "check_and_apply_updates L E S =
     bindE (map_err CDb (db_run (db_path S) list_binaries)) (\<lambda>binaries.
     bindE (for_binaries (update_managed L E S) binaries) (\<lambda>_. returnE ()))"

definition run_check_once :: "client_libs \<Rightarrow> client_env \<Rightarrow> client_settings \<Rightarrow> (content, client_error, unit) io" where
  "run_check_once L E S = bindE (acquire_update_lock S) (\<lambda>_. check_and_apply_updates L E S)"


section \<open>The circuit breaker\<close>

definition MAX_BACKOFF_MULTIPLIER :: u32 where
  "MAX_BACKOFF_MULTIPLIER = 16"

definition CIRCUIT_BREAKER_FAILURES_KEY :: string where
  "CIRCUIT_BREAKER_FAILURES_KEY = ''daemon_consecutive_failures''"

definition CIRCUIT_BREAKER_TIMESTAMP_KEY :: string where
  "CIRCUIT_BREAKER_TIMESTAMP_KEY = ''daemon_failures_timestamp''"

definition CIRCUIT_BREAKER_EXPIRATION_SECS :: int where
  "CIRCUIT_BREAKER_EXPIRATION_SECS = 24 * 60 * 60"

text \<open>\<open>str::parse\<close> for \<open>u32\<close> and \<open>i64\<close>, which refuses numbers out of range.\<close>

definition parse_count :: "string \<Rightarrow> u32 option" where
  "parse_count s = (case parse_u32 s of Some n \<Rightarrow> if n < 2 ^ 32 then Some (of_nat n) else None | None \<Rightarrow> None)"

definition parse_i64 :: "string \<Rightarrow> int option" where
  "parse_i64 s = (case parse_i32 s of Some n \<Rightarrow> if - (2 ^ 63) \<le> n \<and> n < 2 ^ 63 then Some n else None | None \<Rightarrow> None)"

definition show_int :: "int \<Rightarrow> string" where
  "show_int n = (if n < 0 then CHR ''-'' # show_nat (nat (- n)) else show_nat (nat n))"

text \<open>Seconds since the epoch; the clock must not be before it.\<close>

definition system_time :: "client_env \<Rightarrow> (content, client_error, int) io" where
  "system_time E =
     bindE (observe (unix_time E)) (\<lambda>t.
     if t < 0 then throwE CPanic else returnE (sint (word_of_int t :: u64)))"

definition wrapping_sub :: "int \<Rightarrow> int \<Rightarrow> int" where
  "wrapping_sub a b = sint (word_of_int (a - b) :: u64)"

definition set_config_at :: "client_env \<Rightarrow> client_settings \<Rightarrow> string \<Rightarrow> string \<Rightarrow> (content, client_error, unit option) io" where
  "set_config_at E S key value = attempt (db_timed E (db_path S) (\<lambda>now. set_config now key value))"

definition query_config :: "client_settings \<Rightarrow> string \<Rightarrow> (content, client_error, string option) io" where
  "query_config S key =
     bindE (attempt (db_run (db_path S) (get_config key))) (\<lambda>r. returnE (case r of Some v \<Rightarrow> v | None \<Rightarrow> None))"

definition load_failures :: "client_env \<Rightarrow> client_settings \<Rightarrow> (content, client_error, u32) io" where
  "load_failures E S =
     bindE (query_config S CIRCUIT_BREAKER_FAILURES_KEY) (\<lambda>value.
     case value of
       None \<Rightarrow> returnE 0
     | Some v \<Rightarrow>
         let failures = (case parse_count v of Some f \<Rightarrow> f | None \<Rightarrow> 0) in
         if failures = 0 then returnE failures
         else
           bindE (query_config S CIRCUIT_BREAKER_TIMESTAMP_KEY) (\<lambda>timestamp_str.
           case Option.bind timestamp_str parse_i64 of
             None \<Rightarrow> returnE 0
           | Some timestamp \<Rightarrow>
               bindE (system_time E) (\<lambda>current_time.
               if CIRCUIT_BREAKER_EXPIRATION_SECS < wrapping_sub current_time timestamp
               then
                 bindE (set_config_at E S CIRCUIT_BREAKER_FAILURES_KEY ''0'') (\<lambda>_.
                 bindE (set_config_at E S CIRCUIT_BREAKER_TIMESTAMP_KEY ''0'') (\<lambda>_.
                 returnE 0))
               else returnE failures)))"

definition saturating_succ :: "u32 \<Rightarrow> u32" where
  "saturating_succ n = (if n = - 1 then n else n + 1)"

definition update_breaker :: "client_env \<Rightarrow> client_settings \<Rightarrow> bool \<Rightarrow> u32 \<Rightarrow> (content, client_error, u32) io" where
  "update_breaker E S cycle_failed consecutive_failures =
     (if cycle_failed then
        let failures = saturating_succ consecutive_failures in
        bindE (system_time E) (\<lambda>current_time.
        bindE (set_config_at E S CIRCUIT_BREAKER_FAILURES_KEY (show_nat (unat failures))) (\<lambda>_.
        bindE (set_config_at E S CIRCUIT_BREAKER_TIMESTAMP_KEY (show_int current_time)) (\<lambda>_.
        returnE failures)))
      else
        bindE (if consecutive_failures \<noteq> 0 then
                 bindE (set_config_at E S CIRCUIT_BREAKER_FAILURES_KEY ''0'') (\<lambda>_.
                 set_config_at E S CIRCUIT_BREAKER_TIMESTAMP_KEY ''0'')
               else returnE None) (\<lambda>_.
        returnE 0))"

definition saturating_pow2 :: "u32 \<Rightarrow> u32" where
  "saturating_pow2 n = (if unat n < 32 then 2 ^ unat n else - 1)"

definition backoff_multiplier :: "u32 \<Rightarrow> u32" where
  "backoff_multiplier consecutive_failures =
     (if consecutive_failures = 0 then 1
      else min (saturating_pow2 (consecutive_failures - 1)) MAX_BACKOFF_MULTIPLIER)"

text \<open>\<open>Duration * u32\<close> panics when the seconds overflow.\<close>

definition sleep_duration :: "client_settings \<Rightarrow> u32 \<Rightarrow> nat option" where
  "sleep_duration S consecutive_failures =
     (let secs = unat (check_interval_secs S) * unat (backoff_multiplier consecutive_failures) in
      if secs < 2 ^ 64 then Some secs else None)"


section \<open>The loop\<close>

definition run_cycle :: "client_libs \<Rightarrow> client_env \<Rightarrow> client_settings \<Rightarrow> (content, client_error, bool) io" where
  "run_cycle L E S =
     bindE (outcome (acquire_update_lock S)) (\<lambda>lk.
     case lk of
       Inr _ \<Rightarrow> bindE (outcome (check_and_apply_updates L E S)) (\<lambda>r. returnE (isl r))
     | Inl _ \<Rightarrow> returnE True)"

definition daemon_cycle :: "client_libs \<Rightarrow> client_env \<Rightarrow> client_settings \<Rightarrow> u32 \<Rightarrow> (content, client_error, u32 \<times> nat) io" where
  "daemon_cycle L E S consecutive_failures =
     bindE (run_cycle L E S) (\<lambda>cycle_failed.
     bindE (attempt (db_timed E (db_path S) delete_expired_backups)) (\<lambda>_.
     bindE (update_breaker E S cycle_failed consecutive_failures) (\<lambda>failures.
     case sleep_duration S failures of
       None \<Rightarrow> throwE CPanic
     | Some d \<Rightarrow> returnE (failures, d))))"

fun daemon_cycles :: "client_libs \<Rightarrow> client_env \<Rightarrow> client_settings \<Rightarrow> nat \<Rightarrow> u32 \<Rightarrow> (content, client_error, nat list) io" where
  "daemon_cycles L E S 0 failures = returnE []"
| "daemon_cycles L E S (Suc n) failures =
     bindE (daemon_cycle L E S failures) (\<lambda>(failures', d).
     bindE (daemon_cycles L E S n failures') (\<lambda>ds. returnE (d # ds)))"

text \<open>The file with the process identifier is removed when the daemon ends.\<close>

definition run_daemon :: "client_libs \<Rightarrow> client_env \<Rightarrow> client_settings \<Rightarrow> bytes \<Rightarrow> nat \<Rightarrow> (content, client_error, nat list) io" where
  "run_daemon L E S pid n =
     bindE (acquire_daemon_lock E S pid) (\<lambda>_.
     bindE (outcome (bindE (load_failures E S) (daemon_cycles L E S n))) (\<lambda>r.
     bindE (attempt (remove_file (pid_lock_path S))) (\<lambda>_.
     from_sum r)))"


section \<open>What the daemon installs\<close>

definition daemon_may_install :: "client_libs \<Rightarrow> managed_binary \<Rightarrow> content \<Rightarrow> bool" where
  "daemon_may_install L b c \<longleftrightarrow> auto_update b \<and> authorised L False b c"

lemma daemon_not_refused: "\<not> daemon_refuses L mb u \<Longrightarrow> newer L mb (ui_version u)"
  by (auto simp: daemon_refuses_def newer_def version_from_str_def split: option.splits sum.splits)

lemma wp_update_managed:
  assumes pl: "placed S b" and nt: "no_torn w"
  shows "wp (update_managed L E S b) (\<lambda>_. kept (daemon_may_install L) b w) (\<lambda>_. kept (daemon_may_install L) b w) w"
proof (cases "auto_update b")
  case True
  let ?K = "kept (daemon_may_install L) b w"
  have same: "?K v" if "file_at v (target b) = file_at w (target b)" for v using that by (simp add: kept_def)
  have tail: "wp (if daemon_refuses L b u then returnE () else bindE (outcome (apply_update L E S b u)) (\<lambda>_. returnE ())) (\<lambda>_. ?K) (\<lambda>_. ?K) v"
    if u: "acceptable L u" and v: "file_at v (target b) = file_at w (target b)" "no_torn v" for u v
  proof (intro wp_branch)
    assume a: "\<not> daemon_refuses L b u"
    then have n: "False \<or> newer L b (ui_version u)" using daemon_not_refused by simp
    show "wp (bindE (outcome (apply_update L E S b u)) (\<lambda>_. returnE ())) (\<lambda>_. ?K) (\<lambda>_. ?K) v"
      unfolding wp_bindE wp_outcome wp_pure
      by (rule wp_mono [OF wp_apply_kept [OF pl u v(2) refl n]])
         (use True v in \<open>auto simp: kept_def daemon_may_install_def\<close>)
  qed (use v in \<open>simp add: kept_def\<close>)
  have step: "update_managed L E S b = bindE (attempt (db_timed E (db_path S) (\<lambda>now. set_last_check now (mb_id b)))) (\<lambda>_.
      bindE (outcome (check_for_updates L E S b)) (\<lambda>info.
        case info of Inl _ \<Rightarrow> returnE () | Inr None \<Rightarrow> returnE ()
        | Inr (Some update) \<Rightarrow>
            if daemon_refuses L b update then returnE ()
            else bindE (outcome (apply_update L E S b update)) (\<lambda>_. returnE ())))"
    using True by (simp add: update_managed_def)
  show ?thesis
    unfolding step wp_bindE [of "attempt _"]
  proof (rule wp_schedule [OF schedule.keeps_wrap(2) [OF schedule_ops(2)]], rule wp_mono [OF set_last_check_step], intro impI)
    fix x v assume v: "\<forall>p. p \<noteq> db_path S \<longrightarrow> file_at v p = file_at w p" "faults v = faults w"
    then have t: "file_at v (target b) = file_at w (target b)" "no_torn v"
      using placed_db(1) [OF pl] nt by (simp_all add: no_torn_def)
    show "wp (bindE (outcome (check_for_updates L E S b)) (\<lambda>info.
        case info of Inl _ \<Rightarrow> returnE () | Inr None \<Rightarrow> returnE ()
        | Inr (Some update) \<Rightarrow>
            if daemon_refuses L b update then returnE ()
            else bindE (outcome (apply_update L E S b update)) (\<lambda>_. returnE ()))) (\<lambda>_. ?K) (\<lambda>_. ?K) v"
      by (rule wp_check_then; simp only: sum.case option.case wp_pure; (rule tail same)?)
         (use t in \<open>simp_all add: no_torn_def kept_def\<close>)
  qed simp
qed (simp add: update_managed_def kept_def)

interpretation daemon: update_loop S "update_managed L E S" "daemon_may_install L" for L E S
proof
  show "schedule.keeps (update_managed L E S b)" for b
    unfolding update_managed_def
    by (auto split: sum.split option.split intro!: schedule.keeps_intros schedule_catch schedule_ops schedule_check
        schedule_apply_update)
  show "touches (near S b) (update_managed L E S b)" if "placed S b" for b
    unfolding update_managed_def
    by (intro footprint.keeps_if footprint.keeps_bindE_ret [OF _ check_ret] footprint.keeps_bindE [of _ "attempt _"])
       (auto split: sum.split option.split intro!: touches_intros touches_catch touches_client near_target
        touches_apply_update [OF that] simp: acceptable_def)
qed (rule wp_update_managed)

lemma wp_check_and_apply:
  assumes "file_at w (db_path S) = Some (Database db)" "managed_ok S (managed_binaries db)" "no_torn w"
  shows "wp (check_and_apply_updates L E S)
    (\<lambda>_ v. \<forall>b \<in> set (managed_binaries db). kept_at (daemon_may_install L) (managed_binaries db) (target b) w v)
    (\<lambda>_ v. \<forall>b \<in> set (managed_binaries db). kept_at (daemon_may_install L) (managed_binaries db) (target b) w v) w"
    (is "wp _ (\<lambda>_. ?Q) (\<lambda>_. ?Q) w")
proof -
  have same: "?Q v" if "file_at v = file_at w" for v using that by (simp add: kept_at_def)
  have loop: "wp (for_binaries (update_managed L E S) bs) (\<lambda>_. ?Q) (\<lambda>_. ?Q) v"
    if "file_at v = file_at w" "faults v = faults w" "set bs \<subseteq> set (managed_binaries db)" for v bs
    by (rule wp_mono [OF daemon.wp_loop_all [OF assms(2) that(3)]])
       (use that assms(3) in \<open>auto simp: no_torn_def kept_at_def\<close>)
  show ?thesis
    unfolding check_and_apply_updates_def
    by (simp, rule wp_query [OF assms(1)], simp add: list_binaries_def)
       (use assms(2) same in \<open>auto intro!: loop\<close>)
qed


section \<open>How the daemon waits\<close>

lemma backoff_schedule: "unat (backoff_multiplier f) = (if f = 0 then 1 else min (2 ^ (unat f - 1)) 16)"
proof (cases "f = 0")
  case False
  then have f: "unat (f - 1) = unat f - 1" by (metis unat_minus_one)
  have pow: "unat (2 ^ k :: u32) = 2 ^ k" if "k < 32" for k :: nat
  proof -
    have "unat (of_nat (2 ^ k) :: u32) = 2 ^ k mod 2 ^ 32" by (simp only: unat_of_nat) simp
    moreover have "(2::nat) ^ k < 2 ^ 32" using that by (intro power_strict_increasing) simp_all
    ultimately show ?thesis by simp
  qed
  have "unat (saturating_pow2 (f - 1)) = (if unat f - 1 < 32 then 2 ^ (unat f - 1) else 2 ^ 32 - 1)"
    by (simp add: saturating_pow2_def f pow unsigned_minus_1_eq_mask mask_eq_exp_minus_1)
  moreover have "(16::nat) \<le> 2 ^ k" if "\<not> k < 32" for k
    using that power_increasing [of 4 k "2::nat"] by simp
  ultimately show ?thesis
    using False by (auto simp: backoff_multiplier_def MAX_BACKOFF_MULTIPLIER_def min_def word_le_nat_alt intro: le_antisym)
qed (simp add: backoff_multiplier_def)

lemma sleep_bounds:
  assumes "16 * unat (check_interval_secs S) < 2 ^ 64"
  shows "\<exists>d. sleep_duration S f = Some d \<and> unat (check_interval_secs S) \<le> d \<and> d \<le> 16 * unat (check_interval_secs S)"
proof -
  have m: "1 \<le> unat (backoff_multiplier f)" "unat (backoff_multiplier f) \<le> 16" by (simp_all add: backoff_schedule)
  define d where "d = unat (check_interval_secs S) * unat (backoff_multiplier f)"
  have "d \<le> unat (check_interval_secs S) * 16" unfolding d_def by (rule mult_le_mono2, rule m)
  moreover have "unat (check_interval_secs S) * 1 \<le> d" unfolding d_def by (rule mult_le_mono2, rule m)
  moreover have "sleep_duration S f = (if d < 2 ^ 64 then Some d else None)" by (simp only: sleep_duration_def Let_def d_def)
  ultimately show ?thesis using assms by simp
qed

lemma wp_any: "wp m (\<lambda>_ _. True) (\<lambda>_ _. True) w"
  by (rule wpI) simp_all

lemma wp_run_cycle: "wp (run_cycle L E S) (\<lambda>_ _. True) (\<lambda>_ _. False) w"
  unfolding run_cycle_def
  by (simp, rule wp_mono [OF wp_any [of "acquire_update_lock S"]]) (auto intro: wp_any)

lemma wp_set_config: "wp (set_config_at E S k v) (\<lambda>_ _. True) (\<lambda>_ _. False) w"
  unfolding set_config_at_def by (simp, rule wp_any)

lemma wp_update_breaker:
  assumes "\<forall>n. 0 \<le> unix_time E n"
  shows "wp (update_breaker E S c f) (\<lambda>_ _. True) (\<lambda>_ _. False) w"
  unfolding update_breaker_def system_time_def using assms
  by (auto simp: Let_def not_less [symmetric] intro!: wp_branch wp_mono [OF wp_set_config])

lemma wp_daemon_cycles:
  assumes "\<forall>n. 0 \<le> unix_time E n" "16 * unat (check_interval_secs S) < 2 ^ 64"
  shows "wp (daemon_cycles L E S n f)
    (\<lambda>ds _. length ds = n \<and> (\<forall>d \<in> set ds. unat (check_interval_secs S) \<le> d \<and> d \<le> 16 * unat (check_interval_secs S)))
    (\<lambda>_ _. False) w"
proof (induction n arbitrary: f w)
  case (Suc n)
  have cyc: "wp (daemon_cycle L E S f) (\<lambda>(f', d) _. unat (check_interval_secs S) \<le> d \<and> d \<le> 16 * unat (check_interval_secs S)) (\<lambda>_ _. False) v" for f v
  proof -
    have "wp (case sleep_duration S x of None \<Rightarrow> throwE CPanic | Some d \<Rightarrow> returnE (x, d))
        (\<lambda>(f', d) _. unat (check_interval_secs S) \<le> d \<and> d \<le> 16 * unat (check_interval_secs S)) (\<lambda>_ _. False) v" for x and v :: "content world"
      using sleep_bounds [OF assms(2), of x] by auto
    then have brk: "wp (bindE (update_breaker E S c f) (\<lambda>x. case sleep_duration S x of None \<Rightarrow> throwE CPanic | Some d \<Rightarrow> returnE (x, d)))
        (\<lambda>(f', d) _. unat (check_interval_secs S) \<le> d \<and> d \<le> 16 * unat (check_interval_secs S)) (\<lambda>_ _. False) v" for c v
      unfolding wp_bindE by (intro wp_mono [OF wp_update_breaker [OF assms(1)]])
    show ?thesis
      unfolding daemon_cycle_def wp_bindE [of "run_cycle _ _ _"] wp_bindE [of "attempt _"] wp_attempt
      by (rule wp_mono [OF wp_run_cycle], rule wp_mono [OF wp_any], rule brk, rule brk)
  qed
  show ?case
    unfolding daemon_cycles.simps wp_bindE
    by (rule wp_mono [OF cyc]) (auto intro: wp_mono [OF Suc.IH])
qed simp

lemma update_managed_total: "wp (update_managed L E S b) (\<lambda>_ _. True) (\<lambda>_ _. False) w"
proof -
  have tail: "wp (bindE (outcome (check_for_updates L E S b)) (\<lambda>info.
      case info of Inl _ \<Rightarrow> returnE () | Inr None \<Rightarrow> returnE ()
      | Inr (Some update) \<Rightarrow>
          if daemon_refuses L b update then returnE ()
          else bindE (outcome (apply_update L E S b update)) (\<lambda>_. returnE ()))) (\<lambda>_ _. True) (\<lambda>_ _. False) v" for v
    by (rule wp_check_then) (auto intro: wp_any)
  show ?thesis
    unfolding update_managed_def
    by (rule wp_branch(1), simp, subst wp_bindE [of "attempt _"], subst wp_attempt, rule wp_mono [OF wp_any], rule tail, rule tail)
qed

lemma for_binaries_total:
  assumes "\<And>b v. wp (f b) (\<lambda>_ _. True) (\<lambda>_ _. False) v"
  shows "wp (for_binaries f bs) (\<lambda>_ _. True) (\<lambda>_ _. False) w"
proof (induction bs arbitrary: w)
  case (Cons b bs)
  show ?case
    unfolding for_binaries.simps wp_bindE by (rule wp_mono [OF assms]) (auto intro: wp_mono [OF Cons.IH])
qed simp


section \<open>Properties of the daemon\<close>

text \<open>
  C2: the daemon never downgrades and never installs what no publisher signed. Let every managed binary be placed outside
  the data directory and none where the signature of another lies, and let failed writes leave their file as it was. In a
  cycle of the daemon, whatever the server answers and whatever I/O operations fail, if the file of a managed binary
  changed, then a managed binary installed at that path (the only one, unless several were registered for the path) has
  automatic updates enabled and a publisher whose key verifies a signature over the new bytes and a version newer than
  the one recorded for that binary.
\<close>

theorem daemon_installs_newer:
  assumes "file_at w (db_path S) = Some (Database db)" "managed_ok S (managed_binaries db)" "no_torn w"
    and "check_and_apply_updates L E S w = (r, w')"
    and "mb \<in> set (managed_binaries db)" "file_at w' (target mb) \<noteq> file_at w (target mb)"
  shows "\<exists>b c v sig. b \<in> set (managed_binaries db) \<and> target b = target mb \<and> auto_update b \<and> file_at w' (target mb) = Some c \<and>
     c_verify L (publisher_public_key b) (signing_payload (c_blake3 L (content_bytes L c)) (c_show L v)) sig \<and>
     (\<forall>s. current_version_string b = Some s \<longrightarrow>
        (\<exists>cur. c_parse L s = Inr cur \<and> version_cmp (c_pre_cmp L) v cur = Greater))"
proof -
  have "kept_at (daemon_may_install L) (managed_binaries db) (target mb) w w'"
    using wp_check_and_apply [OF assms(1-3), of L E] assms(4,5) by (auto simp: wp_def split: sum.splits)
  with assms(6) show ?thesis
    unfolding kept_at_def daemon_may_install_def authorised_def newer_def signed_by_def by metis
qed

lemma sample_cycle:
  "\<exists>r w'. check_and_apply_updates sample_client_libs (sample_env sample_server) sample_settings sample_client_world = (r, w') \<and>
     file_at w' (target sample_managed) = Some (Bytes [7, 8])"
proof -
  obtain r w2 where ap: "apply_update sample_client_libs (sample_env sample_server) sample_settings sample_managed sample_update
      (quiet_world [([''d''], Dir), ([''d'', ''client.db''], File (Database sample_checked)), ([''o''], Dir), ([''o'', ''app''], File (Bytes [1]))] 4) = (r, w2)"
      and t: "file_at w2 [''o'', ''app''] = Some (Bytes [7, 8])"
    using sample_apply_checked by blast
  have n4: "Suc (Suc (Suc (Suc 0))) = 4" by simp
  have au: "auto_update sample_managed" by (simp add: sample_managed_def)
  have "snd (check_and_apply_updates sample_client_libs (sample_env sample_server) sample_settings sample_client_world) = w2"
    by (simp add: check_and_apply_updates_def update_managed_def daemon_refuses_def au sample_turn
      ap [unfolded sample_checked_def] n4 split: prod.split sum.split)
  then show ?thesis
    using t sample_target by (metis prod.collapse)
qed

theorem daemon_installs_newer_witness:
  "\<exists>w' c v sig. file_at w' (target sample_managed) = Some c \<and>
     c_verify sample_client_libs (publisher_public_key sample_managed)
       (signing_payload (c_blake3 sample_client_libs (content_bytes sample_client_libs c)) (c_show sample_client_libs v)) sig"
proof -
  obtain r w' where run: "check_and_apply_updates sample_client_libs (sample_env sample_server) sample_settings sample_client_world = (r, w')"
      "file_at w' (target sample_managed) = Some (Bytes [7, 8])"
    using sample_cycle by blast
  from daemon_installs_newer [OF sample_world_hyps(1,4,2) run(1), of sample_managed] run(2) sample_world_hyps(3) sample_binaries
  show ?thesis by auto
qed

text \<open>
  C20: the daemon keeps running. If the clock is not before the epoch and sixteen intervals do not overflow, then
  whatever the server, the network, the disk and the database do, every cycle ends without an error, and the pause
  after it is at least the configured interval and at most sixteen times that.
\<close>

theorem daemon_keeps_running:
  assumes "\<forall>k. 0 \<le> unix_time E k" "16 * unat (check_interval_secs S) < 2 ^ 64"
  shows "\<exists>ds w'. daemon_cycles L E S n failures w = (Inr ds, w') \<and> length ds = n \<and>
    (\<forall>d \<in> set ds. unat (check_interval_secs S) \<le> d \<and> d \<le> 16 * unat (check_interval_secs S))"
  using wp_daemon_cycles [OF assms, of L n failures w]
  by (auto simp: wp_def split: prod.splits sum.splits)

theorem daemon_keeps_running_witness:
  "\<exists>ds w'. daemon_cycles sample_client_libs (sample_env sample_server) sample_settings 3 0 sample_client_world = (Inr ds, w') \<and> length ds = 3 \<and>
     (\<forall>d \<in> set ds. 3600 \<le> d \<and> d \<le> 57600)"
  using daemon_keeps_running [of "sample_env sample_server" sample_settings sample_client_libs 3 0 sample_client_world]
  by (simp add: sample_env_def sample_settings_def)

text \<open>
  C40: failures of the server do not trip the circuit breaker. When the list of the managed binaries can be read, a
  cycle is a success, whatever becomes of the checks and the updates: a daemon whose server cannot be reached never
  backs off.
\<close>

theorem failed_updates_count_as_success:
  assumes "faults w (tick w) = NoFault" "lookup w (db_path S) = Some (File (Database db))"
  shows "\<exists>w'. check_and_apply_updates L E S w = (Inr (), w')"
proof -
  have "db_run (db_path S) list_binaries w = (Inr (fst (projr (list_binaries db))), set_node (db_path S) (File (Database db)) (snd (next_op w)))"
    using assms by (simp add: db_run_def next_op_def lookup_def list_binaries_def)
  moreover have "wp (for_binaries (update_managed L E S) bs) (\<lambda>_ _. True) (\<lambda>_ _. False) v" for bs v
    by (rule for_binaries_total [OF update_managed_total])
  ultimately have "wp (check_and_apply_updates L E S) (\<lambda>_ _. True) (\<lambda>_ _. False) w"
    unfolding check_and_apply_updates_def by (simp add: wp_def [of "db_run _ _"])
  then show ?thesis by (auto simp: wp_def split: prod.splits sum.splits)
qed

theorem failed_updates_count_as_success_witness:
  "\<exists>w'. check_and_apply_updates sample_client_libs (sample_env (\<lambda>_. None)) sample_settings sample_client_world = (Inr (), w')"
  using failed_updates_count_as_success [of sample_client_world sample_settings sample_db]
  by (simp add: sample_client_world_def sample_fields lookup_def)

end
