(* ===== verification/File_Locks.thy ===== *)
theory File_Locks
  imports Prelude
begin

text \<open>
  The two lock files of the client as processes see them (\<open>daemon.rs\<close>): a path names a file or none, a process
  opens the file, creating it if there is none, and then asks for its exclusive lock, which belongs to the file and
  not to the path. Between any two of these steps other processes may act. The guard of the daemon removes the file
  before its lock is released, the guard of an update only releases the lock.
\<close>

section \<open>Processes and files\<close>

text \<open>What a process is doing: it has opened a file, it holds the lock of a file, or its guard has removed the
  path but not yet released the lock.\<close>

datatype phase = Idle | Opened nat | Holding nat | Unlinked nat

record lock_state =
  entry :: "nat option"
  next_file :: nat
  owner :: "nat \<Rightarrow> nat option"
  phase_of :: "nat \<Rightarrow> phase"

definition initial_locks :: lock_state where
  "initial_locks = \<lparr>entry = None, next_file = 0, owner = (\<lambda>_. None), phase_of = (\<lambda>_. Idle)\<rparr>"

text \<open>\<open>OpenOptions::create(true).truncate(false).open\<close>\<close>

definition open_lock :: "nat \<Rightarrow> lock_state \<Rightarrow> lock_state" where
  "open_lock p s =
     (case entry s of
        Some i \<Rightarrow> s\<lparr>phase_of := (phase_of s)(p := Opened i)\<rparr>
      | None \<Rightarrow> s\<lparr>entry := Some (next_file s), next_file := Suc (next_file s),
                phase_of := (phase_of s)(p := Opened (next_file s))\<rparr>)"

definition grant_lock :: "nat \<Rightarrow> nat \<Rightarrow> lock_state \<Rightarrow> lock_state" where
  "grant_lock p i s = s\<lparr>owner := (owner s)(i \<mapsto> p), phase_of := (phase_of s)(p := Holding i)\<rparr>"

definition unlink_lock :: "nat \<Rightarrow> nat \<Rightarrow> lock_state \<Rightarrow> lock_state" where
  "unlink_lock p i s = s\<lparr>entry := None, phase_of := (phase_of s)(p := Unlinked i)\<rparr>"

definition release_lock :: "nat \<Rightarrow> nat \<Rightarrow> lock_state \<Rightarrow> lock_state" where
  "release_lock p i s = s\<lparr>owner := (owner s)(i := None), phase_of := (phase_of s)(p := Idle)\<rparr>"

definition give_up :: "nat \<Rightarrow> lock_state \<Rightarrow> lock_state" where
  "give_up p s = s\<lparr>phase_of := (phase_of s)(p := Idle)\<rparr>"

text \<open>\<open>removes\<close> tells whether the guard removes the file. A process that dies releases its lock and leaves the
  file.\<close>

inductive lock_step :: "bool \<Rightarrow> lock_state \<Rightarrow> lock_state \<Rightarrow> bool" for removes where
  opens: "phase_of s p = Idle \<Longrightarrow> lock_step removes s (open_lock p s)"
| granted: "phase_of s p = Opened i \<Longrightarrow> owner s i = None \<Longrightarrow> lock_step removes s (grant_lock p i s)"
| refused: "phase_of s p = Opened i \<Longrightarrow> owner s i \<noteq> None \<Longrightarrow> lock_step removes s (give_up p s)"
| unlinks: "removes \<Longrightarrow> phase_of s p = Holding i \<Longrightarrow> lock_step removes s (unlink_lock p i s)"
| drops: "removes \<Longrightarrow> phase_of s p = Unlinked i \<Longrightarrow> lock_step removes s (release_lock p i s)"
| releases: "\<not> removes \<Longrightarrow> phase_of s p = Holding i \<Longrightarrow> lock_step removes s (release_lock p i s)"
| dies: "phase_of s p = Holding i \<Longrightarrow> lock_step removes s (release_lock p i s)"

inductive_cases lock_stepE: "lock_step removes s s'"

inductive lock_reachable :: "bool \<Rightarrow> lock_state \<Rightarrow> bool" for removes where
  start: "lock_reachable removes initial_locks"
| step: "lock_reachable removes s \<Longrightarrow> lock_step removes s s' \<Longrightarrow> lock_reachable removes s'"

lemmas lock_ops = open_lock_def grant_lock_def unlink_lock_def release_lock_def give_up_def


section \<open>The lock of an update\<close>

text \<open>The path is never removed, so that every process that opened it has opened the same file.\<close>

definition one_file :: "lock_state \<Rightarrow> bool" where
  "one_file s \<longleftrightarrow>
     (\<forall>p i. phase_of s p = Opened i \<or> phase_of s p = Holding i \<longrightarrow> entry s = Some i) \<and>
     (\<forall>p i. phase_of s p = Holding i \<longrightarrow> owner s i = Some p) \<and> (\<forall>p i. phase_of s p \<noteq> Unlinked i)"

lemma one_file_step: "lock_step False s s' \<Longrightarrow> one_file s \<Longrightarrow> one_file s'"
  by (elim lock_stepE; simp add: one_file_def lock_ops split: option.splits) (metis option.inject option.distinct(1))+

lemma one_file_reachable: "lock_reachable False s \<Longrightarrow> one_file s"
proof (induction rule: lock_reachable.induct)
  case start
  show ?case by (simp add: one_file_def initial_locks_def)
qed (rule one_file_step)


section \<open>Properties\<close>

text \<open>
  C21: at most one update runs at a time. However many processes ask for the update lock, in whatever order they
  open, lock, release or die, no two of them hold it in the same state.
\<close>

theorem update_lock_exclusive:
  assumes "lock_reachable False s" "phase_of s p = Holding i" "phase_of s q = Holding j"
  shows "p = q"
  using one_file_reachable [OF assms(1)] assms(2,3) unfolding one_file_def by (metis option.inject)

lemma sample_locked: "lock_reachable False (grant_lock 7 0 (open_lock 7 initial_locks))"
  by (intro lock_reachable.step [OF _ granted] lock_reachable.step [OF _ opens] lock_reachable.start)
     (simp_all add: lock_ops initial_locks_def)

theorem update_lock_exclusive_witness:
  "{q. phase_of (grant_lock 7 0 (open_lock 7 initial_locks)) q = Holding 0} = {7}"
proof -
  have "phase_of (grant_lock 7 0 (open_lock 7 initial_locks)) 7 = Holding 0" by (simp add: grant_lock_def)
  then show ?thesis using update_lock_exclusive [OF sample_locked, of _ 0 7 0] by blast
qed

text \<open>
  C39: two daemons can run at once. A process that has opened the file before the guard of an ending daemon removes it,
  and asks for the lock after that guard has released it, locks a file that no path names any more; the next process
  creates a new file and locks that.
\<close>

theorem two_daemons_can_run:
  "\<exists>s p q i j. lock_reachable True s \<and> p \<noteq> q \<and> phase_of s p = Holding i \<and> phase_of s q = Holding j"
proof -
  let ?s1 = "grant_lock 0 0 (open_lock 0 initial_locks)"
  let ?s2 = "release_lock 0 0 (unlink_lock 0 0 (open_lock 1 ?s1))"
  let ?s3 = "grant_lock 2 1 (open_lock 2 (grant_lock 1 0 ?s2))"
  have "lock_reachable True ?s1"
    by (intro lock_reachable.step [OF _ granted] lock_reachable.step [OF _ opens] lock_reachable.start)
       (simp_all add: lock_ops initial_locks_def)
  then have "lock_reachable True ?s2"
    by (intro lock_reachable.step [OF _ drops] lock_reachable.step [OF _ unlinks] lock_reachable.step [OF _ opens])
       (simp_all add: lock_ops initial_locks_def)
  then have "lock_reachable True ?s3"
    by (intro lock_reachable.step [OF _ granted] lock_reachable.step [OF _ opens])
       (simp_all add: lock_ops initial_locks_def)
  moreover have "phase_of ?s3 1 = Holding 0" "phase_of ?s3 2 = Holding 1" by (simp_all add: lock_ops initial_locks_def)
  moreover have "(1::nat) \<noteq> 2" by simp
  ultimately show ?thesis by blast
qed

end
