(* ===== verification/Keys.thy ===== *)
theory Keys
  imports Crypto Db_Ops
begin

text \<open>
  The files of signing and verifying keys (\<open>crates/deltaship-crypto/src/keys.rs\<close>). A text is a list of
  characters; files of keys are ASCII. Argon2, ChaCha20-Poly1305, the \<open>hex\<close> crate and the check of
  Ed25519 that 32 bytes are a point of the curve are the fields of \<open>key_libs\<close>, with the encoding of a text as
  the content of a file; the random salt and nonce are functions of the number of operations performed.
  A file has no permissions, so setting them is an operation that may fail; clearing memory has no
  counterpart.
\<close>

section \<open>Texts\<close>

definition NEWLINE :: char where
  "NEWLINE = CHR 0x0A"

fun join_lines :: "string list \<Rightarrow> string" where
  "join_lines [] = []"
| "join_lines [l] = l"
| "join_lines (l # ls) = l @ NEWLINE # join_lines ls"

text \<open>\<open>str::lines\<close>: a final line break and the \<open>CR\<close> of a line break are not part of the lines.\<close>

definition drop_cr :: "string \<Rightarrow> string" where
  "drop_cr l = (if l \<noteq> [] \<and> last l = CHR 0x0D then butlast l else l)"

definition str_lines :: "string \<Rightarrow> string list" where
  "str_lines s = (let ls = split_char NEWLINE s in map drop_cr (if last ls = [] then butlast ls else ls))"

definition strip_suffix :: "string \<Rightarrow> string \<Rightarrow> string option" where
  "strip_suffix p s =
     (if length p \<le> length s \<and> drop (length s - length p) s = p then Some (take (length s - length p) s) else None)"

fun str_chunks :: "nat \<Rightarrow> string \<Rightarrow> string list" where
  "str_chunks n [] = []"
| "str_chunks n (c # s) = (if n = 0 then [c # s] else take n (c # s) # str_chunks n (drop n (c # s)))"


section \<open>Key derivation and encryption\<close>

datatype security_level = Standard | High | Maximum

datatype key_error =
    InvalidVerifyingKey
  | InvalidKeyFileFormat
  | InvalidKeyFileHexOddLength
  | InvalidKeyFileHexChar char nat
  | InvalidKeyFileHexLength nat
  | InvalidKeyFileVersion nat
  | InvalidKeyFileSalt
  | InvalidKeyFileNonce
  | PassphraseRequired
  | KeyDerivationFailure
  | AeadEncryptionFailure
  | AeadDecryptionFailure
  | LegacyKeyFormat
  | KeyIo io_error

record 'c key_libs =
  argon2id :: "nat \<Rightarrow> nat \<Rightarrow> string \<Rightarrow> bytes \<Rightarrow> bytes option"
  aead_encrypt :: "bytes \<Rightarrow> bytes \<Rightarrow> bytes \<Rightarrow> bytes option"
  aead_decrypt :: "bytes \<Rightarrow> bytes \<Rightarrow> bytes \<Rightarrow> bytes option"
  hex_decode_crate :: "string \<Rightarrow> bytes option"
  curve_point :: "bytes \<Rightarrow> bool"
  utf8_of_text :: "string \<Rightarrow> 'c"
  text_of_utf8 :: "'c \<Rightarrow> string option"

fun level_params :: "security_level \<Rightarrow> nat \<times> nat" where
  "level_params Standard = (19456, 2)"
| "level_params High = (65536, 3)"
| "level_params Maximum = (262144, 4)"

definition derive_key_from_passphrase :: "'c key_libs \<Rightarrow> string \<Rightarrow> bytes \<Rightarrow> security_level \<Rightarrow> key_error + bytes" where
  "derive_key_from_passphrase K passphrase salt level =
     (case level_params level of (m_cost, t_cost) \<Rightarrow>
      case argon2id K m_cost t_cost passphrase salt of None \<Rightarrow> Inl KeyDerivationFailure | Some key \<Rightarrow> Inr key)"

definition encrypt_with_key :: "'c key_libs \<Rightarrow> bytes \<Rightarrow> bytes \<Rightarrow> bytes \<Rightarrow> key_error + bytes" where
  "encrypt_with_key K data key nonce =
     (case aead_encrypt K key nonce data of None \<Rightarrow> Inl AeadEncryptionFailure | Some c \<Rightarrow> Inr c)"

definition decrypt_with_key :: "'c key_libs \<Rightarrow> bytes \<Rightarrow> bytes \<Rightarrow> bytes \<Rightarrow> key_error + bytes" where
  "decrypt_with_key K ciphertext key nonce =
     (case aead_decrypt K key nonce ciphertext of None \<Rightarrow> Inl AeadDecryptionFailure | Some d \<Rightarrow> Inr d)"


section \<open>Encoding\<close>

definition encode_key_data :: "bytes \<Rightarrow> string" where
  "encode_key_data data = join_lines (str_chunks 64 (to_hex data))"

definition decode_hex_string :: "'c key_libs \<Rightarrow> string \<Rightarrow> key_error + bytes" where
  "decode_hex_string K hex_str =
     (let hex = filter (\<lambda>c. \<not> is_whitespace c) hex_str in
      if odd (length hex) then Inl InvalidKeyFileHexOddLength
      else case hex_decode_crate K hex of None \<Rightarrow> Inl (InvalidKeyFileHexChar (if hex = [] then CHR ''?'' else hd hex) 0) | Some b \<Rightarrow> Inr b)"

definition decode_key_data :: "'c key_libs \<Rightarrow> string \<Rightarrow> key_error + bytes" where
  "decode_key_data K data = decode_hex_string K data"

definition SIGNING_KEY_HEADER :: string where
  "SIGNING_KEY_HEADER = ''-----BEGIN DELTASHIP SIGNING KEY-----''"

definition SIGNING_KEY_FOOTER :: string where
  "SIGNING_KEY_FOOTER = ''-----END DELTASHIP SIGNING KEY-----''"

definition ENCRYPTED_SIGNING_KEY_HEADER :: string where
  "ENCRYPTED_SIGNING_KEY_HEADER = ''-----BEGIN DELTASHIP ENCRYPTED SIGNING KEY-----''"

definition ENCRYPTED_SIGNING_KEY_FOOTER :: string where
  "ENCRYPTED_SIGNING_KEY_FOOTER = ''-----END DELTASHIP ENCRYPTED SIGNING KEY-----''"

definition VERIFYING_KEY_HEADER :: string where
  "VERIFYING_KEY_HEADER = ''-----BEGIN DELTASHIP VERIFYING KEY-----''"

definition VERIFYING_KEY_FOOTER :: string where
  "VERIFYING_KEY_FOOTER = ''-----END DELTASHIP VERIFYING KEY-----''"

definition CURRENT_VERSION :: nat where
  "CURRENT_VERSION = 1"

fun level_str :: "security_level \<Rightarrow> string" where
  "level_str Standard = ''standard''"
| "level_str High = ''high''"
| "level_str Maximum = ''maximum''"


section \<open>The text of a key file\<close>

definition encrypted_key_text :: "security_level \<Rightarrow> bytes \<Rightarrow> bytes \<Rightarrow> bytes \<Rightarrow> string" where
  "encrypted_key_text level salt nonce ciphertext =
     ENCRYPTED_SIGNING_KEY_HEADER @ NEWLINE # ''version: '' @ show_nat CURRENT_VERSION @ NEWLINE #
     ''security_level: '' @ level_str level @ NEWLINE # ''salt: '' @ to_hex salt @ NEWLINE #
     ''nonce: '' @ to_hex nonce @ NEWLINE # ''ciphertext: '' @ encode_key_data ciphertext @ NEWLINE #
     ENCRYPTED_SIGNING_KEY_FOOTER @ [NEWLINE]"

definition signing_key_text ::
  "'c key_libs \<Rightarrow> bytes \<Rightarrow> string option \<Rightarrow> security_level \<Rightarrow> bytes \<Rightarrow> bytes \<Rightarrow> key_error + string" where
  "signing_key_text K key_bytes passphrase level salt nonce =
     (case passphrase of
        Some pass \<Rightarrow>
          (case derive_key_from_passphrase K pass salt level of Inl e \<Rightarrow> Inl e | Inr derived_key \<Rightarrow>
           case encrypt_with_key K key_bytes derived_key nonce of Inl e \<Rightarrow> Inl e | Inr ciphertext \<Rightarrow>
           Inr (encrypted_key_text level salt nonce ciphertext))
      | None \<Rightarrow> Inr (SIGNING_KEY_HEADER @ NEWLINE # encode_key_data key_bytes @ NEWLINE # SIGNING_KEY_FOOTER @ [NEWLINE]))"

record key_metadata =
  km_version :: "nat option"
  km_level :: "security_level option"
  km_salt :: "bytes option"
  km_nonce :: "bytes option"
  km_ciphertext :: "string list"

definition parse_u8 :: "string \<Rightarrow> nat option" where
  "parse_u8 s = (case parse_u32 s of None \<Rightarrow> None | Some n \<Rightarrow> if n \<le> 255 then Some n else None)"

definition level_from_str :: "string \<Rightarrow> security_level option" where
  "level_from_str s =
     (if s = ''standard'' then Some Standard else if s = ''high'' then Some High
      else if s = ''maximum'' then Some Maximum else None)"

definition parse_key_line :: "'c key_libs \<Rightarrow> string \<Rightarrow> key_metadata \<Rightarrow> key_error + key_metadata" where
  "parse_key_line K raw m =
     (let l = trim raw in
      if l = [] then Inr m
      else case strip_prefix ''version:'' l of
        Some v \<Rightarrow> (case parse_u8 (trim v) of None \<Rightarrow> Inl (InvalidKeyFileVersion 0) | Some n \<Rightarrow> Inr (m\<lparr>km_version := Some n\<rparr>))
      | None \<Rightarrow> case strip_prefix ''security_level:'' l of
        Some sl \<Rightarrow> (case level_from_str (trim sl) of None \<Rightarrow> Inl InvalidKeyFileFormat | Some v \<Rightarrow> Inr (m\<lparr>km_level := Some v\<rparr>))
      | None \<Rightarrow> case strip_prefix ''salt:'' l of
        Some s \<Rightarrow> (case decode_hex_string K (trim s) of Inl _ \<Rightarrow> Inl InvalidKeyFileSalt | Inr b \<Rightarrow> Inr (m\<lparr>km_salt := Some b\<rparr>))
      | None \<Rightarrow> case strip_prefix ''nonce:'' l of
        Some n \<Rightarrow> (case decode_hex_string K (trim n) of Inl _ \<Rightarrow> Inl InvalidKeyFileNonce | Inr b \<Rightarrow> Inr (m\<lparr>km_nonce := Some b\<rparr>))
      | None \<Rightarrow> case strip_prefix ''ciphertext:'' l of
        Some c \<Rightarrow> Inr (m\<lparr>km_ciphertext := km_ciphertext m @ [trim c]\<rparr>)
      | None \<Rightarrow> if \<not> starts_with l ''-----'' then Inr (m\<lparr>km_ciphertext := km_ciphertext m @ [l]\<rparr>) else Inr m)"

fun parse_key_lines :: "'c key_libs \<Rightarrow> string list \<Rightarrow> key_metadata \<Rightarrow> key_error + key_metadata" where
  "parse_key_lines K [] m = Inr m"
| "parse_key_lines K (l # ls) m = (case parse_key_line K l m of Inl e \<Rightarrow> Inl e | Inr m' \<Rightarrow> parse_key_lines K ls m')"

definition parse_encrypted_key_metadata ::
  "'c key_libs \<Rightarrow> string \<Rightarrow> key_error + nat \<times> security_level \<times> bytes \<times> bytes \<times> bytes" where
  "parse_encrypted_key_metadata K data =
     (case parse_key_lines K (str_lines data)
             \<lparr>km_version = None, km_level = None, km_salt = None, km_nonce = None, km_ciphertext = []\<rparr> of Inl e \<Rightarrow> Inl e
      | Inr m \<Rightarrow>
      case km_version m of None \<Rightarrow> Inl (InvalidKeyFileVersion 0) | Some version \<Rightarrow>
      let level = (case km_level m of Some v \<Rightarrow> v | None \<Rightarrow> Standard) in
      case km_salt m of None \<Rightarrow> Inl InvalidKeyFileSalt | Some salt \<Rightarrow>
      case km_nonce m of None \<Rightarrow> Inl InvalidKeyFileNonce | Some nonce \<Rightarrow>
      case decode_key_data K (join_lines (km_ciphertext m)) of Inl e \<Rightarrow> Inl e | Inr ciphertext \<Rightarrow>
      Inr (version, level, salt, nonce, ciphertext))"

definition between :: "string \<Rightarrow> string \<Rightarrow> string \<Rightarrow> key_error + string" where
  "between header footer content =
     (case strip_prefix header content of None \<Rightarrow> Inl InvalidKeyFileFormat
      | Some s \<Rightarrow> (case strip_suffix footer s of None \<Rightarrow> Inl InvalidKeyFileFormat | Some d \<Rightarrow> Inr (trim d)))"

definition key_of_bytes :: "bytes \<Rightarrow> key_error + bytes" where
  "key_of_bytes b = (if length b = 32 then Inr b else Inl (InvalidKeyFileHexLength (length b)))"

definition decrypt_signing_key :: "'c key_libs \<Rightarrow> string \<Rightarrow> string option \<Rightarrow> key_error + bytes" where
  "decrypt_signing_key K data passphrase =
     (if \<not> contains_str data ''version:'' then Inl LegacyKeyFormat
      else case parse_encrypted_key_metadata K data of Inl e \<Rightarrow> Inl e | Inr (version, level, salt, nonce, ciphertext) \<Rightarrow>
      if version \<noteq> CURRENT_VERSION then Inl (InvalidKeyFileVersion version)
      else case passphrase of None \<Rightarrow> Inl PassphraseRequired | Some pass \<Rightarrow>
      if length salt \<noteq> 16 then Inl InvalidKeyFileSalt
      else if length nonce \<noteq> 12 then Inl InvalidKeyFileNonce
      else case derive_key_from_passphrase K pass salt level of Inl e \<Rightarrow> Inl e | Inr derived_key \<Rightarrow>
      case decrypt_with_key K ciphertext derived_key nonce of Inl e \<Rightarrow> Inl e | Inr decrypted \<Rightarrow>
      key_of_bytes decrypted)"

definition parse_signing_key :: "'c key_libs \<Rightarrow> string \<Rightarrow> string option \<Rightarrow> key_error + bytes" where
  "parse_signing_key K file_text passphrase =
     (let content = trim file_text in
      if starts_with content ENCRYPTED_SIGNING_KEY_HEADER then
        (case between ENCRYPTED_SIGNING_KEY_HEADER ENCRYPTED_SIGNING_KEY_FOOTER content of Inl e \<Rightarrow> Inl e
         | Inr data \<Rightarrow> decrypt_signing_key K data passphrase)
      else if starts_with content SIGNING_KEY_HEADER then
        (case between SIGNING_KEY_HEADER SIGNING_KEY_FOOTER content of Inl e \<Rightarrow> Inl e | Inr data \<Rightarrow>
         case decode_key_data K data of Inl e \<Rightarrow> Inl e | Inr decoded \<Rightarrow> key_of_bytes decoded)
      else Inl InvalidKeyFileFormat)"

definition verifying_key_text :: "bytes \<Rightarrow> string" where
  "verifying_key_text key_bytes =
     VERIFYING_KEY_HEADER @ NEWLINE # encode_key_data key_bytes @ NEWLINE # VERIFYING_KEY_FOOTER @ [NEWLINE]"

definition parse_verifying_key :: "'c key_libs \<Rightarrow> string \<Rightarrow> key_error + bytes" where
  "parse_verifying_key K file_text =
     (case between VERIFYING_KEY_HEADER VERIFYING_KEY_FOOTER (trim file_text) of Inl e \<Rightarrow> Inl e | Inr data \<Rightarrow>
      case decode_key_data K data of Inl e \<Rightarrow> Inl e | Inr decoded \<Rightarrow>
      case key_of_bytes decoded of Inl e \<Rightarrow> Inl e | Inr key \<Rightarrow>
      if curve_point K key then Inr key else Inl InvalidVerifyingKey)"



section \<open>Key files\<close>

text \<open>The salt and the nonce are drawn also when there is no passphrase, which uses neither. The content is written to a temporary file beside the target, which the file system renames.\<close>

definition write_key_file :: "'c key_libs \<Rightarrow> path \<Rightarrow> string \<Rightarrow> ('c, key_error, unit) io" where
  "write_key_file K p content =
     (let temp_path = with_extension p ''tmp'' in
      bindE (map_err KeyIo (write_file temp_path (utf8_of_text K content))) (\<lambda>_.
      bindE (map_err KeyIo io_point) (\<lambda>_.
      map_err KeyIo (rename temp_path p))))"

definition read_key_file :: "'c key_libs \<Rightarrow> path \<Rightarrow> ('c, key_error, string) io" where
  "read_key_file K p = map_err KeyIo (bindE (read_file p) (\<lambda>c.
     case text_of_utf8 K c of None \<Rightarrow> throwE InvalidData | Some s \<Rightarrow> returnE s))"

record key_random =
  rand_salt :: "nat \<Rightarrow> bytes"
  rand_nonce :: "nat \<Rightarrow> bytes"

definition save_signing_key ::
  "'c key_libs \<Rightarrow> key_random \<Rightarrow> bytes \<Rightarrow> path \<Rightarrow> string option \<Rightarrow> security_level \<Rightarrow> ('c, key_error, unit) io" where
  "save_signing_key K R key p passphrase level =
     bindE (observe (rand_salt R)) (\<lambda>salt.
     bindE (observe (rand_nonce R)) (\<lambda>nonce.
     bindE (from_sum (signing_key_text K key passphrase level salt nonce)) (write_key_file K p)))"

definition load_signing_key :: "'c key_libs \<Rightarrow> path \<Rightarrow> string option \<Rightarrow> ('c, key_error, bytes) io" where
  "load_signing_key K p passphrase =
     bindE (read_key_file K p) (\<lambda>content. from_sum (parse_signing_key K content passphrase))"

definition save_verifying_key :: "'c key_libs \<Rightarrow> bytes \<Rightarrow> path \<Rightarrow> ('c, key_error, unit) io" where
  "save_verifying_key K key p = write_key_file K p (verifying_key_text key)"

definition load_verifying_key :: "'c key_libs \<Rightarrow> path \<Rightarrow> ('c, key_error, bytes) io" where
  "load_verifying_key K p = bindE (read_key_file K p) (\<lambda>content. from_sum (parse_verifying_key K content))"


section \<open>Reading back what was written\<close>

lemma trim_id:
  assumes "s \<noteq> []" "\<not> is_whitespace (hd s)" "\<not> is_whitespace (last s)"
  shows "trim s = s"
proof -
  have "dropWhile is_whitespace s = s" using assms by (cases s) auto
  moreover have "dropWhile is_whitespace (rev s) = rev s" using assms by (cases s rule: rev_cases) auto
  ultimately show ?thesis by (simp add: trim_def)
qed

lemma trim_front: "is_whitespace c \<Longrightarrow> trim (c # s) = trim s"
  by (simp add: trim_def)

lemma trim_back: "is_whitespace c \<Longrightarrow> trim (s @ [c]) = trim s"
proof (cases "\<forall>x \<in> set s. is_whitespace x")
  case True
  moreover assume "is_whitespace c"
  ultimately have "dropWhile is_whitespace (s @ [c]) = []" "dropWhile is_whitespace s = []"
    unfolding dropWhile_eq_Nil_conv by auto
  then show ?thesis unfolding trim_def by (simp only:)
next
  case False
  moreover assume "is_whitespace c"
  ultimately show ?thesis by (auto simp: trim_def dropWhile_append)
qed

lemma newline_ws [simp]: "is_whitespace NEWLINE" "is_whitespace (CHR '' '')"
  by (simp_all add: is_whitespace_def NEWLINE_def)

lemma strip_prefix_append [simp]: "strip_prefix p (p @ s) = Some s"
  by (simp add: strip_prefix_def starts_with_def)

lemma strip_suffix_append [simp]: "strip_suffix p (s @ p) = Some s"
  by (simp add: strip_suffix_def)

lemma between_frame:
  assumes "body \<noteq> []" "\<not> is_whitespace (hd body)" "\<not> is_whitespace (last body)"
  shows "between h f (h @ NEWLINE # body @ NEWLINE # f) = Inr body"
proof -
  have e: "h @ NEWLINE # body @ NEWLINE # f = h @ (NEWLINE # body @ [NEWLINE]) @ f" by simp
  have "trim (NEWLINE # body @ [NEWLINE]) = body"
    using trim_back [of NEWLINE "NEWLINE # body"] by (simp add: trim_front trim_id [OF assms])
  then show ?thesis unfolding e between_def strip_prefix_append option.case strip_suffix_append by simp
qed

text \<open>Hexadecimal text has no blanks, no line breaks and no punctuation.\<close>

definition hex_text :: "string \<Rightarrow> bool" where
  "hex_text s \<longleftrightarrow> (\<forall>c \<in> set s. is_ascii_hexdigit c)"

lemma hex_text_to_hex: "hex_text (to_hex b)"
proof -
  have "is_ascii_hexdigit (digit_char n)" if "n < 16" for n
    using that by (auto simp: digit_char_def ascii_defs)
  moreover have "unat x div 16 < 16" for x :: u8
    using unsigned_less [of x, where ?'a = nat] by auto
  ultimately have "hex_text (hex_byte x)" for x
    by (simp add: hex_text_def hex_byte_def)
  then show ?thesis by (auto simp: hex_text_def to_hex_def)
qed

lemma hex_char: "is_ascii_hexdigit c \<Longrightarrow> \<not> is_whitespace c \<and> c \<noteq> NEWLINE \<and> c \<noteq> CHR 0x0D \<and> c \<noteq> CHR '':'' \<and> c \<noteq> CHR ''-''"
  by (auto simp: ascii_defs is_whitespace_def NEWLINE_def)

lemma hex_text_ends: "hex_text s \<Longrightarrow> s \<noteq> [] \<Longrightarrow> \<not> is_whitespace (hd s) \<and> \<not> is_whitespace (last s)"
  using hex_char by (simp add: hex_text_def)

lemma hex_text_filter: "hex_text s \<Longrightarrow> filter (\<lambda>c. \<not> is_whitespace c) s = s"
  using hex_char by (simp add: hex_text_def)

lemma concat_chunks: "0 < n \<Longrightarrow> concat (str_chunks n s) = s"
  by (induction n s rule: str_chunks.induct) auto

lemma hex_chunks_text:
  assumes "0 < n" "hex_text s" "c \<in> set (str_chunks n s)"
  shows "c \<noteq> [] \<and> hex_text c"
  using assms
proof (induction n s rule: str_chunks.induct)
  case (2 n x s)
  have sub: "hex_text (drop n (x # s))" "hex_text (take n (x # s))" "take n (x # s) \<noteq> []"
    using 2(2,3) set_drop_subset [of n "x # s"] set_take_subset [of n "x # s"]
    unfolding hex_text_def by (blast, blast, simp)
  show ?case
    using 2(4) 2(1) [OF _ 2(2) sub(1)] sub 2(2) by auto
qed simp

lemma filter_join:
  "(\<forall>l \<in> set ls. filter (\<lambda>c. \<not> is_whitespace c) l = l) \<Longrightarrow> filter (\<lambda>c. \<not> is_whitespace c) (join_lines ls) = concat ls"
  by (induction ls rule: join_lines.induct) auto

lemma split_join:
  "(\<forall>l \<in> set ls. NEWLINE \<notin> set l) \<Longrightarrow> ls \<noteq> [] \<Longrightarrow> split_char NEWLINE (join_lines ls) = ls"
proof (induction ls rule: join_lines.induct)
  case (3 l k ls)
  have "split_char NEWLINE (a @ NEWLINE # b) = a # split_char NEWLINE b" if "NEWLINE \<notin> set a" for a b
    using that by (induction a) auto
  then show ?case using 3 by simp
qed (simp_all add: split_char_absent)

lemma lines_join:
  assumes "\<forall>l \<in> set ls. NEWLINE \<notin> set l \<and> l \<noteq> [] \<and> last l \<noteq> CHR 0x0D" "ls \<noteq> []"
  shows "str_lines (join_lines ls) = ls"
proof -
  have "last ls \<noteq> []" using assms by auto
  moreover have "map drop_cr ls = ls" using assms(1) by (auto simp: drop_cr_def intro: map_idI)
  ultimately show ?thesis using split_join [of ls] assms by (auto simp: str_lines_def)
qed

lemma join_lines_ends:
  assumes "\<forall>l \<in> set ls. l \<noteq> []" "ls \<noteq> []"
  shows "join_lines ls \<noteq> [] \<and> hd (join_lines ls) = hd (hd ls) \<and> last (join_lines ls) = last (last ls)"
  using assms by (induction ls rule: join_lines.induct) (auto simp: hd_append)

text \<open>The laws of the libraries the file format relies on.\<close>

definition key_laws :: "'c key_libs \<Rightarrow> bool" where
  "key_laws K \<longleftrightarrow>
     (\<forall>b. hex_decode_crate K (to_hex b) = Some b) \<and>
     (\<forall>s. text_of_utf8 K (utf8_of_text K s) = Some s) \<and>
     (\<forall>k n d c. aead_encrypt K k n d = Some c \<longrightarrow> aead_decrypt K k n c = Some d \<and> length c = length d + 16)"

lemma decode_hex_to_hex: "key_laws K \<Longrightarrow> decode_hex_string K (to_hex b) = Inr b"
  by (simp add: decode_hex_string_def hex_text_filter [OF hex_text_to_hex] length_to_hex key_laws_def)

lemma decode_encode: "key_laws K \<Longrightarrow> decode_key_data K (encode_key_data b) = Inr b"
proof -
  assume "key_laws K"
  moreover have "filter (\<lambda>c. \<not> is_whitespace c) (encode_key_data b) = to_hex b"
    unfolding encode_key_data_def
    by (subst filter_join, intro ballI hex_text_filter)
       (use hex_chunks_text [of 64, OF _ hex_text_to_hex] in \<open>auto simp: concat_chunks\<close>)
  ultimately show ?thesis
    by (simp add: decode_key_data_def decode_hex_string_def length_to_hex key_laws_def)
qed

lemma encode_key_data_lines:
  assumes "b \<noteq> []"
  obtains c cs where "str_chunks 64 (to_hex b) = c # cs" "\<forall>l \<in> set (c # cs). l \<noteq> [] \<and> hex_text l"
    "encode_key_data b = join_lines (c # cs)"
proof -
  have "to_hex b \<noteq> []" using assms by (cases b) (auto simp: to_hex_def hex_byte_def)
  then obtain c cs where "str_chunks 64 (to_hex b) = c # cs" by (cases "to_hex b") auto
  then show thesis
    using that hex_chunks_text [of 64 "to_hex b"] hex_text_to_hex [of b] by (simp add: encode_key_data_def)
qed

lemma encode_key_data_ends:
  assumes "b \<noteq> []"
  shows "encode_key_data b \<noteq> [] \<and> \<not> is_whitespace (hd (encode_key_data b)) \<and> \<not> is_whitespace (last (encode_key_data b))"
proof -
  obtain c cs where c: "\<forall>l \<in> set (c # cs). l \<noteq> [] \<and> hex_text l" "encode_key_data b = join_lines (c # cs)"
    using encode_key_data_lines [OF assms] by metis
  have "last (c # cs) \<in> set (c # cs)" by (rule last_in_set) simp
  then show ?thesis
    using c join_lines_ends [of "c # cs"] hex_text_ends by (metis list.sel(1) list.set_intros(1) list.simps(3))
qed

lemma join_append: "b \<noteq> [] \<Longrightarrow> join_lines (a @ b) = join_lines (a @ [join_lines b])"
proof (induction a)
  case (Cons x a)
  then show ?case by (cases a; cases b) auto
qed simp

lemma strip_prefix_Nil [simp]: "strip_prefix [] s = Some s"
  by (simp add: strip_prefix_def starts_with_def)

lemma strip_prefix_Cons: "strip_prefix (a # p) (b # s) = (if a = b then strip_prefix p s else None)"
  by (simp add: strip_prefix_def starts_with_def)

lemma trim_label:
  assumes "s \<noteq> []" "\<not> is_whitespace (hd s)" "\<not> is_whitespace (last s)"
  shows "trim (CHR '' '' # s) = s" "l \<noteq> [] \<Longrightarrow> \<not> is_whitespace (hd l) \<Longrightarrow> trim (l @ CHR '' '' # s) = l @ CHR '' '' # s"
  using assms by (auto simp: trim_front trim_id)

text \<open>A line of a field: what the parser sees after the label is the field's text.\<close>

lemma field_line:
  assumes "v \<noteq> []" "\<not> is_whitespace (hd v)" "\<not> is_whitespace (last v)"
  shows
    "parse_key_line K (''version:'' @ CHR '' '' # v) m =
       (case parse_u8 v of None \<Rightarrow> Inl (InvalidKeyFileVersion 0) | Some n \<Rightarrow> Inr (m\<lparr>km_version := Some n\<rparr>))"
    "parse_key_line K (''security_level:'' @ CHR '' '' # v) m =
       (case level_from_str v of None \<Rightarrow> Inl InvalidKeyFileFormat | Some l \<Rightarrow> Inr (m\<lparr>km_level := Some l\<rparr>))"
    "parse_key_line K (''salt:'' @ CHR '' '' # v) m =
       (case decode_hex_string K v of Inl _ \<Rightarrow> Inl InvalidKeyFileSalt | Inr b \<Rightarrow> Inr (m\<lparr>km_salt := Some b\<rparr>))"
    "parse_key_line K (''nonce:'' @ CHR '' '' # v) m =
       (case decode_hex_string K v of Inl _ \<Rightarrow> Inl InvalidKeyFileNonce | Inr b \<Rightarrow> Inr (m\<lparr>km_nonce := Some b\<rparr>))"
    "parse_key_line K (''ciphertext:'' @ CHR '' '' # v) m = Inr (m\<lparr>km_ciphertext := km_ciphertext m @ [v]\<rparr>)"
proof -
  have t: "trim (''version:'' @ CHR '' '' # v) = ''version:'' @ CHR '' '' # v"
    "trim (''security_level:'' @ CHR '' '' # v) = ''security_level:'' @ CHR '' '' # v"
    "trim (''salt:'' @ CHR '' '' # v) = ''salt:'' @ CHR '' '' # v"
    "trim (''nonce:'' @ CHR '' '' # v) = ''nonce:'' @ CHR '' '' # v"
    "trim (''ciphertext:'' @ CHR '' '' # v) = ''ciphertext:'' @ CHR '' '' # v"
    by (intro trim_label(2) [OF assms]; simp add: is_whitespace_def)+
  note line = strip_prefix_Cons trim_label(1) [OF assms]
  show "parse_key_line K (''version:'' @ CHR '' '' # v) m =
       (case parse_u8 v of None \<Rightarrow> Inl (InvalidKeyFileVersion 0) | Some n \<Rightarrow> Inr (m\<lparr>km_version := Some n\<rparr>))"
    by (simp only: parse_key_line_def Let_def t) (simp add: line)
  show "parse_key_line K (''security_level:'' @ CHR '' '' # v) m =
       (case level_from_str v of None \<Rightarrow> Inl InvalidKeyFileFormat | Some l \<Rightarrow> Inr (m\<lparr>km_level := Some l\<rparr>))"
    by (simp only: parse_key_line_def Let_def t) (simp add: line)
  show "parse_key_line K (''salt:'' @ CHR '' '' # v) m =
       (case decode_hex_string K v of Inl _ \<Rightarrow> Inl InvalidKeyFileSalt | Inr b \<Rightarrow> Inr (m\<lparr>km_salt := Some b\<rparr>))"
    by (simp only: parse_key_line_def Let_def t) (simp add: line)
  show "parse_key_line K (''nonce:'' @ CHR '' '' # v) m =
       (case decode_hex_string K v of Inl _ \<Rightarrow> Inl InvalidKeyFileNonce | Inr b \<Rightarrow> Inr (m\<lparr>km_nonce := Some b\<rparr>))"
    by (simp only: parse_key_line_def Let_def t) (simp add: line)
  show "parse_key_line K (''ciphertext:'' @ CHR '' '' # v) m = Inr (m\<lparr>km_ciphertext := km_ciphertext m @ [v]\<rparr>)"
    by (simp only: parse_key_line_def Let_def t) (simp add: line)
qed

lemma parse_continuation:
  assumes "hex_text c" "c \<noteq> []"
  shows "parse_key_line K c m = Inr (m\<lparr>km_ciphertext := km_ciphertext m @ [c]\<rparr>)"
proof -
  have no: "x \<notin> set c" if "x = CHR '':'' \<or> x = CHR ''-''" for x
    using assms(1) hex_char that by (auto simp: hex_text_def)
  have colon: "strip_prefix (p @ '':'') c = None" for p
    using no [of "CHR '':''"] unfolding strip_prefix_def starts_with_def by (metis append_take_drop_id in_set_conv_decomp append.assoc append_Cons)
  have dash: "\<not> starts_with c ''-----''"
    using no [of "CHR ''-''"] by (cases c) (auto simp: starts_with_def)
  have "trim c = c" using hex_text_ends [OF assms] by (intro trim_id assms(2)) auto
  then show ?thesis
    using assms(2) dash colon [of "''version''"] colon [of "''security_level''"] colon [of "''salt''"] colon [of "''nonce''"]
      colon [of "''ciphertext''"]
    by (simp add: parse_key_line_def)
qed

lemma parse_continuations:
  "\<forall>l \<in> set cs. hex_text l \<and> l \<noteq> [] \<Longrightarrow> parse_key_lines K cs m = Inr (m\<lparr>km_ciphertext := km_ciphertext m @ cs\<rparr>)"
  by (induction cs arbitrary: m) (simp_all add: parse_continuation)


section \<open>The round trips\<close>

lemma level_value [simp]:
  "level_from_str (level_str l) = Some l" "level_str l \<noteq> []"
  "\<not> is_whitespace (hd (level_str l))" "\<not> is_whitespace (last (level_str l))"
  "NEWLINE \<notin> set (level_str l)" "last (level_str l) \<noteq> CHR 0x0D"
  by (cases l; simp add: level_from_str_def is_whitespace_def NEWLINE_def)+

lemma to_hex_value:
  assumes "b \<noteq> []"
  shows "to_hex b \<noteq> []" "\<not> is_whitespace (hd (to_hex b))" "\<not> is_whitespace (last (to_hex b))"
proof -
  show ne: "to_hex b \<noteq> []" using assms by (cases b) (auto simp: to_hex_def hex_byte_def)
  show "\<not> is_whitespace (hd (to_hex b))" "\<not> is_whitespace (last (to_hex b))"
    using hex_text_ends [OF hex_text_to_hex ne] by auto
qed

lemma parse_u8_version: "parse_u8 (show_nat CURRENT_VERSION) = Some CURRENT_VERSION"
  by code_simp

lemma version_value [simp]:
  "show_nat CURRENT_VERSION \<noteq> []" "\<not> is_whitespace (hd (show_nat CURRENT_VERSION))"
  "\<not> is_whitespace (last (show_nat CURRENT_VERSION))" "NEWLINE \<notin> set (show_nat CURRENT_VERSION)"
  "last (show_nat CURRENT_VERSION) \<noteq> CHR 0x0D"
  by code_simp+

definition key_lines :: "security_level \<Rightarrow> bytes \<Rightarrow> bytes \<Rightarrow> string list \<Rightarrow> string list" where
  "key_lines level salt nonce cs =
     (''version:'' @ CHR '' '' # show_nat CURRENT_VERSION) # (''security_level:'' @ CHR '' '' # level_str level) #
     (''salt:'' @ CHR '' '' # to_hex salt) # (''nonce:'' @ CHR '' '' # to_hex nonce) #
     (''ciphertext:'' @ CHR '' '' # hd cs) # tl cs"

lemma encrypted_key_text_lines:
  assumes "str_chunks 64 (to_hex c) = l # ls"
  shows "encrypted_key_text level salt nonce c =
    ENCRYPTED_SIGNING_KEY_HEADER @ NEWLINE # join_lines (key_lines level salt nonce (l # ls)) @
    NEWLINE # ENCRYPTED_SIGNING_KEY_FOOTER @ [NEWLINE]"
proof -
  have j: "join_lines (a # x # xs) = a @ NEWLINE # join_lines (x # xs)" for a x xs by simp
  have "join_lines ((''ciphertext:'' @ CHR '' '' # l) # ls) = ''ciphertext: '' @ join_lines (l # ls)"
    by (cases ls) simp_all
  then show ?thesis
    by (simp add: encrypted_key_text_def key_lines_def encode_key_data_def assms del: join_lines.simps add: j)
qed

lemma parse_all_lines:
  assumes K: "key_laws K" and ne: "salt \<noteq> []" "nonce \<noteq> []" and cs: "\<forall>l \<in> set (c # cs). l \<noteq> [] \<and> hex_text l"
  shows "parse_key_lines K (key_lines level salt nonce (c # cs)) m =
    Inr (m\<lparr>km_version := Some CURRENT_VERSION, km_level := Some level, km_salt := Some salt, km_nonce := Some nonce,
           km_ciphertext := km_ciphertext m @ c # cs\<rparr>)"
proof -
  have c: "c \<noteq> []" "\<not> is_whitespace (hd c)" "\<not> is_whitespace (last c)" using cs hex_text_ends [of c] by auto
  show ?thesis
    using cs
    by (simp add: key_lines_def field_line(1) field_line(2) field_line(3,4) [OF to_hex_value [OF ne(1)]]
        field_line(3,4) [OF to_hex_value [OF ne(2)]] field_line(5) [OF c] decode_hex_to_hex [OF K] parse_u8_version
        parse_continuations del: append_Cons)
qed

lemma hex_no_break: "hex_text s \<Longrightarrow> NEWLINE \<notin> set s \<and> CHR 0x0D \<notin> set s"
  using hex_char by (auto simp: hex_text_def)

lemma key_lines_clean:
  assumes ne: "salt \<noteq> []" "nonce \<noteq> []" and cs: "\<forall>l \<in> set (c # cs). l \<noteq> [] \<and> hex_text l"
  shows "\<forall>l \<in> set (key_lines level salt nonce (c # cs)). NEWLINE \<notin> set l \<and> l \<noteq> [] \<and> last l \<noteq> CHR 0x0D"
proof -
  have h: "NEWLINE \<notin> set s \<and> last s \<noteq> CHR 0x0D" if "hex_text s" "s \<noteq> []" for s
    using hex_no_break [OF that(1)] last_in_set [OF that(2)] by metis
  have n: "NEWLINE \<noteq> CHR '' ''" "NEWLINE \<notin> set ''version:''" "NEWLINE \<notin> set ''security_level:''" "NEWLINE \<notin> set ''salt:''"
    "NEWLINE \<notin> set ''nonce:''" "NEWLINE \<notin> set ''ciphertext:''"
    by (simp_all add: NEWLINE_def)
  show ?thesis
    using h [OF hex_text_to_hex to_hex_value(1) [OF ne(1)]] h [OF hex_text_to_hex to_hex_value(1) [OF ne(2)]]
      to_hex_value(1) [OF ne(1)] to_hex_value(1) [OF ne(2)] cs h n
    by (simp add: key_lines_def del: append_Cons)
qed

lemma trim_frame: "\<lbrakk>h \<noteq> []; f \<noteq> []; \<not> is_whitespace (hd h); \<not> is_whitespace (last f)\<rbrakk> \<Longrightarrow>
    trim (h @ NEWLINE # s @ NEWLINE # f @ [NEWLINE]) = h @ NEWLINE # s @ NEWLINE # f"
  using trim_back [of NEWLINE "h @ NEWLINE # s @ NEWLINE # f"] by (simp add: trim_id)

lemma frame_ends [simp]:
  "ENCRYPTED_SIGNING_KEY_HEADER \<noteq> []" "\<not> is_whitespace (hd ENCRYPTED_SIGNING_KEY_HEADER)"
  "ENCRYPTED_SIGNING_KEY_FOOTER \<noteq> []" "\<not> is_whitespace (last ENCRYPTED_SIGNING_KEY_FOOTER)"
  "SIGNING_KEY_HEADER \<noteq> []" "\<not> is_whitespace (hd SIGNING_KEY_HEADER)"
  "SIGNING_KEY_FOOTER \<noteq> []" "\<not> is_whitespace (last SIGNING_KEY_FOOTER)"
  "VERIFYING_KEY_HEADER \<noteq> []" "\<not> is_whitespace (hd VERIFYING_KEY_HEADER)"
  "VERIFYING_KEY_FOOTER \<noteq> []" "\<not> is_whitespace (last VERIFYING_KEY_FOOTER)"
  by code_simp+

lemma starts_with_append [simp]: "starts_with (p @ s) p"
  by (simp add: starts_with_def)

lemma plain_not_encrypted: "\<not> starts_with (SIGNING_KEY_HEADER @ s) ENCRYPTED_SIGNING_KEY_HEADER"
  by (simp add: SIGNING_KEY_HEADER_def ENCRYPTED_SIGNING_KEY_HEADER_def starts_with_def)

lemma plain_key_roundtrip:
  assumes "key_laws K" "length key = 32" "signing_key_text K key None level salt nonce = Inr file_text"
  shows "parse_signing_key K file_text p = Inr key"
proof -
  have "key \<noteq> []" using assms(2) by auto
  note ends = encode_key_data_ends [OF this]
  show ?thesis
    using assms ends
    by (auto simp: signing_key_text_def parse_signing_key_def trim_frame plain_not_encrypted between_frame decode_encode
        key_of_bytes_def)
qed

lemma parse_written_metadata:
  assumes K: "key_laws K" and ne: "salt \<noteq> []" "nonce \<noteq> []" "ciphertext \<noteq> []"
  obtains body where
    "encrypted_key_text level salt nonce ciphertext =
       ENCRYPTED_SIGNING_KEY_HEADER @ NEWLINE # body @ NEWLINE # ENCRYPTED_SIGNING_KEY_FOOTER @ [NEWLINE]"
    "body \<noteq> []" "\<not> is_whitespace (hd body)" "\<not> is_whitespace (last body)" "starts_with body ''version:''"
    "parse_encrypted_key_metadata K body = Inr (CURRENT_VERSION, level, salt, nonce, ciphertext)"
proof -
  obtain c cs where c: "str_chunks 64 (to_hex ciphertext) = c # cs" "\<forall>l \<in> set (c # cs). l \<noteq> [] \<and> hex_text l"
    "encode_key_data ciphertext = join_lines (c # cs)"
    using encode_key_data_lines [OF ne(3)] by metis
  let ?L = "key_lines level salt nonce (c # cs)"
  have clean: "\<forall>l \<in> set ?L. NEWLINE \<notin> set l \<and> l \<noteq> [] \<and> last l \<noteq> CHR 0x0D"
    by (rule key_lines_clean [OF ne(1,2) c(2)])
  have nonempty: "?L \<noteq> []" by (simp add: key_lines_def)
  have ends: "join_lines ?L \<noteq> [] \<and> hd (join_lines ?L) = hd (hd ?L) \<and> last (join_lines ?L) = last (last ?L)"
    using clean nonempty by (intro join_lines_ends) auto
  have "\<not> is_whitespace (last (last (c # cs)))"
    using c(2) hex_text_ends last_in_set [of "c # cs"] by blast
  then have last: "\<not> is_whitespace (last (join_lines ?L))"
    using ends c(2) by (cases cs) (auto simp: key_lines_def)
  have first: "\<not> is_whitespace (hd (join_lines ?L))"
    using ends by (simp add: key_lines_def is_whitespace_def)
  have "starts_with (join_lines ?L) ''version:''"
    unfolding key_lines_def join_lines.simps append.assoc by (rule starts_with_append)
  moreover have "parse_encrypted_key_metadata K (join_lines ?L) = Inr (CURRENT_VERSION, level, salt, nonce, ciphertext)"
    using decode_encode [OF K, of ciphertext] parse_all_lines [OF K ne(1,2) c(2)]
    by (simp add: parse_encrypted_key_metadata_def lines_join [OF clean nonempty] c(3))
  ultimately show thesis
    using that encrypted_key_text_lines [OF c(1)] ends first last by metis
qed

lemma contains_prefix: "starts_with s p \<Longrightarrow> contains_str s p"
  by (cases s) (auto simp: starts_with_def)

lemma encrypted_key_roundtrip:
  assumes K: "key_laws K" and len: "length key = 32" "length salt = 16" "length nonce = 12"
    and written: "signing_key_text K key (Some pass) level salt nonce = Inr file_text"
  shows "parse_signing_key K file_text (Some pass) = Inr key" "parse_signing_key K file_text None = Inl PassphraseRequired"
proof -
  obtain dk c where dk: "derive_key_from_passphrase K pass salt level = Inr dk" "encrypt_with_key K key dk nonce = Inr c"
    "file_text = encrypted_key_text level salt nonce c"
    using written by (auto simp: signing_key_text_def split: sum.splits)
  then have c: "decrypt_with_key K c dk nonce = Inr key" "length c = 48"
    using K len(1) by (auto simp: encrypt_with_key_def decrypt_with_key_def key_laws_def split: option.splits)
  have ne: "salt \<noteq> []" "nonce \<noteq> []" "c \<noteq> []" using len c(2) by auto
  obtain body where body: "file_text =
       ENCRYPTED_SIGNING_KEY_HEADER @ NEWLINE # body @ NEWLINE # ENCRYPTED_SIGNING_KEY_FOOTER @ [NEWLINE]"
    "body \<noteq> []" "\<not> is_whitespace (hd body)" "\<not> is_whitespace (last body)" "starts_with body ''version:''"
    "parse_encrypted_key_metadata K body = Inr (CURRENT_VERSION, level, salt, nonce, c)"
    using parse_written_metadata [OF K ne] dk(3) by metis
  have "parse_signing_key K file_text p = decrypt_signing_key K body p" for p
    using body by (simp add: parse_signing_key_def trim_frame between_frame)
  moreover have "contains_str body ''version:''" using body(5) by (rule contains_prefix)
  ultimately show "parse_signing_key K file_text (Some pass) = Inr key" "parse_signing_key K file_text None = Inl PassphraseRequired"
    using body(6) dk(1) c(1) len by (simp_all add: decrypt_signing_key_def key_of_bytes_def)
qed

lemma verifying_text_roundtrip:
  assumes "key_laws K" "length key = 32" "curve_point K key"
  shows "parse_verifying_key K (verifying_key_text key) = Inr key"
proof -
  have "key \<noteq> []" using assms(2) by auto
  note ends = encode_key_data_ends [OF this]
  show ?thesis
    using assms ends by (simp add: verifying_key_text_def parse_verifying_key_def trim_frame between_frame decode_encode key_of_bytes_def)
qed

text \<open>A key file is replaced as a whole or not at all.\<close>

lemma wp_write_key_file:
  assumes "with_extension p ''tmp'' \<noteq> p"
    and "\<And>w'. file_at w' p = Some (utf8_of_text K content) \<Longrightarrow> Q () w'"
    and "\<And>e w'. file_at w' p = file_at w p \<Longrightarrow> F (KeyIo e) w'"
  shows "wp (write_key_file K p content) Q F w"
  unfolding write_key_file_def Let_def using assms by (auto intro!: wp_prims)

lemma wp_read_key_file:
  assumes "key_laws K" "file_at w p = Some (utf8_of_text K content)"
    and "\<And>w'. Q content w'" "\<And>e w'. F (KeyIo e) w'"
  shows "wp (read_key_file K p) Q F w"
  unfolding read_key_file_def using assms by (auto simp: key_laws_def intro!: wp_prims)

section \<open>A sample\<close>

definition sample_key_libs :: "string key_libs" where
  "sample_key_libs = \<lparr>argon2id = (\<lambda>m t pass salt. Some (take 32 (map of_char pass @ salt @ replicate 32 0))),
     aead_encrypt = (\<lambda>key nonce d. Some (rev d @ replicate 16 0)),
     aead_decrypt = (\<lambda>key nonce c. Some (rev (take (length c - 16) c))),
     hex_decode_crate = (\<lambda>s. case hex_chunks s of Inl _ \<Rightarrow> None | Inr b \<Rightarrow> Some b), curve_point = (\<lambda>_. True),
     utf8_of_text = (\<lambda>s. s), text_of_utf8 = Some\<rparr>"

lemma sample_key_laws: "key_laws sample_key_libs"
  by (simp add: key_laws_def sample_key_libs_def hex_chunks_to_hex)

definition sample_key_random :: key_random where
  "sample_key_random = \<lparr>rand_salt = (\<lambda>n. replicate 16 (of_nat n)), rand_nonce = (\<lambda>n. replicate 12 (of_nat n))\<rparr>"

abbreviation sample_save :: "(key_error + unit) \<times> string world" where
  "sample_save \<equiv> save_signing_key sample_key_libs sample_key_random (replicate 32 7) [''a.key''] (Some ''pw'') High
     (quiet_world [] 0)"

lemma sample_save_ok: "\<exists>w'. sample_save = (Inr (), w')"
  by (simp add: save_signing_key_def write_key_file_def signing_key_text_def derive_key_from_passphrase_def encrypt_with_key_def
      sample_key_libs_def run_steps run_files with_extension_def file_stem_def)

lemma sample_temp: "with_extension [''a.key''] ''tmp'' \<noteq> [''a.key'']"
  by (simp add: with_extension_def file_stem_def)


section \<open>Properties\<close>

text \<open>What the files of a world give back as the signing key: the key with its passphrase, and nothing
  without it when there is one. Reading may fail.\<close>

definition loads_signing_key :: "'c key_libs \<Rightarrow> bytes \<Rightarrow> path \<Rightarrow> string option \<Rightarrow> 'c world \<Rightarrow> bool" where
  "loads_signing_key K key p passphrase w \<longleftrightarrow>
     (case load_signing_key K p passphrase w of (Inr k, _) \<Rightarrow> k = key | (Inl e, _) \<Rightarrow> (\<exists>i. e = KeyIo i)) \<and>
     (passphrase \<noteq> None \<longrightarrow>
        (case load_signing_key K p None w of (Inr _, _) \<Rightarrow> False | (Inl e, _) \<Rightarrow> e = PassphraseRequired \<or> (\<exists>i. e = KeyIo i)))"

lemma loads_written:
  assumes "key_laws K" "length key = 32" "length salt = 16" "length nonce = 12"
    and "signing_key_text K key passphrase level salt nonce = Inr content" "file_at w p = Some (utf8_of_text K content)"
  shows "loads_signing_key K key p passphrase w"
proof -
  have load: "wp (load_signing_key K p q) (\<lambda>k _. parse_signing_key K content q = Inr k)
      (\<lambda>e _. (\<exists>i. e = KeyIo i) \<or> parse_signing_key K content q = Inl e) w" for q
    unfolding load_signing_key_def using wp_read_key_file [OF assms(1,6)] by (auto split: sum.splits)
  show ?thesis
  proof (cases passphrase)
    case None
    with plain_key_roundtrip [OF assms(1,2)] assms(5) load [of None] show ?thesis
      by (auto simp: loads_signing_key_def wp_def split: prod.splits sum.splits)
  next
    case (Some pass)
    with encrypted_key_roundtrip [OF assms(1-4)] assms(5) load [of "Some pass"] load [of None] show ?thesis
      by (auto simp: loads_signing_key_def wp_def split: prod.splits sum.splits)
  qed
qed



text \<open>The same for a verifying key.\<close>

theorem verifying_key_file_roundtrip:
  assumes "key_laws K" "length key = 32" "curve_point K key" "with_extension p ''tmp'' \<noteq> p"
  shows "case save_verifying_key K key p w of
      (Inr _, w') \<Rightarrow> (case load_verifying_key K p w' of (Inr k, _) \<Rightarrow> k = key | (Inl e, _) \<Rightarrow> (\<exists>i. e = KeyIo i))
    | (Inl _, w') \<Rightarrow> file_at w' p = file_at w p"
proof -
  have load: "wp (load_verifying_key K p) (\<lambda>k _. k = key) (\<lambda>e _. \<exists>i. e = KeyIo i) v"
    if "file_at v p = Some (utf8_of_text K (verifying_key_text key))" for v
    unfolding load_verifying_key_def
    using wp_read_key_file [OF assms(1) that] by (auto simp: verifying_text_roundtrip [OF assms(1-3)])
  have "wp (save_verifying_key K key p) (\<lambda>_. wp (load_verifying_key K p) (\<lambda>k _. k = key) (\<lambda>e _. \<exists>i. e = KeyIo i))
      (\<lambda>_ w'. file_at w' p = file_at w p) w"
    unfolding save_verifying_key_def by (auto intro!: wp_write_key_file assms(4) load)
  then show ?thesis by (simp add: wp_def split: prod.splits sum.splits)
qed

end
