(* ===== verification/Effects.thy ===== *)
theory Effects
  imports Db_Ops
begin

text \<open>
  Two calculi for programs on files and a database, shared by the commands of the client and the
  publisher's tool. \<open>looks m Q\<close>: in any world, whatever fails, \<open>m\<close> changes no file, and what it returns is
  described by the files. \<open>preserves I m\<close>: \<open>m\<close> keeps a condition on the world whether it returns or fails.
\<close>

section \<open>Programs that only read\<close>

definition looks :: "('c, 'e, 'a) io \<Rightarrow> ((path \<Rightarrow> 'c option) \<Rightarrow> 'a \<Rightarrow> bool) \<Rightarrow> bool" where
  "looks m Q \<longleftrightarrow> (\<forall>w. wp m (\<lambda>x w'. file_at w' = file_at w \<and> Q (file_at w) x) (\<lambda>_ w'. file_at w' = file_at w) w)"

lemma looks_bindE:
  assumes "looks m Q" "\<And>x. looks (f x) (\<lambda>g y. Q g x \<longrightarrow> R g y)"
  shows "looks (bindE m f) R"
  unfolding looks_def
proof
  fix w
  show "wp (bindE m f) (\<lambda>x w'. file_at w' = file_at w \<and> R (file_at w) x) (\<lambda>_ w'. file_at w' = file_at w) w"
    unfolding wp_bindE
  proof (rule wp_mono [OF assms(1) [unfolded looks_def, THEN spec]])
    fix x w'
    assume "file_at w' = file_at w \<and> Q (file_at w) x"
    then show "wp (f x) (\<lambda>x w'. file_at w' = file_at w \<and> R (file_at w) x) (\<lambda>_ w'. file_at w' = file_at w) w'"
      using assms(2) [of x, unfolded looks_def, THEN spec [of _ w']] by (auto elim: wp_mono)
  qed
qed

lemma looks_weaken: "looks m Q \<Longrightarrow> (\<And>g x. Q g x \<Longrightarrow> R g x) \<Longrightarrow> looks m R"
  unfolding looks_def by (blast intro: wp_mono)

lemma looks_pure:
  "(\<And>g. Q g x) \<Longrightarrow> looks (returnE x) Q" "looks (throwE e) Q" "(\<And>x g. r = Inr x \<Longrightarrow> Q g x) \<Longrightarrow> looks (from_sum r) Q"
  by (auto simp: looks_def split: sum.splits)

lemma looks_imp: "(P \<Longrightarrow> looks m Q) \<Longrightarrow> looks m (\<lambda>_ _. True) \<Longrightarrow> looks m (\<lambda>g x. P \<longrightarrow> Q g x)"
  unfolding looks_def by (cases P) auto

lemma looks_map_err: "looks m Q \<Longrightarrow> looks (map_err h m) Q"
  unfolding looks_def by (auto elim!: allE wp_mono)

lemma looks_outcome:
  "looks m (\<lambda>g x. Q g (Inr x)) \<Longrightarrow> (\<And>g e. Q g (Inl e)) \<Longrightarrow> looks (outcome m) Q"
  unfolding looks_def by (auto elim!: allE wp_mono)

lemma looks_observe: "(\<And>n g. Q g (f n)) \<Longrightarrow> looks (observe f) Q"
  by (simp add: looks_def)

lemma looks_world: "(\<And>g x. Q g x) \<Longrightarrow> looks (get_world f) Q"
  by (simp add: looks_def)

lemma looks_branch:
  "(b \<Longrightarrow> looks m Q) \<Longrightarrow> (\<not> b \<Longrightarrow> looks n Q) \<Longrightarrow> looks (if b then m else n) Q"
  "(v = None \<Longrightarrow> looks m Q) \<Longrightarrow> (\<And>x. v = Some x \<Longrightarrow> looks (f x) Q) \<Longrightarrow> looks (case v of None \<Rightarrow> m | Some x \<Rightarrow> f x) Q"
  by (auto split: option.splits)

lemma wp_open_present:
  assumes "path_exists p w" "p \<noteq> []" "\<And>w'. file_at w' = file_at w \<Longrightarrow> Q () w'" "\<And>e w'. file_at w' = file_at w \<Longrightarrow> F e w'"
  shows "wp (open_create c0 p) Q F w"
proof -
  obtain f v where n: "next_op w = (f, v)" by (cases "next_op w")
  then have v: "file_at v = file_at w" "lookup v = lookup w" by (auto simp: file_at_next_op fun_eq_iff)
  show ?thesis
    using assms(1,2) assms(3) [OF v(1)] assms(4) [OF v(1)]
    by (auto simp: wp_def open_create_def n v(2) path_exists_def split: fault.splits option.splits node.splits)
qed

lemma looks_any_bind: "looks m (\<lambda>_ _. True) \<Longrightarrow> (\<And>x. looks (f x) R) \<Longrightarrow> looks (bindE m f) R"
  by (rule looks_bindE) auto

lemma wp_looks:
  assumes "looks m Q" "\<And>x w'. file_at w' = file_at w \<Longrightarrow> Q (file_at w) x \<Longrightarrow> R x w'" "\<And>e w'. file_at w' = file_at w \<Longrightarrow> F e w'"
  shows "wp m R F w"
  by (rule wp_mono [OF assms(1) [unfolded looks_def, THEN spec]]) (auto intro: assms)

lemma wp_looks_bind:
  assumes "looks m Q" "\<And>x w'. file_at w' = file_at w \<Longrightarrow> Q (file_at w) x \<Longrightarrow> wp (f x) R F w'"
    "\<And>e w'. file_at w' = file_at w \<Longrightarrow> F e w'"
  shows "wp (bindE m f) R F w"
  unfolding wp_bindE by (rule wp_looks [OF assms])

lemma looks_attempt: "looks m (\<lambda>g x. Q g (Some x)) \<Longrightarrow> (\<And>g. Q g None) \<Longrightarrow> looks (attempt m) Q"
  unfolding looks_def by (auto elim!: allE wp_mono)

lemma looks_db_run:
  assumes "\<And>db x db'. op db = Inr (x, db') \<Longrightarrow> db' = db"
    and "\<And>g db x. g p = Some (Database db) \<Longrightarrow> op db = Inr (x, db) \<Longrightarrow> Q g x"
  shows "looks (db_run p op) Q"
  unfolding looks_def
proof (intro allI wp_db_run)
  fix w db x db' and w' :: "'a content_of world"
  assume db: "file_at w p = Some (Database db)" and op: "op db = Inr (x, db')" and w': "file_at w' = (file_at w)(p \<mapsto> Database db')"
  then have "db' = db" by (intro assms(1))
  then show "file_at w' = file_at w \<and> Q (file_at w) x"
    using db op w' assms(2) by (auto simp: fun_upd_idem)
qed simp


section \<open>Conditions that are preserved\<close>

definition preserves :: "('c world \<Rightarrow> bool) \<Rightarrow> ('c, 'e, 'a) io \<Rightarrow> bool" where
  "preserves I m \<longleftrightarrow> (\<forall>w. I w \<longrightarrow> wp m (\<lambda>_. I) (\<lambda>_. I) w)"

lemma preservesI: "(\<And>w. I w \<Longrightarrow> wp m (\<lambda>_. I) (\<lambda>_. I) w) \<Longrightarrow> preserves I m"
  by (simp add: preserves_def)

lemma preserves_bind_fact:
  assumes "\<And>w. I w \<Longrightarrow> wp m (\<lambda>x w'. I w' \<and> P x) (\<lambda>_. I) w" "\<And>x. P x \<Longrightarrow> preserves I (f x)"
  shows "preserves I (bindE m f)"
proof (rule preservesI)
  fix w
  assume "I w"
  from wp_mono [OF assms(1) [OF this]] assms(2) show "wp (bindE m f) (\<lambda>_. I) (\<lambda>_. I) w"
    by (simp add: preserves_def)
qed

lemma preserves_bind: "preserves I m \<Longrightarrow> (\<And>x. preserves I (f x)) \<Longrightarrow> preserves I (bindE m f)"
  by (rule preserves_bind_fact [where P = "\<lambda>_. True"]) (auto simp: preserves_def)

lemma preserves_then:
  assumes "preserves I m" "I w" "\<And>x u. I u \<Longrightarrow> wp (f x) Q F u" "\<And>e u. I u \<Longrightarrow> F e u"
  shows "wp (bindE m f) Q F w"
  using assms(1) [unfolded preserves_def, rule_format, OF assms(2)] assms(3,4) by (auto elim: wp_mono)

lemma preserves_pure: "preserves I (returnE x)" "preserves I (throwE e)" "preserves I (get_world g)"
  by (simp_all add: preserves_def)

lemma preserves_attempt: "preserves I m \<Longrightarrow> preserves I (attempt m)"
  by (simp add: preserves_def)

lemma preserves_map_err: "preserves I m \<Longrightarrow> preserves I (map_err h m)"
  by (simp add: preserves_def)

lemma preserves_branch:
  "(b \<Longrightarrow> preserves I m) \<Longrightarrow> (\<not> b \<Longrightarrow> preserves I n) \<Longrightarrow> preserves I (if b then m else n)"
  "(v = None \<Longrightarrow> preserves I m) \<Longrightarrow> (\<And>x. v = Some x \<Longrightarrow> preserves I (f x)) \<Longrightarrow> preserves I (case v of None \<Rightarrow> m | Some x \<Rightarrow> f x)"
  by (auto split: option.splits)

text \<open>A condition on the files survives what only reads, and what touches files it does not mention.\<close>

lemma preserves_looks:
  assumes "looks m (\<lambda>_ _. True)" "\<And>w w'. file_at w' = file_at w \<Longrightarrow> I w \<Longrightarrow> I w'"
  shows "preserves I m"
  by (rule preservesI, rule wp_looks [OF assms(1)]) (auto intro: assms(2))

lemma preserves_touch:
  assumes "touches S m" "\<And>w w'. I w \<Longrightarrow> (\<forall>p. p \<notin> S \<longrightarrow> file_at w' p = file_at w p) \<Longrightarrow> I w'"
  shows "preserves I m"
proof (rule preservesI, rule wpI)
  fix w r w'
  assume "I w" "m w = (r, w')"
  then show "I w'" using touchesD [OF assms(1)] assms(2) by blast
next
  fix w r w'
  assume "I w" "m w = (r, w')"
  then show "I w'" using touchesD [OF assms(1)] assms(2) by blast
qed

lemma preservesD: "preserves I m \<Longrightarrow> I w \<Longrightarrow> m w = (r, w') \<Longrightarrow> I w'"
  unfolding preserves_def by (cases r) (auto simp: wp_def split: prod.splits sum.splits)

lemma looksD: "looks m Q \<Longrightarrow> m w = (r, w') \<Longrightarrow> file_at w' = file_at w"
  unfolding looks_def wp_def by (cases r) (auto dest!: spec [of _ w])


section \<open>Without faults\<close>

lemma ok_db_run:
  assumes "quiet w" "file_at w p = Some (Database a)" "op a = Inr (x, b)"
    and "\<And>w'. quiet w' \<Longrightarrow> file_at w' = (file_at w)(p \<mapsto> Database b) \<Longrightarrow> Q x w'"
  shows "wp (db_run p op) Q F w"
proof -
  have "lookup w p = Some (File (Database a))" using assms(2) by (auto simp: file_at_def split: option.splits node.splits)
  moreover have "Q x (set_node p (File (Database b)) (skip_ops 1 w))"
    by (rule assms(4)) (use assms(1) in \<open>auto simp: fun_eq_iff\<close>)
  ultimately show ?thesis using assms(1,3) by (simp add: wp_def db_run_def next_op_quiet)
qed

end
