(* ===== verification/Client_Maintenance.thy ===== *)
theory Client_Maintenance
  imports Rollback Keys Effects
begin

text \<open>
  The client's commands that register binaries and that remove what is no longer needed
  (\<open>crates/deltaship-client/src/commands/add.rs\<close> and \<open>cleanup.rs\<close>). Instants are numbers of nanoseconds; the parser of
  \<open>chrono\<close>, its range of dates, \<open>datetime('now', '-n days')\<close> of SQLite and the platform the program was compiled for are fields of
  \<open>maint_env\<close>. What is printed only is left out: the recovered space, and the hash of a binary that is added, though its file is read.
\<close>

section \<open>Environment\<close>

record maint_env =
  parse_datetime :: "string \<Rightarrow> int option"
  utc_now :: "nat \<Rightarrow> int"
  datetime_min :: int
  datetime_max :: int
  days_before :: "nat \<Rightarrow> int \<Rightarrow> string"
  walk_ok :: "nat \<Rightarrow> path \<Rightarrow> bool"
  new_binary_id :: "nat \<Rightarrow> string"
  host_platform :: string
  current_dir :: path

definition NANOS_PER_DAY :: int where
  "NANOS_PER_DAY = 86400 * 1000000000"


section \<open>Backups\<close>

text \<open>The record first, then the file: whether the record could be removed.\<close>

definition discard_backup :: "client_settings \<Rightarrow> rollback_backup \<Rightarrow> (content, client_error, bool) io" where
  "discard_backup S backup =
     bindE (attempt (db_get S (delete_backup (rb_id backup)))) (\<lambda>deleted.
     case deleted of None \<Rightarrow> returnE False | Some _ \<Rightarrow>
     bindE (get_world (path_exists (path_of (backup_path backup)))) (\<lambda>present.
     if present then bindE (attempt (remove_file (path_of (backup_path backup)))) (\<lambda>_. returnE True)
     else returnE True))"

definition expiry :: "maint_env \<Rightarrow> rollback_backup \<Rightarrow> int option" where
  "expiry M backup = Option.bind (expires_at backup) (parse_datetime M)"

fun remove_expired :: "client_settings \<Rightarrow> maint_env \<Rightarrow> bool \<Rightarrow> rollback_backup list
   \<Rightarrow> (content, client_error, (string \<times> u64) list) io" where
  "remove_expired S M dry_run [] = returnE []"
| "remove_expired S M dry_run (backup # backups) =
     (case expiry M backup of None \<Rightarrow> remove_expired S M dry_run backups | Some expires \<Rightarrow>
      bindE (observe (utc_now M)) (\<lambda>now.
      if \<not> expires < now then remove_expired S M dry_run backups
      else
      bindE (if dry_run then returnE True else discard_backup S backup) (\<lambda>listed.
      bindE (remove_expired S M dry_run backups) (\<lambda>rest.
      returnE (if listed then (backup_path backup, word_of_int (backup_size_bytes backup)) # rest else rest)))))"

fun expire_backups :: "client_settings \<Rightarrow> maint_env \<Rightarrow> bool \<Rightarrow> managed_binary list
   \<Rightarrow> (content, client_error, (string \<times> u64) list) io" where
  "expire_backups S M dry_run [] = returnE []"
| "expire_backups S M dry_run (binary # binaries) =
     bindE (db_get S (list_backups (mb_id binary))) (\<lambda>backups.
     bindE (remove_expired S M dry_run backups) (\<lambda>xs.
     bindE (expire_backups S M dry_run binaries) (\<lambda>ys. returnE (xs @ ys))))"

definition cleanup_expired_backups :: "client_settings \<Rightarrow> maint_env \<Rightarrow> bool \<Rightarrow> (content, client_error, (string \<times> u64) list) io" where
  "cleanup_expired_backups S M dry_run =
     bindE (get_world (path_exists (backups_dir S))) (\<lambda>present.
     if \<not> present then returnE []
     else bindE (db_get S list_binaries) (expire_backups S M dry_run))"


section \<open>Incomplete downloads\<close>

definition DELTASHIP_TEMP_PREFIX :: string where
  "DELTASHIP_TEMP_PREFIX = ''deltaship-''"

definition has_temp_extension :: "string \<Rightarrow> bool" where
  "has_temp_extension filename \<longleftrightarrow> ends_with filename ''.tmp'' \<or> ends_with filename ''.part'' \<or> ends_with filename ''.download''"

definition is_deltaship_temp_file :: "path \<Rightarrow> path \<Rightarrow> bool" where
  "is_deltaship_temp_file p deltaship_data_dir \<longleftrightarrow>
     p \<noteq> [] \<and> has_temp_extension (last p) \<and>
     (starts_with (last p) DELTASHIP_TEMP_PREFIX \<or> starts_with (last p) ''.partial_deltaship-'' \<or> in_dir deltaship_data_dir p)"

definition len_or_zero :: "client_libs \<Rightarrow> path \<Rightarrow> (content, 'e, nat) io" where
  "len_or_zero L p = bindE (attempt (file_len L p)) (\<lambda>n. returnE (case n of None \<Rightarrow> 0 | Some k \<Rightarrow> k))"

fun remove_incomplete :: "client_libs \<Rightarrow> client_settings \<Rightarrow> bool \<Rightarrow> path list \<Rightarrow> (content, client_error, (path \<times> nat) list) io" where
  "remove_incomplete L S dry_run [] = returnE []"
| "remove_incomplete L S dry_run (p # ps) =
     bindE (get_world (\<lambda>w. file_at w p \<noteq> None)) (\<lambda>is_file.
     if \<not> is_file \<or> \<not> is_deltaship_temp_file p (data_dir S) then remove_incomplete L S dry_run ps
     else
     bindE (len_or_zero L p) (\<lambda>size.
     bindE (if dry_run then returnE (Some ()) else attempt (remove_file p)) (\<lambda>removed.
     bindE (remove_incomplete L S dry_run ps) (\<lambda>rest.
     returnE (case removed of None \<Rightarrow> rest | Some _ \<Rightarrow> (p, size) # rest)))))"

definition walk_downloads :: "maint_env \<Rightarrow> path \<Rightarrow> (content, 'e, path list) io" where
  "walk_downloads M dir =
     bindE (get_world (\<lambda>w. filter (\<lambda>p. in_dir dir p \<and> file_at w p \<noteq> None) (map fst (fs w)))) (\<lambda>ps.
     bindE (observe (walk_ok M)) (\<lambda>ok. returnE (filter ok ps)))"

definition cleanup_incomplete_downloads ::
  "client_libs \<Rightarrow> client_settings \<Rightarrow> maint_env \<Rightarrow> bool \<Rightarrow> (content, client_error, (path \<times> nat) list) io" where
  "cleanup_incomplete_downloads L S M dry_run =
     bindE (get_world (path_exists (downloads_dir S))) (\<lambda>present.
     if \<not> present then returnE []
     else bindE (walk_downloads M (downloads_dir S)) (remove_incomplete L S dry_run))"


section \<open>History\<close>

text \<open>\<open>Duration::days\<close> panics beyond the range of milliseconds in an \<open>i64\<close>, and the subtraction beyond the range of dates.\<close>

definition cutoff_before :: "maint_env \<Rightarrow> u64 \<Rightarrow> int \<Rightarrow> int option" where
  "cutoff_before M max_age_days now =
     (let days = sint max_age_days; cutoff = now - days * NANOS_PER_DAY in
      if \<bar>days\<bar> * 86400000 \<ge> 2 ^ 63 \<or> cutoff < datetime_min M \<or> datetime_max M < cutoff then None else Some cutoff)"

definition started_before :: "maint_env \<Rightarrow> int \<Rightarrow> update_history \<Rightarrow> bool" where
  "started_before M cutoff u \<longleftrightarrow> (case parse_datetime M (uh_started_at u) of None \<Rightarrow> False | Some t \<Rightarrow> t < cutoff)"

fun old_entries :: "client_settings \<Rightarrow> maint_env \<Rightarrow> int \<Rightarrow> managed_binary list \<Rightarrow> (content, client_error, nat) io" where
  "old_entries S M cutoff [] = returnE 0"
| "old_entries S M cutoff (binary # binaries) =
     bindE (db_get S (get_recent_updates (mb_id binary) 1000)) (\<lambda>updates.
     bindE (old_entries S M cutoff binaries) (\<lambda>n.
     returnE (length (filter (started_before M cutoff) updates) + n)))"

definition cleanup_old_history :: "client_settings \<Rightarrow> maint_env \<Rightarrow> bool \<Rightarrow> u64 \<Rightarrow> (content, client_error, nat) io" where
  "cleanup_old_history S M dry_run max_age_days =
     bindE (db_get S list_binaries) (\<lambda>binaries.
     bindE (observe (utc_now M)) (\<lambda>now.
     case cutoff_before M max_age_days now of None \<Rightarrow> throwE CPanic | Some cutoff \<Rightarrow>
     bindE (old_entries S M cutoff binaries) (\<lambda>n.
     if dry_run \<or> n = 0 then returnE n
     else
     bindE (observe (days_before M)) (\<lambda>days_ago.
     bindE (db_get S (delete_update_history days_ago (sint (ucast max_age_days :: 32 word)))) (\<lambda>_. returnE n)))))"


section \<open>The commands\<close>

record cleanup_outcome =
  expired_backups :: "(string \<times> u64) list"
  incomplete_downloads :: "(path \<times> nat) list"
  old_history_entries :: nat

definition DEFAULT_HISTORY_AGE_DAYS :: u64 where
  "DEFAULT_HISTORY_AGE_DAYS = 90"

definition run_cleanup_command :: "client_libs \<Rightarrow> client_settings \<Rightarrow> maint_env \<Rightarrow> bool \<Rightarrow> u64 option
   \<Rightarrow> (content, client_error, cleanup_outcome) io" where
  "run_cleanup_command L S M dry_run max_age_days =
     (let max_age = (case max_age_days of Some d \<Rightarrow> d | None \<Rightarrow> DEFAULT_HISTORY_AGE_DAYS) in
      bindE (cleanup_expired_backups S M dry_run) (\<lambda>expired.
      bindE (cleanup_incomplete_downloads L S M dry_run) (\<lambda>incomplete.
      bindE (cleanup_old_history S M dry_run max_age) (\<lambda>n.
      returnE \<lparr>expired_backups = expired, incomplete_downloads = incomplete, old_history_entries = n\<rparr>))))"

fun prune_backups :: "client_settings \<Rightarrow> bool \<Rightarrow> rollback_backup list \<Rightarrow> (content, client_error, nat) io" where
  "prune_backups S dry_run [] = returnE 0"
| "prune_backups S dry_run (backup # backups) =
     bindE (if dry_run then returnE True else discard_backup S backup) (\<lambda>removed.
     bindE (prune_backups S dry_run backups) (\<lambda>n. returnE (if removed then Suc n else n)))"

definition run_prune_backups :: "client_settings \<Rightarrow> string \<Rightarrow> nat \<Rightarrow> bool \<Rightarrow> (content, client_error, nat) io" where
  "run_prune_backups S name keep dry_run =
     (if keep = 0 then throwE (CMessage ''Cannot keep 0 backups. Use at least --keep 1.'')
      else
      bindE (db_get S (get_binary_by_name name)) (\<lambda>found.
      bindE (from_sum (required ''binary'' found)) (\<lambda>binary.
      bindE (db_get S (list_backups (mb_id binary))) (\<lambda>backups.
      if length backups \<le> keep then returnE 0 else prune_backups S dry_run (drop keep backups)))))"

text \<open>No component of the path may be a link. The components are looked at one after the other.\<close>

fun refuse_links :: "client_env \<Rightarrow> path \<Rightarrow> string list \<Rightarrow> (content, client_error, unit) io" where
  "refuse_links E current [] = returnE ()"
| "refuse_links E current (c # cs) =
     bindE (get_world (path_exists (current @ [c]))) (\<lambda>present.
     bindE (if present then observe (\<lambda>n. symlink_at E n (current @ [c])) else returnE False) (\<lambda>link.
     if link then throwE (CSecurity ''path component is a symlink'') else refuse_links E (current @ [c]) cs))"

definition add_binary :: "content key_libs \<Rightarrow> client_libs \<Rightarrow> client_env \<Rightarrow> client_settings \<Rightarrow> maint_env \<Rightarrow> string \<Rightarrow> string
   \<Rightarrow> string \<Rightarrow> (content, client_error, managed_binary) io" where
  "add_binary K L E S M name path public_key_file =
     bindE (map_err (\<lambda>_. CMessage ''Invalid binary name'') (from_sum (validate_binary_name name))) (\<lambda>_.
     let binary_path = path_join (current_dir M) path; key_path = path_join (current_dir M) public_key_file in
     bindE (get_world (path_exists binary_path)) (\<lambda>present.
     if \<not> present then throwE (CMissing ''binary'')
     else
     bindE (map_err (\<lambda>_. CBadKey) (load_verifying_key K key_path)) (\<lambda>public_key_bytes.
     bindE (db_get S (get_binary_by_name name)) (\<lambda>existing.
     if existing \<noteq> None then throwE (CMessage ''Binary is already registered'')
     else
     bindE (map_err CIo (hash_file L binary_path)) (\<lambda>_.
     bindE (observe (new_binary_id M)) (\<lambda>binary_id.
     bindE (observe (\<lambda>n. symlink_at E n binary_path)) (\<lambda>link.
     if link then throwE (CSecurity ''binary path is a symlink'')
     else
     bindE (if starts_with path ''/'' then refuse_links E [] (path_components path)
            else refuse_links E (current_dir M) (path_components path)) (\<lambda>_.
     bindE (canonicalize E binary_path) (\<lambda>_.
     bindE (canonicalize E binary_path) (\<lambda>canonical_path.
     db_timed E (db_path S) (\<lambda>now. register_binary now \<lparr>nb_id = binary_id, nb_name = name, nb_platform = host_platform M,
       nb_install_path = path_str canonical_path, nb_public_key = public_key_bytes\<rparr>)))))))))))"


section \<open>Dry runs\<close>

lemma looks_get:
  assumes "\<And>db x db'. op db = Inr (x, db') \<Longrightarrow> db' = db"
    and "\<And>g db x. g (db_path S) = Some (Database db) \<Longrightarrow> op db = Inr (x, db) \<Longrightarrow> Q g x"
  shows "looks (db_get S op) Q"
  unfolding db_get_def by (intro looks_map_err looks_db_run assms)

lemma looks_any_get: "(\<And>db x db'. op db = Inr (x, db') \<Longrightarrow> db' = db) \<Longrightarrow> looks (db_get S op) (\<lambda>_ _. True)"
  by (rule looks_get) auto

lemmas client_queries = list_backups_def list_binaries_def get_recent_updates_def get_binary_by_name_def

lemma looks_dry_expired: "looks (remove_expired S M True bs) (\<lambda>_ _. True)"
  by (induction bs) (auto split: option.splits intro!: looks_pure looks_any_bind looks_observe looks_branch)

lemma looks_dry_expire: "looks (expire_backups S M True bs) (\<lambda>_ _. True)"
  by (induction bs) (auto simp: client_queries intro!: looks_pure looks_any_bind looks_any_get looks_dry_expired)

lemma looks_len: "looks (len_or_zero L p) (\<lambda>_ _. True)"
  unfolding len_or_zero_def file_len_def
  by (intro looks_any_bind looks_attempt looks_pure looks_world) (auto simp: looks_def intro!: wp_prims split: option.splits node.splits)

lemma looks_dry_incomplete: "looks (remove_incomplete L S True ps) (\<lambda>_ _. True)"
  by (induction ps) (auto intro!: looks_pure looks_any_bind looks_world looks_branch looks_len)

lemma looks_walk_downloads: "looks (walk_downloads M d) (\<lambda>_ _. True)"
  unfolding walk_downloads_def by (intro looks_any_bind looks_world looks_observe looks_pure) auto

lemma looks_old_entries: "looks (old_entries S M c bs) (\<lambda>_ _. True)"
  by (induction bs) (auto simp: client_queries intro!: looks_pure looks_any_bind looks_any_get)

lemma looks_dry_run: "looks (run_cleanup_command L S M True age) (\<lambda>_ _. True)"
  unfolding run_cleanup_command_def cleanup_expired_backups_def cleanup_incomplete_downloads_def cleanup_old_history_def Let_def
  by (intro looks_any_bind looks_world looks_branch looks_pure looks_any_get looks_dry_expire looks_walk_downloads looks_dry_incomplete
        looks_observe looks_old_entries)
     (auto simp: client_queries intro!: looks_pure)

lemma looks_dry_prune_backups: "looks (run_prune_backups S name keep True) (\<lambda>_ _. True)"
proof -
  have "looks (prune_backups S True bs) (\<lambda>_ _. True)" for bs
    by (induction bs) (auto intro!: looks_pure looks_any_bind)
  then show ?thesis
    unfolding run_prune_backups_def
    by (intro looks_branch looks_any_bind looks_any_get looks_pure) (auto simp: client_queries)
qed


section \<open>What maintenance may remove\<close>

text \<open>The database with some backups and some entries of the history gone.\<close>

definition thinned :: "(rollback_backup \<Rightarrow> bool) \<Rightarrow> (update_history \<Rightarrow> bool) \<Rightarrow> client_db \<Rightarrow> client_db" where
  "thinned F H db = db\<lparr>rollback_backups := filter F (rollback_backups db), update_histories := filter H (update_histories db)\<rparr>"

text \<open>The files of the backups in \<open>G\<close>, and downloads that were not finished.\<close>

definition spoils :: "client_settings \<Rightarrow> rollback_backup set \<Rightarrow> path set" where
  "spoils S G = (\<lambda>r. path_of (backup_path r)) ` G \<union> {p. in_dir (downloads_dir S) p \<and> p \<noteq> [] \<and> has_temp_extension (last p)}"

text \<open>From \<open>w\<close> to \<open>v\<close> only backups in \<open>G\<close>, with their files, unfinished downloads and entries in \<open>U\<close> have gone.\<close>

definition maintained :: "client_settings \<Rightarrow> rollback_backup set \<Rightarrow> update_history set \<Rightarrow> client_db \<Rightarrow> content world \<Rightarrow> content world \<Rightarrow> bool" where
  "maintained S G U db w v \<longleftrightarrow>
     (\<exists>F H. file_at v (db_path S) = Some (Database (thinned F H db)) \<and>
        (\<forall>r \<in> set (rollback_backups db). r \<notin> G \<longrightarrow> F r) \<and> (\<forall>u \<in> set (update_histories db). u \<notin> U \<longrightarrow> H u)) \<and>
     (\<forall>p. p \<notin> insert (db_path S) (spoils S G) \<longrightarrow> file_at v p = file_at w p)"

text \<open>Identifiers of backups are unique, and no backup is recorded at the path of the database.\<close>

definition tidy :: "client_settings \<Rightarrow> client_db \<Rightarrow> bool" where
  "tidy S db \<longleftrightarrow> distinct (map rb_id (rollback_backups db)) \<and> (\<forall>r \<in> set (rollback_backups db). path_of (backup_path r) \<noteq> db_path S)"

lemma maintained_start: "file_at w (db_path S) = Some (Database db) \<Longrightarrow> maintained S G U db w w"
  unfolding maintained_def thinned_def by (auto intro!: exI [of _ "\<lambda>_. True"])

lemma maintained_same: "file_at v' = file_at v \<Longrightarrow> maintained S G U db w v \<Longrightarrow> maintained S G U db w v'"
  by (simp add: maintained_def)

lemma downloads_not_db: "\<not> in_dir (downloads_dir S) (db_path S)"
  by (simp add: in_dir_def downloads_dir_def db_path_def)

lemma db_no_spoil: "tidy S db \<Longrightarrow> G \<subseteq> set (rollback_backups db) \<Longrightarrow> db_path S \<notin> spoils S G"
  using downloads_not_db by (fastforce simp: spoils_def tidy_def)

lemma preserves_maintained:
  assumes "touches A m" "A \<subseteq> spoils S G" "db_path S \<notin> A"
  shows "preserves (maintained S G U db w) m"
proof (rule preserves_touch [OF assms(1)])
  fix v v'
  assume v: "maintained S G U db w v" and same: "\<forall>p. p \<notin> A \<longrightarrow> file_at v' p = file_at v p"
  have "file_at v' (db_path S) = file_at v (db_path S)" using same assms(3) by simp
  moreover have "file_at v' p = file_at v p" if "p \<notin> insert (db_path S) (spoils S G)" for p using same that assms(2) by blast
  ultimately show "maintained S G U db w v'" using v unfolding maintained_def by simp
qed

lemma preserves_delete_backup:
  assumes "tidy S db" "b \<in> G" "b \<in> set (rollback_backups db)"
  shows "preserves (maintained S G U db w) (db_get S (delete_backup (rb_id b)))"
  unfolding db_get_def
proof (rule preserves_map_err, rule preservesI, rule wp_db_run)
  fix v a x a' and v' :: "content world"
  assume v: "maintained S G U db w v" "file_at v (db_path S) = Some (Database a)" "delete_backup (rb_id b) a = Inr (x, a')"
    "file_at v' = (file_at v)(db_path S \<mapsto> Database a')"
  then obtain F H where F: "a = thinned F H db" "\<forall>r \<in> set (rollback_backups db). r \<notin> G \<longrightarrow> F r" "\<forall>u \<in> set (update_histories db). u \<notin> U \<longrightarrow> H u"
    by (auto simp: maintained_def)
  have "rb_id r \<noteq> rb_id b" if "r \<in> set (rollback_backups db)" "r \<notin> G" for r
    using that assms by (auto simp: tidy_def distinct_map dest: inj_onD)
  moreover have "a' = thinned (\<lambda>r. F r \<and> rb_id r \<noteq> rb_id b) H db"
    using v(3) F(1) by (auto simp: delete_backup_def thinned_def split: if_splits)
  ultimately show "maintained S G U db w v'"
    using v(1,4) F(2,3) unfolding maintained_def by (auto intro!: exI [of _ "\<lambda>r. F r \<and> rb_id r \<noteq> rb_id b"] exI [of _ H])
qed (auto dest: maintained_same)

lemma preserves_discard:
  assumes "tidy S db" "b \<in> G" "b \<in> set (rollback_backups db)"
  shows "preserves (maintained S G U db w) (discard_backup S b)"
proof -
  have "preserves (maintained S G U db w) (remove_file (path_of (backup_path b)) :: (content, io_error, unit) io)"
    by (rule preserves_maintained [where A = "{path_of (backup_path b)}"]) (use assms in \<open>auto simp: spoils_def tidy_def\<close>)
  then show ?thesis
    unfolding discard_backup_def
    by (intro preserves_bind preserves_attempt preserves_delete_backup [OF assms] preserves_branch preserves_pure)
qed

lemma wp_maintained_query:
  assumes "\<And>a x b. op a = Inr (x, b) \<Longrightarrow> b = a" "\<And>F H x. op (thinned F H db) = Inr (x, thinned F H db) \<Longrightarrow> R x"
    and v: "maintained S G U db w v"
  shows "wp (db_get S op) (\<lambda>x v'. maintained S G U db w v' \<and> R x) (\<lambda>_. maintained S G U db w) v"
proof (rule wp_looks [OF looks_get [where Q = "\<lambda>g x. \<forall>a. g (db_path S) = Some (Database a) \<longrightarrow> op a = Inr (x, a)"]])
  fix x and v' :: "content world"
  assume "file_at v' = file_at v" and q: "\<forall>a. file_at v (db_path S) = Some (Database a) \<longrightarrow> op a = Inr (x, a)"
  moreover obtain F H where "file_at v (db_path S) = Some (Database (thinned F H db))"
    using v unfolding maintained_def by blast
  ultimately show "maintained S G U db w v' \<and> R x" using assms(2) v maintained_same by blast
qed (use assms(1) v in \<open>auto dest: maintained_same\<close>)

lemma wp_backups_listed:
  "maintained S G U db w v \<Longrightarrow> wp (db_get S (list_backups bid)) (\<lambda>bs v'. maintained S G U db w v' \<and> set bs \<subseteq> set (rollback_backups db))
     (\<lambda>_. maintained S G U db w) v"
  by (rule wp_maintained_query) (auto simp: list_backups_def newest_backups_def thinned_def)

definition expirable :: "maint_env \<Rightarrow> client_db \<Rightarrow> rollback_backup set" where
  "expirable M db = {r \<in> set (rollback_backups db). \<exists>n t. expiry M r = Some t \<and> t < utc_now M n}"

lemma preserves_remove_expired:
  assumes "tidy S db"
  shows "set bs \<subseteq> set (rollback_backups db) \<Longrightarrow> preserves (maintained S (expirable M db) U db w) (remove_expired S M dr bs)"
proof (induction bs)
  case (Cons b bs)
  show ?case
  proof (cases "expiry M b")
    case (Some t)
    have discard: "preserves (maintained S (expirable M db) U db w) (discard_backup S b)" if "t < utc_now M n" for n
      by (rule preserves_discard [OF assms]) (use Some that Cons.prems in \<open>auto simp: expirable_def\<close>)
    have clock: "wp (observe (utc_now M)) (\<lambda>x v'. maintained S (expirable M db) U db w v' \<and> (\<exists>n. x = utc_now M n)) F v"
      if "maintained S (expirable M db) U db w v" for v and F :: "client_error \<Rightarrow> content world \<Rightarrow> bool"
      using that by (auto intro: maintained_same [rotated])
    have "preserves (maintained S (expirable M db) U db w) (remove_expired S M dr bs)" using Cons by simp
    then show ?thesis
      unfolding remove_expired.simps Some option.case
      by (intro preserves_bind_fact [OF clock] preserves_branch preserves_bind preserves_pure) (auto intro: discard)
  qed (use Cons in simp)
qed (simp add: preserves_pure)

lemma preserves_expire:
  assumes "tidy S db"
  shows "preserves (maintained S (expirable M db) U db w) (expire_backups S M dr bs)"
  by (induction bs)
     (auto intro!: preserves_pure preserves_bind preserves_remove_expired [OF assms] preserves_bind_fact [OF wp_backups_listed])

lemma preserves_same:
  "looks m (\<lambda>_ _. True) \<Longrightarrow> preserves (maintained S G U db w) m"
  by (rule preserves_looks) (auto dest: maintained_same)

lemma touches_incomplete:
  "{p \<in> set ps. p \<noteq> [] \<and> has_temp_extension (last p)} \<subseteq> A \<Longrightarrow> touches A (remove_incomplete L S dr ps)"
proof (induction ps)
  case (Cons p ps)
  then have IH: "touches A (remove_incomplete L S dr ps)" by auto
  have len: "touches A (len_or_zero L p :: (content, client_error, nat) io)"
    unfolding len_or_zero_def by (auto intro!: touches_intros)
  show ?case
  proof (cases "is_deltaship_temp_file p (data_dir S)")
    case True
    then have "p \<in> A" using Cons.prems by (auto simp: is_deltaship_temp_file_def)
    then show ?thesis using IH len by (auto intro!: touches_intros)
  qed (use IH in \<open>auto intro!: touches_intros\<close>)
qed (auto intro!: touches_intros)

lemma preserves_incomplete: "preserves (maintained S G U db w) (cleanup_incomplete_downloads L S M dr)"
proof -
  let ?A = "{p. in_dir (downloads_dir S) p \<and> p \<noteq> [] \<and> has_temp_extension (last p)}"
  have walked: "wp (walk_downloads M d) (\<lambda>ps _. \<forall>p \<in> set ps. in_dir d p) (\<lambda>_ _. True) v" for d v
    by (simp add: walk_downloads_def wp_def bindE_def get_world_def observe_def returnE_def)
  have walk: "touches ?A (walk_downloads M (downloads_dir S))"
    unfolding walk_downloads_def by (auto intro!: touches_intros touches_observe)
  have "touches ?A (cleanup_incomplete_downloads L S M dr)"
    unfolding cleanup_incomplete_downloads_def
    by (intro touches_intros footprint.keeps_bindE_ret [OF walk walked] touches_incomplete) auto
  then show ?thesis
    by (rule preserves_maintained) (use downloads_not_db in \<open>auto simp: spoils_def\<close>)
qed

definition outdated :: "maint_env \<Rightarrow> u64 \<Rightarrow> update_history set" where
  "outdated M max_age_days = {u. \<exists>n. str_cmp (uh_started_at u) (days_before M n (sint (ucast max_age_days :: 32 word))) = Less}"

lemma preserves_history: "preserves (maintained S G (outdated M age) db w) (cleanup_old_history S M dr age)"
proof -
  let ?I = "maintained S G (outdated M age) db w" and ?d = "sint (ucast age :: 32 word)"
  have delete: "preserves ?I (db_get S (delete_update_history (days_before M n) ?d))" for n
    unfolding db_get_def
  proof (rule preserves_map_err, rule preservesI, rule wp_db_run)
    fix v a x a' and v' :: "content world"
    assume v: "?I v" "file_at v (db_path S) = Some (Database a)" "delete_update_history (days_before M n) ?d a = Inr (x, a')"
      "file_at v' = (file_at v)(db_path S \<mapsto> Database a')"
    then obtain F H where F: "a = thinned F H db" "\<forall>r \<in> set (rollback_backups db). r \<notin> G \<longrightarrow> F r"
        "\<forall>u \<in> set (update_histories db). u \<notin> outdated M age \<longrightarrow> H u"
      by (auto simp: maintained_def)
    define K where "K = (\<lambda>u. H u \<and> \<not> str_cmp (uh_started_at u) (days_before M n ?d) = Less)"
    have "a' = thinned F K db"
      using v(3) F(1) by (auto simp: delete_update_history_def thinned_def Let_def K_def split: if_splits)
    moreover have "\<forall>u \<in> set (update_histories db). u \<notin> outdated M age \<longrightarrow> K u" using F(3) by (auto simp: K_def outdated_def)
    ultimately show "?I v'" using v(1,4) F(2) unfolding maintained_def by auto
  qed (auto dest: maintained_same)
  have tick: "wp (observe f) (\<lambda>x v'. ?I v' \<and> (\<exists>n. x = f n)) E v" if "?I v" for f :: "nat \<Rightarrow> 'x" and E v
    using that by (auto intro: maintained_same [rotated])
  have tail: "preserves ?I (bindE (observe (days_before M)) (\<lambda>days_ago. bindE (db_get S (delete_update_history days_ago ?d)) (\<lambda>_. returnE k)))" for k :: nat
    by (rule preserves_bind_fact [OF tick]) (auto intro!: preserves_bind delete preserves_pure)
  show ?thesis
    unfolding cleanup_old_history_def
    by (rule preserves_bind [OF preserves_same [OF looks_any_get]], simp add: client_queries, rule preserves_bind [OF preserves_same [OF looks_observe]],
        simp, rule preserves_branch, rule preserves_pure, rule preserves_bind [OF preserves_same [OF looks_old_entries]],
        rule preserves_branch, rule preserves_pure, rule tail)
qed

lemma preserves_run_cleanup:
  assumes "tidy S db"
  shows "preserves (maintained S (expirable M db) (outdated M (case age of Some d \<Rightarrow> d | None \<Rightarrow> DEFAULT_HISTORY_AGE_DAYS)) db w)
    (run_cleanup_command L S M dr age)"
  unfolding run_cleanup_command_def cleanup_expired_backups_def Let_def
  by (intro preserves_bind preserves_branch preserves_expire [OF assms] preserves_incomplete preserves_history preserves_pure
        preserves_same [OF looks_any_get])
     (auto simp: client_queries)

lemma preserves_prune_backups:
  assumes "tidy S db" "G \<subseteq> set (rollback_backups db)"
  shows "set bs \<subseteq> G \<Longrightarrow> preserves (maintained S G U db w) (prune_backups S dr bs)"
  using assms(2) by (induction bs) (auto intro!: preserves_pure preserves_bind preserves_discard [OF assms(1)])

lemma prune_backups_maintains:
  assumes db: "file_at w (db_path S) = Some (Database db)" "tidy S db" "find_first (\<lambda>b. mb_name b = name) (managed_binaries db) = Some b"
  shows "wp (run_prune_backups S name keep dr) (\<lambda>_. maintained S (set (drop keep (newest_backups (mb_id b) db))) {} db w)
     (\<lambda>_. maintained S (set (drop keep (newest_backups (mb_id b) db))) {} db w) w"
proof -
  let ?G = "set (drop keep (newest_backups (mb_id b) db))" and ?I = "maintained S (set (drop keep (newest_backups (mb_id b) db))) {} db w"
  have start: "maintained S G U db w v" if "file_at v = file_at w" for v G U
    using maintained_same [OF that maintained_start [OF db(1)]] .
  have sub: "?G \<subseteq> set (rollback_backups db)" by (auto simp: newest_backups_def dest: in_set_dropD)
  have q1: "looks (db_get S (get_binary_by_name name)) (\<lambda>g x. g (db_path S) = Some (Database db) \<longrightarrow> x = Some b)"
    by (rule looks_get) (use db(3) in \<open>auto simp: get_binary_by_name_def\<close>)
  have q2: "looks (db_get S (list_backups (mb_id b))) (\<lambda>g x. g (db_path S) = Some (Database db) \<longrightarrow> x = newest_backups (mb_id b) db)"
    by (rule looks_get) (auto simp: list_backups_def)
  have prune: "wp (prune_backups S dr (drop keep (newest_backups (mb_id b) db))) (\<lambda>_. ?I) (\<lambda>_. ?I) v" if "file_at v = file_at w" for v
    using preserves_prune_backups [OF db(2) sub subset_refl, of "{}" w dr] start [OF that] by (simp add: preserves_def)
  have rest: "wp (bindE (db_get S (list_backups (mb_id b))) (\<lambda>backups. if length backups \<le> keep then returnE 0 else prune_backups S dr (drop keep backups)))
      (\<lambda>_. ?I) (\<lambda>_. ?I) v" if v: "file_at v = file_at w" for v
  proof (rule wp_looks_bind [OF q2])
    fix bs u
    assume "file_at u = file_at v" "file_at v (db_path S) = Some (Database db) \<longrightarrow> bs = newest_backups (mb_id b) db"
    then have "bs = newest_backups (mb_id b) db" "file_at u = file_at w" using v db(1) by simp_all
    then show "wp (if length bs \<le> keep then returnE 0 else prune_backups S dr (drop keep bs)) (\<lambda>_. ?I) (\<lambda>_. ?I) u"
      using prune start by simp
  qed (use v start in simp)
  have "wp (bindE (db_get S (get_binary_by_name name)) (\<lambda>found. bindE (from_sum (required ''binary'' found)) (\<lambda>binary.
      bindE (db_get S (list_backups (mb_id binary))) (\<lambda>backups. if length backups \<le> keep then returnE 0 else prune_backups S dr (drop keep backups)))))
      (\<lambda>_. ?I) (\<lambda>_. ?I) w"
  proof (rule wp_looks_bind [OF q1])
    fix x v
    assume "file_at v = file_at w" "file_at w (db_path S) = Some (Database db) \<longrightarrow> x = Some b"
    then have "x = Some b" and v: "file_at v = file_at w" using db(1) by simp_all
    then show "wp (bindE (from_sum (required ''binary'' x)) (\<lambda>binary.
        bindE (db_get S (list_backups (mb_id binary))) (\<lambda>backups. if length backups \<le> keep then returnE 0 else prune_backups S dr (drop keep backups))))
        (\<lambda>_. ?I) (\<lambda>_. ?I) v"
      using rest [OF v] by (simp add: required_def del: wp_bindE wp_seq_fun add: wp_bindE [of "from_sum _"])
  qed (use start in simp)
  then show ?thesis unfolding run_prune_backups_def using start [of w] by (auto simp del: wp_bindE wp_seq_fun)
qed


section \<open>Pruning without faults\<close>

definition backups_left :: "client_settings \<Rightarrow> rollback_backup list \<Rightarrow> content world \<Rightarrow> bool" where
  "backups_left S bs v \<longleftrightarrow> quiet v \<and> (\<exists>a. file_at v (db_path S) = Some (Database a) \<and> rollback_backups a = bs)"

lemma left_discard:
  assumes "backups_left S bs v" "b \<in> set bs" "path_of (backup_path b) \<noteq> db_path S"
  shows "wp (discard_backup S b) (\<lambda>_. backups_left S (filter (\<lambda>r. rb_id r \<noteq> rb_id b) bs)) (\<lambda>_ _. False) v"
proof -
  let ?bs = "filter (\<lambda>r. rb_id r \<noteq> rb_id b) bs"
  obtain a where a: "quiet v" "file_at v (db_path S) = Some (Database a)" "rollback_backups a = bs"
    using assms(1) by (auto simp: backups_left_def)
  have op: "delete_backup (rb_id b) a = Inr ((), a\<lparr>rollback_backups := ?bs\<rparr>)"
    using assms(2) a(3) by (auto simp: delete_backup_def)
  have "backups_left S ?bs (skip_ops 1 u)" "backups_left S ?bs (drop_node (path_of (backup_path b)) (skip_ops 1 u))"
    if "backups_left S ?bs u" for u
    using that assms(3) by (auto simp: backups_left_def)
  then have rm: "wp (remove_file (path_of (backup_path b)) :: (content, io_error, unit) io) (\<lambda>_. backups_left S ?bs) (\<lambda>_. backups_left S ?bs) u"
    if "backups_left S ?bs u" for u
    using that by (auto simp: wp_def remove_file_def next_op_quiet backups_left_def split: option.splits node.splits)
  show ?thesis
    unfolding discard_backup_def db_get_def
    by (auto intro!: ok_db_run [where op = "delete_backup (rb_id b)", OF a(1,2) op] rm) (auto simp: backups_left_def)
qed

lemma left_prune:
  "backups_left S bs v \<Longrightarrow> set ds \<subseteq> set bs \<Longrightarrow> distinct (map rb_id ds) \<Longrightarrow> \<forall>r \<in> set ds. path_of (backup_path r) \<noteq> db_path S \<Longrightarrow>
   wp (prune_backups S False ds) (\<lambda>_. backups_left S (filter (\<lambda>r. rb_id r \<notin> rb_id ` set ds) bs)) (\<lambda>_ _. False) v"
proof (induction ds arbitrary: bs v)
  case (Cons d ds)
  have "set ds \<subseteq> set (filter (\<lambda>r. rb_id r \<noteq> rb_id d) bs)" using Cons.prems(2,3) by (auto simp: image_iff)
  moreover have "filter (\<lambda>r. rb_id r \<notin> rb_id ` set ds) (filter (\<lambda>r. rb_id r \<noteq> rb_id d) bs) = filter (\<lambda>r. rb_id r \<notin> rb_id ` set (d # ds)) bs"
    by (auto intro!: filter_cong)
  ultimately show ?case
    using Cons.IH [of "filter (\<lambda>r. rb_id r \<noteq> rb_id d) bs"] Cons.prems by (auto intro!: wp_mono [OF left_discard])
qed simp

lemma ok_get:
  assumes "quiet v" "file_at v (db_path S) = Some (Database db)" "op db = Inr (x, db)"
    and "\<And>u. quiet u \<Longrightarrow> file_at u = file_at v \<Longrightarrow> Q x u"
  shows "wp (db_get S op) Q F v"
  unfolding db_get_def wp_map_err
  by (rule ok_db_run [where op = op and x = x and a = db and b = db]) (use assms in \<open>auto simp: fun_upd_idem\<close>)

lemma prune_backups_exact:
  assumes db: "quiet w" "file_at w (db_path S) = Some (Database db)" "tidy S db"
      "find_first (\<lambda>b. mb_name b = name) (managed_binaries db) = Some b" and "0 < keep"
  shows "wp (run_prune_backups S name keep False)
    (\<lambda>_. backups_left S (filter (\<lambda>r. rb_id r \<notin> rb_id ` set (drop keep (newest_backups (mb_id b) db))) (rollback_backups db))) (\<lambda>_ _. False) w"
proof -
  let ?ns = "newest_backups (mb_id b) db"
  let ?xs = "filter (\<lambda>r. rb_id r \<notin> rb_id ` set (drop keep ?ns)) (rollback_backups db)"
  have set: "set ?ns \<subseteq> set (rollback_backups db)" by (auto simp: newest_backups_def)
  have "distinct (map rb_id ?ns)"
    unfolding newest_backups_def using db(3) [unfolded tidy_def]
    by (metis (no_types, lifting) distinct_map_filter mset_map mset_sort_by mset_eq_imp_distinct_iff)
  then have dist: "distinct (map rb_id (drop keep ?ns))" by (simp add: drop_map [symmetric])
  have paths: "\<forall>r \<in> set (drop keep ?ns). path_of (backup_path r) \<noteq> db_path S"
    using db(3) set by (auto simp: tidy_def dest: in_set_dropD)
  have prune: "wp (if length ?ns \<le> keep then returnE 0 else prune_backups S False (drop keep ?ns)) (\<lambda>_. backups_left S ?xs) (\<lambda>_ _. False) v"
    if "quiet v" "file_at v = file_at w" for v
  proof -
    have l: "backups_left S (rollback_backups db) v" using that db(2) by (auto simp: backups_left_def)
    moreover have "set (drop keep ?ns) \<subseteq> set (rollback_backups db)" using set by (auto dest: in_set_dropD)
    ultimately have "wp (prune_backups S False (drop keep ?ns)) (\<lambda>_. backups_left S ?xs) (\<lambda>_ _. False) v"
      using left_prune [OF l _ dist paths] by blast
    then show ?thesis using l by auto
  qed
  have list: "wp (db_get S (list_backups (mb_id b))) Q F v"
    if "quiet v" "file_at v = file_at w" "\<And>u. quiet u \<Longrightarrow> file_at u = file_at w \<Longrightarrow> Q ?ns u" for Q F v
    by (rule ok_get [where db = db and x = ?ns]) (use that db(2) in \<open>auto simp: list_backups_def\<close>)
  have found: "wp (db_get S (get_binary_by_name name)) Q F w"
    if "\<And>u. quiet u \<Longrightarrow> file_at u = file_at w \<Longrightarrow> Q (Some b) u" for Q F
    by (rule ok_get [where db = db and x = "Some b"]) (use that db in \<open>auto simp: get_binary_by_name_def\<close>)
  show ?thesis
    unfolding run_prune_backups_def using assms(5)
    by (auto simp del: if_split not_gr_zero simp: required_def intro!: found list prune)
qed


section \<open>Registration\<close>

definition verifying_key_at :: "content key_libs \<Rightarrow> (path \<Rightarrow> content option) \<Rightarrow> path \<Rightarrow> bytes \<Rightarrow> bool" where
  "verifying_key_at K g p key \<longleftrightarrow> (\<exists>c s. g p = Some c \<and> text_of_utf8 K c = Some s \<and> parse_verifying_key K s = Inr key)"

text \<open>A binary is registered under a valid name that was free, with the key of the key file and a canonical path of an
  existing file, and nothing else changes.\<close>

definition registration :: "content key_libs \<Rightarrow> client_env \<Rightarrow> client_settings \<Rightarrow> maint_env \<Rightarrow> string \<Rightarrow> string \<Rightarrow> string
   \<Rightarrow> content world \<Rightarrow> managed_binary \<Rightarrow> content world \<Rightarrow> bool" where
  "registration K E S M name path key_file w mb w' \<longleftrightarrow>
     validate_binary_name name = Inr () \<and> mb_name mb = name \<and> current_version_id mb = None \<and>
     validate_platform (mb_platform mb) = Inr () \<and>
     verifying_key_at K (file_at w) (path_join (current_dir M) key_file) (publisher_public_key mb) \<and>
     (\<exists>n q. canonical E n (path_join (current_dir M) path) = Some q \<and> install_path mb = path_str q) \<and>
     file_at w (path_join (current_dir M) path) \<noteq> None \<and>
     (\<exists>db db'. file_at w (db_path S) = Some (Database db) \<and> (\<forall>b \<in> set (managed_binaries db). mb_name b \<noteq> name \<and> mb_id b \<noteq> mb_id mb) \<and>
        db' = db\<lparr>managed_binaries := managed_binaries db @ [mb]\<rparr> \<and> file_at w' = (file_at w)(db_path S \<mapsto> Database db'))"

lemma register_binary_cases:
  assumes "register_binary now b db = Inr (mb, db')"
  shows "validate_platform (nb_platform b) = Inr () \<and> (\<forall>x \<in> set (managed_binaries db). mb_name x \<noteq> nb_name b \<and> mb_id x \<noteq> nb_id b) \<and>
    db' = db\<lparr>managed_binaries := managed_binaries db @ [mb]\<rparr> \<and> mb_name mb = nb_name b \<and> mb_id mb = nb_id b \<and> mb_platform mb = nb_platform b \<and>
    install_path mb = nb_install_path b \<and> publisher_public_key mb = nb_public_key b \<and> current_version_id mb = None"
proof -
  have ok: "validate_platform (nb_platform b) = Inr ()" and new: "\<forall>x \<in> set (managed_binaries db). mb_name x \<noteq> nb_name b \<and> mb_id x \<noteq> nb_id b"
    using assms by (auto simp: register_binary_def check_db_def bind_db_def insert_managed_binary_def split: if_splits sum.splits)
  then have "find_first (\<lambda>x. mb_id x = nb_id b) (managed_binaries db) = None" by (simp add: find_first_None)
  then show ?thesis
    using assms ok new
    by (auto simp: register_binary_def check_db_def bind_db_def insert_managed_binary_def get_binary_def return_db_def find_first_append
      split: if_splits)
qed

lemma looks_verifying_key: "looks (load_verifying_key K p) (\<lambda>g. verifying_key_at K g p)"
  unfolding load_verifying_key_def read_key_file_def looks_def
  by (auto simp: verifying_key_at_def split: sum.splits option.splits intro!: wp_read_file wp_branch)

lemma looks_refuse_links: "looks (refuse_links E cur cs) (\<lambda>_ _. True)"
  by (induction cs arbitrary: cur) (auto intro!: looks_pure looks_any_bind looks_world looks_branch looks_observe)

lemma looks_canonicalize: "looks (canonicalize E p) (\<lambda>_ q. \<exists>n. canonical E n p = Some q)"
  unfolding canonicalize_def
  by (rule looks_bindE [OF looks_observe [where Q = "\<lambda>_ x. \<exists>n. x = canonical E n p"]]) (auto intro!: looks_branch looks_pure)

lemma looks_hash_file: "looks (hash_file L p) (\<lambda>g _. g p \<noteq> None)"
  unfolding hash_file_def read_bytes_def looks_def by (auto intro!: wp_read_file)

lemma wp_register:
  assumes "file_at v = file_at w" "validate_binary_name name = Inr ()" "verifying_key_at K (file_at w) (path_join (current_dir M) key_file) key"
    "\<exists>n. canonical E n (path_join (current_dir M) path) = Some q" "file_at w (path_join (current_dir M) path) \<noteq> None"
  shows "wp (db_timed E (db_path S) (\<lambda>now. register_binary now \<lparr>nb_id = bid, nb_name = name, nb_platform = host_platform M,
       nb_install_path = path_str q, nb_public_key = key\<rparr>)) (registration K E S M name path key_file w) (\<lambda>_ w'. file_at w' = file_at w) v"
proof -
  obtain n where n: "canonical E n (path_join (current_dir M) path) = Some q" using assms(4) by blast
  show ?thesis
    unfolding db_timed_def
    by (auto intro!: wp_db_run simp: assms(1))
       (use assms n in \<open>auto simp: registration_def dest!: register_binary_cases intro!: exI [of _ n] exI [of _ q]\<close>)
qed

lemma wp_add_binary:
  "wp (add_binary K L E S M name path key_file) (registration K E S M name path key_file w) (\<lambda>_ w'. file_at w' = file_at w) w"
proof (cases "validate_binary_name name")
  case (Inr u)
  have links: "looks (if starts_with path ''/'' then refuse_links E [] (path_components path)
      else refuse_links E (current_dir M) (path_components path)) (\<lambda>_ _. True)"
    by (intro looks_branch looks_refuse_links)
  have name: "validate_binary_name name = Inr ()" using Inr by simp
  show ?thesis
    unfolding add_binary_def Let_def name
    by (subst wp_bindE, subst wp_map_err, subst wp_pure, subst sum.case,
        rule wp_looks_bind [OF looks_world [where Q = "\<lambda>_ _. True"]], simp, rule wp_branch, simp,
        rule wp_looks_bind [OF looks_map_err [OF looks_verifying_key]],
        rule wp_looks_bind [OF looks_any_get], simp add: get_binary_by_name_def, rule wp_branch, simp,
        rule wp_looks_bind [OF looks_map_err [OF looks_hash_file]],
        rule wp_looks_bind [OF looks_observe [where Q = "\<lambda>_ _. True"]], simp,
        rule wp_looks_bind [OF looks_observe [where Q = "\<lambda>_ _. True"]], simp,
        rule wp_branch, simp, rule wp_looks_bind [OF links], rule wp_looks_bind [OF looks_canonicalize],
        rule wp_looks_bind [OF looks_canonicalize], rule wp_register)
       (simp_all add: name)
qed (simp add: add_binary_def)


section \<open>A sample\<close>

definition sample_maint :: maint_env where
  "sample_maint = \<lparr>parse_datetime = (\<lambda>s. if s = ''old'' then Some 0 else None), utc_now = (\<lambda>_. 10 ^ 18), datetime_min = - (10 ^ 30),
     datetime_max = 10 ^ 30, days_before = (\<lambda>_ _. ''2025''), walk_ok = (\<lambda>_ _. True), new_binary_id = (\<lambda>_. ''new''),
     host_platform = ''linux-x86_64'', current_dir = []\<rparr>"

definition sample_old_backup :: rollback_backup where
  "sample_old_backup = sample_backup\<lparr>rb_id := 2, backup_path := ''/d/backups/old'', rb_created_at := ''s'', expires_at := Some ''old''\<rparr>"

definition sample_kept_db :: client_db where
  "sample_kept_db = (initial_db ''t'')\<lparr>managed_binaries := [sample_managed], rollback_backups := [sample_backup, sample_old_backup]\<rparr>"

definition sample_kept_world :: "content world" where
  "sample_kept_world = quiet_world [([''d''], Dir), ([''d'', ''client.db''], File (Database sample_kept_db)),
     ([''d'', ''backups''], Dir), ([''d'', ''backups'', ''old''], File (Bytes [1])),
     ([''d'', ''downloads''], Dir), ([''d'', ''downloads'', ''app_2.tmp''], File (Bytes [2]))] 0"

lemma sample_kept_hyps:
  "file_at sample_kept_world (db_path sample_settings) = Some (Database sample_kept_db)" "tidy sample_settings sample_kept_db"
  "find_first (\<lambda>b. mb_name b = ''app'') (managed_binaries sample_kept_db) = Some sample_managed" "quiet sample_kept_world"
  "newest_backups (mb_id sample_managed) sample_kept_db = [sample_backup, sample_old_backup]"
  by (simp_all add: sample_kept_world_def sample_kept_db_def file_at_def lookup_def db_path_def sample_settings_def quiet_def tidy_def
      sample_old_backup_def sample_backup_def path_of_def path_components_def sample_managed_def newest_backups_def sort_by_def str_cmp_def)


section \<open>Properties\<close>

text \<open>
  C36: the client's \<open>cleanup\<close> removes nothing that is still needed, whatever fails: only backups whose
  expiry lies in the past, with their files, unfinished downloads in the downloads directory, and entries of the history
  that are older than the given age. Managed binaries, installed versions, the configuration and every other file stay.
  A dry run changes nothing.
\<close>

theorem client_cleanup_spares:
  assumes "file_at w (db_path S) = Some (Database db)" "tidy S db" "run_cleanup_command L S M dry_run max_age_days w = (r, w')"
  shows "maintained S (expirable M db) (outdated M (case max_age_days of Some d \<Rightarrow> d | None \<Rightarrow> DEFAULT_HISTORY_AGE_DAYS)) db w w' \<and>
    (dry_run \<longrightarrow> file_at w' = file_at w)"
  using preservesD [OF preserves_run_cleanup [OF assms(2)] maintained_start [OF assms(1)] assms(3)]
    looksD [OF looks_dry_run] assms(3) by auto

theorem client_cleanup_spares_witness:
  "\<exists>r w'. run_cleanup_command sample_client_libs sample_settings sample_maint False None sample_kept_world = (r, w') \<and>
     maintained sample_settings (expirable sample_maint sample_kept_db) (outdated sample_maint DEFAULT_HISTORY_AGE_DAYS) sample_kept_db sample_kept_world w' \<and>
     sample_backup \<notin> expirable sample_maint sample_kept_db"
proof -
  obtain r w' where run: "run_cleanup_command sample_client_libs sample_settings sample_maint False None sample_kept_world = (r, w')" by fastforce
  have "sample_backup \<notin> expirable sample_maint sample_kept_db" by (simp add: expirable_def expiry_def sample_backup_def)
  then show ?thesis using client_cleanup_spares [OF sample_kept_hyps(1,2) run] run by auto
qed

text \<open>
  The client's \<open>prune-backups\<close> keeps the newest backups of the binary and those of all other binaries, whatever fails,
  and removes the file of a backup only with its record; when no operation fails, exactly these are left.
\<close>

theorem prune_backups_keeps_newest:
  assumes "file_at w (db_path S) = Some (Database db)" "tidy S db" "find_first (\<lambda>b. mb_name b = name) (managed_binaries db) = Some b"
    and "run_prune_backups S name keep dry_run w = (r, w')"
  shows "maintained S (set (drop keep (newest_backups (mb_id b) db))) {} db w w' \<and> (dry_run \<longrightarrow> file_at w' = file_at w) \<and>
    (quiet w \<and> 0 < keep \<and> \<not> dry_run \<longrightarrow> (\<exists>n. r = Inr n) \<and>
       backups_left S (filter (\<lambda>r. rb_id r \<notin> rb_id ` set (drop keep (newest_backups (mb_id b) db))) (rollback_backups db)) w')"
proof (intro conjI impI)
  show "maintained S (set (drop keep (newest_backups (mb_id b) db))) {} db w w'"
    using prune_backups_maintains [OF assms(1-3), of keep dry_run] assms(4) by (auto simp: wp_def split: sum.splits)
  show "file_at w' = file_at w" if dry_run
    using looksD [OF looks_dry_prune_backups] assms(4) that by auto
  assume q: "quiet w \<and> 0 < keep \<and> \<not> dry_run"
  then have "wp (run_prune_backups S name keep dry_run)
      (\<lambda>_. backups_left S (filter (\<lambda>r. rb_id r \<notin> rb_id ` set (drop keep (newest_backups (mb_id b) db))) (rollback_backups db))) (\<lambda>_ _. False) w"
    using prune_backups_exact [OF _ assms(1-3)] by simp
  then show "\<exists>n. r = Inr n"
    "backups_left S (filter (\<lambda>r. rb_id r \<notin> rb_id ` set (drop keep (newest_backups (mb_id b) db))) (rollback_backups db)) w'"
    using assms(4) by (auto simp: wp_def split: sum.splits)
qed

text \<open>
  \<open>add\<close> registers a binary only under a valid name nobody has, with the public key that is in the
  key file and the canonical path of an existing file; nothing else changes, and when it fails nothing does.
\<close>

theorem added_binary_registered:
  "case add_binary K L E S M name path public_key_file w of
     (Inr mb, w') \<Rightarrow> registration K E S M name path public_key_file w mb w'
   | (Inl _, w') \<Rightarrow> file_at w' = file_at w"
  using wp_add_binary [of K L E S M name path public_key_file w] by (simp add: wp_def split: prod.splits sum.splits)

end
