(* ===== verification/Publisher_Db.thy ===== *)
theory Publisher_Db
  imports Db_Ops
begin

text \<open>
  The publisher's database (\<open>crates/deltaship-db/src/publisher.rs\<close> on the tables of \<open>schema.rs\<close> and the
  rows of \<open>models.rs\<close>): binaries, their versions, and the jobs that compute diffs between versions. The
  state holds the rows in the order of insertion. An operation returns an error, and then the database
  is unchanged, or a result and the new database; the constraints of the schema are the errors of the
  inserting operations. Random identifiers and \<open>CURRENT_TIMESTAMP\<close> (\<open>now\<close>) are arguments, so that two
  generated identifiers may collide. Time stamps are compared as texts; rows with equal ones keep their
  order.
\<close>

section \<open>Rows\<close>

record db_binary =
  bin_id :: string
  bin_name :: string
  bin_platform :: string
  bin_path :: string
  bin_description :: "string option"
  bin_created_at :: string
  bin_updated_at :: string

record db_version =
  ver_id :: string
  ver_binary_id :: string
  ver_string :: string
  ver_file_path :: string
  ver_size_bytes :: int
  ver_blake3 :: bytes
  ver_sha256 :: bytes
  ver_signature :: "bytes option"
  ver_signature_timestamp :: "string option"
  ver_registered_at :: "string option"
  ver_published_at :: "string option"
  ver_is_published :: bool
  ver_created_at :: string

record db_diff_job =
  job_id :: string
  job_from :: string
  job_to :: string
  job_algorithm :: string
  job_status :: string
  job_diff_path :: "string option"
  job_diff_size :: "int option"
  job_diff_hash :: "bytes option"
  job_time_ms :: "int option"
  job_error :: "string option"
  job_created_at :: string
  job_started_at :: "string option"
  job_completed_at :: "string option"

record new_binary =
  nbin_name :: string
  nbin_platform :: string
  nbin_path :: string
  nbin_description :: "string option"

record new_version =
  nver_binary_id :: string
  nver_string :: string
  nver_file_path :: string
  nver_size_bytes :: int
  nver_blake3 :: bytes
  nver_sha256 :: bytes

record new_diff_job =
  njob_from :: string
  njob_to :: string
  njob_algorithm :: string


section \<open>The database\<close>

text \<open>A row of the configuration has its value, whether it is secret, and the time of its last change.
  The newest schema version is absent in a file without tables.\<close>

record publisher_db =
  p_schema :: "int option"
  p_config :: "(string \<times> string \<times> bool \<times> string) list"
  p_binaries :: "db_binary list"
  p_versions :: "db_version list"
  p_jobs :: "db_diff_job list"

type_synonym 'a pub_op = "(publisher_db, 'a) dbm"

definition PUBLISHER_SCHEMA_VERSION :: int where
  "PUBLISHER_SCHEMA_VERSION = 1"

definition DEFAULT_PUBLISHER_CONFIG :: "(string \<times> string \<times> bool) list" where
  "DEFAULT_PUBLISHER_CONFIG =
     [(''server_url'', ''https://updates.example.com'', False), (''publisher_name'', [], False), (''api_key'', [], True),
      (''public_key_path'', ''.deltaship/keys/public.key'', False),
      (''private_key_path'', ''.deltaship/keys/private.key'', True)]"

text \<open>A file \<open>open\<close> has just created.\<close>

definition empty_publisher_db :: publisher_db where
  "empty_publisher_db = \<lparr>p_schema = None, p_config = [], p_binaries = [], p_versions = [], p_jobs = []\<rparr>"

definition insert_default_config :: "string \<Rightarrow> string \<times> string \<times> bool
   \<Rightarrow> (string \<times> string \<times> bool \<times> string) list \<Rightarrow> (string \<times> string \<times> bool \<times> string) list" where
  "insert_default_config now = (\<lambda>(k, v, secret) c. if map_of c k = None then upd k (v, secret, now) c else c)"

text \<open>\<open>integrity\<close> is what \<open>PRAGMA integrity_check\<close> answers.\<close>

definition init_publisher_db :: "string \<Rightarrow> string \<Rightarrow> unit pub_op" where
  "init_publisher_db integrity now db =
     (if integrity \<noteq> ''ok'' then Inl (DbInvalidData (''Database corruption detected: '' @ integrity))
      else case p_schema db of
        Some v \<Rightarrow>
          if v > PUBLISHER_SCHEMA_VERSION then Inl (DbSchemaMismatch ''Database schema version is newer than expected'')
          else if v = PUBLISHER_SCHEMA_VERSION then Inr ((), db)
          else Inl (DbSchemaMismatch ''Database schema version is older than expected'')
      | None \<Rightarrow> Inr ((), db\<lparr>p_schema := Some 1,
          p_config := fold (insert_default_config now) DEFAULT_PUBLISHER_CONFIG (p_config db)\<rparr>))"


section \<open>Configuration\<close>

definition get_publisher_config :: "string \<Rightarrow> string option pub_op" where
  "get_publisher_config key db = Inr (map_option fst (map_of (p_config db) key), db)"

definition set_publisher_config :: "string \<Rightarrow> string \<Rightarrow> string \<Rightarrow> unit pub_op" where
  "set_publisher_config now key value db =
     (let secret = (case map_of (p_config db) key of Some (_, s, _) \<Rightarrow> s | None \<Rightarrow> False) in
      Inr ((), db\<lparr>p_config := upd key (value, secret, now) (p_config db)\<rparr>))"


section \<open>Binaries\<close>

text \<open>What the file system answers about the path of a binary, in the order of the questions.\<close>

record path_probe =
  probe_exists :: bool
  probe_canonical :: "string option"
  probe_is_file :: bool
  probe_readable :: bool

definition get_db_binary :: "string \<Rightarrow> db_binary option pub_op" where
  "get_db_binary bid db = Inr (find_first (\<lambda>b. bin_id b = bid) (p_binaries db), db)"

definition get_db_binary_by_name :: "string \<Rightarrow> string \<Rightarrow> db_binary option pub_op" where
  "get_db_binary_by_name name plat db =
     Inr (find_first (\<lambda>b. bin_name b = name \<and> bin_platform b = plat) (p_binaries db), db)"

definition insert_binary_row :: "db_binary \<Rightarrow> unit pub_op" where
  "insert_binary_row row db =
     (if \<exists>b \<in> set (p_binaries db). bin_id b = bin_id row \<or> bin_name b = bin_name row \<and> bin_platform b = bin_platform row
      then Inl (DbDuplicate ''UNIQUE constraint failed: binaries'')
      else Inr ((), db\<lparr>p_binaries := p_binaries db @ [row]\<rparr>))"

definition validate_binary_path :: "path_probe \<Rightarrow> db_error + string" where
  "validate_binary_path pr =
     (if \<not> probe_exists pr then Inl (DbInvalidData ''Binary path does not exist'')
      else case probe_canonical pr of
        None \<Rightarrow> Inl (DbInvalidData ''Failed to canonicalize binary path'')
      | Some canonical_path \<Rightarrow>
          if \<not> probe_is_file pr then Inl (DbInvalidData ''Binary path is not a file'')
          else if \<not> probe_readable pr then Inl (DbInvalidData ''Binary file is not readable'')
          else Inr canonical_path)"

definition insert_binary :: "path_probe \<Rightarrow> string \<Rightarrow> string \<Rightarrow> new_binary \<Rightarrow> db_binary pub_op" where
  "insert_binary pr uuid now b =
     check_db (validate_platform (nbin_platform b)) (\<lambda>db.
     case validate_binary_path pr of Inl e \<Rightarrow> Inl e
     | Inr canonical_path \<Rightarrow>
         bind_db (insert_binary_row \<lparr>bin_id = uuid, bin_name = nbin_name b, bin_platform = nbin_platform b,
            bin_path = canonical_path, bin_description = nbin_description b, bin_created_at = now,
            bin_updated_at = now\<rparr>) (\<lambda>_.
         bind_db (get_db_binary uuid) (found_db (DbNotFound ''Binary just inserted not found''))) db)"

definition binaries_by_name :: "publisher_db \<Rightarrow> db_binary list" where
  "binaries_by_name db = sort_by (\<lambda>a b. str_cmp (bin_name a) (bin_name b)) (p_binaries db)"

definition list_db_binaries :: "db_binary list pub_op" where
  "list_db_binaries db = Inr (binaries_by_name db, db)"

definition list_db_binaries_paginated :: "int \<Rightarrow> int \<Rightarrow> db_binary list pub_op" where
  "list_db_binaries_paginated limit offset = page_db limit offset binaries_by_name"


section \<open>Versions\<close>

definition get_db_version :: "string \<Rightarrow> db_version option pub_op" where
  "get_db_version vid db = Inr (find_first (\<lambda>v. ver_id v = vid) (p_versions db), db)"

definition get_version_by_string :: "string \<Rightarrow> string \<Rightarrow> db_version option pub_op" where
  "get_version_by_string bid vs db =
     Inr (find_first (\<lambda>v. ver_binary_id v = bid \<and> ver_string v = vs) (p_versions db), db)"

definition insert_version_row :: "db_version \<Rightarrow> unit pub_op" where
  "insert_version_row row db =
     (if \<exists>v \<in> set (p_versions db). ver_id v = ver_id row \<or> ver_binary_id v = ver_binary_id row \<and> ver_string v = ver_string row
      then Inl (DbDuplicate ''UNIQUE constraint failed: versions'')
      else if \<forall>b \<in> set (p_binaries db). bin_id b \<noteq> ver_binary_id row
      then Inl (DbConstraint ''Foreign key constraint violation'')
      else Inr ((), db\<lparr>p_versions := p_versions db @ [row]\<rparr>))"

definition insert_version :: "(string \<Rightarrow> string + version) \<Rightarrow> string \<Rightarrow> string \<Rightarrow> new_version \<Rightarrow> db_version pub_op" where
  "insert_version parse uuid now v =
     check_db (validate_hash_size (nver_blake3 v) BLAKE3_HASH_SIZE ''Blake3'')
     (check_db (validate_hash_size (nver_sha256 v) SHA256_HASH_SIZE ''SHA-256'') (\<lambda>db.
     case normalize_version_string parse (nver_string v) of Inl e \<Rightarrow> Inl e
     | Inr normalized_version \<Rightarrow>
         bind_db (insert_version_row \<lparr>ver_id = uuid, ver_binary_id = nver_binary_id v, ver_string = normalized_version,
            ver_file_path = nver_file_path v, ver_size_bytes = nver_size_bytes v, ver_blake3 = nver_blake3 v,
            ver_sha256 = nver_sha256 v, ver_signature = None, ver_signature_timestamp = None,
            ver_registered_at = None, ver_published_at = None, ver_is_published = False, ver_created_at = now\<rparr>) (\<lambda>_.
         bind_db (get_db_version uuid) (found_db (DbNotFound ''Version just inserted not found''))) db))"

definition newest_versions :: "string \<Rightarrow> publisher_db \<Rightarrow> db_version list" where
  "newest_versions bid db = sort_by (\<lambda>a b. str_cmp (ver_created_at b) (ver_created_at a))
     (filter (\<lambda>v. ver_binary_id v = bid) (p_versions db))"

definition list_db_versions :: "string \<Rightarrow> db_version list pub_op" where
  "list_db_versions bid db = Inr (newest_versions bid db, db)"

definition list_db_versions_paginated :: "string \<Rightarrow> int \<Rightarrow> int \<Rightarrow> db_version list pub_op" where
  "list_db_versions_paginated bid limit offset = page_db limit offset (newest_versions bid)"

text \<open>An \<open>UPDATE\<close> of the row of a version; no affected row is an error.\<close>

definition update_version :: "string \<Rightarrow> (db_version \<Rightarrow> db_version) \<Rightarrow> unit pub_op" where
  "update_version vid f db =
     (if \<forall>v \<in> set (p_versions db). ver_id v \<noteq> vid then Inl (DbNotFound (''Version not found: '' @ vid))
      else Inr ((), db\<lparr>p_versions := update_where (\<lambda>v. ver_id v = vid) f (p_versions db)\<rparr>))"

definition set_version_signature :: "string \<Rightarrow> bytes \<Rightarrow> string \<Rightarrow> unit pub_op" where
  "set_version_signature vid sig timestamp =
     update_version vid (\<lambda>v. v\<lparr>ver_signature := Some sig, ver_signature_timestamp := Some timestamp\<rparr>)"

definition set_version_published :: "string \<Rightarrow> string \<Rightarrow> unit pub_op" where
  "set_version_published now vid =
     update_version vid (\<lambda>v. v\<lparr>ver_is_published := True, ver_published_at := Some now\<rparr>)"

definition set_version_unpublished :: "string \<Rightarrow> unit pub_op" where
  "set_version_unpublished vid =
     update_version vid (\<lambda>v. v\<lparr>ver_is_published := False, ver_published_at := None\<rparr>)"

definition update_version_hashes :: "string \<Rightarrow> bytes \<Rightarrow> bytes \<Rightarrow> int \<Rightarrow> unit pub_op" where
  "update_version_hashes vid b3 sha n =
     check_db (validate_hash_size b3 BLAKE3_HASH_SIZE ''Blake3'')
     (check_db (validate_hash_size sha SHA256_HASH_SIZE ''SHA-256'')
     (update_version vid (\<lambda>v. v\<lparr>ver_blake3 := b3, ver_sha256 := sha, ver_size_bytes := n\<rparr>)))"


section \<open>Diff jobs\<close>

definition get_diff_job :: "string \<Rightarrow> db_diff_job option pub_op" where
  "get_diff_job jid db = Inr (find_first (\<lambda>j. job_id j = jid) (p_jobs db), db)"

definition same_job :: "new_diff_job \<Rightarrow> db_diff_job \<Rightarrow> bool" where
  "same_job j r \<longleftrightarrow> job_from r = njob_from j \<and> job_to r = njob_to j \<and> job_algorithm r = njob_algorithm j"

definition find_diff_job :: "new_diff_job \<Rightarrow> db_diff_job option pub_op" where
  "find_diff_job j db = Inr (find_first (same_job j) (p_jobs db), db)"

text \<open>The checks before a job is inserted.\<close>

definition check_job :: "new_diff_job \<Rightarrow> unit pub_op" where
  "check_job j =
     bind_db (bind_db (get_db_version (njob_from j)) (found_db (DbNotFound (''From version not found: '' @ njob_from j)))) (\<lambda>from_version.
     bind_db (bind_db (get_db_version (njob_to j)) (found_db (DbNotFound (''To version not found: '' @ njob_to j)))) (\<lambda>to_version.
     if ver_binary_id from_version \<noteq> ver_binary_id to_version
     then fail_db (DbInvalidData ''Cannot create diff job: versions belong to different binaries'')
     else check_db (validate_diff_algorithm (njob_algorithm j)) (return_db ())))"

text \<open>The \<open>INSERT\<close> itself: whether a \<open>UNIQUE\<close> constraint is violated. The foreign keys have just been
  checked.\<close>

definition insert_job_row :: "string \<Rightarrow> string \<Rightarrow> new_diff_job \<Rightarrow> bool pub_op" where
  "insert_job_row uuid now j db =
     (if \<exists>r \<in> set (p_jobs db). job_id r = uuid \<or> same_job j r then Inr (False, db)
      else Inr (True, db\<lparr>p_jobs := p_jobs db @
        [\<lparr>job_id = uuid, job_from = njob_from j, job_to = njob_to j, job_algorithm = njob_algorithm j,
          job_status = diff_job_status_as_str JobPending, job_diff_path = None, job_diff_size = None, job_diff_hash = None,
          job_time_ms = None, job_error = None, job_created_at = now, job_started_at = None,
          job_completed_at = None\<rparr>]\<rparr>))"

definition inserted_job :: "string \<Rightarrow> db_diff_job pub_op" where
  "inserted_job uuid = bind_db (get_diff_job uuid) (found_db (DbNotFound ''Diff job just inserted not found''))"

definition insert_diff_job :: "string \<Rightarrow> string \<Rightarrow> new_diff_job \<Rightarrow> db_diff_job pub_op" where
  "insert_diff_job uuid now j =
     bind_db (check_job j) (\<lambda>_.
     bind_db (insert_job_row uuid now j) (\<lambda>inserted.
     if inserted then inserted_job uuid else fail_db (DbDuplicate ''UNIQUE constraint failed: diff_jobs'')))"

definition insert_or_get_diff_job :: "string \<Rightarrow> string \<Rightarrow> new_diff_job \<Rightarrow> db_diff_job pub_op" where
  "insert_or_get_diff_job uuid now j =
     bind_db (check_job j) (\<lambda>_.
     bind_db (insert_job_row uuid now j) (\<lambda>inserted.
     if inserted then inserted_job uuid
     else bind_db (find_diff_job j)
            (found_db (DbNotFound ''Duplicate constraint violation but existing job not found''))))"

definition list_diff_jobs_by_status :: "diff_job_status \<Rightarrow> db_diff_job list pub_op" where
  "list_diff_jobs_by_status st db =
     Inr (sort_by (\<lambda>a b. str_cmp (job_created_at a) (job_created_at b))
       (filter (\<lambda>j. job_status j = diff_job_status_as_str st) (p_jobs db)), db)"

definition update_job :: "string \<Rightarrow> (db_diff_job \<Rightarrow> db_diff_job) \<Rightarrow> unit pub_op" where
  "update_job jid f db =
     (if \<forall>j \<in> set (p_jobs db). job_id j \<noteq> jid then Inl (DbNotFound (''Diff job not found: '' @ jid))
      else Inr ((), db\<lparr>p_jobs := update_where (\<lambda>j. job_id j = jid) f (p_jobs db)\<rparr>))"

definition set_diff_job_running :: "string \<Rightarrow> string \<Rightarrow> unit pub_op" where
  "set_diff_job_running now jid =
     update_job jid (\<lambda>j. j\<lparr>job_status := diff_job_status_as_str JobRunning, job_started_at := Some now\<rparr>)"

definition set_diff_job_completed :: "string \<Rightarrow> string \<Rightarrow> string \<Rightarrow> int \<Rightarrow> bytes \<Rightarrow> int \<Rightarrow> unit pub_op" where
  "set_diff_job_completed now jid p n b3 ms =
     check_db (validate_hash_size b3 BLAKE3_HASH_SIZE ''Diff Blake3'')
     (update_job jid (\<lambda>j. j\<lparr>job_status := diff_job_status_as_str JobCompleted, job_diff_path := Some p,
        job_diff_size := Some n, job_diff_hash := Some b3, job_time_ms := Some ms, job_completed_at := Some now\<rparr>))"

definition set_diff_job_failed :: "string \<Rightarrow> string \<Rightarrow> string \<Rightarrow> unit pub_op" where
  "set_diff_job_failed now jid msg =
     update_job jid (\<lambda>j. j\<lparr>job_status := diff_job_status_as_str JobFailed, job_error := Some msg,
        job_completed_at := Some now\<rparr>)"

text \<open>\<open>add_minutes\<close> is \<open>datetime(t, '+n minutes')\<close> of SQLite, which is \<open>NULL\<close> if \<open>t\<close> is no time stamp.\<close>

definition is_stale :: "(string \<Rightarrow> int \<Rightarrow> string option) \<Rightarrow> string \<Rightarrow> int \<Rightarrow> db_diff_job \<Rightarrow> bool" where
  "is_stale add_minutes now timeout_minutes j \<longleftrightarrow>
     job_status j = diff_job_status_as_str JobRunning \<and>
     (case job_started_at j of None \<Rightarrow> False
      | Some t \<Rightarrow> (case add_minutes t timeout_minutes of None \<Rightarrow> False | Some limit \<Rightarrow> str_cmp limit now = Less))"

definition reset_stale_diff_jobs :: "(string \<Rightarrow> int \<Rightarrow> string option) \<Rightarrow> string \<Rightarrow> int \<Rightarrow> nat pub_op" where
  "reset_stale_diff_jobs add_minutes now timeout_minutes db =
     (let stale = is_stale add_minutes now timeout_minutes in
      Inr (length (filter stale (p_jobs db)),
        db\<lparr>p_jobs := update_where stale (\<lambda>j. j\<lparr>job_status := diff_job_status_as_str JobPending, job_started_at := None,
          job_error := Some ''Reset from stale running state''\<rparr>) (p_jobs db)\<rparr>))"


section \<open>Garbage collection\<close>

text \<open>\<open>listing\<close> is the content of the directory: \<open>None\<close> if it does not exist, otherwise whether it can
  be read, and for each entry whether it can be read, its path, and whether it is a file.\<close>

definition known_diff_files :: "publisher_db \<Rightarrow> string list" where
  "known_diff_files db = List.map_filter job_diff_path
     (filter (\<lambda>j. job_status j = diff_job_status_as_str JobCompleted) (p_jobs db))"

fun orphans_among :: "string list \<Rightarrow> (string \<times> bool) option list \<Rightarrow> db_error + string list" where
  "orphans_among known [] = Inr []"
| "orphans_among known (None # es) = Inl (DbIo ''directory entry'')"
| "orphans_among known (Some (p, is_file) # es) =
     (case orphans_among known es of Inl e \<Rightarrow> Inl e
      | Inr ps \<Rightarrow> Inr (if is_file \<and> p \<notin> set known then p # ps else ps))"

definition find_orphaned_diff_files :: "((string \<times> bool) option list option) option \<Rightarrow> string list pub_op" where
  "find_orphaned_diff_files listing db =
     (case listing of None \<Rightarrow> Inr ([], db)
      | Some None \<Rightarrow> Inl (DbIo ''Failed to read diff directory'')
      | Some (Some es) \<Rightarrow>
          (case orphans_among (known_diff_files db) es of Inl e \<Rightarrow> Inl e | Inr ps \<Rightarrow> Inr (ps, db)))"

definition delete_diff_job :: "string \<Rightarrow> bool pub_op" where
  "delete_diff_job jid db =
     Inr (\<exists>j \<in> set (p_jobs db). job_id j = jid, db\<lparr>p_jobs := filter (\<lambda>j. job_id j \<noteq> jid) (p_jobs db)\<rparr>)"

definition uses_version :: "string \<Rightarrow> db_diff_job \<Rightarrow> bool" where
  "uses_version vid j \<longleftrightarrow> job_from j = vid \<or> job_to j = vid"

text \<open>The deletion of a version cascades to the jobs.\<close>

definition delete_db_version :: "string \<Rightarrow> bool pub_op" where
  "delete_db_version vid db =
     Inr (\<exists>v \<in> set (p_versions db). ver_id v = vid,
       db\<lparr>p_versions := filter (\<lambda>v. ver_id v \<noteq> vid) (p_versions db),
          p_jobs := filter (\<lambda>j. \<not> uses_version vid j) (p_jobs db)\<rparr>)"

definition delete_diff_jobs_for_version :: "string \<Rightarrow> nat pub_op" where
  "delete_diff_jobs_for_version vid db =
     Inr (length (filter (uses_version vid) (p_jobs db)),
       db\<lparr>p_jobs := filter (\<lambda>j. \<not> uses_version vid j) (p_jobs db)\<rparr>)"


section \<open>The invariant of the database\<close>

text \<open>The constraints of the schema and what the checks of the operations add to them: the texts of
  versions are normalised, a job joins two versions of one binary, and what a status promises about the
  other columns of a job.\<close>

definition release_version :: "(string \<Rightarrow> string + version) \<Rightarrow> string \<Rightarrow> bool" where
  "release_version parse s \<longleftrightarrow>
     (case parse s of Inl _ \<Rightarrow> False | Inr v \<Rightarrow> \<not> (major v = 0 \<and> minor v = 0 \<and> patch v = 0)) \<and> length s \<le> 255"

definition version_ok :: "(string \<Rightarrow> string + version) \<Rightarrow> db_version \<Rightarrow> bool" where
  "version_ok parse v \<longleftrightarrow> release_version parse (ver_string v) \<and> length (ver_blake3 v) = 32 \<and>
     length (ver_sha256 v) = 32 \<and> (ver_is_published v \<longleftrightarrow> ver_published_at v \<noteq> None)"

definition job_ok :: "db_diff_job \<Rightarrow> bool" where
  "job_ok j \<longleftrightarrow> to_lowercase (job_algorithm j) \<in> set KNOWN_DIFF_ALGORITHMS \<and>
     (\<exists>st. job_status j = diff_job_status_as_str st \<and>
       (st = JobRunning \<longrightarrow> job_started_at j \<noteq> None) \<and>
       (st = JobFailed \<longrightarrow> job_error j \<noteq> None \<and> job_completed_at j \<noteq> None) \<and>
       (st = JobCompleted \<longrightarrow> job_diff_path j \<noteq> None \<and> job_diff_size j \<noteq> None \<and> job_completed_at j \<noteq> None \<and>
          (\<exists>h. job_diff_hash j = Some h \<and> length h = 32)))"

definition joins_versions :: "db_version list \<Rightarrow> db_diff_job \<Rightarrow> bool" where
  "joins_versions vs j \<longleftrightarrow>
     (\<exists>a \<in> set vs. \<exists>b \<in> set vs. ver_id a = job_from j \<and> ver_id b = job_to j \<and> ver_binary_id a = ver_binary_id b)"

definition job_key :: "db_diff_job \<Rightarrow> string \<times> string \<times> string" where
  "job_key j = (job_from j, job_to j, job_algorithm j)"

definition wf_publisher :: "(string \<Rightarrow> string + version) \<Rightarrow> publisher_db \<Rightarrow> bool" where
  "wf_publisher parse db \<longleftrightarrow>
     distinct (map fst (p_config db)) \<and>
     distinct (map bin_id (p_binaries db)) \<and> distinct (map (\<lambda>b. (bin_name b, bin_platform b)) (p_binaries db)) \<and>
     (\<forall>b \<in> set (p_binaries db). validate_platform (bin_platform b) = Inr ()) \<and>
     distinct (map ver_id (p_versions db)) \<and> distinct (map (\<lambda>v. (ver_binary_id v, ver_string v)) (p_versions db)) \<and>
     (\<forall>v \<in> set (p_versions db). version_ok parse v \<and> ver_binary_id v \<in> bin_id ` set (p_binaries db)) \<and>
     distinct (map job_id (p_jobs db)) \<and> distinct (map job_key (p_jobs db)) \<and>
     (\<forall>j \<in> set (p_jobs db). job_ok j \<and> joins_versions (p_versions db) j)"

lemma normalize_release: "normalize_version_string parse s = Inr n \<Longrightarrow> release_version parse n"
  by (auto simp: normalize_version_string_def release_version_def Let_def not_less split: if_splits sum.splits)

interpretation publisher: db_invariant "wf_publisher parse" for parse .

abbreviation keeps_pub :: "(string \<Rightarrow> string + version) \<Rightarrow> 'a pub_op \<Rightarrow> bool" where
  "keeps_pub parse \<equiv> publisher.keeps_op parse"

lemma keeps_queries [intro]:
  "keeps_pub parse (get_db_binary bid)" "keeps_pub parse (get_db_version vid)" "keeps_pub parse (get_diff_job jid)"
  "keeps_pub parse (find_diff_job j)" "keeps_pub parse (found_db e r)" "keeps_pub parse (fail_db e')" "keeps_pub parse (return_db u)"
  by (rule publisher.keeps_db_read; simp add: get_db_binary_def get_db_version_def get_diff_job_def find_diff_job_def
      fail_db_def return_db_def)+

lemma distinct_map_snoc:
  "distinct (map key (xs @ [r])) \<longleftrightarrow> distinct (map key xs) \<and> (\<forall>x \<in> set xs. key x \<noteq> key r)"
  by (induction xs) auto

lemma keeps_binary_row:
  assumes "validate_platform (bin_platform row) = Inr ()"
  shows "keeps_pub parse (insert_binary_row row)"
proof (rule publisher.keeps_opI)
  fix db x db'
  assume wf: "wf_publisher parse db" and run: "insert_binary_row row db = Inr (x, db')"
  then have db': "db' = db\<lparr>p_binaries := p_binaries db @ [row]\<rparr>"
    and new: "\<forall>b \<in> set (p_binaries db). bin_id b \<noteq> bin_id row \<and> \<not> (bin_name b = bin_name row \<and> bin_platform b = bin_platform row)"
    by (auto simp: insert_binary_row_def split: if_splits)
  show "wf_publisher parse db'"
    using wf new assms unfolding wf_publisher_def db' by (simp add: distinct_map_snoc del: map_append)
qed

lemma joins_versions_mono: "joins_versions vs j \<Longrightarrow> set vs \<subseteq> set vs' \<Longrightarrow> joins_versions vs' j"
  unfolding joins_versions_def by blast

lemma keeps_version_row:
  assumes "version_ok parse row"
  shows "keeps_pub parse (insert_version_row row)"
proof (rule publisher.keeps_opI)
  fix db x db'
  assume wf: "wf_publisher parse db" and run: "insert_version_row row db = Inr (x, db')"
  then have db': "db' = db\<lparr>p_versions := p_versions db @ [row]\<rparr>"
    and new: "\<forall>v \<in> set (p_versions db). ver_id v \<noteq> ver_id row \<and> \<not> (ver_binary_id v = ver_binary_id row \<and> ver_string v = ver_string row)"
    and "\<exists>b \<in> set (p_binaries db). bin_id b = ver_binary_id row"
    by (auto simp: insert_version_row_def split: if_splits)
  then have owner: "ver_binary_id row \<in> bin_id ` set (p_binaries db)" by (metis image_eqI)
  have "\<forall>j \<in> set (p_jobs db). joins_versions (p_versions db @ [row]) j"
    using wf by (auto simp: wf_publisher_def elim!: joins_versions_mono)
  then show "wf_publisher parse db'"
    using wf new assms owner unfolding wf_publisher_def db' by (simp add: distinct_map_snoc del: map_append)
qed

lemma joins_update_versions:
  assumes "\<And>v. ver_id (f v) = ver_id v" "\<And>v. ver_binary_id (f v) = ver_binary_id v"
  shows "joins_versions (update_where P f vs) j = joins_versions vs j"
proof -
  define g where "g = (\<lambda>v. if P v then f v else v)"
  have "ver_id (g v) = ver_id v" "ver_binary_id (g v) = ver_binary_id v" for v
    using assms by (simp_all add: g_def)
  then show ?thesis by (simp add: joins_versions_def update_where_def g_def [symmetric])
qed

lemma keeps_update_version:
  assumes f: "\<And>v. ver_id (f v) = ver_id v" "\<And>v. ver_binary_id (f v) = ver_binary_id v" "\<And>v. ver_string (f v) = ver_string v"
    and ok: "\<And>v. version_ok parse v \<Longrightarrow> version_ok parse (f v)"
  shows "keeps_pub parse (update_version vid f)"
proof (rule publisher.keeps_opI)
  fix db x db'
  assume wf: "wf_publisher parse db" and "update_version vid f db = Inr (x, db')"
  then have db': "db' = db\<lparr>p_versions := update_where (\<lambda>v. ver_id v = vid) f (p_versions db)\<rparr>"
    by (auto simp: update_version_def split: if_splits)
  have "\<forall>v \<in> set (update_where (\<lambda>v. ver_id v = vid) f (p_versions db)).
      version_ok parse v \<and> ver_binary_id v \<in> bin_id ` set (p_binaries db)"
    by (rule ball_update_where) (use wf ok f in \<open>auto simp: wf_publisher_def\<close>)
  then show "wf_publisher parse db'"
    using wf unfolding wf_publisher_def db' by (simp add: map_update_where joins_update_versions f)
qed

lemma keeps_update_jobs:
  assumes wf: "wf_publisher parse db"
    and f: "\<And>j. job_id (f j) = job_id j" "\<And>j. job_key (f j) = job_key j"
    and ok: "\<And>j. P j \<Longrightarrow> job_ok j \<Longrightarrow> job_ok (f j)"
  shows "wf_publisher parse (db\<lparr>p_jobs := update_where P f (p_jobs db)\<rparr>)"
proof -
  have j: "joins_versions vs (f j) = joins_versions vs j" for vs j
    using f(2) [of j] by (simp add: joins_versions_def job_key_def)
  have "\<forall>j \<in> set (update_where P f (p_jobs db)). job_ok j \<and> joins_versions (p_versions db) j"
    by (rule ball_update_where) (use wf ok j in \<open>auto simp: wf_publisher_def\<close>)
  then show ?thesis
    using wf unfolding wf_publisher_def by (simp add: map_update_where f)
qed

lemma keeps_update_job:
  assumes "\<And>j. job_id (f j) = job_id j" "\<And>j. job_key (f j) = job_key j" "\<And>j. job_ok j \<Longrightarrow> job_ok (f j)"
  shows "keeps_pub parse (update_job jid f)"
  by (rule publisher.keeps_opI) (auto simp: update_job_def split: if_splits intro!: keeps_update_jobs assms)

lemma status_eq_iff [simp]: "diff_job_status_as_str a = diff_job_status_as_str b \<longleftrightarrow> a = b"
  by (cases a; cases b) simp_all

lemma job_ok_status:
  assumes "job_status j = diff_job_status_as_str st"
  shows "job_ok j \<longleftrightarrow> to_lowercase (job_algorithm j) \<in> set KNOWN_DIFF_ALGORITHMS \<and>
       (st = JobRunning \<longrightarrow> job_started_at j \<noteq> None) \<and>
       (st = JobFailed \<longrightarrow> job_error j \<noteq> None \<and> job_completed_at j \<noteq> None) \<and>
       (st = JobCompleted \<longrightarrow> job_diff_path j \<noteq> None \<and> job_diff_size j \<noteq> None \<and> job_completed_at j \<noteq> None \<and>
          (\<exists>h. job_diff_hash j = Some h \<and> length h = 32))"
  unfolding job_ok_def using assms by simp

lemma job_ok_algorithm: "job_ok j \<Longrightarrow> to_lowercase (job_algorithm j) \<in> set KNOWN_DIFF_ALGORITHMS"
  by (simp add: job_ok_def)

lemma check_job_ok:
  "check_job j db = Inr (u, db') \<longleftrightarrow> db' = db \<and> to_lowercase (njob_algorithm j) \<in> set KNOWN_DIFF_ALGORITHMS \<and>
     (\<exists>a b. find_first (\<lambda>v. ver_id v = njob_from j) (p_versions db) = Some a \<and>
        find_first (\<lambda>v. ver_id v = njob_to j) (p_versions db) = Some b \<and> ver_binary_id a = ver_binary_id b)"
  by (auto simp: check_job_def get_db_version_def fail_db_def check_db_def return_db_def validate_diff_algorithm_def)

lemma insert_job_row_wf:
  assumes wf: "wf_publisher parse db" and c: "check_job j db = Inr (u, db1)"
    and run: "insert_job_row uuid now j db1 = Inr (r, db2)"
  shows "wf_publisher parse db2"
proof -
  obtain a b where ab: "find_first (\<lambda>v. ver_id v = njob_from j) (p_versions db) = Some a"
      "find_first (\<lambda>v. ver_id v = njob_to j) (p_versions db) = Some b" "ver_binary_id a = ver_binary_id b"
    and alg: "to_lowercase (njob_algorithm j) \<in> set KNOWN_DIFF_ALGORITHMS" and db1: "db1 = db"
    using c unfolding check_job_ok by blast
  show ?thesis
  proof (cases r)
    case True
    then obtain row where db2: "db2 = db\<lparr>p_jobs := p_jobs db @ [row]\<rparr>" and ok: "job_ok row"
        and row: "job_id row = uuid" "job_from row = njob_from j" "job_to row = njob_to j" "job_algorithm row = njob_algorithm j"
      using run alg unfolding db1 by (auto simp: insert_job_row_def job_ok_status [of _ JobPending] split: if_splits)
    have new: "\<forall>x \<in> set (p_jobs db). job_id x \<noteq> job_id row \<and> job_key x \<noteq> job_key row"
      using run True unfolding db1 by (auto simp: insert_job_row_def same_job_def job_key_def row split: if_splits)
    have "joins_versions (p_versions db) row"
      unfolding joins_versions_def row using ab by (auto dest!: find_first_Some)
    then show ?thesis
      using wf new ok unfolding wf_publisher_def db2 by (simp add: distinct_map_snoc del: map_append)
  next
    case False
    then show ?thesis using wf run unfolding db1 by (auto simp: insert_job_row_def split: if_splits)
  qed
qed

lemma keeps_insert_job:
  assumes "\<And>i. keeps_pub parse (rest i)"
  shows "keeps_pub parse (bind_db (check_job j) (\<lambda>_. bind_db (insert_job_row uuid now j) rest))"
proof (rule publisher.keeps_opI)
  fix db x db'
  assume wf: "wf_publisher parse db"
    and "bind_db (check_job j) (\<lambda>_. bind_db (insert_job_row uuid now j) rest) db = Inr (x, db')"
  then obtain u db1 i db2 where run: "check_job j db = Inr (u, db1)" "insert_job_row uuid now j db1 = Inr (i, db2)"
      "rest i db2 = Inr (x, db')"
    by auto
  show "wf_publisher parse db'"
    by (rule publisher.keeps_opD [OF assms insert_job_row_wf [OF wf run(1,2)] run(3)])
qed

lemma keeps_insert_diff_jobs:
  "keeps_pub parse (insert_diff_job uuid now j)" "keeps_pub parse (insert_or_get_diff_job uuid now j)"
  unfolding insert_diff_job_def insert_or_get_diff_job_def inserted_job_def
  by (rule keeps_insert_job, simp only: split: if_split,
      intro conjI impI publisher.keeps_db_bind keeps_queries)+

lemma keeps_insert_binary: "keeps_pub parse (insert_binary pr uuid now b)"
  unfolding insert_binary_def
proof (rule publisher.keeps_db_check)
  assume "validate_platform (nbin_platform b) = Inr ()"
  then have "keeps_pub parse (insert_binary_row \<lparr>bin_id = uuid, bin_name = nbin_name b, bin_platform = nbin_platform b,
      bin_path = p, bin_description = nbin_description b, bin_created_at = now, bin_updated_at = now\<rparr>)" for p
    by (intro keeps_binary_row) simp
  then show "keeps_pub parse (\<lambda>db. case validate_binary_path pr of Inl e \<Rightarrow> Inl e | Inr canonical_path \<Rightarrow>
     bind_db (insert_binary_row \<lparr>bin_id = uuid, bin_name = nbin_name b, bin_platform = nbin_platform b,
       bin_path = canonical_path, bin_description = nbin_description b, bin_created_at = now, bin_updated_at = now\<rparr>)
     (\<lambda>_. bind_db (get_db_binary uuid) (found_db (DbNotFound ''Binary just inserted not found''))) db)"
    by (cases "validate_binary_path pr")
       (auto intro!: publisher.keeps_db_bind keeps_queries simp: publisher.keeps_op_def [of _ "\<lambda>_. Inl _"])
qed

lemma keeps_insert_version: "keeps_pub parse (insert_version parse uuid now v)"
  unfolding insert_version_def
proof (intro publisher.keeps_db_check)
  let ?row = "\<lambda>s. \<lparr>ver_id = uuid, ver_binary_id = nver_binary_id v, ver_string = s,
            ver_file_path = nver_file_path v, ver_size_bytes = nver_size_bytes v, ver_blake3 = nver_blake3 v,
            ver_sha256 = nver_sha256 v, ver_signature = None, ver_signature_timestamp = None,
            ver_registered_at = None, ver_published_at = None, ver_is_published = False, ver_created_at = now\<rparr>"
  assume "validate_hash_size (nver_blake3 v) BLAKE3_HASH_SIZE ''Blake3'' = Inr ()"
    and "validate_hash_size (nver_sha256 v) SHA256_HASH_SIZE ''SHA-256'' = Inr ()"
  then have "keeps_pub parse (insert_version_row (?row s))" if "release_version parse s" for s
    using that by (intro keeps_version_row)
      (auto simp: version_ok_def validate_hash_size_def BLAKE3_HASH_SIZE_def SHA256_HASH_SIZE_def split: if_splits)
  then show "keeps_pub parse (\<lambda>db. case normalize_version_string parse (nver_string v) of Inl e \<Rightarrow> Inl e
     | Inr s \<Rightarrow> bind_db (insert_version_row (?row s)) (\<lambda>_.
         bind_db (get_db_version uuid) (found_db (DbNotFound ''Version just inserted not found''))) db)"
    by (cases "normalize_version_string parse (nver_string v)")
       (auto intro!: publisher.keeps_db_bind keeps_queries normalize_release simp: publisher.keeps_op_def [of _ "\<lambda>_. Inl _"])
qed

lemma keeps_version_updates:
  "keeps_pub parse (set_version_signature vid sig t)" "keeps_pub parse (set_version_published now vid)"
  "keeps_pub parse (set_version_unpublished vid)" "keeps_pub parse (update_version_hashes vid b3 sha n)"
  unfolding set_version_signature_def set_version_published_def set_version_unpublished_def update_version_hashes_def
  by (intro publisher.keeps_db_check keeps_update_version;
      simp add: version_ok_def validate_hash_size_def BLAKE3_HASH_SIZE_def SHA256_HASH_SIZE_def split: if_splits)+

lemma keeps_job_updates:
  "keeps_pub parse (set_diff_job_running now jid)" "keeps_pub parse (set_diff_job_completed now jid p n b3 ms)"
  "keeps_pub parse (set_diff_job_failed now jid msg)" "keeps_pub parse (reset_stale_diff_jobs add now k)"
proof -
  show "keeps_pub parse (set_diff_job_running now jid)" "keeps_pub parse (set_diff_job_failed now jid msg)"
    unfolding set_diff_job_running_def set_diff_job_failed_def
    by (intro keeps_update_job;
        simp add: job_key_def job_ok_status [of _ JobRunning] job_ok_status [of _ JobFailed] job_ok_algorithm)+
  show "keeps_pub parse (set_diff_job_completed now jid p n b3 ms)"
    unfolding set_diff_job_completed_def
    by (intro publisher.keeps_db_check keeps_update_job;
        simp add: job_key_def job_ok_status [of _ JobCompleted] job_ok_algorithm validate_hash_size_def BLAKE3_HASH_SIZE_def
          split: if_splits)
  show "keeps_pub parse (reset_stale_diff_jobs add now k)"
    by (rule publisher.keeps_opI)
       (auto simp: reset_stale_diff_jobs_def Let_def job_key_def job_ok_status [of _ JobPending] job_ok_algorithm
         intro!: keeps_update_jobs)
qed

lemma keeps_deletions:
  "keeps_pub parse (delete_diff_job jid)" "keeps_pub parse (delete_db_version vid)"
  "keeps_pub parse (delete_diff_jobs_for_version vid)"
proof -
  have jobs: "wf_publisher parse (db\<lparr>p_jobs := filter P (p_jobs db)\<rparr>)" if "wf_publisher parse db" for db P
    using that by (auto simp: wf_publisher_def distinct_map_filter)
  then show "keeps_pub parse (delete_diff_job jid)" "keeps_pub parse (delete_diff_jobs_for_version vid)"
    by (auto simp: publisher.keeps_op_def delete_diff_job_def delete_diff_jobs_for_version_def)
  show "keeps_pub parse (delete_db_version vid)"
  proof (rule publisher.keeps_opI)
    fix db x db'
    assume wf: "wf_publisher parse db" and run: "delete_db_version vid db = Inr (x, db')"
    have "joins_versions (filter (\<lambda>v. ver_id v \<noteq> vid) (p_versions db)) j"
      if "j \<in> set (p_jobs db)" "\<not> uses_version vid j" for j
      using wf that by (fastforce simp: wf_publisher_def joins_versions_def uses_version_def)
    then show "wf_publisher parse db'"
      using wf run by (auto simp: wf_publisher_def delete_db_version_def distinct_map_filter)
  qed
qed

lemma distinct_keys_upd: "distinct (map fst c) \<Longrightarrow> distinct (map fst (upd k v c))"
proof -
  have "fst ` set (upd k v c) = insert k (fst ` set c)" for c
    by (induction k v c rule: upd.induct) (simp_all add: insert_commute)
  then show "distinct (map fst c) \<Longrightarrow> distinct (map fst (upd k v c))" by (induction c) auto
qed

lemma keeps_configuration:
  "keeps_pub parse (set_publisher_config now k v)" "keeps_pub parse (init_publisher_db integrity now)"
proof -
  have u: "distinct (map fst (upd k v c))" if "distinct (map fst c)" for k :: string and v :: "string \<times> bool \<times> string" and c
    using that by (rule distinct_keys_upd)
  then show "keeps_pub parse (set_publisher_config now k v)"
    by (auto simp: publisher.keeps_op_def set_publisher_config_def Let_def wf_publisher_def)
  have "distinct (map fst (fold (insert_default_config now) ds c))" if "distinct (map fst c)" for ds c
    using that by (induction ds arbitrary: c) (auto simp: insert_default_config_def u)
  then show "keeps_pub parse (init_publisher_db integrity now)"
    by (auto simp: publisher.keeps_op_def init_publisher_db_def wf_publisher_def split: if_splits option.splits)
qed


section \<open>Requests\<close>

text \<open>The operations that change the database, so that a history is a list of requests. A request that
  fails leaves the database as it is.\<close>

datatype pub_request =
    InitDb string
  | SetPublisherConfig string string
  | InsertBinary path_probe string new_binary
  | InsertVersion string new_version
  | SetSignature string bytes string
  | SetPublished string
  | SetUnpublished string
  | UpdateHashes string bytes bytes int
  | InsertDiffJob string new_diff_job
  | InsertOrGetDiffJob string new_diff_job
  | SetRunning string
  | SetCompleted string string int bytes int
  | SetFailed string string
  | ResetStale "string \<Rightarrow> int \<Rightarrow> string option" int
  | DeleteDiffJob string
  | DeleteVersion string
  | DeleteJobsForVersion string

fun pub_execute :: "(string \<Rightarrow> string + version) \<Rightarrow> string \<Rightarrow> pub_request \<Rightarrow> publisher_db \<Rightarrow> publisher_db" where
  "pub_execute parse now (InitDb integrity) = commit (init_publisher_db integrity now)"
| "pub_execute parse now (SetPublisherConfig k v) = commit (set_publisher_config now k v)"
| "pub_execute parse now (InsertBinary pr uuid b) = commit (insert_binary pr uuid now b)"
| "pub_execute parse now (InsertVersion uuid v) = commit (insert_version parse uuid now v)"
| "pub_execute parse now (SetSignature vid sig t) = commit (set_version_signature vid sig t)"
| "pub_execute parse now (SetPublished vid) = commit (set_version_published now vid)"
| "pub_execute parse now (SetUnpublished vid) = commit (set_version_unpublished vid)"
| "pub_execute parse now (UpdateHashes vid b3 sha n) = commit (update_version_hashes vid b3 sha n)"
| "pub_execute parse now (InsertDiffJob uuid j) = commit (insert_diff_job uuid now j)"
| "pub_execute parse now (InsertOrGetDiffJob uuid j) = commit (insert_or_get_diff_job uuid now j)"
| "pub_execute parse now (SetRunning jid) = commit (set_diff_job_running now jid)"
| "pub_execute parse now (SetCompleted jid p n b3 ms) = commit (set_diff_job_completed now jid p n b3 ms)"
| "pub_execute parse now (SetFailed jid msg) = commit (set_diff_job_failed now jid msg)"
| "pub_execute parse now (ResetStale add k) = commit (reset_stale_diff_jobs add now k)"
| "pub_execute parse now (DeleteDiffJob jid) = commit (delete_diff_job jid)"
| "pub_execute parse now (DeleteVersion vid) = commit (delete_db_version vid)"
| "pub_execute parse now (DeleteJobsForVersion vid) = commit (delete_diff_jobs_for_version vid)"

lemma wf_pub_execute: "wf_publisher parse db \<Longrightarrow> wf_publisher parse (pub_execute parse now r db)"
  by (cases r) (simp_all add: publisher.keeps_commit keeps_configuration keeps_insert_binary keeps_insert_version
      keeps_version_updates keeps_insert_diff_jobs keeps_job_updates keeps_deletions)

lemma wf_empty_publisher: "wf_publisher parse empty_publisher_db"
  by (simp add: wf_publisher_def empty_publisher_db_def)

interpretation publisher: database "wf_publisher parse" empty_publisher_db "\<lambda>(now, r). pub_execute parse now r" for parse
  by unfold_locales (auto simp: wf_empty_publisher wf_pub_execute)


section \<open>Properties\<close>

text \<open>
  C33: the publisher's database stays consistent. After any sequence of requests, successful or not,
  identifiers are unique even if generated identifiers collide, names of binaries are unique per platform
  and texts of versions per binary, every version is a release with hashes of 32 bytes whose publication
  time is set exactly if it is published, every job joins two versions of one binary, no pair of versions
  has two jobs of one algorithm, and a completed job has the path, size and hash of its diff.
\<close>

theorem publisher_db_stays_wf:
  "wf_publisher parse (fold (\<lambda>(now, r). pub_execute parse now r) requests empty_publisher_db)"
  by (rule publisher.stays_wf)

text \<open>
  creating a diff job is idempotent. When \<open>insert_or_get_diff_job\<close> has returned a job, it returns the
  same job again for the same versions and algorithm, at any time and with any new identifier, and does not
  change the database.
\<close>

theorem insert_or_get_idempotent:
  assumes "insert_or_get_diff_job uuid now j db = Inr (r, db')"
  shows "insert_or_get_diff_job uuid' now' j db' = Inr (r, db') \<and> same_job j r"
proof -
  obtain u i where c: "check_job j db = Inr (u, db)" and i: "insert_job_row uuid now j db = Inr (i, db')"
      and r: "(if i then inserted_job uuid else bind_db (find_diff_job j) (found_db (DbNotFound ''Duplicate constraint violation but existing job not found''))) db'
        = Inr (r, db')"
    using assms unfolding insert_or_get_diff_job_def
    by (auto simp: inserted_job_def get_diff_job_def find_diff_job_def check_job_ok split: if_splits)
  have "p_versions db' = p_versions db"
    using i by (auto simp: insert_job_row_def split: if_splits)
  then have c': "check_job j db' = Inr (u, db')" using c unfolding check_job_ok by simp
  have f: "find_first (same_job j) (p_jobs db') = Some r"
  proof (cases i)
    case True
    then have "\<forall>x \<in> set (p_jobs db). job_id x \<noteq> uuid \<and> \<not> same_job j x"
      using i by (auto simp: insert_job_row_def split: if_splits)
    then have "find_first (same_job j) (p_jobs db) = None" "find_first (\<lambda>x. job_id x = uuid) (p_jobs db) = None"
      by (simp_all add: find_first_None)
    then show ?thesis
      using i r True by (auto simp: insert_job_row_def inserted_job_def get_diff_job_def find_first_append same_job_def split: if_splits)
  qed (use r in \<open>auto simp: find_diff_job_def\<close>)
  then have "insert_job_row uuid' now' j db' = Inr (False, db')"
    using find_first_Some [OF f] by (auto simp: insert_job_row_def)
  then show ?thesis
    using c' f find_first_Some [OF f] by (auto simp: insert_or_get_diff_job_def find_diff_job_def)
qed

definition sample_version :: "string \<Rightarrow> string \<Rightarrow> string \<Rightarrow> bytes \<Rightarrow> db_version" where
  "sample_version vid vs p b = \<lparr>ver_id = vid, ver_binary_id = ''b1'', ver_string = vs, ver_file_path = p,
     ver_size_bytes = int (length b), ver_blake3 = take 32 (b @ replicate 32 0), ver_sha256 = replicate 32 0,
     ver_signature = None, ver_signature_timestamp = None, ver_registered_at = None, ver_published_at = None,
     ver_is_published = False, ver_created_at = ''2025-01-01 00:00:0'' @ vid\<rparr>"

definition sample_publisher_db :: publisher_db where
  "sample_publisher_db = empty_publisher_db\<lparr>p_schema := Some 1,
     p_binaries := [\<lparr>bin_id = ''b1'', bin_name = ''app'', bin_platform = ''linux-x86_64'', bin_path = ''/app'',
       bin_description = None, bin_created_at = ''2025-01-01 00:00:00'', bin_updated_at = ''2025-01-01 00:00:00''\<rparr>],
     p_versions := [sample_version ''1'' ''1.0.0'' ''/old'' [1, 2, 3], sample_version ''2'' ''2.0.0'' ''/new'' [7, 8, 9]]\<rparr>"

definition sample_job :: new_diff_job where
  "sample_job = \<lparr>njob_from = ''1'', njob_to = ''2'', njob_algorithm = ''bsdiff''\<rparr>"

theorem insert_or_get_idempotent_witness:
  "\<exists>r db. insert_or_get_diff_job ''u1'' ''t1'' sample_job sample_publisher_db = Inr (r, db) \<and>
     insert_or_get_diff_job ''u2'' ''t2'' sample_job db = Inr (r, db) \<and> same_job sample_job r"
proof -
  have "\<exists>r db. insert_or_get_diff_job ''u1'' ''t1'' sample_job sample_publisher_db = Inr (r, db)"
    by (auto simp: insert_or_get_diff_job_def insert_job_row_def inserted_job_def get_diff_job_def check_job_ok
        sample_job_def sample_publisher_db_def sample_version_def empty_publisher_db_def KNOWN_DIFF_ALGORITHMS_def
        to_lowercase_def ascii_defs)
  then show ?thesis using insert_or_get_idempotent by blast
qed

end
