(* ===== verification/Publisher_Env.thy ===== *)
theory Publisher_Env
  imports Publisher_Db Patch
begin

text \<open>
  What the publisher's tool (\<open>crates/deltaship-publisher\<close>) works with: files of bytes and one file that is
  its database, the working directory its relative paths are resolved in, and what it observes of the
  clock, of the generator of identifiers and of the locks of other processes. The functions of
  third-party crates and the texts of errors are the fields of \<open>publisher_libs\<close>.
\<close>

section \<open>Environment\<close>

type_synonym pub_content = "publisher_db content_of"

record publisher_libs =
  p_blake3 :: "bytes \<Rightarrow> bytes"
  p_sha256 :: "bytes \<Rightarrow> bytes"
  p_parse :: "string \<Rightarrow> string + version"
  p_image :: "publisher_db \<Rightarrow> bytes"
  bsdiff :: "bytes \<Rightarrow> bytes \<Rightarrow> string + bytes"
  zstd_encode :: "bytes \<Rightarrow> int \<Rightarrow> bytes option"
  io_text :: "io_error \<Rightarrow> string"
  diff_text :: "diff_error \<Rightarrow> string"

record publisher_env =
  working_dir :: path
  p_clock :: "nat \<Rightarrow> string"
  new_uuid :: "nat \<Rightarrow> string"
  shared_lock :: "nat \<Rightarrow> path \<Rightarrow> bool"
  p_elapsed :: "nat \<Rightarrow> int"

datatype pub_error =
    PDb db_error
  | PIo io_error
  | PMessage string

definition resolve :: "publisher_env \<Rightarrow> string \<Rightarrow> path" where
  "resolve E s = path_join (working_dir E) s"

text \<open>\<open>Path::join\<close> on the texts of paths, which are what the database stores.\<close>

definition text_join :: "string \<Rightarrow> string \<Rightarrow> string" where
  "text_join p s =
     (if starts_with s ''/'' then s
      else if p = [] \<or> last p = CHR ''/'' then p @ s else p @ ''/'' @ s)"

definition pub_bytes :: "publisher_libs \<Rightarrow> pub_content \<Rightarrow> bytes" where
  "pub_bytes L c = (case c of Bytes b \<Rightarrow> b | Database db \<Rightarrow> p_image L db)"

definition pub_read :: "publisher_libs \<Rightarrow> path \<Rightarrow> (pub_content, io_error, bytes) io" where
  "pub_read L p = bindE (read_file p) (\<lambda>c. returnE (pub_bytes L c))"

text \<open>An operation of the database; \<open>CURRENT_TIMESTAMP\<close> is read when it runs.\<close>

definition pub_db :: "publisher_env \<Rightarrow> path \<Rightarrow> (string \<Rightarrow> 'a pub_op) \<Rightarrow> (pub_content, pub_error, 'a) io" where
  "pub_db E p op = bindE (observe (p_clock E)) (\<lambda>now. map_err PDb (db_run p (op now)))"

definition DELTASHIP_DIR :: string where
  "DELTASHIP_DIR = ''.deltaship''"

definition DB_FILE :: string where
  "DB_FILE = ''.deltaship/publisher.db''"

definition db_file :: "publisher_env \<Rightarrow> path" where
  "db_file E = resolve E DB_FILE"


section \<open>Rules\<close>

lemma wp_pub_read:
  assumes "\<And>c w'. file_at w' = file_at w \<Longrightarrow> file_at w p = Some c \<Longrightarrow> Q (pub_bytes L c) w'"
    and "\<And>e w'. file_at w' = file_at w \<Longrightarrow> F e w'"
  shows "wp (pub_read L p) Q F w"
  unfolding pub_read_def using assms by (auto intro!: wp_read_file)

lemma wp_pub_db:
  assumes "\<And>now db x db' w'. file_at w p = Some (Database db) \<Longrightarrow> op now db = Inr (x, db') \<Longrightarrow>
      file_at w' = (file_at w)(p \<mapsto> Database db') \<Longrightarrow> Q x w'"
    and "\<And>e w'. file_at w' = file_at w \<Longrightarrow> F (PDb e) w'"
  shows "wp (pub_db E p op) Q F w"
  unfolding pub_db_def using assms by (auto intro!: wp_db_run)

lemma touches_publisher [intro]:
  "touches S (pub_read L p)" "p \<in> S \<Longrightarrow> touches S (pub_db E p op)"
  unfolding pub_read_def pub_db_def by (auto intro!: touches_intros touches_observe touches_db_run)

end
