(* ===== verification/Diff_Manager.thy ===== *)
theory Diff_Manager
  imports Publisher_Env
begin

text \<open>
  Generating diffs (\<open>crates/deltaship-publisher/src/diff_manager.rs\<close> on \<open>crates/deltaship-diff/src/generate.rs\<close>
  and the compression of \<open>compress.rs\<close>). A function of the source is split where it has its comments. The
  branches with a progress bar perform the same operations as those without and are not distinguished;
  the compression ratio of a result is only printed. Files stay what they are between their opening and
  their reading, since the tool holds a handle and a lock.
\<close>

section \<open>Generation and compression\<close>

definition generate_diff :: "publisher_libs \<Rightarrow> bytes \<Rightarrow> bytes \<Rightarrow> diff_error + bytes" where
  "generate_diff L old new = (case bsdiff L old new of Inl e \<Rightarrow> Inl (DiffGenerationFailure e) | Inr d \<Rightarrow> Inr d)"

record diff_stats =
  old_size :: nat
  new_size :: nat
  diff_size :: nat

definition generate_diff_files ::
  "publisher_libs \<Rightarrow> path \<Rightarrow> path \<Rightarrow> path \<Rightarrow> (pub_content, diff_error, diff_stats) io" where
  "generate_diff_files L old_path new_path diff_path =
     bindE (map_err (\<lambda>_. DiffIoError) (pub_read L old_path)) (\<lambda>old.
     bindE (map_err (\<lambda>_. DiffIoError) (pub_read L new_path)) (\<lambda>new.
     bindE (from_sum (generate_diff L old new)) (\<lambda>diff.
     bindE (map_err (\<lambda>_. DiffIoError) (write_file diff_path (Bytes diff))) (\<lambda>_.
     returnE \<lparr>old_size = length old, new_size = length new, diff_size = length diff\<rparr>))))"

definition DEFAULT_COMPRESSION_LEVEL :: int where
  "DEFAULT_COMPRESSION_LEVEL = 3"

definition compress_diff_with_level :: "publisher_libs \<Rightarrow> bytes \<Rightarrow> int \<Rightarrow> diff_error + bytes" where
  "compress_diff_with_level L diff level = (case zstd_encode L diff level of None \<Rightarrow> Inl DiffIoError | Some c \<Rightarrow> Inr c)"

definition compress_diff :: "publisher_libs \<Rightarrow> bytes \<Rightarrow> diff_error + bytes" where
  "compress_diff L diff = compress_diff_with_level L diff DEFAULT_COMPRESSION_LEVEL"


section \<open>The manager\<close>

record diff_manager =
  diff_count :: nat
  dm_algorithm :: string
  output_dir :: string

definition DEFAULT_DIFF_COUNT :: nat where
  "DEFAULT_DIFF_COUNT = 3"

definition DEFAULT_ALGORITHM :: string where
  "DEFAULT_ALGORITHM = ''bsdiff''"

definition diff_manager_new :: diff_manager where
  "diff_manager_new = \<lparr>diff_count = DEFAULT_DIFF_COUNT, dm_algorithm = DEFAULT_ALGORITHM,
     output_dir = text_join DELTASHIP_DIR ''diffs''\<rparr>"

definition with_diff_count :: "nat \<Rightarrow> diff_manager \<Rightarrow> diff_manager" where
  "with_diff_count n M = M\<lparr>diff_count := n\<rparr>"

definition with_output_dir :: "string \<Rightarrow> diff_manager \<Rightarrow> diff_manager" where
  "with_output_dir d M = M\<lparr>output_dir := d\<rparr>"

record diff_result =
  dr_from :: string
  dr_to :: string
  dr_path :: string
  dr_size :: nat
  dr_time_ms :: int
  dr_job_id :: string


section \<open>One diff\<close>

text \<open>A failing step marks the job as failed and returns the message.\<close>

definition mark_failed :: "publisher_env \<Rightarrow> string \<Rightarrow> string \<Rightarrow> (pub_content, pub_error, unit) io" where
  "mark_failed E jid msg = pub_db E (db_file E) (\<lambda>now. set_diff_job_failed now jid msg)"

definition fail_job :: "publisher_env \<Rightarrow> string \<Rightarrow> string \<Rightarrow> (pub_content, pub_error, 'a) io" where
  "fail_job E jid msg = bindE (mark_failed E jid msg) (\<lambda>_. throwE (PMessage msg))"

definition or_fail ::
  "publisher_env \<Rightarrow> string \<Rightarrow> ('e \<Rightarrow> string) \<Rightarrow> (pub_content, 'e, 'a) io \<Rightarrow> (pub_content, pub_error, 'a) io" where
  "or_fail E jid msg m = bindE (outcome m) (\<lambda>r. case r of Inl e \<Rightarrow> fail_job E jid (msg e) | Inr x \<Rightarrow> returnE x)"

definition MAX_LOCK_RETRIES :: nat where
  "MAX_LOCK_RETRIES = 5"

fun try_lock_shared :: "publisher_env \<Rightarrow> path \<Rightarrow> nat \<Rightarrow> (pub_content, pub_error, bool) io" where
  "try_lock_shared E p 0 = observe (\<lambda>n. shared_lock E n p)"
| "try_lock_shared E p (Suc retries) =
     bindE (observe (\<lambda>n. shared_lock E n p)) (\<lambda>ok. if ok then returnE True else try_lock_shared E p retries)"

definition lock_version_file :: "publisher_env \<Rightarrow> string \<Rightarrow> string \<Rightarrow> string \<Rightarrow> (pub_content, pub_error, unit) io" where
  "lock_version_file E jid what p =
     bindE (try_lock_shared E (resolve E p) MAX_LOCK_RETRIES) (\<lambda>ok.
     if ok then returnE () else fail_job E jid (''Failed to acquire read lock on '' @ what @ '' file '' @ p))"

definition check_version_hash ::
  "publisher_libs \<Rightarrow> publisher_env \<Rightarrow> string \<Rightarrow> string \<Rightarrow> db_version \<Rightarrow> bytes \<Rightarrow> (pub_content, pub_error, unit) io" where
  "check_version_hash L E jid what v data =
     (if ver_blake3 v \<noteq> [] \<and> p_blake3 L data \<noteq> ver_blake3 v
      then fail_job E jid (what @ '' binary integrity check failed for '' @ ver_file_path v)
      else returnE ())"

text \<open>Both files are opened, locked, read and compared with the hashes in the database.\<close>

definition load_versions :: "publisher_libs \<Rightarrow> publisher_env \<Rightarrow> string \<Rightarrow> db_version \<Rightarrow> db_version
   \<Rightarrow> (pub_content, pub_error, bytes \<times> bytes) io" where
  "load_versions L E jid from_version to_version =
     (let old_path = ver_file_path from_version; new_path = ver_file_path to_version in
      bindE (or_fail E jid (\<lambda>e. ''Failed to open source file '' @ old_path @ io_text L e) (open_file (resolve E old_path))) (\<lambda>_.
      bindE (or_fail E jid (\<lambda>e. ''Failed to open target file '' @ new_path @ io_text L e) (open_file (resolve E new_path))) (\<lambda>_.
      bindE (lock_version_file E jid ''source'' old_path) (\<lambda>_.
      bindE (lock_version_file E jid ''target'' new_path) (\<lambda>_.
      bindE (or_fail E jid (\<lambda>e. ''Failed to read source file '' @ old_path @ io_text L e) (pub_read L (resolve E old_path))) (\<lambda>old_data.
      bindE (or_fail E jid (\<lambda>e. ''Failed to read target file '' @ new_path @ io_text L e) (pub_read L (resolve E new_path))) (\<lambda>new_data.
      bindE (check_version_hash L E jid ''Source'' from_version old_data) (\<lambda>_.
      bindE (check_version_hash L E jid ''Target'' to_version new_data) (\<lambda>_.
      returnE (old_data, new_data))))))))))"

definition compute_diff ::
  "publisher_libs \<Rightarrow> publisher_env \<Rightarrow> string \<Rightarrow> bytes \<Rightarrow> bytes \<Rightarrow> (pub_content, pub_error, bytes) io" where
  "compute_diff L E jid old_data new_data =
     bindE (or_fail E jid (\<lambda>e. ''Diff generation failed: '' @ diff_text L e) (from_sum (generate_diff L old_data new_data))) (\<lambda>diff_data.
     or_fail E jid (\<lambda>e. ''Diff compression failed: '' @ diff_text L e) (from_sum (compress_diff L diff_data)))"

text \<open>The compressed diff is written, read back, compared, and recorded. The error of reading it back is
  returned without marking the job.\<close>

definition store_diff ::
  "publisher_libs \<Rightarrow> publisher_env \<Rightarrow> string \<Rightarrow> string \<Rightarrow> int \<Rightarrow> bytes \<Rightarrow> (pub_content, pub_error, int) io" where
  "store_diff L E jid diff_path start compressed_diff =
     bindE (or_fail E jid (\<lambda>e. ''Failed to write diff file '' @ diff_path @ io_text L e)
              (write_file (resolve E diff_path) (Bytes compressed_diff))) (\<lambda>_.
     bindE (observe (p_elapsed E)) (\<lambda>stop.
     bindE (map_err PIo (pub_read L (resolve E diff_path))) (\<lambda>written.
     if p_blake3 L written \<noteq> p_blake3 L compressed_diff
     then bindE (mark_failed E jid ''Diff file write verification failed: hash mismatch'') (\<lambda>_.
          bindE (attempt (remove_file (resolve E diff_path))) (\<lambda>_.
          throwE (PMessage ''Diff file write verification failed: hash mismatch'')))
     else bindE (pub_db E (db_file E) (\<lambda>now. set_diff_job_completed now jid diff_path
                  (int (length compressed_diff)) (p_blake3 L written) (stop - start))) (\<lambda>_.
          returnE (stop - start)))))"

definition diff_file :: "string \<Rightarrow> db_version \<Rightarrow> db_version \<Rightarrow> string" where
  "diff_file dir from_version to_version =
     text_join dir (ver_string from_version @ ''-to-'' @ ver_string to_version @ ''.patch'')"

text \<open>A diff that is not smaller than the new file is not kept.\<close>

definition keep_diff :: "publisher_libs \<Rightarrow> publisher_env \<Rightarrow> string \<Rightarrow> db_version \<Rightarrow> db_version \<Rightarrow> string \<Rightarrow> int
   \<Rightarrow> bytes \<Rightarrow> bytes \<Rightarrow> (pub_content, pub_error, diff_result option) io" where
  "keep_diff L E jid from_version to_version dir start new_data compressed_diff =
     (if length new_data \<le> length compressed_diff
      then bindE (mark_failed E jid
             ''Skipped: compressed delta >= full binary; client will use full binary download'') (\<lambda>_. returnE None)
      else
      let diff_path = diff_file dir from_version to_version in
      bindE (store_diff L E jid diff_path start compressed_diff) (\<lambda>ms.
      returnE (Some \<lparr>dr_from = ver_string from_version, dr_to = ver_string to_version, dr_path = diff_path,
        dr_size = length compressed_diff, dr_time_ms = ms, dr_job_id = jid\<rparr>)))"

definition make_diff :: "publisher_libs \<Rightarrow> publisher_env \<Rightarrow> string \<Rightarrow> db_version \<Rightarrow> db_version \<Rightarrow> string
   \<Rightarrow> (pub_content, pub_error, diff_result option) io" where
  "make_diff L E jid from_version to_version dir =
     bindE (load_versions L E jid from_version to_version) (\<lambda>(old_data, new_data).
     bindE (observe (p_elapsed E)) (\<lambda>start.
     bindE (compute_diff L E jid old_data new_data)
       (keep_diff L E jid from_version to_version dir start new_data)))"

definition generate_single_diff :: "publisher_libs \<Rightarrow> publisher_env \<Rightarrow> diff_manager \<Rightarrow> db_version \<Rightarrow> db_version
   \<Rightarrow> string \<Rightarrow> (pub_content, pub_error, diff_result option) io" where
  "generate_single_diff L E M from_version to_version dir =
     bindE (observe (new_uuid E)) (\<lambda>uuid.
     bindE (pub_db E (db_file E) (\<lambda>now. insert_diff_job uuid now \<lparr>njob_from = ver_id from_version,
        njob_to = ver_id to_version, njob_algorithm = dm_algorithm M\<rparr>)) (\<lambda>job.
     bindE (pub_db E (db_file E) (\<lambda>now. set_diff_job_running now (job_id job))) (\<lambda>_.
     make_diff L E (job_id job) from_version to_version dir)))"


section \<open>The diffs of a version\<close>

text \<open>A failed or skipped diff is reported and does not stop the others.\<close>

fun generate_diffs :: "publisher_libs \<Rightarrow> publisher_env \<Rightarrow> diff_manager \<Rightarrow> db_version list \<Rightarrow> db_version
   \<Rightarrow> string \<Rightarrow> (pub_content, pub_error, diff_result list) io" where
  "generate_diffs L E M [] new_version dir = returnE []"
| "generate_diffs L E M (old_version # vs) new_version dir =
     bindE (outcome (generate_single_diff L E M old_version new_version dir)) (\<lambda>r.
     bindE (generate_diffs L E M vs new_version dir) (\<lambda>rs.
     returnE (case r of Inr (Some d) \<Rightarrow> d # rs | _ \<Rightarrow> rs)))"

definition generate_diff_for_version :: "publisher_libs \<Rightarrow> publisher_env \<Rightarrow> diff_manager \<Rightarrow> string \<Rightarrow> string
   \<Rightarrow> db_version \<Rightarrow> (pub_content, pub_error, diff_result list) io" where
  "generate_diff_for_version L E M binary_name bid new_version =
     bindE (pub_db E (db_file E) (\<lambda>_. list_db_versions bid)) (\<lambda>versions.
     let previous_versions = take (diff_count M) (filter (\<lambda>v. ver_id v \<noteq> ver_id new_version) versions) in
     if previous_versions = [] then returnE []
     else
     let dir = text_join (output_dir M) binary_name in
     bindE (map_err PIo (create_dir_all (resolve E dir))) (\<lambda>_.
     generate_diffs L E M previous_versions new_version dir))"

definition generate_diff_between :: "publisher_libs \<Rightarrow> publisher_env \<Rightarrow> diff_manager \<Rightarrow> string \<Rightarrow> string
   \<Rightarrow> string \<Rightarrow> string \<Rightarrow> string option \<Rightarrow> (pub_content, pub_error, diff_result option) io" where
  "generate_diff_between L E M binary_name plat from_str to_str output_path =
     bindE (pub_db E (db_file E) (\<lambda>_. get_db_binary_by_name binary_name plat)) (\<lambda>b.
     case b of None \<Rightarrow> throwE (PMessage (''Binary not found: '' @ binary_name)) | Some binary \<Rightarrow>
     bindE (pub_db E (db_file E) (\<lambda>_. get_version_by_string (bin_id binary) from_str)) (\<lambda>f.
     case f of None \<Rightarrow> throwE (PMessage (''Version not found: '' @ from_str)) | Some from_version \<Rightarrow>
     bindE (pub_db E (db_file E) (\<lambda>_. get_version_by_string (bin_id binary) to_str)) (\<lambda>t.
     case t of None \<Rightarrow> throwE (PMessage (''Version not found: '' @ to_str)) | Some to_version \<Rightarrow>
     let dir = (case output_path of Some p \<Rightarrow> p | None \<Rightarrow> text_join (output_dir M) binary_name) in
     bindE (map_err PIo (create_dir_all (resolve E dir))) (\<lambda>_.
     generate_single_diff L E M from_version to_version dir))))"

definition get_pending_jobs :: "publisher_env \<Rightarrow> (pub_content, pub_error, db_diff_job list) io" where
  "get_pending_jobs E = pub_db E (db_file E) (\<lambda>_. list_diff_jobs_by_status JobPending)"

definition get_diffs_for_version :: "publisher_env \<Rightarrow> string \<Rightarrow> (pub_content, pub_error, db_diff_job list) io" where
  "get_diffs_for_version E vid =
     bindE (pub_db E (db_file E) (\<lambda>_. list_diff_jobs_by_status JobCompleted)) (\<lambda>jobs.
     returnE (filter (\<lambda>j. job_to j = vid) jobs))"


section \<open>What a run leaves behind\<close>

text \<open>No step but the last makes a job completed, whatever fails: the relation is kept by the programs.\<close>

definition completed_jobs :: "publisher_db \<Rightarrow> db_diff_job set" where
  "completed_jobs db = {j \<in> set (p_jobs db). job_status j = diff_job_status_as_str JobCompleted}"

definition none_completed :: "publisher_env \<Rightarrow> pub_content world \<Rightarrow> pub_content world \<Rightarrow> bool" where
  "none_completed E w w' \<longleftrightarrow>
     (\<forall>db'. file_at w' (db_file E) = Some (Database db') \<longrightarrow>
        (\<exists>db. file_at w (db_file E) = Some (Database db) \<and> completed_jobs db' \<subseteq> completed_jobs db))"

interpretation completion: world_rel "none_completed E" for E
  by unfold_locales (simp add: none_completed_def, unfold none_completed_def, blast)

lemma completion_touches: "touches S m \<Longrightarrow> db_file E \<notin> S \<Longrightarrow> completion.keeps E m"
  by (simp add: completion.keeps_def touches_def same_outside_def none_completed_def)

lemma completion_pub_db:
  assumes "\<And>now db x db'. op now db = Inr (x, db') \<Longrightarrow> completed_jobs db' \<subseteq> completed_jobs db"
  shows "completion.keeps E (pub_db E (db_file E) op)"
  unfolding completion.keeps_def
proof
  fix w
  have "wp (pub_db E (db_file E) op) (\<lambda>_. none_completed E w) (\<lambda>_. none_completed E w) w"
    by (rule wp_pub_db) (auto simp: none_completed_def dest: assms)
  then show "none_completed E w (snd (pub_db E (db_file E) op w))"
    by (simp add: wp_def split: prod.splits sum.splits)
qed

lemma completed_update_where:
  "(\<And>j. job_status (f j) \<noteq> diff_job_status_as_str JobCompleted) \<Longrightarrow>
   completed_jobs (db\<lparr>p_jobs := update_where P f (p_jobs db)\<rparr>) \<subseteq> completed_jobs db"
  by (auto simp: completed_jobs_def update_where_def split: if_splits)

lemma completed_insert:
  "insert_diff_job uuid now j db = Inr (r, db') \<Longrightarrow> completed_jobs db' \<subseteq> completed_jobs db"
  by (auto simp: insert_diff_job_def check_job_ok insert_job_row_def inserted_job_def get_diff_job_def
      fail_db_def completed_jobs_def split: if_splits)

lemma completed_update_job:
  assumes "update_job jid f db = Inr (u, db')" "\<And>j. job_status (f j) \<noteq> diff_job_status_as_str JobCompleted"
  shows "completed_jobs db' \<subseteq> completed_jobs db"
  using assms completed_update_where [of f "\<lambda>j. job_id j = jid" db, OF assms(2)] by (auto simp: update_job_def split: if_splits)

lemma completed_marks:
  "set_diff_job_running now jid db = Inr (u, db') \<Longrightarrow> completed_jobs db' \<subseteq> completed_jobs db"
  "set_diff_job_failed now jid msg db = Inr (u, db') \<Longrightarrow> completed_jobs db' \<subseteq> completed_jobs db"
  unfolding set_diff_job_running_def set_diff_job_failed_def by (drule completed_update_job; simp)+

lemmas completed_ops = completed_insert completed_marks

lemma touches_try_lock: "touches S (try_lock_shared E p n)"
  by (induction n) (auto intro!: touches_intros touches_observe)

lemma completion_mark: "completion.keeps E (mark_failed E jid msg)"
  unfolding mark_failed_def by (rule completion_pub_db) (rule completed_ops)

lemma completion_fail: "completion.keeps E (fail_job E jid msg)"
  unfolding fail_job_def by (intro completion.keeps_intros completion_mark)

lemma completion_or_fail: "completion.keeps E m \<Longrightarrow> completion.keeps E (or_fail E jid t m)"
  unfolding or_fail_def by (auto split: sum.split intro!: completion.keeps_intros completion.keeps_outcome completion_fail)

lemma completion_reads:
  "completion.keeps E (observe f)" "completion.keeps E (open_file p)" "completion.keeps E (pub_read L p)"
  "completion.keeps E (create_dir_all p)"
  by (rule completion_touches [of "{}"]; auto)+

lemmas completion_steps = completion_mark completion_fail completion_or_fail completion_reads

lemma completion_load: "completion.keeps E (load_versions L E jid a b)"
proof -
  have lock: "completion.keeps E (lock_version_file E jid what p)" for what p
    unfolding lock_version_file_def
    by (intro completion.keeps_intros completion_steps completion_touches [OF touches_try_lock [of "{}"]]) simp
  have hash: "completion.keeps E (check_version_hash L E jid what v d)" for what v d
    unfolding check_version_hash_def by (intro completion.keeps_intros completion_steps)
  show ?thesis
    unfolding load_versions_def Let_def by (intro completion.keeps_intros completion_steps lock hash)
qed

lemma completion_compute: "completion.keeps E (compute_diff L E jid a b)"
  unfolding compute_diff_def by (intro completion.keeps_intros completion_steps)

text \<open>What the steps return.\<close>

definition job_at :: "publisher_env \<Rightarrow> string \<Rightarrow> (db_diff_job \<Rightarrow> bool) \<Rightarrow> pub_content world \<Rightarrow> bool" where
  "job_at E jid P w \<longleftrightarrow> (\<exists>db j. file_at w (db_file E) = Some (Database db) \<and>
     find_first (\<lambda>j. job_id j = jid) (p_jobs db) = Some j \<and> P j)"

definition loaded :: "publisher_libs \<Rightarrow> publisher_env \<Rightarrow> db_version \<Rightarrow> bytes \<Rightarrow> pub_content world \<Rightarrow> bool" where
  "loaded L E v b w \<longleftrightarrow>
     (\<exists>c. file_at w (resolve E (ver_file_path v)) = Some c \<and> b = pub_bytes L c) \<and>
     (ver_blake3 v \<noteq> [] \<longrightarrow> p_blake3 L b = ver_blake3 v)"

definition describes_diff :: "publisher_libs \<Rightarrow> db_version \<Rightarrow> db_version \<Rightarrow> string \<Rightarrow> bytes \<Rightarrow> db_diff_job \<Rightarrow> bool" where
  "describes_diff L a b p c j \<longleftrightarrow> job_from j = ver_id a \<and> job_to j = ver_id b \<and>
     job_status j = diff_job_status_as_str JobCompleted \<and> job_diff_path j = Some p \<and>
     job_diff_size j = Some (int (length c)) \<and> job_diff_hash j = Some (p_blake3 L c)"

lemma wp_mark_failed: "(\<And>w'. Q () w') \<Longrightarrow> wp (mark_failed E jid msg) Q (\<lambda>_ _. True) w"
  unfolding mark_failed_def by (rule wp_pub_db) simp_all

lemma wp_fail_job [simp]: "wp (fail_job E jid msg) Q (\<lambda>_ _. True) w"
  by (simp add: wp_def fail_job_def bindE_def throwE_def split: prod.splits sum.splits)

lemma wp_or_fail: "wp m Q (\<lambda>_ _. True) w \<Longrightarrow> wp (or_fail E jid t m) Q (\<lambda>_ _. True) w"
  by (auto simp: or_fail_def elim: wp_mono)

lemma wp_completion:
  assumes "completion.keeps E m" "wp m Q (\<lambda>_ _. True) w"
  shows "wp m (\<lambda>x w'. Q x w' \<and> none_completed E w w') (\<lambda>_ w'. none_completed E w w') w"
  using assms by (auto simp: wp_def completion.keeps_def split: prod.splits sum.splits) (metis snd_conv)+

lemma wp_try_lock: "(\<And>ok w'. file_at w' = file_at w \<Longrightarrow> Q ok w') \<Longrightarrow> wp (try_lock_shared E p n) Q F w"
  by (induction n arbitrary: w) auto

lemma wp_load_versions:
  "wp (load_versions L E jid a b) (\<lambda>(old, new) w'. file_at w' = file_at w \<and> loaded L E a old w \<and> loaded L E b new w)
     (\<lambda>_ _. True) w"
proof -
  have lock: "wp (lock_version_file E jid what p) Q (\<lambda>_ _. True) v"
    if "\<And>v'. file_at v' = file_at v \<Longrightarrow> Q () v'" for what p Q and v
    unfolding lock_version_file_def wp_bindE
    by (rule wp_try_lock) (auto simp: that)
  have hash: "wp (check_version_hash L E jid what x d) Q (\<lambda>_ _. True) v"
    if "(ver_blake3 x \<noteq> [] \<longrightarrow> p_blake3 L d = ver_blake3 x) \<Longrightarrow> Q () v" for what x d Q and v
    unfolding check_version_hash_def by (rule wp_branch) (auto simp: that)
  show ?thesis
    unfolding load_versions_def Let_def wp_bindE wp_pure
    by (intro wp_or_fail wp_no_change lock wp_pub_read hash; auto simp: loaded_def)
qed

lemma wp_compute_diff:
  "wp (compute_diff L E jid old new) (\<lambda>c w'. file_at w' = file_at w \<and>
     (\<exists>d. bsdiff L old new = Inr d \<and> zstd_encode L d DEFAULT_COMPRESSION_LEVEL = Some c)) (\<lambda>_ _. True) w"
  unfolding compute_diff_def wp_bindE
  by (intro wp_or_fail wp_from_sum)
     (auto simp: generate_diff_def compress_diff_def compress_diff_with_level_def split: sum.splits option.splits)

lemma set_completed_job:
  assumes "set_diff_job_completed now jid p n h ms db = Inr (u, db')"
    and "find_first (\<lambda>j. job_id j = jid) (p_jobs db) = Some j"
  shows "\<exists>j'. find_first (\<lambda>j. job_id j = jid) (p_jobs db') = Some j' \<and> job_from j' = job_from j \<and> job_to j' = job_to j \<and>
    job_status j' = diff_job_status_as_str JobCompleted \<and> job_diff_path j' = Some p \<and> job_diff_size j' = Some n \<and>
    job_diff_hash j' = Some h"
  using assms find_first_Some [OF assms(2)]
  by (auto simp: set_diff_job_completed_def check_db_def update_job_def find_first_update_where split: sum.splits if_splits)

lemma wp_store_diff:
  assumes path: "resolve E p \<noteq> db_file E" and job: "job_at E jid (\<lambda>j. job_from j = ver_id a \<and> job_to j = ver_id b) w"
  shows "wp (store_diff L E jid p t c)
    (\<lambda>_ w'. file_at w' (resolve E p) = Some (Bytes c) \<and> job_at E jid (describes_diff L a b p c) w')
    (\<lambda>_ w'. none_completed E w w') w"
proof -
  define F where "F = none_completed E w"
  have same: "F v" if "file_at v (db_file E) = file_at w (db_file E)" for v
    using that by (simp add: F_def none_completed_def)
  have step: "wp m Q (\<lambda>_. F) v" if "completion.keeps E m" "F v" "wp m Q (\<lambda>_ _. True) v"
    for m :: "(pub_content, pub_error, 'z) io" and Q v
    by (rule wp_mono [OF wp_completion [OF that(1,3)]])
       (use that(2) in \<open>auto simp: F_def intro: completion.R_trans\<close>)
  have kept: "completion.keeps E (write_file (resolve E p) (Bytes c))" "completion.keeps E (remove_file (resolve E p))"
    using path by (auto intro!: completion_touches [of "{resolve E p}"])
  have complete: "wp (pub_db E (db_file E) (\<lambda>now. set_diff_job_completed now jid p (int (length c)) (p_blake3 L c) ms))
      (\<lambda>_ w'. file_at w' (resolve E p) = Some (Bytes c) \<and> job_at E jid (describes_diff L a b p c) w') (\<lambda>_. F) v"
    if v: "file_at v = (file_at w)(resolve E p \<mapsto> Bytes c)" for v ms
  proof (rule wp_pub_db)
    fix now db x db' w'
    assume db: "file_at v (db_file E) = Some (Database db)"
      and run: "set_diff_job_completed now jid p (int (length c)) (p_blake3 L c) ms db = Inr (x, db')"
      and w': "file_at w' = (file_at v)(db_file E \<mapsto> Database db')"
    from db v path job obtain j where j: "find_first (\<lambda>j. job_id j = jid) (p_jobs db) = Some j" "job_from j = ver_id a"
        "job_to j = ver_id b"
      by (auto simp: job_at_def)
    show "file_at w' (resolve E p) = Some (Bytes c) \<and> job_at E jid (describes_diff L a b p c) w'"
      using set_completed_job [OF run j(1)] j(2,3) path v w' by (auto simp: job_at_def describes_diff_def)
  qed (use path v in \<open>auto intro: same\<close>)
  have verify: "wp (bindE (mark_failed E jid msg) (\<lambda>_. bindE (attempt (remove_file (resolve E p))) (\<lambda>_. throwE (PMessage msg))))
      Q (\<lambda>_. F) v" if "F v" for msg Q v
    by (rule step, intro completion.keeps_intros completion_steps kept, rule that)
       (simp add: wp_def bindE_def throwE_def split: prod.split sum.split)
  show ?thesis
    unfolding store_diff_def F_def [symmetric] wp_bindE [of "or_fail _ _ _ _"]
  proof (rule step)
    show "completion.keeps E (or_fail E jid (\<lambda>e. ''Failed to write diff file '' @ p @ io_text L e) (write_file (resolve E p) (Bytes c)))"
      by (intro completion_steps kept)
    show "F w" by (rule same) simp
  qed (use path in \<open>auto simp: pub_bytes_def intro!: wp_or_fail wp_write_file wp_pub_read complete verify same\<close>)
qed

lemma insert_job_at:
  assumes "insert_diff_job uuid now j db = Inr (r, db')"
  shows "find_first (\<lambda>x. job_id x = job_id r) (p_jobs db') = Some r \<and> same_job j r"
proof -
  from assms obtain row where "\<forall>x \<in> set (p_jobs db). job_id x \<noteq> uuid" "p_jobs db' = p_jobs db @ [row]"
      "job_id row = uuid" "same_job j row" "find_first (\<lambda>x. job_id x = uuid) (p_jobs db') = Some r"
    by (auto simp: insert_diff_job_def check_job_ok insert_job_row_def inserted_job_def get_diff_job_def fail_db_def
        same_job_def split: if_splits)
  then show ?thesis by (auto simp: find_first_append find_first_None [THEN iffD2])
qed

lemma running_job_at:
  assumes "set_diff_job_running now jid db = Inr (u, db')" "find_first (\<lambda>j. job_id j = jid) (p_jobs db) = Some j"
  shows "\<exists>j'. find_first (\<lambda>j. job_id j = jid) (p_jobs db') = Some j' \<and> job_from j' = job_from j \<and> job_to j' = job_to j"
  using assms find_first_Some [OF assms(2)]
  by (auto simp: set_diff_job_running_def update_job_def find_first_update_where split: if_splits)

definition diff_made :: "publisher_libs \<Rightarrow> publisher_env \<Rightarrow> db_version \<Rightarrow> db_version \<Rightarrow> pub_content world
   \<Rightarrow> diff_result \<Rightarrow> pub_content world \<Rightarrow> bool" where
  "diff_made L E a b w r w' \<longleftrightarrow>
     (\<exists>old new d c. loaded L E a old w \<and> loaded L E b new w \<and> bsdiff L old new = Inr d \<and>
        zstd_encode L d DEFAULT_COMPRESSION_LEVEL = Some c \<and> length c < length new \<and> dr_size r = length c \<and>
        file_at w' (resolve E (dr_path r)) = Some (Bytes c) \<and> job_at E (dr_job_id r) (describes_diff L a b (dr_path r) c) w')"

lemma loaded_cong:
  assumes "resolve E (ver_file_path v) \<noteq> db_file E" "\<And>p. p \<noteq> db_file E \<Longrightarrow> file_at w' p = file_at w p"
  shows "loaded L E v b w' = loaded L E v b w"
  using assms by (simp add: loaded_def)

lemma wp_completion_step:
  fixes m :: "(pub_content, pub_error, 'z) io"
  assumes "completion.keeps E m" "none_completed E w v" "wp m (\<lambda>x v'. none_completed E w v' \<longrightarrow> R x v') (\<lambda>_ _. True) v"
  shows "wp m R (\<lambda>_. none_completed E w) v"
  by (rule wp_mono [OF wp_completion [OF assms(1,3)]]) (use assms(2) in \<open>auto intro: completion.R_trans\<close>)

text \<open>The state in which a job of the two versions exists and nothing else has changed since \<open>w\<close>.\<close>

definition job_open :: "publisher_env \<Rightarrow> db_version \<Rightarrow> db_version \<Rightarrow> string \<Rightarrow> pub_content world \<Rightarrow> pub_content world \<Rightarrow> bool" where
  "job_open E a b jid w v \<longleftrightarrow> none_completed E w v \<and> (\<forall>p. p \<noteq> db_file E \<longrightarrow> file_at v p = file_at w p) \<and>
     job_at E jid (\<lambda>j. job_from j = ver_id a \<and> job_to j = ver_id b) v"

lemma job_open_cong: "job_open E a b jid w v \<Longrightarrow> file_at v' = file_at v \<Longrightarrow> job_open E a b jid w v'"
  by (simp add: job_open_def job_at_def none_completed_def)

abbreviation diff_outcome :: "publisher_libs \<Rightarrow> publisher_env \<Rightarrow> db_version \<Rightarrow> db_version \<Rightarrow> pub_content world
   \<Rightarrow> diff_result option \<Rightarrow> pub_content world \<Rightarrow> bool" where
  "diff_outcome L E a b w r w' \<equiv> (case r of None \<Rightarrow> none_completed E w w' | Some x \<Rightarrow> diff_made L E a b w x w')"

lemma wp_keep_diff:
  assumes path: "resolve E (diff_file dir a b) \<noteq> db_file E" and v: "job_open E a b jid w v"
    and made: "loaded L E a old w" "loaded L E b new w" "bsdiff L old new = Inr d"
      "zstd_encode L d DEFAULT_COMPRESSION_LEVEL = Some c"
  shows "wp (keep_diff L E jid a b dir start new c) (diff_outcome L E a b w) (\<lambda>_. none_completed E w) v"
proof (cases "length new \<le> length c")
  case True
  then show ?thesis
    unfolding keep_diff_def if_P [OF True] using v
    by (intro wp_completion_step completion.keeps_intros completion_mark) (auto simp: job_open_def intro!: wp_mark_failed)
next
  case False
  have "wp (store_diff L E jid (diff_file dir a b) start c)
    (\<lambda>_ w'. file_at w' (resolve E (diff_file dir a b)) = Some (Bytes c) \<and> job_at E jid (describes_diff L a b (diff_file dir a b) c) w')
    (\<lambda>_. none_completed E w) v"
    by (rule wp_mono [OF wp_store_diff [OF path]])
       (use v in \<open>auto simp: job_open_def intro: completion.R_trans\<close>)
  moreover have "\<exists>old new d. loaded L E a old w \<and> loaded L E b new w \<and> bsdiff L old new = Inr d \<and>
      zstd_encode L d DEFAULT_COMPRESSION_LEVEL = Some c \<and> length c < length new"
    using made False by (meson not_le)
  ultimately show ?thesis
    unfolding keep_diff_def if_not_P [OF False] Let_def wp_bindE by (elim wp_mono) (auto simp: diff_made_def)
qed

lemma wp_make_diff:
  assumes paths: "resolve E (diff_file dir a b) \<noteq> db_file E" "resolve E (ver_file_path a) \<noteq> db_file E"
    "resolve E (ver_file_path b) \<noteq> db_file E" and v: "job_open E a b jid w v"
  shows "wp (make_diff L E jid a b dir) (diff_outcome L E a b w) (\<lambda>_. none_completed E w) v"
proof -
  have loaded: "loaded L E a old v = loaded L E a old w" "loaded L E b new v = loaded L E b new w" for old new
    using v paths by (auto simp: job_open_def intro!: loaded_cong)
  have compute: "wp (bindE (compute_diff L E jid old new) (keep_diff L E jid a b dir start new))
      (diff_outcome L E a b w) (\<lambda>_. none_completed E w) v'"
    if job: "job_open E a b jid w v'" and ld: "loaded L E a old w" "loaded L E b new w" for old new start v'
  proof -
    have F: "none_completed E w v'" using job by (simp add: job_open_def)
    show ?thesis
      unfolding wp_bindE
    proof (rule wp_completion_step [OF completion_compute F], rule wp_mono [OF wp_compute_diff])
      fix c x
      assume "file_at x = file_at v' \<and> (\<exists>d. bsdiff L old new = Inr d \<and> zstd_encode L d DEFAULT_COMPRESSION_LEVEL = Some c)"
      then obtain d where d: "job_open E a b jid w x" "bsdiff L old new = Inr d" "zstd_encode L d DEFAULT_COMPRESSION_LEVEL = Some c"
        using job_open_cong [OF job] by blast
      show "none_completed E w x \<longrightarrow>
          wp (keep_diff L E jid a b dir start new c) (diff_outcome L E a b w) (\<lambda>_. none_completed E w) x"
        by (rule impI, rule wp_keep_diff [OF paths(1) d(1) ld d(2,3)])
    qed simp
  qed
  show ?thesis
    unfolding make_diff_def wp_bindE [of "load_versions L E jid a b"]
  proof (rule wp_completion_step [OF completion_load], goal_cases)
    case 2
    show ?case
      by (rule wp_mono [OF wp_load_versions])
         (auto simp: loaded wp_bindE [of "observe _"] simp del: wp_bindE wp_seq_fun intro!: compute job_open_cong [OF v])
  qed (use v in \<open>simp add: job_open_def\<close>)
qed

lemma wp_generate_single_diff:
  assumes paths: "resolve E (diff_file dir a b) \<noteq> db_file E" "resolve E (ver_file_path a) \<noteq> db_file E"
    "resolve E (ver_file_path b) \<noteq> db_file E"
  shows "wp (generate_single_diff L E M a b dir) (diff_outcome L E a b w) (\<lambda>_. none_completed E w) w"
proof -
  define Q where "Q = diff_outcome L E a b w"
  have run: "wp (bindE (pub_db E (db_file E) (\<lambda>now. set_diff_job_running now jid)) (\<lambda>_. make_diff L E jid a b dir))
      Q (\<lambda>_. none_completed E w) v" if v: "job_open E a b jid w v" for jid v
    unfolding wp_bindE
  proof (rule wp_completion_step)
    show "wp (pub_db E (db_file E) (\<lambda>now. set_diff_job_running now jid))
        (\<lambda>_ v'. none_completed E w v' \<longrightarrow> wp (make_diff L E jid a b dir) Q (\<lambda>_. none_completed E w) v') (\<lambda>_ _. True) v"
    proof (rule wp_pub_db; clarsimp)
      fix now db db' v'
      assume db: "file_at v (db_file E) = Some (Database db)" and r: "set_diff_job_running now jid db = Inr ((), db')"
        and v': "file_at v' = (file_at v)(db_file E \<mapsto> Database db')" "none_completed E w v'"
      from v db obtain j where "find_first (\<lambda>j. job_id j = jid) (p_jobs db) = Some j" "job_from j = ver_id a" "job_to j = ver_id b"
        by (auto simp: job_open_def job_at_def)
      with running_job_at [OF r this(1)] v v' have "job_open E a b jid w v'"
        by (auto simp: job_open_def job_at_def)
      then show "wp (make_diff L E jid a b dir) Q (\<lambda>_. none_completed E w) v'"
        unfolding Q_def by (rule wp_make_diff [OF paths])
    qed
  qed (use v in \<open>auto simp: job_open_def intro!: completion_pub_db elim!: completed_marks(1) [THEN subsetD]\<close>)
  show ?thesis
    unfolding generate_single_diff_def Q_def [symmetric] wp_bindE [of "observe _"] wp_bindE [of "pub_db _ _ (\<lambda>now. insert_diff_job _ now _)"] wp_observe
    by (rule wp_completion_step, rule completion_pub_db, erule completed_ops)
       (auto simp: none_completed_def job_open_def job_at_def same_job_def dest!: insert_job_at intro!: wp_pub_db run simp del: wp_bindE wp_seq_fun)
qed


section \<open>A sample\<close>

definition sample_old_file :: bytes where
  "sample_old_file = [1, 2, 3]"

definition sample_new_file :: bytes where
  "sample_new_file = [7, 8, 9, 10, 11, 12]"

definition sample_raw_diff :: bytes where
  "sample_raw_diff = encode_patch [\<lparr>mixed = [], copied = sample_new_file, distance = 0\<rparr>]"

definition sample_magic :: bytes where
  "sample_magic = [0x28, 0xB5, 0x2F, 0xFD]"

definition sample_publisher_libs :: publisher_libs where
  "sample_publisher_libs = \<lparr>p_blake3 = (\<lambda>b. take 32 (b @ replicate 32 0)), p_sha256 = (\<lambda>b. replicate 32 0),
     p_parse = (\<lambda>_. Inl []), p_image = (\<lambda>_. []),
     bsdiff = (\<lambda>old new. Inr (encode_patch [\<lparr>mixed = [], copied = new, distance = 0\<rparr>])),
     zstd_encode = (\<lambda>d _. Some (if d = sample_raw_diff then sample_magic else sample_magic @ d)), io_text = (\<lambda>_. []),
     diff_text = (\<lambda>_. [])\<rparr>"

definition sample_publisher_env :: publisher_env where
  "sample_publisher_env = \<lparr>working_dir = [], p_clock = (\<lambda>_. ''2025-01-02 00:00:00''), new_uuid = (\<lambda>_. ''u1''),
     shared_lock = (\<lambda>_ _. True), p_elapsed = (\<lambda>_. 0)\<rparr>"

definition sample_from :: db_version where
  "sample_from = sample_version ''1'' ''1.0.0'' ''/old'' sample_old_file"

definition sample_to :: db_version where
  "sample_to = sample_version ''2'' ''2.0.0'' ''/new'' sample_new_file"

definition sample_pub_db :: "db_diff_job list \<Rightarrow> publisher_db" where
  "sample_pub_db js = sample_publisher_db\<lparr>p_versions := [sample_from, sample_to], p_jobs := js\<rparr>"

definition sample_pub_world :: "db_diff_job list \<Rightarrow> pub_content world" where
  "sample_pub_world js = quiet_world [([''.deltaship''], Dir), ([''.deltaship'', ''publisher.db''], File (Database (sample_pub_db js))),
     ([''old''], File (Bytes sample_old_file)), ([''new''], File (Bytes sample_new_file)),
     ([''.deltaship'', ''diffs''], Dir), ([''.deltaship'', ''diffs'', ''app''], Dir)] 0"

abbreviation sample_generate :: "db_diff_job list \<Rightarrow> (pub_error + diff_result option) \<times> pub_content world" where
  "sample_generate js \<equiv> generate_single_diff sample_publisher_libs sample_publisher_env diff_manager_new sample_from sample_to
     ''.deltaship/diffs/app'' (sample_pub_world js)"

lemma sample_pub_paths:
  "db_file sample_publisher_env = [''.deltaship'', ''publisher.db'']"
  "diff_file ''.deltaship/diffs/app'' sample_from sample_to = ''.deltaship/diffs/app/1.0.0-to-2.0.0.patch''"
  "resolve sample_publisher_env ''.deltaship/diffs/app/1.0.0-to-2.0.0.patch'' =
     [''.deltaship'', ''diffs'', ''app'', ''1.0.0-to-2.0.0.patch'']"
  "resolve sample_publisher_env (ver_file_path sample_from) = [''old'']" "resolve sample_publisher_env (ver_file_path sample_to) = [''new'']"
  by (simp_all add: db_file_def resolve_def DB_FILE_def sample_publisher_env_def path_join_def starts_with_def path_components_def
      diff_file_def text_join_def sample_from_def sample_to_def sample_version_def)

lemma sample_pub_db_jobs: "p_jobs (sample_pub_db js) = js" "sample_pub_db js\<lparr>p_jobs := ks\<rparr> = sample_pub_db ks"
  by (simp_all add: sample_pub_db_def)

lemma sample_job_check:
  "check_job \<lparr>njob_from = ''1'', njob_to = ''2'', njob_algorithm = ''bsdiff''\<rparr> (sample_pub_db js) = Inr ((), sample_pub_db js)"
  unfolding check_job_ok
  by (simp add: sample_pub_db_def sample_from_def sample_to_def sample_version_def KNOWN_DIFF_ALGORITHMS_def to_lowercase_def ascii_defs)

lemma sample_insert:
  "\<exists>r. insert_diff_job ''u1'' now \<lparr>njob_from = ''1'', njob_to = ''2'', njob_algorithm = ''bsdiff''\<rparr> (sample_pub_db []) =
     Inr (r, sample_pub_db [r]) \<and> job_id r = ''u1''"
  by (simp add: insert_diff_job_def insert_job_row_def inserted_job_def get_diff_job_def bind_db_def found_db_def return_db_def
      sample_job_check sample_pub_db_jobs)

lemma sample_running:
  "job_id r = ''u1'' \<Longrightarrow> \<exists>r'. set_diff_job_running now ''u1'' (sample_pub_db [r]) = Inr ((), sample_pub_db [r']) \<and> job_id r' = ''u1''"
  "job_id r = ''u1'' \<Longrightarrow> length h = 32 \<Longrightarrow>
     \<exists>r'. set_diff_job_completed now ''u1'' p n h ms (sample_pub_db [r]) = Inr ((), sample_pub_db [r']) \<and> job_id r' = ''u1''"
  by (auto simp: set_diff_job_running_def set_diff_job_completed_def check_db_def validate_hash_size_def BLAKE3_HASH_SIZE_def
      update_job_def update_where_def sample_pub_db_def)

abbreviation sample_pub_files :: "publisher_db \<Rightarrow> (path \<times> pub_content node) list" where
  "sample_pub_files db \<equiv> [([''.deltaship''], Dir), ([''.deltaship'', ''publisher.db''], File (Database db)),
     ([''old''], File (Bytes sample_old_file)), ([''new''], File (Bytes sample_new_file)),
     ([''.deltaship'', ''diffs''], Dir), ([''.deltaship'', ''diffs'', ''app''], Dir)]"

lemma sample_lib_simps:
  "p_blake3 sample_publisher_libs b = take 32 (b @ replicate 32 0)" "io_text sample_publisher_libs e = []"
  "bsdiff sample_publisher_libs sample_old_file sample_new_file = Inr sample_raw_diff"
  "zstd_encode sample_publisher_libs sample_raw_diff k = Some sample_magic" "shared_lock sample_publisher_env n q"
  "p_clock sample_publisher_env n = ''2025-01-02 00:00:00''" "new_uuid sample_publisher_env n = ''u1''" "p_elapsed sample_publisher_env n = 0"
  by (simp_all add: sample_publisher_libs_def sample_publisher_env_def sample_raw_diff_def)

lemma sample_ver_simps:
  "ver_id sample_from = ''1''" "ver_id sample_to = ''2''" "ver_string sample_from = ''1.0.0''" "ver_string sample_to = ''2.0.0''"
  "ver_file_path sample_from = ''/old''" "ver_file_path sample_to = ''/new''"
  "ver_blake3 sample_from = take 32 (sample_old_file @ replicate 32 0)" "ver_blake3 sample_to = take 32 (sample_new_file @ replicate 32 0)"
  by (simp_all add: sample_from_def sample_to_def sample_version_def)

lemma sample_make:
  assumes "job_id r = ''u1''"
  shows "\<exists>w'. make_diff sample_publisher_libs sample_publisher_env ''u1'' sample_from sample_to ''.deltaship/diffs/app''
      (quiet_world (sample_pub_files (sample_pub_db [r])) n) =
    (Inr (Some \<lparr>dr_from = ''1.0.0'', dr_to = ''2.0.0'', dr_path = ''.deltaship/diffs/app/1.0.0-to-2.0.0.patch'',
       dr_size = 4, dr_time_ms = 0, dr_job_id = ''u1''\<rparr>), w')"
proof -
  obtain r' where c: "set_diff_job_completed ''2025-01-02 00:00:00'' ''u1'' ''.deltaship/diffs/app/1.0.0-to-2.0.0.patch'' 4
      (take 32 (sample_magic @ replicate 32 0)) 0 (sample_pub_db [r]) = Inr ((), sample_pub_db [r'])"
    using sample_running(2) [OF assms, of "take 32 (sample_magic @ replicate 32 0)"] by fastforce
  have len: "length sample_magic = 4" "length sample_new_file = 6"
    by (simp_all add: sample_magic_def sample_new_file_def)
  show ?thesis
    using c
    by (simp add: make_diff_def load_versions_def lock_version_file_def check_version_hash_def compute_diff_def keep_diff_def store_diff_def
        or_fail_def MAX_LOCK_RETRIES_def numeral_eq_Suc generate_diff_def compress_diff_def compress_diff_with_level_def
        pub_read_def pub_bytes_def pub_db_def db_run_def open_file_def run_steps run_files sample_pub_paths sample_lib_simps sample_ver_simps len
        sample_pub_paths(4,5) [unfolded sample_ver_simps])
qed

lemma sample_generate_ok:
  "\<exists>w'. sample_generate [] =
    (Inr (Some \<lparr>dr_from = ''1.0.0'', dr_to = ''2.0.0'', dr_path = ''.deltaship/diffs/app/1.0.0-to-2.0.0.patch'',
       dr_size = 4, dr_time_ms = 0, dr_job_id = ''u1''\<rparr>), w')"
proof -
  obtain r r' where r: "insert_diff_job ''u1'' ''2025-01-02 00:00:00'' \<lparr>njob_from = ''1'', njob_to = ''2'', njob_algorithm = ''bsdiff''\<rparr>
      (sample_pub_db []) = Inr (r, sample_pub_db [r])" "job_id r = ''u1''"
    "set_diff_job_running ''2025-01-02 00:00:00'' ''u1'' (sample_pub_db [r]) = Inr ((), sample_pub_db [r'])" "job_id r' = ''u1''"
    using sample_insert sample_running(1) by blast
  show ?thesis
    using sample_make [OF r(4), of "Suc (Suc (Suc (Suc (Suc 0))))"] r(1-3)
    by (simp add: generate_single_diff_def diff_manager_new_def DEFAULT_ALGORITHM_def pub_db_def db_run_def sample_pub_world_def
        run_steps sample_pub_paths(1) sample_lib_simps sample_ver_simps set_node_def)
qed


section \<open>Properties\<close>

text \<open>
  C32: a diff is recorded as completed only after it has been made and checked. Whatever operation fails,
  a run that does not return a diff makes no job completed. A run that returns one read two files with
  the hashes of the two versions, and the diff the generator computed from them is in its file,
  compressed, shorter than the new version; its job is completed and has the path, the size and the hash of
  that file.
\<close>

theorem only_checked_diffs_completed:
  assumes "resolve E (diff_file dir a b) \<noteq> db_file E" "resolve E (ver_file_path a) \<noteq> db_file E"
    "resolve E (ver_file_path b) \<noteq> db_file E"
  shows "case generate_single_diff L E M a b dir w of
      (Inr (Some r), w') \<Rightarrow> diff_made L E a b w r w'
    | (_, w') \<Rightarrow> none_completed E w w'"
  using wp_generate_single_diff [OF assms, of L M w] by (simp add: wp_def split: prod.splits sum.splits option.splits)

theorem only_checked_diffs_completed_witness:
  "\<exists>r w'. sample_generate [] = (Inr (Some r), w') \<and>
     diff_made sample_publisher_libs sample_publisher_env sample_from sample_to (sample_pub_world []) r w'"
proof -
  obtain r w' where "sample_generate [] = (Inr (Some r), w')" using sample_generate_ok by blast
  moreover have "case sample_generate [] of
      (Inr (Some r), w') \<Rightarrow> diff_made sample_publisher_libs sample_publisher_env sample_from sample_to (sample_pub_world []) r w'
    | (_, w') \<Rightarrow> none_completed sample_publisher_env (sample_pub_world []) w'"
    by (rule only_checked_diffs_completed) (simp_all add: sample_pub_paths)
  ultimately show ?thesis by simp
qed

text \<open>
  A diff is attempted once. If the database has a job for the two versions and the algorithm, then, whatever
  its state (also when it failed, or was skipped, or its process died while it was running), generating the
  diff fails and changes nothing.
\<close>

theorem diff_not_retried:
  assumes "file_at w (db_file E) = Some (Database db)" "r \<in> set (p_jobs db)"
    and "job_from r = ver_id a" "job_to r = ver_id b" "job_algorithm r = dm_algorithm M"
  shows "\<exists>e w'. generate_single_diff L E M a b dir w = (Inl e, w') \<and> file_at w' = file_at w"
proof -
  have "insert_diff_job uuid now \<lparr>njob_from = ver_id a, njob_to = ver_id b, njob_algorithm = dm_algorithm M\<rparr> db \<noteq> Inr (x, db')"
    for uuid now x db'
    using assms by (auto simp: insert_diff_job_def check_job_ok insert_job_row_def same_job_def fail_db_def split: if_splits)
  then have "wp (generate_single_diff L E M a b dir) (\<lambda>_ _. False) (\<lambda>_ w'. file_at w' = file_at w) w"
    unfolding generate_single_diff_def using assms(1) by (auto intro!: wp_pub_db)
  then show ?thesis by (cases "generate_single_diff L E M a b dir w") (auto simp: wp_def split: sum.splits)
qed

theorem diff_not_retried_witness:
  "\<exists>j e w'. job_status j = ''failed'' \<and> sample_generate [j] = (Inl e, w') \<and> file_at w' = file_at (sample_pub_world [j])"
proof -
  define j :: db_diff_job where "j = \<lparr>job_id = ''u0'', job_from = ''1'', job_to = ''2'', job_algorithm = ''bsdiff'', job_status = ''failed'',
    job_diff_path = None, job_diff_size = None, job_diff_hash = None, job_time_ms = None, job_error = Some ''x'',
    job_created_at = ''t'', job_started_at = None, job_completed_at = Some ''t''\<rparr>"
  have "\<exists>e w'. sample_generate [j] = (Inl e, w') \<and> file_at w' = file_at (sample_pub_world [j])"
    by (rule diff_not_retried [where db = "sample_pub_db [j]" and r = j])
       (simp_all add: sample_pub_world_def file_at_def lookup_def sample_pub_paths sample_pub_db_jobs sample_ver_simps j_def
         diff_manager_new_def DEFAULT_ALGORITHM_def)
  moreover have "job_status j = ''failed''" by (simp add: j_def)
  ultimately show ?thesis by blast
qed

end
