(* ===== verification/Publisher_Commands.thy ===== *)
theory Publisher_Commands
  imports Diff_Manager Keys Effects
begin

text \<open>
  The commands of the publisher's tool that make a release: \<open>register.rs\<close>, \<open>sign.rs\<close>, \<open>publish.rs\<close> and \<open>diff.rs\<close>
  of \<open>crates/deltaship-publisher/src/commands\<close>, with the HTTP client of \<open>api_client.rs\<close>. The server is
  an observation: what it answers to a request may depend on the number of operations so far. So
  are the lines read from the terminal and what the file system says about the path of a binary.
  Messages for the terminal are left out, and the text of an error is its first line.
\<close>

section \<open>Environment\<close>

datatype form_part =
    TextField string string
  | FilePart string string bytes

record upload =
  up_url :: string
  up_https_only :: bool
  up_api_key :: "string option"
  up_form :: "form_part list"

record upload_response =
  resp_success :: bool
  resp_id :: "string option"
  resp_message :: string

record tool_libs =
  de_response :: "bytes \<Rightarrow> upload_response option"
  ed_sign :: "bytes \<Rightarrow> bytes \<Rightarrow> bytes"
  ed_public :: "bytes \<Rightarrow> bytes"

record tool_env =
  web :: "nat \<Rightarrow> upload \<Rightarrow> (nat \<times> bytes) option"
  terminal :: "nat \<Rightarrow> string option"
  rfc3339_now :: "nat \<Rightarrow> string"
  probe_path :: "nat \<Rightarrow> string \<Rightarrow> path_probe"
  new_key :: "nat \<Rightarrow> bytes"

definition SIGNING_KEY_FILE :: string where
  "SIGNING_KEY_FILE = ''.deltaship/keys/signing.key''"

definition CONFIG_SERVER_URL :: string where
  "CONFIG_SERVER_URL = ''server_url''"

definition DEFAULT_SERVER_URL :: string where
  "DEFAULT_SERVER_URL = ''http://localhost:8080''"

definition read_terminal :: "tool_env \<Rightarrow> (pub_content, pub_error, string) io" where
  "read_terminal T = bindE (observe (terminal T)) (\<lambda>l. case l of None \<Rightarrow> throwE (PIo IoFault) | Some s \<Rightarrow> returnE s)"

text \<open>\<open>PublisherDb::open\<close> creates a missing file; its statements fail on a file that is no database.\<close>

definition open_publisher_db :: "publisher_env \<Rightarrow> path \<Rightarrow> (pub_content, pub_error, unit) io" where
  "open_publisher_db E p =
     bindE (map_err (\<lambda>_. PDb (DbSqlx ''Failed to connect to database'')) (open_create (Database empty_publisher_db) p)) (\<lambda>_.
     pub_db E p (\<lambda>_. return_db ()))"

text \<open>The check that the project is initialized, and the opening of its database.\<close>

definition open_project :: "publisher_env \<Rightarrow> (pub_content, pub_error, unit) io" where
  "open_project E =
     bindE (get_world (path_exists (db_file E))) (\<lambda>present.
     if \<not> present then throwE (PMessage ''Deltaship project not initialized.'')
     else open_publisher_db E (db_file E))"

definition need_path :: "publisher_env \<Rightarrow> string \<Rightarrow> string \<Rightarrow> (pub_content, pub_error, unit) io" where
  "need_path E p msg =
     bindE (get_world (path_exists (resolve E p))) (\<lambda>present. if present then returnE () else throwE (PMessage msg))"

definition found_or :: "string \<Rightarrow> 'a option \<Rightarrow> (pub_content, pub_error, 'a) io" where
  "found_or msg r = (case r of None \<Rightarrow> throwE (PMessage msg) | Some x \<Rightarrow> returnE x)"


section \<open>The HTTP client\<close>

record api_client =
  base_url :: string
  api_key :: "string option"
  https_only :: bool
  max_retries :: nat

definition api_client_new :: "string \<Rightarrow> string option \<Rightarrow> api_client" where
  "api_client_new url key = \<lparr>base_url = url, api_key = key, https_only = \<not> starts_with url ''http://'', max_retries = 3\<rparr>"

definition status_success :: "nat \<Rightarrow> bool" where
  "status_success s \<longleftrightarrow> 200 \<le> s \<and> s < 300"

definition is_retryable_error :: "nat \<Rightarrow> bool" where
  "is_retryable_error s \<longleftrightarrow> 500 \<le> s \<and> s < 600 \<or> s = 429 \<or> s = 408"

fun execute_with_retry :: "tool_env \<Rightarrow> upload \<Rightarrow> nat \<Rightarrow> (pub_content, pub_error, nat \<times> bytes) io" where
  "execute_with_retry T up 0 = throwE (PMessage ''Max retries exceeded'')"
| "execute_with_retry T up (Suc remaining) =
     bindE (observe (\<lambda>n. web T n up)) (\<lambda>r.
     case r of
       Some (status, body) \<Rightarrow>
         if status_success status \<or> \<not> is_retryable_error status \<or> remaining = 0 then returnE (status, body)
         else execute_with_retry T up remaining
     | None \<Rightarrow> if remaining = 0 then throwE (PMessage ''error sending request'') else execute_with_retry T up remaining)"

definition send_form :: "tool_libs \<Rightarrow> tool_env \<Rightarrow> api_client \<Rightarrow> upload \<Rightarrow> (pub_content, pub_error, upload_response) io" where
  "send_form L T C up =
     bindE (execute_with_retry T up (max_retries C)) (\<lambda>(status, body).
     if \<not> status_success status then throwE (PMessage (''Server returned '' @ show_nat status))
     else found_or ''error decoding response body'' (de_response L body))"

definition trim_end_slash :: "string \<Rightarrow> string" where
  "trim_end_slash s = rev (dropWhile (\<lambda>c. c = CHR ''/'') (rev s))"

record publish_request =
  pr_app :: string
  pr_version :: string
  pr_platform :: string
  pr_binary :: bytes
  pr_signature :: bytes
  pr_checksum :: bytes

definition publish_form :: "api_client \<Rightarrow> publish_request \<Rightarrow> upload" where
  "publish_form C r =
     \<lparr>up_url = trim_end_slash (base_url C) @ ''/api/v1/apps/'' @ pr_app r @ ''/versions/'' @ pr_version r,
      up_https_only = https_only C, up_api_key = api_key C,
      up_form = [TextField ''platform'' (pr_platform r), TextField ''signature'' (to_hex (pr_signature r)),
        TextField ''checksum'' (to_hex (pr_checksum r)), FilePart ''binary'' (pr_app r @ ''-'' @ pr_version r) (pr_binary r)]\<rparr>"

definition api_publish_version ::
  "tool_libs \<Rightarrow> tool_env \<Rightarrow> api_client \<Rightarrow> publish_request \<Rightarrow> (pub_content, pub_error, upload_response) io" where
  "api_publish_version L T C r = send_form L T C (publish_form C r)"

record publish_diff_request =
  pd_app :: string
  pd_from :: string
  pd_to :: string
  pd_platform :: string
  pd_data :: bytes
  pd_checksum :: bytes

definition publish_diff_form :: "api_client \<Rightarrow> publish_diff_request \<Rightarrow> upload" where
  "publish_diff_form C r =
     \<lparr>up_url = trim_end_slash (base_url C) @ ''/api/v1/apps/'' @ pd_app r @ ''/diffs/'' @ pd_from r @ ''/to/'' @ pd_to r,
      up_https_only = https_only C, up_api_key = api_key C,
      up_form = [TextField ''platform'' (pd_platform r), TextField ''checksum'' (to_hex (pd_checksum r)),
        FilePart ''diff'' (pd_app r @ ''-'' @ pd_from r @ ''-to-'' @ pd_to r @ ''.patch'') (pd_data r)]\<rparr>"

definition api_publish_diff ::
  "tool_libs \<Rightarrow> tool_env \<Rightarrow> api_client \<Rightarrow> publish_diff_request \<Rightarrow> (pub_content, pub_error, upload_response) io" where
  "api_publish_diff L T C r = send_form L T C (publish_diff_form C r)"


section \<open>register\<close>

definition get_or_create_binary ::
  "publisher_env \<Rightarrow> tool_env \<Rightarrow> string \<Rightarrow> string \<Rightarrow> string \<Rightarrow> string option \<Rightarrow> (pub_content, pub_error, db_binary) io" where
  "get_or_create_binary E T name plat binary_file description =
     bindE (pub_db E (db_file E) (\<lambda>_. get_db_binary_by_name name plat)) (\<lambda>b.
     case b of Some binary \<Rightarrow> returnE binary
     | None \<Rightarrow>
         bindE (observe (\<lambda>n. probe_path T n binary_file)) (\<lambda>probe.
         bindE (observe (new_uuid E)) (\<lambda>uuid.
         pub_db E (db_file E) (\<lambda>now. insert_binary probe uuid now
           \<lparr>nbin_name = name, nbin_platform = plat, nbin_path = binary_file, nbin_description = description\<rparr>))))"

definition register_command :: "publisher_libs \<Rightarrow> publisher_env \<Rightarrow> tool_env \<Rightarrow> string \<Rightarrow> string \<Rightarrow> string
   \<Rightarrow> string \<Rightarrow> string option \<Rightarrow> bool \<Rightarrow> (pub_content, pub_error, db_version) io" where
  "register_command P E T name version binary_file plat description no_diff =
     bindE (get_world (path_exists (db_file E))) (\<lambda>present.
     if \<not> present then throwE (PMessage ''Deltaship project not initialized.'')
     else
     bindE (need_path E binary_file (''Binary file not found: '' @ binary_file)) (\<lambda>_.
     case p_parse P version of Inl _ \<Rightarrow> throwE (PMessage (''Invalid version '' @ version)) | Inr _ \<Rightarrow>
     case platform_from_str plat of Inl _ \<Rightarrow> throwE (PMessage (''Invalid platform '' @ plat)) | Inr _ \<Rightarrow>
     bindE (open_publisher_db E (db_file E)) (\<lambda>_.
     bindE (get_or_create_binary E T name plat binary_file description) (\<lambda>binary.
     bindE (pub_db E (db_file E) (\<lambda>_. get_version_by_string (bin_id binary) version)) (\<lambda>existing.
     if existing \<noteq> None then throwE (PMessage (''Version '' @ version @ '' already registered''))
     else
     bindE (map_err PIo (pub_read P (resolve E binary_file))) (\<lambda>sized.
     bindE (map_err PIo (pub_read P (resolve E binary_file))) (\<lambda>data.
     bindE (map_err PIo (pub_read P (resolve E binary_file))) (\<lambda>data2.
     bindE (observe (new_uuid E)) (\<lambda>uuid.
     bindE (pub_db E (db_file E) (\<lambda>now. insert_version (p_parse P) uuid now
       \<lparr>nver_binary_id = bin_id binary, nver_string = version, nver_file_path = binary_file,
        nver_size_bytes = int (length sized), nver_blake3 = p_blake3 P data, nver_sha256 = p_sha256 P data2\<rparr>)) (\<lambda>db_version.
     if no_diff then returnE db_version
     else bindE (generate_diff_for_version P E diff_manager_new name (bin_id binary) db_version) (\<lambda>_.
          returnE db_version)))))))))))"


section \<open>sign\<close>

definition find_by_name :: "string \<Rightarrow> db_binary list \<Rightarrow> db_binary option" where
  "find_by_name name = find_first (\<lambda>b. bin_name b = name)"

definition version_to_sign ::
  "publisher_env \<Rightarrow> string option \<Rightarrow> string option \<Rightarrow> string option \<Rightarrow> (pub_content, pub_error, db_version) io" where
  "version_to_sign E version_id name version =
     (case version_id of
        Some vid \<Rightarrow> bindE (pub_db E (db_file E) (\<lambda>_. get_db_version vid)) (found_or (''Version not found: '' @ vid))
      | None \<Rightarrow>
          (case name of None \<Rightarrow> throwE (PMessage ''Must provide either --version-id or both --name and --version'') | Some n \<Rightarrow>
           case version of None \<Rightarrow> throwE (PMessage ''Must provide either --version-id or both --name and --version'') | Some v \<Rightarrow>
           bindE (pub_db E (db_file E) (\<lambda>_. list_db_binaries)) (\<lambda>binaries.
           bindE (found_or (''Binary not found: '' @ n) (find_by_name n binaries)) (\<lambda>binary.
           bindE (pub_db E (db_file E) (\<lambda>_. get_version_by_string (bin_id binary) v))
             (found_or (''Version '' @ v @ '' not found for binary '' @ n))))))"

definition sign_command :: "pub_content key_libs \<Rightarrow> tool_libs \<Rightarrow> publisher_env \<Rightarrow> tool_env \<Rightarrow> string option \<Rightarrow> string option
   \<Rightarrow> string option \<Rightarrow> string option \<Rightarrow> string option \<Rightarrow> (pub_content, pub_error, unit) io" where
  "sign_command K L E T version_id name version key_file passphrase_arg =
     bindE (open_project E) (\<lambda>_.
     bindE (version_to_sign E version_id name version) (\<lambda>db_version.
     let key_path = (case key_file of Some k \<Rightarrow> k | None \<Rightarrow> SIGNING_KEY_FILE) in
     bindE (need_path E key_path (''Signing key not found at '' @ key_path)) (\<lambda>_.
     bindE (case passphrase_arg of Some p \<Rightarrow> returnE p | None \<Rightarrow> read_terminal T) (\<lambda>passphrase.
     bindE (map_err (\<lambda>_. PMessage ''Failed to load signing key'')
              (load_signing_key K (resolve E key_path) (if passphrase = [] then None else Some passphrase))) (\<lambda>signing_key.
     bindE (observe (rfc3339_now T)) (\<lambda>timestamp.
     let message = signing_payload (ver_blake3 db_version) (ver_string db_version);
         signature = ed_sign L signing_key message in
     bindE (pub_db E (db_file E) (\<lambda>_. set_version_signature (ver_id db_version) signature timestamp)) (\<lambda>_.
     bindE (pub_db E (db_file E) (\<lambda>_. get_db_binary (ver_binary_id db_version))) (\<lambda>binary.
     bindE (found_or ''Binary not found'' binary) (\<lambda>_. returnE ())))))))))"


section \<open>publish\<close>

definition release_to_publish ::
  "publisher_env \<Rightarrow> string \<Rightarrow> string \<Rightarrow> (pub_content, pub_error, db_binary \<times> db_version \<times> bytes) io" where
  "release_to_publish E name version =
     bindE (pub_db E (db_file E) (\<lambda>_. list_db_binaries)) (\<lambda>binaries.
     bindE (found_or (''Binary '' @ name @ '' not found in database.'') (find_by_name name binaries)) (\<lambda>binary.
     bindE (pub_db E (db_file E) (\<lambda>_. get_version_by_string (bin_id binary) version)) (\<lambda>v.
     bindE (found_or (''Version '' @ version @ '' not found for binary.'') v) (\<lambda>db_version.
     bindE (found_or (''Version '' @ version @ '' is not signed yet.'') (ver_signature db_version)) (\<lambda>signature.
     returnE (binary, db_version, signature))))))"

definition choose_server :: "publisher_env \<Rightarrow> tool_env \<Rightarrow> string option \<Rightarrow> bool \<Rightarrow> (pub_content, pub_error, string) io" where
  "choose_server E T server_url yes =
     bindE (case server_url of Some url \<Rightarrow> returnE url
            | None \<Rightarrow> bindE (pub_db E (db_file E) (\<lambda>_. get_publisher_config CONFIG_SERVER_URL))
                        (\<lambda>u. returnE (case u of Some url \<Rightarrow> url | None \<Rightarrow> DEFAULT_SERVER_URL))) (\<lambda>url.
     if url = DEFAULT_SERVER_URL then returnE url
     else if \<not> starts_with url ''http://'' \<and> \<not> starts_with url ''https://'' then throwE (PMessage ''Invalid server URL'')
     else if yes then returnE url
     else bindE (read_terminal T) (\<lambda>line.
          if trim line \<noteq> ''YES'' then throwE (PMessage ''Publish cancelled. Server URL not confirmed.'') else returnE url))"

definition read_release :: "publisher_libs \<Rightarrow> publisher_env \<Rightarrow> db_version \<Rightarrow> (pub_content, pub_error, bytes) io" where
  "read_release P E v =
     bindE (need_path E (ver_file_path v) (''Binary file not found at: '' @ ver_file_path v)) (\<lambda>_.
     bindE (map_err PIo (pub_read P (resolve E (ver_file_path v)))) (\<lambda>binary_data.
     if ver_size_bytes v < 0 then throwE (PMessage ''Invalid file size in database'')
     else if int (length binary_data) \<noteq> ver_size_bytes v then throwE (PMessage ''File size mismatch.'')
     else returnE binary_data))"

text \<open>One diff: whether it was uploaded, or is one of the failures that are collected.\<close>

definition publish_one_diff :: "publisher_libs \<Rightarrow> tool_libs \<Rightarrow> publisher_env \<Rightarrow> tool_env \<Rightarrow> api_client \<Rightarrow> db_binary \<Rightarrow> string
   \<Rightarrow> string \<Rightarrow> db_diff_job \<Rightarrow> string \<Rightarrow> (pub_content, pub_error, bool) io" where
  "publish_one_diff P L E T C binary name version job diff_path =
     bindE (get_world (path_exists (resolve E diff_path))) (\<lambda>present.
     if \<not> present then returnE False
     else
     bindE (pub_db E (db_file E) (\<lambda>_. get_db_version (job_from job))) (\<lambda>f.
     case f of None \<Rightarrow> returnE False | Some from_version \<Rightarrow>
     bindE (map_err PIo (pub_read P (resolve E diff_path))) (\<lambda>diff_data.
     let checksum = (case job_diff_hash job of Some h \<Rightarrow> h | None \<Rightarrow> []) in
     if p_blake3 P diff_data \<noteq> checksum then returnE False
     else
     bindE (outcome (api_publish_diff L T C \<lparr>pd_app = name, pd_from = ver_string from_version, pd_to = version,
        pd_platform = bin_platform binary, pd_data = diff_data, pd_checksum = checksum\<rparr>)) (\<lambda>r.
     returnE (case r of Inr resp \<Rightarrow> resp_success resp | Inl _ \<Rightarrow> False)))))"

fun publish_diffs :: "publisher_libs \<Rightarrow> tool_libs \<Rightarrow> publisher_env \<Rightarrow> tool_env \<Rightarrow> api_client \<Rightarrow> db_binary \<Rightarrow> string
   \<Rightarrow> string \<Rightarrow> db_diff_job list \<Rightarrow> (pub_content, pub_error, nat) io" where
  "publish_diffs P L E T C binary name version [] = returnE 0"
| "publish_diffs P L E T C binary name version (job # jobs) =
     (case job_diff_path job of
        None \<Rightarrow> publish_diffs P L E T C binary name version jobs
      | Some diff_path \<Rightarrow>
          bindE (publish_one_diff P L E T C binary name version job diff_path) (\<lambda>ok.
          bindE (publish_diffs P L E T C binary name version jobs) (\<lambda>failures.
          returnE (if ok then failures else Suc failures))))"

text \<open>The uploads: the binary, then the diffs to its version.\<close>

definition upload_release :: "publisher_libs \<Rightarrow> tool_libs \<Rightarrow> publisher_env \<Rightarrow> tool_env \<Rightarrow> api_client \<Rightarrow> string \<Rightarrow> string
   \<Rightarrow> db_binary \<Rightarrow> db_version \<Rightarrow> bytes \<Rightarrow> bytes \<Rightarrow> (pub_content, pub_error, unit) io" where
  "upload_release P L E T client name version binary db_version signature binary_data =
     bindE (api_publish_version L T client \<lparr>pr_app = name, pr_version = version, pr_platform = bin_platform binary,
        pr_binary = binary_data, pr_signature = signature, pr_checksum = ver_blake3 db_version\<rparr>) (\<lambda>response.
     if \<not> resp_success response then throwE (PMessage (''Publish failed: '' @ resp_message response))
     else
     bindE (get_diffs_for_version E (ver_id db_version)) (\<lambda>diffs.
     bindE (publish_diffs P L E T client binary name version diffs) (\<lambda>failures.
     if failures \<noteq> 0 then throwE (PMessage ''Binary uploaded successfully, but diff uploads failed'')
     else returnE ())))"

definition publish_command :: "publisher_libs \<Rightarrow> tool_libs \<Rightarrow> publisher_env \<Rightarrow> tool_env \<Rightarrow> string \<Rightarrow> string
   \<Rightarrow> string option \<Rightarrow> string option \<Rightarrow> bool \<Rightarrow> (pub_content, pub_error, unit) io" where
  "publish_command P L E T name version server_url key yes =
     bindE (open_project E) (\<lambda>_.
     bindE (release_to_publish E name version) (\<lambda>(binary, db_version, signature).
     bindE (choose_server E T server_url yes) (\<lambda>url.
     bindE (read_release P E db_version) (\<lambda>binary_data.
     bindE (upload_release P L E T (api_client_new url key) name version binary db_version signature binary_data) (\<lambda>_.
     pub_db E (db_file E) (\<lambda>now. set_version_published now (ver_id db_version)))))))"


section \<open>diff\<close>

definition diff_command :: "publisher_libs \<Rightarrow> publisher_env \<Rightarrow> string \<Rightarrow> string \<Rightarrow> string \<Rightarrow> string \<Rightarrow> string option
   \<Rightarrow> (pub_content, pub_error, diff_result option) io" where
  "diff_command P E name plat from_version to_version output =
     bindE (open_project E) (\<lambda>_.
     generate_diff_between P E diff_manager_new name plat from_version to_version output)"


section \<open>Commands that only read\<close>

lemma looks_query:
  assumes "\<And>db x db'. op db = Inr (x, db') \<Longrightarrow> db' = db"
    and "\<And>g db x. g p = Some (Database db) \<Longrightarrow> op db = Inr (x, db) \<Longrightarrow> Q g x"
  shows "looks (pub_db E p (\<lambda>_. op)) Q"
  unfolding pub_db_def by (intro looks_any_bind looks_observe looks_map_err looks_db_run assms) auto

lemma looks_read: "(\<And>g c. g p = Some c \<Longrightarrow> Q g (pub_bytes P c)) \<Longrightarrow> looks (pub_read P p) Q"
  unfolding looks_def by (auto intro!: wp_pub_read)

lemma looks_found: "(\<And>g x. r = Some x \<Longrightarrow> Q g x) \<Longrightarrow> looks (found_or msg r) Q"
  unfolding found_or_def by (auto simp: looks_def split: option.splits)

lemma looks_query_bind:
  assumes "\<And>db x db'. op db = Inr (x, db') \<Longrightarrow> db' = db"
    and "\<And>x. looks (f x) (\<lambda>g y. (\<exists>db. g p = Some (Database db) \<and> op db = Inr (x, db)) \<longrightarrow> R g y)"
  shows "looks (bindE (pub_db E p (\<lambda>_. op)) f) R"
  by (rule looks_bindE [OF looks_query assms(2)]) (auto dest: assms(1))

lemma looks_found_bind: "(\<And>x. r = Some x \<Longrightarrow> looks (f x) R) \<Longrightarrow> looks (bindE (found_or msg r) f) R"
  by (cases r) (auto simp: looks_def found_or_def)

lemma looks_read_bind:
  "(\<And>x. looks (f x) (\<lambda>g y. (\<exists>c. g p = Some c \<and> x = pub_bytes P c) \<longrightarrow> R g y)) \<Longrightarrow>
   looks (bindE (map_err h (pub_read P p)) f) R"
  by (rule looks_bindE [OF looks_map_err [OF looks_read [where Q = "\<lambda>g x. \<exists>c. g p = Some c \<and> x = pub_bytes P c"]]]) auto

lemma looks_open_project:
  assumes "db_file E \<noteq> []"
  shows "looks (open_project E) (\<lambda>_ _. True)"
proof -
  have q0: "looks (pub_db E p (\<lambda>_. return_db ())) (\<lambda>_ _. True)" for p
    by (rule looks_query) (auto simp: return_db_def)
  have q: "wp (pub_db E p (\<lambda>_. return_db ())) (\<lambda>_ w'. file_at w' = g) (\<lambda>_ w'. file_at w' = g) v" if "file_at v = g" for p g v
    using q0 [of p] unfolding looks_def that [symmetric] by simp
  show ?thesis
    unfolding open_project_def open_publisher_db_def looks_def
    by (auto intro!: wp_open_present q assms)
qed

lemma db_file_nonempty [simp]: "db_file E \<noteq> []"
  by (simp add: db_file_def resolve_def DB_FILE_def path_join_def path_components_def starts_with_def)


section \<open>What publishing looks at\<close>

text \<open>The server answered a request with success.\<close>

definition answered :: "tool_libs \<Rightarrow> tool_env \<Rightarrow> upload \<Rightarrow> upload_response \<Rightarrow> bool" where
  "answered L T up r \<longleftrightarrow> (\<exists>n status body. web T n up = Some (status, body) \<and> status_success status \<and> de_response L body = Some r)"

definition accepted :: "tool_libs \<Rightarrow> tool_env \<Rightarrow> upload \<Rightarrow> bool" where
  "accepted L T up \<longleftrightarrow> (\<exists>r. answered L T up r \<and> resp_success r)"

definition release_of :: "publisher_db \<Rightarrow> string \<Rightarrow> string \<Rightarrow> db_binary \<Rightarrow> db_version \<Rightarrow> bytes \<Rightarrow> bool" where
  "release_of db name version b v sig \<longleftrightarrow>
     find_by_name name (binaries_by_name db) = Some b \<and> get_version_by_string (bin_id b) version db = Inr (Some v, db) \<and>
     ver_signature v = Some sig"

text \<open>The jobs whose diffs belong to a version, and that the diff of one of them was accepted.\<close>

definition diffs_of :: "publisher_db \<Rightarrow> string \<Rightarrow> db_diff_job list" where
  "diffs_of db vid = filter (\<lambda>j. job_to j = vid) (fst (projr (list_diff_jobs_by_status JobCompleted db)))"

definition diff_published :: "publisher_libs \<Rightarrow> tool_libs \<Rightarrow> publisher_env \<Rightarrow> tool_env \<Rightarrow> api_client \<Rightarrow> (path \<Rightarrow> pub_content option)
   \<Rightarrow> publisher_db \<Rightarrow> db_binary \<Rightarrow> string \<Rightarrow> string \<Rightarrow> db_diff_job \<Rightarrow> string \<Rightarrow> bool" where
  "diff_published P L E T C g db b name version job p \<longleftrightarrow>
     (\<exists>f c. get_db_version (job_from job) db = Inr (Some f, db) \<and> g (resolve E p) = Some c \<and>
        p_blake3 P (pub_bytes P c) = (case job_diff_hash job of Some h \<Rightarrow> h | None \<Rightarrow> []) \<and>
        accepted L T (publish_diff_form C \<lparr>pd_app = name, pd_from = ver_string f, pd_to = version,
          pd_platform = bin_platform b, pd_data = pub_bytes P c, pd_checksum = p_blake3 P (pub_bytes P c)\<rparr>))"

lemma looks_execute: "looks (execute_with_retry T up k) (\<lambda>_ (status, body). \<exists>n. web T n up = Some (status, body))"
proof (induction k)
  case (Suc k)
  show ?case
    unfolding execute_with_retry.simps
  proof (rule looks_bindE [where Q = "\<lambda>_ r. \<exists>n. r = web T n up"])
    fix r
    show "looks (case r of Some (status, body) \<Rightarrow>
            if status_success status \<or> \<not> is_retryable_error status \<or> k = 0 then returnE (status, body) else execute_with_retry T up k
          | None \<Rightarrow> if k = 0 then throwE (PMessage ''error sending request'') else execute_with_retry T up k)
        (\<lambda>_ y. (\<exists>n. r = web T n up) \<longrightarrow> (case y of (status, body) \<Rightarrow> \<exists>n. web T n up = Some (status, body)))"
      by (auto split: option.splits intro!: looks_pure looks_weaken [OF Suc])
  qed (auto intro!: looks_observe)
qed (simp add: looks_pure)

lemma looks_send_form: "looks (send_form L T C up) (\<lambda>_. answered L T up)"
  unfolding send_form_def
  by (rule looks_bindE [OF looks_execute])
     (auto split: prod.splits intro!: looks_branch looks_pure looks_found simp: answered_def)

lemmas publisher_queries = list_db_binaries_def get_version_by_string_def get_db_version_def get_publisher_config_def
  list_diff_jobs_by_status_def get_db_binary_def get_db_binary_by_name_def

lemma looks_release:
  "looks (release_to_publish E name version)
     (\<lambda>g (b, v, sig). \<exists>db. g (db_file E) = Some (Database db) \<and> release_of db name version b v sig)"
  unfolding release_to_publish_def
  by (intro looks_query_bind looks_found_bind looks_pure(1)) (auto simp: publisher_queries release_of_def)

lemma looks_read_terminal: "looks (read_terminal T) (\<lambda>_ _. True)"
  unfolding read_terminal_def by (intro looks_any_bind looks_observe looks_branch looks_pure) auto

lemma looks_choose_server: "looks (choose_server E T u yes) (\<lambda>_ _. True)"
  unfolding choose_server_def
  by (intro looks_any_bind looks_branch looks_query_bind looks_pure looks_read_terminal) (auto simp: publisher_queries)

lemma looks_need_path: "looks (need_path E p msg) (\<lambda>_ _. True)"
  unfolding need_path_def by (intro looks_any_bind looks_world looks_branch looks_pure) auto

lemma looks_read_release:
  "looks (read_release P E v) (\<lambda>g data. int (length data) = ver_size_bytes v \<and>
     (\<exists>c. g (resolve E (ver_file_path v)) = Some c \<and> data = pub_bytes P c))"
  unfolding read_release_def
  by (intro looks_any_bind [OF looks_need_path] looks_read_bind looks_branch looks_pure) auto

lemma looks_publish_one_diff:
  "looks (publish_one_diff P L E T C b name version job p) (\<lambda>g ok. ok \<longrightarrow>
     (\<exists>db. g (db_file E) = Some (Database db) \<and> diff_published P L E T C g db b name version job p))"
proof -
  have send: "looks (bindE (outcome (api_publish_diff L T C r)) (\<lambda>x. returnE (case x of Inr resp \<Rightarrow> resp_success resp | Inl _ \<Rightarrow> False)))
      (\<lambda>_ ok. ok \<longrightarrow> accepted L T (publish_diff_form C r))" for r
  proof (rule looks_bindE [OF looks_outcome])
    show "looks (api_publish_diff L T C r) (\<lambda>_ resp. \<forall>x. Inr resp = x \<longrightarrow> (\<forall>y. x = Inr y \<longrightarrow> answered L T (publish_diff_form C r) y))"
      unfolding api_publish_diff_def by (rule looks_weaken [OF looks_send_form]) auto
  qed (auto intro!: looks_pure simp: accepted_def split: sum.splits)
  show ?thesis
    unfolding publish_one_diff_def Let_def
    by (intro looks_any_bind [OF looks_world] looks_branch looks_query_bind looks_read_bind looks_pure)
       (auto simp: publisher_queries diff_published_def intro!: looks_weaken [OF send])
qed

lemma looks_publish_diffs:
  "looks (publish_diffs P L E T C b name version jobs) (\<lambda>g failures. failures = 0 \<longrightarrow>
     (\<forall>job \<in> set jobs. \<forall>p. job_diff_path job = Some p \<longrightarrow>
       (\<exists>db. g (db_file E) = Some (Database db) \<and> diff_published P L E T C g db b name version job p)))"
proof (induction jobs)
  case (Cons job jobs)
  show ?case
  proof (cases "job_diff_path job")
    case None
    then show ?thesis using Cons by simp
  next
    case (Some p)
    show ?thesis
      unfolding publish_diffs.simps Some option.case
      by (rule looks_bindE [OF looks_publish_one_diff], rule looks_bindE [OF Cons], rule looks_pure(1)) (use Some in auto)
  qed
qed (simp add: looks_pure)

lemma looks_get_diffs:
  "looks (get_diffs_for_version E vid) (\<lambda>g js. \<exists>db. g (db_file E) = Some (Database db) \<and> js = diffs_of db vid)"
  unfolding get_diffs_for_version_def
  by (intro looks_query_bind looks_pure(1)) (auto simp: publisher_queries diffs_of_def)

text \<open>Everything before the version is marked as published.\<close>

definition release_accepted :: "publisher_libs \<Rightarrow> tool_libs \<Rightarrow> publisher_env \<Rightarrow> tool_env \<Rightarrow> api_client \<Rightarrow> (path \<Rightarrow> pub_content option)
   \<Rightarrow> publisher_db \<Rightarrow> string \<Rightarrow> string \<Rightarrow> db_version \<Rightarrow> bool" where
  "release_accepted P L E T C g db name version v \<longleftrightarrow>
     (\<exists>b sig c. release_of db name version b v sig \<and> g (resolve E (ver_file_path v)) = Some c \<and>
        int (length (pub_bytes P c)) = ver_size_bytes v \<and>
        accepted L T (publish_form C \<lparr>pr_app = name, pr_version = version, pr_platform = bin_platform b,
          pr_binary = pub_bytes P c, pr_signature = sig, pr_checksum = ver_blake3 v\<rparr>) \<and>
        (\<forall>job \<in> set (diffs_of db (ver_id v)). \<forall>p. job_diff_path job = Some p \<longrightarrow>
           diff_published P L E T C g db b name version job p))"

definition publication :: "publisher_libs \<Rightarrow> tool_libs \<Rightarrow> publisher_env \<Rightarrow> tool_env \<Rightarrow> string option \<Rightarrow> string \<Rightarrow> string
   \<Rightarrow> pub_content world \<Rightarrow> pub_content world \<Rightarrow> bool" where
  "publication P L E T key name version w w' \<longleftrightarrow>
     (\<exists>db v u now db'. file_at w (db_file E) = Some (Database db) \<and>
        release_accepted P L E T (api_client_new u key) (file_at w) db name version v \<and>
        set_version_published now (ver_id v) db = Inr ((), db') \<and> file_at w' = (file_at w)(db_file E \<mapsto> Database db'))"

lemma wp_mark_published:
  assumes "file_at x = file_at w" "file_at w (db_file E) = Some (Database db)"
    "release_accepted P L E T (api_client_new u key) (file_at w) db name version v"
  shows "wp (pub_db E (db_file E) (\<lambda>now. set_version_published now (ver_id v))) (\<lambda>_. publication P L E T key name version w)
    (\<lambda>_ w'. file_at w' = file_at w) x"
  unfolding publication_def
proof (rule wp_pub_db, goal_cases)
  case (1 now db1 _ db' w')
  then have "set_version_published now (ver_id v) db = Inr ((), db')" "file_at w' = (file_at w)(db_file E \<mapsto> Database db')"
    using assms(1,2) by simp_all
  then show ?case using assms(2,3) by blast
qed (use assms in simp)

lemma looks_upload_release:
  "looks (upload_release P L E T C name version b v sig data) (\<lambda>g _.
     accepted L T (publish_form C \<lparr>pr_app = name, pr_version = version, pr_platform = bin_platform b,
       pr_binary = data, pr_signature = sig, pr_checksum = ver_blake3 v\<rparr>) \<and>
     (\<forall>db. g (db_file E) = Some (Database db) \<longrightarrow> (\<forall>job \<in> set (diffs_of db (ver_id v)). \<forall>p. job_diff_path job = Some p \<longrightarrow>
        diff_published P L E T C g db b name version job p)))"
  unfolding upload_release_def api_publish_version_def
  by (rule looks_bindE [OF looks_send_form], intro looks_branch looks_pure looks_bindE [OF looks_get_diffs]
        looks_bindE [OF looks_publish_diffs])
     (auto simp: accepted_def)

lemma release_acceptedI:
  "\<lbrakk>accepted L T (publish_form C \<lparr>pr_app = name, pr_version = version, pr_platform = bin_platform b,
       pr_binary = data, pr_signature = sig, pr_checksum = ver_blake3 v\<rparr>) \<and>
     (\<forall>db. g (db_file E) = Some (Database db) \<longrightarrow> (\<forall>job \<in> set (diffs_of db (ver_id v)). \<forall>p. job_diff_path job = Some p \<longrightarrow>
        diff_published P L E T C g db b name version job p));
     int (length data) = ver_size_bytes v \<and> (\<exists>c. g (resolve E (ver_file_path v)) = Some c \<and> data = pub_bytes P c);
     g (db_file E) = Some (Database db); release_of db name version b v sig\<rbrakk> \<Longrightarrow>
   release_accepted P L E T C g db name version v"
  unfolding release_accepted_def by blast

lemma wp_publish_command:
  "wp (publish_command P L E T name version url key yes) (\<lambda>_. publication P L E T key name version w)
     (\<lambda>_ w'. file_at w' = file_at w) w"
  unfolding publish_command_def
  by (rule wp_looks_bind [OF looks_open_project], simp, rule wp_looks_bind [OF looks_release],
      clarsimp simp del: wp_bindE wp_seq_fun, rule wp_looks_bind [OF looks_choose_server],
      rule wp_looks_bind [OF looks_read_release], rule wp_looks_bind [OF looks_upload_release],
      rule wp_mark_published [OF _ _ release_acceptedI])
     simp_all


section \<open>What signing leaves\<close>

definition key_in :: "pub_content key_libs \<Rightarrow> (path \<Rightarrow> pub_content option) \<Rightarrow> path \<Rightarrow> string option \<Rightarrow> bytes \<Rightarrow> bool" where
  "key_in K g p passphrase key \<longleftrightarrow>
     (\<exists>c s. g p = Some c \<and> text_of_utf8 K c = Some s \<and> parse_signing_key K s passphrase = Inr key)"

definition selected :: "string option \<Rightarrow> string option \<Rightarrow> string option \<Rightarrow> publisher_db \<Rightarrow> db_version \<Rightarrow> bool" where
  "selected version_id name version db v \<longleftrightarrow>
     (case version_id of Some vid \<Rightarrow> get_db_version vid db = Inr (Some v, db)
      | None \<Rightarrow> \<exists>n s b. name = Some n \<and> version = Some s \<and> find_by_name n (binaries_by_name db) = Some b \<and>
          get_version_by_string (bin_id b) s db = Inr (Some v, db))"

definition key_path_of :: "string option \<Rightarrow> string" where
  "key_path_of key_file = (case key_file of Some k \<Rightarrow> k | None \<Rightarrow> SIGNING_KEY_FILE)"

text \<open>The signature of one version, by a key from the key file, is stored, and nothing else changes.\<close>

definition signing :: "pub_content key_libs \<Rightarrow> tool_libs \<Rightarrow> publisher_env \<Rightarrow> string option \<Rightarrow> string option \<Rightarrow> string option
   \<Rightarrow> string option \<Rightarrow> pub_content world \<Rightarrow> pub_content world \<Rightarrow> bool" where
  "signing K L E key_file version_id name version w w' \<longleftrightarrow>
     (\<exists>q key db v ts db'. key_in K (file_at w) (resolve E (key_path_of key_file)) q key \<and>
        file_at w (db_file E) = Some (Database db) \<and> selected version_id name version db v \<and>
        set_version_signature (ver_id v) (ed_sign L key (signing_payload (ver_blake3 v) (ver_string v))) ts db = Inr ((), db') \<and>
        file_at w' = (file_at w)(db_file E \<mapsto> Database db'))"

lemma looks_load_signing_key: "looks (load_signing_key K p q) (\<lambda>g. key_in K g p q)"
  unfolding load_signing_key_def read_key_file_def looks_def
  by (auto simp: key_in_def split: sum.splits option.splits intro!: wp_read_file wp_branch)

lemma looks_version_to_sign:
  "looks (version_to_sign E version_id name version)
     (\<lambda>g v. \<exists>db. g (db_file E) = Some (Database db) \<and> selected version_id name version db v)"
  unfolding version_to_sign_def
  by (intro looks_branch looks_query_bind looks_found_bind looks_pure looks_found)
     (auto simp: publisher_queries selected_def)

lemma signing_same: "file_at w' = file_at v \<Longrightarrow> signing K L E kf vid name version w v \<Longrightarrow> signing K L E kf vid name version w w'"
  unfolding signing_def by metis

lemma signingI:
  "\<lbrakk>key_in K (file_at w) (resolve E (key_path_of key_file)) q key; file_at w (db_file E) = Some (Database db);
     \<exists>db. file_at w (db_file E) = Some (Database db) \<and> selected version_id name version db v;
     set_version_signature (ver_id v) (ed_sign L key (signing_payload (ver_blake3 v) (ver_string v))) ts db = Inr (x, db');
     file_at w' = (file_at w)(db_file E \<mapsto> Database db')\<rbrakk> \<Longrightarrow> signing K L E key_file version_id name version w w'"
  unfolding signing_def by auto blast

lemma wp_sign_command:
  "wp (sign_command K L E T version_id name version key_file pass) (\<lambda>_. signing K L E key_file version_id name version w)
     (\<lambda>_ w'. file_at w' = file_at w \<or> signing K L E key_file version_id name version w w') w"
proof -
  let ?S = "signing K L E key_file version_id name version w"
  have tail: "wp (bindE (pub_db E (db_file E) (\<lambda>_. get_db_binary bid)) (\<lambda>b. bindE (found_or ''Binary not found'' b) (\<lambda>_. returnE ())))
      (\<lambda>_. ?S) (\<lambda>_ w'. file_at w' = file_at w \<or> ?S w') v" if "?S v" for bid v
  proof (rule wp_looks [where Q = "\<lambda>_ _. True"])
    show "looks (bindE (pub_db E (db_file E) (\<lambda>_. get_db_binary bid)) (\<lambda>b. bindE (found_or ''Binary not found'' b) (\<lambda>_. returnE ())))
        (\<lambda>_ _. True)"
      by (intro looks_query_bind looks_found_bind looks_pure) (auto simp: publisher_queries)
  qed (use signing_same that in auto)
  have pass: "looks (case pass of Some p \<Rightarrow> returnE p | None \<Rightarrow> read_terminal T) (\<lambda>_ _. True)"
    by (intro looks_branch looks_pure looks_read_terminal) simp
  show ?thesis
    unfolding sign_command_def Let_def key_path_of_def [symmetric]
    by (rule wp_looks_bind [OF looks_open_project], simp, rule wp_looks_bind [OF looks_version_to_sign],
        rule wp_looks_bind [OF looks_need_path], rule wp_looks_bind [OF pass],
        rule wp_looks_bind [OF looks_map_err [OF looks_load_signing_key]],
        rule wp_looks_bind [OF looks_observe [where Q = "\<lambda>_ _. True"]], simp,
        unfold wp_bindE [of "pub_db _ _ (\<lambda>_. set_version_signature _ _ _)"], rule wp_pub_db, rule tail, rule signingI)
       (simp_all del: wp_bindE wp_seq_fun)
qed

text \<open>Signing and then publishing a version uploads the signature of the key.\<close>

lemma sign_then_publish:
  assumes "signing K L E key_file None (Some name) (Some version) w w1" "publication P L E T ak name version w1 w2"
  shows "\<exists>q key (b :: db_binary) (v :: db_version) c u. key_in K (file_at w) (resolve E (key_path_of key_file)) q key \<and> ver_string v = version \<and>
    file_at w1 (resolve E (ver_file_path v)) = Some c \<and>
    accepted L T (publish_form (api_client_new u ak) \<lparr>pr_app = name, pr_version = version, pr_platform = bin_platform b,
      pr_binary = pub_bytes P c, pr_signature = ed_sign L key (signing_payload (ver_blake3 v) version),
      pr_checksum = ver_blake3 v\<rparr>)"
proof -
  from assms(1) obtain q key db v ts db' where k: "key_in K (file_at w) (resolve E (key_path_of key_file)) q key"
    and sel: "selected None (Some name) (Some version) db v"
    and upd: "set_version_signature (ver_id v) (ed_sign L key (signing_payload (ver_blake3 v) (ver_string v))) ts db = Inr ((), db')"
    and w1: "file_at w1 = (file_at w)(db_file E \<mapsto> Database db')"
    unfolding signing_def by blast
  from assms(2) w1 obtain v1 u where rel: "release_accepted P L E T (api_client_new u ak) (file_at w1) db' name version v1"
    unfolding publication_def by auto
  then obtain b1 sig c where r: "release_of db' name version b1 v1 sig" "file_at w1 (resolve E (ver_file_path v1)) = Some c"
    "accepted L T (publish_form (api_client_new u ak) \<lparr>pr_app = name, pr_version = version, pr_platform = bin_platform b1,
       pr_binary = pub_bytes P c, pr_signature = sig, pr_checksum = ver_blake3 v1\<rparr>)"
    unfolding release_accepted_def by blast
  define f :: "db_version \<Rightarrow> db_version" where "f = (\<lambda>v. v\<lparr>ver_signature := Some (ed_sign L key (signing_payload (ver_blake3 v) (ver_string v))),
      ver_signature_timestamp := Some ts\<rparr>)"
  from sel obtain b where b: "find_by_name name (binaries_by_name db) = Some b"
    "find_first (\<lambda>v. ver_binary_id v = bin_id b \<and> ver_string v = version) (p_versions db) = Some v"
    by (auto simp: selected_def publisher_queries)
  have db': "p_binaries db' = p_binaries db" "p_versions db' = update_where (\<lambda>r. ver_id r = ver_id v)
      (\<lambda>r. r\<lparr>ver_signature := Some (ed_sign L key (signing_payload (ver_blake3 v) (ver_string v))), ver_signature_timestamp := Some ts\<rparr>)
      (p_versions db)"
    using upd by (auto simp: set_version_signature_def update_version_def split: if_splits)
  have "ver_string v = version" using find_first_Some [OF b(2)] by simp
  moreover have "v1 = f v" "sig = ed_sign L key (signing_payload (ver_blake3 v) (ver_string v))"
    using r(1) b db' by (auto simp: release_of_def publisher_queries binaries_by_name_def find_first_update_where f_def)
  ultimately show ?thesis
    using k r(2,3)
    by (intro exI [of _ q] exI [of _ key] exI [of _ b1] exI [of _ v] exI [of _ c] exI [of _ u]) (simp add: f_def)
qed


section \<open>A sample\<close>

definition sample_tool_libs :: tool_libs where
  "sample_tool_libs = \<lparr>de_response = (\<lambda>_. Some \<lparr>resp_success = True, resp_id = None, resp_message = []\<rparr>),
     ed_sign = (\<lambda>k m. replicate 64 0), ed_public = (\<lambda>k. k)\<rparr>"

definition sample_tool_env :: tool_env where
  "sample_tool_env = \<lparr>web = (\<lambda>_ _. Some (200, [])), terminal = (\<lambda>_. None), rfc3339_now = (\<lambda>_. ''2025-01-02T00:00:00Z''),
     probe_path = (\<lambda>_ p. \<lparr>probe_exists = True, probe_canonical = Some p, probe_is_file = True, probe_readable = True\<rparr>),
     new_key = (\<lambda>_. replicate 32 7)\<rparr>"

definition sample_signed_version :: db_version where
  "sample_signed_version = sample_to\<lparr>ver_signature := Some (replicate 64 0), ver_signature_timestamp := Some ''2025-01-02T00:00:00Z''\<rparr>"

definition sample_release_db :: publisher_db where
  "sample_release_db = sample_publisher_db\<lparr>p_versions := [sample_signed_version]\<rparr>"

definition sample_release_keys :: "pub_content key_libs" where
  "sample_release_keys = \<lparr>argon2id = (\<lambda>_ _ _ _. None), aead_encrypt = (\<lambda>_ _ _. None), aead_decrypt = (\<lambda>_ _ _. None),
     hex_decode_crate = (\<lambda>s. case hex_chunks s of Inl _ \<Rightarrow> None | Inr b \<Rightarrow> Some b), curve_point = (\<lambda>_. True),
     utf8_of_text = (\<lambda>s. Bytes (map of_char s)),
     text_of_utf8 = (\<lambda>c. case c of Bytes b \<Rightarrow> Some (map (\<lambda>x. char_of (unat x)) b) | Database _ \<Rightarrow> None)\<rparr>"

definition sample_key_file :: string where
  "sample_key_file = projr (signing_key_text sample_release_keys (replicate 32 7) None Standard [] [])"

abbreviation sample_release_at :: "nat \<Rightarrow> pub_content world" where
  "sample_release_at n \<equiv> quiet_world [([''.deltaship''], Dir),
     ([''.deltaship'', ''publisher.db''], File (Database sample_release_db)), ([''new''], File (Bytes sample_new_file)),
     ([''signing.key''], File (Bytes (map of_char sample_key_file)))] n"

definition sample_release_world :: "pub_content world" where
  "sample_release_world = sample_release_at 0"

abbreviation sample_publish :: "pub_content world \<Rightarrow> (pub_error + unit) \<times> pub_content world" where
  "sample_publish w \<equiv> publish_command sample_publisher_libs sample_tool_libs sample_publisher_env sample_tool_env ''app'' ''2.0.0''
     (Some DEFAULT_SERVER_URL) None False w"

definition sample_app :: db_binary where
  "sample_app = hd (p_binaries sample_publisher_db)"

lemma sample_release_simps:
  "binaries_by_name sample_release_db = [sample_app]" "p_versions sample_release_db = [sample_signed_version]"
  "p_jobs sample_release_db = []" "ver_file_path sample_signed_version = ''/new''" "ver_string sample_signed_version = ''2.0.0''"
  "ver_binary_id sample_signed_version = ''b1''" "ver_id sample_signed_version = ''2''" "ver_signature sample_signed_version = Some (replicate 64 0)"
  "ver_size_bytes sample_signed_version = 6" "bin_name sample_app = ''app''" "bin_id sample_app = ''b1''"
  by (simp_all add: sample_release_db_def sample_signed_version_def sample_publisher_db_def empty_publisher_db_def sample_to_def
      sample_version_def binaries_by_name_def sort_by_def sample_new_file_def sample_app_def)

lemma sample_key_file_text: "text_of_utf8 sample_release_keys (Bytes (map of_char s)) = Some s"
  by (simp add: sample_release_keys_def comp_def unat_of_char)

lemma sample_key_file_key: "parse_signing_key sample_release_keys sample_key_file p = Inr (replicate 32 7)"
proof (rule plain_key_roundtrip [where level = Standard and salt = "[]" and nonce = "[]"])
  show "key_laws sample_release_keys"
    unfolding key_laws_def by (simp add: sample_release_keys_def hex_chunks_to_hex comp_def unat_of_char)
qed (simp_all add: sample_key_file_def signing_key_text_def)

lemma sample_marked: "\<exists>db'. set_version_published now ''2'' sample_release_db = Inr ((), db')"
  by (simp add: set_version_published_def update_version_def sample_release_simps)

lemma sample_upload:
  "max_retries C = 3 \<Longrightarrow>
   \<exists>n. upload_release sample_publisher_libs sample_tool_libs sample_publisher_env sample_tool_env C ''app'' ''2.0.0'' sample_app sample_signed_version sig d
     (sample_release_at k) = (Inr (), sample_release_at n)"
  by (simp add: upload_release_def api_publish_version_def send_form_def get_diffs_for_version_def pub_db_def db_run_def publisher_queries
      run_steps run_files sample_pub_paths sample_release_simps numeral_eq_Suc sample_tool_env_def sample_tool_libs_def status_success_def
      found_or_def sort_by_def)

lemma sample_publish_ok: "\<exists>w'. sample_publish (sample_release_at k) = (Inr (), w')"
proof -
  define C where "C = api_client_new DEFAULT_SERVER_URL None"
  obtain db' where m: "set_version_published ''2025-01-02 00:00:00'' ''2'' sample_release_db = Inr ((), db')"
    using sample_marked by blast
  have len: "length sample_new_file = 6" "max_retries C = 3" by (simp_all add: sample_new_file_def C_def api_client_new_def)
  show ?thesis
    using m sample_upload [OF len(2), of "replicate 64 0" sample_new_file "Suc (Suc (Suc (Suc (Suc (Suc (Suc (Suc k)))))))"]
    by (auto simp: publish_command_def open_project_def open_publisher_db_def release_to_publish_def choose_server_def read_release_def
        need_path_def found_or_def find_by_name_def publisher_queries sample_release_simps sample_pub_paths sample_lib_simps
        pub_db_def db_run_def run_steps run_files pub_read_def pub_bytes_def return_db_def path_exists_def len
        C_def [symmetric] sample_pub_paths(5) [unfolded sample_ver_simps])
qed

abbreviation sample_sign :: "pub_content world \<Rightarrow> (pub_error + unit) \<times> pub_content world" where
  "sample_sign w \<equiv> sign_command sample_release_keys sample_tool_libs sample_publisher_env sample_tool_env None (Some ''app'') (Some ''2.0.0'')
     (Some ''/signing.key'') (Some []) w"

lemma sample_sign_ok: "\<exists>n. sample_sign sample_release_world = (Inr (), sample_release_at n)"
proof -
  have k: "resolve sample_publisher_env ''/signing.key'' = [''signing.key'']"
    by (simp add: resolve_def sample_publisher_env_def path_join_def starts_with_def path_components_def)
  have "set_version_signature ''2'' (replicate 64 0) ''2025-01-02T00:00:00Z'' sample_release_db = Inr ((), sample_release_db)"
    by (simp add: set_version_signature_def update_version_def sample_release_simps update_where_def)
       (simp add: sample_release_db_def sample_signed_version_def)
  moreover have "ed_sign sample_tool_libs key m = replicate 64 0" "rfc3339_now sample_tool_env n = ''2025-01-02T00:00:00Z''" for key m n
    by (simp_all add: sample_tool_libs_def sample_tool_env_def)
  moreover have "find_first (\<lambda>b. bin_id b = ''b1'') (p_binaries sample_release_db) = Some sample_app"
    by (simp add: sample_release_db_def sample_publisher_db_def sample_app_def)
  ultimately show ?thesis
    by (simp add: sign_command_def open_project_def open_publisher_db_def version_to_sign_def need_path_def found_or_def find_by_name_def
        load_signing_key_def read_key_file_def sample_key_file_text sample_key_file_key k
        publisher_queries sample_release_simps sample_pub_paths sample_lib_simps sample_release_world_def
        pub_db_def db_run_def run_steps run_files return_db_def path_exists_def)
qed


section \<open>Properties\<close>

text \<open>
  C13: a version is marked as published only after its uploads were accepted. When the command
  returns, the server has accepted the file of the version, which has the recorded size, with its stored
  signature, and every completed diff to this version, whose file has the recorded hash; the only change is that the version
  is marked. When the command fails, whatever failed, no file has changed.
\<close>

theorem published_after_upload:
  "case publish_command P L E T name version server_url key yes w of
     (Inr _, w') \<Rightarrow> publication P L E T key name version w w'
   | (Inl _, w') \<Rightarrow> file_at w' = file_at w"
  using wp_publish_command [of P L E T name version server_url key yes w]
  by (simp add: wp_def split: prod.splits sum.splits)

theorem published_after_upload_witness:
  "\<exists>w'. sample_publish sample_release_world = (Inr (), w') \<and>
     publication sample_publisher_libs sample_tool_libs sample_publisher_env sample_tool_env None ''app'' ''2.0.0'' sample_release_world w'"
proof -
  obtain w' where w': "sample_publish sample_release_world = (Inr (), w')"
    unfolding sample_release_world_def using sample_publish_ok by blast
  then show ?thesis
    using published_after_upload [where P = sample_publisher_libs and L = sample_tool_libs and E = sample_publisher_env
        and T = sample_tool_env and name = "''app''" and version = "''2.0.0''" and server_url = "Some DEFAULT_SERVER_URL"
        and key = None and yes = False and w = sample_release_world]
    by simp
qed

end
