(* ===== verification/Archive.thy ===== *)
theory Archive
  imports Diff_Manager
begin

text \<open>
  Reading the archives the publisher's tool imports (\<open>crates/deltaship-publisher/src/archive.rs\<close>). What the
  \<open>flate2\<close> and \<open>tar\<close> crates make of the bytes of a file is a parameter: a sequence of entries, which may
  break off. So are the JSON of the metadata and the recognition of a database file. The directory
  \<open>tempfile\<close> creates and the answers of \<open>canonicalize\<close> are observations of the operating system; a temporary
  directory is removed when its owner is dropped.
\<close>

section \<open>Archives\<close>

datatype entry_type = TarFile | TarDirectory | TarSymlink | TarHardLink | TarOther

record tar_entry =
  te_path :: "string option"
  te_type :: entry_type
  te_declared :: "nat option"
  te_data :: bytes
  te_broken :: bool

datatype tar_event = BrokenStream | Entry tar_entry

record archive_metadata =
  format_version :: string
  exported_at :: string
  publisher_version :: string
  publisher_name :: "string option"
  includes_keys :: bool
  includes_binaries :: bool
  binary_count :: nat
  version_count :: nat

datatype archive_error =
    AIo io_error
  | InvalidArchive string
  | MissingFile string
  | AJson
  | ValidationFailed string

record archive_libs =
  untar :: "bytes \<Rightarrow> tar_event list option"
  as_database :: "bytes \<Rightarrow> publisher_db option"
  de_metadata :: "bytes \<Rightarrow> archive_metadata option"

record archive_env =
  temp_dir :: "nat \<Rightarrow> path"
  a_canonical :: "nat \<Rightarrow> path \<Rightarrow> path option"
  walked :: "nat \<Rightarrow> path \<Rightarrow> bool"
  link_at :: "nat \<Rightarrow> path \<Rightarrow> bool"
  removed_early :: "nat \<Rightarrow> path \<Rightarrow> bool"

definition MAX_TOTAL_UNCOMPRESSED :: nat where
  "MAX_TOTAL_UNCOMPRESSED = 4 * 1024 * 1024 * 1024"

definition MAX_ENTRY_SIZE :: nat where
  "MAX_ENTRY_SIZE = 1024 * 1024 * 1024"

definition MAX_ARCHIVE_ENTRIES :: nat where
  "MAX_ARCHIVE_ENTRIES = 100000"


section \<open>Files\<close>

text \<open>The bytes of a database are a database wherever they are written.\<close>

definition content_of_bytes :: "archive_libs \<Rightarrow> bytes \<Rightarrow> pub_content" where
  "content_of_bytes A b = (case as_database A b of Some db \<Rightarrow> Database db | None \<Rightarrow> Bytes b)"

text \<open>\<open>remove_dir_all\<close>: a fault leaves the part of the tree that was not yet removed.\<close>

definition prune_tree :: "(path \<Rightarrow> bool) \<Rightarrow> 'c world \<Rightarrow> 'c world" where
  "prune_tree P w = w\<lparr>fs := filter (\<lambda>(p, _). \<not> P p) (fs w)\<rparr>"

definition remove_dir_all :: "archive_env \<Rightarrow> path \<Rightarrow> ('c, io_error, unit) io" where
  "remove_dir_all A d w =
     (case next_op w of
        (NoFault, w') \<Rightarrow>
          (if lookup w' d = Some Dir then (Inr (), prune_tree (in_dir d) w')
           else (Inl (if lookup w' d = None then NoEntry else NotADirectory), w'))
      | (_, w') \<Rightarrow> (Inl IoFault, prune_tree (\<lambda>p. in_dir d p \<and> removed_early A (tick w) p) w'))"

text \<open>A computation with a temporary directory, which is removed when the computation fails.\<close>

definition make_temp_dir :: "archive_env \<Rightarrow> ('c, io_error, path) io" where
  "make_temp_dir A = bindE (observe (temp_dir A)) (\<lambda>d. bindE (create_dir_all d) (\<lambda>_. returnE d))"

definition drop_on_error :: "archive_env \<Rightarrow> path \<Rightarrow> ('c, 'e, 'a) io \<Rightarrow> ('c, 'e, 'a) io" where
  "drop_on_error A d m = on_error m (attempt (remove_dir_all A d) :: ('c, 'e, unit option) io)"


section \<open>Extraction\<close>

definition is_ascii_control :: "char \<Rightarrow> bool" where
  "is_ascii_control c \<longleftrightarrow> of_char c < (32 :: nat) \<or> of_char c = (127 :: nat)"

definition validate_archive_entry_path :: "string \<Rightarrow> path \<Rightarrow> archive_error + unit" where
  "validate_archive_entry_path entry_path target_dir =
     (if \<exists>c \<in> set entry_path. is_ascii_control c
      then Inl (ValidationFailed ''Control character detected in archive entry path'')
      else if starts_with entry_path ''/'' then Inl (ValidationFailed ''Absolute path in archive entry'')
      else if ''..'' \<in> set (path_components entry_path) then Inl (ValidationFailed ''Path traversal detected in archive entry'')
      else if \<not> in_dir target_dir (target_dir @ path_components entry_path)
      then Inl (ValidationFailed ''Archive entry would escape target directory'')
      else Inr ())"

text \<open>The file of one entry: its parents, its content through the size limit, the budget, and the
  position of the result.\<close>

definition discard_file :: "path \<Rightarrow> string \<Rightarrow> (pub_content, archive_error, 'a) io" where
  "discard_file p msg = bindE (attempt (remove_file p)) (\<lambda>_. throwE (ValidationFailed msg))"

definition check_extracted :: "archive_env \<Rightarrow> path \<Rightarrow> path \<Rightarrow> (pub_content, archive_error, unit) io" where
  "check_extracted A target full_path =
     bindE (get_world (path_exists full_path)) (\<lambda>present.
     if \<not> present then returnE ()
     else
     bindE (observe (\<lambda>n. a_canonical A n full_path)) (\<lambda>c.
     bindE (observe (\<lambda>n. a_canonical A n target)) (\<lambda>t.
     case c of None \<Rightarrow> throwE (AIo IoFault) | Some canonical_path \<Rightarrow>
     case t of None \<Rightarrow> throwE (AIo IoFault) | Some canonical_target \<Rightarrow>
     if \<not> in_dir canonical_target canonical_path then discard_file full_path ''Extracted file escaped target directory''
     else returnE ())))"

definition extract_file ::
  "archive_libs \<Rightarrow> archive_env \<Rightarrow> path \<Rightarrow> path \<Rightarrow> tar_entry \<Rightarrow> nat \<Rightarrow> (pub_content, archive_error, nat) io" where
  "extract_file L A target full_path e total_written =
     (let declared_size = (case te_declared e of Some n \<Rightarrow> n | None \<Rightarrow> 0);
          limited = take (MAX_ENTRY_SIZE + 1) (te_data e); written = length limited in
      if declared_size > MAX_ENTRY_SIZE then throwE (ValidationFailed ''Archive entry exceeds per-entry size limit'')
      else
      bindE (map_err AIo (create_dir_all (butlast full_path))) (\<lambda>_.
      bindE (map_err AIo (write_file full_path (content_of_bytes L limited))) (\<lambda>_.
      if te_broken e \<and> written \<le> MAX_ENTRY_SIZE then throwE (AIo IoFault)
      else if written > MAX_ENTRY_SIZE then discard_file full_path ''Archive entry exceeds per-entry size limit''
      else
      let total = min (total_written + written) (2 ^ 64 - 1) in
      if total > MAX_TOTAL_UNCOMPRESSED then discard_file full_path ''Archive exceeds total uncompressed size limit''
      else bindE (check_extracted A target full_path) (\<lambda>_. returnE total))))"

definition extract_entry ::
  "archive_libs \<Rightarrow> archive_env \<Rightarrow> path \<Rightarrow> tar_entry \<Rightarrow> nat \<Rightarrow> (pub_content, archive_error, nat) io" where
  "extract_entry L A target e total_written =
     (case te_path e of None \<Rightarrow> throwE (AIo InvalidData) | Some entry_path \<Rightarrow>
      if te_type e = TarSymlink \<or> te_type e = TarHardLink
      then throwE (ValidationFailed ''Symlinks/hardlinks not allowed in archive'')
      else
      bindE (from_sum (validate_archive_entry_path entry_path target)) (\<lambda>_.
      let full_path = path_join target entry_path in
      case te_type e of
        TarDirectory \<Rightarrow> bindE (map_err AIo (create_dir_all full_path)) (\<lambda>_. returnE total_written)
      | TarFile \<Rightarrow> extract_file L A target full_path e total_written
      | _ \<Rightarrow> returnE total_written))"

fun extract_entries ::
  "archive_libs \<Rightarrow> archive_env \<Rightarrow> path \<Rightarrow> tar_event list \<Rightarrow> nat \<Rightarrow> nat \<Rightarrow> (pub_content, archive_error, nat) io" where
  "extract_entries L A target [] entry_count total_written = returnE total_written"
| "extract_entries L A target (BrokenStream # evs) entry_count total_written = throwE (AIo IoFault)"
| "extract_entries L A target (Entry e # evs) entry_count total_written =
     (if entry_count + 1 > MAX_ARCHIVE_ENTRIES then throwE (ValidationFailed ''Archive contains too many entries'')
      else bindE (extract_entry L A target e total_written) (extract_entries L A target evs (entry_count + 1)))"

definition extract_archive ::
  "publisher_libs \<Rightarrow> archive_libs \<Rightarrow> archive_env \<Rightarrow> path \<Rightarrow> (pub_content, archive_error, path) io" where
  "extract_archive P L A input_path =
     bindE (map_err AIo (pub_read P input_path)) (\<lambda>data.
     bindE (map_err AIo (make_temp_dir A)) (\<lambda>target.
     drop_on_error A target
      (case untar L data of None \<Rightarrow> throwE (AIo IoFault) | Some evs \<Rightarrow>
       bindE (extract_entries L A target evs 0 0) (\<lambda>_. returnE target))))"


section \<open>Inspection\<close>

text \<open>\<open>validate_archive\<close> on the entries: the last metadata wins.\<close>

fun scan_archive :: "archive_libs \<Rightarrow> tar_event list \<Rightarrow> archive_metadata option \<Rightarrow> bool
   \<Rightarrow> archive_error + archive_metadata option \<times> bool" where
  "scan_archive L [] metadata has_db = Inr (metadata, has_db)"
| "scan_archive L (BrokenStream # evs) metadata has_db = Inl (AIo IoFault)"
| "scan_archive L (Entry e # evs) metadata has_db =
     (case te_path e of None \<Rightarrow> Inl (AIo InvalidData) | Some p \<Rightarrow>
      if ends_with p ''metadata.json'' then
        (if te_broken e then Inl (AIo IoFault)
         else case de_metadata L (te_data e) of None \<Rightarrow> Inl AJson | Some m \<Rightarrow> scan_archive L evs (Some m) has_db)
      else scan_archive L evs metadata (has_db \<or> ends_with p ''publisher.db''))"

definition validate_archive :: "publisher_libs \<Rightarrow> archive_libs \<Rightarrow> path \<Rightarrow> (pub_content, archive_error, archive_metadata) io" where
  "validate_archive P L input_path =
     bindE (map_err AIo (pub_read P input_path)) (\<lambda>data.
     case untar L data of None \<Rightarrow> throwE (AIo IoFault) | Some evs \<Rightarrow>
     bindE (from_sum (scan_archive L evs None False)) (\<lambda>(metadata, has_db).
     case metadata of None \<Rightarrow> throwE (MissingFile ''metadata.json not found in archive'') | Some m \<Rightarrow>
     if \<not> has_db then throwE (MissingFile ''publisher.db not found in archive'') else returnE m))"

definition find_export_dir :: "path \<Rightarrow> (pub_content, archive_error, path) io" where
  "find_export_dir d =
     bindE (map_err AIo io_point) (\<lambda>_.
     bindE (get_world (is_dir (d @ [''deltaship-export'']))) (\<lambda>found.
     if found then returnE (d @ [''deltaship-export''])
     else
     bindE (get_world (path_exists (d @ [''metadata.json'']))) (\<lambda>direct.
     if direct then returnE d
     else throwE (InvalidArchive ''Could not find deltaship-export directory in archive''))))"

definition read_extracted_metadata ::
  "publisher_libs \<Rightarrow> archive_libs \<Rightarrow> path \<Rightarrow> (pub_content, archive_error, archive_metadata) io" where
  "read_extracted_metadata P L export_dir =
     bindE (map_err (\<lambda>_. MissingFile ''metadata.json not found'') (pub_read P (export_dir @ [''metadata.json'']))) (\<lambda>content.
     case de_metadata L content of None \<Rightarrow> throwE AJson | Some m \<Rightarrow> returnE m)"

definition archive_has_file :: "path \<Rightarrow> string \<Rightarrow> 'c world \<Rightarrow> bool" where
  "archive_has_file export_dir relative_path w \<longleftrightarrow> path_exists (path_join export_dir relative_path) w"


section \<open>Confinement\<close>

lemma map_of_filter_keys: "map_of (filter (\<lambda>(p, _). \<not> P p) xs) q = (if P q then None else map_of xs q)"
  by (induction xs) auto

lemma file_at_prune_tree [simp]: "file_at (prune_tree P w) p = (if P p then None else file_at w p)"
  by (simp add: file_at_def lookup_def prune_tree_def map_of_filter_keys)

lemma touches_remove_dir_all: "(\<And>p. in_dir d p \<Longrightarrow> p \<in> S) \<Longrightarrow> touches S (remove_dir_all A d)"
  by (auto simp: touches_def same_outside_def remove_dir_all_def split: prod.splits fault.splits dest: file_at_next_op)

lemma touches_drop_on_error:
  "(\<And>p. in_dir d p \<Longrightarrow> p \<in> S) \<Longrightarrow> touches S m \<Longrightarrow> touches S (drop_on_error A d m)"
  unfolding drop_on_error_def
  by (intro footprint.keeps_on_error footprint.keeps_wrap touches_remove_dir_all)

lemma validated_entry:
  assumes "validate_archive_entry_path p target = Inr x"
  shows "path_join target p = target @ path_components p" "in_dir target (path_join target p)" "''..'' \<notin> set (path_components p)"
  using assms by (auto simp: validate_archive_entry_path_def path_join_def split: if_splits)

lemma touches_discard: "p \<in> S \<Longrightarrow> touches S (discard_file p msg)"
  unfolding discard_file_def by (intro touches_intros)

lemma touches_check_extracted: "p \<in> S \<Longrightarrow> touches S (check_extracted A target p)"
  unfolding check_extracted_def by (intro touches_intros touches_observe touches_discard)

lemma touches_extract_file: "p \<in> S \<Longrightarrow> touches S (extract_file L A target p e n)"
  unfolding extract_file_def Let_def by (intro touches_intros touches_discard touches_check_extracted)

lemma touches_from_sum_bind:
  "(\<And>x. r = Inr x \<Longrightarrow> touches S (f x)) \<Longrightarrow> touches S (bindE (from_sum r) f)"
  by (cases r) (auto simp: touches_def bindE_def from_sum_def same_outside_def)

lemma touches_extract_entry:
  assumes "\<And>p. in_dir target p \<Longrightarrow> p \<in> S"
  shows "touches S (extract_entry L A target e n)"
  unfolding extract_entry_def Let_def
  by (intro touches_intros touches_from_sum_bind)
     (auto split: entry_type.splits intro!: touches_intros touches_extract_file assms dest: validated_entry(2))

lemma touches_extract_entries:
  assumes "\<And>p. in_dir target p \<Longrightarrow> p \<in> S"
  shows "touches S (extract_entries L A target evs c n)"
proof (induction evs arbitrary: c n)
  case (Cons ev evs)
  then show ?case
    by (cases ev) (auto simp del: One_nat_def intro!: touches_intros touches_extract_entry [OF assms])
qed (auto intro!: touches_intros)

lemma touches_make_temp_dir: "touches S (make_temp_dir A)"
  unfolding make_temp_dir_def by (intro touches_intros touches_observe)

lemma wp_make_temp_dir:
  "(\<And>n w'. file_at w' = file_at w \<Longrightarrow> Q (temp_dir A n) w') \<Longrightarrow> (\<And>e w'. file_at w' = file_at w \<Longrightarrow> F e w') \<Longrightarrow>
   wp (make_temp_dir A) Q F w"
  unfolding make_temp_dir_def by (auto intro!: wp_prims)


section \<open>Limits\<close>

fun extracted_size :: "tar_event list \<Rightarrow> nat" where
  "extracted_size [] = 0"
| "extracted_size (BrokenStream # evs) = extracted_size evs"
| "extracted_size (Entry e # evs) = (if te_type e = TarFile then length (te_data e) else 0) + extracted_size evs"

definition entry_ok :: "tar_event \<Rightarrow> bool" where
  "entry_ok ev \<longleftrightarrow> (\<exists>e p. ev = Entry e \<and> te_path e = Some p \<and> te_type e \<noteq> TarSymlink \<and> te_type e \<noteq> TarHardLink \<and>
     \<not> starts_with p ''/'' \<and> ''..'' \<notin> set (path_components p) \<and> (te_type e = TarFile \<longrightarrow> length (te_data e) \<le> MAX_ENTRY_SIZE))"

definition archive_ok :: "tar_event list \<Rightarrow> bool" where
  "archive_ok evs \<longleftrightarrow> length evs \<le> MAX_ARCHIVE_ENTRIES \<and> extracted_size evs \<le> MAX_TOTAL_UNCOMPRESSED \<and> (\<forall>ev \<in> set evs. entry_ok ev)"

lemma wp_total_true: "wp m (\<lambda>_ _. True) (\<lambda>_ _. True) w"
  by (simp add: wp_def split: prod.splits sum.splits)

lemma wp_extract_file:
  "wp (extract_file L A target p e n)
     (\<lambda>m _. length (te_data e) \<le> MAX_ENTRY_SIZE \<and> m = n + length (te_data e) \<and> m \<le> MAX_TOTAL_UNCOMPRESSED) (\<lambda>_ _. True) w"
proof -
  have ends: "wp (discard_file q msg) Q (\<lambda>_ _. True) v" for q msg Q v
    unfolding discard_file_def by (auto intro!: wp_prims)
  have le: "min (n + k) (2 ^ 64 - 1) \<le> MAX_TOTAL_UNCOMPRESSED \<Longrightarrow> min (n + k) (2 ^ 64 - 1) = n + k" for k
    by (simp add: MAX_TOTAL_UNCOMPRESSED_def min_def split: if_splits)
  have small: "length (take (Suc MAX_ENTRY_SIZE) (te_data e)) = length (te_data e)"
    if "length (take (Suc MAX_ENTRY_SIZE) (te_data e)) \<le> MAX_ENTRY_SIZE"
    using that by simp
  have checked: "wp (check_extracted A target p) (\<lambda>_ _. X) (\<lambda>_ _. True) v" if X for X v
    using that wp_total_true [of "check_extracted A target p" v] by (simp add: wp_def split: prod.splits sum.splits)
  show ?thesis
    unfolding extract_file_def Let_def using small le
    by (auto intro!: wp_prims ends checked wp_branch)
qed

lemma wp_extract_entry:
  assumes n: "n \<le> MAX_TOTAL_UNCOMPRESSED"
  shows "wp (extract_entry L A target e n)
    (\<lambda>m _. entry_ok (Entry e) \<and> m = n + extracted_size [Entry e] \<and> m \<le> MAX_TOTAL_UNCOMPRESSED) (\<lambda>_ _. True) w"
proof (cases "te_path e")
  case (Some p)
  show ?thesis
  proof (cases "te_type e = TarSymlink \<or> te_type e = TarHardLink")
    case False
    have ok: "entry_ok (Entry e)"
      if "validate_archive_entry_path p target = Inr ()" "te_type e = TarFile \<Longrightarrow> length (te_data e) \<le> MAX_ENTRY_SIZE"
      using that Some False validated_entry(3) [OF that(1)]
      by (auto simp: entry_ok_def validate_archive_entry_path_def split: if_splits)
    show ?thesis
      unfolding extract_entry_def Some option.case Let_def using False
      by (auto split: sum.splits entry_type.splits intro!: wp_prims wp_mono [OF wp_extract_file] ok simp: n)
  qed (simp add: extract_entry_def Some)
qed (simp add: extract_entry_def)

lemma wp_extract_entries:
  "n \<le> MAX_TOTAL_UNCOMPRESSED \<Longrightarrow> c \<le> MAX_ARCHIVE_ENTRIES \<Longrightarrow>
   wp (extract_entries L A target evs c n)
     (\<lambda>m _. c + length evs \<le> MAX_ARCHIVE_ENTRIES \<and> n + extracted_size evs \<le> MAX_TOTAL_UNCOMPRESSED \<and> (\<forall>ev \<in> set evs. entry_ok ev))
     (\<lambda>_ _. True) w"
proof (induction evs arbitrary: c n w)
  case (Cons ev evs)
  show ?case
  proof (cases ev)
    case (Entry e)
    show ?thesis
    proof (cases "c + 1 > MAX_ARCHIVE_ENTRIES")
      case False
      then have c: "Suc c \<le> MAX_ARCHIVE_ENTRIES" by simp
      have "wp (extract_entries L A target evs (c + 1) m)
          (\<lambda>m' _. c + length (ev # evs) \<le> MAX_ARCHIVE_ENTRIES \<and> n + extracted_size (ev # evs) \<le> MAX_TOTAL_UNCOMPRESSED \<and>
            (\<forall>ev \<in> set (ev # evs). entry_ok ev)) (\<lambda>_ _. True) v"
        if "entry_ok (Entry e)" "m = n + extracted_size [Entry e]" "m \<le> MAX_TOTAL_UNCOMPRESSED" for m v
        by (rule wp_mono [OF Cons.IH [of m "Suc c" v, unfolded Suc_eq_plus1]]) (use that c Entry in auto)
      then show ?thesis
        using False wp_mono [OF wp_extract_entry [OF Cons.prems(1)]] unfolding Entry extract_entries.simps
        by (simp del: extracted_size.simps)
    qed (simp add: Entry)
  qed simp
qed simp


text \<open>The whole extraction.\<close>

lemma touches_extract_archive: "touches {p. \<exists>n. in_dir (temp_dir A n) p} (extract_archive P L A input_path)"
  unfolding extract_archive_def
proof (rule footprint.keeps_bindE, rule footprint.keeps_wrap, rule touches_publisher(1),
    rule footprint.keeps_bindE_ret [where P = "\<lambda>d. \<exists>n. d = temp_dir A n"])
  fix data d
  assume "\<exists>n. d = temp_dir A n"
  then show "touches {p. \<exists>n. in_dir (temp_dir A n) p} (drop_on_error A d (case untar L data of None \<Rightarrow> throwE (AIo IoFault) | Some evs \<Rightarrow>
      bindE (extract_entries L A d evs 0 0) (\<lambda>_. returnE d)))"
    by (intro touches_drop_on_error touches_intros touches_extract_entries) auto
qed (auto intro!: touches_intros touches_make_temp_dir wp_make_temp_dir)

lemma wp_extract_archive:
  "wp (extract_archive P L A input_path) (\<lambda>d _. \<exists>n c evs. d = temp_dir A n \<and> file_at w input_path = Some c \<and>
      untar L (pub_bytes P c) = Some evs \<and> archive_ok evs) (\<lambda>_ _. True) w"
  unfolding extract_archive_def drop_on_error_def
  by (auto intro!: wp_pub_read wp_make_temp_dir wp_branch wp_mono [OF wp_extract_entries] simp: archive_ok_def) blast


section \<open>A sample\<close>

definition sample_tar_entry :: tar_entry where
  "sample_tar_entry = \<lparr>te_path = Some ''deltaship-export/metadata.json'', te_type = TarFile, te_declared = Some 1,
     te_data = [1], te_broken = False\<rparr>"

definition sample_archive_libs :: archive_libs where
  "sample_archive_libs = \<lparr>untar = (\<lambda>_. Some [Entry sample_tar_entry]), as_database = (\<lambda>_. None),
     de_metadata = (\<lambda>_. None)\<rparr>"

definition sample_archive_env :: archive_env where
  "sample_archive_env = \<lparr>temp_dir = (\<lambda>_. [''tmp'']), a_canonical = (\<lambda>_. Some), walked = (\<lambda>_ _. True), link_at = (\<lambda>_ _. False),
     removed_early = (\<lambda>_ _. False)\<rparr>"

definition sample_archive_world :: "pub_content world" where
  "sample_archive_world = quiet_world [([''in.tar.gz''], File (Bytes [9])), ([''keep''], File (Bytes [8]))] 0"

abbreviation sample_extract :: "publisher_libs \<Rightarrow> (archive_error + path) \<times> pub_content world" where
  "sample_extract P \<equiv> extract_archive P sample_archive_libs sample_archive_env [''in.tar.gz''] sample_archive_world"

lemma sample_entry_path:
  "validate_archive_entry_path ''deltaship-export/metadata.json'' [''tmp''] = Inr ()"
  "path_join [''tmp''] ''deltaship-export/metadata.json'' = [''tmp'', ''deltaship-export'', ''metadata.json'']"
  by code_simp+

lemma sample_limits:
  "0 < MAX_ENTRY_SIZE" "0 < MAX_TOTAL_UNCOMPRESSED" "0 < MAX_ARCHIVE_ENTRIES" "MAX_ENTRY_SIZE \<noteq> 0" "MAX_TOTAL_UNCOMPRESSED \<noteq> 0" "MAX_ARCHIVE_ENTRIES \<noteq> 0"
  by (simp_all add: MAX_ENTRY_SIZE_def MAX_TOTAL_UNCOMPRESSED_def MAX_ARCHIVE_ENTRIES_def)

lemma sample_extract_ok: "\<exists>w'. sample_extract P = (Inr [''tmp''], w')"
  by (simp add: extract_archive_def sample_archive_world_def pub_read_def make_temp_dir_def drop_on_error_def extract_entry_def
      extract_file_def check_extracted_def content_of_bytes_def path_exists_def in_dir_def
      sample_archive_libs_def sample_archive_env_def sample_tar_entry_def sample_entry_path run_steps run_files pub_bytes_def
      sample_limits)


section \<open>Properties\<close>

text \<open>
  C16: an archive is extracted only into its temporary directory, within limits. Whatever bytes the archive
  has and whatever operations fail, no file outside the temporary directory changes; and if
  extraction succeeds, the archive has at most 100000 entries, no links, no absolute or upward paths, no
  file above 1 GiB, and at most 4 GiB of files.
\<close>

theorem extraction_confined:
  "case extract_archive P L A input_path w of (r, w') \<Rightarrow>
     (\<forall>p. (\<forall>n. \<not> in_dir (temp_dir A n) p) \<longrightarrow> file_at w' p = file_at w p) \<and>
     (\<forall>d. r = Inr d \<longrightarrow> (\<exists>n c evs. d = temp_dir A n \<and> file_at w input_path = Some c \<and>
        untar L (pub_bytes P c) = Some evs \<and> archive_ok evs))"
proof -
  define S where "S = {p. \<exists>n. in_dir (temp_dir A n) p}"
  define Q where "Q = (\<lambda>d (w' :: pub_content world). \<exists>n c evs. d = temp_dir A n \<and> file_at w input_path = Some c \<and>
        untar L (pub_bytes P c) = Some evs \<and> archive_ok evs)"
  have frame: "touches S (extract_archive P L A input_path)"
    unfolding S_def by (rule touches_extract_archive)
  have limits: "wp (extract_archive P L A input_path) Q (\<lambda>_ _. True) w"
    unfolding Q_def by (rule wp_extract_archive)
  obtain r w' where e: "extract_archive P L A input_path w = (r, w')" by (cases "extract_archive P L A input_path w")
  have "file_at w' p = file_at w p" if "\<forall>n. \<not> in_dir (temp_dir A n) p" for p
    using touchesD [OF frame e] that by (auto simp: S_def)
  moreover have "Q d w'" if "r = Inr d" for d
    using wpD(1) [OF limits] e that by auto
  ultimately show ?thesis unfolding e Q_def by auto
qed

theorem extraction_confined_witness:
  "\<exists>w'. sample_extract sample_publisher_libs = (Inr [''tmp''], w') \<and>
     file_at w' [''keep''] = Some (Bytes [8]) \<and> archive_ok [Entry sample_tar_entry]"
proof -
  obtain w' where w': "sample_extract sample_publisher_libs = (Inr [''tmp''], w')" using sample_extract_ok by blast
  have keep: "\<forall>n. \<not> in_dir (temp_dir sample_archive_env n) [''keep'']" by (simp add: sample_archive_env_def in_dir_def)
  have "file_at w' [''keep''] = file_at sample_archive_world [''keep'']"
    "\<exists>evs c. untar sample_archive_libs c = Some evs \<and> archive_ok evs"
    using extraction_confined [where P = sample_publisher_libs and L = sample_archive_libs and A = sample_archive_env
        and input_path = "[''in.tar.gz'']" and w = sample_archive_world]
      keep unfolding w' by auto
  then show ?thesis
    using w' by (simp add: sample_archive_libs_def sample_archive_world_def file_at_def lookup_def)
qed

end
