(* ===== verification/Publisher_Cleanup.thy ===== *)
theory Publisher_Cleanup
  imports Publisher_Commands Archive
begin

text \<open>
  The commands that remove what is no longer needed (\<open>crates/deltaship-publisher/src/commands/cleanup.rs\<close>).
  \<open>WalkDir\<close> visits the files below a directory in the order of the tree; an entry it cannot read is
  skipped. The text of an entry is that of the directory followed by the components below it, which is
  what the source compares with the paths in the database. Sums of sizes are unbounded numbers.
\<close>

section \<open>Walking a directory\<close>

definition entry_text :: "string \<Rightarrow> path \<Rightarrow> path \<Rightarrow> string" where
  "entry_text dir_text dir p = dir_text @ concat (map (\<lambda>c. CHR ''/'' # c) (drop (length dir) p))"

definition walk_files :: "archive_env \<Rightarrow> path \<Rightarrow> (pub_content, 'e, path list) io" where
  "walk_files A dir =
     bindE (get_world (\<lambda>w. filter (\<lambda>p. in_dir dir p \<and> file_at w p \<noteq> None) (map fst (fs w)))) (\<lambda>ps.
     bindE (observe (walked A)) (\<lambda>ok. returnE (filter ok ps)))"

record cleanup_result =
  orphaned_diffs :: "(string \<times> nat) list"
  orphaned_binaries :: "(string \<times> nat) list"
  failed_jobs_cleaned :: nat
  total_space :: nat

text \<open>\<open>fs::metadata(path).map(|m| m.len()).unwrap_or(0)\<close>\<close>

definition size_or_zero :: "publisher_libs \<Rightarrow> path \<Rightarrow> (pub_content, 'e, nat) io" where
  "size_or_zero P p = bindE (attempt (pub_read P p)) (\<lambda>b. returnE (case b of None \<Rightarrow> 0 | Some d \<Rightarrow> length d))"

fun remove_orphans :: "publisher_libs \<Rightarrow> string \<Rightarrow> path \<Rightarrow> string list \<Rightarrow> bool \<Rightarrow> path list
   \<Rightarrow> (pub_content, pub_error, (string \<times> nat) list) io" where
  "remove_orphans P dir_text dir known_paths dry_run [] = returnE []"
| "remove_orphans P dir_text dir known_paths dry_run (p # ps) =
     bindE (get_world (\<lambda>w. file_at w p \<noteq> None)) (\<lambda>is_file.
     if \<not> is_file \<or> entry_text dir_text dir p \<in> set known_paths then remove_orphans P dir_text dir known_paths dry_run ps
     else
     bindE (size_or_zero P p) (\<lambda>size.
     bindE (if dry_run then returnE (Some ()) else attempt (remove_file p)) (\<lambda>removed.
     bindE (remove_orphans P dir_text dir known_paths dry_run ps) (\<lambda>rest.
     returnE (case removed of None \<Rightarrow> rest | Some _ \<Rightarrow> (entry_text dir_text dir p, size) # rest)))))"

definition walk_directory_for_orphans :: "publisher_libs \<Rightarrow> publisher_env \<Rightarrow> archive_env \<Rightarrow> string \<Rightarrow> string list \<Rightarrow> bool
   \<Rightarrow> (pub_content, pub_error, (string \<times> nat) list) io" where
  "walk_directory_for_orphans P E A dir_text known_paths dry_run =
     bindE (get_world (path_exists (resolve E dir_text))) (\<lambda>present.
     if \<not> present then returnE []
     else bindE (walk_files A (resolve E dir_text)) (remove_orphans P dir_text (resolve E dir_text) known_paths dry_run))"


section \<open>cleanup\<close>

definition DIFFS_DIR :: string where
  "DIFFS_DIR = ''.deltaship/diffs''"

definition BINARIES_DIR :: string where
  "BINARIES_DIR = ''.deltaship/binaries''"

definition find_orphaned_diffs :: "publisher_libs \<Rightarrow> publisher_env \<Rightarrow> archive_env \<Rightarrow> bool
   \<Rightarrow> (pub_content, pub_error, (string \<times> nat) list) io" where
  "find_orphaned_diffs P E A dry_run =
     bindE (get_world (path_exists (resolve E DIFFS_DIR))) (\<lambda>present.
     if \<not> present then returnE []
     else
     bindE (pub_db E (db_file E) (\<lambda>_. list_diff_jobs_by_status JobCompleted)) (\<lambda>completed_jobs.
     walk_directory_for_orphans P E A DIFFS_DIR (List.map_filter job_diff_path completed_jobs) dry_run))"

fun version_paths :: "publisher_env \<Rightarrow> db_binary list \<Rightarrow> (pub_content, pub_error, string list) io" where
  "version_paths E [] = returnE []"
| "version_paths E (binary # bs) =
     bindE (pub_db E (db_file E) (\<lambda>_. list_db_versions (bin_id binary))) (\<lambda>versions.
     bindE (version_paths E bs) (\<lambda>rest. returnE (map ver_file_path versions @ rest)))"

definition find_orphaned_binaries :: "publisher_libs \<Rightarrow> publisher_env \<Rightarrow> archive_env \<Rightarrow> bool
   \<Rightarrow> (pub_content, pub_error, (string \<times> nat) list) io" where
  "find_orphaned_binaries P E A dry_run =
     bindE (get_world (path_exists (resolve E BINARIES_DIR))) (\<lambda>present.
     if \<not> present then returnE []
     else
     bindE (pub_db E (db_file E) (\<lambda>_. list_db_binaries)) (\<lambda>binaries.
     bindE (version_paths E binaries) (\<lambda>known_paths.
     walk_directory_for_orphans P E A BINARIES_DIR known_paths dry_run)))"

fun delete_failed_jobs :: "publisher_env \<Rightarrow> bool \<Rightarrow> db_diff_job list \<Rightarrow> (pub_content, pub_error, nat) io" where
  "delete_failed_jobs E dry_run [] = returnE 0"
| "delete_failed_jobs E dry_run (job # jobs) =
     bindE (if dry_run then returnE (Some True) else attempt (pub_db E (db_file E) (\<lambda>_. delete_diff_job (job_id job)))) (\<lambda>deleted.
     bindE (delete_failed_jobs E dry_run jobs) (\<lambda>n. returnE (case deleted of None \<Rightarrow> n | Some _ \<Rightarrow> Suc n)))"

definition cleanup_failed_jobs :: "publisher_env \<Rightarrow> bool \<Rightarrow> (pub_content, pub_error, nat) io" where
  "cleanup_failed_jobs E dry_run =
     bindE (pub_db E (db_file E) (\<lambda>_. list_diff_jobs_by_status JobFailed)) (delete_failed_jobs E dry_run)"

text \<open>\<open>max_age_days\<close> is not used.\<close>

definition run_cleanup :: "publisher_libs \<Rightarrow> publisher_env \<Rightarrow> archive_env \<Rightarrow> bool \<Rightarrow> nat option
   \<Rightarrow> (pub_content, pub_error, cleanup_result) io" where
  "run_cleanup P E A dry_run max_age_days =
     bindE (open_project E) (\<lambda>_.
     bindE (find_orphaned_diffs P E A dry_run) (\<lambda>ds.
     bindE (find_orphaned_binaries P E A dry_run) (\<lambda>bs.
     bindE (cleanup_failed_jobs E dry_run) (\<lambda>n.
     returnE \<lparr>orphaned_diffs = ds, orphaned_binaries = bs, failed_jobs_cleaned = n,
       total_space = sum_list (map snd ds) + sum_list (map snd bs)\<rparr>))))"


section \<open>prune\<close>

definition remove_if_present :: "publisher_env \<Rightarrow> string \<Rightarrow> bool \<Rightarrow> (pub_content, pub_error, bool) io" where
  "remove_if_present E p dry_run =
     bindE (get_world (path_exists (resolve E p))) (\<lambda>present.
     if \<not> present \<or> dry_run then returnE False
     else bindE (attempt (remove_file (resolve E p))) (\<lambda>r. returnE (r \<noteq> None)))"

fun prune_diff_files :: "publisher_env \<Rightarrow> string \<Rightarrow> bool \<Rightarrow> db_diff_job list \<Rightarrow> (pub_content, pub_error, nat) io" where
  "prune_diff_files E vid dry_run [] = returnE 0"
| "prune_diff_files E vid dry_run (job # jobs) =
     (if job_from job = vid \<or> job_to job = vid then
        case job_diff_path job of
          None \<Rightarrow> prune_diff_files E vid dry_run jobs
        | Some p \<Rightarrow>
            bindE (remove_if_present E p dry_run) (\<lambda>removed.
            bindE (prune_diff_files E vid dry_run jobs) (\<lambda>n. returnE (if removed then Suc n else n)))
      else prune_diff_files E vid dry_run jobs)"

definition prune_files :: "publisher_env \<Rightarrow> bool \<Rightarrow> bool \<Rightarrow> db_version \<Rightarrow> (pub_content, pub_error, nat) io" where
  "prune_files E delete_files dry_run version =
     (if \<not> delete_files then returnE 0
      else
      bindE (remove_if_present E (ver_file_path version) dry_run) (\<lambda>_.
      bindE (pub_db E (db_file E) (\<lambda>_. list_diff_jobs_by_status JobCompleted))
        (prune_diff_files E (ver_id version) dry_run)))"

definition prune_version :: "publisher_env \<Rightarrow> bool \<Rightarrow> bool \<Rightarrow> db_version \<Rightarrow> (pub_content, pub_error, nat) io" where
  "prune_version E delete_files dry_run version =
     bindE (prune_files E delete_files dry_run version) (\<lambda>diffs_removed.
     if dry_run then returnE diffs_removed
     else
     bindE (attempt (pub_db E (db_file E) (\<lambda>_. delete_diff_jobs_for_version (ver_id version)))) (\<lambda>_.
     bindE (attempt (pub_db E (db_file E) (\<lambda>_. delete_db_version (ver_id version)))) (\<lambda>_.
     returnE diffs_removed)))"

fun prune_versions :: "publisher_env \<Rightarrow> bool \<Rightarrow> bool \<Rightarrow> db_version list \<Rightarrow> (pub_content, pub_error, nat) io" where
  "prune_versions E delete_files dry_run [] = returnE 0"
| "prune_versions E delete_files dry_run (v # vs) =
     bindE (prune_version E delete_files dry_run v) (\<lambda>_.
     bindE (prune_versions E delete_files dry_run vs) (\<lambda>n. returnE (Suc n)))"

fun prune_binaries :: "publisher_env \<Rightarrow> nat \<Rightarrow> bool \<Rightarrow> bool \<Rightarrow> db_binary list \<Rightarrow> (pub_content, pub_error, nat) io" where
  "prune_binaries E keep delete_files dry_run [] = returnE 0"
| "prune_binaries E keep delete_files dry_run (binary # bs) =
     bindE (pub_db E (db_file E) (\<lambda>_. list_db_versions (bin_id binary))) (\<lambda>versions.
     bindE (if length versions \<le> keep then returnE 0 else prune_versions E delete_files dry_run (drop keep versions)) (\<lambda>n.
     bindE (prune_binaries E keep delete_files dry_run bs) (\<lambda>m. returnE (n + m))))"

definition run_prune :: "publisher_env \<Rightarrow> string \<Rightarrow> nat \<Rightarrow> bool \<Rightarrow> bool \<Rightarrow> (pub_content, pub_error, nat) io" where
  "run_prune E name keep delete_files dry_run =
     bindE (get_world (path_exists (db_file E))) (\<lambda>present.
     if \<not> present then throwE (PMessage ''Deltaship project not initialized.'')
     else if keep = 0 then throwE (PMessage ''Cannot keep 0 versions. Use at least --keep 1.'')
     else
     bindE (open_publisher_db E (db_file E)) (\<lambda>_.
     bindE (pub_db E (db_file E) (\<lambda>_. list_db_binaries)) (\<lambda>binaries.
     let matching_binaries = filter (\<lambda>b. bin_name b = name) binaries in
     if matching_binaries = [] then throwE (PMessage (''No binary found with name '' @ name))
     else prune_binaries E keep delete_files dry_run matching_binaries)))"


section \<open>Dry runs\<close>

lemma looks_size: "looks (size_or_zero P p) (\<lambda>_ _. True)"
  unfolding size_or_zero_def looks_def by (auto intro!: wp_pub_read)

lemma looks_dry_orphans: "looks (remove_orphans P d dir known True ps) (\<lambda>_ _. True)"
  by (induction ps) (auto intro!: looks_pure looks_any_bind looks_world looks_branch looks_size)

lemma looks_walk: "looks (walk_files A d) (\<lambda>_ _. True)"
  unfolding walk_files_def by (intro looks_any_bind looks_world looks_observe looks_pure) auto

lemma looks_dry_walk: "looks (walk_directory_for_orphans P E A d known True) (\<lambda>_ _. True)"
  unfolding walk_directory_for_orphans_def
  by (intro looks_any_bind looks_world looks_branch looks_pure looks_walk looks_dry_orphans) auto

lemma looks_any_query:
  "(\<And>db x db'. op db = Inr (x, db') \<Longrightarrow> db' = db) \<Longrightarrow> looks (pub_db E p (\<lambda>_. op)) (\<lambda>_ _. True)"
  by (rule looks_query) auto

lemma looks_version_paths: "looks (version_paths E bs) (\<lambda>_ _. True)"
  by (induction bs) (auto intro!: looks_pure looks_any_bind looks_any_query simp: list_db_versions_def)

lemma looks_dry_jobs: "looks (delete_failed_jobs E True js) (\<lambda>_ _. True)"
  by (induction js) (auto intro!: looks_pure looks_any_bind)

lemma looks_dry_cleanup: "looks (run_cleanup P E A True age) (\<lambda>_ _. True)"
  unfolding run_cleanup_def find_orphaned_diffs_def find_orphaned_binaries_def cleanup_failed_jobs_def
  by (intro looks_any_bind looks_open_project looks_world looks_branch looks_pure looks_any_query looks_dry_walk looks_version_paths
        looks_dry_jobs)
     (auto simp: publisher_queries)

lemma looks_dry_remove: "looks (remove_if_present E p True) (\<lambda>_ _. True)"
  unfolding remove_if_present_def by (auto intro!: looks_any_bind looks_world looks_pure)

lemma looks_dry_diffs: "looks (prune_diff_files E vid True js) (\<lambda>_ _. True)"
  by (induction js) (auto split: option.splits intro!: looks_pure looks_any_bind looks_dry_remove)

lemma looks_dry_versions: "looks (prune_versions E df True vs) (\<lambda>_ _. True)"
  by (induction vs)
     (auto simp: prune_version_def prune_files_def publisher_queries
       intro!: looks_pure looks_any_bind looks_dry_remove looks_dry_diffs looks_any_query)

lemma looks_dry_binaries: "looks (prune_binaries E keep df True bs) (\<lambda>_ _. True)"
  by (induction bs)
     (auto intro!: looks_pure looks_any_bind looks_branch looks_any_query looks_dry_versions simp: list_db_versions_def)

lemma open_checked:
  "bindE (get_world (path_exists (db_file E))) (\<lambda>present. if \<not> present then throwE (PMessage ''Deltaship project not initialized.'')
      else bindE (open_publisher_db E (db_file E)) f) = bindE (open_project E) f"
  by (rule ext) (auto simp: open_project_def bindE_def get_world_def throwE_def)

lemma run_prune_open:
  "run_prune E name keep df dr =
     (if keep = 0 then bindE (get_world (path_exists (db_file E))) (\<lambda>present.
        throwE (PMessage (if \<not> present then ''Deltaship project not initialized.'' else ''Cannot keep 0 versions. Use at least --keep 1.'')))
      else bindE (open_project E) (\<lambda>_.
        bindE (pub_db E (db_file E) (\<lambda>_. list_db_binaries)) (\<lambda>binaries.
        if filter (\<lambda>b. bin_name b = name) binaries = [] then throwE (PMessage (''No binary found with name '' @ name))
        else prune_binaries E keep df dr (filter (\<lambda>b. bin_name b = name) binaries))))"
  by (auto simp: run_prune_def Let_def open_checked intro!: ext) (simp add: bindE_def get_world_def throwE_def)

lemma looks_dry_prune: "looks (run_prune E name keep df True) (\<lambda>_ _. True)"
  unfolding run_prune_open
  by (intro looks_branch looks_any_bind looks_open_project looks_world looks_pure looks_any_query looks_dry_binaries)
     (auto simp: publisher_queries)


section \<open>What pruning keeps\<close>

text \<open>What may have happened to the database: some versions outside \<open>V\<close>, and some jobs, are gone.\<close>

definition shrinks :: "db_version set \<Rightarrow> publisher_db \<Rightarrow> publisher_db \<Rightarrow> bool" where
  "shrinks V db db' \<longleftrightarrow> p_binaries db' = p_binaries db \<and> set (p_jobs db') \<subseteq> set (p_jobs db) \<and>
     (\<exists>F. p_versions db' = filter F (p_versions db) \<and> (\<forall>v \<in> V. F v))"

lemma shrinks_refl: "shrinks V db db"
  unfolding shrinks_def by (auto intro!: exI [of _ "\<lambda>_. True"])

lemma shrinks_trans: "shrinks V a b \<Longrightarrow> shrinks V b c \<Longrightarrow> shrinks V a c"
  unfolding shrinks_def
proof (elim conjE exE, intro conjI)
  fix F G
  assume "p_versions b = filter F (p_versions a)" "\<forall>v \<in> V. F v" "p_versions c = filter G (p_versions b)" "\<forall>v \<in> V. G v"
  then show "\<exists>F. p_versions c = filter F (p_versions a) \<and> (\<forall>v \<in> V. F v)"
    by (intro exI [of _ "\<lambda>v. F v \<and> G v"]) auto
qed auto

lemma shrinks_mono: "shrinks V a b \<Longrightarrow> U \<subseteq> V \<Longrightarrow> shrinks U a b"
  unfolding shrinks_def by blast

lemma shrinks_versions: "shrinks V a b \<Longrightarrow> set (p_versions b) \<subseteq> set (p_versions a)"
  unfolding shrinks_def by auto

lemma shrinks_kept: "shrinks V a b \<Longrightarrow> v \<in> V \<Longrightarrow> v \<in> set (p_versions a) \<Longrightarrow> v \<in> set (p_versions b)"
  unfolding shrinks_def by auto

lemma shrinks_newest:
  assumes "shrinks V a b" "\<And>v. v \<in> set (p_versions a) \<Longrightarrow> ver_binary_id v = bid \<Longrightarrow> v \<in> V"
  shows "newest_versions bid b = newest_versions bid a"
proof -
  obtain F where "p_versions b = filter F (p_versions a)" "\<forall>v \<in> V. F v" using assms(1) unfolding shrinks_def by blast
  then have "filter (\<lambda>v. ver_binary_id v = bid) (p_versions b) = filter (\<lambda>v. ver_binary_id v = bid) (p_versions a)"
    using assms(2) by (auto intro!: filter_cong)
  then show ?thesis by (simp add: newest_versions_def)
qed

text \<open>No recorded path is the database itself, and identifiers are unique.\<close>

definition prunable :: "publisher_env \<Rightarrow> publisher_db \<Rightarrow> bool" where
  "prunable E db \<longleftrightarrow> distinct (map ver_id (p_versions db)) \<and>
     (\<forall>v \<in> set (p_versions db). resolve E (ver_file_path v) \<noteq> db_file E) \<and>
     (\<forall>j \<in> set (p_jobs db). \<forall>p. job_diff_path j = Some p \<longrightarrow> resolve E p \<noteq> db_file E)"

lemma prunable_shrinks: "prunable E a \<Longrightarrow> shrinks V a b \<Longrightarrow> prunable E b"
  unfolding prunable_def shrinks_def by (auto simp: distinct_map_filter)

definition pruned :: "publisher_env \<Rightarrow> db_version set \<Rightarrow> publisher_db \<Rightarrow> pub_content world \<Rightarrow> bool" where
  "pruned E V db w \<longleftrightarrow> (\<exists>db'. file_at w (db_file E) = Some (Database db') \<and> shrinks V db db')"

lemma pruned_cong: "file_at w' (db_file E) = file_at w (db_file E) \<Longrightarrow> pruned E V db w' = pruned E V db w"
  by (simp add: pruned_def)

lemma preserves_touches:
  assumes "touches S m" "db_file E \<notin> S"
  shows "preserves (pruned E V db) m"
  by (rule preserves_touch [OF assms(1)]) (use assms(2) in \<open>auto simp: pruned_def\<close>)

lemma preserves_shrinking:
  assumes "\<And>a x b. op a = Inr (x, b) \<Longrightarrow> shrinks V a b"
  shows "preserves (pruned E V db) (pub_db E (db_file E) (\<lambda>_. op))"
proof (rule preservesI)
  fix w
  assume "pruned E V db w"
  then show "wp (pub_db E (db_file E) (\<lambda>_. op)) (\<lambda>_. pruned E V db) (\<lambda>_. pruned E V db) w"
    by (intro wp_pub_db) (auto simp: pruned_def intro: shrinks_trans dest: assms)
qed

lemma touches_remove_if_present: "touches {resolve E p} (remove_if_present E p dr)"
  unfolding remove_if_present_def by (intro touches_intros) auto

lemma preserves_remove: "resolve E p \<noteq> db_file E \<Longrightarrow> preserves (pruned E V db) (remove_if_present E p dr)"
  by (rule preserves_touches [OF touches_remove_if_present]) auto

lemma preserves_prune_diff_files:
  "\<forall>j \<in> set js. \<forall>p. job_diff_path j = Some p \<longrightarrow> resolve E p \<noteq> db_file E \<Longrightarrow> preserves (pruned E V db) (prune_diff_files E vid dr js)"
  by (induction js) (auto split: option.splits intro!: preserves_bind preserves_pure preserves_remove)

lemma wp_jobs_listed:
  assumes "prunable E db" "pruned E V db w"
  shows "wp (pub_db E (db_file E) (\<lambda>_. list_diff_jobs_by_status st))
    (\<lambda>js w'. pruned E V db w' \<and> (\<forall>j \<in> set js. \<forall>p. job_diff_path j = Some p \<longrightarrow> resolve E p \<noteq> db_file E)) (\<lambda>_. pruned E V db) w"
proof (rule wp_looks [OF looks_query])
  fix g :: "path \<Rightarrow> pub_content option" and a x
  assume "g (db_file E) = Some (Database a)" "list_diff_jobs_by_status st a = Inr (x, a)"
  then show "\<exists>a. g (db_file E) = Some (Database a) \<and> set x \<subseteq> set (p_jobs a)"
    by (auto simp: list_diff_jobs_by_status_def)
next
  fix x and w' :: "pub_content world"
  assume w': "file_at w' = file_at w" and "\<exists>a. file_at w (db_file E) = Some (Database a) \<and> set x \<subseteq> set (p_jobs a)"
  moreover obtain a where "file_at w (db_file E) = Some (Database a)" "shrinks V db a" using assms(2) by (auto simp: pruned_def)
  ultimately show "pruned E V db w' \<and> (\<forall>j \<in> set x. \<forall>p. job_diff_path j = Some p \<longrightarrow> resolve E p \<noteq> db_file E)"
    using prunable_shrinks [OF assms(1)] by (fastforce simp: pruned_def prunable_def)
qed (use assms(2) in \<open>auto simp: pruned_def publisher_queries\<close>)

lemma preserves_prune_version:
  assumes "prunable E db" "resolve E (ver_file_path v) \<noteq> db_file E" "\<forall>u \<in> V. ver_id u \<noteq> ver_id v"
  shows "preserves (pruned E V db) (prune_version E df dr v)"
proof -
  have "shrinks V a b" if "delete_diff_jobs_for_version (ver_id v) a = Inr (x, b)" for a b x
    using that by (auto simp: delete_diff_jobs_for_version_def shrinks_def intro!: exI [of _ "\<lambda>_. True"])
  moreover have "shrinks V a b" if "delete_db_version (ver_id v) a = Inr (x, b)" for a b x
    using that assms(3) by (auto simp: delete_db_version_def shrinks_def intro!: exI [of _ "\<lambda>u. ver_id u \<noteq> ver_id v"])
  moreover have "preserves (pruned E V db) (prune_files E df dr v)"
    unfolding prune_files_def
    by (auto intro!: preserves_pure preserves_bind preserves_remove [OF assms(2)]
        preserves_bind_fact [OF wp_jobs_listed [OF assms(1)]] preserves_prune_diff_files)
  ultimately show ?thesis
    unfolding prune_version_def
    by (auto intro!: preserves_bind preserves_pure preserves_attempt preserves_shrinking)
qed

lemma preserves_prune_versions:
  assumes "prunable E db" "set vs \<subseteq> set (p_versions db)" "\<forall>v \<in> set vs. \<forall>u \<in> V. ver_id u \<noteq> ver_id v"
  shows "preserves (pruned E V db) (prune_versions E df dr vs)"
  using assms(2,3)
proof (induction vs)
  case (Cons v vs)
  moreover have "resolve E (ver_file_path v) \<noteq> db_file E" using Cons.prems(1) assms(1) by (auto simp: prunable_def)
  ultimately show ?case by (auto intro!: preserves_bind preserves_pure preserves_prune_version assms(1))
qed (simp add: preserves_pure)

definition survivors :: "nat \<Rightarrow> db_binary list \<Rightarrow> publisher_db \<Rightarrow> db_version set" where
  "survivors keep bs db = {v \<in> set (p_versions db).
     \<forall>b \<in> set bs. ver_binary_id v = bin_id b \<longrightarrow> v \<in> set (take keep (newest_versions (bin_id b) db))}"

lemma newest_subset: "set (newest_versions bid db) = {v \<in> set (p_versions db). ver_binary_id v = bid}"
  by (auto simp: newest_versions_def)

lemma distinct_newest: "distinct (map ver_id (p_versions db)) \<Longrightarrow> distinct (map ver_id (newest_versions bid db))"
  unfolding newest_versions_def
  by (metis (no_types, lifting) distinct_map_filter mset_map mset_sort_by mset_eq_imp_distinct_iff)

lemma survivors_not_dropped:
  assumes "prunable E db" "u \<in> survivors keep [b] db" "v \<in> set (drop keep (newest_versions (bin_id b) db))"
  shows "ver_id u \<noteq> ver_id v"
proof
  assume eq: "ver_id u = ver_id v"
  let ?n = "newest_versions (bin_id b) db"
  have "v \<in> set ?n" using assms(3) by (rule in_set_dropD)
  then have v: "v \<in> set (p_versions db)" "ver_binary_id v = bin_id b" by (simp_all add: newest_subset)
  have "u \<in> set (p_versions db)" using assms(2) by (simp add: survivors_def)
  then have "u = v" using eq v(1) assms(1) by (auto simp: prunable_def distinct_map dest: inj_onD)
  then have "v \<in> set (take keep ?n)" using assms(2) v by (auto simp: survivors_def)
  moreover have "distinct ?n" using distinct_newest assms(1) by (auto simp: prunable_def distinct_map)
  ultimately show False using assms(3) by (meson disjoint_iff set_take_disj_set_drop_if_distinct order_refl)
qed

lemma survivors_shrinks:
  assumes s: "shrinks (survivors keep [b] db) db a" and d: "distinct (map bin_id (b # bs))"
  shows "survivors keep (b # bs) db \<subseteq> survivors keep bs a"
proof
  fix v
  assume v: "v \<in> survivors keep (b # bs) db"
  have "newest_versions (bin_id c) a = newest_versions (bin_id c) db" if "c \<in> set bs" for c
  proof (rule shrinks_newest [OF s])
    have "bin_id b \<notin> bin_id ` set bs" using d by simp
    then have "bin_id c \<noteq> bin_id b" using that by (metis imageI)
    then show "u \<in> survivors keep [b] db" if "u \<in> set (p_versions db)" "ver_binary_id u = bin_id c" for u
      using that by (simp add: survivors_def)
  qed
  moreover have "v \<in> set (p_versions a)" by (rule shrinks_kept [OF s]) (use v in \<open>auto simp: survivors_def\<close>)
  ultimately show "v \<in> survivors keep bs a" using v by (auto simp: survivors_def)
qed

lemma wp_prune_binaries:
  "file_at w (db_file E) = Some (Database db) \<Longrightarrow> prunable E db \<Longrightarrow> distinct (map bin_id bs) \<Longrightarrow>
   wp (prune_binaries E keep df dr bs) (\<lambda>_. pruned E (survivors keep bs db) db) (\<lambda>_. pruned E (survivors keep bs db) db) w"
proof (induction bs arbitrary: w db)
  case Nil
  then show ?case by (auto simp: pruned_def shrinks_refl)
next
  case (Cons b bs)
  let ?n = "newest_versions (bin_id b) db" and ?V = "survivors keep [b] db" and ?U = "survivors keep (b # bs) db"
  have U: "?U \<subseteq> ?V" by (auto simp: survivors_def)
  have start: "pruned E V db v" if "file_at v = file_at w" for v V using that Cons.prems(1) by (auto simp: pruned_def shrinks_refl)
  have weak: "pruned E ?U db v" if "pruned E ?V db v" for v using that shrinks_mono U by (fastforce simp: pruned_def)
  have first: "preserves (pruned E ?V db) (if length ?n \<le> keep then returnE 0 else prune_versions E df dr (drop keep ?n))"
    using survivors_not_dropped [OF Cons.prems(2)] newest_subset [of "bin_id b" db]
    by (auto intro!: preserves_pure preserves_prune_versions Cons.prems(2) dest: in_set_dropD)
  have rest: "wp (prune_binaries E keep df dr bs) (\<lambda>_. pruned E ?U db) (\<lambda>_. pruned E ?U db) v" if v: "pruned E ?V db v" for v
  proof -
    obtain a where a: "file_at v (db_file E) = Some (Database a)" "shrinks ?V db a" using v by (auto simp: pruned_def)
    have "pruned E ?U db x" if "pruned E (survivors keep bs a) a x" for x
      using that shrinks_mono [OF _ survivors_shrinks [OF a(2) Cons.prems(3)]] shrinks_mono [OF a(2) U] shrinks_trans
      unfolding pruned_def by meson
    then show ?thesis
      using wp_mono [OF Cons.IH [OF a(1) prunable_shrinks [OF Cons.prems(2) a(2)]]] Cons.prems(3) by auto
  qed
  show ?case
    unfolding prune_binaries.simps
  proof (rule wp_looks_bind [where Q = "\<lambda>g vs. \<forall>a. g (db_file E) = Some (Database a) \<longrightarrow> vs = newest_versions (bin_id b) a"])
    fix vs v
    assume "file_at v = file_at w" "\<forall>a. file_at w (db_file E) = Some (Database a) \<longrightarrow> vs = newest_versions (bin_id b) a"
    then have vs: "vs = ?n" "pruned E ?V db v" using Cons.prems(1) start by auto
    show "wp (bindE (if length vs \<le> keep then returnE 0 else prune_versions E df dr (drop keep vs)) (\<lambda>n.
        bindE (prune_binaries E keep df dr bs) (\<lambda>m. returnE (n + m)))) (\<lambda>_. pruned E ?U db) (\<lambda>_. pruned E ?U db) v"
      unfolding vs(1) by (rule preserves_then [OF first vs(2)]) (use rest weak in simp_all)
  qed (auto intro!: looks_query start simp: list_db_versions_def)
qed


section \<open>What pruning removes\<close>

text \<open>In a world without faults the versions left are exactly the survivors.\<close>

definition versions_left :: "publisher_env \<Rightarrow> publisher_db \<Rightarrow> db_version list \<Rightarrow> pub_content world \<Rightarrow> bool" where
  "versions_left E db vs w \<longleftrightarrow> quiet w \<and>
     (\<exists>a. file_at w (db_file E) = Some (Database a) \<and> p_versions a = vs \<and> set (p_jobs a) \<subseteq> set (p_jobs db))"

lemma quiet_pub_db:
  assumes "quiet w" "file_at w p = Some (Database a)" "op a = Inr (x, b)"
    and "\<And>w'. quiet w' \<Longrightarrow> file_at w' = (file_at w)(p \<mapsto> Database b) \<Longrightarrow> Q x w'"
  shows "wp (pub_db E p (\<lambda>_. op)) Q F w"
  unfolding pub_db_def using assms
  by (auto intro!: ok_db_run [where op = op and a = a and x = x and b = b] simp: quiet_def)

lemma left_remove:
  assumes "versions_left E db vs w" "resolve E p \<noteq> db_file E"
  shows "wp (remove_if_present E p dr) (\<lambda>_. versions_left E db vs) (\<lambda>_ _. False) w"
proof -
  have "versions_left E db vs (skip_ops 1 w)" "versions_left E db vs (drop_node (resolve E p) (skip_ops 1 w))"
    using assms by (auto simp: versions_left_def file_at_drop_node)
  then show ?thesis
    using assms(1)
    by (auto simp: remove_if_present_def wp_def attempt_def remove_file_def bindE_def get_world_def returnE_def next_op_quiet
        versions_left_def split: option.splits node.splits)
qed

lemma left_diff_files:
  "versions_left E db vs w \<Longrightarrow> \<forall>j \<in> set js. \<forall>p. job_diff_path j = Some p \<longrightarrow> resolve E p \<noteq> db_file E \<Longrightarrow>
   wp (prune_diff_files E vid dr js) (\<lambda>_. versions_left E db vs) (\<lambda>_ _. False) w"
  by (induction js arbitrary: w) (auto split: option.splits intro!: wp_mono [OF left_remove])

lemma left_db:
  assumes "versions_left E db vs w"
    and "\<And>a. p_versions a = vs \<Longrightarrow> set (p_jobs a) \<subseteq> set (p_jobs db) \<Longrightarrow>
      \<exists>x b. op a = Inr (x, b) \<and> P x \<and> p_versions b = us \<and> set (p_jobs b) \<subseteq> set (p_jobs a)"
  shows "wp (pub_db E (db_file E) (\<lambda>_. op)) (\<lambda>x w'. P x \<and> versions_left E db us w') (\<lambda>_ _. False) w"
proof -
  obtain a where a: "quiet w" "file_at w (db_file E) = Some (Database a)" "p_versions a = vs" "set (p_jobs a) \<subseteq> set (p_jobs db)"
    using assms(1) by (auto simp: versions_left_def)
  then obtain x b where b: "op a = Inr (x, b)" "P x" "p_versions b = us" "set (p_jobs b) \<subseteq> set (p_jobs a)" using assms(2) by blast
  show ?thesis by (rule quiet_pub_db [where op = op, OF a(1,2) b(1)]) (use a b in \<open>auto simp: versions_left_def\<close>)
qed

lemma left_prune_files:
  assumes "versions_left E db vs w" "prunable E db" "resolve E (ver_file_path v) \<noteq> db_file E"
  shows "wp (prune_files E df dr v) (\<lambda>_. versions_left E db vs) (\<lambda>_ _. False) w"
proof -
  have jobs: "wp (pub_db E (db_file E) (\<lambda>_. list_diff_jobs_by_status st))
    (\<lambda>js w'. set js \<subseteq> set (p_jobs db) \<and> versions_left E db vs w') (\<lambda>_ _. False) u" if "versions_left E db vs u" for u st
    by (rule left_db [OF that]) (auto simp: list_diff_jobs_by_status_def)
  then show ?thesis
    using assms unfolding prune_files_def
    by (auto simp: prunable_def intro!: wp_mono [OF left_remove] wp_mono [OF jobs] wp_mono [OF left_diff_files])
qed

lemma left_version:
  assumes "versions_left E db vs w" "prunable E db" "resolve E (ver_file_path v) \<noteq> db_file E"
  shows "wp (prune_version E df False v) (\<lambda>_. versions_left E db (filter (\<lambda>u. ver_id u \<noteq> ver_id v) vs)) (\<lambda>_ _. False) w"
proof -
  let ?vs = "filter (\<lambda>u. ver_id u \<noteq> ver_id v) vs"
  have jobs: "wp (pub_db E (db_file E) (\<lambda>_. delete_diff_jobs_for_version (ver_id v))) (\<lambda>_ u. True \<and> versions_left E db vs u) (\<lambda>_ _. False) u"
    if "versions_left E db vs u" for u
    by (rule left_db [OF that]) (auto simp: delete_diff_jobs_for_version_def)
  have row: "wp (pub_db E (db_file E) (\<lambda>_. delete_db_version (ver_id v))) (\<lambda>_ u. True \<and> versions_left E db ?vs u) (\<lambda>_ _. False) u"
    if "versions_left E db vs u" for u
    by (rule left_db [OF that]) (auto simp: delete_db_version_def)
  show ?thesis
    using assms unfolding prune_version_def
    by (auto intro!: wp_mono [OF left_prune_files] wp_mono [OF jobs] wp_mono [OF row])
qed

lemma left_versions:
  assumes "prunable E db" "set us \<subseteq> set (p_versions db)" "versions_left E db vs w"
  shows "wp (prune_versions E df False us) (\<lambda>_. versions_left E db (filter (\<lambda>u. ver_id u \<notin> ver_id ` set us) vs)) (\<lambda>_ _. False) w"
  using assms(2,3)
proof (induction us arbitrary: vs w)
  case (Cons v us)
  have "resolve E (ver_file_path v) \<noteq> db_file E" using Cons.prems(1) assms(1) by (auto simp: prunable_def)
  note step = left_version [OF Cons.prems(2) assms(1) this, of df]
  have "filter (\<lambda>u. ver_id u \<notin> ver_id ` set us) (filter (\<lambda>u. ver_id u \<noteq> ver_id v) vs) = filter (\<lambda>u. ver_id u \<notin> ver_id ` set (v # us)) vs"
    by (auto intro!: filter_cong)
  then show ?case
    using Cons.IH [of "filter (\<lambda>u. ver_id u \<noteq> ver_id v) vs"] Cons.prems(1) by (auto intro!: wp_mono [OF step])
qed simp

lemma survivors_split:
  assumes p: "prunable E db" and d: "distinct (map bin_id (b # bs))"
    and a: "p_versions a = filter (\<lambda>u. ver_id u \<notin> ver_id ` set (drop keep (newest_versions (bin_id b) db))) (p_versions db)"
  shows "filter (\<lambda>v. v \<in> survivors keep bs a) (p_versions a) = filter (\<lambda>v. v \<in> survivors keep (b # bs) db) (p_versions db)"
proof -
  let ?n = "newest_versions (bin_id b) db"
  have dropped: "v \<in> survivors keep [b] db \<longleftrightarrow> ver_id v \<notin> ver_id ` set (drop keep ?n)" if "v \<in> set (p_versions db)" for v
  proof
    assume "ver_id v \<notin> ver_id ` set (drop keep ?n)"
    moreover have "set ?n = set (take keep ?n) \<union> set (drop keep ?n)" by (metis append_take_drop_id set_append)
    ultimately show "v \<in> survivors keep [b] db" using that newest_subset [of "bin_id b" db] by (auto simp: survivors_def)
  qed (use survivors_not_dropped [OF p] in blast)
  have "newest_versions (bin_id c) a = newest_versions (bin_id c) db" if "c \<in> set bs" for c
  proof -
    have "bin_id b \<notin> bin_id ` set bs" using d by simp
    then have c: "bin_id c \<noteq> bin_id b" using that by (metis imageI)
    have "ver_id v \<notin> ver_id ` set (drop keep ?n)" if "v \<in> set (p_versions db)" "ver_binary_id v = bin_id c" for v
      using dropped [OF that(1)] that c by (simp add: survivors_def)
    then have "filter (\<lambda>v. ver_binary_id v = bin_id c) (p_versions a) = filter (\<lambda>v. ver_binary_id v = bin_id c) (p_versions db)"
      unfolding a filter_filter by (intro filter_cong) auto
    then show ?thesis by (simp add: newest_versions_def)
  qed
  then have "v \<in> survivors keep bs a \<longleftrightarrow> v \<in> survivors keep (b # bs) db" if "v \<in> set (p_versions a)" for v
    using that dropped [of v] unfolding survivors_def a by auto
  then have "filter (\<lambda>v. v \<in> survivors keep bs a) (p_versions a) = filter (\<lambda>v. v \<in> survivors keep (b # bs) db) (p_versions a)"
    by (intro filter_cong) auto
  also have "\<dots> = filter (\<lambda>v. v \<in> survivors keep (b # bs) db) (p_versions db)"
    unfolding a filter_filter using dropped by (intro filter_cong) (auto simp: survivors_def)
  finally show ?thesis .
qed

lemma left_binaries:
  "quiet w \<Longrightarrow> file_at w (db_file E) = Some (Database db) \<Longrightarrow> prunable E db \<Longrightarrow> distinct (map bin_id bs) \<Longrightarrow>
   wp (prune_binaries E keep df False bs)
     (\<lambda>_. versions_left E db (filter (\<lambda>v. v \<in> survivors keep bs db) (p_versions db))) (\<lambda>_ _. False) w"
proof (induction bs arbitrary: w db)
  case Nil
  then show ?case by (auto simp: versions_left_def survivors_def)
next
  case (Cons b bs)
  let ?n = "newest_versions (bin_id b) db" and ?xs = "filter (\<lambda>v. v \<in> survivors keep (b # bs) db) (p_versions db)"
  let ?ys = "filter (\<lambda>u. ver_id u \<notin> ver_id ` set (drop keep ?n)) (p_versions db)"
  have list: "wp (pub_db E (db_file E) (\<lambda>_. list_db_versions (bin_id b))) (\<lambda>vs u. vs = ?n \<and> versions_left E db (p_versions db) u) (\<lambda>_ _. False) w"
    by (rule left_db) (use Cons.prems(1,2) in \<open>auto simp: versions_left_def list_db_versions_def newest_versions_def\<close>)
  have first: "wp (if length ?n \<le> keep then returnE 0 else prune_versions E df False (drop keep ?n)) (\<lambda>_. versions_left E db ?ys) (\<lambda>_ _. False) u"
    if u: "versions_left E db (p_versions db) u" for u
  proof -
    have "set (drop keep ?n) \<subseteq> set (p_versions db)" using newest_subset [of "bin_id b" db] by (auto dest: in_set_dropD)
    then show ?thesis using left_versions [OF Cons.prems(3) _ u] u by auto
  qed
  have rest: "wp (prune_binaries E keep df False bs) (\<lambda>_. versions_left E db ?xs) (\<lambda>_ _. False) u" if u: "versions_left E db ?ys u" for u
  proof -
    obtain a where a: "quiet u" "file_at u (db_file E) = Some (Database a)" "p_versions a = ?ys" "set (p_jobs a) \<subseteq> set (p_jobs db)"
      using u by (auto simp: versions_left_def)
    have "prunable E a" using Cons.prems(3) a(3,4) by (auto simp: prunable_def distinct_map_filter)
    moreover have "distinct (map bin_id bs)" using Cons.prems(4) by simp
    ultimately show ?thesis
      by (rule wp_mono [OF Cons.IH [OF a(1,2), unfolded survivors_split [OF Cons.prems(3,4) a(3)]]])
         (use a(4) in \<open>auto simp: versions_left_def\<close>)
  qed
  show ?case
    using rest by (auto simp del: if_split intro!: wp_mono [OF list] wp_mono [OF first])
qed

section \<open>The commands\<close>

text \<open>The versions \<open>prune\<close> is to keep: those of other binaries and the newest \<open>keep\<close> of each binary of that name.\<close>

definition spared :: "string \<Rightarrow> nat \<Rightarrow> publisher_db \<Rightarrow> db_version \<Rightarrow> bool" where
  "spared name keep db v \<longleftrightarrow> (\<forall>b \<in> set (p_binaries db). bin_name b = name \<longrightarrow> ver_binary_id v = bin_id b \<longrightarrow>
     v \<in> set (take keep (newest_versions (bin_id b) db)))"

lemma survivors_kept:
  "v \<in> set (p_versions db) \<Longrightarrow> v \<in> survivors keep (filter (\<lambda>b. bin_name b = name) (binaries_by_name db)) db \<longleftrightarrow> spared name keep db v"
  by (auto simp: survivors_def spared_def binaries_by_name_def)

lemma distinct_matching:
  "distinct (map bin_id (p_binaries db)) \<Longrightarrow> distinct (map bin_id (filter (\<lambda>b. bin_name b = name) (binaries_by_name db)))"
  unfolding binaries_by_name_def by (metis distinct_map_filter mset_map mset_sort_by mset_eq_imp_distinct_iff)

lemma quiet_open_project:
  assumes "quiet w" "file_at w (db_file E) = Some (Database db)"
    and "\<And>w'. quiet w' \<Longrightarrow> file_at w' = file_at w \<Longrightarrow> Q () w'"
  shows "wp (open_project E) Q F w"
proof -
  have look: "lookup w (db_file E) = Some (File (Database db))" using assms(2) by (auto simp: file_at_def split: option.splits node.splits)
  have "wp (pub_db E (db_file E) (\<lambda>_. return_db ())) Q F (skip_ops 1 w)"
    by (rule quiet_pub_db [where a = db and b = db]) (use assms in \<open>auto simp: return_db_def fun_upd_idem\<close>)
  then show ?thesis
    using look assms(1)
    by (simp add: open_project_def open_publisher_db_def wp_def [of "open_create _ _"] path_exists_def open_create_def next_op_quiet)
qed

lemma prune_keeps:
  assumes db: "file_at w (db_file E) = Some (Database db)" "prunable E db" "distinct (map bin_id (p_binaries db))"
  shows "wp (run_prune E name keep df dr) (\<lambda>_. pruned E {v \<in> set (p_versions db). spared name keep db v} db)
    (\<lambda>_. pruned E {v \<in> set (p_versions db). spared name keep db v} db) w"
proof -
  let ?bs = "filter (\<lambda>b. bin_name b = name) (binaries_by_name db)" and ?V = "{v \<in> set (p_versions db). spared name keep db v}"
  have V: "survivors keep ?bs db = ?V" by (auto simp: survivors_def spared_def binaries_by_name_def)
  have start: "pruned E V db v" if "file_at v = file_at w" for v V using that db(1) by (auto simp: pruned_def shrinks_refl)
  have body: "wp (prune_binaries E keep df dr ?bs) (\<lambda>_. pruned E ?V db) (\<lambda>_. pruned E ?V db) v" if "file_at v = file_at w" for v
    using wp_prune_binaries [OF _ db(2) distinct_matching [OF db(3), of name], of v keep df dr, unfolded V] that db(1) by simp
  have q: "looks (pub_db E (db_file E) (\<lambda>_. list_db_binaries)) (\<lambda>g bs. \<forall>a. g (db_file E) = Some (Database a) \<longrightarrow> bs = binaries_by_name a)"
    by (rule looks_query) (auto simp: list_db_binaries_def)
  have o: "looks (open_project E) (\<lambda>_ _. True)" by (rule looks_open_project) simp
  show ?thesis
    unfolding run_prune_open
    by (auto simp del: wp_bindE wp_seq_fun intro!: wp_branch wp_looks_bind [OF o] wp_looks_bind [OF q] start body looks_world wp_looks_bind [OF looks_world]
      simp: db)
qed

lemma prune_exact:
  assumes db: "quiet w" "file_at w (db_file E) = Some (Database db)" "prunable E db" "distinct (map bin_id (p_binaries db))"
    and "0 < keep" "\<exists>b \<in> set (p_binaries db). bin_name b = name"
  shows "wp (run_prune E name keep df False) (\<lambda>_. versions_left E db (filter (spared name keep db) (p_versions db))) (\<lambda>_ _. False) w"
proof -
  let ?bs = "filter (\<lambda>b. bin_name b = name) (binaries_by_name db)"
  have bs: "?bs \<noteq> []" using assms(6) by (auto simp: filter_empty_conv binaries_by_name_def)
  have V: "filter (\<lambda>v. v \<in> survivors keep ?bs db) (p_versions db) = filter (spared name keep db) (p_versions db)"
    using survivors_kept by (intro filter_cong) auto
  have body: "wp (prune_binaries E keep df False ?bs) (\<lambda>_. versions_left E db (filter (spared name keep db) (p_versions db))) (\<lambda>_ _. False) v"
    if "quiet v" "file_at v = file_at w" for v
    using left_binaries [OF that(1) _ db(3) distinct_matching [OF db(4), of name], of keep df, unfolded V]
      that(2) db(2) by simp
  have list: "wp (pub_db E (db_file E) (\<lambda>_. list_db_binaries)) Q F v"
    if "quiet v" "file_at v = file_at w" "\<And>u. quiet u \<Longrightarrow> file_at u = file_at w \<Longrightarrow> Q (binaries_by_name db) u" for Q F v
    by (rule quiet_pub_db [where op = list_db_binaries, OF that(1) _ list_db_binaries_def])
       (use that db(2) in \<open>auto simp: fun_upd_idem\<close>)
  show ?thesis
    using assms(5) bs unfolding run_prune_open
    by (auto simp del: not_gr_zero intro!: quiet_open_project [OF db(1,2)] list body)
qed

lemma touches_prune:
  "touches {db_file E} (run_prune E name keep False dr)"
proof -
  have v: "touches {db_file E} (prune_versions E False dr vs)" for vs
    by (induction vs) (auto simp: prune_version_def prune_files_def intro!: touches_intros)
  have "touches {db_file E} (prune_binaries E keep False dr bs)" for bs
    by (induction bs) (auto intro!: touches_intros v)
  then show ?thesis
    unfolding run_prune_def open_publisher_db_def Let_def by (auto intro!: touches_intros)
qed

section \<open>What cleanup removes\<close>

definition failed_job :: "db_diff_job \<Rightarrow> bool" where
  "failed_job j \<longleftrightarrow> job_status j = diff_job_status_as_str JobFailed"

text \<open>The files below the two directories that no completed job and no version names.\<close>

definition unrecorded :: "publisher_env \<Rightarrow> string \<Rightarrow> string set \<Rightarrow> path set" where
  "unrecorded E dir_text names = {p. in_dir (resolve E dir_text) p \<and> entry_text dir_text (resolve E dir_text) p \<notin> names}"

definition diff_names :: "publisher_db \<Rightarrow> string set" where
  "diff_names db = {p. \<exists>j \<in> set (p_jobs db). job_status j = diff_job_status_as_str JobCompleted \<and> job_diff_path j = Some p}"

definition version_names :: "publisher_db \<Rightarrow> string set" where
  "version_names db = ver_file_path ` set (p_versions db)"

definition orphans :: "publisher_env \<Rightarrow> publisher_db \<Rightarrow> path set" where
  "orphans E db = unrecorded E DIFFS_DIR (diff_names db) \<union> unrecorded E BINARIES_DIR (version_names db)"

definition cleaned :: "publisher_env \<Rightarrow> publisher_db \<Rightarrow> pub_content world \<Rightarrow> pub_content world \<Rightarrow> bool" where
  "cleaned E db w w' \<longleftrightarrow>
     (\<exists>F. file_at w' (db_file E) = Some (Database (db\<lparr>p_jobs := filter F (p_jobs db)\<rparr>)) \<and> (\<forall>j \<in> set (p_jobs db). \<not> failed_job j \<longrightarrow> F j)) \<and>
     (\<forall>p. p \<notin> insert (db_file E) (orphans E db) \<longrightarrow> file_at w' p = file_at w p)"

lemma cleaned_start: "file_at w (db_file E) = Some (Database db) \<Longrightarrow> cleaned E db w w"
  unfolding cleaned_def by (auto intro!: exI [of _ "\<lambda>_. True"])

lemma db_not_orphan: "db_file E \<notin> orphans E db"
proof -
  have "db_file E = working_dir E @ [''.deltaship'', ''publisher.db'']" "resolve E DIFFS_DIR = working_dir E @ [''.deltaship'', ''diffs'']"
    "resolve E BINARIES_DIR = working_dir E @ [''.deltaship'', ''binaries'']"
    by (simp_all add: db_file_def resolve_def DB_FILE_def DIFFS_DIR_def BINARIES_DIR_def path_join_def starts_with_def path_components_def)
  then show ?thesis by (simp add: orphans_def unrecorded_def in_dir_def)
qed

lemma touches_size: "touches S (size_or_zero P p)"
  unfolding size_or_zero_def by (auto intro!: touches_intros)

lemma touches_orphans:
  "{p \<in> set ps. entry_text dt dir p \<notin> set known} \<subseteq> S \<Longrightarrow> touches S (remove_orphans P dt dir known dr ps)"
proof (induction ps)
  case (Cons p ps)
  then have IH: "touches S (remove_orphans P dt dir known dr ps)" by auto
  show ?case
  proof (cases "entry_text dt dir p \<in> set known")
    case False
    then have "p \<in> S" using Cons.prems by auto
    then show ?thesis using IH by (auto intro!: touches_intros touches_size)
  qed (use IH in \<open>auto intro!: touches_intros\<close>)
qed (auto intro!: touches_intros)

lemma wp_walk_files: "wp (walk_files A dir) (\<lambda>ps _. \<forall>p \<in> set ps. in_dir dir p) (\<lambda>_ _. True) w"
  by (simp add: walk_files_def wp_def bindE_def get_world_def observe_def returnE_def)

lemma touches_walk_files: "touches S (walk_files A dir)"
  unfolding walk_files_def by (auto intro!: touches_intros touches_observe)

lemma touches_walk:
  "touches (unrecorded E dt (set known)) (walk_directory_for_orphans P E A dt known dr)"
  unfolding walk_directory_for_orphans_def
  by (intro touches_intros footprint.keeps_bindE_ret [OF touches_walk_files wp_walk_files] touches_orphans) (auto simp: unrecorded_def)

lemma preserves_cleaned:
  assumes "touches S m" "S \<subseteq> orphans E db"
  shows "preserves (cleaned E db w) m"
proof (rule preserves_touch [OF assms(1)])
  fix v v'
  assume "cleaned E db w v" "\<forall>p. p \<notin> S \<longrightarrow> file_at v' p = file_at v p"
  then show "cleaned E db w v'"
    using assms(2) db_not_orphan [of E db] unfolding cleaned_def by (metis insert_iff subset_iff)
qed

lemma cleaned_same: "file_at v' = file_at v \<Longrightarrow> cleaned E db w v \<Longrightarrow> cleaned E db w v'"
  by (simp add: cleaned_def)

lemma wp_cleaned_query:
  assumes "\<And>a x b. op a = Inr (x, b) \<Longrightarrow> b = a"
    and "\<And>F x. op (db\<lparr>p_jobs := filter F (p_jobs db)\<rparr>) = Inr (x, db\<lparr>p_jobs := filter F (p_jobs db)\<rparr>) \<Longrightarrow>
      \<forall>j \<in> set (p_jobs db). \<not> failed_job j \<longrightarrow> F j \<Longrightarrow> R x"
    and v: "cleaned E db w v"
  shows "wp (pub_db E (db_file E) (\<lambda>_. op)) (\<lambda>x v'. cleaned E db w v' \<and> R x) (\<lambda>_. cleaned E db w) v"
proof (rule wp_looks [OF looks_query [where Q = "\<lambda>g x. \<forall>a. g (db_file E) = Some (Database a) \<longrightarrow> op a = Inr (x, a)"]])
  fix x and v' :: "pub_content world"
  assume "file_at v' = file_at v" and q: "\<forall>a. file_at v (db_file E) = Some (Database a) \<longrightarrow> op a = Inr (x, a)"
  moreover obtain F where "file_at v (db_file E) = Some (Database (db\<lparr>p_jobs := filter F (p_jobs db)\<rparr>))"
    "\<forall>j \<in> set (p_jobs db). \<not> failed_job j \<longrightarrow> F j"
    using v unfolding cleaned_def by blast
  ultimately show "cleaned E db w v' \<and> R x" using assms(2) v cleaned_same by blast
qed (use assms(1) v in \<open>auto dest: cleaned_same\<close>)

lemma preserves_orphaned_diffs: "preserves (cleaned E db w) (find_orphaned_diffs P E A dr)"
proof -
  have walk: "preserves (cleaned E db w) (walk_directory_for_orphans P E A DIFFS_DIR (List.map_filter job_diff_path js) dr)"
    if "diff_names db \<subseteq> set (List.map_filter job_diff_path js)" for js
    by (rule preserves_cleaned [OF touches_walk]) (use that in \<open>auto simp: orphans_def unrecorded_def\<close>)
  have query: "wp (pub_db E (db_file E) (\<lambda>_. list_diff_jobs_by_status JobCompleted))
      (\<lambda>js v'. cleaned E db w v' \<and> diff_names db \<subseteq> set (List.map_filter job_diff_path js)) (\<lambda>_. cleaned E db w) v"
    if "cleaned E db w v" for v
  proof (rule wp_cleaned_query [OF _ _ that])
    fix F x
    assume "list_diff_jobs_by_status JobCompleted (db\<lparr>p_jobs := filter F (p_jobs db)\<rparr>) = Inr (x, db\<lparr>p_jobs := filter F (p_jobs db)\<rparr>)"
      and F: "\<forall>j \<in> set (p_jobs db). \<not> failed_job j \<longrightarrow> F j"
    then have x: "set x = {j \<in> set (p_jobs db). F j \<and> job_status j = diff_job_status_as_str JobCompleted}"
      by (auto simp: list_diff_jobs_by_status_def)
    have "F j" if "j \<in> set (p_jobs db)" "job_status j = diff_job_status_as_str JobCompleted" for j
      using F that by (auto simp: failed_job_def)
    then show "diff_names db \<subseteq> set (List.map_filter job_diff_path x)"
      unfolding diff_names_def x by (force simp: List.map_filter_def x)
  qed (auto simp: list_diff_jobs_by_status_def)
  show ?thesis
    unfolding find_orphaned_diffs_def
    by (intro preserves_bind preserves_pure) (auto intro!: preserves_pure preserves_bind_fact [OF query walk])
qed

text \<open>Every version belongs to a recorded binary, and the identifiers of jobs are unique.\<close>

definition cleanable :: "publisher_db \<Rightarrow> bool" where
  "cleanable db \<longleftrightarrow> distinct (map job_id (p_jobs db)) \<and> (\<forall>v \<in> set (p_versions db). ver_binary_id v \<in> bin_id ` set (p_binaries db))"

lemma wp_version_paths:
  "cleaned E db w v \<Longrightarrow> wp (version_paths E bs)
     (\<lambda>ps v'. cleaned E db w v' \<and> (\<forall>u \<in> set (p_versions db). ver_binary_id u \<in> bin_id ` set bs \<longrightarrow> ver_file_path u \<in> set ps)) (\<lambda>_. cleaned E db w) v"
proof (induction bs arbitrary: v)
  case (Cons b bs)
  have query: "wp (pub_db E (db_file E) (\<lambda>_. list_db_versions (bin_id b)))
      (\<lambda>vs v'. cleaned E db w v' \<and> {u \<in> set (p_versions db). ver_binary_id u = bin_id b} \<subseteq> set vs) (\<lambda>_. cleaned E db w) v"
    by (rule wp_cleaned_query [OF _ _ Cons.prems]) (auto simp: list_db_versions_def newest_versions_def)
  show ?case by (auto intro!: wp_mono [OF query] wp_mono [OF Cons.IH])
qed simp

lemma preserves_orphaned_binaries:
  assumes "cleanable db"
  shows "preserves (cleaned E db w) (find_orphaned_binaries P E A dr)"
proof -
  have walk: "preserves (cleaned E db w) (walk_directory_for_orphans P E A BINARIES_DIR ps dr)"
    if "\<forall>u \<in> set (p_versions db). ver_binary_id u \<in> bin_id ` set bs \<longrightarrow> ver_file_path u \<in> set ps" "set bs = set (p_binaries db)" for ps bs
    by (rule preserves_cleaned [OF touches_walk])
       (use that assms in \<open>auto simp: orphans_def unrecorded_def version_names_def cleanable_def\<close>)
  have rest: "preserves (cleaned E db w) (bindE (version_paths E bs) (\<lambda>known_paths. walk_directory_for_orphans P E A BINARIES_DIR known_paths dr))"
    if "set bs = set (p_binaries db)" for bs
    by (rule preserves_bind_fact [OF wp_version_paths]) (use walk that in blast)+
  have query: "wp (pub_db E (db_file E) (\<lambda>_. list_db_binaries)) (\<lambda>bs v'. cleaned E db w v' \<and> set bs = set (p_binaries db)) (\<lambda>_. cleaned E db w) v"
    if "cleaned E db w v" for v
    by (rule wp_cleaned_query [OF _ _ that]) (auto simp: list_db_binaries_def binaries_by_name_def)
  show ?thesis
    unfolding find_orphaned_binaries_def
    by (intro preserves_bind preserves_pure) (auto intro!: preserves_pure preserves_bind_fact [OF query rest])
qed

lemma preserves_delete_jobs:
  assumes "cleanable db"
  shows "\<forall>j \<in> set js. j \<in> set (p_jobs db) \<and> failed_job j \<Longrightarrow> preserves (cleaned E db w) (delete_failed_jobs E dr js)"
proof (induction js)
  case (Cons j js)
  have "preserves (cleaned E db w) (pub_db E (db_file E) (\<lambda>_. delete_diff_job (job_id j)))"
  proof (rule preservesI, rule wp_pub_db)
    fix v a x b and v' :: "pub_content world"
    assume v: "cleaned E db w v" "file_at v (db_file E) = Some (Database a)" "delete_diff_job (job_id j) a = Inr (x, b)"
      "file_at v' = (file_at v)(db_file E \<mapsto> Database b)"
    then obtain F where F: "a = db\<lparr>p_jobs := filter F (p_jobs db)\<rparr>" "\<forall>j \<in> set (p_jobs db). \<not> failed_job j \<longrightarrow> F j"
      by (auto simp: cleaned_def)
    have "b = db\<lparr>p_jobs := filter (\<lambda>i. F i \<and> job_id i \<noteq> job_id j) (p_jobs db)\<rparr>" using v(3) F(1) by (auto simp: delete_diff_job_def)
    moreover have "job_id i \<noteq> job_id j" if "i \<in> set (p_jobs db)" "\<not> failed_job i" for i
      using that assms Cons.prems by (auto simp: cleanable_def distinct_map dest: inj_onD)
    ultimately show "cleaned E db w v'"
      using v F(2) unfolding cleaned_def by (auto intro!: exI [of _ "\<lambda>i. F i \<and> job_id i \<noteq> job_id j"])
  qed (auto dest: cleaned_same)
  then show ?case using Cons by (auto intro!: preserves_bind preserves_pure preserves_attempt)
qed (simp add: preserves_pure)

lemma preserves_cleanup:
  assumes "cleanable db"
  shows "preserves (cleaned E db w) (run_cleanup P E A dr age)"
proof -
  have query: "wp (pub_db E (db_file E) (\<lambda>_. list_diff_jobs_by_status JobFailed))
      (\<lambda>js v'. cleaned E db w v' \<and> (\<forall>j \<in> set js. j \<in> set (p_jobs db) \<and> failed_job j)) (\<lambda>_. cleaned E db w) v" if "cleaned E db w v" for v
    by (rule wp_cleaned_query [OF _ _ that]) (auto simp: list_diff_jobs_by_status_def failed_job_def)
  have jobs: "preserves (cleaned E db w) (cleanup_failed_jobs E dr)"
    unfolding cleanup_failed_jobs_def by (rule preserves_bind_fact [OF query preserves_delete_jobs [OF assms]])
  have "preserves (cleaned E db w) (open_project E)"
    by (rule preservesI, rule wp_looks [OF looks_open_project]) (auto dest: cleaned_same)
  then show ?thesis
    unfolding run_cleanup_def
    by (intro preserves_bind preserves_orphaned_diffs preserves_orphaned_binaries [OF assms] jobs preserves_pure) auto
qed

section \<open>A sample\<close>

definition sample_prune_world :: "pub_content world" where
  "sample_prune_world = quiet_world [([''.deltaship''], Dir),
     ([''.deltaship'', ''publisher.db''], File (Database (sample_pub_db []))), ([''old''], File (Bytes sample_old_file))] 0"

lemma sample_newest: "newest_versions ''b1'' (sample_pub_db []) = [sample_to, sample_from]"
  by (simp add: newest_versions_def sample_pub_db_def sample_from_def sample_to_def sample_version_def sort_by_def str_cmp_def)

lemma sample_prunable:
  "prunable sample_publisher_env (sample_pub_db [])" "distinct (map bin_id (p_binaries (sample_pub_db [])))"
  "p_binaries (sample_pub_db []) = [sample_app]" "p_versions (sample_pub_db []) = [sample_from, sample_to]"
  "file_at sample_prune_world (db_file sample_publisher_env) = Some (Database (sample_pub_db []))" "quiet sample_prune_world"
  by (simp_all add: prunable_def sample_pub_db_def sample_publisher_db_def sample_app_def sample_pub_paths sample_from_def sample_to_def
      sample_version_def sample_pub_paths(4,5) [unfolded sample_from_def sample_to_def sample_version_def, simplified]
      file_at_def sample_prune_world_def lookup_def quiet_def)


definition sample_orphan_world :: "pub_content world" where
  "sample_orphan_world = quiet_world [([''.deltaship''], Dir),
     ([''.deltaship'', ''publisher.db''], File (Database (sample_pub_db []))), ([''.deltaship'', ''diffs''], Dir),
     ([''.deltaship'', ''diffs'', ''x''], File (Bytes sample_old_file))] 0"

lemma sample_cleanup_run:
  "\<exists>r w'. run_cleanup sample_publisher_libs sample_publisher_env sample_archive_env False None sample_orphan_world = (Inr r, w') \<and>
     orphaned_diffs r = [(''.deltaship/diffs/x'', 3)] \<and> file_at w' [''.deltaship'', ''diffs'', ''x''] = None"
proof -
  have dirs: "resolve sample_publisher_env DIFFS_DIR = [''.deltaship'', ''diffs'']"
    "resolve sample_publisher_env BINARIES_DIR = [''.deltaship'', ''binaries'']"
    by (simp_all add: resolve_def DIFFS_DIR_def BINARIES_DIR_def sample_publisher_env_def path_join_def starts_with_def path_components_def)
  have e: "entry_text DIFFS_DIR [''.deltaship'', ''diffs''] [''.deltaship'', ''diffs'', ''x''] = ''.deltaship/diffs/x''"
    by (simp add: entry_text_def DIFFS_DIR_def)
  have a: "walked sample_archive_env n p" for n p by (simp add: sample_archive_env_def)
  show ?thesis
    by (simp add: run_cleanup_def open_project_def open_publisher_db_def find_orphaned_diffs_def find_orphaned_binaries_def cleanup_failed_jobs_def
        walk_directory_for_orphans_def walk_files_def dirs sample_orphan_world_def sample_pub_paths pub_db_def db_run_def run_steps run_files
        publisher_queries path_exists_def return_db_def sample_pub_db_jobs sort_by_def in_dir_def file_at_def lookup_def a e size_or_zero_def
        pub_read_def pub_bytes_def sample_old_file_def sample_lib_simps)
qed


section \<open>Properties\<close>

text \<open>
  C37: \<open>prune\<close> never loses a version it is to keep, whatever fails: the versions of other binaries and
  the newest \<open>keep\<close> of each binary of the name stay in the database, nothing is added, and the binaries stay.
  When no operation fails it returns and exactly those versions are left. A dry run changes nothing, and without
  \<open>--delete-files\<close> no file but the database changes.
\<close>

theorem prune_keeps_newest:
  assumes "file_at w (db_file E) = Some (Database db)" "prunable E db" "distinct (map bin_id (p_binaries db))"
    and "run_prune E name keep delete_files dry_run w = (r, w')"
  shows "\<exists>db'. file_at w' (db_file E) = Some (Database db') \<and> p_binaries db' = p_binaries db \<and>
    set (p_versions db') \<subseteq> set (p_versions db) \<and> (\<forall>v \<in> set (p_versions db). spared name keep db v \<longrightarrow> v \<in> set (p_versions db')) \<and>
    (quiet w \<and> \<not> dry_run \<and> 0 < keep \<and> name \<in> bin_name ` set (p_binaries db) \<longrightarrow>
       (\<exists>n. r = Inr n) \<and> p_versions db' = filter (spared name keep db) (p_versions db)) \<and>
    (dry_run \<longrightarrow> file_at w' = file_at w) \<and>
    (\<not> delete_files \<longrightarrow> (\<forall>p. p \<noteq> db_file E \<longrightarrow> file_at w' p = file_at w p))"
proof -
  have "pruned E {v \<in> set (p_versions db). spared name keep db v} db w'"
    using prune_keeps [OF assms(1-3), of name keep delete_files dry_run] assms(4) by (auto simp: wp_def split: sum.splits)
  then obtain db' where db': "file_at w' (db_file E) = Some (Database db')" "shrinks {v \<in> set (p_versions db). spared name keep db v} db db'"
    by (auto simp: pruned_def)
  have exact: "(\<exists>n. r = Inr n) \<and> p_versions db' = filter (spared name keep db) (p_versions db)"
    if "quiet w" "\<not> dry_run" "0 < keep" "name \<in> bin_name ` set (p_binaries db)"
  proof -
    have "\<exists>b \<in> set (p_binaries db). bin_name b = name" using that(4) by auto
    from prune_exact [OF that(1) assms(1-3) that(3) this, of delete_files] show ?thesis
      using that(2) assms(4) db'(1) by (auto simp: wp_def versions_left_def split: sum.splits)
  qed
  have dry: "file_at w' = file_at w" if dry_run
    using looks_dry_prune [of E name keep delete_files] assms(4) that
    by (auto simp: looks_def wp_def split: prod.splits sum.splits dest!: spec [of _ w])
  show ?thesis
  proof (intro exI [of _ db'] conjI)
    show "\<not> delete_files \<longrightarrow> (\<forall>p. p \<noteq> db_file E \<longrightarrow> file_at w' p = file_at w p)"
      using touchesD [OF touches_prune, of E name keep dry_run] assms(4) by auto
  qed (use db' exact dry shrinks_versions [OF db'(2)] in \<open>auto simp: shrinks_def\<close>)
qed

theorem prune_keeps_newest_witness:
  "\<exists>n w' db'. run_prune sample_publisher_env ''app'' 1 True False sample_prune_world = (Inr n, w') \<and>
     file_at w' (db_file sample_publisher_env) = Some (Database db') \<and> p_versions db' = [sample_to]"
proof -
  obtain r w' where run: "run_prune sample_publisher_env ''app'' 1 True False sample_prune_world = (r, w')" by fastforce
  have k: "filter (spared ''app'' 1 (sample_pub_db [])) [sample_from, sample_to] = [sample_to]"
    by (simp add: spared_def sample_prunable sample_release_simps sample_newest)
       (simp add: sample_from_def sample_to_def sample_version_def)
  have "''app'' \<in> bin_name ` set (p_binaries (sample_pub_db []))" by (simp add: sample_prunable sample_release_simps)
  with run k show ?thesis
    using prune_keeps_newest [OF sample_prunable(5,1,2) run] sample_prunable(4,6) by (metis zero_less_one)
qed

text \<open>
  C38: \<open>cleanup\<close> removes nothing that is recorded, whatever fails: a file disappears only if it lies
  below \<open>.deltaship/diffs\<close> and is not the diff of a completed job, or below \<open>.deltaship/binaries\<close> and is not the file of a
  version, both by the text of its path; in the database only failed jobs disappear. A dry run changes nothing.
\<close>

theorem cleanup_keeps_recorded:
  assumes "file_at w (db_file E) = Some (Database db)" "cleanable db" "run_cleanup P E A dry_run age w = (r, w')"
  shows "cleaned E db w w' \<and> (dry_run \<longrightarrow> file_at w' = file_at w)"
proof
  show "cleaned E db w w'"
    using preserves_cleanup [OF assms(2), of E w P A dry_run age, unfolded preserves_def, rule_format, OF cleaned_start [OF assms(1)]] assms(3)
    by (simp add: wp_def split: sum.splits)
  show "dry_run \<longrightarrow> file_at w' = file_at w"
    using looks_dry_cleanup [of P E A age] assms(3)
    by (auto simp: looks_def wp_def split: prod.splits sum.splits dest!: spec [of _ w])
qed

theorem cleanup_keeps_recorded_witness:
  "\<exists>r w'. run_cleanup sample_publisher_libs sample_publisher_env sample_archive_env False None sample_orphan_world = (Inr r, w') \<and>
     orphaned_diffs r = [(''.deltaship/diffs/x'', 3)] \<and> file_at w' [''.deltaship'', ''diffs'', ''x''] = None \<and>
     cleaned sample_publisher_env (sample_pub_db []) sample_orphan_world w'"
proof -
  obtain r w' where run: "run_cleanup sample_publisher_libs sample_publisher_env sample_archive_env False None sample_orphan_world = (Inr r, w')"
    and out: "orphaned_diffs r = [(''.deltaship/diffs/x'', 3)]" "file_at w' [''.deltaship'', ''diffs'', ''x''] = None"
    using sample_cleanup_run by blast
  have "cleanable (sample_pub_db [])"
    by (simp add: cleanable_def sample_prunable sample_release_simps) (simp add: sample_pub_db_def sample_from_def sample_to_def sample_version_def)
  moreover have "file_at sample_orphan_world (db_file sample_publisher_env) = Some (Database (sample_pub_db []))"
    by (simp add: sample_orphan_world_def file_at_def lookup_def sample_pub_paths)
  ultimately show ?thesis using cleanup_keeps_recorded [OF _ _ run] run out by blast
qed

end
