(* ===== verification/Publisher_Project.thy ===== *)
theory Publisher_Project
  imports Publisher_Cleanup
begin

text \<open>
  Setting up and configuring a project: \<open>config.rs\<close> and the commands \<open>init\<close>, \<open>keygen\<close> and \<open>config\<close> of
  \<open>crates/deltaship-publisher\<close>. A prompt reads a line from the terminal. The parser of URLs is a parameter; so are the generator of keys and
  the random bytes of their encryption. A command that prints the configuration returns what it prints, without
  shortening the public key.
\<close>

section \<open>Configuration keys\<close>

datatype config_key = ServerUrl | PublisherName | PublicKey

definition KEYS_DIR :: string where
  "KEYS_DIR = ''.deltaship/keys''"

definition CONFIG_PUBLIC_KEY :: string where
  "CONFIG_PUBLIC_KEY = ''public_key''"

definition CONFIG_PUBLISHER_NAME :: string where
  "CONFIG_PUBLISHER_NAME = ''publisher_name''"

definition ALL_CONFIG_KEYS :: "config_key list" where
  "ALL_CONFIG_KEYS = [ServerUrl, PublisherName, PublicKey]"

fun as_db_key :: "config_key \<Rightarrow> string" where
  "as_db_key ServerUrl = CONFIG_SERVER_URL"
| "as_db_key PublisherName = CONFIG_PUBLISHER_NAME"
| "as_db_key PublicKey = CONFIG_PUBLIC_KEY"

definition is_read_only :: "config_key \<Rightarrow> bool" where
  "is_read_only k \<longleftrightarrow> k = PublicKey"

fun display_config_key :: "config_key \<Rightarrow> string" where
  "display_config_key ServerUrl = ''server_url''"
| "display_config_key PublisherName = ''publisher_name''"
| "display_config_key PublicKey = ''public_key''"

definition config_key_from_str :: "string \<Rightarrow> string + config_key" where
  "config_key_from_str s =
     (let l = to_lowercase s in
      if l = ''server_url'' then Inr ServerUrl
      else if l = ''publisher_name'' then Inr PublisherName
      else if l = ''public_key'' then Inr PublicKey
      else Inl (''Unknown config key: '' @ s))"

fun get_default_value :: "config_key \<Rightarrow> string option" where
  "get_default_value ServerUrl = Some DEFAULT_SERVER_URL"
| "get_default_value PublisherName = None"
| "get_default_value PublicKey = None"

record parsed_url =
  url_scheme :: string
  url_has_host :: bool
  url_username :: string
  url_password :: "string option"

fun validate_config_value :: "(string \<Rightarrow> parsed_url option) \<Rightarrow> config_key \<Rightarrow> string \<Rightarrow> string + unit" where
  "validate_config_value parse_url ServerUrl value =
     (case parse_url value of None \<Rightarrow> Inl ''Invalid URL format'' | Some u \<Rightarrow>
      if url_scheme u \<noteq> ''http'' \<and> url_scheme u \<noteq> ''https'' then Inl ''Server URL must use http or https scheme''
      else if \<not> url_has_host u then Inl ''Server URL must have a valid host''
      else if url_username u \<noteq> [] \<or> url_password u \<noteq> None then Inl ''Server URL should not contain embedded credentials''
      else Inr ())"
| "validate_config_value parse_url PublisherName value =
     (if value = [] then Inl ''Publisher name cannot be empty''
      else if 100 < length value then Inl ''Publisher name is too long (max 100 characters)''
      else Inr ())"
| "validate_config_value parse_url PublicKey value = Inl ''Public key is read-only and cannot be set directly''"


section \<open>config\<close>

definition parsed_key :: "string \<Rightarrow> (pub_content, pub_error, config_key) io" where
  "parsed_key s = map_err PMessage (from_sum (config_key_from_str s))"

definition config_value :: "publisher_env \<Rightarrow> config_key \<Rightarrow> (pub_content, pub_error, string option) io" where
  "config_value E k =
     bindE (pub_db E (db_file E) (\<lambda>_. get_publisher_config (as_db_key k))) (\<lambda>v.
     returnE (case v of Some x \<Rightarrow> Some x | None \<Rightarrow> get_default_value k))"

fun config_values :: "publisher_env \<Rightarrow> config_key list \<Rightarrow> (pub_content, pub_error, (config_key \<times> string option) list) io" where
  "config_values E [] = returnE []"
| "config_values E (k # ks) =
     bindE (config_value E k) (\<lambda>v. bindE (config_values E ks) (\<lambda>rest. returnE ((k, v) # rest)))"

definition run_config_get :: "publisher_env \<Rightarrow> string option \<Rightarrow> (pub_content, pub_error, (config_key \<times> string option) list) io" where
  "run_config_get E key =
     bindE (open_project E) (\<lambda>_.
     case key of
       Some key_str \<Rightarrow> bindE (parsed_key key_str) (\<lambda>k. config_values E [k])
     | None \<Rightarrow> config_values E ALL_CONFIG_KEYS)"

definition store_config :: "publisher_env \<Rightarrow> config_key \<Rightarrow> string \<Rightarrow> (pub_content, pub_error, unit) io" where
  "store_config E k value = pub_db E (db_file E) (\<lambda>now. set_publisher_config now (as_db_key k) value)"

definition run_config_set :: "(string \<Rightarrow> parsed_url option) \<Rightarrow> publisher_env \<Rightarrow> string \<Rightarrow> string \<Rightarrow> (pub_content, pub_error, unit) io" where
  "run_config_set parse_url E key value =
     bindE (get_world (path_exists (db_file E))) (\<lambda>present.
     if \<not> present then throwE (PMessage ''Deltaship project not initialized.'')
     else
     bindE (parsed_key key) (\<lambda>k.
     if is_read_only k then throwE (PMessage ''this configuration is read-only.'')
     else
     bindE (map_err PMessage (from_sum (validate_config_value parse_url k value))) (\<lambda>_.
     bindE (open_publisher_db E (db_file E)) (\<lambda>_. store_config E k value))))"

text \<open>The listing says of each key whether it is set, has a default, or is not set.\<close>

datatype config_status = IsSet | IsDefault string | NotSet

definition unset_status :: "config_key \<Rightarrow> config_status" where
  "unset_status k = (case get_default_value k of Some d \<Rightarrow> IsDefault d | None \<Rightarrow> NotSet)"

fun config_statuses :: "publisher_env \<Rightarrow> bool \<Rightarrow> config_key list \<Rightarrow> (pub_content, pub_error, (config_key \<times> config_status \<times> bool) list) io" where
  "config_statuses E present [] = returnE []"
| "config_statuses E present (k # ks) =
     bindE (if present then bindE (pub_db E (db_file E) (\<lambda>_. get_publisher_config (as_db_key k)))
                (\<lambda>v. returnE (if v \<noteq> None then IsSet else unset_status k))
            else returnE (unset_status k)) (\<lambda>s.
     bindE (config_statuses E present ks) (\<lambda>rest. returnE ((k, s, is_read_only k) # rest)))"

definition run_config_list :: "publisher_env \<Rightarrow> (pub_content, pub_error, (config_key \<times> config_status \<times> bool) list) io" where
  "run_config_list E =
     bindE (get_world (path_exists (db_file E))) (\<lambda>present.
     bindE (if present then open_publisher_db E (db_file E) else returnE ()) (\<lambda>_.
     config_statuses E present ALL_CONFIG_KEYS))"

definition reset_key :: "publisher_env \<Rightarrow> config_key \<Rightarrow> (pub_content, pub_error, unit) io" where
  "reset_key E k = store_config E k (case get_default_value k of Some d \<Rightarrow> d | None \<Rightarrow> [])"

fun reset_keys :: "publisher_env \<Rightarrow> config_key list \<Rightarrow> (pub_content, pub_error, unit) io" where
  "reset_keys E [] = returnE ()"
| "reset_keys E (k # ks) =
     (if is_read_only k then reset_keys E ks else bindE (reset_key E k) (\<lambda>_. reset_keys E ks))"

definition run_config_reset :: "publisher_env \<Rightarrow> tool_env \<Rightarrow> string option \<Rightarrow> (pub_content, pub_error, unit) io" where
  "run_config_reset E T key =
     bindE (open_project E) (\<lambda>_.
     case key of
       Some key_str \<Rightarrow>
         bindE (parsed_key key_str) (\<lambda>k.
         if is_read_only k then throwE (PMessage ''this configuration is read-only.'') else reset_key E k)
     | None \<Rightarrow>
         bindE (read_terminal T) (\<lambda>input.
         if to_lowercase (trim input) \<noteq> ''y'' then returnE () else reset_keys E ALL_CONFIG_KEYS))"


section \<open>Passphrases\<close>

definition COMMON_WEAK_PASSWORDS :: "string list" where
  "COMMON_WEAK_PASSWORDS = [''password'', ''Password1'', ''qwertyuiop'', ''123456789012'', ''passwordpassword'', ''letmein12345'',
     ''admin1234567'', ''welcome12345'', ''monkey123456'', ''dragon123456'']"

text \<open>\<open>to_lowercase\<close> here changes ASCII letters only, as the patterns are ASCII.\<close>

definition is_weak :: "string \<Rightarrow> bool" where
  "is_weak passphrase \<longleftrightarrow> list_ex (\<lambda>weak. contains_str (to_lowercase passphrase) (to_lowercase weak)) COMMON_WEAK_PASSWORDS"

definition prompt_passphrase :: "tool_env \<Rightarrow> (pub_content, pub_error, string) io" where
  "prompt_passphrase T =
     bindE (read_terminal T) (\<lambda>passphrase.
     if passphrase = [] then throwE (PMessage ''Empty passphrase not allowed.'')
     else if passphrase = ''UNENCRYPTED'' then
       bindE (read_terminal T) (\<lambda>confirm.
       if confirm \<noteq> ''UNENCRYPTED'' then throwE (PMessage ''Unencrypted confirmation failed. Key generation cancelled.'')
       else returnE [])
     else if length passphrase < 12 then throwE (PMessage ''Passphrase too short. Minimum 12 characters required for security.'')
     else if is_weak passphrase then throwE (PMessage ''Passphrase contains common weak pattern'')
     else
       bindE (read_terminal T) (\<lambda>confirm.
       if passphrase \<noteq> confirm then throwE (PMessage ''Passphrases do not match.'') else returnE passphrase))"


section \<open>init and keygen\<close>

text \<open>A new key pair in the directory of keys. An empty passphrase is none.\<close>

definition passphrase_opt :: "string \<Rightarrow> string option" where
  "passphrase_opt passphrase = (if passphrase = [] then None else Some passphrase)"

definition signing_key_path :: "publisher_env \<Rightarrow> string \<Rightarrow> path" where
  "signing_key_path E dir = resolve E dir @ [''signing.key'']"

definition public_key_path :: "publisher_env \<Rightarrow> string \<Rightarrow> path" where
  "public_key_path E dir = resolve E dir @ [''public.key'']"

definition save_keys :: "pub_content key_libs \<Rightarrow> key_random \<Rightarrow> tool_libs \<Rightarrow> publisher_env \<Rightarrow> string \<Rightarrow> bytes \<Rightarrow> string
   \<Rightarrow> (pub_content, pub_error, unit) io" where
  "save_keys K R L E dir signing_key passphrase =
     bindE (map_err (\<lambda>_. PMessage ''key file'') (save_signing_key K R signing_key (signing_key_path E dir)
              (passphrase_opt passphrase) Standard)) (\<lambda>_.
     map_err (\<lambda>_. PMessage ''key file'') (save_verifying_key K (ed_public L signing_key) (public_key_path E dir)))"

definition init_passphrase :: "tool_env \<Rightarrow> string option \<Rightarrow> (pub_content, pub_error, string) io" where
  "init_passphrase T arg =
     (case arg of Some p \<Rightarrow> returnE (if p = ''UNENCRYPTED'' then [] else p) | None \<Rightarrow> prompt_passphrase T)"

definition init_command :: "pub_content key_libs \<Rightarrow> key_random \<Rightarrow> tool_libs \<Rightarrow> publisher_env \<Rightarrow> tool_env \<Rightarrow> string
   \<Rightarrow> string option \<Rightarrow> (pub_content, pub_error, unit) io" where
  "init_command K R L E T integrity passphrase_arg =
     bindE (get_world (path_exists (resolve E DELTASHIP_DIR))) (\<lambda>present.
     if present then throwE (PMessage ''Deltaship project already initialized in this directory.'')
     else
     bindE (map_err PIo (create_dir_all (resolve E DELTASHIP_DIR))) (\<lambda>_.
     bindE (map_err PIo (create_dir_all (resolve E KEYS_DIR))) (\<lambda>_.
     bindE (init_passphrase T passphrase_arg) (\<lambda>passphrase.
     bindE (observe (new_key T)) (\<lambda>signing_key.
     bindE (save_keys K R L E KEYS_DIR signing_key passphrase) (\<lambda>_.
     bindE (open_publisher_db E (db_file E)) (\<lambda>_.
     bindE (pub_db E (db_file E) (init_publisher_db integrity)) (\<lambda>_.
     pub_db E (db_file E) (\<lambda>now. set_publisher_config now CONFIG_PUBLIC_KEY (to_hex (ed_public L signing_key)))))))))))"

definition keygen_command :: "pub_content key_libs \<Rightarrow> key_random \<Rightarrow> tool_libs \<Rightarrow> publisher_env \<Rightarrow> tool_env \<Rightarrow> string option \<Rightarrow> string option
   \<Rightarrow> (pub_content, pub_error, unit) io" where
  "keygen_command K R L E T out_dir passphrase_arg =
     (let keys_dir = (case out_dir of Some d \<Rightarrow> d | None \<Rightarrow> KEYS_DIR) in
      bindE (get_world (path_exists (resolve E keys_dir))) (\<lambda>present.
      bindE (if present then returnE () else map_err PIo (create_dir_all (resolve E keys_dir))) (\<lambda>_.
      bindE (get_world (path_exists (signing_key_path E keys_dir))) (\<lambda>exists.
      if exists then throwE (PMessage ''Signing key already exists.'')
      else
      bindE (case passphrase_arg of Some p \<Rightarrow> returnE p | None \<Rightarrow> prompt_passphrase T) (\<lambda>passphrase.
      bindE (observe (new_key T)) (\<lambda>signing_key.
      save_keys K R L E keys_dir signing_key passphrase))))))"


section \<open>Rules\<close>

text \<open>The files of a project.\<close>

lemma project_paths:
  "resolve E DELTASHIP_DIR = working_dir E @ [''.deltaship'']"
  "resolve E KEYS_DIR = working_dir E @ [''.deltaship'', ''keys'']"
  "signing_key_path E KEYS_DIR = working_dir E @ [''.deltaship'', ''keys'', ''signing.key'']"
  "public_key_path E KEYS_DIR = working_dir E @ [''.deltaship'', ''keys'', ''public.key'']"
  "db_file E = working_dir E @ [''.deltaship'', ''publisher.db'']"
  by (simp_all add: signing_key_path_def public_key_path_def db_file_def resolve_def DELTASHIP_DIR_def KEYS_DIR_def DB_FILE_def
      path_join_def path_components_def starts_with_def)

lemma key_temp_paths:
  "with_extension (p @ [''signing.key'']) ''tmp'' = p @ [''signing.tmp'']"
  "with_extension (p @ [''public.key'']) ''tmp'' = p @ [''public.tmp'']"
  by (simp_all add: with_extension_def file_stem_def)

lemma touches_write_key_file: "touches {p, with_extension p ''tmp''} (write_key_file K p content)"
  unfolding write_key_file_def Let_def by (auto intro!: footprint.keeps_intros)

lemma wp_write_key_files:
  assumes "with_extension p ''tmp'' \<noteq> p"
    and "\<And>w'. file_at w' p = Some (utf8_of_text K content) \<Longrightarrow>
      \<forall>q. q \<noteq> p \<longrightarrow> q \<noteq> with_extension p ''tmp'' \<longrightarrow> file_at w' q = file_at w q \<Longrightarrow> Q () w'"
    and "\<And>e w'. F (KeyIo e) w'"
  shows "wp (write_key_file K p content) Q F w"
  unfolding write_key_file_def Let_def using assms by (auto intro!: wp_prims)

text \<open>The files of a key pair.\<close>

definition key_pair_saved :: "pub_content key_libs \<Rightarrow> key_random \<Rightarrow> tool_libs \<Rightarrow> publisher_env \<Rightarrow> string \<Rightarrow> bytes \<Rightarrow> string
   \<Rightarrow> (path \<Rightarrow> pub_content option) \<Rightarrow> bool" where
  "key_pair_saved K R L E dir key passphrase g \<longleftrightarrow>
     (\<exists>n m content. signing_key_text K key (passphrase_opt passphrase) Standard (rand_salt R n) (rand_nonce R m) = Inr content \<and>
        g (signing_key_path E dir) = Some (utf8_of_text K content)) \<and>
     g (public_key_path E dir) = Some (utf8_of_text K (verifying_key_text (ed_public L key)))"

lemma key_pair_distinct:
  "public_key_path E dir \<noteq> signing_key_path E dir" "with_extension (public_key_path E dir) ''tmp'' \<noteq> signing_key_path E dir"
  "with_extension (public_key_path E dir) ''tmp'' \<noteq> public_key_path E dir"
  "with_extension (signing_key_path E dir) ''tmp'' \<noteq> signing_key_path E dir"
  by (simp_all add: signing_key_path_def public_key_path_def key_temp_paths)

lemma wp_save_keys:
  assumes "\<And>w'. key_pair_saved K R L E dir key passphrase (file_at w') \<Longrightarrow> Q () w'" "\<And>e w'. F e w'"
  shows "wp (save_keys K R L E dir key passphrase) Q F w"
  unfolding save_keys_def save_signing_key_def save_verifying_key_def
  using assms(2) key_pair_distinct [of E dir]
  by (auto simp: key_pair_saved_def split: sum.splits intro!: wp_write_key_files assms(1)) metis

text \<open>What a prompt accepts.\<close>

definition strong :: "string \<Rightarrow> bool" where
  "strong p \<longleftrightarrow> 12 \<le> length p \<and> \<not> is_weak p"

lemma looks_terminal: "looks (read_terminal T) (\<lambda>_ _. True)"
  unfolding read_terminal_def by (intro looks_any_bind looks_observe looks_branch looks_pure) auto

lemma looks_prompt: "looks (prompt_passphrase T) (\<lambda>_ p. p = [] \<or> strong p)"
  unfolding prompt_passphrase_def
  by (intro looks_any_bind [OF looks_terminal] looks_branch looks_pure) (auto simp: strong_def)

text \<open>A database that has been opened and initialised holds a key that is stored in it.\<close>

lemma wp_open_publisher_db:
  assumes "\<And>w' c. file_at w' = (file_at w)(p \<mapsto> c) \<Longrightarrow> Q () w'"
    and "\<And>e w'. F e w'"
  shows "wp (open_publisher_db E p) Q F w"
  unfolding open_publisher_db_def using assms by (auto intro!: wp_pub_db wp_open_create simp: return_db_def)

definition config_holds :: "string \<Rightarrow> string \<Rightarrow> pub_content option \<Rightarrow> bool" where
  "config_holds key value c \<longleftrightarrow> (\<exists>db. c = Some (Database db) \<and> get_publisher_config key db = Inr (Some value, db))"

lemma wp_store_config:
  assumes "\<And>w'. config_holds key value (file_at w' p) \<Longrightarrow> \<forall>q. q \<noteq> p \<longrightarrow> file_at w' q = file_at w q \<Longrightarrow> Q () w'" "\<And>e w'. F e w'"
  shows "wp (pub_db E p (\<lambda>now. set_publisher_config now key value)) Q F w"
  using assms(2)
  by (auto intro!: wp_pub_db assms(1)
      simp: set_publisher_config_def Let_def config_holds_def get_publisher_config_def)


text \<open>The passphrase \<open>init\<close> works with: the one it is given, or one that is read.\<close>

definition chosen :: "string option \<Rightarrow> string \<Rightarrow> bool" where
  "chosen arg p \<longleftrightarrow> (case arg of Some a \<Rightarrow> p = (if a = ''UNENCRYPTED'' then [] else a) | None \<Rightarrow> p = [] \<or> strong p)"

lemma looks_chosen: "looks (init_passphrase T arg) (\<lambda>_. chosen arg)"
proof (cases arg)
  case None
  then show ?thesis using looks_weaken [OF looks_prompt] by (simp add: init_passphrase_def chosen_def)
qed (auto simp: init_passphrase_def chosen_def intro: looks_pure)

lemma key_pair_saved_outside:
  assumes "key_pair_saved K R L E KEYS_DIR key p g" "\<forall>q. q \<noteq> db_file E \<longrightarrow> h q = g q"
  shows "key_pair_saved K R L E KEYS_DIR key p h"
  using assms by (simp add: key_pair_saved_def project_paths)

lemma wp_new_database:
  assumes "key_pair_saved K R L E KEYS_DIR key p (file_at w)"
    and "\<And>w'. key_pair_saved K R L E KEYS_DIR key p (file_at w') \<Longrightarrow> config_holds k v (file_at w' (db_file E)) \<Longrightarrow> Q () w'"
    and "\<And>e w'. F e w'"
  shows "wp (bindE (open_publisher_db E (db_file E)) (\<lambda>_. bindE (pub_db E (db_file E) (init_publisher_db integrity)) (\<lambda>_.
     pub_db E (db_file E) (\<lambda>now. set_publisher_config now k v)))) Q F w"
  unfolding wp_bindE
  by (rule wp_open_publisher_db, rule wp_pub_db, rule wp_store_config)
     (auto intro!: assms(2,3) elim!: key_pair_saved_outside [OF assms(1)])


section \<open>Properties\<close>

text \<open>
  C35: a project that \<open>init\<close> has set up is consistent. A directory that is already a project is left alone.
  Otherwise, when \<open>init\<close> returns, whatever happened on the way, there is one key pair such that the file of the
  signing key is loaded with the passphrase chosen, and refused without it, the file of the public key holds
  its public half, and so does the configuration in the database. A passphrase that was read from the terminal
  is strong, or there is none because the user asked for that.
\<close>

theorem init_project_consistent:
  assumes "key_laws K" "\<And>n. length (new_key T n) = 32" "\<And>n. length (rand_salt R n) = 16" "\<And>n. length (rand_nonce R n) = 12"
  shows "if path_exists (resolve E DELTASHIP_DIR) w then \<exists>e. init_command K R L E T integrity arg w = (Inl e, w)
    else case init_command K R L E T integrity arg w of
      (Inl _, _) \<Rightarrow> True
    | (Inr _, w') \<Rightarrow> \<exists>n p. chosen arg p \<and> loads_signing_key K (new_key T n) (signing_key_path E KEYS_DIR) (passphrase_opt p) w' \<and>
        file_at w' (public_key_path E KEYS_DIR) = Some (utf8_of_text K (verifying_key_text (ed_public L (new_key T n)))) \<and>
        config_holds CONFIG_PUBLIC_KEY (to_hex (ed_public L (new_key T n))) (file_at w' (db_file E))"
proof (cases "path_exists (resolve E DELTASHIP_DIR) w")
  case True
  then show ?thesis by (simp add: init_command_def bindE_def get_world_def throwE_def)
next
  case False
  let ?done = "\<lambda>w'. \<exists>n p. chosen arg p \<and> key_pair_saved K R L E KEYS_DIR (new_key T n) p (file_at w') \<and>
      config_holds CONFIG_PUBLIC_KEY (to_hex (ed_public L (new_key T n))) (file_at w' (db_file E))"
  have "wp (init_command K R L E T integrity arg) (\<lambda>_. ?done) (\<lambda>_ _. True) w"
    unfolding init_command_def
    apply (rule wp_run)+
    using False apply simp
    apply (rule wp_run wp_no_change)+
    apply (rule wp_looks [OF looks_chosen])
    apply (rule wp_run)+
    apply (simp del: wp_bindE wp_seq_fun)
    apply (rule wp_bindE [THEN iffD2], rule wp_save_keys)
    apply (erule wp_new_database)
    by blast+
  then show ?thesis
    using False loads_written [OF assms(1,2)] assms(3,4)
    by (auto simp: wp_def key_pair_saved_def split: prod.splits sum.splits) blast
qed

lemma sample_release_key_laws: "key_laws sample_release_keys"
  by (simp add: key_laws_def sample_release_keys_def hex_chunks_to_hex comp_def unat_of_char)

abbreviation sample_init :: "(pub_error + unit) \<times> pub_content world" where
  "sample_init \<equiv> init_command sample_release_keys sample_key_random sample_tool_libs sample_publisher_env sample_tool_env ''ok''
     (Some ''UNENCRYPTED'') (quiet_world [] 0)"

lemma sample_init_ok: "\<exists>w'. sample_init = (Inr (), w')"
proof -
  have p: "working_dir sample_publisher_env = []" by (simp add: sample_publisher_env_def)
  show ?thesis
    by (simp add: init_command_def init_passphrase_def save_keys_def save_signing_key_def save_verifying_key_def write_key_file_def
        signing_key_text_def passphrase_opt_def run_steps run_files open_publisher_db_def pub_db_def db_run_def return_db_def
        init_publisher_db_def set_publisher_config_def empty_publisher_db_def path_exists_def project_paths p key_temp_paths [where p = "[''.deltaship'', ''keys'']", simplified])
qed

theorem init_project_consistent_witness:
  "\<exists>w' n p. sample_init = (Inr (), w') \<and>
     loads_signing_key sample_release_keys (new_key sample_tool_env n) (signing_key_path sample_publisher_env KEYS_DIR) (passphrase_opt p) w' \<and>
     config_holds CONFIG_PUBLIC_KEY (to_hex (ed_public sample_tool_libs (new_key sample_tool_env n))) (file_at w' (db_file sample_publisher_env))"
proof -
  obtain w' where w': "sample_init = (Inr (), w')" using sample_init_ok by blast
  have new: "\<not> path_exists (resolve sample_publisher_env DELTASHIP_DIR) (quiet_world [] 0)"
    by (simp add: path_exists_def lookup_quiet project_paths sample_publisher_env_def)
  have len: "length (new_key sample_tool_env n) = 32" "length (rand_salt sample_key_random n) = 16" "length (rand_nonce sample_key_random n) = 12" for n
    by (simp_all add: sample_tool_env_def sample_key_random_def)
  show ?thesis
    using init_project_consistent [OF sample_release_key_laws len, of sample_publisher_env "quiet_world [] 0"
        sample_tool_libs "''ok''" "Some ''UNENCRYPTED''", unfolded if_not_P [OF new] w' prod.case sum.case] w' by blast
qed

text \<open>Setting a value: it is valid for a key that may be set, and stored; a refused or failed command changes nothing.\<close>

lemma wp_open_publisher_present:
  assumes "path_exists (db_file E) w" "\<And>w'. file_at w' = file_at w \<Longrightarrow> Q () w'" "\<And>e w'. file_at w' = file_at w \<Longrightarrow> F e w'"
  shows "wp (open_publisher_db E (db_file E)) Q F w"
  unfolding open_publisher_db_def using assms
  by (auto intro!: wp_open_present wp_pub_db simp: return_db_def fun_upd_idem)

theorem config_set_stores:
  "case run_config_set parse_url E key value w of
     (Inr _, w') \<Rightarrow> \<exists>k. config_key_from_str key = Inr k \<and> \<not> is_read_only k \<and> validate_config_value parse_url k value = Inr () \<and>
        config_holds (as_db_key k) value (file_at w' (db_file E))
   | (Inl _, w') \<Rightarrow> file_at w' = file_at w"
proof -
  have "wp (run_config_set parse_url E key value)
     (\<lambda>_ w'. \<exists>k. config_key_from_str key = Inr k \<and> \<not> is_read_only k \<and> validate_config_value parse_url k value = Inr () \<and>
        config_holds (as_db_key k) value (file_at w' (db_file E)))
     (\<lambda>_ w'. file_at w' = file_at w) w"
    unfolding run_config_set_def parsed_key_def store_config_def
    by (auto split: sum.splits intro!: wp_open_publisher_present wp_pub_db
        simp: set_publisher_config_def Let_def config_holds_def get_publisher_config_def)
  then show ?thesis by (simp add: wp_def split: prod.splits sum.splits)
qed

text \<open>No command on the configuration changes the public key a project publishes.\<close>

definition public_key_is :: "publisher_env \<Rightarrow> string \<Rightarrow> pub_content world \<Rightarrow> bool" where
  "public_key_is E v w \<longleftrightarrow> config_holds CONFIG_PUBLIC_KEY v (file_at w (db_file E))"

lemma db_keys_distinct: "\<not> is_read_only k \<Longrightarrow> as_db_key k \<noteq> CONFIG_PUBLIC_KEY"
  by (cases k) (simp_all add: is_read_only_def CONFIG_SERVER_URL_def CONFIG_PUBLISHER_NAME_def CONFIG_PUBLIC_KEY_def)

lemma preserves_store_config: "\<not> is_read_only k \<Longrightarrow> preserves (public_key_is E v) (store_config E k value)"
  unfolding store_config_def
  by (rule preservesI, rule wp_pub_db)
     (auto dest!: db_keys_distinct simp: public_key_is_def set_publisher_config_def Let_def config_holds_def get_publisher_config_def)

lemma preserves_reading: "looks m (\<lambda>_ _. True) \<Longrightarrow> preserves (public_key_is E v) m"
  by (rule preserves_looks) (simp_all add: public_key_is_def)

lemma looks_parsed_key: "looks (parsed_key s) (\<lambda>_ _. True)"
  unfolding parsed_key_def by (intro looks_map_err looks_pure) auto

lemma preserves_reset_keys: "preserves (public_key_is E v) (reset_keys E ks)"
  by (induction ks) (auto simp: reset_key_def intro: preserves_pure preserves_bind preserves_store_config)

lemma looks_config_value: "looks (config_value E k) (\<lambda>_ _. True)"
  unfolding config_value_def
  by (intro looks_any_bind looks_query looks_pure) (auto simp: get_publisher_config_def)

lemma looks_config_values: "looks (config_values E ks) (\<lambda>_ _. True)"
  by (induction ks) (auto intro!: looks_any_bind looks_pure looks_config_value)

lemma looks_config_statuses: "looks (config_statuses E present ks) (\<lambda>_ _. True)"
  by (induction ks) (auto intro!: looks_any_bind looks_query looks_pure simp: get_publisher_config_def)

theorem config_keeps_public_key:
  "preserves (public_key_is E v) (run_config_set parse_url E key value)"
  "preserves (public_key_is E v) (run_config_reset E T arg)"
  "preserves (public_key_is E v) (run_config_get E arg)"
  "preserves (public_key_is E v) (run_config_list E)"
proof -
  have open_db: "preserves (public_key_is E v) (open_publisher_db E (db_file E))"
    unfolding open_publisher_db_def
    apply (rule preservesI)
    by (auto intro!: wp_open_create wp_pub_db simp: public_key_is_def return_db_def config_holds_def)
  have project: "preserves (public_key_is E v) (open_project E)"
    by (rule preserves_reading, rule looks_open_project) simp
  show "preserves (public_key_is E v) (run_config_set parse_url E key value)"
    unfolding run_config_set_def
    by (intro preserves_bind preserves_branch preserves_pure preserves_reading [OF looks_parsed_key] preserves_map_err
        preserves_reading [OF looks_pure(3)] open_db preserves_store_config) auto
  show "preserves (public_key_is E v) (run_config_reset E T arg)"
    unfolding run_config_reset_def reset_key_def
    by (intro preserves_bind preserves_branch preserves_pure preserves_reading [OF looks_parsed_key] project
        preserves_reading [OF looks_terminal] preserves_store_config preserves_reset_keys) auto
  show "preserves (public_key_is E v) (run_config_get E arg)"
    unfolding run_config_get_def
    by (intro preserves_bind preserves_branch preserves_reading [OF looks_parsed_key] project preserves_reading [OF looks_config_values])
  show "preserves (public_key_is E v) (run_config_list E)"
    unfolding run_config_list_def
    by (intro preserves_bind preserves_branch preserves_pure open_db preserves_reading [OF looks_config_statuses])
qed

text \<open>
  The directory of a project is made before the passphrase is asked for. When the passphrase is refused the directory
  stays, and a second attempt is refused because of it.
\<close>

lemma wp_create_dir_all_exists:
  assumes "\<And>w'. path_exists p w' \<Longrightarrow> (\<forall>q. path_exists q w \<longrightarrow> path_exists q w') \<Longrightarrow> Q () w'"
    and "\<And>e w'. F e w'"
  shows "wp (create_dir_all p) Q F w"
proof -
  have made: "path_exists p (mkdirs (ancestors p) v)" for v :: "'a world"
    by (cases p) (force simp: path_exists_def lookup_mkdirs ancestors_def image_iff)+
  have kept: "path_exists q w \<Longrightarrow> next_op w = (f, v) \<Longrightarrow> path_exists q (mkdirs (ancestors p) v)" for q f and v :: "'a world"
    by (auto simp: path_exists_def lookup_mkdirs)
  show ?thesis
    unfolding wp_def create_dir_all_def using assms made kept by (auto split: prod.splits fault.splits)
qed

lemma path_exists_tick [simp]: "path_exists p (w\<lparr>tick := n\<rparr>) = path_exists p w"
  by (simp add: path_exists_def lookup_def)

definition refused_passphrase :: "pub_error \<Rightarrow> bool" where
  "refused_passphrase e \<longleftrightarrow> e \<noteq> PMessage ''key file'' \<and> (\<exists>m. e = PMessage m)"

lemma refused_simps [simp]: "\<not> refused_passphrase (PIo i)" "\<not> refused_passphrase (PDb d)" "\<not> refused_passphrase (PMessage ''key file'')"
  by (simp_all add: refused_passphrase_def)

lemma wp_always: "(\<And>x w'. Q x w') \<Longrightarrow> (\<And>e w'. F e w') \<Longrightarrow> wp m Q F w"
  by (rule wpI)

lemma project_dir_made:
  "wp (init_command K R L E T integrity arg) (\<lambda>_ _. True)
     (\<lambda>e w'. refused_passphrase e \<longrightarrow> path_exists (resolve E DELTASHIP_DIR) w') w"
proof -
  let ?F = "\<lambda>e w'. refused_passphrase e \<longrightarrow> path_exists (resolve E DELTASHIP_DIR) w'"
  have prompt: "wp (prompt_passphrase T) Q ?F v"
    if "path_exists (resolve E DELTASHIP_DIR) v" "\<And>p v'. Q p v'" for Q v
    unfolding prompt_passphrase_def read_terminal_def using that
    by (auto split: option.splits)
  have rest: "wp (bindE (observe (new_key T)) (\<lambda>key. bindE (save_keys K R L E KEYS_DIR key p) (\<lambda>_.
     bindE (open_publisher_db E (db_file E)) (\<lambda>_. bindE (pub_db E (db_file E) (init_publisher_db integrity)) (\<lambda>_.
     pub_db E (db_file E) (\<lambda>now. set_publisher_config now k (v key))))))) (\<lambda>_ _. True) ?F u" for p k v u
    unfolding save_keys_def open_publisher_db_def pub_db_def
    by (auto intro!: wp_always)
  show ?thesis
    unfolding init_command_def init_passphrase_def
    apply (rule wp_run)+
    apply simp
    apply (rule wp_run)+
    apply (rule wp_create_dir_all_exists)
    apply (rule wp_run)+
    apply (rule wp_create_dir_all_exists)
    apply (rule wp_run)+
    by (auto intro!: prompt rest simp del: wp_bindE wp_seq_fun)
qed

theorem refused_passphrase_blocks_init:
  "case init_command K R L E T integrity arg w of
     (Inl e, w') \<Rightarrow> refused_passphrase e \<longrightarrow>
       init_command K R L E T' integrity' arg' w' = (Inl (PMessage ''Deltaship project already initialized in this directory.''), w')
   | (Inr _, _) \<Rightarrow> True"
  using project_dir_made [of K R L E T integrity arg w]
  by (auto simp: wp_def init_command_def [of K R L E T' integrity' arg'] bindE_def get_world_def throwE_def split: prod.splits sum.splits)

end
