(* ===== verification/Publisher_Verify.thy ===== *)
theory Publisher_Verify
  imports Publisher_Project
begin

text \<open>
  The audit of registered versions: \<open>verify.rs\<close> of \<open>crates/deltaship-publisher/src/commands\<close>. The verification of a
  signature and the reader of timestamps are parameters, the clock is an observation. The command
  returns what it prints; a size is kept as a number. Slicing a text inside a character, which panics, is an error.
\<close>

section \<open>Results\<close>

record verify_libs =
  ed_verify :: "bytes \<Rightarrow> bytes \<Rightarrow> bytes \<Rightarrow> bool"
  valid_point :: "bytes \<Rightarrow> bool"
  parse_rfc3339 :: "string \<Rightarrow> int option"
  audit_clock :: "nat \<Rightarrow> int"

record version_verify_result =
  vr_version_id :: string
  vr_version_string :: string
  vr_binary_name :: string
  vr_platform :: string
  vr_file_exists :: bool
  vr_file_size :: "nat option"
  vr_blake3_matches :: "bool option"
  vr_sha256_matches :: "bool option"
  vr_is_signed :: bool
  vr_signature_valid :: "bool option"
  vr_signature_timestamp :: "string option"
  vr_timestamp_reasonable :: "bool option"
  vr_passed :: bool
  vr_warnings :: "string list"
  vr_errors :: "string list"

record verify_summary =
  vs_total :: nat
  vs_passed :: nat
  vs_failed :: nat
  vs_warnings :: nat

definition vr_warn :: "string \<Rightarrow> version_verify_result \<Rightarrow> version_verify_result" where
  "vr_warn m r = r\<lparr>vr_warnings := vr_warnings r @ [m]\<rparr>"

definition vr_fail :: "string \<Rightarrow> version_verify_result \<Rightarrow> version_verify_result" where
  "vr_fail m r = r\<lparr>vr_passed := False, vr_errors := vr_errors r @ [m]\<rparr>"

definition fresh_result :: "db_version \<Rightarrow> string \<Rightarrow> string \<Rightarrow> version_verify_result" where
  "fresh_result v name plat =
     \<lparr>vr_version_id = ver_id v, vr_version_string = ver_string v, vr_binary_name = name, vr_platform = plat,
      vr_file_exists = False, vr_file_size = None, vr_blake3_matches = None, vr_sha256_matches = None,
      vr_is_signed = ver_signature v \<noteq> None, vr_signature_valid = None, vr_signature_timestamp = ver_signature_timestamp v,
      vr_timestamp_reasonable = None, vr_passed = True, vr_warnings = [], vr_errors = []\<rparr>"


section \<open>The checks\<close>

definition store_hashes :: "publisher_env \<Rightarrow> db_version \<Rightarrow> bytes \<Rightarrow> bytes \<Rightarrow> nat \<Rightarrow> (pub_content, pub_error, unit) io" where
  "store_hashes E v blake3 sha256 n = pub_db E (db_file E) (\<lambda>_. update_version_hashes (ver_id v) blake3 sha256 (int n))"

definition check_blake3 :: "publisher_libs \<Rightarrow> publisher_env \<Rightarrow> db_version \<Rightarrow> bool \<Rightarrow> nat \<Rightarrow> bytes \<Rightarrow> version_verify_result
   \<Rightarrow> (pub_content, pub_error, version_verify_result) io" where
  "check_blake3 P E v fix_it file_size file_data r =
     (if length (ver_blake3 v) \<noteq> 32 then throwE (PMessage ''Invalid stored Blake3 hash length'')
      else if p_blake3 P file_data = ver_blake3 v then returnE (r\<lparr>vr_blake3_matches := Some True\<rparr>)
      else if fix_it then
        bindE (store_hashes E v (p_blake3 P file_data) (p_sha256 P file_data) file_size) (\<lambda>_.
        returnE (vr_warn ''Blake3 hash mismatch - FIXED'' (r\<lparr>vr_blake3_matches := Some False\<rparr>)))
      else returnE (vr_fail ''Blake3 hash mismatch'' (r\<lparr>vr_blake3_matches := Some False\<rparr>)))"

definition check_sha256 :: "publisher_libs \<Rightarrow> publisher_env \<Rightarrow> db_version \<Rightarrow> bool \<Rightarrow> nat \<Rightarrow> bytes \<Rightarrow> version_verify_result
   \<Rightarrow> (pub_content, pub_error, version_verify_result) io" where
  "check_sha256 P E v fix_it file_size file_data r =
     (if length (ver_sha256 v) \<noteq> 32 then throwE (PMessage ''Invalid stored SHA256 hash length'')
      else if p_sha256 P file_data = ver_sha256 v then returnE (r\<lparr>vr_sha256_matches := Some True\<rparr>)
      else if fix_it then
        bindE (if vr_blake3_matches r = Some True
               then store_hashes E v (ver_blake3 v) (p_sha256 P file_data) file_size
               else returnE ()) (\<lambda>_.
        returnE (vr_warn ''SHA256 hash mismatch - FIXED'' (r\<lparr>vr_sha256_matches := Some False\<rparr>)))
      else returnE (vr_fail ''SHA256 hash mismatch'' (r\<lparr>vr_sha256_matches := Some False\<rparr>)))"

definition check_signature :: "publisher_libs \<Rightarrow> verify_libs \<Rightarrow> db_version \<Rightarrow> bytes option \<Rightarrow> bytes \<Rightarrow> version_verify_result
   \<Rightarrow> pub_error + version_verify_result" where
  "check_signature P V v public_key file_data r =
     (case ver_signature v of
        None \<Rightarrow> Inr (vr_warn ''Not signed'' r)
      | Some sig \<Rightarrow>
          (case public_key of
             None \<Rightarrow> Inr (vr_warn ''Cannot verify signature: no public key configured'' r)
           | Some pk \<Rightarrow>
               if length sig \<noteq> 64 then Inl (PMessage ''Invalid signature length'')
               else if ed_verify V pk (signing_payload (p_blake3 P file_data) (ver_string v)) sig
               then Inr (r\<lparr>vr_signature_valid := Some True\<rparr>)
               else Inr (vr_fail ''Signature verification failed'' (r\<lparr>vr_signature_valid := Some False\<rparr>))))"

definition NANOS_PER_HOUR :: int where
  "NANOS_PER_HOUR = 3600 * 10 ^ 9"

definition check_timestamp :: "verify_libs \<Rightarrow> db_version \<Rightarrow> version_verify_result \<Rightarrow> (pub_content, pub_error, version_verify_result) io" where
  "check_timestamp V v r =
     (case ver_signature_timestamp v of
        None \<Rightarrow> returnE r
      | Some s \<Rightarrow>
          (case parse_rfc3339 V s of
             None \<Rightarrow> returnE (vr_warn ''Invalid signature timestamp format'' (r\<lparr>vr_timestamp_reasonable := Some False\<rparr>))
           | Some timestamp \<Rightarrow>
               bindE (observe (audit_clock V)) (\<lambda>now.
               if timestamp > now + NANOS_PER_HOUR
               then returnE (vr_fail ''Signature timestamp is in the future'' (r\<lparr>vr_timestamp_reasonable := Some False\<rparr>))
               else if timestamp < now - 3650 * 24 * NANOS_PER_HOUR
               then returnE (vr_warn ''Signature timestamp is very old (>10 years)'' (r\<lparr>vr_timestamp_reasonable := Some False\<rparr>))
               else returnE (r\<lparr>vr_timestamp_reasonable := Some True\<rparr>))))"

definition verify_version :: "publisher_libs \<Rightarrow> verify_libs \<Rightarrow> publisher_env \<Rightarrow> bytes option \<Rightarrow> bool \<Rightarrow> db_version \<times> string \<times> string
   \<Rightarrow> (pub_content, pub_error, version_verify_result) io" where
  "verify_version P V E public_key fix_it = (\<lambda>(v, name, plat).
     let r = fresh_result v name plat; p = resolve E (ver_file_path v) in
     bindE (get_world (path_exists p)) (\<lambda>present.
     if \<not> present then returnE (vr_fail (''Binary file not found: '' @ ver_file_path v) r)
     else
     bindE (map_err PIo (pub_read P p)) (\<lambda>sized.
     bindE (map_err PIo (pub_read P p)) (\<lambda>file_data.
     bindE (check_blake3 P E v fix_it (length sized) file_data
              (r\<lparr>vr_file_exists := True, vr_file_size := Some (length sized)\<rparr>)) (\<lambda>r1.
     bindE (check_sha256 P E v fix_it (length sized) file_data r1) (\<lambda>r2.
     bindE (from_sum (check_signature P V v public_key file_data r2)) (\<lambda>r3.
     check_timestamp V v r3)))))))"


section \<open>verify\<close>

definition hex_decode :: "string \<Rightarrow> pub_error + bytes" where
  "hex_decode s =
     (if odd (length s) then Inl (PMessage ''Invalid hex string length'')
      else case hex_chunks s of Inl _ \<Rightarrow> Inl (PMessage ''invalid digit found in string'') | Inr b \<Rightarrow> Inr b)"

definition public_key_of :: "verify_libs \<Rightarrow> string option \<Rightarrow> pub_error + bytes option" where
  "public_key_of V config =
     (case config of
        None \<Rightarrow> Inr None
      | Some pk_hex \<Rightarrow>
          if pk_hex = [] then Inr None
          else case hex_decode pk_hex of
            Inl e \<Rightarrow> Inl e
          | Inr b \<Rightarrow>
              if length b \<noteq> 32 then Inl (PMessage ''Invalid public key length'')
              else if \<not> valid_point V b then Inl (PMessage ''invalid public key'') else Inr (Some b))"

definition load_public_key :: "verify_libs \<Rightarrow> publisher_env \<Rightarrow> (pub_content, pub_error, bytes option) io" where
  "load_public_key V E =
     bindE (pub_db E (db_file E) (\<lambda>_. get_publisher_config (as_db_key PublicKey))) (\<lambda>config. from_sum (public_key_of V config))"

definition wanted :: "string option \<Rightarrow> db_version \<Rightarrow> bool" where
  "wanted version v \<longleftrightarrow> (case version of None \<Rightarrow> True | Some s \<Rightarrow> ver_string v = s)"

fun versions_to_verify :: "publisher_env \<Rightarrow> string option \<Rightarrow> db_binary list
   \<Rightarrow> (pub_content, pub_error, (db_version \<times> string \<times> string) list) io" where
  "versions_to_verify E version [] = returnE []"
| "versions_to_verify E version (b # bs) =
     bindE (pub_db E (db_file E) (\<lambda>_. list_db_versions (bin_id b))) (\<lambda>vs.
     bindE (versions_to_verify E version bs) (\<lambda>rest.
     returnE (map (\<lambda>v. (v, bin_name b, bin_platform b)) (filter (wanted version) vs) @ rest)))"

fun verify_versions :: "publisher_libs \<Rightarrow> verify_libs \<Rightarrow> publisher_env \<Rightarrow> bytes option \<Rightarrow> bool \<Rightarrow> (db_version \<times> string \<times> string) list
   \<Rightarrow> (pub_content, pub_error, version_verify_result list) io" where
  "verify_versions P V E public_key fix_it [] = returnE []"
| "verify_versions P V E public_key fix_it (x # xs) =
     bindE (verify_version P V E public_key fix_it x) (\<lambda>r.
     bindE (verify_versions P V E public_key fix_it xs) (\<lambda>rs. returnE (r # rs)))"

definition summarize :: "version_verify_result list \<Rightarrow> verify_summary" where
  "summarize rs =
     \<lparr>vs_total = length rs, vs_passed = length (filter (\<lambda>r. vr_passed r \<and> vr_warnings r = []) rs),
      vs_failed = length (filter (\<lambda>r. \<not> vr_passed r) rs),
      vs_warnings = length (filter (\<lambda>r. vr_passed r \<and> vr_warnings r \<noteq> []) rs)\<rparr>"

definition confirm_fix :: "tool_env \<Rightarrow> bool \<Rightarrow> bool \<Rightarrow> (pub_content, pub_error, unit) io" where
  "confirm_fix T fix_it json =
     (if fix_it \<and> \<not> json then
        bindE (read_terminal T) (\<lambda>line.
        if trim line \<noteq> ''YES'' then throwE (PMessage ''Fix operation cancelled. No changes were made.'') else returnE ())
      else returnE ())"

definition verify_command :: "publisher_libs \<Rightarrow> verify_libs \<Rightarrow> publisher_env \<Rightarrow> tool_env \<Rightarrow> string \<Rightarrow> string option \<Rightarrow> bool \<Rightarrow> bool
   \<Rightarrow> (pub_content, pub_error, version_verify_result list \<times> verify_summary) io" where
  "verify_command P V E T name version fix_it json =
     bindE (open_project E) (\<lambda>_.
     bindE (confirm_fix T fix_it json) (\<lambda>_.
     bindE (pub_db E (db_file E) (\<lambda>_. list_db_binaries)) (\<lambda>binaries.
     let matching = filter (\<lambda>b. bin_name b = name) binaries in
     if matching = [] then throwE (PMessage (''No binary found with name '' @ name))
     else
     bindE (load_public_key V E) (\<lambda>public_key.
     bindE (versions_to_verify E version matching) (\<lambda>todo.
     if todo = [] then throwE (PMessage (case version of Some ver \<Rightarrow> ''Version '' @ ver @ '' not found''
                                                     | None \<Rightarrow> ''No versions found for binary''))
     else
     bindE (verify_versions P V E public_key fix_it todo) (\<lambda>results.
     let summary = summarize results in
     if vs_failed summary > 0 then throwE (PMessage (show_nat (vs_failed summary) @ '' verification(s) failed''))
     else returnE (results, summary)))))))"


section \<open>Rules\<close>

text \<open>What the files say of a version that passes.\<close>

definition version_sound :: "publisher_libs \<Rightarrow> verify_libs \<Rightarrow> publisher_env \<Rightarrow> bytes option \<Rightarrow> (path \<Rightarrow> pub_content option) \<Rightarrow> db_version \<Rightarrow> bool" where
  "version_sound P V E public_key g v \<longleftrightarrow>
     (\<exists>c. g (resolve E (ver_file_path v)) = Some c \<and> p_blake3 P (pub_bytes P c) = ver_blake3 v \<and> p_sha256 P (pub_bytes P c) = ver_sha256 v) \<and>
     (\<forall>sig pk. ver_signature v = Some sig \<longrightarrow> public_key = Some pk \<longrightarrow> ed_verify V pk (signing_payload (ver_blake3 v) (ver_string v)) sig)"

lemma looks_check_blake3:
  "looks (check_blake3 P E v False n d r) (\<lambda>_ r'. vr_passed r' \<longrightarrow> vr_passed r \<and> p_blake3 P d = ver_blake3 v)"
  unfolding check_blake3_def by (auto intro!: looks_pure simp: vr_fail_def)

lemma looks_check_sha256:
  "looks (check_sha256 P E v False n d r) (\<lambda>_ r'. vr_passed r' \<longrightarrow> vr_passed r \<and> p_sha256 P d = ver_sha256 v)"
  unfolding check_sha256_def by (auto intro!: looks_pure simp: vr_fail_def)

lemma check_signature_sound:
  assumes "check_signature P V v public_key d r = Inr r'" "vr_passed r'"
  shows "vr_passed r \<and> (\<forall>sig pk. ver_signature v = Some sig \<longrightarrow> public_key = Some pk \<longrightarrow>
    ed_verify V pk (signing_payload (p_blake3 P d) (ver_string v)) sig)"
  using assms by (auto simp: check_signature_def vr_warn_def vr_fail_def split: option.splits if_splits)

lemma looks_check_timestamp: "looks (check_timestamp V v r) (\<lambda>_ r'. vr_passed r' \<longrightarrow> vr_passed r)"
  unfolding check_timestamp_def
  by (auto intro!: looks_branch looks_pure looks_any_bind looks_observe simp: vr_warn_def vr_fail_def)

lemma looks_verify_version:
  "looks (verify_version P V E public_key False (v, name, plat)) (\<lambda>g r. vr_passed r \<longrightarrow> version_sound P V E public_key g v)"
proof -
  have sig: "looks (bindE (from_sum (check_signature P V v public_key d r2)) (check_timestamp V v))
      (\<lambda>_ r. vr_passed r \<longrightarrow> vr_passed r2 \<and> (\<forall>sig pk. ver_signature v = Some sig \<longrightarrow> public_key = Some pk \<longrightarrow>
        ed_verify V pk (signing_payload (p_blake3 P d) (ver_string v)) sig))" for d r2
    by (rule looks_bindE [OF looks_pure(3) [where Q = "\<lambda>_ r3. check_signature P V v public_key d r2 = Inr r3"]], simp,
        rule looks_weaken [OF looks_check_timestamp]) (auto dest: check_signature_sound)
  have hashes: "looks (bindE (check_blake3 P E v False n d r) (\<lambda>r1. bindE (check_sha256 P E v False n d r1) (\<lambda>r2.
       bindE (from_sum (check_signature P V v public_key d r2)) (check_timestamp V v))))
     (\<lambda>_ r. vr_passed r \<longrightarrow> p_blake3 P d = ver_blake3 v \<and> p_sha256 P d = ver_sha256 v \<and>
       (\<forall>sig pk. ver_signature v = Some sig \<longrightarrow> public_key = Some pk \<longrightarrow> ed_verify V pk (signing_payload (p_blake3 P d) (ver_string v)) sig))" for n d r
    by (rule looks_bindE [OF looks_check_blake3], rule looks_bindE [OF looks_check_sha256], rule looks_weaken [OF sig]) auto
  show ?thesis
    unfolding verify_version_def Let_def prod.case
    by (rule looks_any_bind [OF looks_world [OF TrueI]], rule looks_branch(1), rule looks_pure(1), simp add: vr_fail_def,
        rule looks_read_bind, rule looks_weaken [OF looks_read_bind], rule looks_weaken [OF hashes]) (auto simp: version_sound_def)
qed

lemma looks_verify_versions:
  "looks (verify_versions P V E public_key False xs)
     (\<lambda>g rs. list_all vr_passed rs \<longrightarrow> (\<forall>x \<in> set xs. version_sound P V E public_key g (fst x)))"
proof (induction xs)
  case (Cons x xs)
  obtain v name plat where x: "x = (v, name, plat)" by (cases x)
  show ?case
    unfolding verify_versions.simps x
    by (rule looks_bindE [OF looks_verify_version], rule looks_bindE [OF Cons.IH], rule looks_pure(1)) simp
qed (simp add: looks_pure)

lemma looks_versions_to_verify:
  "looks (versions_to_verify E version bs) (\<lambda>g todo. \<exists>db. bs = [] \<or> g (db_file E) = Some (Database db) \<and>
     (\<forall>b \<in> set bs. \<forall>v \<in> set (newest_versions (bin_id b) db). wanted version v \<longrightarrow> (v, bin_name b, bin_platform b) \<in> set todo))"
proof (induction bs)
  case (Cons b bs)
  show ?case
    unfolding versions_to_verify.simps
    by (rule looks_query_bind, simp add: list_db_versions_def, rule looks_bindE [OF Cons.IH], rule looks_pure(1))
       (auto simp: list_db_versions_def)
qed (simp add: looks_pure)

lemma no_failures: "vs_failed (summarize rs) = 0 \<longleftrightarrow> list_all vr_passed rs"
  by (auto simp: summarize_def list_all_iff filter_empty_conv)

definition configured_key :: "verify_libs \<Rightarrow> publisher_db \<Rightarrow> pub_error + bytes option" where
  "configured_key V db = public_key_of V (map_option fst (map_of (p_config db) CONFIG_PUBLIC_KEY))"

lemma looks_load_public_key:
  "looks (load_public_key V E) (\<lambda>g pk. \<exists>db. g (db_file E) = Some (Database db) \<and> configured_key V db = Inr pk)"
  unfolding load_public_key_def
  by (rule looks_query_bind, simp add: get_publisher_config_def, rule looks_pure(3)) (auto simp: get_publisher_config_def configured_key_def)

text \<open>What an audit that returns has established.\<close>

definition audited :: "publisher_libs \<Rightarrow> verify_libs \<Rightarrow> publisher_env \<Rightarrow> string \<Rightarrow> string option \<Rightarrow> (path \<Rightarrow> pub_content option) \<Rightarrow> bool" where
  "audited P V E name version g \<longleftrightarrow>
     (\<exists>db pk. g (db_file E) = Some (Database db) \<and> configured_key V db = Inr pk \<and>
        (\<forall>b \<in> set (binaries_by_name db). bin_name b = name \<longrightarrow>
          (\<forall>v \<in> set (newest_versions (bin_id b) db). wanted version v \<longrightarrow> version_sound P V E pk g v)))"

lemma looks_verify_command: "looks (verify_command P V E T name version False json) (\<lambda>g _. audited P V E name version g)"
proof -
  have rest: "looks (if todo = [] then throwE e else bindE (verify_versions P V E pk False todo) (\<lambda>results.
       if 0 < vs_failed (summarize results) then throwE (h results) else returnE (results, summarize results)))
     (\<lambda>g _. \<forall>x \<in> set todo. version_sound P V E pk g (fst x))" for todo pk e h
    by (rule looks_branch, rule looks_pure(2), rule looks_bindE [OF looks_verify_versions], rule looks_branch, rule looks_pure(2), rule looks_pure(1))
       (simp add: no_failures)
  show ?thesis
    unfolding verify_command_def confirm_fix_def Let_def
    apply (rule looks_any_bind [OF looks_open_project], simp)
    apply (rule looks_any_bind, simp add: looks_pure)
    apply (rule looks_query_bind, simp add: list_db_binaries_def)
    apply (rule looks_branch, rule looks_pure)
    apply (rule looks_bindE [OF looks_load_public_key])
    apply (rule looks_bindE [OF looks_versions_to_verify])
    apply (rule looks_weaken [OF rest])
    apply (auto simp: audited_def list_db_binaries_def)
    apply force
    done
qed


section \<open>A sample\<close>

definition sample_verify_libs :: verify_libs where
  "sample_verify_libs = \<lparr>ed_verify = (\<lambda>_ _ _. True), valid_point = (\<lambda>_. True), parse_rfc3339 = (\<lambda>_. Some 0), audit_clock = (\<lambda>_. 0)\<rparr>"

abbreviation sample_verify :: "(pub_error + version_verify_result list \<times> verify_summary) \<times> pub_content world" where
  "sample_verify \<equiv> verify_command sample_publisher_libs sample_verify_libs sample_publisher_env sample_tool_env ''app'' (Some ''2.0.0'') False False
     sample_release_world"

lemma sample_verify_simps:
  "newest_versions ''b1'' sample_release_db = [sample_signed_version]" "configured_key sample_verify_libs sample_release_db = Inr None"
  "map_of (p_config sample_release_db) ''public_key'' = None" 
  "ver_blake3 sample_signed_version = p_blake3 sample_publisher_libs sample_new_file"
  "ver_sha256 sample_signed_version = p_sha256 sample_publisher_libs sample_new_file"
  "length (p_blake3 sample_publisher_libs b) = 32" "length (p_sha256 sample_publisher_libs b) = 32"
  "ver_signature_timestamp sample_signed_version = Some ''2025-01-02T00:00:00Z''"
  by (simp_all add: newest_versions_def sample_release_simps sort_by_def configured_key_def sample_release_db_def sample_publisher_db_def
      empty_publisher_db_def public_key_of_def sample_publisher_libs_def sample_signed_version_def sample_to_def sample_version_def)

lemma sample_verify_ok: "\<exists>r n. sample_verify = (Inr r, sample_release_at n)"
  by (simp add: sample_release_world_def verify_command_def open_project_def open_publisher_db_def confirm_fix_def load_public_key_def verify_version_def
      check_blake3_def check_sha256_def check_signature_def check_timestamp_def sample_verify_simps sample_release_simps sample_pub_paths
      list_db_versions_def publisher_queries public_key_of_def CONFIG_PUBLIC_KEY_def wanted_def summarize_def fresh_result_def vr_warn_def
      pub_db_def db_run_def run_steps run_files pub_read_def pub_bytes_def return_db_def path_exists_def sample_verify_libs_def NANOS_PER_HOUR_def
      sample_pub_paths(5) [unfolded sample_ver_simps])


section \<open>Properties\<close>

text \<open>
  An audit is sound and changes nothing. When \<open>verify\<close> returns without \<open>--fix\<close>, every version of the name that was asked
  for has its file, with both of the recorded hashes, and, if it is signed and the project has a public key, with a
  signature that verifies over the hash of the file. Whether it returns or fails, no file changes.
\<close>

theorem verify_sound:
  "case verify_command P V E T name version False json w of
     (Inr _, w') \<Rightarrow> file_at w' = file_at w \<and> audited P V E name version (file_at w)
   | (Inl _, w') \<Rightarrow> file_at w' = file_at w"
  using looks_verify_command [of P V E T name version json]
  unfolding looks_def wp_def by (auto dest!: spec [of _ w] split: prod.splits sum.splits)

text \<open>
  C12: a release that passed the audit is published as it was signed. When \<open>verify\<close> and then \<open>publish\<close> of a version return, the server has
  accepted an upload of bytes that have the checksum sent with them, and if the project has a public key, the signature sent verifies under it
  for the hash of these bytes.
\<close>

theorem verified_release_is_genuine:
  assumes "verify_command P V E T name ver False json w = (Inr r, w1)" "ver = None \<or> ver = Some version"
    and "publish_command P L E T' name version url token yes w1 = (Inr (), w2)"
  shows "\<exists>u request db. accepted L T' (publish_form (api_client_new u token) request) \<and> pr_app request = name \<and>
     pr_version request = version \<and> p_blake3 P (pr_binary request) = pr_checksum request \<and> file_at w (db_file E) = Some (Database db) \<and>
     (\<forall>pk. configured_key V db = Inr (Some pk) \<longrightarrow>
       ed_verify V pk (signing_payload (p_blake3 P (pr_binary request)) version) (pr_signature request))"
proof -
  have w1: "file_at w1 = file_at w" "audited P V E name ver (file_at w)"
    using looks_verify_command [of P V E T name ver json] assms(1) unfolding looks_def wp_def
    by (auto dest!: spec [of _ w])
  obtain db v u where db: "file_at w (db_file E) = Some (Database db)"
      "release_accepted P L E T' (api_client_new u token) (file_at w) db name version v"
    using wpD(1) [OF wp_publish_command assms(3)] unfolding publication_def w1(1) by blast
  then obtain b sig c where rel: "release_of db name version b v sig" "file_at w (resolve E (ver_file_path v)) = Some c"
      "accepted L T' (publish_form (api_client_new u token) \<lparr>pr_app = name, pr_version = version, pr_platform = bin_platform b,
          pr_binary = pub_bytes P c, pr_signature = sig, pr_checksum = ver_blake3 v\<rparr>)"
    unfolding release_accepted_def by blast
  obtain pk where pk: "configured_key V db = Inr pk" "version_sound P V E pk (file_at w) v"
    using w1(2) db(1) rel(1) assms(2)
    by (fastforce simp: audited_def release_of_def find_by_name_def get_version_by_string_def newest_versions_def wanted_def dest!: find_first_Some)
  have "ver_string v = version" "ver_signature v = Some sig"
    using rel(1) by (auto simp: release_of_def get_version_by_string_def dest: find_first_Some)
  with pk rel(2,3) db(1) show ?thesis
    by (intro exI [of _ u] exI [of _ "\<lparr>pr_app = name, pr_version = version, pr_platform = bin_platform b,
          pr_binary = pub_bytes P c, pr_signature = sig, pr_checksum = ver_blake3 v\<rparr>"] exI [of _ db])
       (auto simp: version_sound_def)
qed

theorem verified_release_is_genuine_witness:
  "\<exists>r n w2 u request. sample_verify = (Inr r, sample_release_at n) \<and> sample_publish (sample_release_at n) = (Inr (), w2) \<and>
     accepted sample_tool_libs sample_tool_env (publish_form (api_client_new u None) request) \<and> pr_version request = ''2.0.0'' \<and>
     p_blake3 sample_publisher_libs (pr_binary request) = pr_checksum request"
proof -
  obtain r n where v: "sample_verify = (Inr r, sample_release_at n)" using sample_verify_ok by blast
  obtain w2 where p: "sample_publish (sample_release_at n) = (Inr (), w2)" using sample_publish_ok by blast
  from verified_release_is_genuine [OF v _ p] v p show ?thesis by blast
qed

end
