(* ===== verification/Publisher_Import.thy ===== *)
theory Publisher_Import
  imports Publisher_Project
begin

text \<open>
  Importing a project: \<open>import.rs\<close> of \<open>crates/deltaship-publisher/src/commands\<close>. The archive is extracted into a
  temporary directory (theory \<open>Archive\<close>) that is removed at the end; its files, its database and its keys are then
  copied or merged. Symbolic links and canonical paths are observations of the operating system. The mode bits of
  files are not modelled: setting them is an operation that may fail.
\<close>

section \<open>Environment\<close>

definition PUBLIC_KEY_FILE :: string where
  "PUBLIC_KEY_FILE = ''.deltaship/keys/public.key''"

fun archive_failure :: "archive_error \<Rightarrow> pub_error" where
  "archive_failure (AIo e) = PIo e"
| "archive_failure (InvalidArchive m) = PMessage m"
| "archive_failure (MissingFile m) = PMessage m"
| "archive_failure AJson = PMessage ''Invalid metadata''"
| "archive_failure (ValidationFailed m) = PMessage m"

text \<open>\<open>fs::copy\<close>, and a directory that is made if it is missing.\<close>

definition copy_to :: "path \<Rightarrow> path \<Rightarrow> (pub_content, pub_error, unit) io" where
  "copy_to a b = map_err PIo (bindE (read_file a) (write_file b))"

definition ensure_dir :: "path \<Rightarrow> (pub_content, pub_error, unit) io" where
  "ensure_dir d = bindE (get_world (path_exists d)) (\<lambda>present. if present then returnE () else map_err PIo (create_dir_all d))"

text \<open>A temporary directory is removed when its owner goes out of scope, on every way out.\<close>

definition drop_after :: "archive_env \<Rightarrow> path \<Rightarrow> (pub_content, pub_error, 'a) io \<Rightarrow> (pub_content, pub_error, 'a) io" where
  "drop_after A d m = bindE (outcome m) (\<lambda>r. bindE (attempt (remove_dir_all A d)) (\<lambda>_. from_sum r))"


section \<open>Payload files\<close>

definition validate_safe_path :: "archive_env \<Rightarrow> path \<Rightarrow> path \<Rightarrow> (pub_content, pub_error, unit) io" where
  "validate_safe_path A p base_dir =
     bindE (observe (\<lambda>n. link_at A n p)) (\<lambda>is_symlink.
     if is_symlink then throwE (PMessage ''Security error: symlinks not allowed in archive'')
     else if ''..'' \<in> set p then throwE (PMessage ''Security error: path traversal detected in archive'')
     else
     bindE (observe (\<lambda>n. a_canonical A n base_dir)) (\<lambda>b. bindE (found_or ''Failed to canonicalize base directory'' b) (\<lambda>canonical_base.
     bindE (observe (\<lambda>n. a_canonical A n p)) (\<lambda>c. bindE (found_or ''Failed to canonicalize path'' c) (\<lambda>canonical_path.
     if \<not> in_dir canonical_base canonical_path then throwE (PMessage ''Security error: path escapes target directory'')
     else returnE ())))))"

text \<open>A path relative to a directory has only named components and \<open>..\<close>.\<close>

definition validate_target_path :: "path \<Rightarrow> pub_error + unit" where
  "validate_target_path rel_path =
     (if ''..'' \<in> set rel_path then Inl (PMessage ''Security error: path traversal detected'') else Inr ())"

fun import_entries :: "archive_env \<Rightarrow> path \<Rightarrow> path \<Rightarrow> bool \<Rightarrow> path list \<Rightarrow> (pub_content, pub_error, nat) io" where
  "import_entries A source target merge [] = returnE 0"
| "import_entries A source target merge (p # ps) =
     bindE (observe (\<lambda>n. link_at A n p)) (\<lambda>is_symlink.
     if is_symlink then throwE (PMessage ''Security error: symlinks not allowed in archive'')
     else
     bindE (get_world (\<lambda>w. file_at w p \<noteq> None)) (\<lambda>is_file.
     if \<not> is_file then import_entries A source target merge ps
     else
     bindE (validate_safe_path A p source) (\<lambda>_.
     let rel_path = drop (length source) p; target_path = target @ rel_path in
     bindE (from_sum (validate_target_path rel_path)) (\<lambda>_.
     bindE (get_world (path_exists target_path)) (\<lambda>present.
     if merge \<and> present then import_entries A source target merge ps
     else
     bindE (map_err PIo (create_dir_all (butlast target_path))) (\<lambda>_.
     bindE (copy_to p target_path) (\<lambda>_.
     bindE (import_entries A source target merge ps) (\<lambda>count. returnE (Suc count)))))))))"

text \<open>\<open>WalkDir\<close> yields the entries below a directory, itself included; some may fail.\<close>

definition walk_entries :: "archive_env \<Rightarrow> path \<Rightarrow> (pub_content, pub_error, path list) io" where
  "walk_entries A d =
     bindE (get_world (\<lambda>w. filter (in_dir d) (map fst (fs w)))) (\<lambda>ps.
     bindE (observe (walked A)) (\<lambda>ok. returnE (filter ok ps)))"

definition import_payload :: "publisher_env \<Rightarrow> archive_env \<Rightarrow> string \<Rightarrow> path \<Rightarrow> bool \<Rightarrow> (pub_content, pub_error, unit) io" where
  "import_payload E A kind export_dir merge =
     (let source = export_dir @ [kind]; target = resolve E DELTASHIP_DIR @ [kind] in
      bindE (get_world (path_exists source)) (\<lambda>present.
      if \<not> present then returnE ()
      else
      bindE (ensure_dir target) (\<lambda>_.
      bindE (walk_entries A source) (\<lambda>ps.
      bindE (import_entries A source target merge ps) (\<lambda>_. returnE ())))))"

definition import_binaries :: "publisher_env \<Rightarrow> archive_env \<Rightarrow> path \<Rightarrow> bool \<Rightarrow> (pub_content, pub_error, unit) io" where
  "import_binaries E A = import_payload E A ''binaries''"

definition import_diffs :: "publisher_env \<Rightarrow> archive_env \<Rightarrow> path \<Rightarrow> bool \<Rightarrow> (pub_content, pub_error, unit) io" where
  "import_diffs E A = import_payload E A ''diffs''"


section \<open>The database\<close>

definition imported_binary_file :: "string \<Rightarrow> string \<Rightarrow> string \<Rightarrow> string" where
  "imported_binary_file binary_name version_string plat =
     text_join (text_join (text_join (text_join DELTASHIP_DIR ''binaries'') binary_name) version_string) plat"

definition is_file_at :: "publisher_env \<Rightarrow> string \<Rightarrow> pub_content world \<Rightarrow> bool" where
  "is_file_at E s w \<longleftrightarrow> file_at w (resolve E s) \<noteq> None"

definition merged_path :: "publisher_env \<Rightarrow> string \<Rightarrow> string \<Rightarrow> (pub_content, pub_error, string) io" where
  "merged_path E imported original =
     bindE (get_world (is_file_at E imported)) (\<lambda>there. returnE (if there then imported else original))"

fun first_imported :: "publisher_env \<Rightarrow> string list \<Rightarrow> string \<Rightarrow> (pub_content, pub_error, string) io" where
  "first_imported E [] original = returnE original"
| "first_imported E (p # ps) original =
     bindE (get_world (is_file_at E p)) (\<lambda>there. if there then returnE p else first_imported E ps original)"

definition merge_version :: "publisher_libs \<Rightarrow> publisher_env \<Rightarrow> path \<Rightarrow> db_binary \<Rightarrow> db_binary \<Rightarrow> db_version
   \<Rightarrow> (pub_content, pub_error, unit) io" where
  "merge_version P E target_db binary new_binary version =
     bindE (merged_path E (imported_binary_file (bin_name binary) (ver_string version) (bin_platform binary)) (ver_file_path version)) (\<lambda>file_path.
     bindE (observe (new_uuid E)) (\<lambda>uuid.
     bindE (pub_db E target_db (\<lambda>now. insert_version (p_parse P) uuid now
       \<lparr>nver_binary_id = bin_id new_binary, nver_string = ver_string version, nver_file_path = file_path,
        nver_size_bytes = ver_size_bytes version, nver_blake3 = ver_blake3 version, nver_sha256 = ver_sha256 version\<rparr>)) (\<lambda>new_version.
     case ver_signature version of None \<Rightarrow> returnE () | Some sig \<Rightarrow>
     case ver_signature_timestamp version of None \<Rightarrow> returnE () | Some ts \<Rightarrow>
     pub_db E target_db (\<lambda>_. set_version_signature (ver_id new_version) sig ts))))"

fun merge_versions :: "publisher_libs \<Rightarrow> publisher_env \<Rightarrow> path \<Rightarrow> db_binary \<Rightarrow> db_binary \<Rightarrow> db_version list
   \<Rightarrow> (pub_content, pub_error, unit) io" where
  "merge_versions P E target_db binary new_binary [] = returnE ()"
| "merge_versions P E target_db binary new_binary (v # vs) =
     bindE (merge_version P E target_db binary new_binary v) (\<lambda>_. merge_versions P E target_db binary new_binary vs)"

fun merge_binaries :: "publisher_libs \<Rightarrow> publisher_env \<Rightarrow> tool_env \<Rightarrow> path \<Rightarrow> path \<Rightarrow> db_binary list \<Rightarrow> (pub_content, pub_error, unit) io" where
  "merge_binaries P E T source_db target_db [] = returnE ()"
| "merge_binaries P E T source_db target_db (binary # bs) =
     bindE (pub_db E target_db (\<lambda>_. get_db_binary_by_name (bin_name binary) (bin_platform binary))) (\<lambda>existing.
     if existing \<noteq> None then merge_binaries P E T source_db target_db bs
     else
     bindE (pub_db E source_db (\<lambda>_. list_db_versions (bin_id binary))) (\<lambda>versions.
     bindE (first_imported E (map (\<lambda>v. imported_binary_file (bin_name binary) (ver_string v) (bin_platform binary)) versions)
              (bin_path binary)) (\<lambda>binary_path.
     bindE (observe (\<lambda>n. probe_path T n binary_path)) (\<lambda>probe.
     bindE (observe (new_uuid E)) (\<lambda>uuid.
     bindE (pub_db E target_db (\<lambda>now. insert_binary probe uuid now
       \<lparr>nbin_name = bin_name binary, nbin_platform = bin_platform binary, nbin_path = binary_path,
        nbin_description = bin_description binary\<rparr>)) (\<lambda>new_binary.
     bindE (merge_versions P E target_db binary new_binary versions) (\<lambda>_.
     merge_binaries P E T source_db target_db bs)))))))"

definition merge_databases :: "publisher_libs \<Rightarrow> publisher_env \<Rightarrow> tool_env \<Rightarrow> path \<Rightarrow> path \<Rightarrow> (pub_content, pub_error, unit) io" where
  "merge_databases P E T source_db target_db =
     bindE (open_publisher_db E source_db) (\<lambda>_.
     bindE (open_publisher_db E target_db) (\<lambda>_.
     bindE (pub_db E source_db (\<lambda>_. list_db_binaries)) (merge_binaries P E T source_db target_db)))"

definition import_database :: "publisher_libs \<Rightarrow> publisher_env \<Rightarrow> tool_env \<Rightarrow> path \<Rightarrow> bool \<Rightarrow> (pub_content, pub_error, unit) io" where
  "import_database P E T export_dir merge =
     (let source_db = export_dir @ [''publisher.db''] in
      bindE (get_world (path_exists source_db)) (\<lambda>present.
      if \<not> present then throwE (PMessage ''Archive is missing publisher.db'')
      else
      bindE (get_world (path_exists (db_file E))) (\<lambda>existing.
      if merge \<and> existing then merge_databases P E T source_db (db_file E)
      else copy_to source_db (db_file E))))"


section \<open>Keys\<close>

definition import_key :: "path \<Rightarrow> path \<Rightarrow> bool \<Rightarrow> (pub_content, pub_error, unit) io \<Rightarrow> (pub_content, pub_error, unit) io" where
  "import_key source target merge set_permissions =
     bindE (get_world (path_exists source)) (\<lambda>present.
     if \<not> present then returnE ()
     else
     bindE (get_world (path_exists target)) (\<lambda>existing.
     if merge \<and> existing then returnE ()
     else bindE (copy_to source target) (\<lambda>_. set_permissions)))"

definition set_owner_only_permissions :: "(pub_content, pub_error, unit) io" where
  "set_owner_only_permissions = map_err PIo io_point"

definition import_keys :: "publisher_env \<Rightarrow> path \<Rightarrow> archive_metadata \<Rightarrow> bool \<Rightarrow> (pub_content, pub_error, unit) io" where
  "import_keys E export_dir metadata merge =
     (let keys_dir = export_dir @ [''keys''] in
      bindE (import_key (keys_dir @ [''public.key'']) (resolve E PUBLIC_KEY_FILE) merge (returnE ())) (\<lambda>_.
      if includes_keys metadata
      then import_key (keys_dir @ [''signing.key'']) (resolve E SIGNING_KEY_FILE) merge set_owner_only_permissions
      else returnE ()))"


section \<open>import\<close>

fun count_imported :: "publisher_env \<Rightarrow> db_binary list \<Rightarrow> (pub_content, pub_error, nat) io" where
  "count_imported E [] = returnE 0"
| "count_imported E (b # bs) =
     bindE (pub_db E (db_file E) (\<lambda>_. list_db_versions (bin_id b))) (\<lambda>vs.
     bindE (count_imported E bs) (\<lambda>n. returnE (length vs + n)))"

definition verify_import :: "publisher_env \<Rightarrow> (pub_content, pub_error, nat \<times> nat) io" where
  "verify_import E =
     bindE (get_world (path_exists (db_file E))) (\<lambda>present.
     if \<not> present then throwE (PMessage ''Database not found after import'')
     else
     bindE (open_publisher_db E (db_file E)) (\<lambda>_.
     bindE (pub_db E (db_file E) (\<lambda>_. list_db_binaries)) (\<lambda>binaries.
     bindE (count_imported E binaries) (\<lambda>version_count. returnE (length binaries, version_count)))))"

definition import_project :: "publisher_libs \<Rightarrow> publisher_env \<Rightarrow> tool_env \<Rightarrow> archive_libs \<Rightarrow> archive_env \<Rightarrow> path \<Rightarrow> bool \<Rightarrow> bool \<Rightarrow> bool
   \<Rightarrow> (pub_content, pub_error, nat \<times> nat) io" where
  "import_project P E T L A extracted merge overwrite project_exists =
     bindE (map_err archive_failure (find_export_dir extracted)) (\<lambda>export_dir.
     bindE (map_err archive_failure (read_extracted_metadata P L export_dir)) (\<lambda>metadata.
     bindE (if overwrite \<and> project_exists then map_err PIo (remove_dir_all A (resolve E DELTASHIP_DIR)) else returnE ()) (\<lambda>_.
     bindE (ensure_dir (resolve E DELTASHIP_DIR)) (\<lambda>_.
     bindE (ensure_dir (resolve E KEYS_DIR)) (\<lambda>_.
     bindE (if includes_binaries metadata
            then bindE (import_binaries E A export_dir merge) (\<lambda>_. import_diffs E A export_dir merge) else returnE ()) (\<lambda>_.
     bindE (import_database P E T export_dir merge) (\<lambda>_.
     bindE (import_keys E export_dir metadata merge) (\<lambda>_.
     verify_import E))))))))"

definition import_command :: "publisher_libs \<Rightarrow> publisher_env \<Rightarrow> tool_env \<Rightarrow> archive_libs \<Rightarrow> archive_env \<Rightarrow> string \<Rightarrow> bool \<Rightarrow> bool
   \<Rightarrow> (pub_content, pub_error, nat \<times> nat) io" where
  "import_command P E T L A input merge overwrite =
     bindE (need_path E input (''Archive not found: '' @ input)) (\<lambda>_.
     if merge \<and> overwrite then throwE (PMessage ''Cannot use both --merge and --overwrite. Choose one.'')
     else
     bindE (get_world (path_exists (resolve E DELTASHIP_DIR))) (\<lambda>project_exists.
     if project_exists \<and> \<not> merge \<and> \<not> overwrite then throwE (PMessage ''Deltaship project already exists.'')
     else
     bindE (map_err archive_failure (extract_archive P L A (resolve E input))) (\<lambda>extracted.
     drop_after A extracted (import_project P E T L A extracted merge overwrite project_exists))))"


section \<open>Merging\<close>

text \<open>A database that has at least the rows of another.\<close>

definition grows :: "publisher_db \<Rightarrow> publisher_db \<Rightarrow> bool" where
  "grows a b \<longleftrightarrow> set (p_binaries a) \<subseteq> set (p_binaries b) \<and> set (p_versions a) \<subseteq> set (p_versions b) \<and> p_jobs b = p_jobs a \<and>
     p_config b = p_config a \<and> p_schema b = p_schema a"

text \<open>Every file there was is as it was, outside the temporary directories and apart from the database, which has grown.\<close>

definition merging :: "publisher_env \<Rightarrow> archive_env \<Rightarrow> (path \<Rightarrow> pub_content option) \<Rightarrow> publisher_db \<Rightarrow> pub_content world \<Rightarrow> bool" where
  "merging E A g db w \<longleftrightarrow>
     (\<forall>p. (\<forall>n. \<not> in_dir (temp_dir A n) p) \<longrightarrow> p \<noteq> db_file E \<longrightarrow> g p \<noteq> None \<longrightarrow> file_at w p = g p) \<and>
     (\<exists>db'. file_at w (db_file E) = Some (Database db') \<and> grows db db')"

lemma merging_same: "file_at w' = file_at w \<Longrightarrow> merging E A g db w \<Longrightarrow> merging E A g db w'"
  by (simp add: merging_def)

lemma merging_reads: "looks m (\<lambda>_ _. True) \<Longrightarrow> preserves (merging E A g db) m"
  by (rule preserves_looks) (auto intro: merging_same)

lemma merging_op:
  assumes "\<And>now a x b. grows db a \<Longrightarrow> op now a = Inr (x, b) \<Longrightarrow> grows db b"
  shows "preserves (merging E A g db) (pub_db E (db_file E) op)"
proof (rule preservesI, rule wp_pub_db)
  fix w now a x b w'
  assume "merging E A g db w" "file_at w (db_file E) = Some (Database a)" "op now a = Inr (x, b)"
    "file_at w' = (file_at w)(db_file E \<mapsto> Database b)"
  then show "merging E A g db w'" using assms by (auto simp: merging_def)
qed (auto intro: merging_same)

lemma merging_copy:
  assumes "merging E A g db w" "file_at w b = None"
  shows "wp (copy_to a b) (\<lambda>_. merging E A g db) (\<lambda>_. merging E A g db) w"
proof -
  have "merging E A g db w'" if "file_at w' = (file_at w)(b := x)" for x w'
    using assms that by (fastforce simp: merging_def)
  then show ?thesis
    unfolding copy_to_def by (auto intro!: wp_read_file wp_write_file intro: merging_same [OF _ assms(1)])
qed

lemma file_at_none: "\<not> path_exists p w \<Longrightarrow> file_at w p = None"
  by (auto simp: path_exists_def file_at_def split: option.splits)

lemma merging_ensure_dir: "preserves (merging E A g db) (ensure_dir d)"
  unfolding ensure_dir_def
  by (intro preserves_bind preserves_branch preserves_pure preserves_map_err preservesI wp_no_change) (auto intro: merging_same)

lemma merging_observe: "preserves (merging E A g db) (observe f)"
  by (rule merging_reads, rule looks_observe) simp

lemma looks_safe_path: "looks (validate_safe_path A p d) (\<lambda>_ _. True)"
  unfolding validate_safe_path_def
  by (intro looks_any_bind looks_observe looks_branch looks_pure looks_found TrueI)

lemma merging_import_entries: "preserves (merging E A g db) (import_entries A source target True ps)"
proof (induction ps)
  case (Cons p ps)
  let ?I = "merging E A g db" and ?t = "target @ drop (length source) p"
  have copy: "preserves ?I (bindE (get_world (path_exists ?t)) (\<lambda>present.
     if True \<and> present then import_entries A source target True ps
     else bindE (map_err PIo (create_dir_all (butlast ?t))) (\<lambda>_. bindE (copy_to p ?t) (\<lambda>_.
       bindE (import_entries A source target True ps) (\<lambda>count. returnE (Suc count))))))"
  proof (rule preservesI)
    fix w
    assume w: "?I w"
    have rest: "wp (import_entries A source target True ps) (\<lambda>_. ?I) (\<lambda>_. ?I) v" if "?I v" for v
      using Cons.IH that by (simp add: preserves_def)
    show "wp (bindE (get_world (path_exists ?t)) (\<lambda>present.
     if True \<and> present then import_entries A source target True ps
     else bindE (map_err PIo (create_dir_all (butlast ?t))) (\<lambda>_. bindE (copy_to p ?t) (\<lambda>_.
       bindE (import_entries A source target True ps) (\<lambda>count. returnE (Suc count)))))) (\<lambda>_. ?I) (\<lambda>_. ?I) w"
      using w by (auto intro!: rest wp_no_change wp_mono [OF merging_copy] dest: file_at_none intro: merging_same)
  qed
  show ?case
    unfolding import_entries.simps Let_def
    by (intro preserves_bind preserves_branch preserves_pure merging_observe Cons.IH merging_reads [OF looks_safe_path]
        merging_reads [OF looks_pure(3)] copy) auto
qed (simp add: preserves_pure)

lemma looks_walk_entries: "looks (walk_entries A d) (\<lambda>_ _. True)"
  unfolding walk_entries_def by (intro looks_any_bind looks_world looks_observe looks_pure) auto

lemma merging_payload: "preserves (merging E A g db) (import_payload E A kind export_dir True)"
  unfolding import_payload_def Let_def
  by (intro preserves_bind preserves_branch preserves_pure merging_ensure_dir merging_reads [OF looks_walk_entries] merging_import_entries)

lemma merging_import_key: "preserves (merging E A g db) m \<Longrightarrow> preserves (merging E A g db) (import_key source target True m)"
  unfolding import_key_def
  by (rule preservesI) (auto simp: preserves_def intro!: wp_mono [OF merging_copy] dest: file_at_none)

lemma merging_import_keys: "preserves (merging E A g db) (import_keys E export_dir metadata True)"
proof -
  have "preserves (merging E A g db) set_owner_only_permissions"
    unfolding set_owner_only_permissions_def
    by (intro preserves_map_err preservesI wp_no_change) (auto intro: merging_same)
  then show ?thesis
    unfolding import_keys_def Let_def by (intro preserves_bind preserves_branch preserves_pure merging_import_key)
qed

lemma grows_refl: "grows db db"
  by (simp add: grows_def)

lemma insert_binary_row_added:
  assumes "insert_binary pr uuid now b a = Inr (x, c)"
  shows "\<exists>row. c = a\<lparr>p_binaries := p_binaries a @ [row]\<rparr>"
  using assms
  by (auto simp: insert_binary_def check_db_def bind_db_def insert_binary_row_def get_db_binary_def found_db_def fail_db_def
      return_db_def split: sum.splits if_splits option.splits)

lemma grows_insert_binary: "grows db a \<Longrightarrow> insert_binary pr uuid now b a = Inr (x, c) \<Longrightarrow> grows db c"
  by (drule insert_binary_row_added) (auto simp: grows_def)

lemma insert_version_fresh:
  assumes "insert_version parse uuid now v a = Inr (x, c)"
  shows "(\<exists>row. c = a\<lparr>p_versions := p_versions a @ [row]\<rparr>) \<and> ver_id x = uuid \<and> uuid \<notin> ver_id ` set (p_versions a)"
  using assms
  by (auto simp: insert_version_def check_db_def bind_db_def insert_version_row_def get_db_version_def found_db_def fail_db_def
      return_db_def image_iff split: sum.splits if_splits option.splits dest: find_first_Some)

lemma grows_insert_version:
  assumes "grows db a" "insert_version parse uuid now v a = Inr (x, c)"
  shows "grows db c" "ver_id x \<notin> ver_id ` set (p_versions db)"
  using insert_version_fresh [OF assms(2)] assms(1) by (auto simp: grows_def)

lemma grows_sign:
  assumes "grows db a" "vid \<notin> ver_id ` set (p_versions db)" "set_version_signature vid sig ts a = Inr (x, c)"
  shows "grows db c"
proof -
  obtain f where c: "c = a\<lparr>p_versions := update_where (\<lambda>v. ver_id v = vid) f (p_versions a)\<rparr>"
    using assms(3) by (auto simp: set_version_signature_def update_version_def check_db_def split: if_splits sum.splits)
  have "v \<in> set (update_where (\<lambda>v. ver_id v = vid) f (p_versions a))" if "v \<in> set (p_versions db)" for v
  proof -
    have "v \<in> set (p_versions a)" "ver_id v \<noteq> vid" using assms(1,2) that by (auto simp: grows_def)
    then show ?thesis by (force simp: update_where_def)
  qed
  then show ?thesis using assms(1) c by (auto simp: grows_def)
qed

lemma merging_insert_version:
  assumes "merging E A g db w"
  shows "wp (pub_db E (db_file E) (\<lambda>now. insert_version parse uuid now v))
     (\<lambda>x w'. merging E A g db w' \<and> ver_id x \<notin> ver_id ` set (p_versions db)) (\<lambda>_. merging E A g db) w"
proof (rule wp_pub_db)
  fix now a x b w'
  assume "file_at w (db_file E) = Some (Database a)" "insert_version parse uuid now v a = Inr (x, b)"
    "file_at w' = (file_at w)(db_file E \<mapsto> Database b)"
  then show "merging E A g db w' \<and> ver_id x \<notin> ver_id ` set (p_versions db)"
    using assms grows_insert_version [of db a parse uuid now v x b] by (auto simp: merging_def)
qed (auto intro: merging_same assms)

lemma merging_merge_version: "preserves (merging E A g db) (merge_version P E (db_file E) binary new_binary version)"
  unfolding merge_version_def merged_path_def
proof (rule preserves_bind)
  have sign: "preserves (merging E A g db) (pub_db E (db_file E) (\<lambda>_. set_version_signature (ver_id x) sig ts))"
    if "ver_id x \<notin> ver_id ` set (p_versions db)" for x sig ts
    by (rule merging_op) (rule grows_sign [OF _ that])
  fix file_path
  show "preserves (merging E A g db) (bindE (observe (new_uuid E)) (\<lambda>uuid.
     bindE (pub_db E (db_file E) (\<lambda>now. insert_version (p_parse P) uuid now
       \<lparr>nver_binary_id = bin_id new_binary, nver_string = ver_string version, nver_file_path = file_path,
        nver_size_bytes = ver_size_bytes version, nver_blake3 = ver_blake3 version, nver_sha256 = ver_sha256 version\<rparr>)) (\<lambda>new_version.
     case ver_signature version of None \<Rightarrow> returnE () | Some sig \<Rightarrow>
     case ver_signature_timestamp version of None \<Rightarrow> returnE () | Some ts \<Rightarrow>
     pub_db E (db_file E) (\<lambda>_. set_version_signature (ver_id new_version) sig ts))))"
    by (rule preserves_bind [OF merging_observe], rule preserves_bind_fact [OF merging_insert_version])
       (auto intro!: preserves_branch preserves_pure sign)
qed (intro preserves_bind preserves_pure)

lemma merging_merge_versions: "preserves (merging E A g db) (merge_versions P E (db_file E) binary new_binary vs)"
  by (induction vs) (auto intro: preserves_pure preserves_bind merging_merge_version)

lemma looks_first_imported: "looks (first_imported E ps original) (\<lambda>_ _. True)"
  by (induction ps) (auto intro!: looks_pure looks_any_bind looks_world looks_branch)

lemma merging_merge_binaries: "preserves (merging E A g db) (merge_binaries P E T source_db (db_file E) bs)"
proof (induction bs)
  case (Cons b bs)
  show ?case
    unfolding merge_binaries.simps
    by (intro preserves_bind preserves_branch merging_reads looks_any_query looks_first_imported looks_observe Cons.IH merging_op merging_merge_versions)
       (auto simp: get_db_binary_by_name_def list_db_versions_def dest: grows_insert_binary)
qed (simp add: preserves_pure)

lemma in_dir_below: "in_dir d p \<Longrightarrow> in_dir d (p @ q)"
  unfolding in_dir_def by (metis append_assoc append_eq_conv_conj append_take_drop_id)

lemma merging_temp:
  assumes "touches S m" "\<And>q. q \<in> S \<Longrightarrow> \<exists>n. in_dir (temp_dir A n) q" "\<And>n. \<not> in_dir (temp_dir A n) (db_file E)"
  shows "preserves (merging E A g db) m"
proof (rule preserves_touch [OF assms(1)])
  fix w w'
  assume w: "merging E A g db w" "\<forall>p. p \<notin> S \<longrightarrow> file_at w' p = file_at w p"
  have "p \<notin> S" if "\<forall>n. \<not> in_dir (temp_dir A n) p" for p using that assms(2) by blast
  moreover have "db_file E \<notin> S" using assms(2,3) by blast
  ultimately show "merging E A g db w'" using w by (simp add: merging_def)
qed

lemma merging_open:
  assumes "q = db_file E \<or> (\<exists>n. in_dir (temp_dir A n) q)" "\<And>n. \<not> in_dir (temp_dir A n) (db_file E)"
  shows "preserves (merging E A g db) (open_publisher_db E q)"
proof (cases "q = db_file E")
  case True
  then show ?thesis
    unfolding open_publisher_db_def
    by (intro preservesI) (auto intro!: wp_open_create wp_pub_db simp: merging_def return_db_def)
next
  case False
  have t: "touches {q} (open_publisher_db E q)"
    unfolding open_publisher_db_def by (auto intro!: footprint.keeps_intros)
  show ?thesis
    by (rule merging_temp [OF t]) (use False assms in auto)
qed

lemma merging_import_database:
  assumes "in_dir (temp_dir A n) export_dir" "\<And>n. \<not> in_dir (temp_dir A n) (db_file E)"
  shows "preserves (merging E A g db) (import_database P E T export_dir True)"
proof -
  have src: "\<exists>n. in_dir (temp_dir A n) (export_dir @ [''publisher.db''])" using assms(1) in_dir_below by blast
  have merge: "preserves (merging E A g db) (merge_databases P E T (export_dir @ [''publisher.db'']) (db_file E))"
    unfolding merge_databases_def
    by (intro preserves_bind merging_open merging_reads looks_any_query merging_merge_binaries)
       (use src assms(2) in \<open>auto simp: list_db_binaries_def\<close>)
  have there: "path_exists (db_file E) w" if "merging E A g db w" for w
    using that file_at_none by (fastforce simp: merging_def)
  show ?thesis
    unfolding import_database_def Let_def
    by (rule preservesI) (use merge there in \<open>auto simp: preserves_def\<close>)
qed

lemma preserves_outcome: "preserves I m \<Longrightarrow> preserves I (outcome m)"
  by (simp add: preserves_def)

lemma preserves_from_sum: "preserves I (from_sum r)"
  by (cases r) (simp_all add: preserves_def)

lemma wp_find_export_dir: "merging E A g db w \<Longrightarrow>
  wp (find_export_dir d) (\<lambda>x w'. merging E A g db w' \<and> in_dir d x) (\<lambda>_. merging E A g db) w"
  unfolding find_export_dir_def
  by (auto intro!: wp_no_change intro: merging_same simp: in_dir_def [of d d])

lemma looks_metadata: "looks (read_extracted_metadata P L d) (\<lambda>_ _. True)"
  unfolding read_extracted_metadata_def
  by (intro looks_any_bind looks_map_err looks_read looks_branch looks_pure TrueI)

lemma looks_count_versions: "looks (count_imported E bs) (\<lambda>_ _. True)"
  by (induction bs) (auto simp: list_db_versions_def intro!: looks_pure looks_any_bind looks_any_query)

lemma merging_import_project:
  assumes "\<And>n. \<not> in_dir (temp_dir A n) (db_file E)"
  shows "preserves (merging E A g db) (import_project P E T L A (temp_dir A n) True False ex)"
  unfolding import_project_def import_binaries_def import_diffs_def verify_import_def
proof (rule preserves_bind_fact [where P = "in_dir (temp_dir A n)"])
  show "wp (map_err archive_failure (find_export_dir (temp_dir A n))) (\<lambda>x w'. merging E A g db w' \<and> in_dir (temp_dir A n) x)
     (\<lambda>_. merging E A g db) w" if "merging E A g db w" for w
    using wp_find_export_dir [OF that] by simp
qed (intro preserves_bind preserves_branch preserves_pure preserves_map_err merging_reads [OF looks_metadata] merging_ensure_dir
      merging_payload merging_import_database merging_import_keys merging_open merging_reads [OF looks_any_query]
      merging_reads [OF looks_count_versions], use assms in \<open>auto simp: list_db_binaries_def\<close>)

lemma merging_import_command:
  assumes temp: "\<And>n. \<not> in_dir (temp_dir A n) (db_file E)"
  shows "preserves (merging E A g db) (import_command P E T L A input True overwrite)"
proof -
  let ?I = "merging E A g db"
  have need: "preserves ?I (need_path E input m)" for m
    unfolding need_path_def by (intro preserves_bind preserves_branch preserves_pure)
  have drop: "preserves ?I (remove_dir_all A (temp_dir A n))" for n
    by (rule merging_temp [OF touches_remove_dir_all [where S = "{p. in_dir (temp_dir A n) p}"]]) (use temp in auto)
  have unpack: "wp (map_err archive_failure (extract_archive P L A p)) (\<lambda>d w'. ?I w' \<and> (\<exists>n. d = temp_dir A n)) (\<lambda>_. ?I) w"
    if "?I w" for p w
  proof -
    have "preserves ?I (extract_archive P L A p)"
      by (rule merging_temp [OF touches_extract_archive]) (use temp in auto)
    with that have "wp (extract_archive P L A p) (\<lambda>_. ?I) (\<lambda>_. ?I) w" by (simp add: preserves_def)
    with wp_extract_archive [of P L A p w] show ?thesis by (auto simp: wp_def split: prod.splits sum.splits)
  qed
  show ?thesis
    unfolding import_command_def drop_after_def
    apply (rule preserves_bind [OF need])
    apply (rule preserves_branch, rule preserves_pure)
    apply (rule preserves_bind [OF preserves_pure(3)])
    apply (rule preserves_branch, rule preserves_pure)
    apply (rule preserves_bind_fact [OF unpack], assumption)
    using temp apply (auto intro!: preserves_bind preserves_outcome preserves_attempt preserves_from_sum merging_import_project drop)
    done
qed


section \<open>Confinement\<close>

text \<open>Outside \<open>T\<close>, files change only below \<open>D\<close>, and none is written there under a path that leads upwards.\<close>

definition clean_below :: "path \<Rightarrow> path set" where
  "clean_below D = {p. in_dir D p \<and> ''..'' \<notin> set (drop (length D) p)}"

definition inside :: "path \<Rightarrow> path set \<Rightarrow> pub_content world \<Rightarrow> pub_content world \<Rightarrow> bool" where
  "inside D T w w' \<longleftrightarrow> (\<forall>p. p \<notin> T \<longrightarrow> file_at w' p \<noteq> file_at w p \<longrightarrow> in_dir D p \<and> (file_at w' p = None \<or> p \<in> clean_below D))"

interpretation insider: world_rel "inside D T" for D T
  by unfold_locales (simp add: inside_def, unfold inside_def, metis)

abbreviation stays_inside :: "path \<Rightarrow> path set \<Rightarrow> (pub_content, 'e, 'a) io \<Rightarrow> bool" where
  "stays_inside D T \<equiv> world_rel.keeps (inside D T)"

lemma inside_touches: "touches (T \<union> clean_below D) m \<Longrightarrow> stays_inside D T m"
  unfolding touches_def insider.keeps_def inside_def same_outside_def clean_below_def by blast

lemma inside_remove: "stays_inside D T (remove_dir_all A D)"
  by (auto simp: insider.keeps_def inside_def remove_dir_all_def split: prod.splits fault.splits dest: file_at_next_op)

lemma clean_below_append [simp]: "D @ p \<in> clean_below D \<longleftrightarrow> ''..'' \<notin> set p"
  by (simp add: clean_below_def)

lemma touches_copy_to: "b \<in> S \<Longrightarrow> touches S (copy_to a b)"
  unfolding copy_to_def by (intro touches_intros)

lemma touches_ensure_dir: "touches S (ensure_dir d)"
  unfolding ensure_dir_def by (intro touches_intros)

lemma touches_safe_path: "touches S (validate_safe_path A p d)"
  unfolding validate_safe_path_def found_or_def by (intro touches_intros touches_observe)

lemma touches_import_entries:
  assumes "\<And>rel. ''..'' \<notin> set rel \<Longrightarrow> target @ rel \<in> S"
  shows "touches S (import_entries A source target merge ps)"
proof (induction ps)
  case (Cons p ps)
  show ?case
    unfolding import_entries.simps Let_def
    by (intro touches_intros touches_observe touches_safe_path touches_from_sum_bind touches_copy_to Cons.IH assms)
       (auto simp: validate_target_path_def split: if_splits)
qed (simp add: footprint.keeps_intros)

lemma touches_payload:
  assumes "\<And>rel. ''..'' \<notin> set rel \<Longrightarrow> resolve E DELTASHIP_DIR @ rel \<in> S" "kind \<noteq> ''..''"
  shows "touches S (import_payload E A kind export_dir merge)"
  unfolding import_payload_def walk_entries_def Let_def
  by (intro touches_intros touches_ensure_dir touches_observe touches_import_entries) (use assms in auto)

lemma touches_open_db: "q \<in> S \<Longrightarrow> touches S (open_publisher_db E q)"
  unfolding open_publisher_db_def by (intro touches_intros touches_publisher)

lemma touches_first_imported: "touches S (first_imported E ps original)"
  by (induction ps) (auto intro!: touches_intros)

lemma touches_merge_versions: "t \<in> S \<Longrightarrow> touches S (merge_versions P E t b nb vs)"
  by (induction vs) (auto simp: merge_version_def merged_path_def intro!: touches_intros touches_observe touches_publisher)

lemma touches_merge_binaries: "s \<in> S \<Longrightarrow> t \<in> S \<Longrightarrow> touches S (merge_binaries P E T s t bs)"
  by (induction bs) (auto intro!: touches_intros touches_observe touches_publisher touches_first_imported touches_merge_versions)

lemma touches_import_database:
  "export_dir @ [''publisher.db''] \<in> S \<Longrightarrow> db_file E \<in> S \<Longrightarrow> touches S (import_database P E T export_dir merge)"
  unfolding import_database_def merge_databases_def Let_def
  by (intro touches_intros touches_open_db touches_publisher touches_merge_binaries touches_copy_to)

lemma touches_import_keys:
  "resolve E PUBLIC_KEY_FILE \<in> S \<Longrightarrow> resolve E SIGNING_KEY_FILE \<in> S \<Longrightarrow> touches S (import_keys E export_dir metadata merge)"
  unfolding import_keys_def import_key_def set_owner_only_permissions_def Let_def
  by (intro touches_intros touches_copy_to)

lemma touches_verify_import: "db_file E \<in> S \<Longrightarrow> touches S (verify_import E)"
proof -
  assume db: "db_file E \<in> S"
  have "touches S (count_imported E bs)" for bs
    by (induction bs) (use db in \<open>auto intro!: touches_intros touches_publisher\<close>)
  with db show ?thesis
    unfolding verify_import_def by (intro touches_intros touches_open_db touches_publisher)
qed

lemma key_paths:
  "resolve E PUBLIC_KEY_FILE = resolve E DELTASHIP_DIR @ [''keys'', ''public.key'']"
  "resolve E SIGNING_KEY_FILE = resolve E DELTASHIP_DIR @ [''keys'', ''signing.key'']"
  "db_file E = resolve E DELTASHIP_DIR @ [''publisher.db'']"
  by (simp_all add: PUBLIC_KEY_FILE_def SIGNING_KEY_FILE_def db_file_def DB_FILE_def resolve_def DELTASHIP_DIR_def path_join_def
      path_components_def starts_with_def)

lemma inside_outcome: "stays_inside D T m \<Longrightarrow> stays_inside D T (outcome m)"
  by (rule insider.keeps_outcome)

lemma import_project_inside:
  assumes T: "T = {p. \<exists>n. in_dir (temp_dir A n) p}"
  shows "stays_inside (resolve E DELTASHIP_DIR) T (import_project P E X L A (temp_dir A n) merge overwrite ex)"
proof -
  let ?D = "resolve E DELTASHIP_DIR"
  have find: "touches S (find_export_dir (temp_dir A n))" for S
    unfolding find_export_dir_def by (intro touches_intros)
  have ret: "wp (find_export_dir (temp_dir A n)) (\<lambda>d _. in_dir (temp_dir A n) d) (\<lambda>_ _. True) w" for w :: "pub_content world"
    unfolding find_export_dir_def by (auto intro!: wp_no_change simp: in_dir_def [of "temp_dir A n" "temp_dir A n"])
  have meta: "touches S (read_extracted_metadata P L d)" for S d
    unfolding read_extracted_metadata_def by (intro touches_intros touches_publisher)
  have db: "d @ [''publisher.db''] \<in> T \<union> clean_below ?D" if "in_dir (temp_dir A n) d" for d
    using in_dir_below [OF that] T by auto
  have pay: "\<And>rel. ''..'' \<notin> set rel \<Longrightarrow> ?D @ rel \<in> T \<union> clean_below ?D" by simp
  show ?thesis
    unfolding import_project_def import_binaries_def import_diffs_def
    by (rule insider.keeps_bindE_ret [where P = "in_dir (temp_dir A n)"];
        (intro insider.keeps_intros inside_remove inside_touches [OF find] inside_touches [OF meta] inside_touches [OF touches_ensure_dir]
         inside_touches [OF touches_payload] inside_touches [OF touches_import_database] inside_touches [OF touches_import_keys]
         inside_touches [OF touches_verify_import] db pay)?) (auto simp: key_paths ret)
qed


section \<open>A sample\<close>

text \<open>An archive with a database that has one binary and no version, merged into a project that has other rows.\<close>

definition sample_other_binary :: db_binary where
  "sample_other_binary = sample_app\<lparr>bin_id := ''b2'', bin_name := ''other''\<rparr>"

definition sample_import_libs :: archive_libs where
  "sample_import_libs = \<lparr>untar = (\<lambda>_. Some [Entry sample_tar_entry, Entry (sample_tar_entry\<lparr>te_path := Some ''deltaship-export/publisher.db'', te_data := [2]\<rparr>)]),
     as_database = (\<lambda>b. if b = [2] then Some (empty_publisher_db\<lparr>p_binaries := [sample_other_binary]\<rparr>) else None),
     de_metadata = (\<lambda>_. Some \<lparr>format_version = ''1'', exported_at = [], publisher_version = [], publisher_name = None, includes_keys = False,
        includes_binaries = False, binary_count = 1, version_count = 0\<rparr>)\<rparr>"

definition sample_import_world :: "pub_content world" where
  "sample_import_world = quiet_world [([''in.tar.gz''], File (Bytes [9])), ([''.deltaship''], Dir),
     ([''.deltaship'', ''publisher.db''], File (Database sample_release_db)), ([''new''], File (Bytes sample_new_file))] 0"

abbreviation sample_import :: "(pub_error + nat \<times> nat) \<times> pub_content world" where
  "sample_import \<equiv> import_command sample_publisher_libs sample_publisher_env sample_tool_env sample_import_libs sample_archive_env ''/in.tar.gz'' True False
     sample_import_world"

definition sample_merged_row :: db_binary where
  "sample_merged_row = sample_other_binary\<lparr>bin_id := ''u1'', bin_created_at := ''2025-01-02 00:00:00'', bin_updated_at := ''2025-01-02 00:00:00''\<rparr>"

definition sample_merged_db :: publisher_db where
  "sample_merged_db = sample_release_db\<lparr>p_binaries := p_binaries sample_release_db @ [sample_merged_row]\<rparr>"

lemma sample_import_paths:
  "resolve sample_publisher_env ''/in.tar.gz'' = [''in.tar.gz'']" "resolve sample_publisher_env DELTASHIP_DIR = [''.deltaship'']"
  "resolve sample_publisher_env KEYS_DIR = [''.deltaship'', ''keys'']"
  "validate_archive_entry_path ''deltaship-export/publisher.db'' [''tmp''] = Inr ()"
  "path_join [''tmp''] ''deltaship-export/publisher.db'' = [''tmp'', ''deltaship-export'', ''publisher.db'']"
  by (simp_all add: resolve_def sample_publisher_env_def path_join_def starts_with_def path_components_def DELTASHIP_DIR_def KEYS_DIR_def
      validate_archive_entry_path_def in_dir_def is_ascii_control_def)

definition sample_source_db :: publisher_db where
  "sample_source_db = empty_publisher_db\<lparr>p_binaries := [sample_other_binary]\<rparr>"

abbreviation sample_unpacked :: "nat \<Rightarrow> pub_content world" where
  "sample_unpacked n \<equiv> quiet_world [([''in.tar.gz''], File (Bytes [9])), ([''.deltaship''], Dir),
     ([''.deltaship'', ''publisher.db''], File (Database sample_release_db)), ([''new''], File (Bytes sample_new_file)), ([''tmp''], Dir),
     ([''tmp'', ''deltaship-export''], Dir), ([''tmp'', ''deltaship-export'', ''metadata.json''], File (Bytes [1])),
     ([''tmp'', ''deltaship-export'', ''publisher.db''], File (Database sample_source_db))] n"

lemma sample_unpack:
  "\<exists>n. extract_archive sample_publisher_libs sample_import_libs sample_archive_env [''in.tar.gz''] sample_import_world = (Inr [''tmp''], sample_unpacked n)"
proof -
  have two: "\<not> MAX_TOTAL_UNCOMPRESSED < Suc (Suc 0)" "\<not> MAX_ARCHIVE_ENTRIES < Suc (Suc 0)"
    by (simp_all add: MAX_TOTAL_UNCOMPRESSED_def MAX_ARCHIVE_ENTRIES_def)
  show ?thesis
    by (simp add: sample_import_world_def path_exists_def run_steps run_files extract_archive_def pub_read_def pub_bytes_def make_temp_dir_def
        drop_on_error_def extract_entry_def extract_file_def check_extracted_def content_of_bytes_def in_dir_def sample_entry_path sample_limits
        sample_import_paths sample_import_libs_def sample_archive_env_def sample_tar_entry_def sample_source_db_def two)
qed

lemma sample_merge_simps:
  "binaries_by_name sample_source_db = [sample_other_binary]" "newest_versions ''b2'' sample_source_db = []" "bin_id sample_other_binary = ''b2''"
  "bin_name sample_other_binary = ''other''" "bin_platform sample_other_binary = ''linux-x86_64''"
  "get_db_binary_by_name ''other'' ''linux-x86_64'' sample_release_db = Inr (None, sample_release_db)"
  by (simp_all add: sample_source_db_def binaries_by_name_def newest_versions_def empty_publisher_db_def sort_by_def sample_other_binary_def
      sample_app_def sample_publisher_db_def get_db_binary_by_name_def sample_release_db_def)

lemma sample_merge_insert:
  "insert_binary (probe_path sample_tool_env k (bin_path sample_other_binary)) ''u1'' ''2025-01-02 00:00:00''
     \<lparr>nbin_name = ''other'', nbin_platform = ''linux-x86_64'', nbin_path = bin_path sample_other_binary,
      nbin_description = bin_description sample_other_binary\<rparr> sample_release_db = Inr (sample_merged_row, sample_merged_db)"
proof -
  have "validate_platform ''linux-x86_64'' = Inr ()" by code_simp
  then show ?thesis
    by (simp add: sample_publisher_db_def sample_release_db_def insert_binary_def check_db_def bind_db_def validate_binary_path_def
        sample_tool_env_def insert_binary_row_def get_db_binary_def found_db_def return_db_def sample_merged_row_def sample_merged_db_def
        sample_other_binary_def sample_app_def)
qed

lemma sample_temp_dir: "temp_dir sample_archive_env k = [''tmp'']"
  by (simp add: sample_archive_env_def)

lemma sample_import_ok:
  "\<exists>x w'. sample_import = (Inr x, w') \<and> file_at w' [''.deltaship'', ''publisher.db''] = Some (Database sample_merged_db)"
proof -
  obtain n where n: "extract_archive sample_publisher_libs sample_import_libs sample_archive_env [''in.tar.gz''] sample_import_world
      = (Inr [''tmp''], sample_unpacked n)" using sample_unpack by blast
  have e: "p_clock sample_publisher_env k = ''2025-01-02 00:00:00''" "new_uuid sample_publisher_env k = ''u1''" for k
    by (simp_all add: sample_publisher_env_def)
  have m: "de_metadata sample_import_libs b = Some \<lparr>format_version = ''1'', exported_at = [], publisher_version = [], publisher_name = None,
      includes_keys = False, includes_binaries = False, binary_count = 1, version_count = 0\<rparr>" for b
    by (simp add: sample_import_libs_def)
  have w: "lookup sample_import_world [''in.tar.gz''] = Some (File (Bytes [9]))" "lookup sample_import_world [''.deltaship''] = Some Dir"
    by (simp_all add: sample_import_world_def lookup_def)
  have c: "binaries_by_name sample_merged_db = [sample_app, sample_merged_row]"
    by code_simp
  show ?thesis
    by (simp add: import_command_def need_path_def sample_import_paths path_exists_def run_steps n w drop_after_def import_project_def
        find_export_dir_def read_extracted_metadata_def run_files pub_read_def pub_bytes_def m ensure_dir_def import_database_def
        sample_pub_paths merge_databases_def open_publisher_db_def pub_db_def db_run_def return_db_def list_db_binaries_def list_db_versions_def
        sample_merge_simps sample_merge_insert e import_keys_def import_key_def key_paths verify_import_def c remove_dir_all_def prune_tree_def
        in_dir_def sample_temp_dir file_at_def)
qed


section \<open>Properties\<close>

text \<open>
  C14: merging an archive never costs a project anything. Whatever the archive holds and whatever fails on the way, a merging import leaves every file
  that was there as it was, keys and payload files included, except for the database and the temporary directories; and
  the database still has every binary, every version with its signature, and all diff jobs and settings it had.
\<close>

theorem merge_import_keeps_project:
  assumes "file_at w (db_file E) = Some (Database db)" "\<And>n. \<not> in_dir (temp_dir A n) (db_file E)"
    and "import_command P E T L A input True overwrite w = (r, w')"
  shows "(\<forall>p. (\<forall>n. \<not> in_dir (temp_dir A n) p) \<longrightarrow> p \<noteq> db_file E \<longrightarrow> file_at w p \<noteq> None \<longrightarrow> file_at w' p = file_at w p) \<and>
    (\<exists>db'. file_at w' (db_file E) = Some (Database db') \<and> grows db db')"
proof -
  have "merging E A (file_at w) db w" using assms(1) by (simp add: merging_def grows_refl)
  then have "merging E A (file_at w) db w'" by (rule preservesD [OF merging_import_command [OF assms(2)] _ assms(3)])
  then show ?thesis by (simp add: merging_def)
qed

theorem merge_import_keeps_project_witness:
  "\<exists>x w'. sample_import = (Inr x, w') \<and> file_at w' [''new''] = Some (Bytes sample_new_file) \<and>
     (\<exists>db'. file_at w' (db_file sample_publisher_env) = Some (Database db') \<and> grows sample_release_db db')"
proof -
  obtain x w' where r: "sample_import = (Inr x, w')" using sample_import_ok by blast
  have db: "file_at sample_import_world (db_file sample_publisher_env) = Some (Database sample_release_db)"
    by (simp add: sample_pub_paths sample_import_world_def file_at_def lookup_quiet)
  have temp: "\<not> in_dir (temp_dir sample_archive_env n) (db_file sample_publisher_env)" for n
    by (simp add: sample_temp_dir sample_pub_paths in_dir_def)
  have new: "file_at sample_import_world [''new''] = Some (Bytes sample_new_file)" "[''new''] \<noteq> db_file sample_publisher_env"
      "\<forall>n. \<not> in_dir (temp_dir sample_archive_env n) [''new'']"
    by (simp_all add: sample_temp_dir sample_pub_paths in_dir_def sample_import_world_def file_at_def lookup_quiet)
  have "(\<exists>db'. file_at w' (db_file sample_publisher_env) = Some (Database db') \<and> grows sample_release_db db') \<and>
      file_at w' [''new''] = file_at sample_import_world [''new'']"
    using merge_import_keeps_project [OF db temp r] new by (metis option.distinct(1))
  with r new(1) show ?thesis by auto
qed

text \<open>
  C15: an import stays in its project. Whatever the archive holds, in every mode, a file outside the temporary directories that
  an import changes lies in the directory of the project, and what it writes there has no component that leads upwards.
\<close>

theorem import_confined:
  assumes "import_command P E X L A input merge overwrite w = (r, w')"
    and "\<And>n. \<not> in_dir (temp_dir A n) p" "file_at w' p \<noteq> file_at w p"
  shows "in_dir (resolve E DELTASHIP_DIR) p \<and> (file_at w' p = None \<or> ''..'' \<notin> set (drop (length (resolve E DELTASHIP_DIR)) p))"
proof -
  define T where "T = {p. \<exists>n. in_dir (temp_dir A n) p}"
  let ?D = "resolve E DELTASHIP_DIR"
  have drop: "stays_inside ?D T (remove_dir_all A (temp_dir A n))" for n
    by (rule inside_touches, rule touches_remove_dir_all) (auto simp: T_def)
  have unpack: "stays_inside ?D T (extract_archive P L A q)" for q
    by (rule inside_touches, rule touches_mono [OF touches_extract_archive]) (auto simp: T_def)
  have ret: "wp (extract_archive P L A q) (\<lambda>d _. \<exists>n. d = temp_dir A n) (\<lambda>_ _. True) v" for q v
    by (rule wp_mono [OF wp_extract_archive]) auto
  have "stays_inside ?D T (import_command P E X L A input merge overwrite)"
    unfolding import_command_def need_path_def drop_after_def
    by (intro insider.keeps_intros insider.keeps_bindE_ret [where P = "\<lambda>d. \<exists>n. d = temp_dir A n"])
       (auto intro!: insider.keeps_intros unpack ret inside_outcome import_project_inside [OF T_def] drop)
  then have "inside ?D T w w'" using assms(1) unfolding insider.keeps_def by (metis snd_conv)
  then show ?thesis using assms(2,3) unfolding inside_def T_def clean_below_def by blast
qed

theorem import_confined_witness:
  "\<exists>x w'. sample_import = (Inr x, w') \<and> file_at w' [''.deltaship'', ''publisher.db''] \<noteq> file_at sample_import_world [''.deltaship'', ''publisher.db''] \<and>
     in_dir (resolve sample_publisher_env DELTASHIP_DIR) [''.deltaship'', ''publisher.db'']"
proof -
  obtain x w' where r: "sample_import = (Inr x, w')" "file_at w' [''.deltaship'', ''publisher.db''] = Some (Database sample_merged_db)"
    using sample_import_ok by blast
  have "p_binaries sample_merged_db \<noteq> p_binaries sample_release_db" by (simp add: sample_merged_db_def)
  then have ne: "file_at w' [''.deltaship'', ''publisher.db''] \<noteq> file_at sample_import_world [''.deltaship'', ''publisher.db'']"
    using r(2) by (auto simp: sample_import_world_def file_at_def lookup_quiet)
  have temp: "\<not> in_dir (temp_dir sample_archive_env n) [''.deltaship'', ''publisher.db'']" for n
    by (simp add: sample_temp_dir in_dir_def)
  from import_confined [OF r(1) temp ne] r(1) ne show ?thesis by blast
qed

end
