(* ===== verification/Spec2Isabelle.thy ===== *)
theory Spec2Isabelle
  imports Server Rollback Daemon File_Locks Client_Maintenance Publisher_Verify Publisher_Import
begin

text \<open>
  Deltaship distributes signed software updates. A publisher registers binaries in a project, signs them and uploads them
  with their signatures and diffs to the server; clients ask the server for updates, download a binary or a diff against
  the one they run, check it, install it and can roll it back. This development models the update server
  (\<open>src/crates/deltaship-server\<close>), the client that applies updates (\<open>deltaship-client\<close>), the publisher's tool
  (\<open>deltaship-publisher\<close>), the databases of the two (\<open>deltaship-db\<close>), the generation and application of diffs
  (\<open>deltaship-diff\<close>), and what they share (\<open>deltaship-core\<close>, \<open>deltaship-crypto\<close>).

  \<^bold>\<open>Shared theories.\<close>
  \<^item> \<open>Prelude\<close>: machine integers, three-way comparison and its contract (the locales
    \<open>comparator\<close> and \<open>total_comparator\<close>), byte strings. \<open>Sorting\<close>: the stable sort.
  \<^item> \<open>Core_Version\<close>, \<open>Core_Types\<close> (\<open>deltaship-core\<close>): versions with their precedence, platforms,
    algorithms, rollout percentages, update-check messages.
  \<^item> \<open>Crypto\<close> (\<open>deltaship-crypto\<close>): hexadecimal hashes, the signed message.
  \<^item> \<open>File_System\<close>, \<open>Directory\<close>: \<open>std::fs\<close> with faults. A computation of type \<open>('c, 'e, 'a) io\<close> maps a
    world to a result or an error and a new world; any operation may fail. \<open>wp\<close> is its weakest
    precondition, for total correctness. The locale \<open>world_rel\<close> states what every operation of a program
    preserves; it is interpreted for footprints, catalogs, reading, the tree and the schedule of faults.
  \<^item> \<open>Db_Ops\<close>: operations on a database, what an atomic statement of SQLite does to the file that holds it, and the rules to run
    programs without faults. \<open>Effects\<close>: two calculi for commands, \<open>looks\<close> for programs that only read and \<open>preserves\<close> for
    conditions that survive failures.
  \<^item> \<open>Keys\<close> (\<open>deltaship-crypto\<close>: \<open>keys.rs\<close>): the texts of key files, their encryption and replacement; what was saved is loaded again.

  \<^bold>\<open>The server.\<close>
  \<^item> \<open>Validation\<close> (\<open>validation.rs\<close>): the names a request may carry.
  \<^item> \<open>Rate_Limit\<close> (\<open>rate_limit.rs\<close>), \<open>Server_Auth\<close> (\<open>auth.rs\<close>, \<open>state.rs\<close>): the limiters and the
    authentication in front of the routes; quotas, backoff and identity.
  \<^item> \<open>Catalog\<close> (\<open>models.rs\<close>), \<open>Storage\<close> (\<open>storage.rs\<close>): the documents and the store; catalogs stay well
    formed and change entirely or not at all, and operations stay in the directory of their application.
  \<^item> \<open>Update_Route\<close>, \<open>Download_Route\<close>, \<open>Publish_Route\<close>, \<open>Admin_Route\<close> (\<open>routes/*.rs\<close>, \<open>stats.rs\<close>): the
    handlers; what is published is signed, offered and served.
  \<^item> \<open>Server\<close> (\<open>main.rs\<close>): the requests, the layers they pass, the state of the whole server and the
    states it can reach. This theory: the properties that span the server, and the one that joins the publisher's release
    to the server's check.

  \<^bold>\<open>The client.\<close>
  \<^item> \<open>Db_Models\<close>, \<open>Client_Db\<close> (\<open>deltaship-db\<close>: \<open>models.rs\<close>, \<open>client.rs\<close>, \<open>schema.rs\<close>): the tables of the
    client, every operation with the constraints of the schema, and the consistency all of them keep.
  \<^item> \<open>Client_Checks\<close> (\<open>patcher.rs\<close>, \<open>checker.rs\<close>, \<open>config.rs\<close>): privileged paths, formats, URLs.
  \<^item> \<open>Patch\<close> (\<open>deltaship-diff\<close>: \<open>apply.rs\<close>, \<open>compress.rs\<close>): the bounded patch loop refines what a sequence of
    records means.
  \<^item> \<open>Client_Env\<close>: files, the network and what the client observes of the operating system. Observations
    depend on the number of operations performed, so that two of them may differ: a path can become a link
    between a check and a use.
  \<^item> \<open>Downloader\<close> (\<open>downloader.rs\<close>): attempts, resuming and retries; a resumed download is complete.
  \<^item> \<open>Updater\<close> (\<open>patcher.rs\<close>): backup, diff or full download, verification, installation, restoration and
    bookkeeping. \<open>Update_Sample\<close> is the instance the witnesses run; \<open>Update_Schedule\<close> and \<open>Update_Safety\<close>
    show what a successful and a failed update leave.
  \<^item> \<open>Rollback\<close> (\<open>commands/rollback.rs\<close>): a rollback restores what the publisher signed.
  \<^item> \<open>Update_Check\<close> (\<open>checker.rs\<close>), \<open>Update_Command\<close> (\<open>commands/update.rs\<close>), \<open>Daemon\<close> (\<open>daemon.rs\<close>): asking
    the server, the command and the daemon. The locale \<open>update_loop\<close> states what one turn of a loop over the
    managed binaries promises; it is interpreted for the command and for the daemon, and gives that only
    signed newer versions are installed.
  \<^item> \<open>File_Locks\<close> (\<open>daemon.rs\<close>): the locks as a transition system of interleaved processes.

  \<^item> \<open>Client_Maintenance\<close> (\<open>commands/add.rs\<close>, \<open>commands/cleanup.rs\<close>): registering a binary, removing expired backups,
    interrupted downloads and old history; only what is expired, temporary or old goes.

  \<^bold>\<open>The publisher's tool.\<close>
  \<^item> \<open>Publisher_Db\<close> (\<open>deltaship-db\<close>: \<open>publisher.rs\<close>): its tables, operations and their consistency. \<open>Publisher_Env\<close>: its files and
    what it observes.
  \<^item> \<open>Diff_Manager\<close> (\<open>diff_manager.rs\<close>, \<open>generate.rs\<close>): the diffs of a version with their jobs; only a diff that was checked is completed.
  \<^item> \<open>Publisher_Commands\<close> (\<open>register.rs\<close>, \<open>sign.rs\<close>, \<open>publish.rs\<close>, \<open>diff.rs\<close>, \<open>api_client.rs\<close>): making a release; a version is marked as
    published only after the server has accepted it with all its diffs.
  \<^item> \<open>Publisher_Cleanup\<close> (\<open>commands/cleanup.rs\<close>): clean-up and pruning keep what is recorded and what is newest.
  \<^item> \<open>Publisher_Project\<close> (\<open>config.rs\<close>, \<open>init.rs\<close>, \<open>keygen.rs\<close>, \<open>commands/config.rs\<close>): setting up and configuring a project; its key files and
    its configuration agree, and no configuration command changes the public key.
  \<^item> \<open>Publisher_Verify\<close> (\<open>verify.rs\<close>): the audit of registered versions; a version that passes is published as it was signed.
  \<^item> \<open>Archive\<close> (\<open>archive.rs\<close>), \<open>Publisher_Import\<close> (\<open>import.rs\<close>): reading an archive within its limits and importing it; an import stays
    in its project, and merging never costs the project a file or a row.

  \<^bold>\<open>Bounds.\<close> Every function is total. The retry loops recurse on the number of attempts left
  (\<open>MAX_RETRIES\<close> and \<open>CHECK_RETRIES\<close>, three each, as in the code); the patch loop ends because every round
  consumes its patch; the loop of the daemon, which runs for ever, is given by its first \<open>n\<close> cycles. No fuel
  is needed elsewhere.

  \<^bold>\<open>Parameters.\<close> BLAKE3, SHA-256, Ed25519, Argon2, ChaCha20-Poly1305, zstd, bsdiff, semver, JSON, tar, URL and date parsing and the texts of
  errors are parameters (\<open>libs\<close>, \<open>auth_lib\<close>, \<open>client_libs\<close>, \<open>client_env\<close>, \<open>key_libs\<close>, \<open>publisher_libs\<close>, \<open>tool_libs\<close>, \<open>archive_libs\<close>,
  \<open>verify_libs\<close>).

  \<^bold>\<open>Conditions.\<close> What the properties assume beyond the run they speak of:
  \<^item> Properties of a resumed download, and of the command and the daemon, assume that a failed write leaves its
    file as it was (\<open>no_torn\<close>); the others hold for every schedule of faults, where a failing write may leave anything, except
    those that speak of a service that works (downloading and being offered what was published, rollouts), which assume that reads do not
    fail (\<open>quiet\<close>). For the deprecated \<open>update_catalog\<close>, which has no caller, what a torn write leaves is assumed to be no catalog.
  \<^item> Properties of the client assume that a binary is installed at a normalised path outside the data directory, its signature beside it
    too, not under a name of temporary files, and that its name is valid and its recorded version has no slash (\<open>placed\<close>); those of the
    command and the daemon also that no binary is installed where the signature of another lies (\<open>managed_ok\<close>). \<open>add\<close> does not check
    the places; it also allows two binaries to share their file, which the properties allow for.
  \<^item> The application named by a lone dot, which the validation accepts, has the directory of all applications; the properties of
    the server cover it and say so.
  \<^item> A publisher without a registered public key publishes signatures that the server does not check.

  \<^bold>\<open>Not modelled.\<close> The writer of archives and \<open>export.rs\<close>, which hands files to the tar crate; listings, statistics and
  information commands, which only print; opening and migrating databases beyond what their first statements do; the self-update and
  service files; logging, command lines, mode bits of files, CORS and sockets.
\<close>

section \<open>From publication to offer\<close>

lemma ok_check_update:
  assumes "quiet w" "validate_name app = Inr ()" "query_version L q = Some cur"
    "platform_from_str (q_platform q) = Inr p" "stored_catalog L d app w = Some cat"
    "version_cmp (sv_pre_cmp L) cur (latest_version cat) = Less"
    "find_first (\<lambda>v. version_eq (vi_version v) (latest_version cat) \<and> p \<in> set (vi_platforms v)) (cat_versions cat) = Some vi"
    "lookup w (get_rollout_path d app (sv_show L (latest_version cat))) = None"
  shows "wp (check_update L d app q) (\<lambda>r _. r = update_response L app p cur vi
      (stored_manifest L d app (sv_show L (latest_version cat)) w) None (latest_version cat) (q_device_id_hash q \<noteq> None))
    (\<lambda>_ _. False) w"
proof -
  let ?s = "sv_show L (latest_version cat)"
  obtain w1 where 1: "get_app_catalog L d app w = ((Inr (Some cat) :: (status_code \<times> string) + _), w1)"
      "quiet w1" "lookup w1 = lookup w"
    using ok_readers(1) [OF assms(1), of "\<lambda>r w'. r = stored_catalog L d app w \<and> quiet w' \<and> lookup w' = lookup w"
        L d app "\<lambda>_ _. False"] assms(5) unfolding wp_total by auto
  have "lookup w1 (get_rollout_path d app ?s) \<noteq> Some Dir" "stored_rollout L d app ?s w1 = None"
    using assms(8) 1(3) by (simp_all add: stored_rollout_def file_at_def)
  then obtain w2 where 2: "get_rollout_config L d app ?s w1 = ((Inr None :: (status_code \<times> string) + _), w2)"
      "quiet w2" "lookup w2 = lookup w1"
    using ok_get_rollout_config [OF 1(2), of d app ?s "\<lambda>r w'. r = stored_rollout L d app ?s w1 \<and> quiet w' \<and> lookup w' = lookup w1"
        L "\<lambda>_ _. False"] unfolding wp_total by auto
  have "stored_manifest L d app ?s w2 = stored_manifest L d app ?s w"
    using 1(3) 2(3) by (simp add: stored_manifest_def file_at_def)
  then obtain w3 where 3: "get_version_manifest L d app ?s w2 =
      ((Inr (stored_manifest L d app ?s w) :: (status_code \<times> string) + _), w3)"
    using ok_readers(2) [OF 2(2), of "\<lambda>r w'. r = stored_manifest L d app ?s w2" L d app ?s "\<lambda>_ _. False"]
    unfolding wp_total by auto
  have ver: "(case q_current_version q of None \<Rightarrow> returnE (version_new 0 0 0)
      | Some v \<Rightarrow> map_err (\<lambda>_. (BAD_REQUEST, ''Invalid version: '' @ v)) (from_sum (version_from_str (sv_parse L) v)))
      = returnE cur"
    using assms(3) by (auto simp: query_version_def version_from_str_def from_sum_simps map_err_return
      split: option.splits sum.splits)
  show ?thesis
    unfolding wp_total check_update_def ver Let_def
    by (simp add: bindE_def map_err_def from_sum_def returnE_def assms(2,4,6,7) 1 2 3 rollout_refusal_def)
qed

lemma lawful_show: "lawful L \<Longrightarrow> sv_parse L s = Inr v \<Longrightarrow> sv_show L v = s"
  unfolding lawful_def by blast

lemma find_first_ex: "x \<in> set xs \<Longrightarrow> P x \<Longrightarrow> \<exists>y. find_first P xs = Some y"
  by (induction xs) auto


section \<open>A sample server\<close>

definition sample_auth :: auth_lib where
  "sample_auth = \<lparr>phc_valid = (\<lambda>s. starts_with s ''$argon2id$''), verify_password = (\<lambda>k h. h = ''$argon2id$'' @ k), hash_order = (\<lambda>_. 0)\<rparr>"

definition sample_app_state :: app_state where
  "sample_app_state = \<lparr>api_keys = [''$argon2id$s3cret''], publishers = [(''$argon2id$s3cret'', sample_publisher)],
     auth_failure_limiter = [], trust_proxy = False\<rparr>"

definition sample_connection :: connection where
  "sample_connection = \<lparr>peer_ip = ''10.0.0.1'', forwarded_for = None, presented_key = Some ''s3cret'', auth_time = 0, limit_time = 0\<rparr>"

abbreviation sample_request :: route where
  "sample_request \<equiv> ReqPublish ''app'' ''2.0.0'' (\<lambda>n. (5, n)) sample_form"

lemma sample_wf_state: "wf_state (phc_valid sample_auth) sample_app_state"
  by (simp add: wf_state_def sample_auth_def sample_app_state_def starts_with_def)

lemma sample_handle:
  "\<exists>m k srv'. handle sample_auth sample_libs [] sample_connection sample_request (server_new sample_app_state (sample_world []))
     = (Inr (PublishAnswer (publish_success ''2.0.0'' ''Successfully published version 2.0.0 for app'')), srv') \<and>
     store srv' = sample_published m k"
proof -
  obtain m k where run: "publish_version sample_libs [] ''app'' ''2.0.0'' sample_publisher (\<lambda>n. (5, n)) sample_form
      (sample_world []) = (Inr (publish_success ''2.0.0'' ''Successfully published version 2.0.0 for app''), sample_published m k)"
    using publish_sample by blast
  have auth: "require_api_key (phc_valid sample_auth) (verify_password sample_auth) (hash_order sample_auth) sample_app_state
      ''10.0.0.1'' None (Some ''s3cret'') 0 = (Inr sample_publisher, sample_app_state)"
    by (simp add: require_api_key_def sample_app_state_def sample_auth_def starts_with_def client_ip_def is_blocked_def
      verify_api_key_def record_success_def)
  have lim: "\<exists>l. rate_limit_middleware (hash_order sample_auth) (rate_limiter_new 10 (secs 60)) ''10.0.0.1'' None False 0 = (Some (), l)"
    by (simp add: rate_limit_middleware_def sample_auth_def rate_limiter_new_def check_rate_limit_def client_ip_def MAX_ENTRIES_def Let_def)
  then obtain l where l: "rate_limit_middleware (hash_order sample_auth) (rate_limiter_new 10 (secs 60)) ''10.0.0.1'' None False 0 = (Some (), l)"
    by blast
  show ?thesis
    by (intro exI [of _ m] exI [of _ k])
       (simp add: handle_def protected_def sample_connection_def server_new_def auth limited_def l answer_def bindE_def returnE_def run
         sample_app_state_def [THEN arg_cong, of trust_proxy])
qed

lemma sample_binary: "file_at (sample_published m k) (get_binary_path [] ''app'' ''2.0.0'' LinuxX86_64) = Some (Blob [7, 7])"
  by (simp add: file_at_def lookup_def sample_published_def sample_release_def sample_signed_def sample_dirs_def plain_component_def)

lemma sample_server_ok: "server_ok sample_auth sample_libs [] (server_new sample_app_state (sample_world []))"
  using sample_wf_state
  by (auto simp: server_ok_def server_new_def rate_limiter_new_def catalogs_ok_def stored_catalog_def file_at_def lookup_def
    sample_world_def wf_tree_def split: route_group.splits)


section \<open>Properties of the whole server\<close>

text \<open>
  C1: nothing in the store changes without authority. If handling a request, of whatever kind and
  whatever it carries, changes the content of any file, then the request presented a key that
  verifies against a stored hash, the client was not blocked after failed attempts, and the file
  lies in the directory of an application that the publisher registered for that hash may publish. Of an
  application whose name is a lone dot, which the validation accepts, the directory is the one that
  holds all applications.
\<close>

theorem store_changes_authorised:
  assumes "wf_state (phc_valid A) (app_st srv)" "handle A L d conn r srv = (res, srv')"
    and "file_at (store srv') p \<noteq> file_at (store srv) p"
  shows "\<exists>key hash pub app. presented_key conn = Some key \<and> verify_password A key hash \<and>
    map_of (publishers (app_st srv)) hash = Some pub \<and> can_publish pub app \<and> validate_name app = Inr () \<and>
    in_dir (if app = ''.'' then d @ [''apps''] else d @ [''apps'', app]) p \<and>
    \<not> is_blocked (auth_failure_limiter (app_st srv)) (client_ip (peer_ip conn) (forwarded_for conn) (trust_proxy (app_st srv)))
        (auth_time conn)"
proof (rule store_change [OF assms(2,3)])
  fix pub st
  assume grant: "p \<in> granted d pub"
    and auth: "require_api_key (phc_valid A) (verify_password A) (hash_order A) (app_st srv)
         (peer_ip conn) (forwarded_for conn) (presented_key conn) (auth_time conn) = (Inr pub, st)"
  obtain app where app: "validate_name app = Inr ()" "can_publish pub app" "p \<in> app_files d app"
    using grant unfolding granted_def by blast
  have "in_dir (if app = ''.'' then d @ [''apps''] else d @ [''apps'', app]) p"
    using app(3) app_dir_segment [OF name_slash_free(1) [OF app(1)]] by (auto simp: app_files_def segment_def)
  with require_api_key_sound [OF assms(1) auth] app show ?thesis by blast
qed

theorem store_changes_authorised_witness:
  "\<exists>srv' res. handle sample_auth sample_libs [] sample_connection sample_request (server_new sample_app_state (sample_world []))
       = (res, srv') \<and>
     (\<exists>pub app. map_of (publishers sample_app_state) ''$argon2id$s3cret'' = Some pub \<and> can_publish pub app \<and>
        in_dir (if app = ''.'' then [''apps''] else [''apps'', app]) (get_binary_path [] ''app'' ''2.0.0'' LinuxX86_64))"
proof -
  obtain m k res srv' where run: "handle sample_auth sample_libs [] sample_connection sample_request
      (server_new sample_app_state (sample_world [])) = (res, srv')" "store srv' = sample_published m k"
    using sample_handle by blast
  have change: "file_at (store srv') (get_binary_path [] ''app'' ''2.0.0'' LinuxX86_64) \<noteq>
      file_at (store (server_new sample_app_state (sample_world []))) (get_binary_path [] ''app'' ''2.0.0'' LinuxX86_64)"
    unfolding run(2) sample_binary by (simp add: server_new_def file_at_def lookup_def sample_world_def)
  have "wf_state (phc_valid sample_auth) (app_st (server_new sample_app_state (sample_world [])))"
    using sample_wf_state by (simp add: server_new_def)
  from store_changes_authorised [OF this run(1) change]
  obtain hash pub app where "map_of (publishers sample_app_state) hash = Some pub" "can_publish pub app"
      "in_dir (if app = ''.'' then [] @ [''apps''] else [] @ [''apps'', app]) (get_binary_path [] ''app'' ''2.0.0'' LinuxX86_64)"
    unfolding server_new_def by auto
  moreover from this(1) have "hash = ''$argon2id$s3cret''"
    by (simp add: sample_app_state_def split: if_splits)
  ultimately show ?thesis using run(1) by (metis append_Nil)
qed

text \<open>
  C10: the state of the server stays consistent. In every state reached from a consistent one by any
  sequence of requests from any clients, with any I/O failures on the way and the clean-up tasks running in between, the keys and publishers of
  the authentication state agree, no rate limiter exceeds its capacity or holds a client twice, every
  readable catalog is sorted, free of duplicates and lists its latest version, and every file lies in
  an existing directory.
\<close>

theorem server_stays_ok:
  assumes L: "lawful L" "total_comparator (sv_pre_cmp L)" and "reachable A L d srv0 srv" "server_ok A L d srv0"
  shows "server_ok A L d srv"
  using assms(3,4)
proof (induction rule: reachable.induct)
  case (request srv r conn res srv')
  then show ?case using server_ok_handle [OF L] by blast
qed (auto intro: server_ok_sweep)

theorem server_stays_ok_witness:
  "\<exists>srv. file_at (store srv) (get_binary_path [] ''app'' ''2.0.0'' LinuxX86_64) \<noteq> None \<and>
     server_ok sample_auth sample_libs [] srv"
proof -
  let ?srv = "server_new sample_app_state (sample_world [])"
  obtain m k res srv' where run: "handle sample_auth sample_libs [] sample_connection sample_request ?srv = (res, srv')"
      "store srv' = sample_published m k"
    using sample_handle by blast
  have "reachable sample_auth sample_libs [] ?srv srv'"
    by (rule reachable.request [OF reachable.start run(1)])
  moreover have "total_comparator (sv_pre_cmp sample_libs)" using str.total_comparator_axioms by simp
  ultimately have "server_ok sample_auth sample_libs [] srv'"
    using server_stays_ok [OF lawful_sample _ _ sample_server_ok] by blast
  then show ?thesis using sample_binary run(2) by (metis option.distinct(1))
qed

text \<open>
  C9: what is published reaches the clients. After a successful publication of the version that the
  catalog then names as the latest, while no read fails and no rollout is configured for it, every client of
  the platform the request named that runs an older version is offered that version, with the checksum of
  the bytes the request submitted, which are stored as its binary.
\<close>

theorem published_is_offered:
  assumes L: "lawful L" "comparator (sv_pre_cmp L)"
    and run: "publish_version L d app s pub rng mp w = (Inr r, w')" and quiet: "quiet w'"
    and latest: "stored_catalog L d app w' = Some cat" "sv_parse L s = Inr (latest_version cat)"
    and open_to_all: "lookup w' (get_rollout_path d app s) = None"
  shows "\<exists>p bytes sig. submitted L mp p bytes sig \<and> file_at w' (get_binary_path d app s p) = Some (of_bytes L bytes) \<and>
    (\<forall>q cur. platform_from_str (q_platform q) = Inr p \<longrightarrow> query_version L q = Some cur \<longrightarrow>
       version_cmp (sv_pre_cmp L) cur (latest_version cat) = Less \<longrightarrow>
       (\<exists>resp w'' cs. check_update L d app q w' = (Inr resp, w'') \<and> update_available resp \<and>
          target_version resp = Some (latest_version cat) \<and> resp_checksum resp = Some cs \<and>
          to_lowercase cs = to_lowercase (blake3_hex L (of_bytes L bytes))))"
proof -
  have valid: "validate_name app = Inr ()" using publish_version_validated [OF run] by blast
  obtain p bytes sig where sub: "submitted L mp p bytes sig" and
      pub: "published L d app s (latest_version cat) p bytes sig w'"
    using wpD(1) [OF publish_version_published [OF L] run] latest(2) by auto
  obtain man art cat' vi where st: "file_at w' (get_binary_path d app s p) = Some (of_bytes L bytes)"
      "stored_manifest L d app s w' = Some man" "vm_platforms man p = Some art"
      "to_lowercase (blake3_hex L (of_bytes L bytes)) = to_lowercase (pa_checksum art)"
      "stored_catalog L d app w' = Some cat'" "vi \<in> set (cat_versions cat')"
      "version_eq (vi_version vi) (latest_version cat)" "p \<in> set (vi_platforms vi)"
    using pub unfolding published_def by blast
  have vi: "vi \<in> set (cat_versions cat)" using st(5,6) latest(1) by simp
  obtain x where x: "find_first (\<lambda>v. version_eq (vi_version v) (latest_version cat) \<and> p \<in> set (vi_platforms v))
      (cat_versions cat) = Some x"
    using find_first_ex [OF vi, of "\<lambda>v. version_eq (vi_version v) (latest_version cat) \<and> p \<in> set (vi_platforms v)"] st(7,8)
    by auto
  have "\<exists>resp w'' cs. check_update L d app q w' = (Inr resp, w'') \<and> update_available resp \<and>
      target_version resp = Some (latest_version cat) \<and> resp_checksum resp = Some cs \<and>
      to_lowercase cs = to_lowercase (blake3_hex L (of_bytes L bytes))"
    if "platform_from_str (q_platform q) = Inr p" "query_version L q = Some cur"
      "version_cmp (sv_pre_cmp L) cur (latest_version cat) = Less" for q cur
    using ok_check_update [OF quiet valid that(2,1) latest(1) that(3) x] open_to_all st(2-4)
    unfolding wp_total lawful_show [OF L(1) latest(2)] by (auto simp: update_response_simps)
  with sub st(1) show ?thesis by blast
qed

theorem published_is_offered_witness:
  "\<exists>w' p bytes sig resp w'' cs. submitted sample_libs sample_form p bytes sig \<and>
     file_at w' (get_binary_path [] ''app'' ''2.0.0'' p) = Some (Blob bytes) \<and>
     check_update sample_libs [] ''app'' \<lparr>q_current_version = None, q_platform = platform_as_str p, q_device_id_hash = None\<rparr> w'
       = (Inr resp, w'') \<and>
     target_version resp = Some (version_new 2 0 0) \<and> resp_checksum resp = Some cs"
proof -
  obtain m k r where run: "publish_version sample_libs [] ''app'' ''2.0.0'' sample_publisher (\<lambda>n. (5, n)) sample_form
      (sample_world []) = (Inr r, sample_published m k)"
    using publish_sample by blast
  let ?cat = "catalog_put str_cmp sample_entry (empty_catalog ''app'' (version_new 2 0 0))"
  have cat: "stored_catalog sample_libs [] ''app'' (sample_published m k) = Some ?cat"
    by (simp add: stored_catalog_def file_at_def lookup_def sample_published_def sample_release_def sample_signed_def sample_dirs_def plain_component_def)
  have latest: "latest_version ?cat = version_new 2 0 0"
    by (simp add: catalog_put_simps empty_catalog_def sample_entry_def)
  have none: "lookup (sample_published m k) (get_rollout_path [] ''app'' ''2.0.0'') = None"
    by (simp add: lookup_def sample_published_def sample_release_def sample_signed_def sample_dirs_def plain_component_def)
  have parse: "sv_parse sample_libs ''2.0.0'' = Inr (latest_version ?cat)"
    by (simp add: sample_parse_20 latest)
  have less: "version_cmp str_cmp (version_new 0 0 0) (version_new 2 0 0) = Less" by code_simp
  have cmp: "comparator (sv_pre_cmp sample_libs)" using str.comparator_axioms by simp
  obtain p bytes sig where stored: "submitted sample_libs sample_form p bytes sig"
      "file_at (sample_published m k) (get_binary_path [] ''app'' ''2.0.0'' p) = Some (of_bytes sample_libs bytes)"
    and all: "\<forall>q cur. platform_from_str (q_platform q) = Inr p \<longrightarrow> query_version sample_libs q = Some cur \<longrightarrow>
       version_cmp (sv_pre_cmp sample_libs) cur (latest_version ?cat) = Less \<longrightarrow>
       (\<exists>resp w'' cs. check_update sample_libs [] ''app'' q (sample_published m k) = (Inr resp, w'') \<and> update_available resp \<and>
          target_version resp = Some (latest_version ?cat) \<and> resp_checksum resp = Some cs \<and>
          to_lowercase cs = to_lowercase (blake3_hex sample_libs (of_bytes sample_libs bytes)))"
    using published_is_offered [OF lawful_sample cmp run quiet_sample_published cat parse none] by blast
  let ?q = "\<lparr>q_current_version = None, q_platform = platform_as_str p, q_device_id_hash = None\<rparr>"
  have "\<exists>resp w'' cs. check_update sample_libs [] ''app'' ?q (sample_published m k) = (Inr resp, w'') \<and>
      target_version resp = Some (version_new 2 0 0) \<and> resp_checksum resp = Some cs"
    using all [rule_format, of ?q "version_new 0 0 0"] less unfolding latest
    by (auto simp: query_version_def platform_from_str_as_str)
  with stored show ?thesis unfolding sample_libs_simps by blast
qed

section \<open>The publisher's release and the server's check\<close>

text \<open>
  C7: what the publisher signs and publishes is what the server accepts. Let signatures made with a key verify under
  its public key. After \<open>sign\<close> and then \<open>publish\<close> of the same name and version both return, the server has answered
  with success to an upload of that name and version whose signature passes the check of the publish endpoint for a publisher
  with the public key of the key file, for the hash of the uploaded bytes, unless these bytes no longer have the recorded hash.
\<close>

theorem signed_release_verifies:
  assumes "\<And>key m. ed25519_verify S (ed_public L key) m (ed_sign L key m)"
    and "sign_command K L E T None (Some name) (Some version) key_file passphrase w = (Inr (), w1)"
    and "publish_command P L E T' name version url token yes w1 = (Inr (), w2)"
  shows "\<exists>q key request u. key_in K (file_at w) (resolve E (key_path_of key_file)) q key \<and>
     accepted L T' (publish_form (api_client_new u token) request) \<and> pr_app request = name \<and> pr_version request = version \<and>
     (p_blake3 P (pr_binary request) = pr_checksum request \<longrightarrow>
       (\<forall>pub. pubkey pub = Some (ed_public L key) \<longrightarrow>
         signature_ok S pub (p_blake3 P (pr_binary request)) version (pr_signature request)))"
proof -
  obtain q key and b :: db_binary and v :: db_version and c u where r: "key_in K (file_at w) (resolve E (key_path_of key_file)) q key"
    "accepted L T' (publish_form (api_client_new u token) \<lparr>pr_app = name, pr_version = version, pr_platform = bin_platform b,
      pr_binary = pub_bytes P c, pr_signature = ed_sign L key (signing_payload (ver_blake3 v) version), pr_checksum = ver_blake3 v\<rparr>)"
    using sign_then_publish [OF wpD(1) [OF wp_sign_command assms(2)] wpD(1) [OF wp_publish_command assms(3)]] by blast
  show ?thesis
    by (rule exI [of _ q], rule exI [of _ key], rule exI, rule exI [of _ u], intro conjI, rule r(1), rule r(2))
       (simp_all add: signature_ok_def assms(1))
qed

theorem signed_release_verifies_witness:
  "\<exists>n w2. sample_sign sample_release_world = (Inr (), sample_release_at n) \<and> sample_publish (sample_release_at n) = (Inr (), w2) \<and>
    (\<exists>q key request u. key_in sample_release_keys (file_at sample_release_world) (resolve sample_publisher_env (key_path_of (Some ''/signing.key''))) q key \<and>
     accepted sample_tool_libs sample_tool_env (publish_form (api_client_new u None) request) \<and> pr_app request = ''app'' \<and> pr_version request = ''2.0.0'' \<and>
     (p_blake3 sample_publisher_libs (pr_binary request) = pr_checksum request \<longrightarrow>
       (\<forall>pub. pubkey pub = Some (ed_public sample_tool_libs key) \<longrightarrow>
         signature_ok sample_libs pub (p_blake3 sample_publisher_libs (pr_binary request)) ''2.0.0'' (pr_signature request))))"
proof -
  obtain n where sign: "sample_sign sample_release_world = (Inr (), sample_release_at n)" using sample_sign_ok by blast
  obtain w2 where pub: "sample_publish (sample_release_at n) = (Inr (), w2)" using sample_publish_ok by blast
  have "ed25519_verify sample_libs (ed_public sample_tool_libs key) m (ed_sign sample_tool_libs key m)" for key m
    by (simp add: sample_libs_def)
  from signed_release_verifies [OF this sign pub] sign pub show ?thesis by blast
qed

end
